(* ===== verification/Prelude.thy ===== *)
theory Prelude
  imports Complex_Main "HOL-Library.Multiset"
begin

text \<open>
  Shared vocabulary of the development: JavaScript strings, numbers and dynamically typed
  values, the string functions of the standard library that the front end calls, the stable
  array sort, and the lemma collections the component theories share.

  \<^item> A string is a list of bytes (the UTF-8 form of the JavaScript string). The character-wise
    functions (case mapping, \<^verbatim>\<open>trim\<close>, \<^verbatim>\<open>charAt\<close>) act on the ASCII range, the other bytes are
    left alone.
  \<^item> A finite Number is the rational it prints as; round-off is not modelled.
  \<^item> \<^verbatim>\<open>undefined\<close>, \<^verbatim>\<open>null\<close> and the JSON-like values are the constructors of \<open>jsval\<close>.
\<close>

named_theorems js_eval \<open>unfolding rules that let the simplifier run the standard library\<close>
named_theorems step_inv \<open>preservation of a component's invariant by one of its operations\<close>

section \<open>Dynamically typed values\<close>

datatype jsval =
    JUndef
  | JNull
  | JBool bool
  | JNum rat
  | JStr string
  | JArr "jsval list"
  | JObj "(string \<times> jsval) list"

type_synonym jsobj = "(string \<times> jsval) list"

text \<open>\<^verbatim>\<open>x ?? null\<close> on an optional string, and an optional string as a value.\<close>

definition opt_str :: "string option \<Rightarrow> jsval" where
  "opt_str x = (case x of None \<Rightarrow> JUndef | Some s \<Rightarrow> JStr s)"

definition nullish_str :: "string option \<Rightarrow> jsval" where
  "nullish_str x = (case x of None \<Rightarrow> JNull | Some s \<Rightarrow> JStr s)"

text \<open>\<^verbatim>\<open>Boolean(s)\<close> for an optional string: the empty string is falsy.\<close>

definition truthy :: "string option \<Rightarrow> bool" where
  "truthy x = (case x of None \<Rightarrow> False | Some s \<Rightarrow> s \<noteq> [])"

lemma truthy_simps [simp]:
  "truthy None = False" "truthy (Some s) = (s \<noteq> [])"
  by (simp_all add: truthy_def)

lemma opt_str_simps [simp]:
  "opt_str None = JUndef" "opt_str (Some s) = JStr s"
  "nullish_str None = JNull" "nullish_str (Some s) = JStr s"
  by (simp_all add: opt_str_def nullish_str_def)

text \<open>Reading a property of an object: the last binding of the key wins, a missing key is undefined.\<close>

definition jget :: "jsobj \<Rightarrow> string \<Rightarrow> jsval" where
  "jget ob k = (case map_of (rev ob) k of None \<Rightarrow> JUndef | Some v \<Rightarrow> v)"

text \<open>Assigning a property keeps its place; a new property goes to the end. Spreading assigns in order.\<close>

definition jset :: "string \<Rightarrow> jsval \<Rightarrow> jsobj \<Rightarrow> jsobj" where
  "jset k v ob =
     (if k \<in> fst ` set ob then map (\<lambda>(k', v'). if k' = k then (k', v) else (k', v')) ob else ob @ [(k, v)])"

definition jspread :: "jsobj \<Rightarrow> jsobj \<Rightarrow> jsobj" where
  "jspread ob patch = fold (\<lambda>(k, v). jset k v) patch ob"

lemma map_of_replace:
  "map_of (map (\<lambda>(k', v'). if k' = k then (k', v) else (k', v')) ob) k' =
     (if k' = k then (case map_of ob k of None \<Rightarrow> None | Some _ \<Rightarrow> Some v) else map_of ob k')"
  by (induction ob) auto

lemma jget_jset [simp]: "jget (jset k v ob) k' = (if k' = k then v else jget ob k')"
proof (cases "k \<in> fst ` set ob")
  case True
  then have "map_of (rev ob) k \<noteq> None" by (simp add: map_of_eq_None_iff)
  with True show ?thesis by (auto simp: jset_def jget_def rev_map map_of_replace split: option.splits)
next
  case False
  then show ?thesis by (simp add: jset_def jget_def)
qed

lemma jspread_simps [simp]:
  "jspread ob [] = ob" "jspread ob ((k, v) # fs) = jspread (jset k v ob) fs"
  by (simp_all add: jspread_def)

section \<open>Characters and strings\<close>

definition code_of :: "char \<Rightarrow> nat" where
  "code_of c = of_char c"

definition is_space :: "char \<Rightarrow> bool" where
  "is_space c \<longleftrightarrow> code_of c \<in> {9, 10, 11, 12, 13, 32}"

definition is_digit :: "char \<Rightarrow> bool" where
  "is_digit c \<longleftrightarrow> 48 \<le> code_of c \<and> code_of c \<le> 57"

definition is_upper :: "char \<Rightarrow> bool" where
  "is_upper c \<longleftrightarrow> 65 \<le> code_of c \<and> code_of c \<le> 90"

definition is_lower :: "char \<Rightarrow> bool" where
  "is_lower c \<longleftrightarrow> 97 \<le> code_of c \<and> code_of c \<le> 122"

definition is_alnum :: "char \<Rightarrow> bool" where
  "is_alnum c \<longleftrightarrow> is_digit c \<or> is_upper c \<or> is_lower c"

definition lower_char :: "char \<Rightarrow> char" where
  "lower_char c = (if is_upper c then char_of (code_of c + 32) else c)"

definition upper_char :: "char \<Rightarrow> char" where
  "upper_char c = (if is_lower c then char_of (code_of c - 32) else c)"

definition lowercase :: "string \<Rightarrow> string" where
  "lowercase s = map lower_char s"

definition uppercase :: "string \<Rightarrow> string" where
  "uppercase s = map upper_char s"

definition trim :: "string \<Rightarrow> string" where
  "trim s = rev (dropWhile is_space (rev (dropWhile is_space s)))"

lemma dropWhile_snoc: "\<not> P x \<Longrightarrow> dropWhile P (xs @ [x]) = dropWhile P xs @ [x]"
  by (induction xs) auto

lemma trim_trim: "trim (trim s) = trim s"
proof (cases "dropWhile is_space s")
  case Nil
  then have "trim s = []" by (simp add: trim_def del: dropWhile_eq_Nil_conv)
  then show ?thesis by (simp only:) (simp add: trim_def)
next
  case (Cons x xs)
  then have x: "\<not> is_space x" by (metis hd_dropWhile list.distinct(1) list.sel(1))
  then have "trim s = x # rev (dropWhile is_space (rev xs))" using Cons by (simp add: trim_def dropWhile_snoc)
  then show ?thesis using x by (simp add: trim_def dropWhile_snoc)
qed

definition starts_with :: "string \<Rightarrow> string \<Rightarrow> bool" where
  "starts_with s p \<longleftrightarrow> take (length p) s = p"

fun contains :: "string \<Rightarrow> string \<Rightarrow> bool" where
  "contains [] p = (p = [])"
| "contains (c # s) p = (starts_with (c # s) p \<or> contains s p)"

text \<open>\<^verbatim>\<open>s.split(d)\<close> for a one-character separator: always at least one piece.\<close>

fun split_on :: "char \<Rightarrow> string \<Rightarrow> string list" where
  "split_on d [] = [[]]"
| "split_on d (c # s) =
     (if c = d then [] # split_on d s
      else (case split_on d s of [] \<Rightarrow> [[c]] | w # ws \<Rightarrow> (c # w) # ws))"

text \<open>\<^verbatim>\<open>s.split(/\s+/).filter(Boolean)\<close>: the maximal runs of non-space characters.\<close>

fun words_aux :: "string \<Rightarrow> string \<Rightarrow> string list" where
  "words_aux acc [] = (if acc = [] then [] else [rev acc])"
| "words_aux acc (c # s) =
     (if is_space c then (if acc = [] then words_aux [] s else rev acc # words_aux [] s)
      else words_aux (c # acc) s)"

definition words :: "string \<Rightarrow> string list" where
  "words s = words_aux [] s"

fun join :: "string \<Rightarrow> string list \<Rightarrow> string" where
  "join d [] = []"
| "join d [w] = w"
| "join d (w # ws) = w @ d @ join d ws"

text \<open>\<^verbatim>\<open>s.padStart(n, c)\<close>.\<close>

definition pad_start :: "nat \<Rightarrow> char \<Rightarrow> string \<Rightarrow> string" where
  "pad_start n c s = replicate (n - length s) c @ s"

section \<open>Numbers as strings\<close>

definition digit_char :: "nat \<Rightarrow> char" where
  "digit_char d = char_of (48 + d)"

fun nat_str :: "nat \<Rightarrow> string" where
  "nat_str n = (if n < 10 then [digit_char n] else nat_str (n div 10) @ [digit_char (n mod 10)])"

declare nat_str.simps [simp del]

definition int_str :: "int \<Rightarrow> string" where
  "int_str i = (if i < 0 then CHR ''-'' # nat_str (nat (- i)) else nat_str (nat i))"

text \<open>Reading a string of decimal digits back, most significant first.\<close>

definition digits_val :: "string \<Rightarrow> nat" where
  "digits_val s = foldl (\<lambda>a c. 10 * a + (code_of c - 48)) 0 s"

text \<open>\<^verbatim>\<open>Math.round\<close>: half goes towards plus infinity.\<close>

definition math_round :: "rat \<Rightarrow> int" where
  "math_round x = \<lfloor>x + 1 / 2\<rfloor>"

definition is_int :: "rat \<Rightarrow> bool" where
  "is_int x \<longleftrightarrow> of_int \<lfloor>x\<rfloor> = x"

text \<open>
  \<^verbatim>\<open>x.toFixed(k)\<close> for the magnitudes the code uses: the integer nearest to \<open>x * 10^k\<close>
  (ties away from zero, as the standard's sign-first rule gives), with \<open>k\<close> fraction digits.
\<close>

definition to_fixed :: "nat \<Rightarrow> rat \<Rightarrow> string" where
  "to_fixed k x =
     (let m = nat \<lfloor>\<bar>x\<bar> * 10 ^ k + 1 / 2\<rfloor>;
          w = nat_str (m div 10 ^ k);
          f = pad_start k (CHR ''0'') (nat_str (m mod 10 ^ k))
      in (if x < 0 then ''-'' else '''') @ (if k = 0 then w else w @ CHR ''.'' # f))"

text \<open>
  \<^verbatim>\<open>String(x)\<close> for a number with a finite decimal expansion: the least number of fraction
  digits, at most twenty, that represents it exactly.
\<close>

fun frac_digits :: "nat \<Rightarrow> nat \<Rightarrow> rat \<Rightarrow> nat" where
  "frac_digits 0 k x = k"
| "frac_digits (Suc n) k x = (if is_int (x * 10 ^ k) then k else frac_digits n (Suc k) x)"

definition num_str :: "rat \<Rightarrow> string" where
  "num_str x = (if is_int x then int_str \<lfloor>x\<rfloor> else to_fixed (frac_digits 20 1 x) x)"

section \<open>Arrays\<close>

text \<open>
  \<^verbatim>\<open>xs.sort((a, b) => f(a) - f(b))\<close> is stable since ECMAScript 2019, as
  \<^const>\<open>sort_key\<close> is. Sorting by a decreasing key negates it.
\<close>

definition sort_desc :: "('a \<Rightarrow> int) \<Rightarrow> 'a list \<Rightarrow> 'a list" where
  "sort_desc f = sort_key (\<lambda>x. - f x)"

lemma sort_desc_set [simp]: "set (sort_desc f xs) = set xs"
  by (simp add: sort_desc_def)

lemma sort_desc_mset [simp]: "mset (sort_desc f xs) = mset xs"
  by (simp add: sort_desc_def)

lemma sort_desc_length [simp]: "length (sort_desc f xs) = length xs"
  by (simp add: sort_desc_def)

lemma sort_desc_distinct [simp]: "distinct (sort_desc f xs) = distinct xs"
  by (simp add: sort_desc_def)

lemma sort_desc_sorted: "sorted (map (\<lambda>x. - f x) (sort_desc f xs))"
  by (simp add: sort_desc_def)

text \<open>Stability: the elements of one band keep their order.\<close>

lemma sort_desc_stable: "filter (\<lambda>x. f x = k) (sort_desc f xs) = filter (\<lambda>x. f x = k) xs"
proof -
  have "filter (\<lambda>x. - f x = - k) (sort_key (\<lambda>x. - f x) xs) = filter (\<lambda>x. - f x = - k) xs"
    by (rule sort_key_stable)
  then show ?thesis by (simp add: sort_desc_def)
qed

text \<open>\<^verbatim>\<open>xs.find(p)\<close> is \<^const>\<open>find\<close>; \<^verbatim>\<open>xs.slice(0, n)\<close> is \<^const>\<open>take\<close>.\<close>

lemma find_Some_set: "find p xs = Some x \<Longrightarrow> x \<in> set xs \<and> p x"
  by (auto simp: find_Some_iff)

end
