(* ===== verification/ApiTypes.thy ===== *)
theory ApiTypes
  imports Prelude
begin

text \<open>
  The wire types of \<^verbatim>\<open>web/src/lib/api/types.ts\<close> and \<^verbatim>\<open>web/src/lib/data.ts\<close> that the modelled
  code reads, one record per interface with the fields of the interface. The wrapper
  casts a response without checking it, so a string union that the code inspects with a
  default branch (a status, a kind, a role) is a plain string here; an optional or
  nullable field is an option.
\<close>

section \<open>Errors of the fetch wrapper\<close>

text \<open>The wrapper copies code, message and status from the server's JSON without checking them.\<close>

record api_error =
  err_code :: jsval
  err_message :: jsval
  err_status :: jsval
  err_request_id :: "string option"
  err_url :: string
  err_method :: string
  err_stack :: "string option"

section \<open>Household members and events\<close>

record member =
  mem_id :: string
  mem_name :: string
  mem_full :: "string option"
  mem_role :: string
  mem_display_name :: "string option"
  mem_age_group :: "string option"
  mem_color :: string
  mem_initial :: string
  mem_stars :: int
  mem_streak :: int

record tbd_event =
  ev_id :: string
  ev_title :: string
  ev_start :: "string option"
  ev_end :: "string option"
  ev_members :: "string list option"
  ev_location :: "string option"
  ev_type :: "string option"
  ev_start_time :: "string option"
  ev_end_time :: "string option"
  ev_description :: "string option"
  ev_recurrence_rule :: "string option"
  ev_assigned_members :: "string list option"

section \<open>Tasks, routines, chores and rewards\<close>

record api_adhoc_task =
  ah_id :: string
  ah_household_id :: string
  ah_member_id :: string
  ah_name :: string
  ah_payout_cents :: int
  ah_requires_approval :: bool
  ah_status :: string
  ah_completed_at :: "string option"
  ah_approved_at :: "string option"
  ah_decline_reason :: string
  ah_expires_at :: "string option"
  ah_created_at :: string

record api_routine_step =
  rs_id :: string
  rs_routine_id :: string
  rs_name :: string
  rs_est_minutes :: "rat option"
  rs_sort_order :: int
  rs_icon :: "string option"
  rs_created_at :: string
  rs_updated_at :: string

record api_routine =
  rt_id :: string
  rt_household_id :: string
  rt_name :: string
  rt_member_id :: "string option"
  rt_days_of_week :: "string list"
  rt_time_slot :: string
  rt_archived :: bool
  rt_sort_order :: int
  rt_steps :: "api_routine_step list"
  rt_created_at :: string
  rt_updated_at :: string

record api_chore =
  ch_id :: string
  ch_household_id :: string
  ch_member_id :: string
  ch_name :: string
  ch_weight :: int
  ch_frequency_kind :: string
  ch_days_of_week :: "string list"
  ch_auto_approve :: bool
  ch_archived_at :: "string option"
  ch_created_at :: string
  ch_updated_at :: string
  ch_pet_member_ids :: "string list option"

record api_chore_completion =
  cc_id :: string
  cc_chore_id :: string
  cc_member_id :: string
  cc_date :: string
  cc_marked_at :: string
  cc_approved :: bool
  cc_payout_cents :: int
  cc_closed :: bool

record api_chore_time_entry =
  te_id :: string
  te_chore_id :: string
  te_member_id :: string
  te_started_at :: "string option"
  te_ended_at :: "string option"
  te_duration_seconds :: "rat option"
  te_note :: string
  te_source :: string
  te_created_at :: string

record api_reward =
  rw_id :: string
  rw_household_id :: string
  rw_name :: string
  rw_description :: string
  rw_image_url :: "string option"
  rw_cost_points :: int
  rw_fulfillment_kind :: string
  rw_active :: bool
  rw_created_at :: string
  rw_updated_at :: string

record api_redemption =
  rd_id :: string
  rd_household_id :: string
  rd_reward_id :: string
  rd_member_id :: string
  rd_points_at_redemption :: int
  rd_status :: string
  rd_requested_at :: string
  rd_decided_at :: "string option"
  rd_decided_by_account_id :: "string option"
  rd_fulfilled_at :: "string option"
  rd_decline_reason :: string
  rd_grant_id :: "string option"

end
