(* ===== verification/UnifiedTasks.thy ===== *)
theory UnifiedTasks
  imports ApiTypes "HOL-Library.Product_Lexorder"
begin

text \<open>
  The unified task feed, \<^verbatim>\<open>web/src/lib/unified-tasks.ts\<close>: a pure projection of ad-hoc tasks,
  routines, chores, rewards and redemptions into one list ordered by urgency.
  \<open>unify_tasks\<close> follows the source loop by loop; each loop is one definition.
\<close>

section \<open>Model\<close>

datatype task_kind = KTodo | KRoutine | KChore | KReward | KApproval

datatype reward_state = Available | PendingApproval | Redeemed

record unified_task =
  ut_id :: string
  ut_kind :: task_kind
  ut_title :: string
  ut_member :: "string option"
  ut_reward_state :: "reward_state option"
  ut_priority :: int
  ut_source :: string

text \<open>The three fields of a member the projector reads.\<close>

record member_ref =
  mr_id :: string
  mr_role :: "string option"
  mr_age_group :: "string option"

record unify_sources =
  us_members :: "member_ref list option"
  us_todos :: "api_adhoc_task list option"
  us_routines :: "api_routine list option"
  us_chores :: "api_chore list option"
  us_rewards :: "api_reward list option"
  us_redemptions :: "api_redemption list option"

definition prio_approval :: int where "prio_approval = 100"
definition prio_redemption_pending :: int where "prio_redemption_pending = 80"
definition prio_todo :: int where "prio_todo = 60"
definition prio_routine :: int where "prio_routine = 40"
definition prio_chore :: int where "prio_chore = 40"
definition prio_reward_catalog :: int where "prio_reward_catalog = 20"

lemmas prio_defs = prio_approval_def prio_redemption_pending_def prio_todo_def
  prio_routine_def prio_chore_def prio_reward_catalog_def

definition or_empty :: "'a list option \<Rightarrow> 'a list" where
  "or_empty xs = (case xs of None \<Rightarrow> [] | Some ys \<Rightarrow> ys)"

definition is_pet :: "member_ref list option \<Rightarrow> string option \<Rightarrow> bool" where
  "is_pet members memberId =
     (case members of None \<Rightarrow> False
      | Some ms \<Rightarrow>
          if \<not> truthy memberId then False
          else (case find (\<lambda>m. Some (mr_id m) = memberId) ms of
                  None \<Rightarrow> False
                | Some m \<Rightarrow> mr_role m = Some ''pet'' \<or> mr_age_group m = Some ''pet''))"

definition approval_of_redemption :: "api_redemption \<Rightarrow> unified_task list" where
  "approval_of_redemption r =
     (if rd_status r = ''pending'' then
        [\<lparr>ut_id = ''approval:redemption:'' @ rd_id r, ut_kind = KApproval,
          ut_title = ''Redemption awaiting approval'', ut_member = Some (rd_member_id r),
          ut_reward_state = None, ut_priority = prio_approval, ut_source = rd_id r\<rparr>]
      else [])"

definition approval_of_todo :: "api_adhoc_task \<Rightarrow> unified_task list" where
  "approval_of_todo t =
     (if ah_status t = ''pending'' \<and> ah_requires_approval t then
        [\<lparr>ut_id = ''approval:todo:'' @ ah_id t, ut_kind = KApproval,
          ut_title = ah_name t @ '' (awaiting approval)'', ut_member = Some (ah_member_id t),
          ut_reward_state = None, ut_priority = prio_approval, ut_source = ah_id t\<rparr>]
      else [])"

definition task_of_todo :: "api_adhoc_task \<Rightarrow> unified_task list" where
  "task_of_todo t =
     (if ah_status t \<noteq> ''open'' then []
      else [\<lparr>ut_id = ''todo:'' @ ah_id t, ut_kind = KTodo, ut_title = ah_name t,
             ut_member = Some (ah_member_id t), ut_reward_state = None,
             ut_priority = prio_todo, ut_source = ah_id t\<rparr>])"

definition task_of_routine :: "api_routine \<Rightarrow> unified_task list" where
  "task_of_routine r =
     (if rt_archived r then []
      else [\<lparr>ut_id = ''routine:'' @ rt_id r, ut_kind = KRoutine, ut_title = rt_name r,
             ut_member = rt_member_id r, ut_reward_state = None,
             ut_priority = prio_routine, ut_source = rt_id r\<rparr>])"

definition task_of_chore :: "member_ref list option \<Rightarrow> api_chore \<Rightarrow> unified_task list" where
  "task_of_chore members c =
     (if truthy (ch_archived_at c) then []
      else if is_pet members (Some (ch_member_id c)) then []
      else [\<lparr>ut_id = ''chore:'' @ ch_id c, ut_kind = KChore, ut_title = ch_name c,
             ut_member = Some (ch_member_id c), ut_reward_state = None,
             ut_priority = prio_chore, ut_source = ch_id c\<rparr>])"

text \<open>The \<^verbatim>\<open>redemptionsByReward\<close> map: the redemptions of a reward in input order.\<close>

fun redemptions_by_reward ::
  "(string \<rightharpoonup> api_redemption list) \<Rightarrow> api_redemption list \<Rightarrow> (string \<rightharpoonup> api_redemption list)" where
  "redemptions_by_reward m [] = m"
| "redemptions_by_reward m (r # rs) =
     redemptions_by_reward (m(rd_reward_id r \<mapsto> or_empty (m (rd_reward_id r)) @ [r])) rs"

definition redemption_state :: "string \<Rightarrow> reward_state \<times> int" where
  "redemption_state st =
     (if st = ''pending'' then (PendingApproval, prio_redemption_pending)
      else if st = ''approved'' \<or> st = ''fulfilled'' then (Redeemed, prio_reward_catalog)
      else if st = ''declined'' then (Available, prio_reward_catalog)
      else (Available, prio_reward_catalog))"

definition task_of_redemption :: "api_reward \<Rightarrow> api_redemption \<Rightarrow> unified_task" where
  "task_of_redemption reward red =
     \<lparr>ut_id = ''reward:'' @ rw_id reward @ '':'' @ rd_id red, ut_kind = KReward,
      ut_title = rw_name reward, ut_member = Some (rd_member_id red),
      ut_reward_state = Some (fst (redemption_state (rd_status red))),
      ut_priority = snd (redemption_state (rd_status red)), ut_source = rd_id red\<rparr>"

definition catalog_task :: "api_reward \<Rightarrow> unified_task" where
  "catalog_task reward =
     \<lparr>ut_id = ''reward:'' @ rw_id reward, ut_kind = KReward, ut_title = rw_name reward,
      ut_member = None, ut_reward_state = Some Available,
      ut_priority = prio_reward_catalog, ut_source = rw_id reward\<rparr>"

definition tasks_of_reward ::
  "(string \<rightharpoonup> api_redemption list) \<Rightarrow> api_reward \<Rightarrow> unified_task list" where
  "tasks_of_reward byReward reward =
     (if \<not> rw_active reward then []
      else let reds = or_empty (byReward (rw_id reward)) in
           if reds = [] then [catalog_task reward]
           else map (task_of_redemption reward) reds)"

text \<open>The list \<^verbatim>\<open>out\<close> just before it is sorted.\<close>

definition project_tasks :: "unify_sources \<Rightarrow> unified_task list" where
  "project_tasks s =
     (let redemptions = or_empty (us_redemptions s);
          todos = or_empty (us_todos s);
          byReward = redemptions_by_reward Map.empty redemptions
      in concat (map approval_of_redemption redemptions)
         @ concat (map approval_of_todo todos)
         @ concat (map task_of_todo todos)
         @ concat (map task_of_routine (or_empty (us_routines s)))
         @ concat (map (task_of_chore (us_members s)) (or_empty (us_chores s)))
         @ concat (map (tasks_of_reward byReward) (or_empty (us_rewards s))))"

text \<open>
  The final sort: rows are paired with their position, ordered by descending priority with the
  position as the tie-breaker, and unpaired. Pairs are compared lexicographically.
\<close>

definition unify_tasks :: "unify_sources \<Rightarrow> unified_task list" where
  "unify_tasks s =
     (let out = project_tasks s
      in map fst (sort_key (\<lambda>(t, i). (- ut_priority t, i)) (zip out [0..<length out])))"

definition filter_tasks_by_member :: "unified_task list \<Rightarrow> string option \<Rightarrow> unified_task list" where
  "filter_tasks_by_member tasks memberId =
     (if \<not> truthy memberId then tasks else filter (\<lambda>t. ut_member t = memberId) tasks)"

section \<open>The decorated sort\<close>

lemma sort_key_sorted_id: "sorted (map f xs) \<Longrightarrow> sort_key f xs = xs"
  by (rule properties_for_sort_key) simp_all

lemma decorated_sorted: "sorted (map (\<lambda>(t, i). (c, i)) (filter P (zip xs [m..<n :: nat])))"
proof (induction xs arbitrary: m)
  case Nil
  then show ?case by simp
next
  case (Cons x xs)
  show ?case
  proof (cases "m < n")
    case True
    have "m \<le> i" if "(t, i) \<in> set (filter P (zip xs [Suc m..<n]))" for t i
      using that by (auto dest: set_zip_rightD)
    with Cons[of "Suc m"] True show ?thesis by (auto simp: upt_conv_Cons)
  qed simp
qed

lemma decorated_sort:
  fixes f :: "'a \<Rightarrow> 'b :: linorder"
  shows "map fst (sort_key (\<lambda>(t, i). (f t, i)) (zip xs [0..<length xs])) = sort_key f xs"
    (is "map fst ?ys = _")
proof (rule properties_for_sort_key[symmetric])
  have "mset (map fst ?ys) = mset (map fst (zip xs [0..<length xs]))" by (simp only: mset_map mset_sort)
  then show "mset (map fst ?ys) = mset xs" by simp
next
  fix k assume "k \<in> set (map fst ?ys)"
  let ?P = "\<lambda>(t, i :: nat). f k = f t"
  have "filter (\<lambda>x. f k = f x) (map fst ?ys) = map fst (filter ?P ?ys)"
    by (simp add: filter_map o_def case_prod_beta')
  also have "filter ?P ?ys = sort_key (\<lambda>(t, i). (f t, i)) (filter ?P (zip xs [0..<length xs]))"
    by (rule filter_sort)
  also have "\<dots> = filter ?P (zip xs [0..<length xs])"
  proof (rule sort_key_sorted_id)
    have "map (\<lambda>(t, i). (f t, i)) (filter ?P (zip xs [0..<length xs])) =
        map (\<lambda>(t, i). (f k, i)) (filter ?P (zip xs [0..<length xs]))"
      by (rule map_cong) auto
    then show "sorted (map (\<lambda>(t, i). (f t, i)) (filter ?P (zip xs [0..<length xs])))"
      by (simp only: decorated_sorted)
  qed
  also have "map fst (filter ?P (zip xs [0..<length xs])) =
      filter (\<lambda>x. f k = f x) (map fst (zip xs [0..<length xs]))"
    unfolding filter_map by (simp add: o_def case_prod_beta')
  finally show "filter (\<lambda>x. f k = f x) (map fst ?ys) = filter (\<lambda>x. f k = f x) xs" by simp
next
  have "sorted (map (\<lambda>(t, i). (f t, i)) ?ys)" by (rule sorted_sort_key)
  then show "sorted (map f (map fst ?ys))"
    by (auto simp: sorted_map less_eq_prod_def elim!: sorted_wrt_mono_rel[rotated])
qed

lemma unify_tasks_alt: "unify_tasks s = sort_desc ut_priority (project_tasks s)"
  by (simp add: unify_tasks_def sort_desc_def Let_def decorated_sort)

section \<open>What each loop contributes\<close>

lemma or_empty_simps [simp]: "or_empty None = []" "or_empty (Some xs) = xs"
  by (simp_all add: or_empty_def)

lemma redemptions_by_reward_lookup:
  "or_empty (redemptions_by_reward m rs k) =
     or_empty (m k) @ filter (\<lambda>r. rd_reward_id r = k) rs"
  by (induction rs arbitrary: m) auto

lemma tasks_of_reward_alt:
  "tasks_of_reward (redemptions_by_reward Map.empty rs) reward =
     (if \<not> rw_active reward then []
      else if filter (\<lambda>r. rd_reward_id r = rw_id reward) rs = [] then [catalog_task reward]
      else map (task_of_redemption reward) (filter (\<lambda>r. rd_reward_id r = rw_id reward) rs))"
  by (simp add: tasks_of_reward_def redemptions_by_reward_lookup)

lemmas loop_defs = approval_of_redemption_def approval_of_todo_def task_of_todo_def
  task_of_routine_def task_of_chore_def

text \<open>Kind, priority and identifier of every row.\<close>

lemma priority_of_kind:
  assumes "t \<in> set (project_tasks s)"
  shows "ut_priority t = prio_approval \<longleftrightarrow> ut_kind t = KApproval"
  using assms
  by (auto simp: project_tasks_def Let_def loop_defs tasks_of_reward_alt catalog_task_def
      task_of_redemption_def redemption_state_def prio_defs split: if_splits)

lemma priority_le_approval:
  assumes "t \<in> set (project_tasks s)"
  shows "ut_priority t \<le> prio_approval"
  using assms
  by (auto simp: project_tasks_def Let_def loop_defs tasks_of_reward_alt catalog_task_def
      task_of_redemption_def redemption_state_def prio_defs split: if_splits)

lemma chore_row_owner:
  assumes "t \<in> set (project_tasks s)" and "ut_kind t = KChore"
  shows "\<not> is_pet (us_members s) (ut_member t)"
  using assms
  by (auto simp: project_tasks_def Let_def loop_defs tasks_of_reward_alt catalog_task_def
      task_of_redemption_def split: if_splits)

lemma mem_unify [simp]: "t \<in> set (unify_tasks s) \<longleftrightarrow> t \<in> set (project_tasks s)"
  by (simp add: unify_tasks_alt)


text \<open>In a list sorted by a decreasing key, the elements with the greatest key are a prefix.\<close>

lemma sorted_desc_max_prefix:
  assumes "sorted (map (\<lambda>x. - f x) xs)" and "\<And>x. x \<in> set xs \<Longrightarrow> f x \<le> (m::int)"
  shows "takeWhile (\<lambda>x. f x = m) xs = filter (\<lambda>x. f x = m) xs"
  using assms
proof (induction xs)
  case Nil
  then show ?case by simp
next
  case (Cons x xs)
  show ?case
  proof (cases "f x = m")
    case True
    with Cons show ?thesis by simp
  next
    case False
    with Cons.prems(2)[of x] have "f x < m" by simp
    moreover have "f y \<le> f x" if "y \<in> set xs" for y using Cons.prems(1) that by auto
    ultimately have "\<forall>y \<in> set xs. f y \<noteq> m" by fastforce
    with False show ?thesis by (simp add: filter_empty_conv)
  qed
qed

lemma filter_cong_on:
  assumes "\<And>x. x \<in> set xs \<Longrightarrow> P x = Q x"
  shows "filter P xs = filter Q xs"
  using assms by (simp cong: filter_cong)

lemma takeWhile_cong_on:
  assumes "\<And>x. x \<in> set xs \<Longrightarrow> P x = Q x"
  shows "takeWhile P xs = takeWhile Q xs"
  using assms by (simp cong: takeWhile_cong)

lemma unify_approval_prefix:
  "takeWhile (\<lambda>t. ut_kind t = KApproval) (unify_tasks s) =
     filter (\<lambda>t. ut_kind t = KApproval) (project_tasks s)"
proof -
  let ?p = "\<lambda>t. ut_priority t = prio_approval"
  have "takeWhile (\<lambda>t. ut_kind t = KApproval) (unify_tasks s) = takeWhile ?p (unify_tasks s)"
    by (rule takeWhile_cong_on) (simp add: priority_of_kind)
  also have "\<dots> = filter ?p (unify_tasks s)"
    by (rule sorted_desc_max_prefix)
      (simp_all add: unify_tasks_alt sort_desc_sorted priority_le_approval)
  also have "\<dots> = filter ?p (project_tasks s)"
    by (simp add: unify_tasks_alt sort_desc_stable)
  also have "\<dots> = filter (\<lambda>t. ut_kind t = KApproval) (project_tasks s)"
    by (rule filter_cong_on) (simp add: priority_of_kind)
  finally show ?thesis .
qed

lemma filter_concat_map: "filter P (concat (map f xs)) = concat (map (\<lambda>x. filter P (f x)) xs)"
  by (induction xs) simp_all

lemma approval_filters:
  "filter (\<lambda>t. ut_kind t = KApproval) (approval_of_redemption r) = approval_of_redemption r"
  "filter (\<lambda>t. ut_kind t = KApproval) (approval_of_todo td) = approval_of_todo td"
  "filter (\<lambda>t. ut_kind t = KApproval) (task_of_todo td) = []"
  "filter (\<lambda>t. ut_kind t = KApproval) (task_of_routine rt) = []"
  "filter (\<lambda>t. ut_kind t = KApproval) (task_of_chore ms c) = []"
  "filter (\<lambda>t. ut_kind t = KApproval) (tasks_of_reward m w) = []"
  by (simp_all add: loop_defs tasks_of_reward_def catalog_task_def task_of_redemption_def
      Let_def filter_empty_conv)

lemma project_approvals:
  "filter (\<lambda>t. ut_kind t = KApproval) (project_tasks s) =
     concat (map approval_of_redemption (or_empty (us_redemptions s))) @
     concat (map approval_of_todo (or_empty (us_todos s)))"
  by (simp add: project_tasks_def Let_def filter_concat_map approval_filters)

section \<open>Identifiers\<close>

definition colon_free :: "string \<Rightarrow> bool" where
  "colon_free s \<longleftrightarrow> CHR '':'' \<notin> set s"

lemma colon_split_eq:
  assumes "colon_free a" and "colon_free c"
  shows "a @ CHR '':'' # b = c @ CHR '':'' # d \<longleftrightarrow> a = c \<and> b = d"
  using assms
proof (induction a arbitrary: c)
  case Nil
  then show ?case by (cases c) (auto simp: colon_free_def)
next
  case (Cons x a)
  then show ?case by (cases c) (auto simp: colon_free_def)
qed

lemma colon_free_neq: "colon_free a \<Longrightarrow> a \<noteq> c @ CHR '':'' # d"
  by (auto simp: colon_free_def)

text \<open>A loop that pushes at most one row per element, named by a prefix and the element's key.\<close>

definition row_loop :: "('a \<Rightarrow> unified_task list) \<Rightarrow> string \<Rightarrow> ('a \<Rightarrow> string) \<Rightarrow> bool" where
  "row_loop f p k \<longleftrightarrow> (\<forall>x. f x = [] \<or> (\<exists>t. f x = [t] \<and> ut_id t = p @ k x))"

lemma row_loop_ids:
  assumes "row_loop f p k" and "t \<in> set (concat (map f xs))"
  shows "\<exists>x \<in> set xs. ut_id t = p @ k x"
proof -
  from assms(2) obtain x where x: "x \<in> set xs" "t \<in> set (f x)" by auto
  with assms(1) have "ut_id t = p @ k x"
    unfolding row_loop_def by (metis empty_iff empty_set list.set_cases set_ConsD)
  with x(1) show ?thesis by blast
qed

lemma row_loop_distinct:
  assumes "row_loop f p k" and "distinct (map k xs)"
  shows "distinct (map ut_id (concat (map f xs)))"
  using assms(2)
proof (induction xs)
  case Nil
  then show ?case by simp
next
  case (Cons x xs)
  have IH: "distinct (map ut_id (concat (map f xs)))" using Cons by simp
  show ?case
  proof (cases "f x = []")
    case True
    with IH show ?thesis by simp
  next
    case False
    with assms(1) obtain t where t: "f x = [t]" "ut_id t = p @ k x"
      unfolding row_loop_def by blast
    have "ut_id u \<noteq> ut_id t" if "u \<in> set (concat (map f xs))" for u
    proof
      assume eq: "ut_id u = ut_id t"
      from row_loop_ids[OF assms(1) that] obtain y where "y \<in> set xs" "ut_id u = p @ k y" by blast
      with eq t(2) have "k y = k x" by simp
      with \<open>y \<in> set xs\<close> have "k x \<in> set (map k xs)" by (metis image_eqI set_map)
      with Cons.prems show False by simp
    qed
    then have "ut_id t \<notin> set (map ut_id (concat (map f xs)))" by (metis imageE set_map)
    with IH t(1) show ?thesis by simp
  qed
qed

lemma row_loops:
  "row_loop approval_of_redemption ''approval:redemption:'' rd_id"
  "row_loop approval_of_todo ''approval:todo:'' ah_id"
  "row_loop task_of_todo ''todo:'' ah_id"
  "row_loop task_of_routine ''routine:'' rt_id"
  "row_loop (task_of_chore ms) ''chore:'' ch_id"
  by (simp_all add: row_loop_def loop_defs)

lemma reward_row_ids_distinct:
  assumes "distinct (map rd_id rs)"
  shows "distinct (map ut_id (tasks_of_reward (redemptions_by_reward Map.empty rs) w))"
proof -
  let ?fs = "filter (\<lambda>r. rd_reward_id r = rw_id w) rs"
  have "distinct (map rd_id ?fs)"
    using assms by (induction rs) auto
  then have "distinct (map (\<lambda>r. ''reward:'' @ rw_id w @ '':'' @ rd_id r) ?fs)"
    by (simp add: distinct_map inj_on_def)
  then show ?thesis
    by (simp add: tasks_of_reward_alt task_of_redemption_def comp_def)
qed

definition reward_row_id :: "string \<Rightarrow> string \<Rightarrow> string \<Rightarrow> bool" where
  "reward_row_id p a i \<longleftrightarrow> i = p @ a \<or> (\<exists>d. i = p @ a @ CHR '':'' # d)"

lemma reward_row_ids:
  assumes "t \<in> set (tasks_of_reward (redemptions_by_reward Map.empty rs) w)"
  shows "reward_row_id ''reward:'' (rw_id w) (ut_id t)"
proof (cases "filter (\<lambda>r. rd_reward_id r = rw_id w) rs = []")
  case True
  with assms have "ut_id t = ''reward:'' @ rw_id w"
    by (simp add: tasks_of_reward_alt catalog_task_def split: if_splits)
  then show ?thesis unfolding reward_row_id_def by blast
next
  case False
  with assms obtain r where "t = task_of_redemption w r"
    by (auto simp: tasks_of_reward_alt split: if_splits)
  then have "ut_id t = ''reward:'' @ rw_id w @ CHR '':'' # rd_id r"
    by (simp add: task_of_redemption_def)
  then show ?thesis unfolding reward_row_id_def by blast
qed

lemma reward_row_id_inj:
  assumes "colon_free a" and "colon_free c" and "reward_row_id p a i" and "reward_row_id p c i"
  shows "a = c"
  using assms colon_split_eq[OF assms(1,2)] colon_free_neq[OF assms(1)] colon_free_neq[OF assms(2)]
  unfolding reward_row_id_def by (metis same_append_eq)

lemma reward_ids_distinct:
  assumes "\<forall>w \<in> set ws. colon_free (rw_id w)" and "distinct (map rw_id ws)"
    and "distinct (map rd_id rs)"
  shows "distinct (map ut_id
           (concat (map (tasks_of_reward (redemptions_by_reward Map.empty rs)) ws)))"
  using assms
proof (induction ws)
  case Nil
  then show ?case by simp
next
  case (Cons w ws)
  let ?f = "tasks_of_reward (redemptions_by_reward Map.empty rs)"
  have "ut_id t \<noteq> ut_id u" if "t \<in> set (?f w)" and "v \<in> set ws" and "u \<in> set (?f v)" for t u v
  proof
    assume "ut_id t = ut_id u"
    moreover have "colon_free (rw_id w)" and "colon_free (rw_id v)" using Cons.prems(1) that by auto
    ultimately have "rw_id w = rw_id v"
      using reward_row_id_inj reward_row_ids[OF that(1)] reward_row_ids[OF that(3)] by metis
    with that(2) Cons.prems(2) show False by auto
  qed
  then have "set (map ut_id (?f w)) \<inter> set (map ut_id (concat (map ?f ws))) = {}" by auto
  moreover have "distinct (map ut_id (?f w))"
    by (rule reward_row_ids_distinct) (rule Cons.prems(3))
  moreover have "distinct (map ut_id (concat (map ?f ws)))"
    using Cons by simp
  ultimately show ?case by simp
qed

text \<open>Lists of rows whose identifiers carry incompatible prefixes can be appended.\<close>

definition tagged :: "string \<Rightarrow> unified_task list \<Rightarrow> bool" where
  "tagged p rows \<longleftrightarrow> (\<forall>t \<in> set rows. \<exists>x. ut_id t = p @ x)"

definition no_clash :: "string \<Rightarrow> string \<Rightarrow> bool" where
  "no_clash p q \<longleftrightarrow> (\<forall>x y. p @ x \<noteq> q @ y)"

lemma tagged_disjoint:
  "tagged p a \<Longrightarrow> tagged q b \<Longrightarrow> no_clash p q \<Longrightarrow> set (map ut_id a) \<inter> set (map ut_id b) = {}"
  unfolding tagged_def no_clash_def by fastforce

lemma tagged_concat_distinct:
  assumes "list_all (\<lambda>(p, rows). tagged p rows \<and> distinct (map ut_id rows)) prs"
    and "sorted_wrt (\<lambda>a b. no_clash (fst a) (fst b)) prs"
  shows "distinct (map ut_id (concat (map snd prs)))"
  using assms
proof (induction prs)
  case Nil
  then show ?case by simp
next
  case (Cons pr prs)
  have "set (map ut_id (snd pr)) \<inter> set (map ut_id (snd qs)) = {}" if "qs \<in> set prs" for qs
    using Cons.prems that
    by (intro tagged_disjoint[of "fst pr" _ "fst qs"]) (auto simp: list_all_iff split_beta)
  then have "set (map ut_id (snd pr)) \<inter> set (map ut_id (concat (map snd prs))) = {}" by auto
  with Cons show ?case by (auto simp: split_beta)
qed

lemma row_loop_tagged: "row_loop f p k \<Longrightarrow> tagged p (concat (map f xs))"
  unfolding tagged_def using row_loop_ids by blast

lemma tagged_concat: "(\<And>w. tagged p (f w)) \<Longrightarrow> tagged p (concat (map f ws))"
  by (auto simp: tagged_def)

lemma reward_tagged:
  "tagged ''reward:'' (concat (map (tasks_of_reward (redemptions_by_reward Map.empty rs)) ws))"
proof (rule tagged_concat)
  fix w
  show "tagged ''reward:'' (tasks_of_reward (redemptions_by_reward Map.empty rs) w)"
    unfolding tagged_def
  proof
    fix t assume "t \<in> set (tasks_of_reward (redemptions_by_reward Map.empty rs) w)"
    from reward_row_ids[OF this] show "\<exists>x. ut_id t = ''reward:'' @ x"
      unfolding reward_row_id_def by blast
  qed
qed

section \<open>Properties of the feed\<close>

text \<open>
  C1. The feed is ordered by descending priority, is a permutation of the projected rows, and is
  stable: inside one priority band the rows stay in the order in which the projector pushed them.
\<close>

theorem unify_tasks_ordered:
  "sorted_wrt (\<lambda>a b. ut_priority b \<le> ut_priority a) (unify_tasks s) \<and>
   mset (unify_tasks s) = mset (project_tasks s) \<and>
   filter (\<lambda>t. ut_priority t = k) (unify_tasks s) =
     filter (\<lambda>t. ut_priority t = k) (project_tasks s)"
proof -
  have "sorted_wrt (\<lambda>a b. ut_priority b \<le> ut_priority a) (unify_tasks s)"
    using sort_desc_sorted[of ut_priority "project_tasks s"]
    by (simp add: unify_tasks_alt sorted_map)
  then show ?thesis by (simp add: unify_tasks_alt sort_desc_stable)
qed

text \<open>
  The feed starts with exactly the admin queue: its leading approval rows are the pending
  redemptions in input order, then the pending ad-hoc tasks that require approval in input
  order, and no approval row appears later.
\<close>

theorem unify_tasks_approvals_first:
  "takeWhile (\<lambda>t. ut_kind t = KApproval) (unify_tasks s) =
     concat (map approval_of_redemption (or_empty (us_redemptions s))) @
     concat (map approval_of_todo (or_empty (us_todos s))) \<and>
   filter (\<lambda>t. ut_kind t = KApproval) (unify_tasks s) =
     takeWhile (\<lambda>t. ut_kind t = KApproval) (unify_tasks s)"
proof -
  have "filter (\<lambda>t. ut_kind t = KApproval) (unify_tasks s) =
      filter (\<lambda>t. ut_priority t = prio_approval) (unify_tasks s)"
    by (rule filter_cong_on) (simp add: priority_of_kind)
  also have "\<dots> = filter (\<lambda>t. ut_priority t = prio_approval) (project_tasks s)"
    by (simp add: unify_tasks_alt sort_desc_stable)
  also have "\<dots> = filter (\<lambda>t. ut_kind t = KApproval) (project_tasks s)"
    by (rule filter_cong_on) (simp add: priority_of_kind)
  finally show ?thesis by (simp add: unify_approval_prefix project_approvals)
qed

text \<open>
  The payout guard: no chore row of the feed belongs to a pet, whatever the owner field of
  the chore says.
\<close>

theorem unify_tasks_no_pet_chores:
  assumes "t \<in> set (unify_tasks s)" and "ut_kind t = KChore"
  shows "\<not> is_pet (us_members s) (ut_member t)"
  using assms by (simp add: chore_row_owner)

definition sample_chore :: "string \<Rightarrow> string \<Rightarrow> string list option \<Rightarrow> api_chore" where
  "sample_chore i m pets =
     \<lparr>ch_id = i, ch_household_id = ''h'', ch_member_id = m, ch_name = ''Feed'', ch_weight = 3,
      ch_frequency_kind = ''daily'', ch_days_of_week = [], ch_auto_approve = True,
      ch_archived_at = None, ch_created_at = [], ch_updated_at = [], ch_pet_member_ids = pets\<rparr>"

definition sample_reward :: "string \<Rightarrow> string \<Rightarrow> api_reward" where
  "sample_reward i nm =
     \<lparr>rw_id = i, rw_household_id = ''h'', rw_name = nm, rw_description = [], rw_image_url = None,
      rw_cost_points = 20, rw_fulfillment_kind = ''needs_approval'', rw_active = True,
      rw_created_at = [], rw_updated_at = []\<rparr>"

definition sample_redemption :: "string \<Rightarrow> string \<Rightarrow> string \<Rightarrow> api_redemption" where
  "sample_redemption i w st =
     \<lparr>rd_id = i, rd_household_id = ''h'', rd_reward_id = w, rd_member_id = ''m1'',
      rd_points_at_redemption = 20, rd_status = st, rd_requested_at = [], rd_decided_at = None,
      rd_decided_by_account_id = None, rd_fulfilled_at = None, rd_decline_reason = [],
      rd_grant_id = None\<rparr>"

definition demo_sources :: unify_sources where
  "demo_sources =
     \<lparr>us_members = Some [\<lparr>mr_id = ''m1'', mr_role = Some ''child'', mr_age_group = None\<rparr>,
                         \<lparr>mr_id = ''p1'', mr_role = Some ''pet'', mr_age_group = None\<rparr>],
      us_todos = Some [\<lparr>ah_id = ''t1'', ah_household_id = ''h'', ah_member_id = ''m1'',
        ah_name = ''Wash'', ah_payout_cents = 100, ah_requires_approval = True,
        ah_status = ''open'', ah_completed_at = None, ah_approved_at = None,
        ah_decline_reason = [], ah_expires_at = None, ah_created_at = []\<rparr>],
      us_routines = None,
      us_chores = Some [sample_chore ''c1'' ''m1'' (Some [''p1'']), sample_chore ''c2'' ''p1'' None],
      us_rewards = Some [sample_reward ''w1'' ''Cinema'', sample_reward ''w2'' ''Lego''],
      us_redemptions = Some [sample_redemption ''r1'' ''w1'' ''approved'',
        sample_redemption ''r2'' ''w1'' ''pending'']\<rparr>"

lemmas demo_defs = demo_sources_def sample_chore_def sample_reward_def sample_redemption_def

lemma demo_chore_row: "\<exists>t \<in> set (project_tasks demo_sources). ut_kind t = KChore"
  by (simp add: demo_defs project_tasks_def Let_def loop_defs is_pet_def)

theorem unify_tasks_no_pet_chores_witness:
  "\<exists>t. t \<in> set (unify_tasks demo_sources) \<and> ut_kind t = KChore \<and>
       \<not> is_pet (us_members demo_sources) (ut_member t)"
proof -
  from demo_chore_row obtain t where t: "t \<in> set (unify_tasks demo_sources)" "ut_kind t = KChore"
    by auto
  with unify_tasks_no_pet_chores[OF t] show ?thesis by blast
qed

text \<open>
  Row identifiers cannot collide: when the rows of each source have distinct ids and the
  reward ids hold no colon (they are UUIDs), all identifiers of the feed are distinct, across
  kinds as well.
\<close>

theorem unify_tasks_ids_distinct:
  assumes "distinct (map rd_id (or_empty (us_redemptions s)))"
    and "distinct (map ah_id (or_empty (us_todos s)))"
    and "distinct (map rt_id (or_empty (us_routines s)))"
    and "distinct (map ch_id (or_empty (us_chores s)))"
    and "distinct (map rw_id (or_empty (us_rewards s)))"
    and "\<forall>w \<in> set (or_empty (us_rewards s)). colon_free (rw_id w)"
  shows "distinct (map ut_id (unify_tasks s))"
proof -
  let ?m = "redemptions_by_reward Map.empty (or_empty (us_redemptions s))"
  let ?rows = "[(''approval:redemption:'', concat (map approval_of_redemption (or_empty (us_redemptions s)))),
    (''approval:todo:'', concat (map approval_of_todo (or_empty (us_todos s)))),
    (''todo:'', concat (map task_of_todo (or_empty (us_todos s)))),
    (''routine:'', concat (map task_of_routine (or_empty (us_routines s)))),
    (''chore:'', concat (map (task_of_chore (us_members s)) (or_empty (us_chores s)))),
    (''reward:'', concat (map (tasks_of_reward ?m) (or_empty (us_rewards s))))]"
  have "distinct (map ut_id (concat (map snd ?rows)))"
  proof (rule tagged_concat_distinct)
    show "list_all (\<lambda>(p, rows). tagged p rows \<and> distinct (map ut_id rows)) ?rows"
      using row_loop_tagged[OF row_loops(1)] row_loop_tagged[OF row_loops(2)]
        row_loop_tagged[OF row_loops(3)] row_loop_tagged[OF row_loops(4)]
        row_loop_tagged[OF row_loops(5)] reward_tagged
        row_loop_distinct[OF row_loops(1) assms(1)] row_loop_distinct[OF row_loops(2) assms(2)]
        row_loop_distinct[OF row_loops(3) assms(2)] row_loop_distinct[OF row_loops(4) assms(3)]
        row_loop_distinct[OF row_loops(5) assms(4)] reward_ids_distinct[OF assms(6,5,1)]
      by (simp only: list.pred_inject prod.case simp_thms)
    show "sorted_wrt (\<lambda>a b. no_clash (fst a) (fst b)) ?rows"
      by (simp add: no_clash_def)
  qed
  moreover have "concat (map snd ?rows) = project_tasks s"
    by (simp add: project_tasks_def Let_def)
  ultimately have "distinct (map ut_id (project_tasks s))" by (simp only:)
  then have "distinct (map ut_id (sort_desc ut_priority (project_tasks s)))"
    by (metis distinct_map sort_desc_distinct sort_desc_set)
  then show ?thesis by (simp add: unify_tasks_alt)
qed

theorem unify_tasks_ids_distinct_witness: "distinct (map ut_id (unify_tasks demo_sources))"
  by (rule unify_tasks_ids_distinct) (simp_all add: demo_defs colon_free_def)

text \<open>
  Narrowing commutes with the projection: filtering the finished feed by a member gives the
  sorted list of that member's projected rows, so no row of the member is lost or reordered,
  and no other row appears. Without a member (or with an empty id) the feed is unchanged.
\<close>

theorem filter_tasks_by_member_feed:
  "filter_tasks_by_member (unify_tasks s) m =
     (if truthy m then sort_desc ut_priority (filter (\<lambda>t. ut_member t = m) (project_tasks s))
      else unify_tasks s)"
  by (simp add: filter_tasks_by_member_def unify_tasks_alt sort_desc_def filter_sort)

text \<open>
  Ranking of redemptions: an active reward with redemptions shows one row per redemption, a
  pending one ranks above an open to-do, but an approved redemption, which still awaits its
  fulfilment, is shown as redeemed in the catalog band, below every open to-do.
\<close>

theorem approved_redemption_ranks_below_todo:
  assumes "rw_active w" and "r \<in> set rs" and "rd_reward_id r = rw_id w"
  shows "task_of_redemption w r \<in> set (tasks_of_reward (redemptions_by_reward Map.empty rs) w) \<and>
    (rd_status r = ''pending'' \<longrightarrow> prio_todo < ut_priority (task_of_redemption w r)) \<and>
    (rd_status r = ''approved'' \<longrightarrow>
       ut_reward_state (task_of_redemption w r) = Some Redeemed \<and>
       ut_priority (task_of_redemption w r) < prio_todo)"
  using assms
  by (auto simp: tasks_of_reward_alt task_of_redemption_def redemption_state_def prio_defs
      filter_empty_conv)

theorem approved_redemption_ranks_below_todo_witness:
  "ut_priority (task_of_redemption (hd (or_empty (us_rewards demo_sources)))
     (hd (or_empty (us_redemptions demo_sources)))) < prio_todo"
  using approved_redemption_ranks_below_todo
    [of "hd (or_empty (us_rewards demo_sources))" "hd (or_empty (us_redemptions demo_sources))"
      "or_empty (us_redemptions demo_sources)"]
  by (simp add: demo_defs)

end
