(* ===== verification/DateUtc.thy ===== *)
theory DateUtc
  imports Prelude
begin

text \<open>
  The part of the JavaScript \<^verbatim>\<open>Date\<close> that the front end uses in UTC: day numbers since
  1970-01-01, the civil calendar (\<^verbatim>\<open>DayFromYear\<close>, \<^verbatim>\<open>MakeDay\<close>, \<^verbatim>\<open>YearFromTime\<close> of the
  ECMAScript standard), \<^verbatim>\<open>getUTCDay\<close>, the date part of \<^verbatim>\<open>toISOString\<close> and the parsing of
  \<^verbatim>\<open>YYYY-MM-DD\<close>. The lemmas give the two round trips between day numbers and dates and
  between dates and strings.
\<close>

section \<open>Days and years\<close>

definition leap :: "int \<Rightarrow> bool" where
  "leap y \<longleftrightarrow> (y mod 4 = 0 \<and> y mod 100 \<noteq> 0) \<or> y mod 400 = 0"

definition day_from_year :: "int \<Rightarrow> int" where
  "day_from_year y =
     365 * (y - 1970) + (y - 1969) div 4 - (y - 1901) div 100 + (y - 1601) div 400"

definition year_length :: "int \<Rightarrow> int" where
  "year_length y = (if leap y then 366 else 365)"

lemma div_Suc_int:
  fixes x k :: int
  assumes "0 < k"
  shows "(x + 1) div k = x div k + (if (x + 1) mod k = 0 then 1 else 0)"
proof -
  have x: "x = k * (x div k) + x mod k" "0 \<le> x mod k" "x mod k < k"
    using assms by simp_all
  show ?thesis
  proof (cases "x mod k + 1 = k")
    case True
    with x(1) have e: "x + 1 = k * (x div k + 1) + 0" unfolding distrib_left by linarith
    have "(x + 1) div k = x div k + 1" by (rule int_div_pos_eq[OF e]) (use assms in auto)
    moreover have "(x + 1) mod k = 0" by (rule int_mod_pos_eq[OF e]) (use assms in auto)
    ultimately show ?thesis by simp
  next
    case False
    from x(1) have e: "x + 1 = k * (x div k) + (x mod k + 1)" by simp
    have "(x + 1) div k = x div k"
      by (rule int_div_pos_eq[OF e]) (use x False in auto)
    moreover have "(x + 1) mod k = x mod k + 1"
      by (rule int_mod_pos_eq[OF e]) (use x False in auto)
    ultimately show ?thesis using x(2) by simp
  qed
qed

lemma mod_shift_zero:
  fixes y k :: int
  assumes "k dvd c"
  shows "(y - c) mod k = 0 \<longleftrightarrow> y mod k = 0"
  using assms by (simp add: dvd_diff_left_iff flip: dvd_eq_mod_eq_0)

lemma day_from_year_Suc: "day_from_year (y + 1) = day_from_year y + year_length y"
proof -
  have q4: "(y + 1 - 1969) div 4 = (y - 1969) div 4 + (if y mod 4 = 0 then 1 else 0)"
    using div_Suc_int[of 4 "y - 1969"] mod_shift_zero[of 4 1968 y] by (simp add: algebra_simps)
  have q100: "(y + 1 - 1901) div 100 = (y - 1901) div 100 + (if y mod 100 = 0 then 1 else 0)"
    using div_Suc_int[of 100 "y - 1901"] mod_shift_zero[of 100 1900 y] by (simp add: algebra_simps)
  have q400: "(y + 1 - 1601) div 400 = (y - 1601) div 400 + (if y mod 400 = 0 then 1 else 0)"
    using div_Suc_int[of 400 "y - 1601"] mod_shift_zero[of 400 1600 y] by (simp add: algebra_simps)
  have "(400::int) dvd y \<Longrightarrow> (100::int) dvd y" "(100::int) dvd y \<Longrightarrow> (4::int) dvd y"
    by (auto elim: dvd_trans[rotated])
  then have m: "y mod 400 = 0 \<Longrightarrow> y mod 100 = 0" "y mod 100 = 0 \<Longrightarrow> y mod 4 = 0"
    by (simp_all flip: dvd_eq_mod_eq_0)
  have alg: "365 * (y + 1 - 1970) + (a + i) - (b + j) + (c + k) =
      365 * (y - 1970) + a - b + c + 365 + i - j + k" for a b c i j k :: int by simp
  have e: "day_from_year (y + 1) = day_from_year y + 365 + (if y mod 4 = 0 then 1 else 0)
      - (if y mod 100 = 0 then 1 else 0) + (if y mod 400 = 0 then 1 else 0)"
    unfolding day_from_year_def q4 q100 q400 by (rule alg)
  show ?thesis
    unfolding e year_length_def leap_def
    by (cases "y mod 4 = 0"; cases "y mod 100 = 0"; cases "y mod 400 = 0") (use m in simp_all)
qed

lemma day_from_year_less: "day_from_year y < day_from_year (y + 1)"
  by (simp add: day_from_year_Suc year_length_def)

lemma day_from_year_mono: "y \<le> z \<Longrightarrow> day_from_year y \<le> day_from_year z"
proof (induction "nat (z - y)" arbitrary: z)
  case 0
  then show ?case by simp
next
  case (Suc n)
  then have "day_from_year y \<le> day_from_year (z - 1)" by simp
  also have "\<dots> \<le> day_from_year z" using day_from_year_less[of "z - 1"] by simp
  finally show ?case .
qed

text \<open>An estimate by the mean year of 146097/400 days is off by at most one year.\<close>

definition year_of_day :: "int \<Rightarrow> int" where
  "year_of_day n =
     (let y = 1970 + (400 * n) div 146097
      in if n < day_from_year y then y - 1
         else if day_from_year (y + 1) \<le> n then y + 1 else y)"

lemma div_bounds:
  fixes x k :: int
  assumes "0 < k"
  shows "k * (x div k) \<le> x" and "x < k * (x div k) + k"
proof -
  have "x = k * (x div k) + x mod k" "0 \<le> x mod k" "x mod k < k" using assms by simp_all
  then show "k * (x div k) \<le> x" and "x < k * (x div k) + k" by linarith+
qed

lemma day_from_year_bounds:
  "400 * day_from_year y \<le> 146097 * (y - 1970) + 691"
  "146097 * (y - 1970) - 900 \<le> 400 * day_from_year y"
  using div_bounds[of 4 "y - 1969"] div_bounds[of 100 "y - 1901"] div_bounds[of 400 "y - 1601"]
  unfolding day_from_year_def by simp_all

lemma year_estimate:
  "day_from_year (1970 + (400 * n) div 146097 - 1) \<le> n"
  "n < day_from_year (1970 + (400 * n) div 146097 + 2)"
proof -
  let ?k = "(400 * n) div 146097"
  have k: "146097 * ?k \<le> 400 * n" "400 * n < 146097 * ?k + 146097"
    using div_bounds[of 146097 "400 * n"] by simp_all
  show "day_from_year (1970 + ?k - 1) \<le> n"
    using day_from_year_bounds(1)[of "1970 + ?k - 1"] k(1) by simp
  show "n < day_from_year (1970 + ?k + 2)"
    using day_from_year_bounds(2)[of "1970 + ?k + 2"] k(2) by simp
qed

lemma year_of_day:
  "day_from_year (year_of_day n) \<le> n" "n < day_from_year (year_of_day n + 1)"
  using year_estimate[of n]
  by (auto simp: year_of_day_def Let_def add.assoc)

lemma year_of_day_unique:
  assumes "day_from_year y \<le> n" and "n < day_from_year (y + 1)"
  shows "year_of_day n = y"
proof (rule ccontr)
  assume "year_of_day n \<noteq> y"
  then consider "year_of_day n + 1 \<le> y" | "y + 1 \<le> year_of_day n" by linarith
  then show False
  proof cases
    case 1
    from day_from_year_mono[OF 1] year_of_day(2)[of n] assms(1) show False by linarith
  next
    case 2
    from day_from_year_mono[OF 2] year_of_day(1)[of n] assms(2) show False by linarith
  qed
qed

section \<open>Months\<close>

definition month_start :: "bool \<Rightarrow> nat \<Rightarrow> int" where
  "month_start lp m =
     (if m < 12 then [0, 31, 59, 90, 120, 151, 181, 212, 243, 273, 304, 334] ! m +
        (if lp \<and> 2 \<le> m then 1 else 0)
      else if lp then 366 else 365)"

definition month_of_yday :: "bool \<Rightarrow> int \<Rightarrow> nat" where
  "month_of_yday lp d =
     (if d < month_start lp 1 then 0 else if d < month_start lp 2 then 1
      else if d < month_start lp 3 then 2 else if d < month_start lp 4 then 3
      else if d < month_start lp 5 then 4 else if d < month_start lp 6 then 5
      else if d < month_start lp 7 then 6 else if d < month_start lp 8 then 7
      else if d < month_start lp 9 then 8 else if d < month_start lp 10 then 9
      else if d < month_start lp 11 then 10 else 11)"

lemma month_start_values:
  "month_start lp 0 = 0" "month_start lp 1 = 31"
  "month_start lp 2 = (if lp then 60 else 59)" "month_start lp 3 = (if lp then 91 else 90)"
  "month_start lp 4 = (if lp then 121 else 120)" "month_start lp 5 = (if lp then 152 else 151)"
  "month_start lp 6 = (if lp then 182 else 181)" "month_start lp 7 = (if lp then 213 else 212)"
  "month_start lp 8 = (if lp then 244 else 243)" "month_start lp 9 = (if lp then 274 else 273)"
  "month_start lp 10 = (if lp then 305 else 304)" "month_start lp 11 = (if lp then 335 else 334)"
  "month_start lp 12 = (if lp then 366 else 365)"
  "month_start lp (Suc 0) = 31"
  by (simp_all add: month_start_def)

lemma month_less_12: "month_of_yday lp d < 12"
  by (simp add: month_of_yday_def)

lemma month_of_yday_bounds:
  assumes "0 \<le> d" and "d < month_start lp 12"
  shows "month_start lp (month_of_yday lp d) \<le> d \<and> d < month_start lp (month_of_yday lp d + 1)"
  using assms unfolding month_of_yday_def
  by (cases lp) (simp_all add: month_start_values del: One_nat_def)

text \<open>The month of a day of the year is determined by the bounds.\<close>

lemma month_start_mono:
  assumes "m \<le> n" and "n \<le> 12"
  shows "month_start lp m \<le> month_start lp n"
proof -
  have "\<forall>i \<in> set [0..<12]. month_start lp i \<le> month_start lp (Suc i)"
    by (simp add: upt_rec month_start_def)
  then have up: "month_start lp i \<le> month_start lp (Suc i)" if "i < 12" for i
    using that by simp
  show ?thesis
    using assms
  proof (induction n rule: dec_induct)
    case base
    show ?case by simp
  next
    case (step k)
    then have "month_start lp m \<le> month_start lp k" and "k < 12" by simp_all
    then show ?case using up[of k] by linarith
  qed
qed

lemma month_of_yday_unique:
  assumes "m < 12" and "month_start lp m \<le> d" and "d < month_start lp (m + 1)"
  shows "month_of_yday lp d = m"
proof -
  have "0 \<le> month_start lp m" using month_start_mono[of 0 m lp] assms(1) by (simp add: month_start_values)
  moreover have "month_start lp (m + 1) \<le> month_start lp 12" using assms(1) by (intro month_start_mono) auto
  ultimately have b: "month_start lp (month_of_yday lp d) \<le> d \<and> d < month_start lp (month_of_yday lp d + 1)"
    using assms by (intro month_of_yday_bounds) auto
  show ?thesis
  proof (rule ccontr)
    assume "month_of_yday lp d \<noteq> m"
    then consider "month_of_yday lp d + 1 \<le> m" | "m + 1 \<le> month_of_yday lp d" by linarith
    then show False
    proof cases
      case 1
      have "month_start lp (month_of_yday lp d + 1) \<le> month_start lp m"
        using assms(1) by (intro month_start_mono 1) auto
      with assms b show False by linarith
    next
      case 2
      have "month_start lp (m + 1) \<le> month_start lp (month_of_yday lp d)"
        using month_less_12[of lp d] by (intro month_start_mono 2) auto
      with assms b show False by linarith
    qed
  qed
qed

section \<open>Dates\<close>

text \<open>A date is year, month (0 to 11, as in JavaScript) and day of the month (from 1).\<close>

record civil =
  cv_year :: int
  cv_month :: nat
  cv_day :: int

definition make_day :: "civil \<Rightarrow> int" where
  "make_day c = day_from_year (cv_year c) + month_start (leap (cv_year c)) (cv_month c) + cv_day c - 1"

definition civil_of_day :: "int \<Rightarrow> civil" where
  "civil_of_day n =
     (let y = year_of_day n; d = n - day_from_year y; m = month_of_yday (leap y) d
      in \<lparr>cv_year = y, cv_month = m, cv_day = d - month_start (leap y) m + 1\<rparr>)"

definition month_length :: "int \<Rightarrow> nat \<Rightarrow> int" where
  "month_length y m = month_start (leap y) (m + 1) - month_start (leap y) m"

definition valid_civil :: "civil \<Rightarrow> bool" where
  "valid_civil c \<longleftrightarrow> cv_month c < 12 \<and> 1 \<le> cv_day c \<and> cv_day c \<le> month_length (cv_year c) (cv_month c)"

lemma make_civil: "make_day (civil_of_day n) = n"
  by (simp add: make_day_def civil_of_day_def Let_def)

lemma year_length_month: "month_start (leap y) 12 = year_length y"
  by (simp add: year_length_def month_start_values)

lemma valid_civil_of_day: "valid_civil (civil_of_day n)"
proof -
  let ?y = "year_of_day n" and ?d = "n - day_from_year (year_of_day n)"
  have "0 \<le> ?d" "?d < month_start (leap ?y) 12"
    using year_of_day[of n] by (simp_all add: year_length_month day_from_year_Suc)
  from month_of_yday_bounds[OF this] month_less_12[of "leap ?y" ?d] show ?thesis
    by (simp add: valid_civil_def civil_of_day_def Let_def month_length_def)
qed

lemma civil_make:
  assumes "valid_civil c"
  shows "civil_of_day (make_day c) = c"
proof -
  let ?lp = "leap (cv_year c)" and ?n = "make_day c"
  have m: "cv_month c < 12" and d: "1 \<le> cv_day c" "cv_day c \<le> month_length (cv_year c) (cv_month c)"
    using assms by (simp_all add: valid_civil_def)
  have lo: "0 \<le> month_start ?lp (cv_month c)"
    using month_start_mono[of 0 "cv_month c" ?lp] m by (simp add: month_start_values)
  have hi: "month_start ?lp (cv_month c + 1) \<le> month_start ?lp 12"
    using m by (intro month_start_mono) auto
  have y: "year_of_day ?n = cv_year c"
  proof (rule year_of_day_unique)
    show "day_from_year (cv_year c) \<le> ?n" using lo d by (simp add: make_day_def)
    show "?n < day_from_year (cv_year c + 1)"
      using hi d by (simp add: make_day_def day_from_year_Suc year_length_month month_length_def)
  qed
  have mo: "month_of_yday ?lp (?n - day_from_year (cv_year c)) = cv_month c"
    by (rule month_of_yday_unique[OF m]) (use d in \<open>simp_all add: make_day_def month_length_def\<close>)
  show ?thesis
    by (simp add: civil_of_day_def Let_def y mo) (simp add: make_day_def)
qed

section \<open>Week days\<close>

text \<open>\<^verbatim>\<open>getUTCDay()\<close>: 0 is Sunday; 1970-01-01 was a Thursday.\<close>

definition utc_day :: "int \<Rightarrow> int" where
  "utc_day n = (n + 4) mod 7"

lemma utc_day_range: "0 \<le> utc_day n" "utc_day n < 7"
  by (simp_all add: utc_day_def)

section \<open>Date values and strings\<close>

text \<open>
  A \<^verbatim>\<open>Date\<close> holds milliseconds since the epoch or is invalid (\<open>None\<close>); \<open>time_clip\<close> is the
  range check every constructor and setter ends with. \<^verbatim>\<open>toISOString\<close> raises a RangeError on
  an invalid date, which is \<open>None\<close> here.
\<close>

definition ms_per_day :: int where "ms_per_day = 86400000"

definition time_clip :: "int \<Rightarrow> int option" where
  "time_clip t = (if \<bar>t\<bar> \<le> 8640000000000000 then Some t else None)"

definition day_of_ms :: "int \<Rightarrow> int" where
  "day_of_ms t = t div ms_per_day"

text \<open>\<^verbatim>\<open>d.setUTCDate(d.getUTCDate() + k)\<close>: the same time of day, \<open>k\<close> days later.\<close>

definition add_utc_days :: "int \<Rightarrow> int \<Rightarrow> int option" where
  "add_utc_days k t = time_clip (t + k * ms_per_day)"

definition pad_num :: "nat \<Rightarrow> int \<Rightarrow> string" where
  "pad_num k v = pad_start k (CHR ''0'') (nat_str (nat v))"

definition iso_year :: "int \<Rightarrow> string" where
  "iso_year y = (if 0 \<le> y \<and> y \<le> 9999 then pad_num 4 y
     else (if y < 0 then ''-'' else ''+'') @ pad_num 6 \<bar>y\<bar>)"

definition iso_ymd :: "int \<Rightarrow> string" where
  "iso_ymd n =
     (let c = civil_of_day n
      in iso_year (cv_year c) @ ''-'' @ pad_num 2 (int (cv_month c) + 1) @ ''-'' @ pad_num 2 (cv_day c))"

definition iso_string :: "int \<Rightarrow> string" where
  "iso_string t =
     (let r = t mod ms_per_day
      in iso_ymd (day_of_ms t) @ ''T'' @ pad_num 2 (r div 3600000) @ '':'' @
         pad_num 2 (r div 60000 mod 60) @ '':'' @ pad_num 2 (r div 1000 mod 60) @ ''.'' @
         pad_num 3 (r mod 1000) @ ''Z'')"

text \<open>\<^verbatim>\<open>d.toISOString().slice(0, 10)\<close>.\<close>

definition iso_date :: "int \<Rightarrow> string" where
  "iso_date t = take 10 (iso_string t)"

text \<open>\<^verbatim>\<open>new Date("YYYY-MM-DD")\<close>: midnight UTC of a valid calendar date.\<close>

definition parse_ymd :: "string \<Rightarrow> int option" where
  "parse_ymd s =
     (if length s = 10 \<and> s ! 4 = CHR ''-'' \<and> s ! 7 = CHR ''-'' \<and>
         list_all is_digit (take 4 s @ take 2 (drop 5 s) @ drop 8 s)
      then (let m = digits_val (take 2 (drop 5 s));
                c = \<lparr>cv_year = int (digits_val (take 4 s)), cv_month = m - 1,
                     cv_day = int (digits_val (drop 8 s))\<rparr>
            in if 1 \<le> m \<and> valid_civil c then Some (make_day c) else None)
      else None)"

lemma digits_val_append:
  "digits_val (a @ b) = digits_val a * 10 ^ length b + digits_val b"
proof -
  have "foldl (\<lambda>a c. 10 * a + (code_of c - 48)) n b =
      n * 10 ^ length b + foldl (\<lambda>a c. 10 * a + (code_of c - 48)) 0 b" for n
  proof (induction b arbitrary: n rule: rev_induct)
    case Nil
    then show ?case by simp
  next
    case (snoc x b)
    have "foldl (\<lambda>a c. 10 * a + (code_of c - 48)) n (b @ [x]) =
        10 * foldl (\<lambda>a c. 10 * a + (code_of c - 48)) n b + (code_of x - 48)" by simp
    also have "\<dots> = 10 * (n * 10 ^ length b + foldl (\<lambda>a c. 10 * a + (code_of c - 48)) 0 b)
        + (code_of x - 48)" by (subst snoc.IH) simp
    finally show ?case by (simp add: algebra_simps)
  qed
  from this[of "digits_val a"] show ?thesis unfolding digits_val_def foldl_append .
qed

lemma code_digit_char: "d < 10 \<Longrightarrow> code_of (digit_char d) = 48 + d"
  by (simp add: code_of_def digit_char_def)

lemma digit_char_is_digit: "d < 10 \<Longrightarrow> is_digit (digit_char d)"
  by (simp add: is_digit_def code_digit_char)

lemma nat_str_digits: "list_all is_digit (nat_str n)"
proof (induction n rule: nat_str.induct)
  case (1 n)
  then show ?case by (subst nat_str.simps) (simp add: digit_char_is_digit)
qed

lemma digits_val_single: "d < 10 \<Longrightarrow> digits_val [digit_char d] = d"
  by (simp add: digits_val_def code_digit_char)

lemma digits_nat_str: "digits_val (nat_str n) = n"
proof (induction n rule: nat_str.induct)
  case (1 n)
  show ?case
  proof (cases "n < 10")
    case True
    then show ?thesis by (subst nat_str.simps) (simp add: digits_val_single)
  next
    case False
    with 1 have "digits_val (nat_str (n div 10)) = n div 10" by simp
    with False show ?thesis
      by (subst nat_str.simps) (simp add: digits_val_append digits_val_single)
  qed
qed

lemma nat_str_length: "n < 10 ^ k \<Longrightarrow> 0 < k \<Longrightarrow> length (nat_str n) \<le> k"
proof (induction n arbitrary: k rule: nat_str.induct)
  case (1 n)
  show ?case
  proof (cases "n < 10")
    case True
    with 1 show ?thesis by (subst nat_str.simps) simp
  next
    case False
    with "1.prems" obtain k' where k: "k = Suc k'" "0 < k'"
      by (metis Suc_pred not_gr_zero power_0 power_Suc mult.right_neutral)
    then have "n div 10 < 10 ^ k'" using "1.prems" by (simp add: less_mult_imp_div_less mult.commute)
    with 1 False k have "length (nat_str (n div 10)) \<le> k'" by simp
    with False k show ?thesis by (subst nat_str.simps) simp
  qed
qed

lemma digits_val_zeros: "digits_val (replicate k (CHR ''0'')) = 0"
  by (induction k) (simp_all add: digits_val_def code_of_def)

lemma pad_num_props:
  assumes "0 \<le> v" and "nat v < 10 ^ k" and "0 < k"
  shows "length (pad_num k v) = k" "digits_val (pad_num k v) = nat v"
    "list_all is_digit (pad_num k v)"
proof -
  have "length (nat_str (nat v)) \<le> k" using assms by (intro nat_str_length) auto
  then show "length (pad_num k v) = k" by (simp add: pad_num_def pad_start_def)
  show "digits_val (pad_num k v) = nat v"
    by (simp add: pad_num_def pad_start_def digits_val_append digits_val_zeros digits_nat_str)
  show "list_all is_digit (pad_num k v)"
    by (simp add: pad_num_def pad_start_def nat_str_digits list_all_iff is_digit_def code_of_def)
      (use nat_str_digits in \<open>auto simp: list_all_iff is_digit_def code_of_def\<close>)
qed

section \<open>The round trip between days and strings\<close>

lemma month_length_bound: "m < 12 \<Longrightarrow> month_length y m \<le> 31"
proof -
  assume "m < 12"
  then have "m \<in> set [0..<12]" by simp
  moreover have "\<forall>i \<in> set [0..<12]. month_start lp (i + 1) - month_start lp i \<le> 31" for lp
    by (simp add: upt_rec month_start_def)
  ultimately show ?thesis by (auto simp: month_length_def)
qed

lemma ymd_slices:
  assumes "length a = 4" "length b = 2" "length c = 2"
  shows "length (a @ x # b @ y # c) = 10" "(a @ x # b @ y # c) ! 4 = x"
    "(a @ x # b @ y # c) ! 7 = y" "take 4 (a @ x # b @ y # c) = a"
    "take 2 (drop 5 (a @ x # b @ y # c)) = b" "drop 8 (a @ x # b @ y # c) = c"
  using assms by (simp_all add: nth_append)

lemma iso_ymd_parts:
  assumes "0 \<le> cv_year (civil_of_day n)" and "cv_year (civil_of_day n) \<le> 9999"
  shows "\<exists>a b c. iso_ymd n = a @ CHR ''-'' # b @ CHR ''-'' # c \<and> length a = 4 \<and> length b = 2 \<and>
    length c = 2 \<and> list_all is_digit (a @ b @ c) \<and>
    int (digits_val a) = cv_year (civil_of_day n) \<and> digits_val b = cv_month (civil_of_day n) + 1 \<and>
    int (digits_val c) = cv_day (civil_of_day n)"
proof -
  let ?c = "civil_of_day n"
  have v: "cv_month ?c < 12" "1 \<le> cv_day ?c" "cv_day ?c \<le> 31"
    using valid_civil_of_day[of n] month_length_bound[of "cv_month ?c" "cv_year ?c"]
    by (auto simp: valid_civil_def)
  have y: "length (pad_num 4 (cv_year ?c)) = 4" "digits_val (pad_num 4 (cv_year ?c)) = nat (cv_year ?c)"
    "list_all is_digit (pad_num 4 (cv_year ?c))"
    using assms by (auto intro!: pad_num_props)
  have m: "length (pad_num 2 (int (cv_month ?c) + 1)) = 2"
    "digits_val (pad_num 2 (int (cv_month ?c) + 1)) = nat (int (cv_month ?c) + 1)"
    "list_all is_digit (pad_num 2 (int (cv_month ?c) + 1))"
    using v(1) by (auto intro!: pad_num_props)
  have d: "length (pad_num 2 (cv_day ?c)) = 2" "digits_val (pad_num 2 (cv_day ?c)) = nat (cv_day ?c)"
    "list_all is_digit (pad_num 2 (cv_day ?c))"
    using v by (auto intro!: pad_num_props)
  have "iso_ymd n = pad_num 4 (cv_year ?c) @ CHR ''-'' # pad_num 2 (int (cv_month ?c) + 1) @
      CHR ''-'' # pad_num 2 (cv_day ?c)"
    using assms by (simp add: iso_ymd_def iso_year_def Let_def)
  with y m d v assms show ?thesis
    by (intro exI[of _ "pad_num 4 (cv_year ?c)"] exI[of _ "pad_num 2 (int (cv_month ?c) + 1)"]
        exI[of _ "pad_num 2 (cv_day ?c)"]) simp
qed

lemma iso_ymd_length:
  assumes "0 \<le> cv_year (civil_of_day n)" and "cv_year (civil_of_day n) \<le> 9999"
  shows "length (iso_ymd n) = 10"
  using iso_ymd_parts[OF assms] by force

lemma iso_date_eq:
  assumes "0 \<le> cv_year (civil_of_day (day_of_ms t))" and "cv_year (civil_of_day (day_of_ms t)) \<le> 9999"
  shows "iso_date t = iso_ymd (day_of_ms t)"
  using iso_ymd_length[OF assms] by (simp add: iso_date_def iso_string_def Let_def)

lemma parse_iso_ymd:
  assumes "0 \<le> cv_year (civil_of_day n)" and "cv_year (civil_of_day n) \<le> 9999"
  shows "parse_ymd (iso_ymd n) = Some n"
proof -
  from iso_ymd_parts[OF assms] obtain a b c where p:
    "iso_ymd n = a @ CHR ''-'' # b @ CHR ''-'' # c" "length a = 4" "length b = 2" "length c = 2"
    "list_all is_digit (a @ b @ c)" "int (digits_val a) = cv_year (civil_of_day n)"
    "digits_val b = cv_month (civil_of_day n) + 1" "int (digits_val c) = cv_day (civil_of_day n)"
    by blast
  have e: "\<lparr>cv_year = int (digits_val a), cv_month = digits_val b - 1, cv_day = int (digits_val c)\<rparr> =
      civil_of_day n"
    by (simp add: p)
  show ?thesis
    unfolding parse_ymd_def p(1) ymd_slices[OF p(2-4)] Let_def e
    by (simp only: p(5) valid_civil_of_day make_civil) (simp add: p)
qed

text \<open>Day numbers whose date has a four digit year: 0000-01-01 to 9999-12-31.\<close>

definition four_digit_day :: "int \<Rightarrow> bool" where
  "four_digit_day n \<longleftrightarrow> -719528 \<le> n \<and> n \<le> 2932896"

lemma four_digit_year:
  assumes "four_digit_day n"
  shows "0 \<le> cv_year (civil_of_day n)" "cv_year (civil_of_day n) \<le> 9999"
proof -
  have c: "cv_year (civil_of_day n) = year_of_day n" by (simp add: civil_of_day_def Let_def)
  show "0 \<le> cv_year (civil_of_day n)"
  proof (rule ccontr)
    assume "\<not> ?thesis"
    then have "year_of_day n + 1 \<le> 0" by (simp add: c)
    from day_from_year_mono[OF this] year_of_day(2)[of n] assms show False
      by (simp add: four_digit_day_def day_from_year_def)
  qed
  show "cv_year (civil_of_day n) \<le> 9999"
  proof (rule ccontr)
    assume "\<not> ?thesis"
    then have "10000 \<le> year_of_day n" by (simp add: c)
    from day_from_year_mono[OF this] year_of_day(1)[of n] assms show False
      by (simp add: four_digit_day_def day_from_year_def)
  qed
qed

lemmas parse_iso_four_digit = parse_iso_ymd[OF four_digit_year]

section \<open>Parsing date-time strings\<close>

text \<open>
  \<^verbatim>\<open>Date.parse\<close> on the standard's date-time format: a date alone is UTC, a zone is \<^verbatim>\<open>Z\<close> or
  an offset, and a date-time without a zone is local time, which \<open>loc\<close> turns into UTC. A
  string outside the format gives an invalid date.
\<close>

definition two_digits :: "string \<Rightarrow> int option" where
  "two_digits s =
     (if 2 \<le> length s \<and> list_all is_digit (take 2 s) then Some (int (digits_val (take 2 s))) else None)"

definition parse_zone :: "(int \<Rightarrow> int) \<Rightarrow> int \<Rightarrow> string \<Rightarrow> int option" where
  "parse_zone loc t s =
     (if s = [] then Some (loc t)
      else if s = ''Z'' then Some t
      else if length s = 6 \<and> (s ! 0 = CHR ''+'' \<or> s ! 0 = CHR ''-'') \<and> s ! 3 = CHR '':'' then
        (case (two_digits (take 2 (drop 1 s)), two_digits (drop 4 s)) of
           (Some h, Some m) \<Rightarrow>
             if h \<le> 23 \<and> m \<le> 59
             then Some (if s ! 0 = CHR ''+'' then t - (h * 60 + m) * 60000 else t + (h * 60 + m) * 60000)
             else None
         | _ \<Rightarrow> None)
      else None)"

definition parse_frac :: "(int \<Rightarrow> int) \<Rightarrow> int \<Rightarrow> string \<Rightarrow> int option" where
  "parse_frac loc t s =
     (if s \<noteq> [] \<and> hd s = CHR ''.'' then
        (let ds = takeWhile is_digit (tl s)
         in if ds = [] then None
            else parse_zone loc (t + int (digits_val (take 3 (ds @ ''00'')))) (dropWhile is_digit (tl s)))
      else parse_zone loc t s)"

definition parse_time :: "(int \<Rightarrow> int) \<Rightarrow> int \<Rightarrow> string \<Rightarrow> int option" where
  "parse_time loc t s =
     (case (two_digits s, two_digits (drop 3 s)) of
        (Some h, Some m) \<Rightarrow>
          if s ! 2 \<noteq> CHR '':'' \<or> 23 < h \<or> 59 < m then None
          else if 5 < length s \<and> s ! 5 = CHR '':'' then
            (case two_digits (drop 6 s) of
               None \<Rightarrow> None
             | Some sec \<Rightarrow>
                 if 59 < sec then None
                 else parse_frac loc (t + h * 3600000 + m * 60000 + sec * 1000) (drop 8 s))
          else parse_zone loc (t + h * 3600000 + m * 60000) (drop 5 s)
      | _ \<Rightarrow> None)"

definition date_parse :: "(int \<Rightarrow> int) \<Rightarrow> string \<Rightarrow> int option" where
  "date_parse loc s =
     (case parse_ymd (take 10 s) of
        None \<Rightarrow> None
      | Some n \<Rightarrow>
          (case drop 10 s of
             [] \<Rightarrow> Some (n * ms_per_day)
           | c # r \<Rightarrow> if c = CHR ''T'' then parse_time loc (n * ms_per_day) r else None))"

lemma two_digits_pad:
  assumes "0 \<le> v" "v < 100"
  shows "two_digits (pad_num 2 v @ r) = Some v"
proof -
  have "length (pad_num 2 v) = 2" "digits_val (pad_num 2 v) = nat v" "list_all is_digit (pad_num 2 v)"
    using assms by (auto intro!: pad_num_props)
  with assms show ?thesis by (simp add: two_digits_def)
qed

lemma parse_frac_millis:
  assumes "0 \<le> v" "v < 1000"
  shows "parse_frac loc t (CHR ''.'' # pad_num 3 v @ ''Z'') = Some (t + v)"
proof -
  have p: "length (pad_num 3 v) = 3" "digits_val (pad_num 3 v) = nat v" "list_all is_digit (pad_num 3 v)"
    using assms by (auto intro!: pad_num_props)
  then have "\<forall>c \<in> set (pad_num 3 v). is_digit c" by (simp add: list_all_iff)
  moreover have "\<not> is_digit (CHR ''Z'')" by (simp add: is_digit_def code_of_def)
  ultimately have "takeWhile is_digit (pad_num 3 v @ ''Z'') = pad_num 3 v"
    "dropWhile is_digit (pad_num 3 v @ ''Z'') = ''Z''"
    by (simp_all add: takeWhile_append2 dropWhile_append2)
  with p assms show ?thesis by (auto simp: parse_frac_def Let_def parse_zone_def)
qed

lemma day_split:
  "t = day_of_ms t * ms_per_day + (t mod ms_per_day div 3600000) * 3600000 +
     (t mod ms_per_day div 60000 mod 60) * 60000 + (t mod ms_per_day div 1000 mod 60) * 1000 +
     t mod ms_per_day mod 1000"
proof -
  have q: "x div 60000 div 60 = x div 3600000" "x div 1000 div 60 = x div 60000" for x :: int
    by (simp_all flip: zdiv_zmult2_eq)
  have d: "x = 3600000 * (x div 3600000) + 60000 * (x div 60000 mod 60) + 1000 * (x div 1000 mod 60) +
      x mod 1000" for x :: int
    using mult_div_mod_eq[of 1000 x] mult_div_mod_eq[of 60 "x div 1000"]
      mult_div_mod_eq[of 60 "x div 60000"] unfolding q by linarith
  have "t = day_of_ms t * ms_per_day + t mod ms_per_day" by (simp add: day_of_ms_def)
  with d[of "t mod ms_per_day"] show ?thesis by linarith
qed

lemma parse_time_iso:
  assumes "0 \<le> h" "h < 24" "0 \<le> m" "m < 60" "0 \<le> sec" "sec < 60" "0 \<le> ms" "ms < 1000"
  shows "parse_time loc t (pad_num 2 h @ '':'' @ pad_num 2 m @ '':'' @ pad_num 2 sec @ ''.'' @ pad_num 3 ms @ ''Z'')
    = Some (t + h * 3600000 + m * 60000 + sec * 1000 + ms)"
proof -
  have l: "length (pad_num 2 h) = 2" "length (pad_num 2 m) = 2" "length (pad_num 2 sec) = 2"
    using assms by (auto intro!: pad_num_props(1))
  let ?s = "pad_num 2 h @ '':'' @ pad_num 2 m @ '':'' @ pad_num 2 sec @ ''.'' @ pad_num 3 ms @ ''Z''"
  have d: "drop 3 ?s = pad_num 2 m @ '':'' @ pad_num 2 sec @ ''.'' @ pad_num 3 ms @ ''Z''"
    "drop 6 ?s = pad_num 2 sec @ ''.'' @ pad_num 3 ms @ ''Z''"
    "drop 8 ?s = CHR ''.'' # pad_num 3 ms @ ''Z''" "?s ! 2 = CHR '':''" "?s ! 5 = CHR '':''"
    "5 < length ?s"
    using l by (simp_all add: nth_append)
  have t: "two_digits ?s = Some h" "two_digits (drop 3 ?s) = Some m" "two_digits (drop 6 ?s) = Some sec"
    unfolding d using assms by (auto intro!: two_digits_pad)
  have "parse_frac loc (t + h * 3600000 + m * 60000 + sec * 1000) (drop 8 ?s) =
      Some (t + h * 3600000 + m * 60000 + sec * 1000 + ms)"
    unfolding d using assms by (auto intro!: parse_frac_millis)
  with assms t d(4-6) show ?thesis unfolding parse_time_def by (simp only: option.case prod.case) simp
qed

lemma date_parse_iso_string:
  assumes "four_digit_day (day_of_ms t)"
  shows "date_parse loc (iso_string t) = Some t"
proof -
  let ?r = "t mod ms_per_day"
  have l: "length (iso_ymd (day_of_ms t)) = 10" by (rule iso_ymd_length) (rule four_digit_year[OF assms])+
  have r: "0 \<le> ?r" "?r < 86400000" by (simp_all add: ms_per_day_def)
  then have h: "0 \<le> ?r div 3600000" "?r div 3600000 < 24" by (auto simp: div_less_iff_less_mult)
  have "parse_time loc (day_of_ms t * ms_per_day)
      (pad_num 2 (?r div 3600000) @ '':'' @ pad_num 2 (?r div 60000 mod 60) @ '':'' @
       pad_num 2 (?r div 1000 mod 60) @ ''.'' @ pad_num 3 (?r mod 1000) @ ''Z'') = Some t"
    by (subst parse_time_iso) (use h in \<open>simp_all flip: day_split\<close>)
  with l parse_iso_four_digit[OF assms assms] show ?thesis
    by (simp add: date_parse_def iso_string_def Let_def)
qed

end
