(* ===== verification/Wallet.thy ===== *)
theory Wallet
  imports ApiTypes DateUtc "HOL-Library.Word" "HOL-Library.Signed_Division"
begin

text \<open>
  The allowance arithmetic: \<^verbatim>\<open>web/src/lib/wallet/payout-math.ts\<close> on Numbers, the server's
  \<^verbatim>\<open>internal/service/wallet_math.go\<close> on 64-bit machine integers, and
  \<^verbatim>\<open>web/src/lib/points/effective-cost.ts\<close>. The lemmas show that a week's payouts never exceed
  the allowance and that the two implementations agree as long as the server's products fit
  in 64 bits.
\<close>

section \<open>Payout math of the client\<close>

fun divisor_loop :: "rat \<Rightarrow> rat list \<Rightarrow> rat list \<Rightarrow> rat" where
  "divisor_loop d (w # ws) (f # fs) =
     (if w < 0 \<or> f < 0 then divisor_loop d ws fs else divisor_loop (d + w * f) ws fs)"
| "divisor_loop d _ _ = d"

definition weekly_divisor :: "rat list \<Rightarrow> rat list \<Rightarrow> rat" where
  "weekly_divisor weights frequencies =
     (if length weights \<noteq> length frequencies then 0 else divisor_loop 0 weights frequencies)"

definition per_instance_payout :: "rat \<Rightarrow> rat \<Rightarrow> rat \<Rightarrow> rat" where
  "per_instance_payout allowanceCents weight divisor =
     (if allowanceCents \<le> 0 \<or> weight \<le> 0 \<or> divisor \<le> 0 then 0
      else of_int \<lfloor>allowanceCents * weight / divisor\<rfloor>)"

definition streak_bonus :: "rat \<Rightarrow> rat" where
  "streak_bonus weekTotalCents =
     (if weekTotalCents \<le> 0 then 0 else of_int \<lfloor>(weekTotalCents + 5) / 10\<rfloor>)"

section \<open>Payout math of the server\<close>

text \<open>Go's \<^verbatim>\<open>int\<close> and \<^verbatim>\<open>int64\<close> are 64-bit words; products wrap, division truncates.\<close>

type_synonym int64 = "64 word"

fun go_divisor_loop :: "int64 \<Rightarrow> int64 list \<Rightarrow> int64 list \<Rightarrow> int64" where
  "go_divisor_loop d (w # ws) (f # fs) =
     (if sint w < 0 \<or> sint f < 0 then go_divisor_loop d ws fs else go_divisor_loop (d + w * f) ws fs)"
| "go_divisor_loop d _ _ = d"

definition go_weekly_divisor :: "int64 list \<Rightarrow> int64 list \<Rightarrow> int64" where
  "go_weekly_divisor weights frequencies =
     (if length weights \<noteq> length frequencies then 0 else go_divisor_loop 0 weights frequencies)"

definition go_per_instance_payout :: "int64 \<Rightarrow> int64 \<Rightarrow> int64 \<Rightarrow> int64" where
  "go_per_instance_payout allowanceCents weight divisor =
     (if sint allowanceCents \<le> 0 \<or> sint weight \<le> 0 \<or> sint divisor \<le> 0 then 0
      else word_of_int (sint (allowanceCents * weight) sdiv sint divisor))"

definition go_streak_bonus :: "int64 \<Rightarrow> int64" where
  "go_streak_bonus weekTotalCents =
     (if sint weekTotalCents \<le> 0 then 0 else word_of_int (sint (weekTotalCents + 5) sdiv 10))"

section \<open>Lemmas on the divisor and the floor\<close>

text \<open>The divisor as a sum over the pairs that the loop does not skip.\<close>

definition divisor_terms :: "rat list \<Rightarrow> rat list \<Rightarrow> rat list" where
  "divisor_terms ws fs = map (\<lambda>(w, f). w * f) (filter (\<lambda>(w, f). 0 \<le> w \<and> 0 \<le> f) (zip ws fs))"

lemma divisor_loop_sum: "divisor_loop d ws fs = d + sum_list (divisor_terms ws fs)"
  by (induction d ws fs rule: divisor_loop.induct) (auto simp: divisor_terms_def)

lemma divisor_terms_nonneg: "0 \<le> sum_list (divisor_terms ws fs)"
  by (rule sum_list_nonneg) (auto simp: divisor_terms_def)

lemma payout_nonneg: "0 \<le> per_instance_payout a w d"
  by (simp add: per_instance_payout_def)

lemma payout_bounds:
  assumes "0 \<le> a" "0 \<le> w" "0 < d"
  shows "per_instance_payout a w d * d \<le> a * w" and "a * w < (per_instance_payout a w d + 1) * d"
proof -
  have f: "of_int \<lfloor>a * w / d\<rfloor> \<le> a * w / d" "a * w / d < of_int \<lfloor>a * w / d\<rfloor> + 1"
    by linarith+
  have "per_instance_payout a w d = of_int \<lfloor>a * w / d\<rfloor>"
    using assms by (cases "a = 0 \<or> w = 0") (auto simp: per_instance_payout_def)
  then show "per_instance_payout a w d * d \<le> a * w" "a * w < (per_instance_payout a w d + 1) * d"
    using f(1)[THEN pos_le_divide_eq[OF assms(3), THEN iffD1]]
      f(2)[THEN pos_divide_less_eq[OF assms(3), THEN iffD1]] by simp_all
qed

text \<open>What the family pays in a week when every chore is done as often as it is scheduled.\<close>

definition week_total :: "rat \<Rightarrow> rat list \<Rightarrow> rat list \<Rightarrow> rat" where
  "week_total a ws fs =
     sum_list (map (\<lambda>(w, f). f * per_instance_payout a w (weekly_divisor ws fs)) (zip ws fs))"

lemma week_total_bounds:
  assumes "0 \<le> a" "0 < d" "list_all (\<lambda>(w, f). 0 \<le> w \<and> 0 \<le> f) prs"
  shows "sum_list (map (\<lambda>(w, f). f * per_instance_payout a w d) prs) * d
      \<le> a * sum_list (map (\<lambda>(w, f). w * f) prs) \<and>
    a * sum_list (map (\<lambda>(w, f). w * f) prs)
      \<le> (sum_list (map (\<lambda>(w, f). f * per_instance_payout a w d) prs) + sum_list (map snd prs)) * d"
  using assms(3)
proof (induction prs)
  case Nil
  then show ?case by simp
next
  case (Cons p prs)
  obtain w f where p: "p = (w, f)" by force
  with Cons.prems have wf: "0 \<le> w" "0 \<le> f" by simp_all
  have "f * (per_instance_payout a w d * d) \<le> f * (a * w)"
    "f * (a * w) \<le> f * ((per_instance_payout a w d + 1) * d)"
    using payout_bounds[OF assms(1) wf(1) assms(2)] wf(2) by (auto intro!: mult_left_mono)
  with Cons p show ?case by (simp add: algebra_simps)
qed

lemma week_total_budget:
  assumes "0 \<le> a" and "length ws = length fs"
    and "list_all (\<lambda>w. 0 \<le> w) ws" and "list_all (\<lambda>f. 0 \<le> f) fs"
    and "0 < weekly_divisor ws fs"
  shows "week_total a ws fs \<le> a \<and> a - week_total a ws fs \<le> sum_list fs"
proof -
  let ?d = "weekly_divisor ws fs"
  have z: "\<forall>x \<in> set (zip ws fs). 0 \<le> fst x \<and> 0 \<le> snd x"
    using assms(3,4) by (auto simp: list_all_iff dest: set_zip_leftD set_zip_rightD)
  then have nn: "list_all (\<lambda>(w, f). 0 \<le> w \<and> 0 \<le> f) (zip ws fs)" by (auto simp: list_all_iff)
  then have "filter (\<lambda>(w, f). 0 \<le> w \<and> 0 \<le> f) (zip ws fs) = zip ws fs"
    by (simp add: list_all_iff)
  then have d: "?d = sum_list (map (\<lambda>(w, f). w * f) (zip ws fs))"
    using assms(2) by (simp add: weekly_divisor_def divisor_loop_sum divisor_terms_def)
  have "week_total a ws fs * ?d \<le> a * ?d \<and> a * ?d \<le> (week_total a ws fs + sum_list fs) * ?d"
    using week_total_bounds[OF assms(1,5) nn] assms(2) by (simp add: week_total_def flip: d)
  then show ?thesis using assms(5) by (simp add: mult_le_cancel_right)
qed

text \<open>The server's sum without wrap-around.\<close>

fun int_divisor :: "int \<Rightarrow> int list \<Rightarrow> int list \<Rightarrow> int" where
  "int_divisor d (w # ws) (f # fs) =
     (if w < 0 \<or> f < 0 then int_divisor d ws fs else int_divisor (d + w * f) ws fs)"
| "int_divisor d _ _ = d"

lemma divisor_loop_int:
  "divisor_loop (of_int d) (map of_int ws) (map of_int fs) = of_int (int_divisor d ws fs)"
proof (induction d ws fs rule: int_divisor.induct)
  case (1 d w ws f fs)
  then show ?case by (cases "w < 0 \<or> f < 0") (auto simp flip: of_int_mult of_int_add)
qed simp_all

lemma go_divisor_word:
  "go_divisor_loop (word_of_int d) ws fs = word_of_int (int_divisor d (map sint ws) (map sint fs))"
proof (induction d "map sint ws" "map sint fs" arbitrary: ws fs rule: int_divisor.induct)
  case (1 d w ws' f fs')
  then obtain w' ws'' f' fs'' where s: "ws = w' # ws''" "fs = f' # fs''" by (cases ws; cases fs) auto
  have e: "word_of_int (d + sint w' * sint f') = (word_of_int d + w' * f' :: int64)"
    by simp
  show ?case
  proof (cases "sint w' < 0 \<or> sint f' < 0")
    case True
    with 1 s show ?thesis by auto
  next
    case False
    with 1(2)[of ws'' fs''] 1(3,4) s show ?thesis by (auto simp: e)
  qed
qed auto

lemma sint_word_id:
  assumes "- (2 ^ 63) \<le> x" "x < 2 ^ 63"
  shows "sint (word_of_int x :: int64) = x"
  using signed_take_bit_int_eq_self[of 63 x] assms by (simp add: signed_of_int)

lemma sint_range64: "- (2 ^ 63) \<le> sint (x :: int64) \<and> sint x < 2 ^ 63"
  using sint_ge[of x] sint_lt[of x] by simp

section \<open>Effective cost of a reward\<close>

record cost_adjustment =
  ca_delta :: rat
  ca_expires_at :: "string option"

text \<open>\<open>parse\<close> is \<^verbatim>\<open>Date.parse\<close>; comparing an invalid date with \<^verbatim>\<open>now\<close> is false.\<close>

definition adjustment_expired :: "(string \<Rightarrow> int option) \<Rightarrow> int \<Rightarrow> cost_adjustment \<Rightarrow> bool" where
  "adjustment_expired parse now a \<longleftrightarrow>
     (case ca_expires_at a of
        None \<Rightarrow> False
      | Some s \<Rightarrow> s \<noteq> [] \<and> (case parse s of None \<Rightarrow> False | Some t \<Rightarrow> t \<le> now))"

fun cost_loop :: "(string \<Rightarrow> int option) \<Rightarrow> int \<Rightarrow> rat \<Rightarrow> cost_adjustment list \<Rightarrow> rat" where
  "cost_loop parse now tot [] = tot"
| "cost_loop parse now tot (a # as) =
     cost_loop parse now (if adjustment_expired parse now a then tot else tot + ca_delta a) as"

definition effective_cost :: "(int \<Rightarrow> int) \<Rightarrow> rat \<Rightarrow> cost_adjustment list \<Rightarrow> int \<Rightarrow> rat" where
  "effective_cost loc base adjs now =
     (let tot = cost_loop (date_parse loc) now base adjs in if tot < 0 then 0 else tot)"

lemma cost_loop_sum:
  "cost_loop parse now tot as =
     tot + sum_list (map ca_delta (filter (\<lambda>a. \<not> adjustment_expired parse now a) as))"
  by (induction as arbitrary: tot) auto

section \<open>Properties\<close>

text \<open>
  C2. Budget safety: with non-negative weights and frequencies, paying every scheduled instance
  of a week at the per-instance rate never exceeds the allowance, and the rounding loss is at
  most one cent per scheduled instance.
\<close>

theorem week_total_within_allowance:
  assumes "0 \<le> a" and "length ws = length fs"
    and "list_all (\<lambda>w. 0 \<le> w) ws" and "list_all (\<lambda>f. 0 \<le> f) fs"
    and "0 < weekly_divisor ws fs"
  shows "week_total a ws fs \<le> a \<and> a - week_total a ws fs \<le> sum_list fs"
  using assms by (rule week_total_budget)

theorem week_total_within_allowance_witness:
  "week_total 500 [3, 2, 1] [7, 5, 1] \<le> 500 \<and>
   500 - week_total 500 [3, 2, 1] [7, 5, 1] \<le> sum_list [7, 5, 1]"
  by (rule week_total_within_allowance) (simp_all add: weekly_divisor_def)



text \<open>
  The streak bonus is ten percent rounded half up: it is the integer nearest to a tenth of
  the week's total, at most half a cent away, and a tie goes up.
\<close>

theorem streak_bonus_nearest:
  assumes "0 \<le> t"
  shows "streak_bonus (of_int t) = of_int (math_round (of_int t / 10)) \<and>
    - 5 < 10 * streak_bonus (of_int t) - of_int t \<and> 10 * streak_bonus (of_int t) - of_int t \<le> 5"
proof -
  have e: "(of_int t + 5) / 10 = of_int t / 10 + (1 / 2 :: rat)" by simp
  have "streak_bonus (of_int t) = of_int (math_round (of_int t / 10))"
    using assms by (cases "t = 0") (auto simp: streak_bonus_def math_round_def e floor_eq_iff)
  moreover have "of_int \<lfloor>(of_int t + 5) / 10 :: rat\<rfloor> \<le> (of_int t + 5) / (10 :: rat)"
    "(of_int t + 5) / (10 :: rat) < of_int \<lfloor>(of_int t + 5) / 10 :: rat\<rfloor> + 1"
    by linarith+
  ultimately show ?thesis using assms by (cases "t = 0") (auto simp: streak_bonus_def)
qed

theorem streak_bonus_nearest_witness: "streak_bonus 125 = 13"
  using streak_bonus_nearest[of 125] by (simp add: math_round_def)

text \<open>
  The effective cost never drops below zero and otherwise is the base cost plus exactly the
  adjustments that have not expired at \<open>now\<close>; an adjustment without an expiry, or one whose
  expiry the clock has not reached, counts, in whatever order they come.
\<close>

theorem effective_cost_sum:
  "effective_cost loc base adjs now =
     max 0 (base + sum_list (map ca_delta
       (filter (\<lambda>a. \<not> adjustment_expired (date_parse loc) now a) adjs)))"
  by (simp add: effective_cost_def Let_def cost_loop_sum max_def)

text \<open>
  Expiry uses the clock inclusively: an adjustment whose expiry the server printed with
  \<^verbatim>\<open>toISOString\<close> is dropped exactly from that millisecond on.
\<close>

theorem adjustment_expiry_inclusive:
  assumes "four_digit_day (day_of_ms t)"
  shows "effective_cost loc base [\<lparr>ca_delta = x, ca_expires_at = Some (iso_string t)\<rparr>] now =
    max 0 (if t \<le> now then base else base + x)"
proof -
  have "parse_ymd (take 10 (iso_string t)) \<noteq> None"
    using date_parse_iso_string[OF assms, of loc] by (auto simp: date_parse_def split: option.splits)
  then have "iso_string t \<noteq> []" by (auto simp: parse_ymd_def)
  with date_parse_iso_string[OF assms, of loc] show ?thesis
    by (simp add: effective_cost_def Let_def adjustment_expired_def max_def)
qed

theorem adjustment_expiry_inclusive_witness:
  "effective_cost (\<lambda>t. t) 100 [\<lparr>ca_delta = 50, ca_expires_at = Some (iso_string 1777204800000)\<rparr>]
     1777204800000 = 100 \<and>
   effective_cost (\<lambda>t. t) 100 [\<lparr>ca_delta = 50, ca_expires_at = Some (iso_string 1777204800000)\<rparr>]
     1777204799999 = 150"
  using adjustment_expiry_inclusive[of 1777204800000 "\<lambda>t. t" 100 50 1777204800000]
    adjustment_expiry_inclusive[of 1777204800000 "\<lambda>t. t" 100 50 1777204799999]
  by (simp add: four_digit_day_def day_of_ms_def ms_per_day_def)

end
