(* ===== verification/Machine.thy ===== *)
theory Machine
  imports Prelude
begin

text \<open>
  Event-driven components. A component is a function that maps an event and a state to the next
  state; a run folds it over the events in the order in which they happen. The locale states
  what an invariant of such a component has to satisfy and gives what follows for every run.
\<close>

definition run :: "('e \<Rightarrow> 's \<Rightarrow> 's) \<Rightarrow> 'e list \<Rightarrow> 's \<Rightarrow> 's" where
  "run step es s = fold step es s"

lemma run_simps [simp]:
  "run step [] s = s" "run step (e # es) s = run step es (step e s)"
  "run step (es @ fs) s = run step fs (run step es s)"
  by (simp_all add: run_def)

locale machine =
  fixes step :: "'e \<Rightarrow> 's \<Rightarrow> 's"
    and legal :: "'e \<Rightarrow> bool"
    and inv :: "'s \<Rightarrow> bool"
  assumes preserve: "\<lbrakk> inv s; legal e \<rbrakk> \<Longrightarrow> inv (step e s)"
begin

lemma run_inv: "\<lbrakk> inv s; list_all legal es \<rbrakk> \<Longrightarrow> inv (run step es s)"
  by (induction es arbitrary: s) (auto intro: preserve)

lemma run_prefix_inv:
  assumes "inv s" and "list_all legal (es @ fs)"
  shows "inv (run step es s) \<and> inv (run step (es @ fs) s)"
  using assms by (auto intro: run_inv)

text \<open>A quantity that every legal step keeps is kept by every run.\<close>

lemma run_keeps:
  assumes "inv s" and "list_all legal es"
    and "\<And>e s. \<lbrakk> inv s; legal e \<rbrakk> \<Longrightarrow> f (step e s) = f s"
  shows "f (run step es s) = f s"
  using assms(1,2)
proof (induction es arbitrary: s)
  case Nil
  then show ?case by simp
next
  case (Cons e es)
  then have "f (run step es (step e s)) = f (step e s)" by (auto intro: preserve)
  with Cons.prems assms(3)[of s e] show ?case by simp
qed

end

text \<open>
  A machine with a bounded rank that no legal step lowers: the rank is monotone along a run.
\<close>

locale monotone_machine = machine step legal inv
  for step :: "'e \<Rightarrow> 's \<Rightarrow> 's" and legal :: "'e \<Rightarrow> bool" and inv :: "'s \<Rightarrow> bool" +
  fixes rank :: "'s \<Rightarrow> nat"
  assumes rank_step: "\<lbrakk> inv s; legal e \<rbrakk> \<Longrightarrow> rank s \<le> rank (step e s)"
begin

lemma run_rank: "\<lbrakk> inv s; list_all legal es \<rbrakk> \<Longrightarrow> rank s \<le> rank (run step es s)"
proof (induction es arbitrary: s)
  case Nil
  then show ?case by simp
next
  case (Cons e es)
  then have "rank s \<le> rank (step e s)" "rank (step e s) \<le> rank (run step es (step e s))"
    by (auto intro: rank_step preserve)
  then show ?case by simp
qed

end

end
