(* ===== verification/ChoresKid.thy ===== *)
theory ChoresKid
  imports Wallet Machine
begin

text \<open>
  The kid's chore board, \<^verbatim>\<open>web/src/components/screens/chores-kid.tsx\<close>: the week it shows, the
  completion marks, the payout per row and the per-chore timers with their asynchronous start
  and stop requests. Local calendar dates are day numbers; the date arithmetic of the screen
  (\<^verbatim>\<open>setHours(0,0,0,0)\<close>, \<^verbatim>\<open>setDate\<close>) moves between whole local days.
\<close>

section \<open>The week\<close>

definition start_of_week :: "int \<Rightarrow> int" where
  "start_of_week d = d - utc_day d"

definition week_end :: "int \<Rightarrow> int" where
  "week_end weekStart = weekStart + 6"

definition fmt_date :: "int \<Rightarrow> string" where
  "fmt_date d =
     (let c = civil_of_day d
      in int_str (cv_year c) @ ''-'' @ pad_num 2 (int (cv_month c) + 1) @ ''-'' @ pad_num 2 (cv_day c))"

definition freq_per_week :: "string \<Rightarrow> string list \<Rightarrow> int" where
  "freq_per_week kind days =
     (if kind = ''daily'' then 7 else if kind = ''weekdays'' then 5
      else if kind = ''specific_days'' then int (length days)
      else if kind = ''weekly'' then 1 else 0)"

definition format_duration :: "rat \<Rightarrow> string" where
  "format_duration seconds =
     (let s = max 0 \<lfloor>seconds\<rfloor>; h = s div 3600; m = s mod 3600 div 60; sec = s mod 60
      in if h > 0 then int_str h @ ''h '' @ int_str m @ ''m '' @ int_str sec @ ''s''
         else if m > 0 then int_str m @ ''m '' @ int_str sec @ ''s''
         else int_str sec @ ''s'')"

section \<open>Completion marks and payouts\<close>

definition is_completed :: "api_chore_completion list \<Rightarrow> string \<Rightarrow> int \<Rightarrow> bool" where
  "is_completed completions choreId day =
     list_ex (\<lambda>c. cc_chore_id c = choreId \<and> cc_date c = fmt_date day) completions"

text \<open>\<open>mark.mutate({choreId, date})\<close> is the request, or nothing when the day is already marked.\<close>

definition handle_tap :: "api_chore_completion list \<Rightarrow> string \<Rightarrow> int \<Rightarrow> (string \<times> string) option" where
  "handle_tap completions choreId day =
     (if is_completed completions choreId day then None else Some (choreId, fmt_date day))"

fun count_completed :: "api_chore_completion list \<Rightarrow> string \<Rightarrow> int \<Rightarrow> nat \<Rightarrow> nat" where
  "count_completed completions choreId weekStart 0 = 0"
| "count_completed completions choreId weekStart (Suc i) =
     count_completed completions choreId weekStart i +
     (if is_completed completions choreId (weekStart + int i) then 1 else 0)"

definition completed_this_week :: "api_chore_completion list \<Rightarrow> string \<Rightarrow> int \<Rightarrow> nat" where
  "completed_this_week completions choreId weekStart = count_completed completions choreId weekStart 7"

definition is_hot :: "nat \<Rightarrow> int \<Rightarrow> bool" where
  "is_hot completedThisWeek freq \<longleftrightarrow> freq \<le> int completedThisWeek \<and> freq > 0"

text \<open>The divisor over all chores of the kid, and the payout printed on a row.\<close>

definition chores_divisor :: "api_chore list \<Rightarrow> rat" where
  "chores_divisor chores =
     weekly_divisor (map (\<lambda>c. of_int (ch_weight c)) chores)
       (map (\<lambda>c. of_int (freq_per_week (ch_frequency_kind c) (ch_days_of_week c))) chores)"

definition row_payout :: "rat \<Rightarrow> api_chore list \<Rightarrow> api_chore \<Rightarrow> rat" where
  "row_payout allowance chores c =
     per_instance_payout allowance (of_int (ch_weight c)) (chores_divisor chores)"

section \<open>Timers\<close>

record timer_state =
  ts_entry_id :: string
  ts_started_at :: int
  ts_last_duration :: "rat option"
  ts_error :: "string option"
  ts_awaiting :: bool

type_synonym timers = "string \<rightharpoonup> timer_state"

definition blank_timer :: timer_state where
  "blank_timer = \<lparr>ts_entry_id = [], ts_started_at = 0, ts_last_duration = None, ts_error = None,
     ts_awaiting = False\<rparr>"

definition timer_or_blank :: "timers \<Rightarrow> string \<Rightarrow> timer_state" where
  "timer_or_blank ts c = (case ts c of None \<Rightarrow> blank_timer | Some t \<Rightarrow> t)"

definition handle_start :: "string \<Rightarrow> timers \<Rightarrow> timers" where
  "handle_start c ts = ts(c \<mapsto> (timer_or_blank ts c)\<lparr>ts_error := None\<rparr>)"

text \<open>\<open>now\<close> is \<^verbatim>\<open>Date.now()\<close> when the response arrives.\<close>

definition start_success :: "(int \<Rightarrow> int) \<Rightarrow> int \<Rightarrow> string \<Rightarrow> api_chore_time_entry \<Rightarrow> timers \<Rightarrow> timers" where
  "start_success loc now c entry ts =
     (let started = (if truthy (te_started_at entry)
                     then date_parse loc (the (te_started_at entry)) else Some now)
      in ts(c \<mapsto> \<lparr>ts_entry_id = te_id entry,
                  ts_started_at = (case started of Some t \<Rightarrow> t | None \<Rightarrow> now),
                  ts_last_duration = None, ts_error = None, ts_awaiting = False\<rparr>))"

definition start_error :: "string \<Rightarrow> string option \<Rightarrow> string option \<Rightarrow> timers \<Rightarrow> timers" where
  "start_error c code message ts =
     ts(c \<mapsto> (timer_or_blank ts c)\<lparr>ts_error := Some
       (if code = Some ''timer_already_running'' then ''A timer is already running for this chore.''
        else case message of None \<Rightarrow> ''Could not start timer. Please try again.'' | Some m \<Rightarrow> m)\<rparr>)"

text \<open>The duration of a stopped entry: a Number, not a number (\<^verbatim>\<open>NaN\<close>), or undefined.\<close>

datatype duration = DNum rat | DNaN | DUndef

definition entry_duration :: "(int \<Rightarrow> int) \<Rightarrow> api_chore_time_entry \<Rightarrow> duration" where
  "entry_duration loc entry =
     (case te_duration_seconds entry of
        Some d \<Rightarrow> DNum d
      | None \<Rightarrow>
          if truthy (te_started_at entry) \<and> truthy (te_ended_at entry) then
            (case (date_parse loc (the (te_ended_at entry)), date_parse loc (the (te_started_at entry))) of
               (Some e, Some s) \<Rightarrow> DNum (of_int (math_round (of_int (e - s) / 1000)))
             | _ \<Rightarrow> DNaN)
          else DUndef)"

definition stop_success :: "(int \<Rightarrow> int) \<Rightarrow> string \<Rightarrow> api_chore_time_entry \<Rightarrow> timers \<Rightarrow> timers" where
  "stop_success loc c entry ts =
     ts(c \<mapsto> \<lparr>ts_entry_id = [], ts_started_at = 0,
              ts_last_duration = (case entry_duration loc entry of DNum d \<Rightarrow> Some d | _ \<Rightarrow> None),
              ts_error = None, ts_awaiting = True\<rparr>)"

definition stop_error :: "string \<Rightarrow> string option \<Rightarrow> timers \<Rightarrow> timers" where
  "stop_error c message ts =
     ts(c \<mapsto> (timer_or_blank ts c)\<lparr>ts_error := Some
       (case message of None \<Rightarrow> ''Could not stop timer.'' | Some m \<Rightarrow> m)\<rparr>)"

definition complete_success :: "string \<Rightarrow> timers \<Rightarrow> timers" where
  "complete_success c ts = ts(c \<mapsto> blank_timer)"

definition handle_dismiss_complete :: "string \<Rightarrow> timers \<Rightarrow> timers" where
  "handle_dismiss_complete c ts = ts(c \<mapsto> blank_timer)"

definition is_running :: "timers \<Rightarrow> string \<Rightarrow> bool" where
  "is_running ts c \<longleftrightarrow> (case ts c of None \<Rightarrow> False | Some t \<Rightarrow> ts_entry_id t \<noteq> [])"

definition is_awaiting :: "timers \<Rightarrow> string \<Rightarrow> bool" where
  "is_awaiting ts c \<longleftrightarrow> (case ts c of None \<Rightarrow> False | Some t \<Rightarrow> ts_awaiting t)"

text \<open>
  What can happen to the timers, in any order: the presses of the one Start/Stop button, the
  outcomes of the requests, the two answers of the dialog.
\<close>

datatype timer_event =
    PressButton string
  | StartOk int string api_chore_time_entry
  | StartFail string "string option" "string option"
  | StopOk string api_chore_time_entry
  | StopFail string "string option"
  | CompleteOk string
  | NotYet string

fun event_chore :: "timer_event \<Rightarrow> string" where
  "event_chore (PressButton c) = c"
| "event_chore (StartOk now c entry) = c"
| "event_chore (StartFail c code msg) = c"
| "event_chore (StopOk c entry) = c"
| "event_chore (StopFail c msg) = c"
| "event_chore (CompleteOk c) = c"
| "event_chore (NotYet c) = c"

text \<open>A running timer's button only sends the stop request; its state changes with the answer.\<close>

fun timer_step :: "(int \<Rightarrow> int) \<Rightarrow> timer_event \<Rightarrow> timers \<Rightarrow> timers" where
  "timer_step loc (PressButton c) ts = (if is_running ts c then ts else handle_start c ts)"
| "timer_step loc (StartOk now c entry) ts = start_success loc now c entry ts"
| "timer_step loc (StartFail c code msg) ts = start_error c code msg ts"
| "timer_step loc (StopOk c entry) ts = stop_success loc c entry ts"
| "timer_step loc (StopFail c msg) ts = stop_error c msg ts"
| "timer_step loc (CompleteOk c) ts = complete_success c ts"
| "timer_step loc (NotYet c) ts = handle_dismiss_complete c ts"

text \<open>The dialog is never open over a running timer, and an idle timer has no start time.\<close>

definition timer_ok :: "timer_state \<Rightarrow> bool" where
  "timer_ok t \<longleftrightarrow>
     \<not> (ts_entry_id t \<noteq> [] \<and> ts_awaiting t) \<and>
     (ts_entry_id t = [] \<longrightarrow> ts_started_at t = 0) \<and>
     (ts_last_duration t \<noteq> None \<longrightarrow> ts_awaiting t)"

definition timers_ok :: "timers \<Rightarrow> bool" where
  "timers_ok ts \<longleftrightarrow> (\<forall>t \<in> ran ts. timer_ok t)"

text \<open>The server names every entry it returns.\<close>

fun named_entry :: "timer_event \<Rightarrow> bool" where
  "named_entry (StartOk now c entry) = (te_id entry \<noteq> [])"
| "named_entry e = True"

lemmas timer_ops = handle_start_def start_success_def start_error_def stop_success_def stop_error_def
  complete_success_def handle_dismiss_complete_def Let_def

lemma timers_ok_update: "timers_ok ts \<Longrightarrow> timer_ok t \<Longrightarrow> timers_ok (ts(c \<mapsto> t))"
  by (auto simp: timers_ok_def ran_def)

lemma timer_or_blank_ok: "timers_ok ts \<Longrightarrow> timer_ok (timer_or_blank ts c)"
  by (auto simp: timers_ok_def timer_or_blank_def ran_def timer_ok_def blank_timer_def split: option.splits)

lemma timer_ok_error: "timer_ok t \<Longrightarrow> timer_ok (t\<lparr>ts_error := e\<rparr>)"
  by (simp add: timer_ok_def)

lemma timer_step_ok [step_inv]:
  assumes "timers_ok ts" and "named_entry e"
  shows "timers_ok (timer_step loc e ts)"
  using assms
  by (cases e)
    (auto simp: timer_ops intro!: timers_ok_update timer_ok_error timer_or_blank_ok,
     auto simp: timer_ok_def blank_timer_def)

interpretation chore_timer: machine "timer_step loc" named_entry timers_ok
  by unfold_locales (rule step_inv)

lemma timer_step_other: "event_chore e \<noteq> c \<Longrightarrow> timer_step loc e ts c = ts c"
  by (cases e) (auto simp: timer_ops)

lemma run_timer_other:
  "list_all (\<lambda>e. event_chore e \<noteq> c) es \<Longrightarrow> run (timer_step loc) es ts c = ts c"
  by (induction es arbitrary: ts) (auto simp: timer_step_other)

section \<open>Lemmas on the week\<close>

lemma start_of_week_bounds:
  "start_of_week d \<le> d \<and> d \<le> week_end (start_of_week d) \<and> utc_day (start_of_week d) = 0"
proof -
  have "(d - (d + 4) mod 7 + 4) mod 7 = ((d + 4) - (d + 4) mod 7) mod 7" by (simp add: algebra_simps)
  also have "\<dots> = 0" by (simp add: minus_mod_eq_mult_div)
  finally show ?thesis
    using utc_day_range[of d] by (simp add: start_of_week_def week_end_def utc_day_def)
qed

lemma fmt_date_iso:
  assumes "1000 \<le> cv_year (civil_of_day d)" and "cv_year (civil_of_day d) \<le> 9999"
  shows "fmt_date d = iso_ymd d"
proof -
  let ?y = "cv_year (civil_of_day d)"
  have "length (nat_str (nat ?y)) = 4"
  proof -
    have "length (nat_str (nat ?y)) \<le> 4" using assms by (intro nat_str_length) auto
    moreover have "4 \<le> length (nat_str (nat ?y))"
    proof -
      have "\<not> nat ?y < 10" "\<not> nat ?y div 10 < 10" "\<not> nat ?y div 10 div 10 < 10" using assms by linarith+
      then show ?thesis
        using nat_str.simps[of "nat ?y"] nat_str.simps[of "nat ?y div 10"]
          nat_str.simps[of "nat ?y div 10 div 10"] nat_str.simps[of "nat ?y div 10 div 10 div 10"]
        by (auto simp: Suc_le_eq)
    qed
    ultimately show ?thesis by simp
  qed
  then have "iso_year ?y = int_str ?y"
    using assms by (simp add: iso_year_def pad_num_def pad_start_def int_str_def)
  then show ?thesis by (simp add: fmt_date_def iso_ymd_def Let_def)
qed

lemma count_completed_le: "count_completed cs c w n \<le> n"
  by (induction n) auto

lemma count_completed_card:
  "count_completed cs c w n = card {i. i < n \<and> is_completed cs c (w + int i)}"
proof (induction n)
  case 0
  then show ?case by simp
next
  case (Suc n)
  have "{i. i < Suc n \<and> is_completed cs c (w + int i)} =
      (if is_completed cs c (w + int n) then insert n {i. i < n \<and> is_completed cs c (w + int i)}
       else {i. i < n \<and> is_completed cs c (w + int i)})"
    by (auto simp: less_Suc_eq)
  with Suc show ?case by simp
qed

lemma fmt_date_inj:
  assumes "1000 \<le> cv_year (civil_of_day a)" "cv_year (civil_of_day a) \<le> 9999"
    and "1000 \<le> cv_year (civil_of_day b)" "cv_year (civil_of_day b) \<le> 9999"
    and "fmt_date a = fmt_date b"
  shows "a = b"
proof -
  have e: "iso_ymd a = iso_ymd b"
    using fmt_date_iso[OF assms(1,2)] fmt_date_iso[OF assms(3,4)] assms(5) by metis
  have "parse_ymd (iso_ymd a) = Some a" by (rule parse_iso_ymd) (use assms in simp_all)
  moreover have "parse_ymd (iso_ymd b) = Some b" by (rule parse_iso_ymd) (use assms in simp_all)
  ultimately show ?thesis using e by (metis option.inject)
qed

text \<open>Years with four digits and no leading zero: 1000-01-01 to 9999-12-31.\<close>

definition plain_day :: "int \<Rightarrow> bool" where
  "plain_day n \<longleftrightarrow> -354285 \<le> n \<and> n \<le> 2932896"

lemma plain_day_year:
  assumes "plain_day n"
  shows "1000 \<le> cv_year (civil_of_day n)" "cv_year (civil_of_day n) \<le> 9999"
proof -
  show "cv_year (civil_of_day n) \<le> 9999"
    using assms by (intro four_digit_year) (simp add: plain_day_def four_digit_day_def)
  have c: "cv_year (civil_of_day n) = year_of_day n" by (simp add: civil_of_day_def Let_def)
  show "1000 \<le> cv_year (civil_of_day n)"
  proof (rule ccontr)
    assume "\<not> ?thesis"
    then have "year_of_day n + 1 \<le> 1000" by (simp add: c)
    from day_from_year_mono[OF this] year_of_day(2)[of n] assms show False
      by (simp add: plain_day_def day_from_year_def)
  qed
qed

lemma is_completed_append:
  "is_completed (cs @ [\<lparr>cc_id = i, cc_chore_id = c, cc_member_id = m, cc_date = fmt_date d, cc_marked_at = mk,
     cc_approved = ap, cc_payout_cents = p, cc_closed = cl\<rparr>]) c x =
     (is_completed cs c x \<or> fmt_date d = fmt_date x)"
  by (auto simp: is_completed_def)

section \<open>Properties\<close>

text \<open>
  Marking a day: a tap on an unmarked day of the shown week asks the server for exactly that
  day; once the completion is recorded the row's weekly count is one higher, and a further tap
  on the same day sends nothing.
\<close>

theorem tap_marks_one_day:
  assumes "plain_day w" and "plain_day (w + 6)" and "i < 7"
    and "handle_tap cs c (w + int i) = Some (c', date)"
    and "cs' = cs @ [\<lparr>cc_id = cid, cc_chore_id = c', cc_member_id = m, cc_date = date, cc_marked_at = mk,
      cc_approved = ap, cc_payout_cents = p, cc_closed = cl\<rparr>]"
  shows "completed_this_week cs' c w = Suc (completed_this_week cs c w) \<and>
    handle_tap cs' c (w + int i) = None"
proof -
  have new: "\<not> is_completed cs c (w + int i)" "c' = c" "date = fmt_date (w + int i)"
    using assms(4) by (auto simp: handle_tap_def split: if_splits)
  have pd: "plain_day (w + int j)" if "j < 7" for j using assms(1,2) that by (auto simp: plain_day_def)
  have iff: "is_completed cs' c (w + int j) = (is_completed cs c (w + int j) \<or> j = i)" if "j < 7" for j
  proof -
    have "(fmt_date (w + int i) = fmt_date (w + int j)) = (j = i)"
      using fmt_date_inj[OF plain_day_year[OF pd[OF assms(3)]] plain_day_year[OF pd[OF that]]] by auto
    then show ?thesis by (simp add: assms(5) new is_completed_append)
  qed
  have "{j. j < 7 \<and> is_completed cs' c (w + int j)} =
      insert i {j. j < 7 \<and> is_completed cs c (w + int j)}"
    using iff assms(3) by auto
  then have "completed_this_week cs' c w = Suc (completed_this_week cs c w)"
    using new(1) by (simp add: completed_this_week_def count_completed_card)
  moreover have "handle_tap cs' c (w + int i) = None"
    using iff[OF assms(3)] by (simp add: handle_tap_def)
  ultimately show ?thesis ..
qed

definition demo_mark :: api_chore_completion where
  "demo_mark = \<lparr>cc_id = ''x'', cc_chore_id = ''c1'', cc_member_id = ''m'',
     cc_date = fmt_date (20568 + int 2), cc_marked_at = [], cc_approved = True, cc_payout_cents = 46, cc_closed = False\<rparr>"

theorem tap_marks_one_day_witness:
  "completed_this_week [demo_mark] ''c1'' 20568 = Suc (completed_this_week [] ''c1'' 20568) \<and>
   handle_tap [demo_mark] ''c1'' (20568 + int 2) = None"
  by (rule tap_marks_one_day[where cid = "''x''" and m = "''m''" and mk = "[]" and ap = True and p = 46 and cl = False])
    (simp_all add: plain_day_def handle_tap_def is_completed_def demo_mark_def)

text \<open>
  The board cannot promise more than the allowance: summed over the rows, the printed payout
  times the scheduled instances of a week stays within the kid's allowance.
\<close>

theorem board_payouts_within_allowance:
  assumes "0 \<le> allowance" and "\<forall>c \<in> set chores. 0 \<le> ch_weight c" and "0 < chores_divisor chores"
  shows "sum_list (map (\<lambda>c. of_int (freq_per_week (ch_frequency_kind c) (ch_days_of_week c)) *
    row_payout allowance chores c) chores) \<le> allowance"
proof -
  let ?w = "\<lambda>c. of_int (ch_weight c) :: rat"
  let ?f = "\<lambda>c. of_int (freq_per_week (ch_frequency_kind c) (ch_days_of_week c)) :: rat"
  have "0 \<le> freq_per_week k ds" for k ds by (simp add: freq_per_week_def)
  then have "week_total allowance (map ?w chores) (map ?f chores) \<le> allowance"
    using week_total_budget[of allowance "map ?w chores" "map ?f chores"] assms
    by (simp add: chores_divisor_def list_all_iff)
  then show ?thesis
    by (simp add: week_total_def row_payout_def chores_divisor_def zip_map_map zip_same_conv_map o_def)
qed

definition demo_chore :: "string \<Rightarrow> int \<Rightarrow> string \<Rightarrow> api_chore" where
  "demo_chore i w k = \<lparr>ch_id = i, ch_household_id = ''h'', ch_member_id = ''m'', ch_name = ''Chore'',
     ch_weight = w, ch_frequency_kind = k, ch_days_of_week = [''mon'', ''wed''], ch_auto_approve = True,
     ch_archived_at = None, ch_created_at = [], ch_updated_at = [], ch_pet_member_ids = None\<rparr>"

theorem board_payouts_within_allowance_witness:
  "sum_list (map (\<lambda>c. of_int (freq_per_week (ch_frequency_kind c) (ch_days_of_week c)) *
     row_payout 500 [demo_chore ''a'' 3 ''daily'', demo_chore ''b'' 2 ''specific_days''] c)
     [demo_chore ''a'' 3 ''daily'', demo_chore ''b'' 2 ''specific_days'']) \<le> (500 :: rat)"
  by (rule board_payouts_within_allowance)
    (simp_all add: demo_chore_def chores_divisor_def weekly_divisor_def freq_per_week_def)

text \<open>
  C13. Timers under any interleaving of presses and answers: the completion dialog is never open
  over a running timer, an idle timer has no start time, and the events of other chores leave a
  chore's timer as it is.
\<close>

theorem timers_invariant:
  assumes "list_all named_entry es"
  shows "timers_ok (run (timer_step loc) es Map.empty) \<and>
    (list_all (\<lambda>e. event_chore e \<noteq> c) es \<longrightarrow> run (timer_step loc) es ts c = ts c)"
  using chore_timer.run_inv[of Map.empty es loc] assms
  by (simp add: timers_ok_def run_timer_other)

definition demo_entry :: api_chore_time_entry where
  "demo_entry = \<lparr>te_id = ''e1'', te_chore_id = ''a'', te_member_id = ''m'', te_started_at = Some (iso_string 1777204800000),
     te_ended_at = Some (iso_string 1777204890400), te_duration_seconds = None,
     te_note = [], te_source = ''timer'', te_created_at = []\<rparr>"

lemma demo_entry_facts:
  "te_id demo_entry \<noteq> []" "te_started_at demo_entry = Some (iso_string 1777204800000)"
  "te_ended_at demo_entry = Some (iso_string 1777204890400)" "te_duration_seconds demo_entry = None"
  "four_digit_day (day_of_ms 1777204800000)" "four_digit_day (day_of_ms 1777204890400)"
  by (simp_all add: demo_entry_def four_digit_day_def day_of_ms_def ms_per_day_def)

theorem timers_invariant_witness:
  "timers_ok (run (timer_step (\<lambda>t. t)) [PressButton ''a'', StartOk 0 ''a'' demo_entry,
     PressButton ''a'', StopOk ''a'' demo_entry, NotYet ''a''] Map.empty)"
  using timers_invariant[of "[PressButton ''a'', StartOk 0 ''a'' demo_entry,
     PressButton ''a'', StopOk ''a'' demo_entry, NotYet ''a'']" "\<lambda>t. t" "''b''" Map.empty]
  by (simp add: demo_entry_def)

text \<open>
  A full timing cycle: the answer to start shows Stop with the server's start time; the answer
  to stop opens the dialog with the server's duration or, when it sends none, the rounded
  difference of its two time stamps; either answer to the dialog clears the timer.
\<close>

theorem timing_cycle:
  assumes "te_id entry \<noteq> []" and "te_started_at entry = Some (iso_string a)"
    and "te_ended_at entry = Some (iso_string b)" and "te_duration_seconds entry = None"
    and "four_digit_day (day_of_ms a)" and "four_digit_day (day_of_ms b)"
  shows "(let ts1 = run (timer_step loc) [PressButton c, StartOk now c entry] ts;
              ts2 = run (timer_step loc) [PressButton c, StopOk c entry] ts1
          in is_running ts1 c \<and> map_option ts_started_at (ts1 c) = Some a \<and>
             \<not> is_running ts2 c \<and> is_awaiting ts2 c \<and>
             map_option ts_last_duration (ts2 c) = Some (Some (of_int (math_round (of_int (b - a) / 1000)))) \<and>
             \<not> is_awaiting (timer_step loc (NotYet c) ts2) c)"
proof -
  have ne: "iso_string x \<noteq> []" if "four_digit_day (day_of_ms x)" for x
    using date_parse_iso_string[OF that, of loc] by (auto simp: date_parse_def parse_ymd_def)
  show ?thesis
    using assms ne[OF assms(5)] ne[OF assms(6)] date_parse_iso_string[OF assms(5), of loc]
      date_parse_iso_string[OF assms(6), of loc]
    by (simp add: timer_ops is_running_def is_awaiting_def entry_duration_def blank_timer_def)
qed

theorem timing_cycle_witness:
  "is_awaiting (run (timer_step (\<lambda>t. t)) [PressButton ''a'', StopOk ''a'' demo_entry]
     (run (timer_step (\<lambda>t. t)) [PressButton ''a'', StartOk 0 ''a'' demo_entry] Map.empty)) ''a''"
  using timing_cycle[OF demo_entry_facts, of "\<lambda>t. t" "''a''" 0 Map.empty] unfolding Let_def by blast

end
