(* ===== verification/Json.thy ===== *)
theory Json
  imports DateUtc
begin

text \<open>
  \<^verbatim>\<open>JSON.stringify\<close> and \<^verbatim>\<open>JSON.parse\<close>, which the client uses for request bodies and for what it
  keeps in local storage. Strings are UTF-8 bytes, so bytes above 127 are copied. The parser
  takes fuel; every call consumes a character, so the length of the text plus one is enough,
  and \<open>parse_json_str\<close> shows that what is printed is read back. An object keeps its bindings
  in order; \<^const>\<open>jget\<close> reads the last one, as a repeated key does in JavaScript.
\<close>

section \<open>Printing\<close>

definition hex_digit :: "nat \<Rightarrow> char" where
  "hex_digit d = (if d < 10 then char_of (48 + d) else char_of (87 + d))"

definition escape_char :: "char \<Rightarrow> string" where
  "escape_char c =
     (let n = code_of c in
      if n = 34 then [char_of (92 :: nat), char_of (34 :: nat)]
      else if n = 92 then [char_of (92 :: nat), char_of (92 :: nat)]
      else if n = 8 then char_of (92 :: nat) # ''b''
      else if n = 9 then char_of (92 :: nat) # ''t''
      else if n = 10 then char_of (92 :: nat) # ''n''
      else if n = 12 then char_of (92 :: nat) # ''f''
      else if n = 13 then char_of (92 :: nat) # ''r''
      else if n < 32 then char_of (92 :: nat) # ''u00'' @ [hex_digit (n div 16), hex_digit (n mod 16)]
      else [c])"

definition quote_char :: char where
  "quote_char = char_of (34 :: nat)"

definition json_quote :: "string \<Rightarrow> string" where
  "json_quote s = quote_char # concat (map escape_char s) @ [quote_char]"

text \<open>An undefined array element prints as null, an undefined property is left out.\<close>

fun json_str :: "jsval \<Rightarrow> string"
  and json_elems :: "jsval list \<Rightarrow> string"
  and json_fields :: "(string \<times> jsval) list \<Rightarrow> string list" where
  "json_str JUndef = ''null''"
| "json_str JNull = ''null''"
| "json_str (JBool b) = (if b then ''true'' else ''false'')"
| "json_str (JNum x) = num_str x"
| "json_str (JStr s) = json_quote s"
| "json_str (JArr vs) = ''['' @ json_elems vs @ '']''"
| "json_str (JObj fs) = ''{'' @ join '','' (json_fields fs) @ ''}''"
| "json_elems [] = []"
| "json_elems (v # vs) = json_str v @ (if vs = [] then [] else '','' @ json_elems vs)"
| "json_fields [] = []"
| "json_fields ((k, v) # fs) =
     (if v = JUndef then json_fields fs else (json_quote k @ '':'' @ json_str v) # json_fields fs)"

section \<open>Parsing\<close>

definition json_space :: "char \<Rightarrow> bool" where
  "json_space c \<longleftrightarrow> code_of c \<in> {9, 10, 13, 32}"

definition skip_ws :: "string \<Rightarrow> string" where
  "skip_ws s = dropWhile json_space s"

definition hex_val :: "char \<Rightarrow> nat option" where
  "hex_val c =
     (let n = code_of c in
      if 48 \<le> n \<and> n \<le> 57 then Some (n - 48)
      else if 97 \<le> n \<and> n \<le> 102 then Some (n - 87)
      else if 65 \<le> n \<and> n \<le> 70 then Some (n - 55)
      else None)"

definition hex4 :: "string \<Rightarrow> nat option" where
  "hex4 s =
     (if length s < 4 then None
      else case (hex_val (s ! 0), hex_val (s ! 1), hex_val (s ! 2), hex_val (s ! 3)) of
             (Some a, Some b, Some c, Some d) \<Rightarrow> Some (4096 * a + 256 * b + 16 * c + d)
           | _ \<Rightarrow> None)"

text \<open>The UTF-8 bytes of a code unit; a surrogate half keeps its three-byte form.\<close>

definition utf8 :: "nat \<Rightarrow> string" where
  "utf8 n =
     (if n < 128 then [char_of n]
      else if n < 2048 then [char_of (192 + n div 64), char_of (128 + n mod 64)]
      else if n < 65536 then [char_of (224 + n div 4096), char_of (128 + n div 64 mod 64), char_of (128 + n mod 64)]
      else [char_of (240 + n div 262144), char_of (128 + n div 4096 mod 64),
            char_of (128 + n div 64 mod 64), char_of (128 + n mod 64)])"

text \<open>What follows a backslash: the bytes it stands for and the rest of the text.\<close>

definition parse_esc :: "string \<Rightarrow> (string \<times> string) option" where
  "parse_esc s =
     (case s of
        [] \<Rightarrow> None
      | c # r \<Rightarrow>
          (let n = code_of c in
           if n = 34 \<or> n = 92 \<or> n = 47 then Some ([c], r)
           else if n = 98 then Some ([char_of (8 :: nat)], r)
           else if n = 116 then Some ([char_of (9 :: nat)], r)
           else if n = 110 then Some ([char_of (10 :: nat)], r)
           else if n = 102 then Some ([char_of (12 :: nat)], r)
           else if n = 114 then Some ([char_of (13 :: nat)], r)
           else if n = 117 then
             (case hex4 r of
                None \<Rightarrow> None
              | Some hi \<Rightarrow>
                  (case (if take 2 (drop 4 r) = [char_of (92 :: nat), CHR ''u''] then hex4 (drop 6 r) else None) of
                     Some lo \<Rightarrow>
                       if 55296 \<le> hi \<and> hi < 56320 \<and> 56320 \<le> lo \<and> lo < 57344
                       then Some (utf8 (65536 + (hi - 55296) * 1024 + (lo - 56320)), drop 10 r)
                       else Some (utf8 hi, drop 4 r)
                   | None \<Rightarrow> Some (utf8 hi, drop 4 r)))
           else None))"

lemma parse_esc_length: "parse_esc s = Some (x, r) \<Longrightarrow> length r < length s"
  by (auto simp: parse_esc_def Let_def split: list.splits if_splits option.splits)

text \<open>The rest of a string literal after its opening quote.\<close>

function parse_chars :: "string \<Rightarrow> (string \<times> string) option" where
  "parse_chars [] = None"
| "parse_chars (c # r) =
     (if code_of c = 34 then Some ([], r)
      else if code_of c < 32 then None
      else if code_of c = 92 then
        (case parse_esc r of
           None \<Rightarrow> None
         | Some (x, r') \<Rightarrow>
             (case parse_chars r' of None \<Rightarrow> None | Some (y, q) \<Rightarrow> Some (x @ y, q)))
      else (case parse_chars r of None \<Rightarrow> None | Some (y, q) \<Rightarrow> Some (c # y, q)))"
  by pat_completeness auto
termination by (relation "measure length") (auto dest: parse_esc_length)

definition expect :: "string \<Rightarrow> jsval \<Rightarrow> string \<Rightarrow> (jsval \<times> string) option" where
  "expect w v s = (if starts_with s w then Some (v, drop (length w) s) else None)"

definition parse_exp :: "string \<Rightarrow> (int \<times> string) option" where
  "parse_exp s =
     (if s \<noteq> [] \<and> (hd s = CHR ''e'' \<or> hd s = CHR ''E'') then
        (let neg = (tl s \<noteq> [] \<and> hd (tl s) = CHR ''-'');
             r = (if tl s \<noteq> [] \<and> (hd (tl s) = CHR ''-'' \<or> hd (tl s) = CHR ''+'') then tl (tl s) else tl s);
             ds = takeWhile is_digit r
         in if ds = [] then None
            else Some ((if neg then - int (digits_val ds) else int (digits_val ds)), dropWhile is_digit r))
      else Some (0, s))"

definition scale10 :: "rat \<Rightarrow> int \<Rightarrow> rat" where
  "scale10 x e = (if 0 \<le> e then x * 10 ^ nat e else x / 10 ^ nat (- e))"

definition parse_unsigned :: "string \<Rightarrow> (rat \<times> string) option" where
  "parse_unsigned s =
     (let ds = takeWhile is_digit s; r = dropWhile is_digit s in
      if ds = [] \<or> (1 < length ds \<and> hd ds = CHR ''0'') then None
      else if r \<noteq> [] \<and> hd r = CHR ''.'' then
        (let fs = takeWhile is_digit (tl r) in
         if fs = [] then None
         else case parse_exp (dropWhile is_digit (tl r)) of
                None \<Rightarrow> None
              | Some (e, q) \<Rightarrow>
                  Some (scale10 (of_nat (digits_val (ds @ fs)) / 10 ^ length fs) e, q))
      else case parse_exp r of
             None \<Rightarrow> None
           | Some (e, q) \<Rightarrow> Some (scale10 (of_nat (digits_val ds)) e, q))"

definition parse_number :: "string \<Rightarrow> (jsval \<times> string) option" where
  "parse_number s =
     (if s \<noteq> [] \<and> hd s = CHR ''-''
      then (case parse_unsigned (tl s) of None \<Rightarrow> None | Some (x, r) \<Rightarrow> Some (JNum (- x), r))
      else (case parse_unsigned s of None \<Rightarrow> None | Some (x, r) \<Rightarrow> Some (JNum x, r)))"

fun parse_value :: "nat \<Rightarrow> string \<Rightarrow> (jsval \<times> string) option"
  and parse_elems :: "nat \<Rightarrow> string \<Rightarrow> (jsval list \<times> string) option"
  and parse_fields :: "nat \<Rightarrow> string \<Rightarrow> ((string \<times> jsval) list \<times> string) option" where
  "parse_value 0 s = None"
| "parse_value (Suc n) s =
     (case skip_ws s of
        [] \<Rightarrow> None
      | c # r \<Rightarrow>
          if code_of c = 34 then
            (case parse_chars r of None \<Rightarrow> None | Some (x, q) \<Rightarrow> Some (JStr x, q))
          else if c = CHR ''['' then
            (if skip_ws r \<noteq> [] \<and> hd (skip_ws r) = CHR '']'' then Some (JArr [], tl (skip_ws r))
             else case parse_elems n r of None \<Rightarrow> None | Some (vs, q) \<Rightarrow> Some (JArr vs, q))
          else if c = CHR ''{'' then
            (if skip_ws r \<noteq> [] \<and> hd (skip_ws r) = CHR ''}'' then Some (JObj [], tl (skip_ws r))
             else case parse_fields n r of None \<Rightarrow> None | Some (fs, q) \<Rightarrow> Some (JObj fs, q))
          else if c = CHR ''n'' then expect ''null'' JNull (c # r)
          else if c = CHR ''t'' then expect ''true'' (JBool True) (c # r)
          else if c = CHR ''f'' then expect ''false'' (JBool False) (c # r)
          else parse_number (c # r))"
| "parse_elems 0 s = None"
| "parse_elems (Suc n) s =
     (case parse_value n s of
        None \<Rightarrow> None
      | Some (v, r) \<Rightarrow>
          (case skip_ws r of
             [] \<Rightarrow> None
           | c # q \<Rightarrow>
               if c = CHR '']'' then Some ([v], q)
               else if c = CHR '','' then
                 (case parse_elems n q of None \<Rightarrow> None | Some (vs, p) \<Rightarrow> Some (v # vs, p))
               else None))"
| "parse_fields 0 s = None"
| "parse_fields (Suc n) s =
     (case skip_ws s of
        [] \<Rightarrow> None
      | c0 # r0 \<Rightarrow>
          if code_of c0 \<noteq> 34 then None
          else
            (case parse_chars r0 of
               None \<Rightarrow> None
             | Some (k, r1) \<Rightarrow>
                 (case skip_ws r1 of
                    [] \<Rightarrow> None
                  | c1 # r2 \<Rightarrow>
                      if c1 \<noteq> CHR '':'' then None
                      else
                        (case parse_value n r2 of
                           None \<Rightarrow> None
                         | Some (v, r) \<Rightarrow>
                             (case skip_ws r of
                                [] \<Rightarrow> None
                              | c # q \<Rightarrow>
                                  if c = CHR ''}'' then Some ([(k, v)], q)
                                  else if c = CHR '','' then
                                    (case parse_fields n q of
                                       None \<Rightarrow> None
                                     | Some (fs, p) \<Rightarrow> Some ((k, v) # fs, p))
                                  else None)))))"

text \<open>A syntax error of \<^verbatim>\<open>JSON.parse\<close> is \<open>None\<close>.\<close>

definition json_parse :: "string \<Rightarrow> jsval option" where
  "json_parse s =
     (case parse_value (Suc (length s)) s of
        None \<Rightarrow> None
      | Some (v, r) \<Rightarrow> if skip_ws r = [] then Some v else None)"

section \<open>What is printed is read back\<close>

text \<open>Values that JSON can carry exactly: nothing undefined, and whole numbers.\<close>

fun wf_json :: "jsval \<Rightarrow> bool"
  and wf_jsons :: "jsval list \<Rightarrow> bool"
  and wf_jfields :: "(string \<times> jsval) list \<Rightarrow> bool" where
  "wf_json JUndef = False"
| "wf_json JNull = True"
| "wf_json (JBool b) = True"
| "wf_json (JNum x) = is_int x"
| "wf_json (JStr s) = True"
| "wf_json (JArr vs) = wf_jsons vs"
| "wf_json (JObj fs) = wf_jfields fs"
| "wf_jsons [] = True"
| "wf_jsons (v # vs) = (wf_json v \<and> wf_jsons vs)"
| "wf_jfields [] = True"
| "wf_jfields ((k, v) # fs) = (wf_json v \<and> wf_jfields fs)"

lemma char_code [simp]: "char_of (code_of c) = c"
  by (simp add: code_of_def)

lemma code_char: "n < 256 \<Longrightarrow> code_of (char_of n) = n"
  by (simp add: code_of_def)

lemma char_of_eq: "code_of c = n \<Longrightarrow> c = char_of n"
  by (metis char_code)

lemma hex_val_digit: "d < 16 \<Longrightarrow> hex_val (hex_digit d) = Some d"
  by (auto simp: hex_val_def hex_digit_def code_char Let_def)

lemma hex4_byte:
  assumes "n < 32"
  shows "hex4 (CHR ''0'' # CHR ''0'' # hex_digit (n div 16) # hex_digit (n mod 16) # r) = Some n"
proof -
  have "hex_val (CHR ''0'') = Some 0" by (simp add: hex_val_def code_of_def)
  with assms show ?thesis by (simp add: hex4_def hex_val_digit)
qed

lemma parse_esc_unicode:
  assumes "code_of c < 32"
  shows "parse_esc (''u00'' @ [hex_digit (code_of c div 16), hex_digit (code_of c mod 16)] @ r) = Some ([c], r)"
proof -
  have "code_of (CHR ''u'') = 117" by (simp add: code_of_def)
  with assms show ?thesis by (simp add: parse_esc_def Let_def hex4_byte utf8_def split: option.split)
qed

lemma escape_char_cases:
  "(\<exists>w. escape_char c = char_of (92 :: nat) # w \<and> (\<forall>r. parse_esc (w @ r) = Some ([c], r))) \<or>
   (escape_char c = [c] \<and> code_of c \<noteq> 34 \<and> code_of c \<noteq> 92 \<and> \<not> code_of c < 32)"
proof -
  have k: "code_of (CHR ''b'') = 98" "code_of (CHR ''t'') = 116" "code_of (CHR ''n'') = 110"
    "code_of (CHR ''f'') = 102" "code_of (CHR ''r'') = 114" "code_of (char_of (34 :: nat)) = 34"
    "code_of (char_of (92 :: nat)) = 92"
    by (simp_all add: code_of_def)
  consider "code_of c = 34" | "code_of c = 92" | "code_of c = 8" | "code_of c = 9" | "code_of c = 10"
    | "code_of c = 12" | "code_of c = 13"
    | "code_of c < 32" "code_of c \<notin> {8, 9, 10, 12, 13}"
    | "\<not> code_of c < 32" "code_of c \<noteq> 34" "code_of c \<noteq> 92"
    by auto
  then show ?thesis
  proof cases
    case 8
    then have "escape_char c = char_of (92 :: nat) # ''u00'' @ [hex_digit (code_of c div 16), hex_digit (code_of c mod 16)]"
      by (simp add: escape_char_def Let_def)
    then show ?thesis using parse_esc_unicode[OF 8(1)] by auto
  next
    case 9
    then show ?thesis by (simp add: escape_char_def Let_def)
  qed (auto simp: escape_char_def Let_def parse_esc_def k dest: char_of_eq)
qed

lemma parse_chars_escape:
  "parse_chars (escape_char c @ r) =
     (case parse_chars r of None \<Rightarrow> None | Some (y, q) \<Rightarrow> Some (c # y, q))"
  using escape_char_cases[of c]
proof (elim disjE exE conjE)
  fix w assume "escape_char c = char_of (92 :: nat) # w" "\<forall>r. parse_esc (w @ r) = Some ([c], r)"
  moreover have "code_of (char_of (92 :: nat)) = 92" by (simp add: code_of_def)
  ultimately show ?thesis by (simp split: option.split)
qed (simp split: option.split)

lemma parse_chars_quoted: "parse_chars (concat (map escape_char s) @ quote_char # r) = Some (s, r)"
proof (induction s)
  case Nil
  have "code_of quote_char = 34" by (simp add: code_of_def quote_char_def)
  then show ?case by simp
next
  case (Cons c s)
  then show ?case by (simp add: parse_chars_escape)
qed

lemma skip_ws_nonspace: "\<not> json_space c \<Longrightarrow> skip_ws (c # r) = c # r"
  by (simp add: skip_ws_def)

lemma not_space_chars [simp]:
  "\<not> json_space quote_char" "\<not> json_space (CHR ''['')" "\<not> json_space (CHR '']'')"
  "\<not> json_space (CHR ''{'')" "\<not> json_space (CHR ''}'')" "\<not> json_space (CHR '','')"
  "\<not> json_space (CHR '':'')" "\<not> json_space (CHR ''n'')" "\<not> json_space (CHR ''t'')"
  "\<not> json_space (CHR ''f'')" "\<not> json_space (CHR ''-'')"
  by (simp_all add: json_space_def code_of_def quote_char_def)

definition num_end :: "string \<Rightarrow> bool" where
  "num_end r \<longleftrightarrow> (case r of [] \<Rightarrow> True
     | c # _ \<Rightarrow> \<not> is_digit c \<and> c \<noteq> CHR ''.'' \<and> c \<noteq> CHR ''e'' \<and> c \<noteq> CHR ''E'')"

lemma nat_str_lead: "10 \<le> n \<Longrightarrow> nat_str n \<noteq> [] \<and> hd (nat_str n) \<noteq> CHR ''0'' \<and> 1 < length (nat_str n)"
proof (induction n rule: nat_str.induct)
  case (1 n)
  show ?case
  proof (cases "n div 10 < 10")
    case True
    have "digit_char (n div 10) \<noteq> CHR ''0''"
    proof
      assume "digit_char (n div 10) = CHR ''0''"
      then have "48 + n div 10 = code_of (CHR ''0'')" using code_digit_char[OF True] by simp
      then show False using 1(2) by (simp add: code_of_def)
    qed
    with True 1(2) show ?thesis using nat_str.simps[of n] nat_str.simps[of "n div 10"] by simp
  next
    case False
    with 1 show ?thesis using nat_str.simps[of n] by simp
  qed
qed

lemma nat_str_nonempty: "nat_str n \<noteq> []"
  by (subst nat_str.simps) simp

lemma parse_unsigned_nat: "num_end r \<Longrightarrow> parse_unsigned (nat_str n @ r) = Some (of_nat n, r)"
proof -
  assume r: "num_end r"
  have d: "\<forall>c \<in> set (nat_str n). is_digit c" using nat_str_digits by (simp add: list_all_iff)
  have t: "takeWhile is_digit (nat_str n @ r) = nat_str n" "dropWhile is_digit (nat_str n @ r) = r"
    using d r by (cases r; simp add: takeWhile_append dropWhile_append num_end_def)+
  have l: "\<not> (1 < length (nat_str n) \<and> hd (nat_str n) = CHR ''0'')"
  proof (cases "n < 10")
    case True
    then show ?thesis using nat_str.simps[of n] by simp
  next
    case False
    then show ?thesis using nat_str_lead[of n] by simp
  qed
  show ?thesis
    using r l unfolding parse_unsigned_def t Let_def
    by (cases r) (auto simp: num_end_def parse_exp_def scale10_def digits_nat_str nat_str_nonempty)
qed

lemma nat_str_hd: "is_digit (hd (nat_str n))"
  using nat_str_digits[of n] nat_str_nonempty[of n] by (cases "nat_str n") simp_all

lemma parse_number_num_str:
  assumes "is_int x" and "num_end r"
  shows "parse_number (num_str x @ r) = Some (JNum x, r)"
proof -
  obtain i where x: "x = of_int i" using assms(1) unfolding is_int_def by metis
  have h: "hd (nat_str n @ r) \<noteq> CHR ''-''" for n
    using nat_str_hd[of n] nat_str_nonempty[of n] by (auto simp: is_digit_def code_of_def)
  show ?thesis
  proof (cases "i < 0")
    case True
    then have "num_str x = CHR ''-'' # nat_str (nat (- i))" by (simp add: x num_str_def is_int_def int_str_def)
    with True show ?thesis by (simp add: parse_number_def parse_unsigned_nat[OF assms(2)] x)
  next
    case False
    then have "num_str x = nat_str (nat i)" by (simp add: x num_str_def is_int_def int_str_def)
    with False show ?thesis by (simp add: parse_number_def parse_unsigned_nat[OF assms(2)] x h)
  qed
qed

lemma num_str_first:
  assumes "is_int x"
  shows "\<exists>c w. num_str x = c # w \<and> (is_digit c \<or> c = CHR ''-'')"
proof -
  obtain i where x: "x = of_int i" using assms unfolding is_int_def by metis
  have "num_str x = int_str i" by (simp add: x num_str_def is_int_def)
  moreover obtain c w where "nat_str (nat i) = c # w" "is_digit c"
    using nat_str_hd[of "nat i"] nat_str_nonempty[of "nat i"] by (cases "nat_str (nat i)") auto
  ultimately show ?thesis by (auto simp: int_str_def)
qed

lemma number_char:
  assumes "is_digit c \<or> c = CHR ''-''"
  shows "\<not> json_space c \<and> code_of c \<noteq> 34 \<and> c \<notin> {CHR ''['', CHR '']'', CHR ''{'', CHR ''}'', CHR ''n'', CHR ''t'', CHR ''f''}"
  using assms by (auto simp: is_digit_def json_space_def code_of_def)

lemma json_str_first:
  assumes "wf_json v"
  shows "\<exists>c w. json_str v = c # w \<and> \<not> json_space c \<and> c \<noteq> CHR '']''"
proof (cases v)
  case (JNum x)
  with assms num_str_first[of x] show ?thesis using number_char by fastforce
next
  case (JStr s)
  have "code_of quote_char = 34" "code_of (CHR '']'') = 93" by (simp_all add: quote_char_def code_of_def)
  then have "quote_char \<noteq> CHR '']''" using arg_cong[of quote_char "CHR '']''" code_of] by auto
  with JStr show ?thesis by (simp add: json_quote_def)
qed (use assms in auto)

lemma join_Cons: "join d (w # ws) = w @ (if ws = [] then [] else d @ join d ws)"
  by (cases ws) simp_all

lemma wf_jfields_nonempty: "wf_jfields fs \<Longrightarrow> json_fields fs = [] \<longleftrightarrow> fs = []"
proof (cases fs)
  case (Cons f fs')
  then show "wf_jfields fs \<Longrightarrow> ?thesis" by (cases f; cases "snd f") auto
qed simp

lemma code_of_brackets:
  "code_of (CHR ''['') \<noteq> 34" "code_of (CHR ''{'') \<noteq> 34" "code_of (CHR ''n'') \<noteq> 34"
  "code_of (CHR ''t'') \<noteq> 34" "code_of (CHR ''f'') \<noteq> 34" "code_of quote_char = 34"
  by (simp_all add: code_of_def quote_char_def)

lemma num_end_after [simp]:
  "num_end []" "num_end (CHR '','' # r)" "num_end (CHR '']'' # r)" "num_end (CHR ''}'' # r)"
  by (simp_all add: num_end_def is_digit_def code_of_def)

lemma parse_value_literal:
  "parse_value (Suc n) (''null'' @ r) = Some (JNull, r)"
  "parse_value (Suc n) (''true'' @ r) = Some (JBool True, r)"
  "parse_value (Suc n) (''false'' @ r) = Some (JBool False, r)"
  by (simp_all add: skip_ws_nonspace code_of_brackets expect_def starts_with_def)

lemma parse_value_string: "parse_value (Suc n) (json_quote x @ r) = Some (JStr x, r)"
  by (simp add: json_quote_def skip_ws_nonspace code_of_brackets parse_chars_quoted)

lemma parse_value_number:
  assumes "is_int x" and "num_end r"
  shows "parse_value (Suc n) (num_str x @ r) = Some (JNum x, r)"
proof -
  obtain c w where c: "num_str x = c # w" "is_digit c \<or> c = CHR ''-''"
    using num_str_first[OF assms(1)] by auto
  from parse_number_num_str[OF assms] number_char[OF c(2)] show ?thesis
    by (simp add: c(1) skip_ws_nonspace)
qed

definition reads_value :: "jsval \<Rightarrow> bool" where
  "reads_value v \<longleftrightarrow> (\<forall>n r. num_end r \<longrightarrow> length (json_str v) \<le> n \<longrightarrow>
     parse_value n (json_str v @ r) = Some (v, r))"

definition reads_elems :: "jsval list \<Rightarrow> bool" where
  "reads_elems vs \<longleftrightarrow> (\<forall>n r. length (json_elems vs) < n \<longrightarrow>
     parse_elems n (json_elems vs @ CHR '']'' # r) = Some (vs, r))"

definition reads_fields :: "(string \<times> jsval) list \<Rightarrow> bool" where
  "reads_fields fs \<longleftrightarrow> (\<forall>n r. length (join '','' (json_fields fs)) < n \<longrightarrow>
     parse_fields n (join '','' (json_fields fs) @ CHR ''}'' # r) = Some (fs, r))"

lemma reads_elems_Cons:
  assumes "reads_value v" and "vs \<noteq> [] \<longrightarrow> reads_elems vs"
  shows "reads_elems (v # vs)"
  unfolding reads_elems_def
proof (intro allI impI)
  fix n r assume n: "length (json_elems (v # vs)) < n"
  then obtain k where k: "n = Suc k" by (cases n) auto
  show "parse_elems n (json_elems (v # vs) @ CHR '']'' # r) = Some (v # vs, r)"
  proof (cases "vs = []")
    case True
    with assms(1) n show ?thesis by (simp add: k reads_value_def skip_ws_nonspace)
  next
    case False
    let ?q = "json_elems vs @ CHR '']'' # r"
    have "parse_value k (json_str v @ CHR '','' # ?q) = Some (v, CHR '','' # ?q)"
      using assms(1) n by (simp add: k reads_value_def)
    moreover have "parse_elems k ?q = Some (vs, r)"
      using assms(2) False n by (simp add: k reads_elems_def)
    ultimately show ?thesis using False by (simp add: k skip_ws_nonspace)
  qed
qed

lemma reads_fields_Cons:
  assumes "reads_value v" and "v \<noteq> JUndef" and "fs \<noteq> [] \<longrightarrow> reads_fields fs"
    and "json_fields fs = [] \<longleftrightarrow> fs = []"
  shows "reads_fields ((key, v) # fs)"
  unfolding reads_fields_def
proof (intro allI impI)
  fix n r assume n: "length (join '','' (json_fields ((key, v) # fs))) < n"
  then obtain k where k: "n = Suc k" by (cases n) auto
  let ?j = "join '','' (json_fields fs)"
  have s: "join '','' (json_fields ((key, v) # fs)) =
      json_quote key @ '':'' @ json_str v @ (if fs = [] then [] else '','' @ ?j)"
    using assms(2,4) by (simp add: join_Cons)
  have q: "json_quote key @ w = quote_char # (concat (map escape_char key) @ quote_char # w)" for w
    by (simp add: json_quote_def)
  show "parse_fields n (join '','' (json_fields ((key, v) # fs)) @ CHR ''}'' # r) = Some ((key, v) # fs, r)"
  proof (cases "fs = []")
    case True
    then have "parse_value k (json_str v @ CHR ''}'' # r) = Some (v, CHR ''}'' # r)"
      using assms(1) n unfolding s by (simp add: k reads_value_def)
    with True show ?thesis
      unfolding s k by (simp add: q skip_ws_nonspace code_of_brackets parse_chars_quoted)
  next
    case False
    let ?q = "?j @ CHR ''}'' # r"
    have "parse_value k (json_str v @ CHR '','' # ?q) = Some (v, CHR '','' # ?q)"
      using assms(1) n unfolding s by (simp add: k reads_value_def)
    moreover have "parse_fields k ?q = Some (fs, r)"
      using assms(3) False n unfolding s by (simp add: k reads_fields_def)
    ultimately show ?thesis
      using False unfolding s k by (simp add: q skip_ws_nonspace code_of_brackets parse_chars_quoted)
  qed
qed

lemma elems_no_close:
  assumes "wf_jsons vs" and "vs \<noteq> []"
  shows "\<exists>c w. json_elems vs = c # w \<and> \<not> json_space c \<and> c \<noteq> CHR '']''"
  using assms json_str_first by (cases vs) fastforce+

lemma fields_no_close:
  assumes "wf_jfields fs" and "fs \<noteq> []"
  shows "\<exists>w. join '','' (json_fields fs) = quote_char # w"
proof (cases fs)
  case (Cons f fs')
  with assms(1) show ?thesis by (cases f; cases "snd f") (auto simp: join_Cons json_quote_def)
qed (use assms in simp)

lemma quote_char_neq: "quote_char \<noteq> CHR ''}''" "quote_char \<noteq> CHR ''[''" "quote_char \<noteq> CHR '']''"
proof -
  have "code_of (CHR ''}'') = 125" "code_of (CHR ''['') = 91" "code_of (CHR '']'') = 93"
    by (simp_all add: code_of_def)
  then show "quote_char \<noteq> CHR ''}''" "quote_char \<noteq> CHR ''[''" "quote_char \<noteq> CHR '']''"
    using code_of_brackets(6) by (metis num.distinct numeral_eq_iff num.inject)+
qed

lemma reads_array:
  assumes "wf_jsons vs" and "vs \<noteq> [] \<longrightarrow> reads_elems vs"
  shows "reads_value (JArr vs)"
  unfolding reads_value_def
proof (intro allI impI)
  fix n r assume n: "length (json_str (JArr vs)) \<le> n"
  then obtain k where k: "n = Suc k" by (cases n) auto
  show "parse_value n (json_str (JArr vs) @ r) = Some (JArr vs, r)"
  proof (cases "vs = []")
    case True
    then show ?thesis by (simp add: k skip_ws_nonspace code_of_brackets)
  next
    case False
    obtain c w where c: "json_elems vs = c # w" "\<not> json_space c" "c \<noteq> CHR '']''"
      using elems_no_close[OF assms(1) False] by auto
    have "parse_elems k (json_elems vs @ CHR '']'' # r) = Some (vs, r)"
      using assms(2) False n by (simp add: k reads_elems_def)
    with c show ?thesis by (simp add: k skip_ws_nonspace code_of_brackets)
  qed
qed

lemma reads_object:
  assumes "wf_jfields fs" and "fs \<noteq> [] \<longrightarrow> reads_fields fs"
  shows "reads_value (JObj fs)"
  unfolding reads_value_def
proof (intro allI impI)
  fix n r assume n: "length (json_str (JObj fs)) \<le> n"
  then obtain k where k: "n = Suc k" by (cases n) auto
  show "parse_value n (json_str (JObj fs) @ r) = Some (JObj fs, r)"
  proof (cases "fs = []")
    case True
    then show ?thesis by (simp add: k skip_ws_nonspace code_of_brackets)
  next
    case False
    obtain w where c: "join '','' (json_fields fs) = quote_char # w"
      using fields_no_close[OF assms(1) False] by auto
    note nq = quote_char_neq
    have "parse_fields k (join '','' (json_fields fs) @ CHR ''}'' # r) = Some (fs, r)"
      using assms(2) False n by (simp add: k reads_fields_def)
    with c nq show ?thesis by (simp add: k skip_ws_nonspace code_of_brackets)
  qed
qed

lemma reads_value_intro:
  assumes "\<And>k r. num_end r \<Longrightarrow> parse_value (Suc k) (json_str v @ r) = Some (v, r)"
    and "json_str v \<noteq> []"
  shows "reads_value v"
  unfolding reads_value_def
proof (intro allI impI)
  fix n r assume "num_end r" "length (json_str v) \<le> n"
  with assms(2) obtain k where "n = Suc k" by (cases n) auto
  with assms(1) \<open>num_end r\<close> show "parse_value n (json_str v @ r) = Some (v, r)" by blast
qed

lemma reads_back:
  "wf_json v \<Longrightarrow> reads_value v"
  "wf_jsons vs \<Longrightarrow> vs \<noteq> [] \<Longrightarrow> reads_elems vs"
  "wf_jfields fs \<Longrightarrow> fs \<noteq> [] \<Longrightarrow> reads_fields fs"
proof (induction v and vs and fs rule: json_str_json_elems_json_fields.induct)
  case 2
  show ?case by (rule reads_value_intro) (simp_all only: json_str.simps parse_value_literal, simp)
next
  case (3 b)
  show ?case
    by (rule reads_value_intro; cases b)
      (simp_all only: json_str.simps parse_value_literal if_True if_False, simp_all)
next
  case (4 x)
  then have "is_int x" by simp
  then show ?case
    using num_str_first[OF \<open>is_int x\<close>]
    by (intro reads_value_intro) (simp only: json_str.simps parse_value_number, auto)
next
  case (5 x)
  show ?case
    by (rule reads_value_intro) (simp_all only: json_str.simps parse_value_string, simp add: json_quote_def)
next
  case (6 vs)
  then show ?case by (intro reads_array) simp_all
next
  case (7 fs)
  then show ?case by (intro reads_object) simp_all
next
  case (9 v vs)
  then show ?case by (intro reads_elems_Cons) simp_all
next
  case (11 key v fs)
  then have "v \<noteq> JUndef" by auto
  with 11 show ?case by (intro reads_fields_Cons) (simp_all add: wf_jfields_nonempty)
qed simp_all

theorem parse_json_str:
  assumes "wf_json v"
  shows "json_parse (json_str v) = Some v"
proof -
  have "parse_value (Suc (length (json_str v))) (json_str v @ []) = Some (v, [])"
    using reads_back(1)[OF assms] unfolding reads_value_def by (metis le_SucI num_end_after(1) order_refl)
  then show ?thesis by (simp add: json_parse_def skip_ws_def del: parse_value.simps)
qed

end
