(* ===== verification/WebStorage.thy ===== *)
theory WebStorage
  imports Json
begin

text \<open>
  The browser's local and session storage as the client meets it: a map from strings to strings
  whose access can be forbidden and whose writes can run out of quota, both exceptions. The
  locale holds the laws that the components rely on; it is interpreted on the model.
\<close>

datatype storage_error = SecurityError | QuotaExceeded

record storage =
  st_blocked :: bool
  st_full :: bool
  st_items :: "string \<rightharpoonup> string"

definition get_item :: "storage \<Rightarrow> string \<Rightarrow> storage_error + string option" where
  "get_item st k = (if st_blocked st then Inl SecurityError else Inr (st_items st k))"

definition set_item :: "string \<Rightarrow> string \<Rightarrow> storage \<Rightarrow> storage_error + storage" where
  "set_item k v st =
     (if st_blocked st then Inl SecurityError
      else if st_full st then Inl QuotaExceeded
      else Inr (st\<lparr>st_items := (st_items st)(k \<mapsto> v)\<rparr>))"

definition remove_item :: "string \<Rightarrow> storage \<Rightarrow> storage_error + storage" where
  "remove_item k st =
     (if st_blocked st then Inl SecurityError
      else Inr (st\<lparr>st_items := (st_items st)(k := None)\<rparr>))"

text \<open>The three accesses inside \<^verbatim>\<open>try ... catch\<close> blocks that swallow the exception.\<close>

definition try_get :: "storage \<Rightarrow> string \<Rightarrow> string option" where
  "try_get st k = (case get_item st k of Inl e \<Rightarrow> None | Inr x \<Rightarrow> x)"

definition try_set :: "string \<Rightarrow> string \<Rightarrow> storage \<Rightarrow> storage" where
  "try_set k v st = (case set_item k v st of Inl e \<Rightarrow> st | Inr st' \<Rightarrow> st')"

definition try_remove :: "string \<Rightarrow> storage \<Rightarrow> storage" where
  "try_remove k st = (case remove_item k st of Inl e \<Rightarrow> st | Inr st' \<Rightarrow> st')"

definition storage_works :: "storage \<Rightarrow> bool" where
  "storage_works st \<longleftrightarrow> \<not> st_blocked st \<and> \<not> st_full st"

locale web_storage =
  fixes get :: "'s \<Rightarrow> string \<Rightarrow> 'e + string option"
    and put :: "string \<Rightarrow> string \<Rightarrow> 's \<Rightarrow> 'e + 's"
    and del :: "string \<Rightarrow> 's \<Rightarrow> 'e + 's"
  assumes get_put: "put k v s = Inr s' \<Longrightarrow> get s' k = Inr (Some v)"
    and get_put_other: "\<lbrakk> put k v s = Inr s'; k' \<noteq> k \<rbrakk> \<Longrightarrow> get s' k' = get s k'"
    and get_del: "del k s = Inr s' \<Longrightarrow> get s' k = Inr None"
    and get_del_other: "\<lbrakk> del k s = Inr s'; k' \<noteq> k \<rbrakk> \<Longrightarrow> get s' k' = get s k'"
begin

text \<open>Reading a JSON value back: nothing stored, or a text that does not parse, gives \<open>None\<close>.\<close>

definition load :: "'s \<Rightarrow> string \<Rightarrow> jsval option" where
  "load s k = (case get s k of Inr (Some t) \<Rightarrow> json_parse t | _ \<Rightarrow> None)"

lemma load_saved:
  assumes "wf_json v" and "put k (json_str v) s = Inr s'"
  shows "load s' k = Some v"
  using get_put[OF assms(2)] parse_json_str[OF assms(1)] by (simp add: load_def)

lemma load_saved_other:
  assumes "put k t s = Inr s'" and "k' \<noteq> k"
  shows "load s' k' = load s k'"
  using get_put_other[OF assms] by (simp add: load_def)

lemma load_removed: "del k s = Inr s' \<Longrightarrow> load s' k = None"
  using get_del by (simp add: load_def)

lemma put_twice:
  assumes "put k v s = Inr s1" and "put k w s1 = Inr s2"
  shows "get s2 k = Inr (Some w) \<and> (k' \<noteq> k \<longrightarrow> get s2 k' = get s k')"
  using get_put[OF assms(2)] get_put_other[OF assms(2)] get_put_other[OF assms(1)] by simp

end

interpretation local_storage: web_storage get_item set_item remove_item
  by unfold_locales
    (auto simp: get_item_def set_item_def remove_item_def split: if_splits)

lemma set_item_works: "storage_works st \<Longrightarrow> \<exists>st'. set_item k v st = Inr st' \<and> storage_works st'"
  by (simp add: storage_works_def set_item_def)

lemma try_get_set [simp]: "storage_works st \<Longrightarrow> try_get (try_set k v st) k = Some v"
  by (simp add: storage_works_def try_get_def try_set_def set_item_def get_item_def)

lemma try_get_set_other [simp]: "k' \<noteq> k \<Longrightarrow> try_get (try_set k v st) k' = try_get st k'"
  by (auto simp: try_get_def try_set_def set_item_def get_item_def split: sum.splits)

lemma try_get_remove [simp]: "try_get (try_remove k st) k = None"
  by (auto simp: try_get_def try_remove_def remove_item_def get_item_def split: sum.splits)

lemma try_get_remove_other [simp]: "k' \<noteq> k \<Longrightarrow> try_get (try_remove k st) k' = try_get st k'"
  by (auto simp: try_get_def try_remove_def remove_item_def get_item_def split: sum.splits)

lemma storage_works_try [simp]:
  "storage_works (try_set k v st) = storage_works st"
  "storage_works (try_remove k st) = storage_works st"
  by (auto simp: storage_works_def try_set_def try_remove_def set_item_def remove_item_def)

end
