(* ===== verification/Notes.thy ===== *)
theory Notes
  imports WebStorage Machine
begin

text \<open>
  The sticky-note board, \<^verbatim>\<open>web/src/lib/notes/use-notes.ts\<close>: the notes of the hook and their copy in
  local storage. A note is a JavaScript object, because the filter on reading keeps whole
  objects, unknown properties included.
\<close>

definition storage_key :: string where "storage_key = ''tb-notes-v1''"

definition max_notes :: nat where "max_notes = 50"

definition is_js_string :: "jsval \<Rightarrow> bool" where
  "is_js_string v = (case v of JStr s \<Rightarrow> True | _ \<Rightarrow> False)"

definition is_note :: "jsval \<Rightarrow> bool" where
  "is_note v =
     (case v of
        JObj ob \<Rightarrow> is_js_string (jget ob ''id'') \<and> is_js_string (jget ob ''body'') \<and>
          is_js_string (jget ob ''author_id'') \<and> is_js_string (jget ob ''color'') \<and>
          is_js_string (jget ob ''pinned_at'')
      | _ \<Rightarrow> False)"

text \<open>\<open>win\<close> tells whether there is a window, that is whether the code runs in a browser.\<close>

definition read_notes :: "bool \<Rightarrow> storage \<Rightarrow> jsval list" where
  "read_notes win st =
     (if \<not> win then []
      else case get_item st storage_key of
             Inl e \<Rightarrow> []
           | Inr raw \<Rightarrow>
               if \<not> truthy raw then []
               else case json_parse (the raw) of
                      Some (JArr parsed) \<Rightarrow> filter is_note parsed
                    | _ \<Rightarrow> [])"

text \<open>Writing is not guarded: the exception of the storage reaches the caller.\<close>

definition write_notes :: "bool \<Rightarrow> jsval list \<Rightarrow> storage \<Rightarrow> storage_error + storage" where
  "write_notes win notes st =
     (if \<not> win then Inr st else set_item storage_key (json_str (JArr notes)) st)"

record notes_state =
  ns_notes :: "jsval list"
  ns_store :: storage

definition mount_notes :: "storage \<Rightarrow> notes_state" where
  "mount_notes st = \<lparr>ns_notes = read_notes True st, ns_store = st\<rparr>"

definition set_notes :: "(jsval list \<Rightarrow> jsval list) \<Rightarrow> notes_state \<Rightarrow> storage_error + notes_state" where
  "set_notes f s =
     (case write_notes True (f (ns_notes s)) (ns_store s) of
        Inl e \<Rightarrow> Inl e
      | Inr st \<Rightarrow> Inr \<lparr>ns_notes = f (ns_notes s), ns_store = st\<rparr>)"

text \<open>\<open>now\<close> is the clock in milliseconds, \<open>rnd\<close> the random suffix.\<close>

definition new_note :: "int \<Rightarrow> string \<Rightarrow> string \<Rightarrow> string \<Rightarrow> string \<Rightarrow> jsval" where
  "new_note now rnd body author color =
     JObj [(''id'', JStr (''n_'' @ int_str now @ ''_'' @ rnd)), (''body'', JStr body),
           (''author_id'', JStr author), (''color'', JStr color), (''pinned_at'', JStr (iso_string now))]"

definition add_note :: "int \<Rightarrow> string \<Rightarrow> string \<Rightarrow> string \<Rightarrow> string \<Rightarrow> notes_state \<Rightarrow> storage_error + notes_state" where
  "add_note now rnd body author color =
     set_notes (\<lambda>prev. take max_notes (new_note now rnd body author color # prev))"

definition note_id :: "jsval \<Rightarrow> jsval" where
  "note_id v = (case v of JObj ob \<Rightarrow> jget ob ''id'' | _ \<Rightarrow> JUndef)"

definition remove_note :: "string \<Rightarrow> notes_state \<Rightarrow> storage_error + notes_state" where
  "remove_note i = set_notes (filter (\<lambda>n. note_id n \<noteq> JStr i))"

text \<open>\<^verbatim>\<open>{ ...n, ...patch }\<close>.\<close>

definition patch_note :: "jsobj \<Rightarrow> jsval \<Rightarrow> jsval" where
  "patch_note patch v = (case v of JObj ob \<Rightarrow> JObj (jspread ob patch) | _ \<Rightarrow> JObj patch)"

definition update_note :: "string \<Rightarrow> jsobj \<Rightarrow> notes_state \<Rightarrow> storage_error + notes_state" where
  "update_note i patch =
     set_notes (map (\<lambda>n. if note_id n = JStr i then patch_note patch n else n))"

section \<open>Runs of the board\<close>

datatype note_event =
    AddNote int string string string string
  | RemoveNote string
  | UpdateNote string "string option" "string option"

definition patch_fields :: "string option \<Rightarrow> string option \<Rightarrow> jsobj" where
  "patch_fields body color =
     (case body of None \<Rightarrow> [] | Some b \<Rightarrow> [(''body'', JStr b)]) @
     (case color of None \<Rightarrow> [] | Some c \<Rightarrow> [(''color'', JStr c)])"

fun note_op :: "note_event \<Rightarrow> notes_state \<Rightarrow> storage_error + notes_state" where
  "note_op (AddNote now rnd body author color) = add_note now rnd body author color"
| "note_op (RemoveNote i) = remove_note i"
| "note_op (UpdateNote i body color) = update_note i (patch_fields body color)"

definition note_step :: "note_event \<Rightarrow> notes_state \<Rightarrow> notes_state" where
  "note_step e s = (case note_op e s of Inl err \<Rightarrow> s | Inr s' \<Rightarrow> s')"

definition good_note :: "jsval \<Rightarrow> bool" where
  "good_note n \<longleftrightarrow> is_note n \<and> wf_json n"

text \<open>The board and its copy agree, and every note is one that the reader keeps.\<close>

definition board_ok :: "notes_state \<Rightarrow> bool" where
  "board_ok s \<longleftrightarrow> list_all good_note (ns_notes s) \<and> read_notes True (ns_store s) = ns_notes s"

lemma wf_jsons_all: "wf_jsons vs = list_all wf_json vs"
  by (induction vs) simp_all

lemma wf_jfields_all: "wf_jfields fs = (\<forall>f \<in> set fs. wf_json (snd f))"
  by (induction fs) auto

lemma wf_jset: "wf_jfields ob \<Longrightarrow> wf_json v \<Longrightarrow> wf_jfields (jset k v ob)"
  by (auto simp: wf_jfields_all jset_def)

lemma read_written:
  assumes "list_all good_note notes" and "set_item storage_key (json_str (JArr notes)) st = Inr st'"
  shows "read_notes True st' = notes"
proof -
  have wf: "wf_json (JArr notes)" and f: "filter is_note notes = notes"
    using assms(1) by (simp_all add: wf_jsons_all list_all_iff good_note_def)
  have "get_item st' storage_key = Inr (Some (json_str (JArr notes)))"
    by (rule local_storage.get_put[OF assms(2)])
  then show ?thesis
    by (simp add: read_notes_def f parse_json_str[OF wf] del: json_str.simps) simp
qed

lemma set_notes_ok:
  assumes "set_notes f s = Inr s'" and "list_all good_note (f (ns_notes s))"
  shows "board_ok s'"
  using assms read_written[OF assms(2)]
  by (auto simp: set_notes_def write_notes_def board_ok_def simp del: json_str.simps split: sum.splits)

lemma good_new_note: "good_note (new_note now rnd body author color)"
  by (simp add: good_note_def new_note_def is_note_def jget_def is_js_string_def)

lemma good_patched: "good_note n \<Longrightarrow> good_note (patch_note (patch_fields b c) n)"
  by (cases n; cases b; cases c)
    (simp_all add: good_note_def is_note_def patch_note_def patch_fields_def is_js_string_def wf_jset)

lemma note_op_ok:
  assumes "board_ok s" and "note_op e s = Inr s'"
  shows "board_ok s'"
proof (cases e)
  case (AddNote now rnd body author color)
  have "set_notes (\<lambda>prev. take max_notes (new_note now rnd body author color # prev)) s = Inr s'"
    using assms(2) AddNote by (simp add: add_note_def)
  moreover have "list_all good_note (take max_notes (new_note now rnd body author color # ns_notes s))"
    using assms(1) good_new_note by (auto simp: board_ok_def list_all_iff dest!: in_set_takeD)
  ultimately show ?thesis by (rule set_notes_ok)
next
  case (RemoveNote i)
  have "set_notes (filter (\<lambda>n. note_id n \<noteq> JStr i)) s = Inr s'"
    using assms(2) RemoveNote by (simp add: remove_note_def)
  moreover have "list_all good_note (filter (\<lambda>n. note_id n \<noteq> JStr i) (ns_notes s))"
    using assms(1) by (simp add: board_ok_def list_all_iff)
  ultimately show ?thesis by (rule set_notes_ok)
next
  case (UpdateNote i b c)
  let ?f = "map (\<lambda>n. if note_id n = JStr i then patch_note (patch_fields b c) n else n)"
  have "set_notes ?f s = Inr s'" using assms(2) UpdateNote by (simp add: update_note_def)
  moreover have "list_all good_note (?f (ns_notes s))"
    using assms(1) good_patched by (auto simp: board_ok_def list_all_iff)
  ultimately show ?thesis by (rule set_notes_ok)
qed

lemma note_step_ok [step_inv]: "board_ok s \<Longrightarrow> board_ok (note_step e s)"
  using note_op_ok by (auto simp: note_step_def split: sum.splits)

interpretation note_board: machine note_step "\<lambda>_. True" board_ok
  by unfold_locales (rule step_inv)

lemma note_op_length:
  "note_op e s = Inr s' \<Longrightarrow> length (ns_notes s') \<le> max (length (ns_notes s)) max_notes"
  by (cases e)
    (auto simp: add_note_def remove_note_def update_note_def set_notes_def max_def
      split: sum.splits intro: le_trans[OF length_filter_le])

lemma run_notes_length:
  "length (ns_notes (run note_step es s)) \<le> max (length (ns_notes s)) max_notes"
proof (induction es arbitrary: s)
  case Nil
  then show ?case by simp
next
  case (Cons e es)
  have "length (ns_notes (note_step e s)) \<le> max (length (ns_notes s)) max_notes"
    using note_op_length[of e s] by (auto simp: note_step_def split: sum.splits)
  with Cons[of "note_step e s"] show ?case by (simp add: max_def split: if_splits)
qed

section \<open>Properties\<close>

text \<open>
  C28. The board survives a reload: whatever is added, edited and removed after mounting, and
  however often the storage refuses a write, reading the storage again gives exactly the notes
  on the board.
\<close>

theorem notes_survive_reload:
  assumes "list_all wf_json (read_notes True st)"
  shows "read_notes True (ns_store (run note_step es (mount_notes st))) =
    ns_notes (run note_step es (mount_notes st))"
proof -
  have "list_all is_note (read_notes True st)"
    by (auto simp: read_notes_def list_all_iff split: sum.splits option.splits jsval.splits)
  with assms have "board_ok (mount_notes st)"
    by (simp add: board_ok_def mount_notes_def list_all_iff good_note_def)
  then have "board_ok (run note_step es (mount_notes st))" by (rule note_board.run_inv) (simp add: list_all_iff)
  then show ?thesis by (simp add: board_ok_def)
qed

definition demo_store :: storage where
  "demo_store = \<lparr>st_blocked = False, st_full = False, st_items = Map.empty\<rparr>"

theorem notes_survive_reload_witness:
  "read_notes True (ns_store (run note_step [AddNote 0 ''ab'' ''Milk'' ''m1'' ''#fff'', RemoveNote ''x'']
     (mount_notes demo_store))) =
   ns_notes (run note_step [AddNote 0 ''ab'' ''Milk'' ''m1'' ''#fff'', RemoveNote ''x''] (mount_notes demo_store))"
  by (rule notes_survive_reload) (simp add: read_notes_def get_item_def demo_store_def)

text \<open>
  The cap: adding puts the new note first, keeps the newest fifty and drops only the oldest;
  no run makes the board longer than fifty notes unless it was longer when it was loaded.
\<close>

theorem notes_capped:
  "(storage_works (ns_store s) \<longrightarrow>
      (\<exists>s'. add_note now rnd body author color s = Inr s' \<and>
         ns_notes s' = new_note now rnd body author color # take (max_notes - 1) (ns_notes s))) \<and>
   length (ns_notes (run note_step es s)) \<le> max (length (ns_notes s)) max_notes"
  using set_item_works[of "ns_store s"] run_notes_length[of es s]
  by (auto simp: add_note_def set_notes_def write_notes_def storage_works_def set_item_def
      max_notes_def take_Cons' simp del: json_str.simps)

theorem notes_capped_witness:
  "\<exists>s'. add_note 0 ''ab'' ''Milk'' ''m1'' ''#fff'' (mount_notes demo_store) = Inr s' \<and>
     ns_notes s' = new_note 0 ''ab'' ''Milk'' ''m1'' ''#fff'' # take (max_notes - 1) (ns_notes (mount_notes demo_store))"
  using notes_capped[of "mount_notes demo_store"]
  by (simp add: mount_notes_def demo_store_def storage_works_def)

end
