(* ===== verification/Http.thy ===== *)
theory Http
  imports Json
begin

text \<open>
  What the client sees of \<^verbatim>\<open>fetch\<close>: a request, a response whose body is a text, and the reading
  of dynamically typed bodies with optional chaining. Every network answer is an argument of
  the definitions that use it.
\<close>

record http_request =
  rq_method :: string
  rq_url :: string
  rq_headers :: "(string \<times> string) list"
  rq_body :: "string option"

record http_response =
  rs_status :: int
  rs_status_text :: string
  rs_headers :: "(string \<times> string) list"
  rs_body :: string

text \<open>\<^verbatim>\<open>res.ok\<close>, and \<^verbatim>\<open>await res.json()\<close> whose rejection is \<open>None\<close>.\<close>

definition resp_ok :: "http_response \<Rightarrow> bool" where
  "resp_ok r \<longleftrightarrow> 200 \<le> rs_status r \<and> rs_status r \<le> 299"

definition resp_json :: "http_response \<Rightarrow> jsval option" where
  "resp_json r = json_parse (rs_body r)"

text \<open>Header names are case-insensitive.\<close>

definition resp_header :: "http_response \<Rightarrow> string \<Rightarrow> string option" where
  "resp_header r k = map_of (map (\<lambda>(h, v). (lowercase h, v)) (rs_headers r)) (lowercase k)"

text \<open>
  \<^verbatim>\<open>v?.k\<close> and \<^verbatim>\<open>v?.[i]\<close>: a property of a value that has none is undefined. \<open>nullish\<close> is what
  \<^verbatim>\<open>??\<close> replaces.
\<close>

definition nullish :: "jsval \<Rightarrow> bool" where
  "nullish v \<longleftrightarrow> v = JUndef \<or> v = JNull"

text \<open>\<^verbatim>\<open>!!v\<close> for a JavaScript value.\<close>

fun js_truthy :: "jsval \<Rightarrow> bool" where
  "js_truthy JUndef = False"
| "js_truthy JNull = False"
| "js_truthy (JBool b) = b"
| "js_truthy (JNum x) = (x \<noteq> 0)"
| "js_truthy (JStr s) = (s \<noteq> [])"
| "js_truthy (JArr vs) = True"
| "js_truthy (JObj ob) = True"

definition opt_prop :: "jsval \<Rightarrow> string \<Rightarrow> jsval" where
  "opt_prop v k = (case v of JObj ob \<Rightarrow> jget ob k | _ \<Rightarrow> JUndef)"

definition opt_index :: "jsval \<Rightarrow> nat \<Rightarrow> jsval" where
  "opt_index v i =
     (case v of
        JArr vs \<Rightarrow> if i < length vs then vs ! i else JUndef
      | JObj ob \<Rightarrow> jget ob (nat_str i)
      | JStr s \<Rightarrow> if i < length s then JStr [s ! i] else JUndef
      | _ \<Rightarrow> JUndef)"

definition or_default :: "jsval \<Rightarrow> jsval \<Rightarrow> jsval" where
  "or_default v d = (if nullish v then d else v)"

lemma or_default_simps [simp]:
  "or_default JUndef d = d" "or_default JNull d = d" "or_default (JStr s) d = JStr s"
  "or_default (JObj ob) d = JObj ob"
  by (simp_all add: or_default_def nullish_def)

end
