(* ===== verification/AiKeys.thy ===== *)
theory AiKeys
  imports WebStorage Machine
begin

text \<open>
  The store of the user's own provider keys, \<^verbatim>\<open>web/src/lib/ai/ai-keys.ts\<close>: the state of the hook
  next to its copy in local storage, and the flag that switches the assistant on. Reading does
  not check the shape of what it parses, so the state is any JavaScript value.
\<close>

definition keys_storage_key :: string where "keys_storage_key = ''tb-ai-keys''"

definition enabled_key :: string where "enabled_key = ''tb-ai-enabled''"

datatype ai_provider = Openai | Anthropic | Google

fun provider_name :: "ai_provider \<Rightarrow> string" where
  "provider_name Openai = ''openai''"
| "provider_name Anthropic = ''anthropic''"
| "provider_name Google = ''google''"

definition read_keys :: "bool \<Rightarrow> storage \<Rightarrow> jsval" where
  "read_keys win st =
     (if \<not> win then JObj []
      else let raw = try_get st keys_storage_key in
           if \<not> truthy raw then JObj []
           else case json_parse (the raw) of None \<Rightarrow> JObj [] | Some v \<Rightarrow> v)"

definition write_keys :: "jsval \<Rightarrow> storage \<Rightarrow> storage" where
  "write_keys ks st = try_set keys_storage_key (json_str ks) st"

definition remove_keys :: "storage \<Rightarrow> storage" where
  "remove_keys st = try_remove keys_storage_key st"

definition is_ai_enabled :: "bool \<Rightarrow> storage \<Rightarrow> bool" where
  "is_ai_enabled win st =
     (if \<not> win then False
      else case get_item st enabled_key of Inl e \<Rightarrow> False | Inr v \<Rightarrow> v \<noteq> Some ''false'')"

definition set_ai_enabled :: "bool \<Rightarrow> storage \<Rightarrow> storage" where
  "set_ai_enabled enabled st = try_set enabled_key (if enabled then ''true'' else ''false'') st"

record keys_state =
  ks_keys :: jsval
  ks_store :: storage

definition mount_keys :: "storage \<Rightarrow> keys_state" where
  "mount_keys st = \<lparr>ks_keys = read_keys True st, ks_store = st\<rparr>"

text \<open>Another tab wrote: the storage event re-reads when it concerns this key.\<close>

definition on_storage :: "string \<Rightarrow> storage \<Rightarrow> keys_state \<Rightarrow> keys_state" where
  "on_storage k st s =
     (if k = keys_storage_key then \<lparr>ks_keys = read_keys True st, ks_store = st\<rparr>
      else s\<lparr>ks_store := st\<rparr>)"

text \<open>The properties that \<^verbatim>\<open>{ ...prev }\<close> copies.\<close>

definition own_props :: "jsval \<Rightarrow> jsobj" where
  "own_props v =
     (case v of
        JObj ob \<Rightarrow> ob
      | JArr vs \<Rightarrow> map (\<lambda>(i, x). (nat_str i, x)) (zip [0..<length vs] vs)
      | JStr s \<Rightarrow> map (\<lambda>(i, c). (nat_str i, JStr [c])) (zip [0..<length s] s)
      | _ \<Rightarrow> [])"

definition set_key :: "ai_provider \<Rightarrow> string \<Rightarrow> keys_state \<Rightarrow> keys_state" where
  "set_key p value s =
     (let nxt = JObj (jset (provider_name p) (JStr value) (own_props (ks_keys s)))
      in \<lparr>ks_keys = nxt, ks_store = write_keys nxt (ks_store s)\<rparr>)"

definition clear_key :: "ai_provider \<Rightarrow> keys_state \<Rightarrow> keys_state" where
  "clear_key p s =
     (let nxt = JObj (filter (\<lambda>(k, v). k \<noteq> provider_name p) (own_props (ks_keys s)))
      in \<lparr>ks_keys = nxt, ks_store = write_keys nxt (ks_store s)\<rparr>)"

definition clear_all :: "keys_state \<Rightarrow> keys_state" where
  "clear_all s = \<lparr>ks_keys = JObj [], ks_store = remove_keys (ks_store s)\<rparr>"

text \<open>What a consumer reads: \<^verbatim>\<open>keys[provider]\<close>.\<close>

definition key_of :: "keys_state \<Rightarrow> ai_provider \<Rightarrow> jsval" where
  "key_of s p = (case ks_keys s of JObj ob \<Rightarrow> jget ob (provider_name p) | _ \<Rightarrow> JUndef)"

lemma provider_name_inj: "provider_name p = provider_name q \<longleftrightarrow> p = q"
  by (cases p; cases q) simp_all

lemma jget_filter: "jget (filter (\<lambda>(k, v). k \<noteq> d) ob) k = (if k = d then JUndef else jget ob k)"
proof -
  have "map_of (filter (\<lambda>(k, v). k \<noteq> d) fs) k = (if k = d then None else map_of fs k)" for fs
    by (induction fs) auto
  from this[of "rev ob"] show ?thesis by (cases "k = d") (simp_all add: jget_def rev_filter)
qed

lemma jget_Nil [simp]: "jget [] k = JUndef"
  by (simp add: jget_def)

definition plain_keys :: "keys_state \<Rightarrow> bool" where
  "plain_keys s \<longleftrightarrow> (\<exists>ob. ks_keys s = JObj ob \<and> wf_json (JObj ob))"

text \<open>The state and its copy agree.\<close>

definition keys_synced :: "keys_state \<Rightarrow> bool" where
  "keys_synced s \<longleftrightarrow> read_keys True (ks_store s) = ks_keys s"

lemma json_str_obj_nonempty: "json_str (JObj ob) \<noteq> []"
  by simp

lemma read_written_keys:
  assumes "storage_works st" and "wf_json (JObj ob)"
  shows "read_keys True (write_keys (JObj ob) st) = JObj ob"
  using assms json_str_obj_nonempty[of ob]
  by (simp add: read_keys_def write_keys_def Let_def parse_json_str del: json_str.simps)

lemma wf_jset_obj: "wf_json (JObj ob) \<Longrightarrow> wf_json (JObj (jset k (JStr v) ob))"
proof -
  have "wf_jfields fs = (\<forall>f \<in> set fs. wf_json (snd f))" for fs by (induction fs) auto
  then show "wf_json (JObj ob) \<Longrightarrow> ?thesis" by (auto simp: jset_def)
qed

lemma wf_filter_obj: "wf_json (JObj ob) \<Longrightarrow> wf_json (JObj (filter P ob))"
proof -
  have "wf_jfields fs = (\<forall>f \<in> set fs. wf_json (snd f))" for fs by (induction fs) auto
  then show "wf_json (JObj ob) \<Longrightarrow> ?thesis" by auto
qed

section \<open>Laws\<close>

text \<open>
  Setting and clearing a provider's key changes that key only, in the state and in the copy
  that survives a reload; clearing everything leaves no key anywhere, and none of the three
  touches the switch of the assistant.
\<close>

theorem ai_key_store_laws:
  assumes "plain_keys s" and "storage_works (ks_store s)"
  shows "key_of (set_key p v s) q = (if q = p then JStr v else key_of s q) \<and>
    key_of (clear_key p s) q = (if q = p then JUndef else key_of s q) \<and>
    key_of (clear_all s) q = JUndef \<and>
    keys_synced (set_key p v s) \<and> keys_synced (clear_key p s) \<and> keys_synced (clear_all s) \<and>
    is_ai_enabled w (ks_store (set_key p v s)) = is_ai_enabled w (ks_store s) \<and>
    is_ai_enabled w (ks_store (clear_all s)) = is_ai_enabled w (ks_store s)"
proof -
  obtain ob where ob: "ks_keys s = JObj ob" "wf_json (JObj ob)" using assms(1) by (auto simp: plain_keys_def)
  have "key_of (set_key p v s) q = (if q = p then JStr v else key_of s q)"
    "key_of (clear_key p s) q = (if q = p then JUndef else key_of s q)"
    "key_of (clear_all s) q = JUndef"
    by (simp_all add: key_of_def set_key_def clear_key_def clear_all_def own_props_def Let_def ob
        provider_name_inj jget_filter)
  moreover have "keys_synced (set_key p v s)" "keys_synced (clear_key p s)"
    using read_written_keys[OF assms(2)] wf_jset_obj[OF ob(2)] wf_filter_obj[OF ob(2)]
    by (simp_all add: keys_synced_def set_key_def clear_key_def own_props_def Let_def ob
        del: json_str.simps wf_json.simps)
  moreover have "keys_synced (clear_all s)"
    by (simp add: keys_synced_def clear_all_def read_keys_def remove_keys_def Let_def)
  moreover have "enabled_key \<noteq> keys_storage_key" by (simp add: enabled_key_def keys_storage_key_def)
  then have "get_item (write_keys x st) enabled_key = get_item st enabled_key"
    "get_item (remove_keys st) enabled_key = get_item st enabled_key" for x st
    by (auto simp: write_keys_def remove_keys_def try_set_def try_remove_def set_item_def
        remove_item_def get_item_def)
  ultimately show ?thesis
    by (simp add: is_ai_enabled_def set_key_def clear_all_def Let_def)
qed

theorem ai_key_store_laws_witness:
  "key_of (set_key Google ''k2'' (set_key Openai ''k1'' (mount_keys
     \<lparr>st_blocked = False, st_full = False, st_items = Map.empty\<rparr>))) Openai = JStr ''k1''"
  using ai_key_store_laws[of "set_key Openai ''k1'' (mount_keys
     \<lparr>st_blocked = False, st_full = False, st_items = Map.empty\<rparr>)" Google "''k2''" Openai]
  by (simp add: plain_keys_def mount_keys_def read_keys_def set_key_def write_keys_def own_props_def
      jset_def Let_def try_get_def get_item_def try_set_def set_item_def storage_works_def key_of_def jget_def)

text \<open>
  The switch is read back as it was set while the storage works, is on by default, and is off
  whenever the storage cannot be read at all.
\<close>

theorem ai_enabled_roundtrip:
  "(storage_works st \<longrightarrow> is_ai_enabled True (set_ai_enabled b st) = b) \<and>
   (\<not> st_blocked st \<and> st_items st enabled_key = None \<longrightarrow> is_ai_enabled True st) \<and>
   (st_blocked st \<longrightarrow> \<not> is_ai_enabled True (set_ai_enabled b st))"
  by (auto simp: is_ai_enabled_def set_ai_enabled_def try_set_def set_item_def get_item_def
      storage_works_def)

theorem ai_enabled_roundtrip_witness:
  "is_ai_enabled True (set_ai_enabled True \<lparr>st_blocked = False, st_full = False, st_items = Map.empty\<rparr>)"
  using ai_enabled_roundtrip[of "\<lparr>st_blocked = False, st_full = False, st_items = Map.empty\<rparr>" True]
  by (simp add: storage_works_def)

section \<open>A map of keys\<close>

text \<open>What the store promises: a map from providers to keys, in the state and after a reload.\<close>

datatype key_op = SetKey ai_provider string | ClearKey ai_provider | ClearAll

fun key_step :: "key_op \<Rightarrow> keys_state \<Rightarrow> keys_state" where
  "key_step (SetKey p v) s = set_key p v s"
| "key_step (ClearKey p) s = clear_key p s"
| "key_step ClearAll s = clear_all s"

fun map_step :: "key_op \<Rightarrow> (ai_provider \<rightharpoonup> string) \<Rightarrow> (ai_provider \<rightharpoonup> string)" where
  "map_step (SetKey p v) m = m(p \<mapsto> v)"
| "map_step (ClearKey p) m = m(p := None)"
| "map_step ClearAll m = Map.empty"

definition keys_map :: "keys_state \<Rightarrow> (ai_provider \<rightharpoonup> string)" where
  "keys_map s = (\<lambda>p. case key_of s p of JStr v \<Rightarrow> Some v | _ \<Rightarrow> None)"

definition keys_ok :: "keys_state \<Rightarrow> bool" where
  "keys_ok s \<longleftrightarrow> plain_keys s \<and> storage_works (ks_store s) \<and> keys_synced s"

lemma works_step: "storage_works (ks_store s) \<Longrightarrow> storage_works (ks_store (key_step e s))"
  by (cases e) (simp_all add: set_key_def clear_key_def clear_all_def write_keys_def remove_keys_def Let_def
      storage_works_def try_set_def try_remove_def set_item_def remove_item_def)

lemma wf_empty_obj: "wf_json (JObj [])"
  by simp

lemma plain_step: "plain_keys s \<Longrightarrow> plain_keys (key_step e s)"
  by (cases e) (auto simp: plain_keys_def set_key_def clear_key_def clear_all_def own_props_def Let_def
      intro: wf_jset_obj wf_filter_obj wf_empty_obj simp del: wf_json.simps)

lemma keys_ok_step: "keys_ok s \<Longrightarrow> keys_ok (key_step e s)"
  using ai_key_store_laws[of s] works_step[of s e] plain_step[of s e]
  by (cases e) (auto simp: keys_ok_def)

lemma keys_map_step: "keys_ok s \<Longrightarrow> keys_map (key_step e s) = map_step e (keys_map s)"
  using ai_key_store_laws[of s] by (cases e) (auto simp: keys_ok_def keys_map_def fun_eq_iff)

interpretation key_store: machine key_step "\<lambda>_. True" keys_ok
  by unfold_locales (rule keys_ok_step)

lemma keys_map_run: "keys_ok s \<Longrightarrow> keys_map (run key_step ops s) = run map_step ops (keys_map s)"
  by (induction ops arbitrary: s) (simp_all add: keys_ok_step keys_map_step)

section \<open>Properties\<close>

text \<open>
  C27. The key store refines a map from providers to keys: any sequence of sets and clears leads to the map
  that the same operations give, and while the storage works a reload at any moment reads that map back.
\<close>

theorem ai_keys_refine_map:
  assumes "plain_keys s" and "storage_works (ks_store s)" and "keys_synced s"
  shows "let s' = run key_step ops s in
    keys_map s' = run map_step ops (keys_map s) \<and> keys_map (mount_keys (ks_store s')) = run map_step ops (keys_map s)"
proof -
  have s: "keys_ok s" using assms by (simp add: keys_ok_def)
  have "keys_ok (run key_step ops s)" by (rule key_store.run_inv[OF s]) (simp add: list_all_iff)
  then have "read_keys True (ks_store (run key_step ops s)) = ks_keys (run key_step ops s)"
    by (simp add: keys_ok_def keys_synced_def)
  then have "keys_map (mount_keys (ks_store (run key_step ops s))) = keys_map (run key_step ops s)"
    by (simp add: keys_map_def key_of_def mount_keys_def)
  with keys_map_run[OF s] show ?thesis by (simp add: Let_def)
qed

theorem ai_keys_refine_map_witness:
  "keys_map (mount_keys (ks_store (run key_step [SetKey Openai ''k1'', SetKey Google ''k2'', ClearKey Openai]
     (mount_keys \<lparr>st_blocked = False, st_full = False, st_items = Map.empty\<rparr>)))) Google = Some ''k2''"
proof -
  let ?s = "mount_keys \<lparr>st_blocked = False, st_full = False, st_items = Map.empty\<rparr>"
  have "plain_keys ?s" "storage_works (ks_store ?s)" "keys_synced ?s"
    by (simp_all add: plain_keys_def mount_keys_def read_keys_def Let_def try_get_def get_item_def
        storage_works_def keys_synced_def)
  from ai_keys_refine_map[OF this, of "[SetKey Openai ''k1'', SetKey Google ''k2'', ClearKey Openai]"]
  show ?thesis by (simp add: Let_def)
qed

end
