(* ===== verification/AiClient.thy ===== *)
theory AiClient
  imports Http AiKeys
begin

text \<open>
  The direct calls to the three assistant providers, \<^verbatim>\<open>web/src/lib/ai/client.ts\<close>: the request each
  builds from the same list of messages, the reading of its answer, and the dispatcher. The
  network is a function from a request to a response, or to nothing when \<^verbatim>\<open>fetch\<close> rejects.
\<close>

datatype ai_role = RUser | RAssistant | RSystem

record ai_message =
  am_role :: ai_role
  am_content :: string

fun role_name :: "ai_role \<Rightarrow> string" where
  "role_name RUser = ''user''"
| "role_name RAssistant = ''assistant''"
| "role_name RSystem = ''system''"

text \<open>
  What a call rejects with: an \<^verbatim>\<open>AIError\<close> (message, status, provider), the rejection of \<^verbatim>\<open>fetch\<close>
  itself, or the syntax error of a successful answer that is not JSON.
\<close>

datatype ai_failure = AIError jsval int string | FetchFailed | BadJson

type_synonym network = "http_request \<Rightarrow> http_response option"

definition message_obj :: "ai_message \<Rightarrow> jsval" where
  "message_obj m = JObj [(''role'', JStr (role_name (am_role m))), (''content'', JStr (am_content m))]"

definition system_messages :: "ai_message list \<Rightarrow> ai_message list" where
  "system_messages ms = filter (\<lambda>m. am_role m = RSystem) ms"

definition turn_messages :: "ai_message list \<Rightarrow> ai_message list" where
  "turn_messages ms = filter (\<lambda>m. am_role m \<noteq> RSystem) ms"

definition system_text :: "ai_message list \<Rightarrow> string" where
  "system_text ms = join [CHR 0x0A] (map am_content (system_messages ms))"

section \<open>Requests\<close>

definition openai_request :: "ai_message list \<Rightarrow> string \<Rightarrow> string \<Rightarrow> http_request" where
  "openai_request messages model apiKey =
     \<lparr>rq_method = ''POST'', rq_url = ''https://api.openai.com/v1/chat/completions'',
      rq_headers = [(''Content-Type'', ''application/json''), (''Authorization'', ''Bearer '' @ apiKey)],
      rq_body = Some (json_str (JObj [(''model'', JStr model),
        (''messages'', JArr (map message_obj messages))]))\<rparr>"

definition anthropic_body :: "ai_message list \<Rightarrow> string \<Rightarrow> jsval" where
  "anthropic_body messages model =
     JObj ([(''model'', JStr model), (''max_tokens'', JNum 1024),
            (''messages'', JArr (map message_obj (turn_messages messages)))] @
           (if system_messages messages \<noteq> [] then [(''system'', JStr (system_text messages))] else []))"

definition anthropic_request :: "ai_message list \<Rightarrow> string \<Rightarrow> string \<Rightarrow> http_request" where
  "anthropic_request messages model apiKey =
     \<lparr>rq_method = ''POST'', rq_url = ''https://api.anthropic.com/v1/messages'',
      rq_headers = [(''Content-Type'', ''application/json''), (''x-api-key'', apiKey),
        (''anthropic-version'', ''2023-06-01'')],
      rq_body = Some (json_str (anthropic_body messages model))\<rparr>"

definition google_turn :: "string \<Rightarrow> string \<Rightarrow> jsval" where
  "google_turn role content =
     JObj [(''role'', JStr role), (''parts'', JArr [JObj [(''text'', JStr content)]])]"

definition google_contents :: "ai_message list \<Rightarrow> jsval list" where
  "google_contents messages =
     (let contents = map (\<lambda>m. google_turn (if am_role m = RAssistant then ''model'' else ''user'') (am_content m))
            (turn_messages messages);
          systemText = system_text messages
      in if systemText \<noteq> [] then google_turn ''user'' systemText # contents else contents)"

definition google_request :: "ai_message list \<Rightarrow> string \<Rightarrow> string \<Rightarrow> http_request" where
  "google_request messages model apiKey =
     \<lparr>rq_method = ''POST'',
      rq_url = ''https://generativelanguage.googleapis.com/v1beta/models/'' @ model @
        '':generateContent?key='' @ apiKey,
      rq_headers = [(''Content-Type'', ''application/json'')],
      rq_body = Some (json_str (JObj [(''contents'', JArr (google_contents messages))]))\<rparr>"

section \<open>Answers\<close>

definition error_text :: "http_response \<Rightarrow> jsval" where
  "error_text r =
     (case resp_json r of
        None \<Rightarrow> JStr (rs_status_text r)
      | Some body \<Rightarrow> or_default (opt_prop (opt_prop body ''error'') ''message'') (JStr (rs_status_text r)))"

definition openai_text :: "jsval \<Rightarrow> jsval" where
  "openai_text data =
     or_default (opt_prop (opt_prop (opt_index (opt_prop data ''choices'') 0) ''message'') ''content'') (JStr [])"

definition anthropic_text :: "jsval \<Rightarrow> jsval" where
  "anthropic_text data = or_default (opt_prop (opt_index (opt_prop data ''content'') 0) ''text'') (JStr [])"

definition google_text :: "jsval \<Rightarrow> jsval" where
  "google_text data =
     or_default (opt_prop (opt_index (opt_prop (opt_prop (opt_index (opt_prop data ''candidates'') 0)
       ''content'') ''parts'') 0) ''text'') (JStr [])"

definition ai_answer :: "string \<Rightarrow> (jsval \<Rightarrow> jsval) \<Rightarrow> http_response option \<Rightarrow> ai_failure + jsval" where
  "ai_answer provider text r =
     (case r of
        None \<Rightarrow> Inl FetchFailed
      | Some res \<Rightarrow>
          if \<not> resp_ok res then Inl (AIError (error_text res) (rs_status res) provider)
          else case resp_json res of None \<Rightarrow> Inl BadJson | Some data \<Rightarrow> Inr (text data))"

section \<open>Calls\<close>

text \<open>A call is the list of requests it sends and what it returns.\<close>

definition call_openai :: "network \<Rightarrow> ai_message list \<Rightarrow> string option \<Rightarrow> string \<Rightarrow>
    http_request list \<times> (ai_failure + jsval)" where
  "call_openai net messages model apiKey =
     (let rq = openai_request messages (case model of None \<Rightarrow> ''gpt-4o-mini'' | Some m \<Rightarrow> m) apiKey
      in ([rq], ai_answer ''openai'' openai_text (net rq)))"

definition call_anthropic :: "network \<Rightarrow> ai_message list \<Rightarrow> string option \<Rightarrow> string \<Rightarrow>
    http_request list \<times> (ai_failure + jsval)" where
  "call_anthropic net messages model apiKey =
     (let rq = anthropic_request messages (case model of None \<Rightarrow> ''claude-haiku-20240307'' | Some m \<Rightarrow> m) apiKey
      in ([rq], ai_answer ''anthropic'' anthropic_text (net rq)))"

definition call_google :: "network \<Rightarrow> ai_message list \<Rightarrow> string option \<Rightarrow> string \<Rightarrow>
    http_request list \<times> (ai_failure + jsval)" where
  "call_google net messages model apiKey =
     (let rq = google_request messages (case model of None \<Rightarrow> ''gemini-1.5-flash'' | Some m \<Rightarrow> m) apiKey
      in ([rq], ai_answer ''google'' google_text (net rq)))"

definition call_ai :: "network \<Rightarrow> string \<Rightarrow> ai_message list \<Rightarrow> string \<Rightarrow> string option \<Rightarrow>
    http_request list \<times> (ai_failure + jsval)" where
  "call_ai net provider messages apiKey model =
     (if provider = ''openai'' then call_openai net messages model apiKey
      else if provider = ''anthropic'' then call_anthropic net messages model apiKey
      else if provider = ''google'' then call_google net messages model apiKey
      else ([], Inl (AIError (JStr (''Unknown provider: '' @ provider)) 400 provider)))"

lemmas call_defs = call_ai_def call_openai_def call_anthropic_def call_google_def Let_def

lemmas request_defs = openai_request_def anthropic_request_def google_request_def

text \<open>The origins the calls may reach.\<close>

definition provider_origin :: "string \<Rightarrow> string" where
  "provider_origin p =
     (if p = ''openai'' then ''https://api.openai.com/''
      else if p = ''anthropic'' then ''https://api.anthropic.com/''
      else ''https://generativelanguage.googleapis.com/'')"

lemma starts_with_append [simp]: "starts_with (p @ s) p"
  by (simp add: starts_with_def)

lemma body_fields:
  "opt_prop (JObj ob) k = jget ob k"
  by (simp add: opt_prop_def)

section \<open>Properties\<close>

text \<open>
  The user's key goes to its provider only: a call sends at most one request, whatever the
  network answers, a POST to the origin of the provider that was asked for; an unknown provider
  is refused with status 400 before anything is sent.
\<close>

theorem ai_call_only_to_provider:
  "(\<forall>rq \<in> set (fst (call_ai net p ms key model)).
      rq_method rq = ''POST'' \<and> starts_with (rq_url rq) (provider_origin p)) \<and>
   length (fst (call_ai net p ms key model)) = (if p \<in> provider_name ` UNIV then 1 else 0) \<and>
   (p \<notin> provider_name ` UNIV \<longrightarrow>
      call_ai net p ms key model = ([], Inl (AIError (JStr (''Unknown provider: '' @ p)) 400 p)))"
proof -
  have "(UNIV :: ai_provider set) = {Openai, Anthropic, Google}" by (auto intro: ai_provider.exhaust)
  then have u: "provider_name ` UNIV = {''openai'', ''anthropic'', ''google''}"
    by (metis image_empty image_insert provider_name.simps)
  have pre: "starts_with (''https://api.openai.com/v1/chat/completions'') ''https://api.openai.com/''"
    "starts_with (''https://api.anthropic.com/v1/messages'') ''https://api.anthropic.com/''"
    "starts_with (''https://generativelanguage.googleapis.com/v1beta/models/'' @ x)
       ''https://generativelanguage.googleapis.com/''" for x
    by (simp_all add: starts_with_def)
  show ?thesis
    unfolding u call_defs request_defs provider_origin_def using pre by (simp del: json_str.simps)
qed

theorem ai_call_only_to_provider_witness:
  "call_ai (\<lambda>_. None) ''tidyboard'' [] ''secret'' None =
     ([], Inl (AIError (JStr ''Unknown provider: tidyboard'') 400 ''tidyboard''))"
proof -
  have "''tidyboard'' \<notin> provider_name ` UNIV"
  proof
    assume "''tidyboard'' \<in> provider_name ` UNIV"
    then obtain q where "''tidyboard'' = provider_name q" by auto
    then show False by (cases q) simp_all
  qed
  then show ?thesis using ai_call_only_to_provider[of "\<lambda>_. None" "''tidyboard''" "[]" "''secret''" None] by simp
qed

text \<open>
  The three encodings carry the same conversation: Anthropic and Google get the turns that are
  not system messages, in order, with the assistant renamed to \<^verbatim>\<open>model\<close> for Google; the system
  texts, joined by newlines, are Anthropic's system field when there is a system message, and
  Google's leading user turn when the text is not empty.
\<close>

theorem ai_messages_split:
  "opt_prop (anthropic_body ms model) ''messages'' = JArr (map message_obj (turn_messages ms)) \<and>
   opt_prop (anthropic_body ms model) ''system'' =
     (if list_ex (\<lambda>m. am_role m = RSystem) ms then JStr (system_text ms) else JUndef) \<and>
   google_contents ms =
     (if system_text ms = [] then [] else [google_turn ''user'' (system_text ms)]) @
     map (\<lambda>m. google_turn (if am_role m = RAssistant then ''model'' else ''user'') (am_content m))
       (turn_messages ms) \<and>
   mset ms = mset (system_messages ms) + mset (turn_messages ms)"
proof -
  have "(system_messages ms \<noteq> []) = list_ex (\<lambda>m. am_role m = RSystem) ms"
    by (simp add: system_messages_def filter_empty_conv list_ex_iff)
  then show ?thesis
    by (simp add: anthropic_body_def body_fields jget_def google_contents_def Let_def
        system_messages_def turn_messages_def)
qed

text \<open>
  Every answer is accounted for: no response is the network's own failure; a status outside
  200 to 299 is an error with that status and the provider's message when the body carries one,
  else the status text; a success is the text at the provider's path, empty when missing.
\<close>

theorem ai_answer_cases:
  "ai_answer p text None = Inl FetchFailed \<and>
   (\<not> resp_ok r \<longrightarrow> (\<exists>msg. ai_answer p text (Some r) = Inl (AIError msg (rs_status r) p) \<and>
      (resp_json r = Some (JObj [(''error'', JObj [(''message'', JStr m)])]) \<longrightarrow> msg = JStr m) \<and>
      (resp_json r = None \<longrightarrow> msg = JStr (rs_status_text r)))) \<and>
   (resp_ok r \<and> resp_json r = Some (JObj []) \<longrightarrow>
      ai_answer p openai_text (Some r) = Inr (JStr []) \<and>
      ai_answer p anthropic_text (Some r) = Inr (JStr []) \<and>
      ai_answer p google_text (Some r) = Inr (JStr []))"
  by (simp add: ai_answer_def error_text_def opt_prop_def opt_index_def jget_def openai_text_def
      anthropic_text_def google_text_def)

theorem ai_answer_cases_witness:
  "ai_answer ''openai'' openai_text (Some \<lparr>rs_status = 502, rs_status_text = ''Bad Gateway'',
     rs_headers = [], rs_body = ''oops''\<rparr>) = Inl (AIError (JStr ''Bad Gateway'') 502 ''openai'')"
  using ai_answer_cases[of "''openai''" openai_text
      "\<lparr>rs_status = 502, rs_status_text = ''Bad Gateway'', rs_headers = [], rs_body = ''oops''\<rparr>"]
  by (simp add: resp_ok_def resp_json_def json_parse_def skip_ws_def json_space_def code_of_def
      parse_number_def parse_unsigned_def is_digit_def)

end
