(* ===== verification/UrlCodec.thy ===== *)
theory UrlCodec
  imports Prelude
begin

text \<open>
  \<^verbatim>\<open>encodeURIComponent\<close> and \<^verbatim>\<open>URLSearchParams\<close> on UTF-8 bytes, with the decoders a server applies. The
  lemmas give the round trips and the fact that an encoded component cannot leave its place in
  a path or a query.
\<close>

section \<open>Percent encoding\<close>

definition hex_upper :: "nat \<Rightarrow> char" where
  "hex_upper d = (if d < 10 then char_of (48 + d) else char_of (55 + d))"

definition hex_upper_val :: "char \<Rightarrow> nat option" where
  "hex_upper_val c =
     (let n = code_of c in
      if 48 \<le> n \<and> n \<le> 57 then Some (n - 48) else if 65 \<le> n \<and> n \<le> 70 then Some (n - 55)
      else if 97 \<le> n \<and> n \<le> 102 then Some (n - 87) else None)"

definition percent :: "char \<Rightarrow> string" where
  "percent c = [CHR ''%'', hex_upper (code_of c div 16), hex_upper (code_of c mod 16)]"

definition uri_unreserved :: "char \<Rightarrow> bool" where
  "uri_unreserved c \<longleftrightarrow> is_alnum c \<or> code_of c \<in> {33, 39, 40, 41, 42, 45, 46, 95, 126}"

definition encode_uri_component :: "string \<Rightarrow> string" where
  "encode_uri_component s = concat (map (\<lambda>c. if uri_unreserved c then [c] else percent c) s)"

fun percent_decode :: "string \<Rightarrow> string" where
  "percent_decode (c # a # b # s) =
     (if c = CHR ''%'' then
        (case (hex_upper_val a, hex_upper_val b) of
           (Some x, Some y) \<Rightarrow> char_of (16 * x + y) # percent_decode s
         | _ \<Rightarrow> c # percent_decode (a # b # s))
      else c # percent_decode (a # b # s))"
| "percent_decode s = s"

section \<open>Search parameters\<close>

definition form_unreserved :: "char \<Rightarrow> bool" where
  "form_unreserved c \<longleftrightarrow> is_alnum c \<or> code_of c \<in> {42, 45, 46, 95}"

definition form_encode :: "string \<Rightarrow> string" where
  "form_encode s =
     concat (map (\<lambda>c. if code_of c = 32 then ''+'' else if form_unreserved c then [c] else percent c) s)"

definition form_decode :: "string \<Rightarrow> string" where
  "form_decode s = percent_decode (map (\<lambda>c. if c = CHR ''+'' then char_of (32 :: nat) else c) s)"

type_synonym search_params = "(string \<times> string) list"

text \<open>\<^verbatim>\<open>qs.set(k, v)\<close>: the first binding of the name is replaced and the others dropped, else appended.\<close>

fun params_set :: "string \<Rightarrow> string \<Rightarrow> search_params \<Rightarrow> search_params" where
  "params_set k v [] = [(k, v)]"
| "params_set k v ((k', v') # ps) =
     (if k' = k then (k, v) # filter (\<lambda>p. fst p \<noteq> k) ps else (k', v') # params_set k v ps)"

definition params_str :: "search_params \<Rightarrow> string" where
  "params_str ps = join ''&'' (map (\<lambda>(k, v). form_encode k @ ''='' @ form_encode v) ps)"

definition params_parse :: "string \<Rightarrow> search_params" where
  "params_parse s =
     map (\<lambda>p. (form_decode (takeWhile (\<lambda>c. c \<noteq> CHR ''='') p),
               form_decode (tl (dropWhile (\<lambda>c. c \<noteq> CHR ''='') p))))
       (filter (\<lambda>p. p \<noteq> []) (split_on (CHR ''&'') s))"

text \<open>\<^verbatim>\<open>if (v) qs.set(k, v)\<close>, and the \<^verbatim>\<open>?\<close>-suffix that is empty without parameters.\<close>

definition params_opt :: "string \<Rightarrow> string option \<Rightarrow> search_params \<Rightarrow> search_params" where
  "params_opt k v ps = (case v of None \<Rightarrow> ps | Some s \<Rightarrow> if s = [] then ps else params_set k s ps)"

definition params_suffix :: "search_params \<Rightarrow> string" where
  "params_suffix ps = (if params_str ps = [] then [] else ''?'' @ params_str ps)"

section \<open>Round trips\<close>

lemma code_of_less: "code_of c < 256"
  by (simp add: code_of_def)

lemma char_of_code_of [simp]: "char_of (code_of c) = c"
  by (simp add: code_of_def)

lemma code_of_char_of: "n < 256 \<Longrightarrow> code_of (char_of n) = n"
  by (simp add: code_of_def)

lemma hex_upper_val_digit: "d < 16 \<Longrightarrow> hex_upper_val (hex_upper d) = Some d"
  by (auto simp: hex_upper_val_def hex_upper_def code_of_char_of Let_def)

lemma hex_upper_alnum: "d < 16 \<Longrightarrow> is_alnum (hex_upper d)"
  by (auto simp: hex_upper_def is_alnum_def is_digit_def is_upper_def code_of_char_of)

lemma percent_decode_percent: "percent_decode (percent c @ s) = c # percent_decode s"
proof -
  have "code_of c div 16 < 16" using code_of_less[of c] by (simp add: div_less_iff_less_mult)
  then show ?thesis by (simp add: percent_def hex_upper_val_digit)
qed

lemma percent_decode_plain: "c \<noteq> CHR ''%'' \<Longrightarrow> percent_decode (c # s) = c # percent_decode s"
  by (cases s; cases "tl s") simp_all

lemma unreserved_not_special:
  assumes "is_alnum c \<or> code_of c \<in> {33, 39, 40, 41, 42, 45, 46, 95, 126}"
  shows "c \<notin> {CHR ''%'', CHR ''+'', CHR ''&'', CHR ''='', CHR ''/'', CHR ''?'', CHR ''#''}"
  using assms by (auto simp: is_alnum_def is_digit_def is_upper_def is_lower_def code_of_def)

lemma decode_encode_uri: "percent_decode (encode_uri_component s) = s"
proof (induction s)
  case Nil
  then show ?case by (simp add: encode_uri_component_def)
next
  case (Cons c s)
  have e: "encode_uri_component (c # s) =
      (if uri_unreserved c then [c] else percent c) @ encode_uri_component s"
    by (simp add: encode_uri_component_def)
  show ?case
  proof (cases "uri_unreserved c")
    case True
    then have "c \<noteq> CHR ''%''" using unreserved_not_special[of c] by (auto simp: uri_unreserved_def)
    with True Cons show ?thesis by (simp add: e percent_decode_plain)
  next
    case False
    with Cons show ?thesis by (simp add: e percent_decode_percent)
  qed
qed

definition path_special :: "char set" where
  "path_special = {CHR ''/'', CHR ''?'', CHR ''#'', CHR ''&'', CHR ''='', CHR ''+''}"

lemma percent_chars:
  assumes "x \<in> set (percent c)"
  shows "x = CHR ''%'' \<or> is_alnum x"
proof -
  have "code_of c div 16 < 16" using code_of_less[of c] by (simp add: div_less_iff_less_mult)
  with assms show ?thesis by (auto simp: percent_def hex_upper_alnum)
qed

lemma encode_uri_component_chars: "set (encode_uri_component s) \<inter> path_special = {}"
proof -
  have "x \<notin> path_special" if "x = CHR ''%'' \<or> is_alnum x \<or> uri_unreserved x" for x
    using that unreserved_not_special[of x] by (auto simp: path_special_def uri_unreserved_def)
  moreover have "\<forall>x \<in> set (encode_uri_component s). x = CHR ''%'' \<or> is_alnum x \<or> uri_unreserved x"
    by (auto simp: encode_uri_component_def dest!: percent_chars split: if_splits)
  ultimately show ?thesis by auto
qed

lemma form_decode_encode: "form_decode (form_encode s) = s"
proof (induction s)
  case Nil
  then show ?case by (simp add: form_decode_def form_encode_def)
next
  case (Cons c s)
  have d: "form_decode (a @ b) = percent_decode (map (\<lambda>c. if c = CHR ''+'' then char_of (32 :: nat) else c) a
      @ map (\<lambda>c. if c = CHR ''+'' then char_of (32 :: nat) else c) b)" for a b
    by (simp add: form_decode_def)
  have e: "form_encode (c # s) = (if code_of c = 32 then ''+'' else if form_unreserved c then [c] else percent c)
      @ form_encode s"
    by (simp add: form_encode_def)
  have ih: "percent_decode (map (\<lambda>c. if c = CHR ''+'' then char_of (32 :: nat) else c) (form_encode s)) = s"
    using Cons by (simp add: form_decode_def)
  consider "code_of c = 32" | "code_of c \<noteq> 32" "form_unreserved c" | "code_of c \<noteq> 32" "\<not> form_unreserved c"
    by blast
  then show ?case
  proof cases
    case 1
    then have c: "char_of (32 :: nat) = c" using char_of_code_of[of c] by simp
    have "code_of (CHR ''%'') = 37" by (simp add: code_of_def)
    with 1 have "c \<noteq> CHR ''%''" by auto
    with 1 show ?thesis by (simp add: e form_decode_def ih c percent_decode_plain)
  next
    case 2
    then have "c \<notin> {CHR ''%'', CHR ''+''}" using unreserved_not_special[of c] by (auto simp: form_unreserved_def)
    with 2 show ?thesis by (simp add: e form_decode_def ih percent_decode_plain)
  next
    case 3
    have "map (\<lambda>c. if c = CHR ''+'' then char_of (32 :: nat) else c) (percent c) = percent c"
    proof (rule map_idI)
      fix x assume "x \<in> set (percent c)"
      then have "x \<noteq> CHR ''+''"
        using percent_chars[of x c] unreserved_not_special[of x] by (auto simp: is_alnum_def)
      then show "(if x = CHR ''+'' then char_of (32 :: nat) else x) = x" by simp
    qed
    with 3 show ?thesis by (simp add: e form_decode_def ih percent_decode_percent)
  qed
qed

lemma form_encode_chars: "CHR ''&'' \<notin> set (form_encode s)" "CHR ''='' \<notin> set (form_encode s)"
proof -
  have "x \<noteq> CHR ''&'' \<and> x \<noteq> CHR ''=''" if "x = CHR ''+'' \<or> x = CHR ''%'' \<or> is_alnum x \<or> form_unreserved x" for x
    using that unreserved_not_special[of x] by (auto simp: form_unreserved_def)
  moreover have "\<forall>x \<in> set (form_encode s). x = CHR ''+'' \<or> x = CHR ''%'' \<or> is_alnum x \<or> form_unreserved x"
    by (auto simp: form_encode_def dest!: percent_chars split: if_splits)
  ultimately show "CHR ''&'' \<notin> set (form_encode s)" "CHR ''='' \<notin> set (form_encode s)" by blast+
qed

lemma split_on_none: "d \<notin> set w \<Longrightarrow> split_on d w = [w]"
  by (induction w) auto

lemma split_on_append: "d \<notin> set w \<Longrightarrow> split_on d (w @ d # s) = w # split_on d s"
  by (induction w) auto

lemma split_on_join:
  assumes "ws \<noteq> []" and "\<forall>w \<in> set ws. d \<notin> set w"
  shows "split_on d (join [d] ws) = ws"
  using assms
proof (induction ws)
  case (Cons w ws)
  then show ?case by (cases ws) (simp_all add: split_on_none split_on_append)
qed simp

lemma split_on_nonempty: "split_on d s \<noteq> []"
  by (induction s rule: split_on.induct) (auto split: list.splits)

lemma join_split_on: "join [d] (split_on d s) = s"
proof (induction s)
  case (Cons c s)
  then show ?case
    using split_on_nonempty[of d s] by (cases "split_on d s"; cases "tl (split_on d s)") auto
qed simp

lemma set_join: "set (join d ws) \<subseteq> set d \<union> \<Union> (set ` set ws)"
proof (induction ws)
  case (Cons w ws)
  then show ?case by (cases ws) auto
qed simp

lemma params_parse_str: "params_parse (params_str ps) = ps"
proof (cases "ps = []")
  case True
  then show ?thesis by (simp add: params_parse_def params_str_def)
next
  case False
  let ?e = "\<lambda>(k, v). form_encode k @ ''='' @ form_encode v"
  have "\<forall>w \<in> set (map ?e ps). CHR ''&'' \<notin> set w" using form_encode_chars(1) by auto
  then have s: "split_on (CHR ''&'') (params_str ps) = map ?e ps"
    using False split_on_join[of "map ?e ps" "CHR ''&''"] by (simp add: params_str_def)
  have f: "filter (\<lambda>p. p \<noteq> []) (map ?e ps) = map ?e ps" by (auto simp: filter_id_conv)
  have "form_decode (takeWhile (\<lambda>c. c \<noteq> CHR ''='') (?e p)) = fst p \<and>
      form_decode (tl (dropWhile (\<lambda>c. c \<noteq> CHR ''='') (?e p))) = snd p" for p
    using form_encode_chars(2)[of "fst p"]
    by (cases p) (simp add: takeWhile_append dropWhile_append form_decode_encode)
  then show ?thesis unfolding params_parse_def s f by (simp add: o_def map_idI)
qed

end
