(* ===== verification/ApiClient.thy ===== *)
theory ApiClient
  imports ApiTypes Http WebStorage UrlCodec
begin

text \<open>
  The fetch wrapper, \<^verbatim>\<open>web/src/lib/api/client.ts\<close>: every call of the REST interface becomes one
  request with the token of local storage, and every answer a value or an error. The network is
  a function from a request to a response, or nothing when \<^verbatim>\<open>fetch\<close> rejects.
\<close>

section \<open>Calls\<close>

text \<open>The five methods of \<open>api\<close>, and a promise that is resolved without a request.\<close>

datatype api_call =
    ApiGet string
  | ApiPost string jsval
  | ApiPut string jsval
  | ApiPatch string jsval
  | ApiDelete string
  | Resolved jsval

fun call_method :: "api_call \<Rightarrow> string" where
  "call_method (ApiGet p) = ''GET''"
| "call_method (ApiPost p b) = ''POST''"
| "call_method (ApiPut p b) = ''PUT''"
| "call_method (ApiPatch p b) = ''PATCH''"
| "call_method (ApiDelete p) = ''DELETE''"
| "call_method (Resolved v) = []"

fun call_path :: "api_call \<Rightarrow> string" where
  "call_path (ApiGet p) = p"
| "call_path (ApiPost p b) = p"
| "call_path (ApiPut p b) = p"
| "call_path (ApiPatch p b) = p"
| "call_path (ApiDelete p) = p"
| "call_path (Resolved v) = []"

fun call_body :: "api_call \<Rightarrow> jsval" where
  "call_body (ApiPost p b) = b"
| "call_body (ApiPut p b) = b"
| "call_body (ApiPatch p b) = b"
| "call_body c = JUndef"

fun is_resolved :: "api_call \<Rightarrow> bool" where
  "is_resolved (Resolved v) = True"
| "is_resolved c = False"

section \<open>Requests\<close>

definition token_key :: string where "token_key = ''tb-auth-token''"

definition get_token :: "bool \<Rightarrow> storage \<Rightarrow> string option" where
  "get_token win st = (if \<not> win then None else try_get st token_key)"

definition request_headers :: "string option \<Rightarrow> (string \<times> string) list" where
  "request_headers token =
     (''Content-Type'', ''application/json'') #
     (case token of None \<Rightarrow> []
      | Some t \<Rightarrow> if t = [] then [] else [(''Authorization'', ''Bearer '' @ t)])"

definition build_request :: "string \<Rightarrow> string option \<Rightarrow> string \<Rightarrow> string \<Rightarrow> jsval \<Rightarrow> http_request" where
  "build_request base token meth path body =
     \<lparr>rq_method = meth, rq_url = base @ path, rq_headers = request_headers token,
      rq_body = (if body \<noteq> JUndef then Some (json_str body) else None)\<rparr>"

section \<open>Answers\<close>

text \<open>
  What a call can reject with: the wrapper's error object, the rejection of \<^verbatim>\<open>fetch\<close>, the syntax
  error of a success that is not JSON, or the TypeError of reading a property of \<^verbatim>\<open>null\<close>, which an
  error body consisting of \<^verbatim>\<open>null\<close> provokes.
\<close>

datatype api_failure = ApiFailed api_error | NetworkFailed | BodyNotJson | NullEnvelope

definition synthesized_envelope :: "http_response \<Rightarrow> jsval" where
  "synthesized_envelope r =
     JObj [(''code'', JStr ''non_json_response''),
           (''message'', JStr (if rs_status_text r \<noteq> [] then rs_status_text r else ''Server error'')),
           (''status'', JNum (of_int (rs_status r)))]"

definition failure_of :: "http_request \<Rightarrow> http_response \<Rightarrow> api_failure" where
  "failure_of rq r =
     (let requestId = resp_header r ''X-Request-ID'';
          envelope = (case resp_json r of None \<Rightarrow> synthesized_envelope r | Some v \<Rightarrow> v)
      in if nullish envelope then NullEnvelope
         else ApiFailed
           \<lparr>err_code = opt_prop envelope ''code'', err_message = opt_prop envelope ''message'',
            err_status = or_default (opt_prop envelope ''status'') (JNum (of_int (rs_status r))),
            err_request_id = requestId, err_url = rq_url rq, err_method = rq_method rq,
            err_stack = None\<rparr>)"

definition answer_of :: "http_request \<Rightarrow> http_response option \<Rightarrow> api_failure + jsval" where
  "answer_of rq res =
     (case res of
        None \<Rightarrow> Inl NetworkFailed
      | Some r \<Rightarrow>
          if \<not> resp_ok r then Inl (failure_of rq r)
          else if rs_status r = 204 then Inr JUndef
          else (case resp_json r of None \<Rightarrow> Inl BodyNotJson | Some v \<Rightarrow> Inr v))"

type_synonym network = "http_request \<Rightarrow> http_response option"

definition request :: "string \<Rightarrow> string option \<Rightarrow> network \<Rightarrow> string \<Rightarrow> string \<Rightarrow> jsval \<Rightarrow> api_failure + jsval" where
  "request base token net meth path body =
     (let rq = build_request base token meth path body in answer_of rq (net rq))"

fun perform :: "string \<Rightarrow> string option \<Rightarrow> network \<Rightarrow> api_call \<Rightarrow> api_failure + jsval" where
  "perform base token net (Resolved v) = Inr v"
| "perform base token net c = request base token net (call_method c) (call_path c) (call_body c)"

lemma perform_request:
  "\<not> is_resolved c \<Longrightarrow>
     perform base token net c = request base token net (call_method c) (call_path c) (call_body c)"
  by (cases c) simp_all

lemma status_204_ok: "rs_status r = 204 \<Longrightarrow> resp_ok r"
  by (simp add: resp_ok_def)

section \<open>Properties\<close>

text \<open>
  What a call resolves to: a value exactly when the server answered with a status from 200 to
  299 and, unless it was 204, a JSON body, and then the parsed body; with 204 it is undefined.
  No other answer, and no missing one, is turned into a value.
\<close>

theorem request_value_iff:
  "request base token net meth path body = Inr v \<longleftrightarrow>
     (\<exists>r. net (build_request base token meth path body) = Some r \<and>
        200 \<le> rs_status r \<and> rs_status r \<le> 299 \<and>
        (if rs_status r = 204 then v = JUndef else resp_json r = Some v))"
  by (auto simp: request_def answer_of_def resp_ok_def Let_def split: option.splits if_splits)

text \<open>
  An error object always says which call failed: for any status outside 200 to 299 with a body
  other than \<^verbatim>\<open>null\<close>, the error carries the method, the full address and the request id of the
  answer; a body that is not JSON gives the code \<^verbatim>\<open>non_json_response\<close> with the real status.
\<close>

theorem request_error_context:
  assumes "net (build_request base token meth path body) = Some r" and "\<not> resp_ok r"
    and "resp_json r \<noteq> Some JNull" and "resp_json r \<noteq> Some JUndef"
  shows "\<exists>e. request base token net meth path body = Inl (ApiFailed e) \<and>
    err_method e = meth \<and> err_url e = base @ path \<and>
    err_request_id e = resp_header r ''X-Request-ID'' \<and> err_stack e = None \<and>
    (resp_json r = None \<longrightarrow> err_code e = JStr ''non_json_response'' \<and>
       err_status e = JNum (of_int (rs_status r)))"
proof -
  have "\<not> nullish (case resp_json r of None \<Rightarrow> synthesized_envelope r | Some v \<Rightarrow> v)"
    using assms(3,4) by (auto simp: nullish_def synthesized_envelope_def split: option.splits)
  with assms(1,2) show ?thesis
    by (simp add: request_def answer_of_def failure_of_def Let_def build_request_def
        synthesized_envelope_def opt_prop_def jget_def or_default_def nullish_def)
qed

definition gateway_error :: http_response where
  "gateway_error = \<lparr>rs_status = 502, rs_status_text = ''Bad Gateway'',
     rs_headers = [(''x-request-id'', ''r-1'')], rs_body = ''<html>''\<rparr>"

lemma gateway_error_not_json: "resp_json gateway_error = None"
  by (simp add: resp_json_def gateway_error_def json_parse_def skip_ws_def json_space_def code_of_def
      parse_number_def parse_unsigned_def is_digit_def)

theorem request_error_context_witness:
  "\<exists>e. request ''http://h'' None (\<lambda>_. Some gateway_error) ''GET'' ''/v1/events'' JUndef = Inl (ApiFailed e) \<and>
     err_url e = ''http://h/v1/events'' \<and> err_status e = JNum 502"
proof -
  have g: "\<not> resp_ok gateway_error" "rs_status gateway_error = 502"
    by (simp_all add: resp_ok_def gateway_error_def)
  have "resp_json gateway_error \<noteq> Some JNull" "resp_json gateway_error \<noteq> Some JUndef"
    by (simp_all add: gateway_error_not_json)
  from request_error_context[OF refl g(1) this, of "''http://h''" None "''GET''" "''/v1/events''" JUndef]
  show ?thesis by (auto simp: gateway_error_not_json g)
qed

text \<open>
  The credentials of a request come from local storage alone: the bearer token is sent exactly
  when the browser's storage holds a non-empty one, and neither a blocked storage nor server-side
  rendering sends any.
\<close>

theorem request_token_source:
  "(\<exists>v. (''Authorization'', v) \<in> set (rq_headers (build_request base (get_token win st) meth path body))) \<longleftrightarrow>
     (win \<and> \<not> st_blocked st \<and> truthy (st_items st token_key)) \<and>
   (\<forall>t. get_token win st = Some t \<and> t \<noteq> [] \<longrightarrow>
      (''Authorization'', ''Bearer '' @ t) \<in> set (rq_headers (build_request base (get_token win st) meth path body)))"
  by (auto simp: build_request_def request_headers_def get_token_def try_get_def get_item_def truthy_def
      split: option.splits)

end
