(* ===== verification/HooksCore.thy ===== *)
theory HooksCore
  imports ApiClient DateUtc
begin

text \<open>
  The frame of \<^verbatim>\<open>web/src/lib/api/hooks.ts\<close>: a read hook is a query (cache key, call, conditions),
  a write hook is a mutation (call, keys it invalidates). The query factory, the wrappers that
  no longer fall back, the empty values of \<^verbatim>\<open>web/src/lib/api/fallback.ts\<close> and \<^verbatim>\<open>web/src/lib/id.ts\<close>
  are here. The query client is third-party code: the locale holds the one documented law the
  hooks rely on, that invalidating a key reaches the queries whose key starts with it.
\<close>

section \<open>Queries and mutations\<close>

type_synonym query_key = "jsval list"

record query =
  qy_key :: query_key
  qy_call :: api_call
  qy_enabled :: bool
  qy_refetch_ms :: "int option"
  qy_retry :: bool

record mutation =
  mu_call :: api_call
  mu_invalidates :: "query_key list"

definition plain_query :: "query_key \<Rightarrow> api_call \<Rightarrow> query" where
  "plain_query key call =
     \<lparr>qy_key = key, qy_call = call, qy_enabled = True, qy_refetch_ms = None, qy_retry = True\<rparr>"

definition guarded_query :: "bool \<Rightarrow> query_key \<Rightarrow> api_call \<Rightarrow> query" where
  "guarded_query enabled key call = (plain_query key call)\<lparr>qy_enabled := enabled\<rparr>"

text \<open>Both wrappers discard their second argument and let failures reach the caller.\<close>

definition with_fallback :: "api_call \<Rightarrow> jsval \<Rightarrow> api_call" where
  "with_fallback apiFn fallbackFn = apiFn"

definition without_sample_fallback :: "api_call \<Rightarrow> jsval \<Rightarrow> api_call" where
  "without_sample_fallback apiFn emptyValue = apiFn"

text \<open>What a component sees of a query: nothing while it is disabled, else the outcome of its call.\<close>

definition run_query :: "string \<Rightarrow> string option \<Rightarrow> network \<Rightarrow> query \<Rightarrow> (api_failure + jsval) option" where
  "run_query base token net q = (if qy_enabled q then Some (perform base token net (qy_call q)) else None)"

section \<open>Helpers\<close>

text \<open>\<^verbatim>\<open>x ?? null\<close>, a template with an undefined part, and the two kinds of optional fields.\<close>

definition str_or_null :: "string option \<Rightarrow> jsval" where
  "str_or_null x = (case x of None \<Rightarrow> JNull | Some s \<Rightarrow> JStr s)"

definition tmpl :: "string option \<Rightarrow> string" where
  "tmpl x = (case x of None \<Rightarrow> ''undefined'' | Some s \<Rightarrow> s)"

definition truthy_field :: "string \<Rightarrow> string option \<Rightarrow> jsobj" where
  "truthy_field k x = (if truthy x then [(k, JStr (the x))] else [])"

definition defined_field :: "string \<Rightarrow> string option \<Rightarrow> jsobj" where
  "defined_field k x = (case x of None \<Rightarrow> [] | Some s \<Rightarrow> [(k, JStr s)])"

definition defined_num :: "string \<Rightarrow> rat option \<Rightarrow> jsobj" where
  "defined_num k x = (case x of None \<Rightarrow> [] | Some n \<Rightarrow> [(k, JNum n)])"

text \<open>\<^verbatim>\<open>isUuid\<close>: the pattern of \<^verbatim>\<open>UUID_RE\<close>, 8-4-4-4-12 hexadecimal digits of either case.\<close>

definition is_hex :: "char \<Rightarrow> bool" where
  "is_hex c \<longleftrightarrow> is_digit c \<or> (97 \<le> code_of c \<and> code_of c \<le> 102) \<or> (65 \<le> code_of c \<and> code_of c \<le> 70)"

definition is_uuid :: "string option \<Rightarrow> bool" where
  "is_uuid v =
     (case v of
        None \<Rightarrow> False
      | Some s \<Rightarrow> map length (split_on (CHR ''-'') s) = [8, 4, 4, 4, 12] \<and>
          list_all (list_all is_hex) (split_on (CHR ''-'') s))"

section \<open>Keys\<close>

record events_opts =
  eo_start :: "string option"
  eo_end :: "string option"
  eo_member_id :: "string option"

definition qk_events :: "events_opts option \<Rightarrow> query_key" where
  "qk_events opts =
     [JStr ''events'',
      (case opts of None \<Rightarrow> JUndef
       | Some p \<Rightarrow> JObj [(''start'', opt_str (eo_start p)), (''end'', opt_str (eo_end p)),
                        (''memberId'', opt_str (eo_member_id p))])]"

record routine_params =
  rp_member_id :: "string option"
  rp_time_slot :: "string option"

record audit_filters =
  af_action :: "string option"
  af_target_type :: "string option"
  af_from :: "string option"
  af_to :: "string option"

definition qk_event :: "string \<Rightarrow> query_key" where "qk_event i = [JStr ''events'', JStr i]"
definition qk_members :: query_key where "qk_members = [JStr ''members'']"
definition qk_recipes :: query_key where "qk_recipes = [JStr ''recipes'']"
definition qk_recipe :: "string \<Rightarrow> query_key" where "qk_recipe i = [JStr ''recipes'', JStr i]"
definition qk_lists :: query_key where "qk_lists = [JStr ''lists'']"
definition qk_list :: "string \<Rightarrow> query_key" where "qk_list i = [JStr ''lists'', JStr i]"
definition qk_shopping :: query_key where "qk_shopping = [JStr ''shopping'']"

definition qk_routines :: "routine_params option \<Rightarrow> query_key" where
  "qk_routines params =
     [JStr ''routines'',
      (case params of None \<Rightarrow> JUndef
       | Some p \<Rightarrow> JObj [(''member_id'', opt_str (rp_member_id p)), (''time_slot'', opt_str (rp_time_slot p))])]"

definition qk_routine :: "string \<Rightarrow> query_key" where "qk_routine i = [JStr ''routines'', JStr i]"

definition qk_routine_streak :: "string \<Rightarrow> string \<Rightarrow> query_key" where
  "qk_routine_streak routineId memberId = [JStr ''routines'', JStr routineId, JStr ''streak'', JStr memberId]"

definition qk_routine_completions :: "string option \<Rightarrow> string option \<Rightarrow> query_key" where
  "qk_routine_completions date memberId =
     [JStr ''routines'', JStr ''completions'', opt_str date, opt_str memberId]"

definition qk_equity :: "string option \<Rightarrow> query_key" where
  "qk_equity period = [JStr ''equity'', opt_str period]"

definition qk_equity_dashboard :: "string option \<Rightarrow> string option \<Rightarrow> query_key" where
  "qk_equity_dashboard from to = [JStr ''equity'', JStr ''dashboard'', opt_str from, opt_str to]"

definition qk_equity_tasks :: query_key where "qk_equity_tasks = [JStr ''equity'', JStr ''tasks'']"
definition qk_equity_domains :: query_key where "qk_equity_domains = [JStr ''equity'', JStr ''domains'']"
definition qk_equity_suggestions :: query_key where
  "qk_equity_suggestions = [JStr ''equity'', JStr ''suggestions'']"

definition qk_meal_plan :: "string option \<Rightarrow> query_key" where
  "qk_meal_plan weekOf = [JStr ''mealPlan'', JStr (case weekOf of None \<Rightarrow> ''current'' | Some w \<Rightarrow> w)]"

definition qk_race :: query_key where "qk_race = [JStr ''race'']"

definition qk_audit :: "int \<Rightarrow> int \<Rightarrow> audit_filters option \<Rightarrow> query_key" where
  "qk_audit limit off filters =
     [JStr ''audit'', JNum (of_int limit), JNum (of_int off),
      (case filters of None \<Rightarrow> JUndef
       | Some f \<Rightarrow> JObj [(''action'', opt_str (af_action f)), (''target_type'', opt_str (af_target_type f)),
                        (''from'', opt_str (af_from f)), (''to'', opt_str (af_to f))])]"

definition qk_collections :: query_key where "qk_collections = [JStr ''collections'']"

definition qk_collection_recipes :: "string \<Rightarrow> query_key" where
  "qk_collection_recipes i = [JStr ''collections'', JStr i, JStr ''recipes'']"

definition qk_household_by_code :: "string \<Rightarrow> query_key" where
  "qk_household_by_code code = [JStr ''householdByCode'', JStr code]"

definition qk_join_requests :: "string \<Rightarrow> query_key" where
  "qk_join_requests householdId = [JStr ''joinRequests'', JStr householdId]"

text \<open>The key under which the live variants keep their data.\<close>

definition live_key :: "query_key \<Rightarrow> query_key" where
  "live_key k = JStr ''live-only'' # k"

lemmas qk_defs = qk_events_def qk_event_def qk_members_def qk_recipes_def qk_recipe_def qk_lists_def
  qk_list_def qk_shopping_def qk_routines_def qk_routine_def qk_routine_streak_def
  qk_routine_completions_def qk_equity_def qk_equity_dashboard_def qk_equity_tasks_def
  qk_equity_domains_def qk_equity_suggestions_def qk_meal_plan_def qk_race_def qk_audit_def
  qk_collections_def qk_collection_recipes_def qk_household_by_code_def qk_join_requests_def

section \<open>Invalidation\<close>

fun key_starts_with :: "query_key \<Rightarrow> query_key \<Rightarrow> bool" where
  "key_starts_with k [] = True"
| "key_starts_with (x # k) (y # p) = (x = y \<and> key_starts_with k p)"
| "key_starts_with [] (y # p) = False"

text \<open>
  The query client as the hooks use it: \<open>stale c k\<close> tells whether the cache \<open>c\<close> has to fetch the query
  with key \<open>k\<close> again.
\<close>

locale query_client =
  fixes invalidate :: "query_key \<Rightarrow> 'c \<Rightarrow> 'c"
    and stale :: "'c \<Rightarrow> query_key \<Rightarrow> bool"
  assumes stale_invalidate: "stale (invalidate p c) k \<longleftrightarrow> stale c k \<or> key_starts_with k p"
begin

definition settle :: "mutation \<Rightarrow> 'c \<Rightarrow> 'c" where
  "settle m c = fold invalidate (mu_invalidates m) c"

lemma stale_fold:
  "stale (fold invalidate ps c) k \<longleftrightarrow> stale c k \<or> (\<exists>p \<in> set ps. key_starts_with k p)"
  by (induction ps arbitrary: c) (auto simp: stale_invalidate)

lemma stale_settle:
  "stale (settle m c) k \<longleftrightarrow> stale c k \<or> (\<exists>p \<in> set (mu_invalidates m). key_starts_with k p)"
  by (simp add: settle_def stale_fold)

lemma settle_mono: "stale c k \<Longrightarrow> stale (settle m c) k"
  by (simp add: stale_settle)

end

text \<open>A client that keeps the invalidated prefixes.\<close>

definition prefix_invalidate :: "query_key \<Rightarrow> query_key list \<Rightarrow> query_key list" where
  "prefix_invalidate p ps = p # ps"

definition prefix_stale :: "query_key list \<Rightarrow> query_key \<Rightarrow> bool" where
  "prefix_stale ps k = list_ex (key_starts_with k) ps"

interpretation prefix_client: query_client prefix_invalidate prefix_stale
  by unfold_locales (auto simp: prefix_invalidate_def prefix_stale_def)

text \<open>Whether a mutation makes a query fetch again, decided on the keys.\<close>

definition refreshes :: "mutation \<Rightarrow> query \<Rightarrow> bool" where
  "refreshes m q = list_ex (key_starts_with (qy_key q)) (mu_invalidates m)"

lemma refreshes_stale:
  "prefix_stale (prefix_client.settle m []) (qy_key q) \<longleftrightarrow> refreshes m q"
  using prefix_client.stale_settle[of m "[]" "qy_key q"]
  by (auto simp: refreshes_def prefix_stale_def list_ex_iff)

lemma key_starts_live: "key_starts_with (live_key k) (JStr s # p) \<Longrightarrow> s = ''live-only''"
  by (simp add: live_key_def)

lemma query_fields [simp]:
  "qy_key (plain_query k c) = k" "qy_call (plain_query k c) = c" "qy_enabled (plain_query k c) = True"
  "qy_key (guarded_query e k c) = k" "qy_call (guarded_query e k c) = c"
  "qy_enabled (guarded_query e k c) = e"
  by (simp_all add: plain_query_def guarded_query_def)

section \<open>The empty fallback values\<close>

text \<open>\<open>today\<close> is \<^verbatim>\<open>new Date()\<close> in milliseconds.\<close>

definition is_api_fallback_mode :: bool where "is_api_fallback_mode = False"

definition empty_shopping :: "int \<Rightarrow> jsval" where
  "empty_shopping today =
     JObj [(''weekOf'', JStr (iso_date today)), (''fromRecipes'', JNum 0), (''categories'', JArr [])]"

definition empty_meal_plan_fallback :: "int \<Rightarrow> jsval" where
  "empty_meal_plan_fallback today =
     JObj [(''weekOf'', JStr (iso_date today)),
           (''rows'', JArr [JStr ''Breakfast'', JStr ''Lunch'', JStr ''Dinner'', JStr ''Snack'']),
           (''grid'', JArr (replicate 4 (JArr (replicate 7 JNull))))]"

definition empty_equity :: jsval where
  "empty_equity = JObj [(''period'', JStr []), (''domains'', JNum 0), (''adults'', JArr []),
     (''domainList'', JArr []), (''trend'', JArr [])]"

definition empty_race :: jsval where
  "empty_race = JObj [(''name'', JStr []), (''countdownSec'', JNum 0), (''totalSec'', JNum 0),
     (''participants'', JArr []), (''items'', JArr [])]"

definition fallback_list :: jsval where "fallback_list = JArr []"

definition fallback_audit :: "int \<Rightarrow> int \<Rightarrow> jsval" where
  "fallback_audit limit off =
     JObj [(''entries'', JArr []), (''total'', JNum 0), (''limit'', JNum (of_int limit)),
           (''offset'', JNum (of_int off))]"

definition fallback_wallet :: "int \<Rightarrow> string \<Rightarrow> jsval" where
  "fallback_wallet today memberId =
     JObj [(''wallet'', JObj [(''id'', JStr []), (''member_id'', JStr memberId),
              (''balance_cents'', JNum 0), (''updated_at'', JStr (iso_string today))]),
           (''transactions'', JArr [])]"

definition fallback_points_balance :: "string \<Rightarrow> jsval" where
  "fallback_points_balance memberId =
     JObj [(''member_id'', JStr memberId), (''total'', JNum 0), (''by_category'', JArr []),
           (''recent'', JArr [])]"

end
