(* ===== verification/HooksHome.thy ===== *)
theory HooksHome
  imports HooksCore
begin

text \<open>
  The hooks of \<^verbatim>\<open>web/src/lib/api/hooks.ts\<close> for events, members, recipes, lists, routines, equity,
  recipe collections, calendars, households, notifications, invites and the audit log: one
  definition per hook, with the key, the call and the invalidated keys of the source.
\<close>

section \<open>Events\<close>

definition events_call :: "events_opts option \<Rightarrow> api_call" where
  "events_call opts =
     (let qs = (case opts of None \<Rightarrow> []
         | Some p \<Rightarrow> params_opt ''member_id'' (eo_member_id p)
             (params_opt ''end'' (eo_end p) (params_opt ''start'' (eo_start p) [])))
      in ApiGet (''/v1/events'' @ params_suffix qs))"

definition use_events :: "events_opts option \<Rightarrow> query" where
  "use_events opts = plain_query (qk_events opts) (with_fallback (events_call opts) fallback_list)"

definition use_live_events :: "events_opts option \<Rightarrow> query" where
  "use_live_events opts =
     plain_query (live_key (qk_events opts)) (without_sample_fallback (events_call opts) (JArr []))"

definition use_live_event :: "string option \<Rightarrow> query" where
  "use_live_event i =
     guarded_query (truthy i) (qk_event (case i of None \<Rightarrow> [] | Some s \<Rightarrow> s))
       (if \<not> truthy i then Resolved JUndef
        else without_sample_fallback (ApiGet (''/v1/events/'' @ tmpl i)) JUndef)"

definition use_create_event :: "jsobj \<Rightarrow> mutation" where
  "use_create_event req =
     \<lparr>mu_call = ApiPost ''/v1/events'' (JObj req), mu_invalidates = [[JStr ''events'']]\<rparr>"

text \<open>\<open>req\<close> is the input without its \<open>id\<close>.\<close>

definition use_update_event :: "string \<Rightarrow> jsobj \<Rightarrow> mutation" where
  "use_update_event i req =
     \<lparr>mu_call = ApiPatch (''/v1/events/'' @ i) (JObj req), mu_invalidates = [[JStr ''events'']]\<rparr>"

definition use_set_event :: "jsobj \<Rightarrow> mutation" where
  "use_set_event event =
     \<lparr>mu_call = (case jget event ''id'' of
         JStr i \<Rightarrow> if i \<noteq> [] then ApiPut (''/v1/events/'' @ i) (JObj event) else ApiPost ''/v1/events'' (JObj event)
       | _ \<Rightarrow> ApiPost ''/v1/events'' (JObj event)),
      mu_invalidates = [[JStr ''events'']]\<rparr>"

definition use_delete_event :: "string \<Rightarrow> mutation" where
  "use_delete_event i = \<lparr>mu_call = ApiDelete (''/v1/events/'' @ i), mu_invalidates = [[JStr ''events'']]\<rparr>"

section \<open>Members\<close>

definition members_call :: api_call where
  "members_call = ApiGet ''/v1/households/current/members''"

definition use_members :: query where
  "use_members = plain_query qk_members (with_fallback members_call fallback_list)"

definition use_live_members :: query where
  "use_live_members = plain_query (live_key qk_members) (without_sample_fallback members_call (JArr []))"

definition members_path :: "string \<Rightarrow> string" where
  "members_path householdId = ''/v1/households/'' @ householdId @ ''/members''"

definition use_create_member ::
  "string \<Rightarrow> string \<Rightarrow> string \<Rightarrow> string \<Rightarrow> string \<Rightarrow> string \<Rightarrow> string option \<Rightarrow> mutation" where
  "use_create_member householdId nm displayName color role ageGroup pin =
     \<lparr>mu_call = ApiPost (members_path householdId)
        (JObj ([(''name'', JStr nm), (''display_name'', JStr displayName), (''color'', JStr color),
                (''role'', JStr role), (''age_group'', JStr ageGroup)] @ truthy_field ''pin'' pin)),
      mu_invalidates = [qk_members]\<rparr>"

text \<open>A rate is undefined (left alone), null (cleared) or a number of cents.\<close>

definition rate_field :: "string \<Rightarrow> rat option option \<Rightarrow> jsobj" where
  "rate_field k x =
     (case x of None \<Rightarrow> [] | Some None \<Rightarrow> [(k, JNull)] | Some (Some n) \<Rightarrow> [(k, JNum n)])"

record member_patch =
  mp_name :: "string option"
  mp_display_name :: "string option"
  mp_color :: "string option"
  mp_role :: "string option"
  mp_age_group :: "string option"
  mp_pin :: "string option"
  mp_rate_min :: "rat option option"
  mp_rate_max :: "rat option option"

definition use_update_member :: "string \<Rightarrow> string \<Rightarrow> member_patch \<Rightarrow> mutation" where
  "use_update_member householdId memberId p =
     \<lparr>mu_call = ApiPatch (members_path householdId @ ''/'' @ memberId)
        (JObj (defined_field ''name'' (mp_name p) @ defined_field ''display_name'' (mp_display_name p) @
               defined_field ''color'' (mp_color p) @ defined_field ''role'' (mp_role p) @
               defined_field ''age_group'' (mp_age_group p) @ defined_field ''pin'' (mp_pin p) @
               rate_field ''hourly_rate_cents_min'' (mp_rate_min p) @
               rate_field ''hourly_rate_cents_max'' (mp_rate_max p))),
      mu_invalidates = [qk_members]\<rparr>"

definition use_delete_member :: "string \<Rightarrow> string \<Rightarrow> mutation" where
  "use_delete_member householdId memberId =
     \<lparr>mu_call = ApiDelete (members_path householdId @ ''/'' @ memberId), mu_invalidates = [qk_members]\<rparr>"

section \<open>Recipes\<close>

definition use_recipes :: query where
  "use_recipes = plain_query qk_recipes (with_fallback (ApiGet ''/v1/recipes'') fallback_list)"

definition use_live_recipes :: query where
  "use_live_recipes =
     plain_query (live_key qk_recipes) (without_sample_fallback (ApiGet ''/v1/recipes'') (JArr []))"

definition use_recipe :: "string \<Rightarrow> query" where
  "use_recipe i =
     guarded_query (i \<noteq> []) (qk_recipe i) (with_fallback (ApiGet (''/v1/recipes/'' @ i)) JUndef)"

definition use_import_recipe :: "string \<Rightarrow> mutation" where
  "use_import_recipe url =
     \<lparr>mu_call = ApiPost ''/v1/recipes/import'' (JObj [(''url'', JStr url)]), mu_invalidates = [qk_recipes]\<rparr>"

definition use_start_import_job :: "string \<Rightarrow> mutation" where
  "use_start_import_job url =
     \<lparr>mu_call = ApiPost ''/v1/recipes/import-jobs'' (JObj [(''url'', JStr url)]), mu_invalidates = []\<rparr>"

datatype import_status = Running | Succeeded | Failed

record import_job =
  ij_id :: string
  ij_status :: import_status
  ij_error_message :: "string option"
  ij_recipe_id :: "string option"
  ij_created_at :: "string option"
  ij_updated_at :: "string option"

text \<open>
  The polling interval in milliseconds, \<open>None\<close> when polling stops. \<open>data\<close> is the last payload and
  \<open>failures\<close> the count of consecutive transport failures.
\<close>

definition import_refetch_interval :: "import_job option \<Rightarrow> nat \<Rightarrow> int option" where
  "import_refetch_interval data failures =
     (if (case data of None \<Rightarrow> False | Some j \<Rightarrow> ij_status j = Succeeded \<or> ij_status j = Failed) then None
      else if failures > 0 then Some (min (2000 * 2 ^ (failures - 1)) 30000)
      else Some 2000)"

definition use_import_job :: "string option \<Rightarrow> import_job option \<Rightarrow> nat \<Rightarrow> query" where
  "use_import_job i data failures =
     \<lparr>qy_key = [JStr ''recipe-import-job'', opt_str i],
      qy_call = ApiGet (''/v1/recipes/import-jobs/'' @ tmpl i), qy_enabled = truthy i,
      qy_refetch_ms = import_refetch_interval data failures, qy_retry = False\<rparr>"

text \<open>The keys a successful poll invalidates.\<close>

definition import_job_invalidates :: "import_job \<Rightarrow> query_key list" where
  "import_job_invalidates res = (if ij_status res = Succeeded then [qk_recipes] else [])"

section \<open>Lists\<close>

definition use_lists :: query where
  "use_lists = plain_query qk_lists (with_fallback (ApiGet ''/v1/lists'') fallback_list)"

definition use_live_lists :: query where
  "use_live_lists = plain_query (live_key qk_lists) (without_sample_fallback (ApiGet ''/v1/lists'') (JArr []))"

definition use_list :: "string \<Rightarrow> query" where
  "use_list i = guarded_query (i \<noteq> []) (qk_list i) (with_fallback (ApiGet (''/v1/lists/'' @ i)) JUndef)"

definition list_items_path :: "string \<Rightarrow> string" where
  "list_items_path listId = ''/v1/lists/'' @ listId @ ''/items''"

definition use_toggle_list_item :: "string \<Rightarrow> string \<Rightarrow> bool \<Rightarrow> mutation" where
  "use_toggle_list_item listId itemId completed =
     \<lparr>mu_call = ApiPatch (list_items_path listId @ ''/'' @ itemId) (JObj [(''completed'', JBool completed)]),
      mu_invalidates = [qk_list listId, qk_lists]\<rparr>"

definition use_create_list :: "string \<Rightarrow> string option \<Rightarrow> mutation" where
  "use_create_list nm kind =
     \<lparr>mu_call = ApiPost ''/v1/lists''
        (JObj [(''name'', JStr nm), (''type'', JStr (case kind of None \<Rightarrow> ''todo'' | Some k \<Rightarrow> k))]),
      mu_invalidates = [qk_lists]\<rparr>"

definition use_add_list_item :: "string \<Rightarrow> string \<Rightarrow> mutation" where
  "use_add_list_item listId txt =
     \<lparr>mu_call = ApiPost (list_items_path listId) (JObj [(''text'', JStr txt)]),
      mu_invalidates = [qk_list listId, qk_lists]\<rparr>"

definition use_delete_list_item :: "string \<Rightarrow> string \<Rightarrow> mutation" where
  "use_delete_list_item listId itemId =
     \<lparr>mu_call = ApiDelete (list_items_path listId @ ''/'' @ itemId),
      mu_invalidates = [qk_list listId, qk_lists]\<rparr>"

section \<open>Routines\<close>

definition routines_call :: "routine_params option \<Rightarrow> api_call" where
  "routines_call params =
     (let qs = (case params of None \<Rightarrow> []
         | Some p \<Rightarrow> params_opt ''time_slot'' (rp_time_slot p) (params_opt ''member_id'' (rp_member_id p) []))
      in ApiGet (''/v1/routines'' @ params_suffix qs))"

definition use_routines :: "routine_params option \<Rightarrow> query" where
  "use_routines params = plain_query (qk_routines params) (with_fallback (routines_call params) fallback_list)"

definition use_live_routines :: "routine_params option \<Rightarrow> query" where
  "use_live_routines params =
     plain_query (live_key (qk_routines params)) (without_sample_fallback (routines_call params) (JArr []))"

definition routine_mutation :: "api_call \<Rightarrow> mutation" where
  "routine_mutation call = \<lparr>mu_call = call, mu_invalidates = [[JStr ''routines'']]\<rparr>"

definition use_create_routine :: "jsobj \<Rightarrow> mutation" where
  "use_create_routine req = routine_mutation (ApiPost ''/v1/routines'' (JObj req))"

definition use_update_routine :: "string \<Rightarrow> jsobj \<Rightarrow> mutation" where
  "use_update_routine i req = routine_mutation (ApiPatch (''/v1/routines/'' @ i) (JObj req))"

definition use_delete_routine :: "string \<Rightarrow> mutation" where
  "use_delete_routine i = routine_mutation (ApiDelete (''/v1/routines/'' @ i))"

definition use_add_step :: "string \<Rightarrow> jsobj \<Rightarrow> mutation" where
  "use_add_step routineId req =
     routine_mutation (ApiPost (''/v1/routines/'' @ routineId @ ''/steps'') (JObj req))"

definition use_update_step :: "string \<Rightarrow> string \<Rightarrow> jsobj \<Rightarrow> mutation" where
  "use_update_step routineId stepId req =
     routine_mutation (ApiPatch (''/v1/routines/'' @ routineId @ ''/steps/'' @ stepId) (JObj req))"

definition use_delete_step :: "string \<Rightarrow> string \<Rightarrow> mutation" where
  "use_delete_step routineId stepId =
     routine_mutation (ApiDelete (''/v1/routines/'' @ routineId @ ''/steps/'' @ stepId))"

definition use_mark_step_complete :: "string \<Rightarrow> jsobj \<Rightarrow> mutation" where
  "use_mark_step_complete routineId req =
     routine_mutation (ApiPost (''/v1/routines/'' @ routineId @ ''/complete'') (JObj req))"

definition use_unmark_step :: "string \<Rightarrow> string \<Rightarrow> mutation" where
  "use_unmark_step routineId completionId =
     routine_mutation (ApiDelete (''/v1/routines/'' @ routineId @ ''/complete/'' @ completionId))"

definition use_toggle_routine_step :: "string \<Rightarrow> string \<Rightarrow> string \<Rightarrow> bool \<Rightarrow> mutation" where
  "use_toggle_routine_step routineId stepId memberId isDone =
     routine_mutation
       (if isDone then ApiPost (''/v1/routines/'' @ routineId @ ''/complete'')
          (JObj [(''step_id'', JStr stepId), (''member_id'', JStr memberId)])
        else Resolved JNull)"

definition use_streak :: "string \<Rightarrow> string \<Rightarrow> query" where
  "use_streak routineId memberId =
     guarded_query (routineId \<noteq> [] \<and> memberId \<noteq> []) (qk_routine_streak routineId memberId)
       (ApiGet (''/v1/routines/'' @ routineId @ ''/streak?member_id='' @ encode_uri_component memberId))"

section \<open>Equity\<close>

definition use_equity :: "string option \<Rightarrow> query" where
  "use_equity period =
     plain_query (qk_equity period)
       (with_fallback (ApiGet (''/v1/equity'' @
          (if truthy period then ''?period='' @ encode_uri_component (the period) else []))) empty_equity)"

definition from_to_params :: "string option \<Rightarrow> string option \<Rightarrow> search_params" where
  "from_to_params from to = params_opt ''to'' to (params_opt ''from'' from [])"

definition use_equity_dashboard :: "string option \<Rightarrow> string option \<Rightarrow> query" where
  "use_equity_dashboard from to =
     plain_query (qk_equity_dashboard from to) (ApiGet (''/v1/equity'' @ params_suffix (from_to_params from to)))"

definition use_equity_domains :: query where
  "use_equity_domains = plain_query qk_equity_domains (ApiGet ''/v1/equity/domains'')"

definition use_equity_tasks :: query where
  "use_equity_tasks = plain_query qk_equity_tasks (ApiGet ''/v1/equity/tasks'')"

definition use_rebalance_suggestions :: query where
  "use_rebalance_suggestions = plain_query qk_equity_suggestions (ApiGet ''/v1/equity/suggestions'')"

definition use_equity_contribution :: "string option \<Rightarrow> string option \<Rightarrow> query" where
  "use_equity_contribution from to =
     plain_query [JStr ''equity'', JStr ''contribution'', opt_str from, opt_str to]
       (ApiGet (''/v1/equity/contribution'' @ params_suffix (from_to_params from to)))"

definition use_housekeeper_estimate :: "string option \<Rightarrow> string option \<Rightarrow> query" where
  "use_housekeeper_estimate from to =
     plain_query [JStr ''equity'', JStr ''housekeeper-estimate'', opt_str from, opt_str to]
       (ApiGet (''/v1/equity/housekeeper-estimate'' @ params_suffix (from_to_params from to)))"

definition use_create_equity_task :: "jsobj \<Rightarrow> mutation" where
  "use_create_equity_task req =
     \<lparr>mu_call = ApiPost ''/v1/equity/tasks'' (JObj req),
      mu_invalidates = [qk_equity_tasks, [JStr ''equity'']]\<rparr>"

definition use_update_equity_task :: "string \<Rightarrow> jsobj \<Rightarrow> mutation" where
  "use_update_equity_task i req =
     \<lparr>mu_call = ApiPatch (''/v1/equity/tasks/'' @ i) (JObj req),
      mu_invalidates = [qk_equity_tasks, [JStr ''equity'']]\<rparr>"

definition use_delete_equity_task :: "string \<Rightarrow> mutation" where
  "use_delete_equity_task i =
     \<lparr>mu_call = ApiDelete (''/v1/equity/tasks/'' @ i),
      mu_invalidates = [qk_equity_tasks, [JStr ''equity'']]\<rparr>"

definition use_log_task_time :: "string \<Rightarrow> jsobj \<Rightarrow> mutation" where
  "use_log_task_time taskId req =
     \<lparr>mu_call = ApiPost (''/v1/equity/tasks/'' @ taskId @ ''/log'') (JObj req),
      mu_invalidates = [[JStr ''equity'']]\<rparr>"

section \<open>Races, calendars and shopping generation\<close>

definition use_race :: query where
  "use_race = plain_query qk_race (with_fallback (ApiGet ''/v1/races/current'') empty_race)"

definition use_generate_shopping_list :: "string \<Rightarrow> string \<Rightarrow> mutation" where
  "use_generate_shopping_list dateFrom dateTo =
     \<lparr>mu_call = ApiPost ''/v1/shopping/generate''
        (JObj [(''date_from'', JStr dateFrom), (''date_to'', JStr dateTo)]),
      mu_invalidates = [qk_shopping]\<rparr>"

definition use_calendars :: query where
  "use_calendars = plain_query [JStr ''calendars''] (with_fallback (ApiGet ''/v1/calendars'') (JArr []))"

definition use_add_ical_calendar :: "string \<Rightarrow> string \<Rightarrow> mutation" where
  "use_add_ical_calendar nm url =
     \<lparr>mu_call = ApiPost ''/v1/calendars/ical'' (JObj [(''name'', JStr nm), (''url'', JStr url)]),
      mu_invalidates = [[JStr ''calendars'']]\<rparr>"

definition use_sync_ical :: "string \<Rightarrow> string \<Rightarrow> string \<Rightarrow> mutation" where
  "use_sync_ical calendarId rangeStart rangeEnd =
     \<lparr>mu_call = ApiPost (''/v1/calendars/'' @ calendarId @ ''/sync-ical'')
        (JObj [(''range_start'', JStr rangeStart), (''range_end'', JStr rangeEnd)]),
      mu_invalidates = [[JStr ''events'']]\<rparr>"

section \<open>Households and notifications\<close>

definition use_my_households :: query where
  "use_my_households =
     plain_query [JStr ''me'', JStr ''households''] (with_fallback (ApiGet ''/v1/me/households'') (JArr []))"

definition use_household :: "string option \<Rightarrow> query" where
  "use_household householdId =
     guarded_query (is_uuid householdId) [JStr ''household'', opt_str householdId]
       (ApiGet (''/v1/households/'' @ tmpl householdId))"

definition use_update_household_settings :: "string \<Rightarrow> jsval \<Rightarrow> mutation" where
  "use_update_household_settings householdId settings =
     \<lparr>mu_call = ApiPatch (''/v1/households/'' @ householdId) (JObj [(''settings'', settings)]),
      mu_invalidates = [[JStr ''household'', JStr householdId]]\<rparr>"

definition use_update_member_notify :: "string \<Rightarrow> string option \<Rightarrow> bool \<Rightarrow> bool \<Rightarrow> bool \<Rightarrow> mutation" where
  "use_update_member_notify memberId ntfyTopic eventsOn listsOn tasksOn =
     \<lparr>mu_call = ApiPatch (''/v1/members/'' @ memberId @ ''/notify'')
        (JObj [(''ntfy_topic'', str_or_null ntfyTopic), (''events_enabled'', JBool eventsOn),
               (''lists_enabled'', JBool listsOn), (''tasks_enabled'', JBool tasksOn)]),
      mu_invalidates = []\<rparr>"

definition use_test_notification :: "string \<Rightarrow> mutation" where
  "use_test_notification memberId =
     \<lparr>mu_call = ApiPost ''/v1/notify/test'' (JObj [(''member_id'', JStr memberId)]), mu_invalidates = []\<rparr>"

definition audit_params :: "int \<Rightarrow> int \<Rightarrow> audit_filters option \<Rightarrow> search_params" where
  "audit_params limit off filters =
     (let ps = params_set ''offset'' (int_str off) (params_set ''limit'' (int_str limit) [])
      in case filters of None \<Rightarrow> ps
         | Some f \<Rightarrow> params_opt ''to'' (af_to f) (params_opt ''from'' (af_from f)
             (params_opt ''target_type'' (af_target_type f) (params_opt ''action'' (af_action f) ps))))"

definition use_audit :: "int \<Rightarrow> int \<Rightarrow> audit_filters option \<Rightarrow> query" where
  "use_audit limit off filters =
     plain_query (qk_audit limit off filters)
       (with_fallback (ApiGet (''/v1/audit?'' @ params_str (audit_params limit off filters)))
          (fallback_audit limit off))"

section \<open>Recipe collections\<close>

definition use_recipe_collections :: query where
  "use_recipe_collections =
     plain_query qk_collections (with_fallback (ApiGet ''/v1/recipe-collections'') (JArr []))"

definition use_collection_recipes :: "string \<Rightarrow> query" where
  "use_collection_recipes collectionId =
     guarded_query (collectionId \<noteq> []) (qk_collection_recipes collectionId)
       (with_fallback (ApiGet (''/v1/recipe-collections/'' @ collectionId @ ''/recipes'')) (JArr []))"

definition use_create_collection :: "jsobj \<Rightarrow> mutation" where
  "use_create_collection req =
     \<lparr>mu_call = ApiPost ''/v1/recipe-collections'' (JObj req), mu_invalidates = [qk_collections]\<rparr>"

definition use_update_collection :: "string \<Rightarrow> jsobj \<Rightarrow> mutation" where
  "use_update_collection i req =
     \<lparr>mu_call = ApiPatch (''/v1/recipe-collections/'' @ i) (JObj req), mu_invalidates = [qk_collections]\<rparr>"

definition use_delete_collection :: "string \<Rightarrow> mutation" where
  "use_delete_collection i =
     \<lparr>mu_call = ApiDelete (''/v1/recipe-collections/'' @ i), mu_invalidates = [qk_collections]\<rparr>"

definition use_assign_recipe_to_collection :: "string \<Rightarrow> string \<Rightarrow> int option \<Rightarrow> mutation" where
  "use_assign_recipe_to_collection collectionId recipeId sortOrder =
     \<lparr>mu_call = ApiPost (''/v1/recipe-collections/'' @ collectionId @ ''/recipes'')
        (JObj [(''recipe_id'', JStr recipeId),
               (''sort_order'', JNum (of_int (case sortOrder of None \<Rightarrow> 0 | Some n \<Rightarrow> n)))]),
      mu_invalidates = [qk_collection_recipes collectionId, qk_collections]\<rparr>"

definition use_remove_recipe_from_collection :: "string \<Rightarrow> string \<Rightarrow> mutation" where
  "use_remove_recipe_from_collection collectionId recipeId =
     \<lparr>mu_call = ApiDelete (''/v1/recipe-collections/'' @ collectionId @ ''/recipes/'' @ recipeId),
      mu_invalidates = [qk_collection_recipes collectionId, qk_collections]\<rparr>"

section \<open>Invites and join requests\<close>

definition use_regenerate_invite_code :: "string \<Rightarrow> mutation" where
  "use_regenerate_invite_code householdId =
     \<lparr>mu_call = ApiPost (''/v1/households/'' @ householdId @ ''/invite/regenerate'') (JObj []),
      mu_invalidates = [[JStr ''household'', JStr householdId]]\<rparr>"

definition use_household_by_code :: "string \<Rightarrow> query" where
  "use_household_by_code code =
     (guarded_query (length code = 8) (qk_household_by_code code)
        (ApiGet (''/v1/households/by-code/'' @ encode_uri_component code)))\<lparr>qy_retry := False\<rparr>"

definition use_request_join :: "string \<Rightarrow> mutation" where
  "use_request_join code =
     \<lparr>mu_call = ApiPost (''/v1/households/by-code/'' @ encode_uri_component code @ ''/join'') (JObj []),
      mu_invalidates = []\<rparr>"

definition use_join_requests :: "string option \<Rightarrow> query" where
  "use_join_requests householdId =
     guarded_query (truthy householdId) (qk_join_requests (case householdId of None \<Rightarrow> [] | Some h \<Rightarrow> h))
       (ApiGet (''/v1/households/'' @ tmpl householdId @ ''/join-requests''))"

definition use_approve_join_request :: "string \<Rightarrow> string \<Rightarrow> mutation" where
  "use_approve_join_request requestId householdId =
     \<lparr>mu_call = ApiPost (''/v1/join-requests/'' @ requestId @ ''/approve'') (JObj []),
      mu_invalidates = [qk_join_requests householdId, qk_members]\<rparr>"

definition use_reject_join_request :: "string \<Rightarrow> string \<Rightarrow> mutation" where
  "use_reject_join_request requestId householdId =
     \<lparr>mu_call = ApiPost (''/v1/join-requests/'' @ requestId @ ''/reject'') (JObj []),
      mu_invalidates = [qk_join_requests householdId]\<rparr>"

text \<open>\<open>error\<close> is the error object that the user reports.\<close>

definition use_report_bug :: "jsval \<Rightarrow> string \<Rightarrow> string \<Rightarrow> string \<Rightarrow> mutation" where
  "use_report_bug error url userAgent memberName =
     \<lparr>mu_call = ApiPost ''/v1/bug-reports''
        (JObj [(''error'', error), (''url'', JStr url), (''user_agent'', JStr userAgent),
               (''member_name'', JStr memberName)]),
      mu_invalidates = []\<rparr>"

end
