(* ===== verification/HooksChores.thy ===== *)
theory HooksChores
  imports HooksCore
begin

text \<open>
  The hooks of \<^verbatim>\<open>web/src/lib/api/hooks.ts\<close> for chores, time tracking, wallets, allowances, ad-hoc
  tasks, points, behaviors, rewards, redemptions, savings goals and the timeline.
\<close>

text \<open>\<^verbatim>\<open>x ?? null\<close> in a key and optional flags.\<close>

definition flag :: "bool option \<Rightarrow> bool" where
  "flag b = (case b of None \<Rightarrow> False | Some x \<Rightarrow> x)"

definition mutate :: "api_call \<Rightarrow> string list \<Rightarrow> mutation" where
  "mutate call keys = \<lparr>mu_call = call, mu_invalidates = map (\<lambda>k. [JStr k]) keys\<rparr>"

section \<open>Chores\<close>

definition use_chores :: "string option \<Rightarrow> query" where
  "use_chores memberId =
     plain_query [JStr ''chores'', str_or_null memberId]
       (with_fallback (ApiGet (''/v1/chores'' @
          (if truthy memberId then ''?member_id='' @ the memberId else []))) fallback_list)"

definition use_chore_completions :: "string \<Rightarrow> string \<Rightarrow> string option \<Rightarrow> query" where
  "use_chore_completions from to memberId =
     plain_query [JStr ''chore-completions'', JStr from, JStr to, str_or_null memberId]
       (with_fallback (ApiGet (''/v1/chores/completions?'' @
          params_str (params_opt ''member_id'' memberId [(''from'', from), (''to'', to)]))) fallback_list)"

definition use_mark_chore_complete :: "string \<Rightarrow> string option \<Rightarrow> mutation" where
  "use_mark_chore_complete choreId date =
     mutate (ApiPost (''/v1/chores/'' @ choreId @ ''/complete'' @
         (if truthy date then ''?date='' @ the date else [])) (JObj []))
       [''chore-completions'', ''wallet'']"

definition use_undo_chore_complete :: "string \<Rightarrow> string \<Rightarrow> mutation" where
  "use_undo_chore_complete choreId date =
     mutate (ApiDelete (''/v1/chores/'' @ choreId @ ''/complete/'' @ date)) [''chore-completions'', ''wallet'']"

definition use_create_chore :: "jsobj \<Rightarrow> mutation" where
  "use_create_chore req = mutate (ApiPost ''/v1/chores'' (JObj req)) [''chores'']"

definition use_update_chore :: "string \<Rightarrow> jsobj \<Rightarrow> mutation" where
  "use_update_chore i patch = mutate (ApiPatch (''/v1/chores/'' @ i) (JObj patch)) [''chores'']"

definition use_archive_chore :: "string \<Rightarrow> mutation" where
  "use_archive_chore i = mutate (ApiDelete (''/v1/chores/'' @ i)) [''chores'']"

definition use_set_chore_pets :: "string \<Rightarrow> string list \<Rightarrow> mutation" where
  "use_set_chore_pets choreId petMemberIds =
     mutate (ApiPost (''/v1/chores/'' @ choreId @ ''/pets'')
       (JObj [(''pet_member_ids'', JArr (map JStr petMemberIds))])) [''chores'']"

section \<open>Time tracking\<close>

definition use_start_chore_timer :: "string \<Rightarrow> mutation" where
  "use_start_chore_timer choreId =
     mutate (ApiPost (''/v1/chores/'' @ choreId @ ''/timer/start'') (JObj []))
       [''chore-time-entries'', ''member-time-summary'']"

definition use_stop_chore_timer :: "string \<Rightarrow> mutation" where
  "use_stop_chore_timer choreId =
     mutate (ApiPost (''/v1/chores/'' @ choreId @ ''/timer/stop'') (JObj []))
       [''chore-time-entries'', ''member-time-summary'']"

definition use_record_manual_time_entry ::
  "string \<Rightarrow> string option \<Rightarrow> string \<Rightarrow> string \<Rightarrow> string option \<Rightarrow> mutation" where
  "use_record_manual_time_entry choreId memberId startedAt endedAt note' =
     mutate (ApiPost (''/v1/chores/'' @ choreId @ ''/time-entries'')
       (JObj (truthy_field ''member_id'' memberId @
              [(''started_at'', JStr startedAt), (''ended_at'', JStr endedAt),
               (''note'', JStr (case note' of None \<Rightarrow> [] | Some n \<Rightarrow> n))])))
       [''chore-time-entries'', ''member-time-summary'']"

record time_entry_opts =
  to_chore_id :: "string option"
  to_member_id :: "string option"
  to_from :: "string option"
  to_to :: "string option"

definition use_chore_time_entries :: "time_entry_opts \<Rightarrow> query" where
  "use_chore_time_entries o' =
     (let suffix = params_suffix (params_opt ''to'' (to_to o') (params_opt ''from'' (to_from o')
            (params_opt ''member_id'' (to_member_id o') [])));
          path = (if truthy (to_chore_id o')
            then ''/v1/chores/'' @ the (to_chore_id o') @ ''/time-entries'' @ suffix
            else ''/v1/time-entries'' @ suffix)
      in plain_query [JStr ''chore-time-entries'', str_or_null (to_chore_id o'), str_or_null (to_member_id o'),
           str_or_null (to_from o'), str_or_null (to_to o')]
         (without_sample_fallback (ApiGet path) (JArr [])))"

definition use_member_time_summary :: "string option \<Rightarrow> string option \<Rightarrow> string option \<Rightarrow> query" where
  "use_member_time_summary memberId from to =
     guarded_query (truthy memberId)
       [JStr ''member-time-summary'', str_or_null memberId, str_or_null from, str_or_null to]
       (ApiGet (''/v1/members/'' @ tmpl memberId @ ''/time-summary'' @
          params_suffix (params_opt ''to'' to (params_opt ''from'' from []))))"

definition use_update_time_entry ::
  "string \<Rightarrow> string option \<Rightarrow> string option \<Rightarrow> string option \<Rightarrow> mutation" where
  "use_update_time_entry i startedAt endedAt note' =
     mutate (ApiPatch (''/v1/time-entries/'' @ i)
       (JObj (defined_field ''started_at'' startedAt @ defined_field ''ended_at'' endedAt @
              defined_field ''note'' note')))
       [''chore-time-entries'', ''member-time-summary'']"

definition use_delete_time_entry :: "string \<Rightarrow> mutation" where
  "use_delete_time_entry i =
     mutate (ApiDelete (''/v1/time-entries/'' @ i)) [''chore-time-entries'', ''member-time-summary'']"

section \<open>Wallets and allowances\<close>

definition use_wallet :: "int \<Rightarrow> string option \<Rightarrow> query" where
  "use_wallet today memberId =
     guarded_query (truthy memberId) [JStr ''wallet'', opt_str memberId]
       (with_fallback (ApiGet (''/v1/wallet/'' @ tmpl memberId)) (fallback_wallet today (tmpl memberId)))"

definition use_tip :: "string \<Rightarrow> rat \<Rightarrow> string \<Rightarrow> mutation" where
  "use_tip memberId amountCents reason =
     mutate (ApiPost (''/v1/wallet/'' @ memberId @ ''/tip'')
       (JObj [(''amount_cents'', JNum amountCents), (''reason'', JStr reason)])) [''wallet'']"

definition use_cash_out :: "string \<Rightarrow> rat \<Rightarrow> string option \<Rightarrow> string option \<Rightarrow> mutation" where
  "use_cash_out memberId amountCents meth note' =
     mutate (ApiPost (''/v1/wallet/'' @ memberId @ ''/cash-out'')
       (JObj [(''amount_cents'', JNum amountCents),
              (''method'', JStr (case meth of None \<Rightarrow> [] | Some m \<Rightarrow> m)),
              (''note'', JStr (case note' of None \<Rightarrow> [] | Some n \<Rightarrow> n))])) [''wallet'']"

definition use_allowance :: query where
  "use_allowance = plain_query [JStr ''allowance''] (with_fallback (ApiGet ''/v1/allowance'') (JArr []))"

definition use_upsert_allowance :: "string \<Rightarrow> rat \<Rightarrow> mutation" where
  "use_upsert_allowance memberId amountCents =
     mutate (ApiPut (''/v1/allowance/'' @ memberId) (JObj [(''amount_cents'', JNum amountCents)]))
       [''allowance'', ''chores'']"

section \<open>Ad-hoc tasks\<close>

definition member_status_params :: "string option \<Rightarrow> string option \<Rightarrow> search_params" where
  "member_status_params memberId status = params_opt ''status'' status (params_opt ''member_id'' memberId [])"

definition use_ad_hoc_tasks :: "string option \<Rightarrow> string option \<Rightarrow> query" where
  "use_ad_hoc_tasks memberId status =
     plain_query [JStr ''ad-hoc-tasks'', str_or_null memberId, str_or_null status]
       (with_fallback (ApiGet (''/v1/ad-hoc-tasks'' @ params_suffix (member_status_params memberId status)))
          (JArr []))"

definition use_create_ad_hoc_task :: "jsobj \<Rightarrow> mutation" where
  "use_create_ad_hoc_task req = mutate (ApiPost ''/v1/ad-hoc-tasks'' (JObj req)) [''ad-hoc-tasks'']"

definition use_approve_ad_hoc_task :: "string \<Rightarrow> mutation" where
  "use_approve_ad_hoc_task i =
     mutate (ApiPost (''/v1/ad-hoc-tasks/'' @ i @ ''/approve'') (JObj [])) [''ad-hoc-tasks'', ''wallet'']"

definition use_decline_ad_hoc_task :: "string \<Rightarrow> string \<Rightarrow> mutation" where
  "use_decline_ad_hoc_task i reason =
     mutate (ApiPost (''/v1/ad-hoc-tasks/'' @ i @ ''/decline'') (JObj [(''reason'', JStr reason)]))
       [''ad-hoc-tasks'']"

definition use_complete_ad_hoc_task :: "string \<Rightarrow> mutation" where
  "use_complete_ad_hoc_task i =
     mutate (ApiPost (''/v1/ad-hoc-tasks/'' @ i @ ''/complete'') (JObj [])) [''ad-hoc-tasks'']"

section \<open>Point categories and behaviors\<close>

definition use_point_categories :: "bool option \<Rightarrow> query" where
  "use_point_categories includeArchived =
     plain_query [JStr ''point-categories'', JBool (flag includeArchived)]
       (with_fallback (ApiGet (''/v1/point-categories'' @
          (if flag includeArchived then ''?include_archived=true'' else []))) fallback_list)"

definition use_create_point_category :: "jsobj \<Rightarrow> mutation" where
  "use_create_point_category req = mutate (ApiPost ''/v1/point-categories'' (JObj req)) [''point-categories'']"

definition use_update_point_category :: "string \<Rightarrow> jsobj \<Rightarrow> mutation" where
  "use_update_point_category i patch =
     mutate (ApiPatch (''/v1/point-categories/'' @ i) (JObj patch)) [''point-categories'']"

definition use_archive_point_category :: "string \<Rightarrow> mutation" where
  "use_archive_point_category i = mutate (ApiDelete (''/v1/point-categories/'' @ i)) [''point-categories'']"

definition use_behaviors :: "string option \<Rightarrow> bool option \<Rightarrow> query" where
  "use_behaviors categoryId includeArchived =
     plain_query [JStr ''behaviors'', str_or_null categoryId, JBool (flag includeArchived)]
       (with_fallback (ApiGet (''/v1/behaviors'' @ params_suffix
          (params_opt ''include_archived'' (if flag includeArchived then Some ''true'' else None)
             (params_opt ''category_id'' categoryId [])))) fallback_list)"

definition use_create_behavior :: "jsobj \<Rightarrow> mutation" where
  "use_create_behavior req = mutate (ApiPost ''/v1/behaviors'' (JObj req)) [''behaviors'']"

definition use_update_behavior :: "string \<Rightarrow> jsobj \<Rightarrow> mutation" where
  "use_update_behavior i patch = mutate (ApiPatch (''/v1/behaviors/'' @ i) (JObj patch)) [''behaviors'']"

definition use_archive_behavior :: "string \<Rightarrow> mutation" where
  "use_archive_behavior i = mutate (ApiDelete (''/v1/behaviors/'' @ i)) [''behaviors'']"

section \<open>Points\<close>

definition use_points_balance :: "string option \<Rightarrow> query" where
  "use_points_balance memberId =
     guarded_query (truthy memberId) [JStr ''points-balance'', opt_str memberId]
       (with_fallback (ApiGet (''/v1/points/'' @ tmpl memberId)) (fallback_points_balance (tmpl memberId)))"

definition use_scoreboard :: query where
  "use_scoreboard =
     (plain_query [JStr ''scoreboard''] (with_fallback (ApiGet ''/v1/points/scoreboard'') fallback_list))
       \<lparr>qy_refetch_ms := Some 30000\<rparr>"

definition use_grant_points :: "string \<Rightarrow> jsobj \<Rightarrow> mutation" where
  "use_grant_points memberId req =
     mutate (ApiPost (''/v1/points/'' @ memberId @ ''/grant'') (JObj req))
       [''points-balance'', ''scoreboard'', ''timeline'']"

definition use_adjust_points :: "string \<Rightarrow> rat \<Rightarrow> string \<Rightarrow> mutation" where
  "use_adjust_points memberId points reason =
     mutate (ApiPost (''/v1/points/'' @ memberId @ ''/adjust'')
       (JObj [(''points'', JNum points), (''reason'', JStr reason)]))
       [''points-balance'', ''scoreboard'', ''timeline'']"

section \<open>Rewards and redemptions\<close>

definition use_rewards :: "bool option \<Rightarrow> query" where
  "use_rewards onlyActiveOpt =
     (let onlyActive = (case onlyActiveOpt of None \<Rightarrow> True | Some b \<Rightarrow> b)
      in plain_query [JStr ''rewards'', JBool onlyActive]
         (with_fallback (ApiGet (''/v1/rewards?active='' @ (if onlyActive then ''true'' else ''false'')))
            fallback_list))"

definition use_create_reward :: "jsobj \<Rightarrow> mutation" where
  "use_create_reward req = mutate (ApiPost ''/v1/rewards'' (JObj req)) [''rewards'']"

definition use_update_reward :: "string \<Rightarrow> jsobj \<Rightarrow> mutation" where
  "use_update_reward i patch = mutate (ApiPatch (''/v1/rewards/'' @ i) (JObj patch)) [''rewards'']"

definition use_archive_reward :: "string \<Rightarrow> mutation" where
  "use_archive_reward i = mutate (ApiDelete (''/v1/rewards/'' @ i)) [''rewards'']"

definition use_redeem_reward :: "string \<Rightarrow> mutation" where
  "use_redeem_reward rewardId =
     mutate (ApiPost (''/v1/rewards/'' @ rewardId @ ''/redeem'') (JObj []))
       [''points-balance'', ''redemptions'', ''timeline'']"

definition use_redemptions :: "string option \<Rightarrow> string option \<Rightarrow> query" where
  "use_redemptions memberId status =
     plain_query [JStr ''redemptions'', str_or_null memberId, str_or_null status]
       (with_fallback (ApiGet (''/v1/redemptions'' @ params_suffix (member_status_params memberId status)))
          fallback_list)"

definition use_approve_redemption :: "string \<Rightarrow> mutation" where
  "use_approve_redemption i =
     mutate (ApiPost (''/v1/redemptions/'' @ i @ ''/approve'') (JObj []))
       [''redemptions'', ''points-balance'', ''timeline'']"

definition use_decline_redemption :: "string \<Rightarrow> string \<Rightarrow> mutation" where
  "use_decline_redemption i reason =
     mutate (ApiPost (''/v1/redemptions/'' @ i @ ''/decline'') (JObj [(''reason'', JStr reason)]))
       [''redemptions'']"

definition use_fulfill_redemption :: "string \<Rightarrow> mutation" where
  "use_fulfill_redemption i =
     mutate (ApiPost (''/v1/redemptions/'' @ i @ ''/fulfill'') (JObj [])) [''redemptions'']"

definition use_set_savings_goal :: "string \<Rightarrow> string option \<Rightarrow> mutation" where
  "use_set_savings_goal memberId rewardId =
     mutate (ApiPut (''/v1/savings-goals/'' @ memberId) (JObj [(''reward_id'', str_or_null rewardId)]))
       [''points-balance'']"

definition use_cost_adjust_reward :: "string \<Rightarrow> jsobj \<Rightarrow> mutation" where
  "use_cost_adjust_reward rewardId req =
     mutate (ApiPost (''/v1/rewards/'' @ rewardId @ ''/cost-adjust'') (JObj req)) [''rewards'', ''timeline'']"

definition use_delete_reward_adjustment :: "string \<Rightarrow> mutation" where
  "use_delete_reward_adjustment i = mutate (ApiDelete (''/v1/reward-adjustments/'' @ i)) [''rewards'']"

section \<open>Timeline\<close>

definition use_timeline :: "string option \<Rightarrow> int option \<Rightarrow> int option \<Rightarrow> query" where
  "use_timeline memberId limitOpt offsetOpt =
     (let limit = (case limitOpt of None \<Rightarrow> 50 | Some n \<Rightarrow> n);
          off = (case offsetOpt of None \<Rightarrow> 0 | Some n \<Rightarrow> n)
      in guarded_query (truthy memberId)
           [JStr ''timeline'', opt_str memberId, JNum (of_int limit), JNum (of_int off)]
           (with_fallback (ApiGet (''/v1/timeline/'' @ tmpl memberId @ ''?limit='' @ int_str limit @
              ''&offset='' @ int_str off)) fallback_list))"

end
