(* ===== verification/AuthStore.thy ===== *)
theory AuthStore
  imports HooksCore Machine
begin

text \<open>
  The session of the application, \<^verbatim>\<open>web/src/lib/auth/auth-store.tsx\<close>: the provider's state next to
  the token in local storage, and its asynchronous operations. An operation that waits for the
  server is an entry of \<open>au_pending\<close>; answers may arrive in any order and interleave with the
  other operations, so a run is a list of events. What follows an \<^verbatim>\<open>await\<close> without waiting again
  happens in the same step.
\<close>

section \<open>State\<close>

datatype auth_role = RoleAdult | RoleChild

record auth_account =
  aa_id :: string
  aa_email :: string

record auth_household =
  hh_id :: string
  hh_name :: string

record auth_member =
  am_id :: string
  am_name :: string
  am_role :: auth_role

datatype auth_status = Loading | Unauthenticated | Authenticated

record me_response =
  me_account_id :: "string option"
  me_household_id :: "string option"
  me_member_id :: "string option"
  me_role :: string

record pin_response =
  pr_token :: string
  pr_member_id :: "string option"

text \<open>Who called \<open>hydrate\<close>, and where an operation waits.\<close>

datatype caller = ByMount | ByAcceptToken | ByRefresh | ByPinLogin "string option"

datatype pending =
    WaitPin
  | WaitMe caller
  | WaitHouseholds caller me_response

record auth_state =
  au_status :: auth_status
  au_account :: "auth_account option"
  au_household :: "auth_household option"
  au_member :: "auth_member option"
  au_token :: "string option"
  au_active :: "auth_member option"
  au_households :: "auth_household list"
  au_store :: storage
  au_pending :: "pending list"

definition initial_auth :: "storage \<Rightarrow> auth_state" where
  "initial_auth st =
     \<lparr>au_status = Loading, au_account = None, au_household = None, au_member = None, au_token = None,
      au_active = None, au_households = [], au_store = st, au_pending = []\<rparr>"

section \<open>Token storage\<close>

definition read_token :: "bool \<Rightarrow> storage \<Rightarrow> string option" where
  "read_token win st = (if \<not> win then None else try_get st token_key)"

definition persist_token :: "string \<Rightarrow> storage \<Rightarrow> storage" where
  "persist_token token st = try_set token_key token st"

definition clear_token :: "storage \<Rightarrow> storage" where
  "clear_token st = try_remove token_key st"

definition clear_session_state :: "auth_status \<Rightarrow> auth_state \<Rightarrow> auth_state" where
  "clear_session_state status s =
     s\<lparr>au_token := None, au_account := None, au_household := None, au_member := None,
       au_active := None, au_households := [], au_status := status\<rparr>"

definition drop_session :: "auth_state \<Rightarrow> auth_state" where
  "drop_session s = clear_session_state Unauthenticated (s\<lparr>au_store := clear_token (au_store s)\<rparr>)"

section \<open>Hydration\<close>

text \<open>What \<open>hydrate\<close> writes once both answers are in; \<open>households\<close> is empty when the second call failed.\<close>

definition known_households :: "auth_household list option \<Rightarrow> auth_household list" where
  "known_households answer =
     (case answer of None \<Rightarrow> [] | Some hs \<Rightarrow> filter (\<lambda>h. is_uuid (Some (hh_id h))) hs)"

definition choose_household :: "me_response \<Rightarrow> auth_household list \<Rightarrow> auth_household option" where
  "choose_household me households =
     (if is_uuid (me_household_id me) then
        Some \<lparr>hh_id = the (me_household_id me),
              hh_name = (case find (\<lambda>h. Some (hh_id h) = me_household_id me) households of
                           None \<Rightarrow> [] | Some h \<Rightarrow> hh_name h)\<rparr>
      else case households of [] \<Rightarrow> None | h # _ \<Rightarrow> Some h)"

definition hydrated_member :: "me_response \<Rightarrow> auth_member option" where
  "hydrated_member me =
     (if truthy (me_member_id me) then
        Some \<lparr>am_id = the (me_member_id me), am_name = [],
              am_role = (if me_role me = ''child'' then RoleChild else RoleAdult)\<rparr>
      else None)"

definition finish_hydrate :: "me_response \<Rightarrow> auth_household list option \<Rightarrow> auth_state \<Rightarrow> auth_state" where
  "finish_hydrate me answer s =
     (let households = known_households answer in
      s\<lparr>au_account := Some \<lparr>aa_id = the (me_account_id me), aa_email = []\<rparr>,
        au_household := choose_household me households,
        au_member := hydrated_member me, au_active := hydrated_member me,
        au_households := households, au_status := Authenticated\<rparr>)"

text \<open>What the caller does when its \<open>hydrate\<close> has returned \<open>ok\<close>.\<close>

fun after_hydrate :: "caller \<Rightarrow> bool \<Rightarrow> auth_state \<Rightarrow> auth_state" where
  "after_hydrate ByMount ok s = (if ok then s else drop_session s)"
| "after_hydrate ByAcceptToken ok s = (if ok then s else drop_session s)"
| "after_hydrate ByRefresh ok s = s"
| "after_hydrate (ByPinLogin mid) ok s =
     (if \<not> ok then drop_session s
      else if truthy mid then
        (let m = \<lparr>am_id = the mid, am_name = [], am_role = RoleChild\<rparr>
         in s\<lparr>au_member := Some (case au_member s of None \<Rightarrow> m | Some prev \<Rightarrow> prev\<lparr>am_id := the mid\<rparr>),
              au_active := Some m\<rparr>)
      else s)"

section \<open>Operations and answers\<close>

definition wait :: "pending \<Rightarrow> auth_state \<Rightarrow> auth_state" where
  "wait p s = s\<lparr>au_pending := au_pending s @ [p]\<rparr>"

definition on_mount :: "auth_state \<Rightarrow> auth_state" where
  "on_mount s =
     (let stored = read_token True (au_store s) in
      if \<not> truthy stored then clear_session_state Unauthenticated s
      else wait (WaitMe ByMount) (s\<lparr>au_token := stored\<rparr>))"

definition accept_token :: "string \<Rightarrow> auth_state \<Rightarrow> auth_state" where
  "accept_token idToken s =
     wait (WaitMe ByAcceptToken) (s\<lparr>au_store := persist_token idToken (au_store s), au_token := Some idToken\<rparr>)"

definition refresh :: "auth_state \<Rightarrow> auth_state" where
  "refresh s = wait (WaitMe ByRefresh) s"

definition pin_login :: "auth_state \<Rightarrow> auth_state" where
  "pin_login s = wait WaitPin s"

definition set_active_member :: "auth_member option \<Rightarrow> auth_state \<Rightarrow> auth_state" where
  "set_active_member m s = s\<lparr>au_active := m\<rparr>"

definition lock_kiosk :: "auth_state \<Rightarrow> auth_state" where
  "lock_kiosk s = s\<lparr>au_active := None\<rparr>"

definition logout :: "auth_state \<Rightarrow> auth_state" where
  "logout s = drop_session s"

text \<open>
  Answers to the \<open>i\<close>-th waiting operation; \<open>None\<close> is a rejected call. The body of \<^verbatim>\<open>/v1/auth/me\<close> is
  only inspected through \<open>account_id\<close>.
\<close>

definition remove_nth :: "nat \<Rightarrow> 'a list \<Rightarrow> 'a list" where
  "remove_nth i xs = take i xs @ drop (Suc i) xs"

definition answered :: "nat \<Rightarrow> auth_state \<Rightarrow> auth_state" where
  "answered i s = s\<lparr>au_pending := remove_nth i (au_pending s)\<rparr>"

definition pending_at :: "nat \<Rightarrow> auth_state \<Rightarrow> pending option" where
  "pending_at i s = (if i < length (au_pending s) then Some (au_pending s ! i) else None)"

definition pin_answer :: "nat \<Rightarrow> pin_response option \<Rightarrow> auth_state \<Rightarrow> auth_state" where
  "pin_answer i res s =
     (case pending_at i s of
        Some WaitPin \<Rightarrow>
          (case res of
             None \<Rightarrow> answered i s
           | Some r \<Rightarrow>
               wait (WaitMe (ByPinLogin (pr_member_id r)))
                 ((answered i s)\<lparr>au_store := persist_token (pr_token r) (au_store s),
                                 au_token := Some (pr_token r)\<rparr>))
      | _ \<Rightarrow> s)"

definition me_answer :: "nat \<Rightarrow> me_response option \<Rightarrow> auth_state \<Rightarrow> auth_state" where
  "me_answer i res s =
     (case pending_at i s of
        Some (WaitMe c) \<Rightarrow>
          (case res of
             None \<Rightarrow> after_hydrate c False (answered i s)
           | Some me \<Rightarrow>
               if \<not> truthy (me_account_id me) then after_hydrate c False (answered i s)
               else wait (WaitHouseholds c me) (answered i s))
      | _ \<Rightarrow> s)"

definition households_answer :: "nat \<Rightarrow> auth_household list option \<Rightarrow> auth_state \<Rightarrow> auth_state" where
  "households_answer i res s =
     (case pending_at i s of
        Some (WaitHouseholds c me) \<Rightarrow> after_hydrate c True (finish_hydrate me res (answered i s))
      | _ \<Rightarrow> s)"

datatype auth_event =
    Mount
  | AcceptToken string
  | Refresh
  | PinLogin
  | SetActive "auth_member option"
  | LockKiosk
  | Logout
  | PinAnswer nat "pin_response option"
  | MeAnswer nat "me_response option"
  | HouseholdsAnswer nat "auth_household list option"

fun auth_step :: "auth_event \<Rightarrow> auth_state \<Rightarrow> auth_state" where
  "auth_step Mount s = on_mount s"
| "auth_step (AcceptToken t) s = accept_token t s"
| "auth_step Refresh s = refresh s"
| "auth_step PinLogin s = pin_login s"
| "auth_step (SetActive m) s = set_active_member m s"
| "auth_step LockKiosk s = lock_kiosk s"
| "auth_step Logout s = logout s"
| "auth_step (PinAnswer i r) s = pin_answer i r s"
| "auth_step (MeAnswer i r) s = me_answer i r s"
| "auth_step (HouseholdsAnswer i r) s = households_answer i r s"

text \<open>The \<open>activeMember\<close> that the context exposes.\<close>

definition active_member :: "auth_state \<Rightarrow> auth_member option" where
  "active_member s = (case au_active s of None \<Rightarrow> au_member s | Some m \<Rightarrow> Some m)"

section \<open>The invariant\<close>

text \<open>
  A session is either fully absent or belongs to an account; households are always real ones; an
  operation that waits for its households has an account id in hand.
\<close>

definition pending_ok :: "pending \<Rightarrow> bool" where
  "pending_ok p \<longleftrightarrow> (case p of WaitHouseholds c me \<Rightarrow> truthy (me_account_id me) | _ \<Rightarrow> True)"

definition auth_inv :: "auth_state \<Rightarrow> bool" where
  "auth_inv s \<longleftrightarrow>
     (au_status s \<noteq> Authenticated \<longrightarrow>
        au_account s = None \<and> au_household s = None \<and> au_member s = None \<and> au_households s = []) \<and>
     (au_status s = Authenticated \<longrightarrow> (\<exists>a. au_account s = Some a \<and> aa_id a \<noteq> [])) \<and>
     (\<forall>h. au_household s = Some h \<longrightarrow> is_uuid (Some (hh_id h))) \<and>
     list_all (\<lambda>h. is_uuid (Some (hh_id h))) (au_households s) \<and>
     list_all pending_ok (au_pending s)"

lemma inv_dropped: "list_all pending_ok (au_pending s) \<Longrightarrow> auth_inv (drop_session s)"
  by (simp add: auth_inv_def drop_session_def clear_session_state_def)

lemma inv_wait: "auth_inv s \<Longrightarrow> pending_ok p \<Longrightarrow> auth_inv (wait p s)"
  by (simp add: auth_inv_def wait_def)

lemma list_all_remove_nth: "list_all P xs \<Longrightarrow> list_all P (remove_nth i xs)"
  by (auto simp: remove_nth_def list_all_iff dest: in_set_takeD in_set_dropD)

lemma inv_answered: "auth_inv s \<Longrightarrow> auth_inv (answered i s)"
  by (simp add: auth_inv_def answered_def list_all_remove_nth)

lemma known_households_uuid: "list_all (\<lambda>h. is_uuid (Some (hh_id h))) (known_households a)"
  by (auto simp: known_households_def list_all_iff split: option.splits)

lemma choose_household_uuid:
  assumes "list_all (\<lambda>h. is_uuid (Some (hh_id h))) hs" and "choose_household me hs = Some h"
  shows "is_uuid (Some (hh_id h))"
proof (cases "is_uuid (me_household_id me)")
  case True
  then obtain i where "me_household_id me = Some i" by (cases "me_household_id me") (auto simp: is_uuid_def)
  with True assms(2) show ?thesis by (auto simp: choose_household_def)
qed (use assms in \<open>auto simp: choose_household_def split: list.splits\<close>)

lemma inv_finish_hydrate:
  assumes "list_all pending_ok (au_pending s)" and "truthy (me_account_id me)"
  shows "auth_inv (finish_hydrate me a s)"
proof -
  have "the (me_account_id me) \<noteq> []" using assms(2) by (cases "me_account_id me") auto
  with assms show ?thesis
    using known_households_uuid choose_household_uuid[OF known_households_uuid]
    by (auto simp: auth_inv_def finish_hydrate_def Let_def)
qed

lemma inv_after_hydrate:
  assumes "auth_inv s" and "ok \<Longrightarrow> au_status s = Authenticated"
  shows "auth_inv (after_hydrate c ok s)"
proof -
  have "list_all pending_ok (au_pending s)" using assms(1) by (simp add: auth_inv_def)
  from inv_dropped[OF this] assms show ?thesis
    by (cases c) (auto simp: Let_def auth_inv_def)
qed

lemma auth_step_inv [step_inv]:
  assumes "auth_inv s"
  shows "auth_inv (auth_step e s)"
proof (cases e)
  case Mount
  with assms show ?thesis
    by (auto simp: on_mount_def Let_def clear_session_state_def auth_inv_def wait_def pending_ok_def)
next
  case (AcceptToken t)
  with assms show ?thesis by (auto simp: accept_token_def auth_inv_def wait_def pending_ok_def)
next
  case (PinAnswer i r)
  have "auth_inv (answered i s)" using assms by (rule inv_answered)
  then show ?thesis
    using assms PinAnswer
    by (auto simp: pin_answer_def auth_inv_def wait_def pending_ok_def split: option.splits pending.splits)
next
  case (MeAnswer i r)
  have "auth_inv (answered i s)" using assms by (rule inv_answered)
  then show ?thesis
    using assms MeAnswer
    by (auto simp: me_answer_def pending_ok_def intro!: inv_after_hydrate inv_wait
        split: option.splits pending.splits)
next
  case (HouseholdsAnswer i r)
  show ?thesis
  proof (cases "pending_at i s")
    case None
    with HouseholdsAnswer assms show ?thesis by (simp add: households_answer_def)
  next
    case (Some p)
    show ?thesis
    proof (cases p)
      case (WaitHouseholds c me)
      have "pending_ok p"
        using Some assms by (auto simp: pending_at_def auth_inv_def list_all_iff split: if_splits)
      then have "truthy (me_account_id me)" using WaitHouseholds by (simp add: pending_ok_def)
      moreover have "list_all pending_ok (au_pending (answered i s))"
        using inv_answered[OF assms] by (simp add: auth_inv_def)
      ultimately have "auth_inv (finish_hydrate me r (answered i s))" by (intro inv_finish_hydrate)
      then have "auth_inv (after_hydrate c True (finish_hydrate me r (answered i s)))"
        by (rule inv_after_hydrate) (simp add: finish_hydrate_def Let_def)
      with Some WaitHouseholds HouseholdsAnswer show ?thesis by (simp add: households_answer_def)
    qed (use Some assms HouseholdsAnswer in \<open>simp_all add: households_answer_def\<close>)
  qed
next
  case Logout
  have "list_all pending_ok (au_pending s)" using assms by (simp add: auth_inv_def)
  from inv_dropped[OF this] Logout show ?thesis by (simp add: logout_def)
qed (use assms in \<open>auto simp: refresh_def pin_login_def set_active_member_def lock_kiosk_def wait_def
      auth_inv_def pending_ok_def\<close>)

interpretation auth: machine auth_step "\<lambda>_. True" auth_inv
  by unfold_locales (rule step_inv)

lemma auth_inv_initial: "auth_inv (initial_auth st)"
  by (simp add: auth_inv_def initial_auth_def)

section \<open>Properties\<close>


definition demo_storage :: storage where
  "demo_storage = \<lparr>st_blocked = False, st_full = False, st_items = [token_key \<mapsto> ''tok'']\<rparr>"

definition demo_me :: me_response where
  "demo_me = \<lparr>me_account_id = Some ''a1'', me_household_id = Some ''current'', me_member_id = Some ''m1'',
     me_role = ''child''\<rparr>"

lemma demo_mount_run:
  "run auth_step [Mount, MeAnswer 0 (Some demo_me), HouseholdsAnswer 0 None] (initial_auth demo_storage) =
     \<lparr>au_status = Authenticated, au_account = Some \<lparr>aa_id = ''a1'', aa_email = []\<rparr>, au_household = None,
      au_member = Some \<lparr>am_id = ''m1'', am_name = [], am_role = RoleChild\<rparr>, au_token = Some ''tok'',
      au_active = Some \<lparr>am_id = ''m1'', am_name = [], am_role = RoleChild\<rparr>, au_households = [],
      au_store = demo_storage, au_pending = []\<rparr>"
  by (simp add: initial_auth_def on_mount_def Let_def read_token_def try_get_def get_item_def demo_storage_def
      wait_def me_answer_def pending_at_def demo_me_def answered_def remove_nth_def households_answer_def
      finish_hydrate_def known_households_def choose_household_def hydrated_member_def is_uuid_def)


text \<open>
  Restoring a session: with a stored token and two good answers the provider ends authenticated
  with the household of the account (or its first one), the member in the role the server states,
  and the token kept; with a rejected first answer it ends without session, and the token is gone
  from the state and from local storage.
\<close>

theorem mount_restores_session:
  assumes "try_get st token_key = Some t" and "t \<noteq> []"
    and "me_account_id me = Some a" and "a \<noteq> []"
  shows "(let good = run auth_step [Mount, MeAnswer 0 (Some me), HouseholdsAnswer 0 hs] (initial_auth st);
              bad = run auth_step [Mount, MeAnswer 0 None] (initial_auth st)
          in au_status good = Authenticated \<and> au_token good = Some t \<and> try_get (au_store good) token_key = Some t \<and>
             au_household good = choose_household me (known_households hs) \<and>
             au_member good = hydrated_member me \<and> active_member good = hydrated_member me \<and>
             au_status bad = Unauthenticated \<and> au_token bad = None \<and> try_get (au_store bad) token_key = None \<and>
             au_pending good = [] \<and> au_pending bad = [])"
  using assms
  by (simp add: initial_auth_def on_mount_def Let_def read_token_def wait_def me_answer_def pending_at_def
      answered_def remove_nth_def households_answer_def finish_hydrate_def active_member_def
      drop_session_def clear_session_state_def clear_token_def split: option.split)

theorem mount_restores_session_witness:
  "au_status (run auth_step [Mount, MeAnswer 0 None] (initial_auth demo_storage)) = Unauthenticated"
proof -
  have "try_get demo_storage token_key = Some ''tok''"
    by (simp add: try_get_def get_item_def demo_storage_def)
  then show ?thesis
    using mount_restores_session[of demo_storage "''tok''" demo_me "''a1''" None]
    by (simp add: Let_def demo_me_def del: run_simps)
qed

text \<open>
  Locking the kiosk does not lock it: while a member is signed in, the member that the context
  exposes as active is still one after \<^verbatim>\<open>lockKiosk\<close>, because the exposed value falls back to it.
\<close>

theorem lock_kiosk_keeps_active:
  assumes "au_member s = Some m"
  shows "active_member (auth_step LockKiosk s) = Some m"
  using assms by (simp add: active_member_def lock_kiosk_def)

theorem lock_kiosk_keeps_active_witness:
  "active_member (auth_step LockKiosk (run auth_step
     [Mount, MeAnswer 0 (Some demo_me), HouseholdsAnswer 0 None] (initial_auth demo_storage))) =
   Some \<lparr>am_id = ''m1'', am_name = [], am_role = RoleChild\<rparr>"
  by (rule lock_kiosk_keeps_active) (simp add: demo_mount_run del: run_simps)

text \<open>
  A refresh that is still waiting when the user logs out signs them in again: the late answers
  leave the provider authenticated, although there is no token in the state or in local storage.
\<close>

theorem logout_lost_to_pending_refresh:
  assumes "au_pending s = []" and "me_account_id me = Some a" and "a \<noteq> []"
  shows "(let t = run auth_step [Refresh, Logout, MeAnswer 0 (Some me), HouseholdsAnswer 0 hs] s
          in au_status t = Authenticated \<and> au_token t = None \<and> try_get (au_store t) token_key = None \<and>
             au_member t = hydrated_member me)"
  using assms
  by (simp add: refresh_def wait_def logout_def drop_session_def clear_session_state_def me_answer_def
      pending_at_def answered_def remove_nth_def households_answer_def finish_hydrate_def Let_def clear_token_def)

theorem logout_lost_to_pending_refresh_witness:
  "au_status (run auth_step [Refresh, Logout, MeAnswer 0 (Some demo_me), HouseholdsAnswer 0 None]
     (initial_auth demo_storage)) = Authenticated"
  using logout_lost_to_pending_refresh[of "initial_auth demo_storage" demo_me "''a1''" None]
  by (simp add: Let_def initial_auth_def demo_me_def del: run_simps)

text \<open>
  A kiosk login by PIN stores the member's token and, when the account can be loaded, makes that
  member active, always in the child role; when it cannot, no session and no token remain. A
  rejected PIN changes nothing.
\<close>

theorem pin_login_outcomes:
  assumes "au_pending s = []" and "storage_works (au_store s)" and "me_account_id me = Some a" and "a \<noteq> []"
    and "pr_member_id r = Some i" and "i \<noteq> []"
  shows "(let good = run auth_step [PinLogin, PinAnswer 0 (Some r), MeAnswer 0 (Some me), HouseholdsAnswer 0 hs] s;
              noctx = run auth_step [PinLogin, PinAnswer 0 (Some r), MeAnswer 0 None] s;
              refused = run auth_step [PinLogin, PinAnswer 0 None] s
          in au_status good = Authenticated \<and> au_token good = Some (pr_token r) \<and>
             try_get (au_store good) token_key = Some (pr_token r) \<and>
             active_member good = Some \<lparr>am_id = i, am_name = [], am_role = RoleChild\<rparr> \<and>
             map_option am_id (au_member good) = Some i \<and>
             au_status noctx = Unauthenticated \<and> au_token noctx = None \<and>
             try_get (au_store noctx) token_key = None \<and>
             refused = s)"
proof -
  have "au_pending_update (\<lambda>_. []) s = s" using assms(1) by (metis auth_state.surjective auth_state.update_convs(9))
  with assms show ?thesis
    by (simp add: pin_login_def wait_def pin_answer_def pending_at_def answered_def remove_nth_def
        me_answer_def households_answer_def finish_hydrate_def Let_def persist_token_def active_member_def
        drop_session_def clear_session_state_def clear_token_def split: option.split)
qed

theorem pin_login_outcomes_witness:
  "active_member (run auth_step [PinLogin, PinAnswer 0 (Some \<lparr>pr_token = ''t'', pr_member_id = Some ''m9''\<rparr>),
     MeAnswer 0 (Some demo_me), HouseholdsAnswer 0 None] (initial_auth demo_storage)) =
   Some \<lparr>am_id = ''m9'', am_name = [], am_role = RoleChild\<rparr>"
  using pin_login_outcomes[of "initial_auth demo_storage" demo_me "''a1''"
      "\<lparr>pr_token = ''t'', pr_member_id = Some ''m9''\<rparr>" "''m9''" None]
  by (simp add: Let_def initial_auth_def demo_me_def demo_storage_def storage_works_def del: run_simps)

end
