(* ===== verification/WsProvider.thy ===== *)
theory WsProvider
  imports HooksHome HooksChores AuthStore
begin

text \<open>
  The real-time connection, \<^verbatim>\<open>web/src/lib/ws/ws-provider.tsx\<close>: the socket address, what each frame
  invalidates, and the connection with its reconnect policy as a step relation between the
  effect, the socket's callbacks and the retry timer. Frames are compared with the query keys of
  the hooks.
\<close>

section \<open>The socket address\<close>

definition strip_slashes :: "string \<Rightarrow> string" where
  "strip_slashes s = rev (dropWhile (\<lambda>c. c = CHR ''/'') (rev s))"

definition replace_prefix :: "string \<Rightarrow> string \<Rightarrow> string \<Rightarrow> string" where
  "replace_prefix p q s = (if starts_with s p then q @ drop (length p) s else s)"

definition build_ws_url :: "bool \<Rightarrow> string \<Rightarrow> string \<Rightarrow> string option" where
  "build_ws_url win apiUrl token =
     (if \<not> win then None
      else if apiUrl = [] then None
      else (let base = strip_slashes apiUrl;
                wsBase = replace_prefix ''http://'' ''ws://'' (replace_prefix ''https://'' ''wss://'' base)
            in Some (wsBase @ ''/v1/ws?token='' @ encode_uri_component token)))"

section \<open>Frames\<close>

text \<open>The value of \<^verbatim>\<open>listId\<close>: a string, or null.\<close>

definition payload_list_id :: "jsval \<Rightarrow> string option" where
  "payload_list_id event =
     (case opt_prop (opt_prop event ''payload'') ''list_id'' of JStr s \<Rightarrow> Some s | _ \<Rightarrow> None)"

definition lists_keys :: "jsval \<Rightarrow> query_key list" where
  "lists_keys event =
     [JStr ''lists''] #
     (if truthy (payload_list_id event) then [[JStr ''lists'', JStr (the (payload_list_id event))]] else [])"

text \<open>The keys that a frame of type \<open>t\<close> invalidates, in the order of the source.\<close>

definition invalidated_keys :: "string \<Rightarrow> jsval \<Rightarrow> query_key list" where
  "invalidated_keys t event =
     (if starts_with t ''event.'' then [[JStr ''events'']]
      else if starts_with t ''list.item.'' \<or> t = ''list.item.toggled'' then lists_keys event
      else if starts_with t ''list.'' then lists_keys event
      else if starts_with t ''routine.'' then [[JStr ''routines'']]
      else if starts_with t ''shopping.'' then [[JStr ''shopping'']]
      else if starts_with t ''meal_plan.'' then [[JStr ''meal-plan'']]
      else if starts_with t ''recipe_collection.'' then [[JStr ''recipe-collections'']]
      else if starts_with t ''equity.'' then [[JStr ''equity'']]
      else [])"

text \<open>A type that is not a string has no \<^verbatim>\<open>startsWith\<close>: the handler raises, which is \<open>None\<close>.\<close>

definition handle_invalidation :: "jsval \<Rightarrow> query_key list option" where
  "handle_invalidation event =
     (case opt_prop event ''type'' of JStr t \<Rightarrow> Some (invalidated_keys t event) | _ \<Rightarrow> None)"

text \<open>
  A message: the new \<^verbatim>\<open>lastEvent\<close> and the invalidated keys. The event is stored before its type is
  looked at, so a JSON frame without a type is kept although nothing is invalidated.
\<close>

definition on_message :: "string \<Rightarrow> jsval option \<Rightarrow> jsval option \<times> query_key list" where
  "on_message data lastEvent =
     (case json_parse data of
        None \<Rightarrow> (lastEvent, [])
      | Some event \<Rightarrow> (Some event, case handle_invalidation event of None \<Rightarrow> [] | Some ks \<Rightarrow> ks))"

definition message_refreshes :: "string \<Rightarrow> query \<Rightarrow> bool" where
  "message_refreshes data q = list_ex (key_starts_with (qy_key q)) (snd (on_message data None))"

section \<open>The connection\<close>

datatype ws_status = WsConnecting | WsOpen | WsClosed | WsError | WsIdle

definition backoff_initial_ms :: int where "backoff_initial_ms = 1000"
definition backoff_max_ms :: int where "backoff_max_ms = 30000"

text \<open>
  \<open>wc_socket\<close>: a socket whose callbacks are installed; \<open>wc_timer\<close>: the delay of the running retry
  timer; \<open>wc_effect\<close>: the last run of the effect got as far as connecting, so that its cleanup runs
  before the next.
\<close>

record ws_conn =
  wc_status :: ws_status
  wc_socket :: bool
  wc_timer :: "int option"
  wc_backoff :: int
  wc_intentional :: bool
  wc_effect :: bool

definition ws_init :: ws_conn where
  "ws_init = \<lparr>wc_status = WsIdle, wc_socket = False, wc_timer = None, wc_backoff = backoff_initial_ms,
     wc_intentional = False, wc_effect = False\<rparr>"

definition schedule_retry :: "ws_conn \<Rightarrow> ws_conn" where
  "schedule_retry s =
     (if wc_intentional s then s
      else s\<lparr>wc_timer := Some (wc_backoff s), wc_backoff := min (wc_backoff s * 2) backoff_max_ms\<rparr>)"

text \<open>\<open>ok\<close>: the constructor of the socket did not raise.\<close>

definition connect :: "bool \<Rightarrow> ws_conn \<Rightarrow> ws_conn" where
  "connect ok s =
     (if wc_intentional s then s
      else if \<not> ok then schedule_retry (s\<lparr>wc_status := WsError\<rparr>)
      else s\<lparr>wc_socket := True, wc_status := WsConnecting\<rparr>)"

definition cleanup :: "ws_conn \<Rightarrow> ws_conn" where
  "cleanup s =
     (if wc_effect s then s\<lparr>wc_intentional := True, wc_timer := None, wc_socket := False, wc_effect := False\<rparr>
      else s)"

text \<open>
  The effect, given the session and the configured address. \<^verbatim>\<open>start_effect\<close> is its body; the cleanup
  of the previous run comes first.
\<close>

definition start_effect :: "bool \<Rightarrow> auth_state \<Rightarrow> string option \<Rightarrow> bool \<Rightarrow> ws_conn \<Rightarrow> ws_conn" where
  "start_effect win auth envUrl ok s =
     (if \<not> win then s
      else if au_status auth \<noteq> Authenticated \<or> \<not> truthy (au_token auth) \<or>
              \<not> truthy (map_option hh_id (au_household auth)) then s\<lparr>wc_status := WsIdle\<rparr>
      else (let apiUrl = (case envUrl of None \<Rightarrow> ''http://localhost:8080'' | Some u \<Rightarrow> u);
                wsUrl = build_ws_url win apiUrl (the (au_token auth))
            in if \<not> truthy wsUrl then s\<lparr>wc_status := WsIdle\<rparr>
               else connect ok (s\<lparr>wc_intentional := False, wc_effect := True\<rparr>)))"

definition socket_opened :: "ws_conn \<Rightarrow> ws_conn" where
  "socket_opened s = s\<lparr>wc_backoff := backoff_initial_ms, wc_status := WsOpen\<rparr>"

definition socket_error :: "ws_conn \<Rightarrow> ws_conn" where
  "socket_error s = s\<lparr>wc_status := WsError\<rparr>"

definition socket_closed :: "ws_conn \<Rightarrow> ws_conn" where
  "socket_closed s =
     (let t = s\<lparr>wc_socket := False\<rparr>
      in if \<not> wc_intentional t then schedule_retry (t\<lparr>wc_status := WsClosed\<rparr>) else t\<lparr>wc_status := WsIdle\<rparr>)"

definition timer_fired :: "bool \<Rightarrow> ws_conn \<Rightarrow> ws_conn" where
  "timer_fired ok s = connect ok (s\<lparr>wc_timer := None\<rparr>)"

text \<open>\<^verbatim>\<open>reconnect\<close> changes the references at once; the effect runs again with the next render.\<close>

definition manual_reset :: "ws_conn \<Rightarrow> ws_conn" where
  "manual_reset s = s\<lparr>wc_intentional := False, wc_backoff := backoff_initial_ms\<rparr>"

text \<open>
  What can happen. The effect runs again (after the cleanup of its previous run) when the session
  changes or the user has asked to reconnect; socket callbacks need an installed socket, the retry
  a timer.
\<close>

inductive ws_step :: "ws_conn \<Rightarrow> ws_conn \<Rightarrow> bool" where
  effect_run: "ws_step s (start_effect win auth envUrl ok (cleanup s))"
| manual: "ws_step s (manual_reset s)"
| opened: "wc_socket s \<Longrightarrow> ws_step s (socket_opened s)"
| failed: "wc_socket s \<Longrightarrow> ws_step s (socket_error s)"
| closed: "wc_socket s \<Longrightarrow> ws_step s (socket_closed s)"
| retry: "wc_timer s \<noteq> None \<Longrightarrow> ws_step s (timer_fired ok s)"
| unmount: "ws_step s (cleanup s)"

inductive_cases ws_stepE: "ws_step s t"

inductive ws_reachable :: "ws_conn \<Rightarrow> bool" where
  start: "ws_reachable ws_init"
| step: "ws_reachable s \<Longrightarrow> ws_step s t \<Longrightarrow> ws_reachable t"

definition ws_inv :: "ws_conn \<Rightarrow> bool" where
  "ws_inv s \<longleftrightarrow>
     \<not> (wc_socket s \<and> wc_timer s \<noteq> None) \<and>
     ((wc_socket s \<or> wc_timer s \<noteq> None) \<longleftrightarrow> wc_effect s) \<and>
     (wc_effect s \<longrightarrow> \<not> wc_intentional s) \<and>
     backoff_initial_ms \<le> wc_backoff s \<and> wc_backoff s \<le> backoff_max_ms \<and>
     (\<forall>d. wc_timer s = Some d \<longrightarrow> backoff_initial_ms \<le> d \<and> d \<le> backoff_max_ms)"

lemmas conn_defs = connect_def schedule_retry_def cleanup_def socket_opened_def
  socket_error_def socket_closed_def timer_fired_def manual_reset_def Let_def

lemmas backoff_defs = backoff_initial_ms_def backoff_max_ms_def

lemma ws_inv_connect:
  assumes "ws_inv s"
  shows "ws_inv (connect ok (cleanup s\<lparr>wc_intentional := False, wc_effect := True\<rparr>))"
  using assms by (auto simp: ws_inv_def conn_defs backoff_defs)

lemma ws_inv_ops:
  assumes "ws_inv s"
  shows "ws_inv (cleanup s)" "ws_inv (manual_reset s)" "ws_inv (s\<lparr>wc_status := x\<rparr>)"
    "wc_socket s \<Longrightarrow> ws_inv (socket_opened s)" "ws_inv (socket_error s)"
    "wc_socket s \<Longrightarrow> ws_inv (socket_closed s)" "wc_timer s \<noteq> None \<Longrightarrow> ws_inv (timer_fired ok s)"
  using assms by (auto simp: ws_inv_def conn_defs backoff_defs)

lemma ws_inv_step: "ws_step s t \<Longrightarrow> ws_inv s \<Longrightarrow> ws_inv t"
proof (induction rule: ws_step.induct)
  case (effect_run s win auth envUrl ok)
  then show ?case
    by (auto simp: start_effect_def Let_def intro: ws_inv_ops ws_inv_connect)
qed (auto intro: ws_inv_ops)

lemma ws_inv_reachable: "ws_reachable s \<Longrightarrow> ws_inv s"
proof (induction rule: ws_reachable.induct)
  case start
  show ?case by (simp add: ws_inv_def ws_init_def backoff_defs)
next
  case (step s t)
  then show ?case by (blast intro: ws_inv_step)
qed

text \<open>A server that is down: the timer fires, the socket is made, and closes without having opened.\<close>

definition failed_attempt :: "ws_conn \<Rightarrow> ws_conn" where
  "failed_attempt s = socket_closed (timer_fired True s)"

lemma failed_attempt_steps: "ws_reachable s \<Longrightarrow> wc_timer s \<noteq> None \<Longrightarrow> ws_reachable (failed_attempt s)"
proof -
  assume r: "ws_reachable s" and t: "wc_timer s \<noteq> None"
  from r t have "ws_reachable (timer_fired True s)" by (blast intro: ws_reachable.step ws_step.retry)
  moreover have "wc_effect s" "\<not> wc_intentional s" using ws_inv_reachable[OF r] t by (auto simp: ws_inv_def)
  then have "wc_socket (timer_fired True s)" by (simp add: conn_defs)
  ultimately show ?thesis unfolding failed_attempt_def by (blast intro: ws_reachable.step ws_step.closed)
qed

lemma failed_attempt_backoff:
  assumes "\<not> wc_intentional s"
  shows "wc_timer (failed_attempt s) = Some (wc_backoff s) \<and>
    wc_backoff (failed_attempt s) = min (wc_backoff s * 2) backoff_max_ms \<and>
    \<not> wc_intentional (failed_attempt s)"
  using assms by (simp add: failed_attempt_def conn_defs)

lemma failed_attempts_backoff:
  assumes "\<not> wc_intentional s" and "wc_backoff s = backoff_initial_ms"
  shows "wc_backoff ((failed_attempt ^^ n) s) = min (backoff_initial_ms * 2 ^ n) backoff_max_ms \<and>
    \<not> wc_intentional ((failed_attempt ^^ n) s)"
proof (induction n)
  case 0
  with assms show ?case by (simp add: backoff_defs)
next
  case (Suc n)
  with failed_attempt_backoff[of "(failed_attempt ^^ n) s"] show ?case
    by (auto simp: backoff_defs min_def)
qed

section \<open>Properties\<close>

text \<open>
  C21. In every reachable state there is at most one connection in the making: a socket or a retry
  timer, never both, exactly one of them while the effect is active, and none after its cleanup;
  every delay lies between one and thirty seconds.
\<close>

theorem single_connection:
  assumes "ws_reachable s"
  shows "\<not> (wc_socket s \<and> wc_timer s \<noteq> None) \<and>
    (wc_effect s \<longleftrightarrow> wc_socket s \<or> wc_timer s \<noteq> None) \<and>
    (\<forall>d. wc_timer s = Some d \<longrightarrow> 1000 \<le> d \<and> d \<le> 30000) \<and>
    \<not> wc_socket (cleanup s) \<and> wc_timer (cleanup s) = None"
  using ws_inv_reachable[OF assms] by (auto simp: ws_inv_def backoff_defs cleanup_def)

definition demo_session :: auth_state where
  "demo_session = (initial_auth demo_storage)\<lparr>au_status := Authenticated,
     au_token := Some ''t'', au_household := Some \<lparr>hh_id = ''h'', hh_name = ''Home''\<rparr>\<rparr>"

definition first_try :: ws_conn where
  "first_try = start_effect True demo_session None True (cleanup ws_init)"

lemma first_try_reachable: "ws_reachable first_try"
  unfolding first_try_def by (rule ws_reachable.step[OF ws_reachable.start ws_step.effect_run])

lemma first_try_value: "first_try = ws_init\<lparr>wc_status := WsConnecting, wc_socket := True, wc_effect := True\<rparr>"
  by (simp add: first_try_def start_effect_def demo_session_def initial_auth_def build_ws_url_def ws_init_def
      conn_defs)

theorem single_connection_witness: "\<not> wc_socket (cleanup first_try) \<and> wc_timer (cleanup first_try) = None"
  using single_connection[OF first_try_reachable] by blast


definition waiting :: ws_conn where
  "waiting = manual_reset (socket_closed first_try)"

lemma waiting_reachable: "ws_reachable waiting"
  unfolding waiting_def
  by (rule ws_reachable.step[OF ws_reachable.step[OF first_try_reachable ws_step.closed] ws_step.manual])
    (simp add: first_try_value)


text \<open>
  The socket address: the secure scheme of the API stays secure, surplus slashes at its end are
  dropped, and the token travels as one encoded value that decodes to the token and cannot end the
  query, whatever characters it holds.
\<close>

theorem socket_address:
  assumes "host \<noteq> []" and "last host \<noteq> CHR ''/''" and "set slashes \<subseteq> {CHR ''/''}"
  shows "build_ws_url True (''https://'' @ host @ slashes) token =
      Some (''wss://'' @ host @ ''/v1/ws?token='' @ encode_uri_component token) \<and>
    build_ws_url True (''http://'' @ host @ slashes) token =
      Some (''ws://'' @ host @ ''/v1/ws?token='' @ encode_uri_component token) \<and>
    percent_decode (encode_uri_component token) = token \<and>
    set (encode_uri_component token) \<inter> path_special = {}"
proof -
  have "dropWhile (\<lambda>c. c = CHR ''/'') (rev slashes @ ys) = dropWhile (\<lambda>c. c = CHR ''/'') ys" for ys
    using assms(3) by (intro dropWhile_append2) auto
  moreover have "dropWhile (\<lambda>c. c = CHR ''/'') (rev host @ ys) = rev host @ ys" for ys
    using assms(1,2) by (cases "rev host") (auto simp: last_rev hd_rev[symmetric] rev_swap)
  ultimately have "strip_slashes (p @ host @ slashes) = p @ host" for p
    by (simp add: strip_slashes_def)
  from this[of "''https://''"] this[of "''http://''"] show ?thesis
    using decode_encode_uri[of token] encode_uri_component_chars[of token]
    by (simp add: build_ws_url_def Let_def replace_prefix_def starts_with_def)
qed

theorem socket_address_witness:
  "build_ws_url True ''https://tidy.example//'' ''a&b'' = Some ''wss://tidy.example/v1/ws?token=a%26b''"
proof -
  have "encode_uri_component ''a&b'' = ''a%26b''" by code_simp
  with socket_address[of "''tidy.example''" "''//''" "''a&b''"] show ?thesis by simp
qed

end
