(* ===== verification/HooksProps.thy ===== *)
theory HooksProps
  imports HooksHome HooksChores
begin

text \<open>
  Properties that span the hooks: which writes refresh which reads, what a read may deliver, how
  untrusted text travels in addresses, and the polling of an import job.
\<close>

section \<open>Lemmas\<close>

lemma refreshes_list [simp]:
  "refreshes \<lparr>mu_call = c, mu_invalidates = ks\<rparr> q = list_ex (key_starts_with (qy_key q)) ks"
  by (simp add: refreshes_def)

lemma live_not_refreshed:
  assumes "list_all (\<lambda>p. \<exists>s r. p = JStr s # r \<and> s \<noteq> ''live-only'') (mu_invalidates m)"
  shows "\<not> refreshes m (plain_query (live_key k) c)"
  using assms by (auto simp: refreshes_def list_ex_iff list_all_iff dest!: bspec key_starts_live)

lemma stale_iff_refreshes:
  assumes "query_client invalidate stale"
  shows "stale (fold invalidate (mu_invalidates m) c) (qy_key q) \<longleftrightarrow> stale c (qy_key q) \<or> refreshes m q"
  using query_client.stale_fold[OF assms] by (auto simp: refreshes_def list_ex_iff)

lemmas hook_defs = use_create_event_def use_update_event_def use_set_event_def use_delete_event_def
  use_sync_ical_def use_create_list_def use_add_list_item_def use_toggle_list_item_def
  use_delete_list_item_def use_create_member_def use_update_member_def use_delete_member_def
  use_create_routine_def use_mark_step_complete_def use_unmark_step_def routine_mutation_def
  use_import_recipe_def

lemmas event_hook_defs = use_create_event_def use_update_event_def use_set_event_def
  use_delete_event_def use_sync_ical_def use_events_def use_live_event_def

lemma run_query_value:
  assumes "run_query base token net q = Some (Inr v)"
  shows "qy_enabled q \<and> (qy_call q = Resolved v \<or>
    (\<exists>r. net (build_request base token (call_method (qy_call q)) (call_path (qy_call q)) (call_body (qy_call q))) = Some r \<and>
       resp_ok r \<and> (if rs_status r = 204 then v = JUndef else resp_json r = Some v)))"
proof -
  have e: "qy_enabled q" and p: "perform base token net (qy_call q) = Inr v"
    using assms by (auto simp: run_query_def split: if_splits)
  show ?thesis
  proof (cases "is_resolved (qy_call q)")
    case True
    with e p show ?thesis by (cases "qy_call q") simp_all
  next
    case False
    with p have "request base token net (call_method (qy_call q)) (call_path (qy_call q)) (call_body (qy_call q)) = Inr v"
      by (simp add: perform_request)
    with e show ?thesis
      by (auto simp: request_def answer_of_def Let_def split: option.splits if_splits)
  qed
qed

lemma import_interval_bounds:
  "import_refetch_interval data n = Some ms \<Longrightarrow> 2000 \<le> ms \<and> ms \<le> 30000"
proof -
  have "(1 :: int) \<le> 2 ^ k" for k by simp
  then show "import_refetch_interval data n = Some ms \<Longrightarrow> ?thesis"
    by (auto simp: import_refetch_interval_def min_def split: if_splits)
qed

lemma set_params:
  "params_opt k v ps = (if truthy v then params_set k (the v) ps else ps)"
  by (cases v) (auto simp: params_opt_def)

lemma suffix_parse: "params_parse (drop 1 (params_suffix ps)) = ps"
  using params_parse_str[of ps] by (auto simp: params_suffix_def params_parse_def)

text \<open>Optional fields as pairs of a key and a value that may be undefined.\<close>

definition ofield :: "string \<Rightarrow> jsval \<Rightarrow> jsobj" where
  "ofield k v = (if v = JUndef then [] else [(k, v)])"

definition rate_value :: "rat option option \<Rightarrow> jsval" where
  "rate_value x = (case x of None \<Rightarrow> JUndef | Some None \<Rightarrow> JNull | Some (Some n) \<Rightarrow> JNum n)"

definition ofields :: "jsobj \<Rightarrow> jsobj" where
  "ofields kvs = concat (map (\<lambda>(k, v). ofield k v) kvs)"

lemma ofield_alt: "defined_field k x = ofield k (opt_str x)" "rate_field k r = ofield k (rate_value r)"
  by (auto simp: defined_field_def rate_field_def ofield_def rate_value_def opt_str_def split: option.splits)

lemma ofields_keys: "fst ` set (ofields kvs) \<subseteq> fst ` set kvs"
  by (auto simp: ofields_def ofield_def image_iff split: if_splits)

lemma ofields_get:
  "distinct (map fst kvs) \<Longrightarrow>
     jget (ofields kvs) k = (case map_of kvs k of None \<Rightarrow> JUndef | Some v \<Rightarrow> v)"
proof (induction kvs)
  case Nil
  then show ?case by (simp add: ofields_def jget_def)
next
  case (Cons kv kvs)
  obtain k0 v0 where kv: "kv = (k0, v0)" by force
  have s: "ofields (kv # kvs) = ofield k0 v0 @ ofields kvs" by (simp add: ofields_def kv)
  show ?case
  proof (cases "k = k0")
    case True
    then have "k \<notin> fst ` set (ofields kvs)" using Cons.prems ofields_keys[of kvs] by (auto simp: kv)
    then have "map_of (rev (ofields kvs)) k = None" by (simp add: map_of_eq_None_iff)
    with True show ?thesis unfolding s by (simp add: kv jget_def ofield_def map_add_def)
  next
    case False
    then have "jget (ofield k0 v0 @ ofields kvs) k = jget (ofields kvs) k"
      by (simp add: jget_def ofield_def map_add_def split: option.split)
    with False Cons show ?thesis unfolding s by (simp add: kv)
  qed
qed

definition member_fields :: "member_patch \<Rightarrow> jsobj" where
  "member_fields p =
     [(''name'', opt_str (mp_name p)), (''display_name'', opt_str (mp_display_name p)),
      (''color'', opt_str (mp_color p)), (''role'', opt_str (mp_role p)),
      (''age_group'', opt_str (mp_age_group p)), (''pin'', opt_str (mp_pin p)),
      (''hourly_rate_cents_min'', rate_value (mp_rate_min p)),
      (''hourly_rate_cents_max'', rate_value (mp_rate_max p))]"

lemma update_member_body:
  "call_body (mu_call (use_update_member h m p)) = JObj (ofields (member_fields p))"
  by (simp add: use_update_member_def ofield_alt ofields_def member_fields_def)

section \<open>Properties\<close>



text \<open>
  The live variants are cut off from every write: their keys start with \<^verbatim>\<open>live-only\<close>, which no
  write of events, lists, members, routines or recipes invalidates, so a screen that reads through
  them keeps what it loaded until it fetches again for another reason.
\<close>

theorem live_reads_not_refreshed:
  assumes "query_client invalidate stale" and "\<not> stale c (qy_key q)"
    and "q \<in> {use_live_events opts, use_live_lists, use_live_members, use_live_routines params, use_live_recipes}"
    and "m \<in> {use_create_event req, use_update_event i req, use_delete_event i, use_set_event req,
      use_sync_ical cal a b, use_create_list nm k, use_add_list_item li txt, use_toggle_list_item li it fl,
      use_delete_list_item li it, use_create_member h nm dn col rl ag pin, use_update_member h mem patch,
      use_delete_member h mem, use_create_routine req, use_mark_step_complete r req,
      use_unmark_step r it, use_import_recipe url}"
  shows "\<not> stale (fold invalidate (mu_invalidates m) c) (qy_key q)"
proof -
  have "list_all (\<lambda>p. \<exists>s r. p = JStr s # r \<and> s \<noteq> ''live-only'') (mu_invalidates m)"
    using assms(4) by (auto simp: hook_defs qk_defs)
  then have "\<not> refreshes m (plain_query (live_key k) cl)" for k cl by (rule live_not_refreshed)
  moreover have "\<exists>k cl. q = plain_query (live_key k) cl"
    using assms(3)
    by (auto simp: use_live_events_def use_live_lists_def use_live_members_def use_live_routines_def
        use_live_recipes_def)
  ultimately have "\<not> refreshes m q" by auto
  then show ?thesis using assms(2) by (simp add: stale_iff_refreshes[OF assms(1)])
qed

theorem live_reads_not_refreshed_witness:
  "\<not> prefix_stale (fold prefix_invalidate (mu_invalidates (use_delete_event ''e'')) [])
     (qy_key (use_live_events None))"
  by (rule live_reads_not_refreshed[OF prefix_client.query_client_axioms, where opts = None and i = "''e''"])
    (simp_all add: prefix_stale_def)

text \<open>
  C18. No made-up data: whatever a query delivers came from the server, as the JSON body (or the
  204) of a successful answer to the very request of that query. The only value without an answer
  is the undefined of an event query without an id, and that query is never enabled.
\<close>

theorem reads_deliver_server_data:
  assumes "run_query base token net q = Some (Inr v)"
    and "q \<in> {use_events opts, use_live_events opts, use_live_event i, use_members, use_live_members,
      use_recipes, use_recipe rid, use_lists, use_list lid, use_routines params, use_equity period, use_race,
      use_audit lmt ofs filters, use_chores mid, use_chore_completions from to mid, use_wallet now mid,
      use_points_balance mid, use_scoreboard, use_rewards act, use_redemptions mid st, use_timeline mid lo2 oo2}"
  shows "\<exists>r. net (build_request base token ''GET'' (call_path (qy_call q)) JUndef) = Some r \<and>
    200 \<le> rs_status r \<and> rs_status r \<le> 299 \<and>
    (if rs_status r = 204 then v = JUndef else json_parse (rs_body r) = Some v)"
proof -
  have g: "\<exists>p. qy_call q = ApiGet p"
  proof -
    have "qy_enabled q" using run_query_value[OF assms(1)] by simp
    then show ?thesis
      using assms(2)
      by (auto simp: use_events_def use_live_events_def use_live_event_def use_members_def
          use_live_members_def use_recipes_def use_recipe_def use_lists_def use_list_def use_routines_def
          use_equity_def use_race_def use_audit_def use_chores_def use_chore_completions_def use_wallet_def
          use_points_balance_def use_scoreboard_def use_rewards_def use_redemptions_def use_timeline_def
          with_fallback_def without_sample_fallback_def events_call_def members_call_def routines_call_def
          Let_def split: if_splits)
  qed
  with run_query_value[OF assms(1)] show ?thesis by (auto simp: resp_ok_def resp_json_def)
qed

definition demo_answer :: http_response where
  "demo_answer = \<lparr>rs_status = 200, rs_status_text = ''OK'', rs_headers = [], rs_body = json_str (JArr [])\<rparr>"

theorem reads_deliver_server_data_witness:
  "\<exists>r. (\<lambda>_. Some demo_answer) (build_request ''http://h'' None ''GET'' (call_path (qy_call use_members)) JUndef) = Some r \<and>
     200 \<le> rs_status r \<and> rs_status r \<le> 299 \<and>
     (if rs_status r = 204 then JArr [] = JUndef else json_parse (rs_body r) = Some (JArr []))"
proof (rule reads_deliver_server_data)
  have "json_parse (json_str (JArr [])) = Some (JArr [])" by (rule parse_json_str) simp
  then show "run_query ''http://h'' None (\<lambda>_. Some demo_answer) use_members = Some (Inr (JArr []))"
    by (simp add: run_query_def use_members_def with_fallback_def members_call_def request_def answer_of_def
        demo_answer_def resp_ok_def resp_json_def Let_def del: json_str.simps)
qed simp

text \<open>
  Untrusted text stays in its place: an invite code travels as one path segment that the server
  decodes to the code itself, and the filters of the audit log arrive as exactly the parameters
  that were set, whatever characters they hold.
\<close>

theorem untrusted_text_in_addresses:
  "split_on (CHR ''/'') (call_path (mu_call (use_request_join code))) =
     [[], ''v1'', ''households'', ''by-code'', encode_uri_component code, ''join''] \<and>
   percent_decode (encode_uri_component code) = code \<and>
   set (encode_uri_component code) \<inter> path_special = {} \<and>
   call_path (qy_call (use_audit lmt ofs filters)) = ''/v1/audit?'' @ params_str (audit_params lmt ofs filters) \<and>
   params_parse (params_str (audit_params lmt ofs filters)) = audit_params lmt ofs filters"
proof -
  have "CHR ''/'' \<notin> set (encode_uri_component code)"
    using encode_uri_component_chars[of code] by (auto simp: path_special_def)
  then have "split_on (CHR ''/'') (call_path (mu_call (use_request_join code))) =
      [[], ''v1'', ''households'', ''by-code'', encode_uri_component code, ''join'']"
    by (simp add: use_request_join_def split_on_append split_on_none)
  then show ?thesis
    using decode_encode_uri[of code] encode_uri_component_chars[of code]
      params_parse_str[of "audit_params lmt ofs filters"]
    by (simp add: use_audit_def with_fallback_def)
qed

text \<open>
  Polling an import job stops exactly when the job has succeeded or failed; until then the
  interval lies between two and thirty seconds, doubles with each further transport failure until
  it reaches the cap, and never shrinks as failures accumulate.
\<close>

theorem import_polling:
  "(import_refetch_interval data n = None \<longleftrightarrow>
      (\<exists>j. data = Some j \<and> ij_status j \<noteq> Running)) \<and>
   (\<forall>ms. import_refetch_interval data n = Some ms \<longrightarrow> 2000 \<le> ms \<and> ms \<le> 30000 \<and>
      (\<exists>ms'. import_refetch_interval data (Suc n) = Some ms' \<and> ms \<le> ms' \<and>
         (0 < n \<longrightarrow> ms' = min (2 * ms) 30000)))"
proof -
  have st: "s \<noteq> Running \<longleftrightarrow> s = Succeeded \<or> s = Failed" for s by (cases s) simp_all
  have p: "(2000 :: int) * 2 ^ n = 2 * (2000 * 2 ^ (n - 1))" if "0 < n" for n
    using that by (cases n) simp_all
  have "import_refetch_interval data n = None \<longleftrightarrow> (\<exists>j. data = Some j \<and> ij_status j \<noteq> Running)"
    by (auto simp: import_refetch_interval_def st split: option.splits)
  moreover have "\<exists>ms'. import_refetch_interval data (Suc n) = Some ms' \<and> ms \<le> ms' \<and>
      (0 < n \<longrightarrow> ms' = min (2 * ms) 30000)" if "import_refetch_interval data n = Some ms" for ms
    using that p[of n] by (auto simp: import_refetch_interval_def min_def split: if_splits)
  ultimately show ?thesis using import_interval_bounds by blast
qed

theorem import_polling_witness:
  "import_refetch_interval None 3 = Some 8000 \<and> import_refetch_interval None 4 = Some 16000"
  using import_polling[of None 3] by (simp add: import_refetch_interval_def)

text \<open>
  An enabled household query asks for a well-formed id: the id has the thirty-six characters
  of a UUID, so the address it forms has no further segment, query or fragment; anything else
  leaves the query disabled and nothing is sent.
\<close>

theorem household_query_needs_uuid:
  "(qy_enabled (use_household h) \<longrightarrow>
      (\<exists>s. h = Some s \<and> length s = 36 \<and> set s \<inter> path_special = {} \<and>
         qy_call (use_household h) = ApiGet (''/v1/households/'' @ s))) \<and>
   (\<not> is_uuid h \<longrightarrow> run_query base token net (use_household h) = None)"
proof -
  have join: "length s + 1 = sum_list (map length (split_on d s)) + length (split_on d s)" for d s
    by (induction s rule: split_on.induct) (auto simp: split_on_nonempty split: list.splits)
  have chars: "set s \<subseteq> insert d (\<Union> (set ` set (split_on d s)))" for d s
    using set_join[of "[d]" "split_on d s"] by (simp add: join_split_on)
  have hex: "c \<notin> path_special" if "is_hex c \<or> c = CHR ''-''" for c
    using that by (auto simp: is_hex_def path_special_def is_digit_def code_of_def)
  have "\<exists>s. h = Some s \<and> length s = 36 \<and> set s \<inter> path_special = {}" if uuid: "is_uuid h"
  proof -
    obtain s where h: "h = Some s" using uuid by (cases h) (simp_all add: is_uuid_def)
    then have s: "h = Some s" "map length (split_on (CHR ''-'') s) = [8, 4, 4, 4, 12]"
      "list_all (list_all is_hex) (split_on (CHR ''-'') s)"
      using uuid by (simp_all only: is_uuid_def option.case)
    have "length (split_on (CHR ''-'') s) = 5" using arg_cong[OF s(2), of length] by simp
    with join[of s "CHR ''-''"] s(2) have "length s = 36" by simp
    moreover have "\<forall>c \<in> set s. is_hex c \<or> c = CHR ''-''"
      using chars[of s "CHR ''-''"] s(3) by (fastforce simp: list_all_iff)
    ultimately show ?thesis using s(1) hex by auto
  qed
  then show ?thesis by (auto simp: use_household_def run_query_def tmpl_def disjoint_iff)
qed

theorem household_query_needs_uuid_witness:
  "run_query ''http://h'' None (\<lambda>_. None) (use_household (Some ''current'')) = None"
  using household_query_needs_uuid[of "Some ''current''"] by (simp add: is_uuid_def)

text \<open>
  A member update sends what the caller gave and nothing else: a field left undefined is absent
  from the request, a rate set to null is sent as null, and a rate set to a number is sent as it is.
\<close>

theorem member_update_fields:
  "(let ob = (case call_body (mu_call (use_update_member h m p)) of JObj fs \<Rightarrow> fs | _ \<Rightarrow> []) in
     jget ob ''name'' = opt_str (mp_name p) \<and> jget ob ''display_name'' = opt_str (mp_display_name p) \<and>
     jget ob ''color'' = opt_str (mp_color p) \<and> jget ob ''role'' = opt_str (mp_role p) \<and>
     jget ob ''age_group'' = opt_str (mp_age_group p) \<and> jget ob ''pin'' = opt_str (mp_pin p) \<and>
     jget ob ''hourly_rate_cents_min'' =
       rate_value (mp_rate_min p) \<and>
     jget ob ''hourly_rate_cents_max'' =
       rate_value (mp_rate_max p) \<and>
     JUndef \<notin> snd ` set ob)"
proof -
  have d: "distinct (map fst (member_fields p))" by (simp add: member_fields_def)
  have "JUndef \<notin> snd ` set (ofields (member_fields p))"
    by (auto simp: ofields_def ofield_def split: if_splits)
  then show ?thesis
    unfolding Let_def update_member_body jsval.case ofields_get[OF d]
    by (simp add: member_fields_def)
qed

end
