(* ===== verification/MealPlan.thy ===== *)
theory MealPlan
  imports HooksCore
begin

text \<open>
  The meal plan: the week grid built from the server's flat entries and its hooks in
  \<^verbatim>\<open>web/src/lib/api/hooks.ts\<close>, and the weekly grid of \<^verbatim>\<open>web/src/components/screens/recipes.tsx\<close>
  with its optimistic local copy. Dates go through the civil calendar; \<open>loc\<close> is the browser's
  offset, which only matters for strings that carry a time without a zone. \<open>None\<close> is the
  RangeError of \<^verbatim>\<open>toISOString\<close> on an invalid date. Field and slot names are looked up as own
  properties.
\<close>

section \<open>Data\<close>

record meal_plan_entry =
  mpe_id :: string
  mpe_household_id :: string
  mpe_recipe_id :: "string option"
  mpe_date :: string
  mpe_slot :: string
  mpe_serving_multiplier :: "rat option"
  mpe_batch_quantity :: "rat option"
  mpe_planned_leftovers :: "rat option"
  mpe_created_at :: string
  mpe_updated_at :: string

record entry_meta =
  em_id :: string
  em_serving_multiplier :: "rat option"
  em_batch_quantity :: "rat option"
  em_planned_leftovers :: "rat option"

type_synonym meal_grid = "string option list list"

record meal_plan =
  ml_week_of :: string
  ml_rows :: "string list"
  ml_grid :: meal_grid
  ml_entry_ids :: "(string \<rightharpoonup> entry_meta) option"

definition meal_plan_rows :: "string list" where
  "meal_plan_rows = [''Breakfast'', ''Lunch'', ''Dinner'', ''Snack'']"

definition slot_names :: "string list" where
  "slot_names = [''breakfast'', ''lunch'', ''dinner'', ''snack'']"

definition slot_to_row_idx :: "string \<rightharpoonup> nat" where
  "slot_to_row_idx = [''breakfast'' \<mapsto> 0, ''lunch'' \<mapsto> 1, ''dinner'' \<mapsto> 2, ''snack'' \<mapsto> 3]"

section \<open>Weeks\<close>

definition week_monday :: "int \<Rightarrow> string option" where
  "week_monday t =
     (let day = utc_day (day_of_ms t);
          diff = (if day = 0 then -6 else 1 - day)
      in map_option iso_date (add_utc_days diff t))"

text \<open>The date \<open>k\<close> days after a date string; also \<^verbatim>\<open>colDate\<close> of the grid.\<close>

definition col_date :: "(int \<Rightarrow> int) \<Rightarrow> string \<Rightarrow> int \<Rightarrow> string option" where
  "col_date loc weekOf colIdx =
     (case date_parse loc weekOf of
        None \<Rightarrow> None
      | Some t \<Rightarrow> map_option iso_date (add_utc_days colIdx t))"

definition day_index :: "(int \<Rightarrow> int) \<Rightarrow> string \<Rightarrow> (string \<rightharpoonup> nat) option" where
  "day_index loc weekOf =
     fold (\<lambda>i acc. case acc of
             None \<Rightarrow> None
           | Some m \<Rightarrow> (case col_date loc weekOf (int i) of None \<Rightarrow> None | Some d \<Rightarrow> Some (m(d \<mapsto> i))))
       [0..<7] (Some Map.empty)"

definition empty_grid :: meal_grid where
  "empty_grid = replicate 4 (replicate 7 None)"

definition entry_key :: "string \<Rightarrow> string \<Rightarrow> string" where
  "entry_key date slot = date @ ''|'' @ slot"

definition place_entry ::
  "(string \<rightharpoonup> nat) \<Rightarrow> meal_plan_entry \<Rightarrow> meal_grid \<times> (string \<rightharpoonup> entry_meta) \<Rightarrow> meal_grid \<times> (string \<rightharpoonup> entry_meta)" where
  "place_entry dayIndex e acc =
     (case (slot_to_row_idx (mpe_slot e), dayIndex (mpe_date e)) of
        (Some rowIdx, Some colIdx) \<Rightarrow>
          if truthy (mpe_recipe_id e) then
            ((fst acc)[rowIdx := (fst acc ! rowIdx)[colIdx := mpe_recipe_id e]],
             (snd acc)(entry_key (mpe_date e) (mpe_slot e) \<mapsto>
               \<lparr>em_id = mpe_id e, em_serving_multiplier = mpe_serving_multiplier e,
                em_batch_quantity = mpe_batch_quantity e,
                em_planned_leftovers = mpe_planned_leftovers e\<rparr>))
          else acc
      | _ \<Rightarrow> acc)"

definition entries_to_meal_plan :: "(int \<Rightarrow> int) \<Rightarrow> meal_plan_entry list \<Rightarrow> string \<Rightarrow> meal_plan option" where
  "entries_to_meal_plan loc entries from =
     (case date_parse loc from of
        None \<Rightarrow> None
      | Some t \<Rightarrow> (case week_monday t of
          None \<Rightarrow> None
        | Some weekOf \<Rightarrow> (case day_index loc weekOf of
            None \<Rightarrow> None
          | Some dayIndex \<Rightarrow>
              (let filled = fold (place_entry dayIndex) entries (empty_grid, Map.empty)
               in Some \<lparr>ml_week_of = weekOf, ml_rows = meal_plan_rows, ml_grid = fst filled,
                        ml_entry_ids = Some (snd filled)\<rparr>))))"

definition empty_meal_plan :: "(int \<Rightarrow> int) \<Rightarrow> string \<Rightarrow> meal_plan option" where
  "empty_meal_plan loc from =
     (case date_parse loc from of
        None \<Rightarrow> None
      | Some t \<Rightarrow> map_option (\<lambda>w. \<lparr>ml_week_of = w, ml_rows = meal_plan_rows, ml_grid = empty_grid,
                                   ml_entry_ids = Some Map.empty\<rparr>) (week_monday t))"

section \<open>Hooks\<close>

text \<open>A hook whose answer is converted: the query and the conversion of the entries it delivers.\<close>

definition meal_plan_call :: "string \<Rightarrow> string \<Rightarrow> api_call" where
  "meal_plan_call from to =
     ApiGet (''/v1/meal-plan?from='' @ encode_uri_component from @ ''&to='' @ encode_uri_component to)"

definition meal_plan_from :: "int \<Rightarrow> string option \<Rightarrow> string option" where
  "meal_plan_from now weekOf = (case weekOf of None \<Rightarrow> week_monday now | Some w \<Rightarrow> Some w)"

definition use_meal_plan ::
  "(int \<Rightarrow> int) \<Rightarrow> int \<Rightarrow> string option \<Rightarrow> (query \<times> (meal_plan_entry list \<Rightarrow> meal_plan option)) option" where
  "use_meal_plan loc now weekOf =
     (case meal_plan_from now weekOf of
        None \<Rightarrow> None
      | Some from \<Rightarrow> map_option (\<lambda>to.
          (plain_query (qk_meal_plan (Some from)) (with_fallback (meal_plan_call from to) JUndef),
           \<lambda>entries. entries_to_meal_plan loc entries from)) (col_date loc from 6))"

definition use_live_meal_plan ::
  "(int \<Rightarrow> int) \<Rightarrow> int \<Rightarrow> string option \<Rightarrow> (query \<times> (meal_plan_entry list \<Rightarrow> meal_plan option)) option" where
  "use_live_meal_plan loc now weekOf =
     (case meal_plan_from now weekOf of
        None \<Rightarrow> None
      | Some from \<Rightarrow> map_option (\<lambda>to.
          (plain_query (live_key (qk_meal_plan (Some from)))
             (without_sample_fallback (meal_plan_call from to) JUndef),
           \<lambda>entries. entries_to_meal_plan loc entries from)) (col_date loc from 6))"

definition use_upsert_meal_plan_entry ::
  "string \<Rightarrow> string \<Rightarrow> string option \<Rightarrow> rat option \<Rightarrow> rat option \<Rightarrow> rat option \<Rightarrow> mutation" where
  "use_upsert_meal_plan_entry date slot recipeId serving_multiplier batch_quantity planned_leftovers =
     \<lparr>mu_call = ApiPost ''/v1/meal-plan''
        (JObj ([(''date'', JStr date), (''slot'', JStr slot)] @ truthy_field ''recipe_id'' recipeId @
               defined_num ''serving_multiplier'' serving_multiplier @
               defined_num ''batch_quantity'' batch_quantity @
               defined_num ''planned_leftovers'' planned_leftovers)),
      mu_invalidates = [[JStr ''mealPlan'']]\<rparr>"

definition use_delete_meal_plan_entry :: "string \<Rightarrow> mutation" where
  "use_delete_meal_plan_entry i =
     \<lparr>mu_call = ApiDelete (''/v1/meal-plan/'' @ i), mu_invalidates = [[JStr ''mealPlan'']]\<rparr>"

section \<open>The week grid\<close>

lemma day_of_ms_add: "day_of_ms (t + k * ms_per_day) = day_of_ms t + k"
  by (simp add: day_of_ms_def ms_per_day_def)

lemma time_clip_day:
  assumes "four_digit_day (day_of_ms t)"
  shows "time_clip t = Some t"
proof -
  have "t = day_of_ms t * 86400000 + t mod 86400000" "0 \<le> t mod 86400000" "t mod 86400000 < 86400000"
    by (simp_all add: day_of_ms_def ms_per_day_def)
  with assms show ?thesis unfolding four_digit_day_def time_clip_def by auto
qed

lemma add_days_iso:
  assumes "four_digit_day (day_of_ms t + k)"
  shows "map_option iso_date (add_utc_days k t) = Some (iso_ymd (day_of_ms t + k))"
  using assms time_clip_day[of "t + k * ms_per_day"] iso_date_eq[of "t + k * ms_per_day"]
    four_digit_year[OF assms]
  by (simp add: add_utc_days_def day_of_ms_add)

text \<open>The Monday of the week of day \<open>n\<close>, as a day number.\<close>

definition monday_of :: "int \<Rightarrow> int" where
  "monday_of n = n - (utc_day n + 6) mod 7"

lemma monday_of_props: "utc_day (monday_of n) = 1" "monday_of n \<le> n" "n \<le> monday_of n + 6"
proof -
  have "(n - (n + 4 + 6) mod 7 + 4) mod 7 = 1" by presburger
  then show "utc_day (monday_of n) = 1" by (simp add: monday_of_def utc_day_def mod_simps)
qed (simp_all add: monday_of_def)

lemma monday_diff: "(if utc_day n = 0 then -6 else 1 - utc_day n) = monday_of n - n"
proof -
  have "(u + 6) mod 7 = (if u = 0 then 6 else u - 1)" if "0 \<le> u" "u < 7" for u :: int
    using that by presburger
  from this[OF utc_day_range[of n]] show ?thesis by (simp add: monday_of_def)
qed

definition calm_week :: "int \<Rightarrow> bool" where
  "calm_week n \<longleftrightarrow> four_digit_day (n - 6) \<and> four_digit_day (n + 6)"

lemma calm_day: "calm_week n \<Longrightarrow> 0 \<le> k \<Longrightarrow> k \<le> 6 \<Longrightarrow> four_digit_day (monday_of n + k)"
  using monday_of_props(2,3)[of n] by (auto simp: calm_week_def four_digit_day_def)

lemma week_monday_value:
  assumes "calm_week (day_of_ms t)"
  shows "week_monday t = Some (iso_ymd (monday_of (day_of_ms t)))"
  using add_days_iso[of t "monday_of (day_of_ms t) - day_of_ms t"] calm_day[OF assms, of 0]
  by (simp add: week_monday_def Let_def monday_diff)

lemma parse_iso_day:
  assumes "four_digit_day n"
  shows "date_parse loc (iso_ymd n) = Some (n * ms_per_day)"
  using parse_iso_four_digit[OF assms assms] iso_ymd_length[OF four_digit_year[OF assms]]
  by (simp add: date_parse_def)

lemma day_of_midnight [simp]: "day_of_ms (n * ms_per_day) = n"
  by (simp add: day_of_ms_def ms_per_day_def)

lemma col_date_value:
  assumes "four_digit_day n" and "four_digit_day (n + k)"
  shows "col_date loc (iso_ymd n) k = Some (iso_ymd (n + k))"
  using add_days_iso[of "n * ms_per_day" k] assms by (simp add: col_date_def parse_iso_day)

lemma iso_ymd_inj:
  assumes "four_digit_day a" and "four_digit_day b" and "iso_ymd a = iso_ymd b"
  shows "a = b"
proof -
  have "Some a = parse_ymd (iso_ymd a)" using parse_iso_four_digit[OF assms(1,1)] by (rule sym)
  also have "\<dots> = parse_ymd (iso_ymd b)" by (simp only: assms(3))
  also have "\<dots> = Some b" by (rule parse_iso_four_digit[OF assms(2,2)])
  finally show ?thesis by (simp only: option.inject)
qed

lemma day_index_fold:
  assumes "\<And>i. i < k \<Longrightarrow> col_date loc w (int i) = Some (f i)"
  shows "fold (\<lambda>i acc. case acc of
             None \<Rightarrow> None
           | Some m \<Rightarrow> (case col_date loc w (int i) of None \<Rightarrow> None | Some d \<Rightarrow> Some (m(d \<mapsto> i))))
       [0..<k] (Some Map.empty) = Some (fold (\<lambda>i m. m(f i \<mapsto> i)) [0..<k] Map.empty)"
  using assms by (induction k) auto

lemma index_map_value:
  assumes "inj_on f {..<k}"
  shows "fold (\<lambda>i m. m(f i \<mapsto> i)) [0..<k] Map.empty d = Some c \<longleftrightarrow> c < k \<and> d = f c"
  using assms
proof (induction k)
  case 0
  then show ?case by simp
next
  case (Suc k)
  then have "inj_on f {..<k}" by (auto intro: inj_on_subset)
  note IH = Suc.IH[OF this]
  have ne: "f c \<noteq> f k" if "c < k" for c using inj_onD[OF Suc.prems, of c k] that by auto
  show ?case
  proof (cases "d = f k")
    case True
    with ne[THEN not_sym] show ?thesis by (auto simp: less_Suc_eq)
  next
    case False
    with IH show ?thesis by (auto simp: less_Suc_eq)
  qed
qed

lemma day_index_value:
  assumes "calm_week n"
  shows "\<exists>dayIndex. day_index loc (iso_ymd (monday_of n)) = Some dayIndex \<and>
    (\<forall>d c. dayIndex d = Some c \<longleftrightarrow> c < 7 \<and> d = iso_ymd (monday_of n + int c))"
proof -
  have d: "four_digit_day (monday_of n + int i)" if "i < 7" for i
    using calm_day[OF assms, of "int i"] that by simp
  have "col_date loc (iso_ymd (monday_of n)) (int i) = Some (iso_ymd (monday_of n + int i))" if "i < 7" for i
    using col_date_value[of "monday_of n" "int i"] d[of i] d[of 0] that by simp
  note v = day_index_fold[of 7 loc "iso_ymd (monday_of n)" "\<lambda>i. iso_ymd (monday_of n + int i)", OF this]
  have "inj_on (\<lambda>i. iso_ymd (monday_of n + int i)) {..<7}"
    by (rule inj_onI) (use iso_ymd_inj[OF d d] in fastforce)
  from index_map_value[OF this] v show ?thesis unfolding day_index_def by blast
qed

section \<open>Filling the grid\<close>

definition grid_shape :: "meal_grid \<Rightarrow> bool" where
  "grid_shape g \<longleftrightarrow> length g = 4 \<and> (\<forall>row \<in> set g. length row = 7)"

lemma slot_row: "slot_to_row_idx s = Some r \<longleftrightarrow> r < 4 \<and> s = slot_names ! r"
proof -
  have "slot_to_row_idx s = Some r" if "r < 4" "s = slot_names ! r"
  proof -
    from that(1) have "r \<in> {0, 1, 2, 3}" by auto
    then show ?thesis unfolding that(2)
      by (elim insertE emptyE) (simp_all add: slot_to_row_idx_def slot_names_def)
  qed
  moreover have "slot_to_row_idx s = Some r \<Longrightarrow> r < 4 \<and> s = slot_names ! r"
    by (auto simp: slot_to_row_idx_def slot_names_def split: if_splits)
  ultimately show ?thesis by blast
qed

definition places :: "(string \<rightharpoonup> nat) \<Rightarrow> nat \<Rightarrow> nat \<Rightarrow> meal_plan_entry \<Rightarrow> bool" where
  "places dayIndex r c e \<longleftrightarrow>
     mpe_slot e = slot_names ! r \<and> dayIndex (mpe_date e) = Some c \<and> truthy (mpe_recipe_id e)"

lemma slot_names_inj: "r < 4 \<Longrightarrow> r' < 4 \<Longrightarrow> slot_names ! r = slot_names ! r' \<Longrightarrow> r = r'"
  by (metis slot_row option.inject)

lemma grid_shape_update:
  assumes "grid_shape g" and "r' < 4"
  shows "grid_shape (g[r' := (g ! r')[c' := v]])"
    and "r < 4 \<Longrightarrow> c < 7 \<Longrightarrow> (g[r' := (g ! r')[c' := v]]) ! r ! c = (if r = r' \<and> c = c' then v else g ! r ! c)"
proof -
  have l: "length g = 4" "length (g ! k) = 7" if "k < 4" for k
    using assms(1) that by (simp_all add: grid_shape_def)
  have "set (g[r' := (g ! r')[c' := v]]) \<subseteq> insert ((g ! r')[c' := v]) (set g)"
    by (rule set_update_subset_insert)
  with assms l[of r'] show "grid_shape (g[r' := (g ! r')[c' := v]])" by (auto simp: grid_shape_def)
  assume "r < 4" "c < 7"
  with l(2)[of r] l(1)[of 0] show "(g[r' := (g ! r')[c' := v]]) ! r ! c = (if r = r' \<and> c = c' then v else g ! r ! c)"
    by (cases "r = r'") (simp_all add: nth_list_update)
qed

text \<open>The cell of the last entry placed there.\<close>

definition last_placed :: "(meal_plan_entry \<Rightarrow> bool) \<Rightarrow> meal_plan_entry list \<Rightarrow> meal_plan_entry option" where
  "last_placed P entries = (let es = filter P entries in if es = [] then None else Some (last es))"

lemma last_placed_snoc:
  "last_placed P (es @ [e]) = (if P e then Some e else last_placed P es)"
  by (simp add: last_placed_def Let_def)

lemma place_entry_cell:
  assumes "grid_shape (fst acc)" and "\<And>d c. dayIndex d = Some c \<Longrightarrow> c < 7"
  shows "grid_shape (fst (place_entry dayIndex e acc))"
    and "\<lbrakk> r < 4; c < 7 \<rbrakk> \<Longrightarrow> fst (place_entry dayIndex e acc) ! r ! c =
      (if places dayIndex r c e then mpe_recipe_id e else fst acc ! r ! c)"
proof -
  show "grid_shape (fst (place_entry dayIndex e acc))"
    using assms by (auto simp: place_entry_def slot_row intro: grid_shape_update split: option.splits)
  assume rc: "r < 4" "c < 7"
  have "slot_to_row_idx (slot_names ! r) = Some r" using rc by (simp add: slot_row)
  then have p: "places dayIndex r c e \<longleftrightarrow>
      slot_to_row_idx (mpe_slot e) = Some r \<and> dayIndex (mpe_date e) = Some c \<and> truthy (mpe_recipe_id e)"
    by (auto simp: places_def slot_row)
  show "fst (place_entry dayIndex e acc) ! r ! c =
      (if places dayIndex r c e then mpe_recipe_id e else fst acc ! r ! c)"
  proof (cases "slot_to_row_idx (mpe_slot e)")
    case None
    then show ?thesis by (simp add: place_entry_def p)
  next
    case (Some r')
    then have "r' < 4" by (simp add: slot_row)
    from grid_shape_update(2)[OF assms(1) this rc] Some show ?thesis
      by (cases "dayIndex (mpe_date e)") (auto simp: place_entry_def p)
  qed
qed

lemma filled_cells:
  assumes "\<And>d c. dayIndex d = Some c \<Longrightarrow> c < 7"
  shows "grid_shape (fst (fold (place_entry dayIndex) entries (empty_grid, m))) \<and>
    (\<forall>r < 4. \<forall>c < 7. fst (fold (place_entry dayIndex) entries (empty_grid, m)) ! r ! c =
       Option.bind (last_placed (places dayIndex r c) entries) mpe_recipe_id)"
proof (induction entries rule: rev_induct)
  case Nil
  show ?case by (auto simp: grid_shape_def empty_grid_def last_placed_def Let_def)
next
  case (snoc e entries)
  let ?acc = "fold (place_entry dayIndex) entries (empty_grid, m)"
  from snoc have sh: "grid_shape (fst ?acc)" by blast
  show ?case
    using place_entry_cell[where e = e, OF sh assms] snoc by (simp add: last_placed_snoc)
qed

definition meta_of :: "meal_plan_entry \<Rightarrow> entry_meta" where
  "meta_of e = \<lparr>em_id = mpe_id e, em_serving_multiplier = mpe_serving_multiplier e,
     em_batch_quantity = mpe_batch_quantity e, em_planned_leftovers = mpe_planned_leftovers e\<rparr>"

lemma filled_ids:
  assumes "\<And>d c. dayIndex d = Some c \<Longrightarrow> length d = 10" and "r < 4" and "dayIndex d = Some c"
    and inj: "\<And>d' d'' c. \<lbrakk> dayIndex d' = Some c; dayIndex d'' = Some c \<rbrakk> \<Longrightarrow> d' = d''"
  shows "snd (fold (place_entry dayIndex) entries (g, Map.empty)) (entry_key d (slot_names ! r)) =
    map_option meta_of (last_placed (places dayIndex r c) entries)"
proof (induction entries rule: rev_induct)
  case Nil
  show ?case by (simp add: last_placed_def Let_def)
next
  case (snoc e entries)
  have slot: "slot_to_row_idx (slot_names ! r) = Some r" using assms(2) by (simp add: slot_row)
  have key: "entry_key (mpe_date e) (mpe_slot e) = entry_key d (slot_names ! r) \<longleftrightarrow>
      mpe_date e = d \<and> mpe_slot e = slot_names ! r" if "dayIndex (mpe_date e) = Some c'" for c'
    using assms(1)[OF that] assms(1)[OF assms(3)] by (auto simp: entry_key_def)
  show ?case
  proof (cases "places dayIndex r c e")
    case True
    then have "mpe_date e = d" using inj assms(3) by (auto simp: places_def)
    with True slot show ?thesis by (simp add: places_def place_entry_def last_placed_snoc meta_of_def)
  next
    case False
    have "snd (place_entry dayIndex e acc) (entry_key d (slot_names ! r)) = snd acc (entry_key d (slot_names ! r))"
      for acc
    proof (cases "dayIndex (mpe_date e)")
      case None
      then show ?thesis by (simp add: place_entry_def split: option.split)
    next
      case (Some c')
      have "entry_key (mpe_date e) (mpe_slot e) \<noteq> entry_key d (slot_names ! r) \<or> \<not> truthy (mpe_recipe_id e)"
        using False key[OF Some] assms(3) by (auto simp: places_def)
      then show ?thesis by (auto simp: place_entry_def Some split: option.split)
    qed
    with snoc False show ?thesis by (simp add: last_placed_snoc)
  qed
qed

section \<open>The grid of a week\<close>

text \<open>The entry shown in a cell: the last one for that slot and day with a recipe.\<close>

definition cell_entry :: "int \<Rightarrow> nat \<Rightarrow> nat \<Rightarrow> meal_plan_entry list \<Rightarrow> meal_plan_entry option" where
  "cell_entry monday r c =
     last_placed (\<lambda>e. mpe_slot e = slot_names ! r \<and> mpe_date e = iso_ymd (monday + int c) \<and>
        truthy (mpe_recipe_id e))"

lemma entries_to_meal_plan_cells:
  assumes "date_parse loc from = Some t" and "calm_week (day_of_ms t)"
  shows "\<exists>mp ids. entries_to_meal_plan loc entries from = Some mp \<and>
    ml_week_of mp = iso_ymd (monday_of (day_of_ms t)) \<and> grid_shape (ml_grid mp) \<and>
    ml_entry_ids mp = Some ids \<and>
    (\<forall>r < 4. \<forall>c < 7.
       ml_grid mp ! r ! c = Option.bind (cell_entry (monday_of (day_of_ms t)) r c entries) mpe_recipe_id \<and>
       ids (entry_key (iso_ymd (monday_of (day_of_ms t) + int c)) (slot_names ! r)) =
         map_option meta_of (cell_entry (monday_of (day_of_ms t)) r c entries))"
proof -
  let ?m = "monday_of (day_of_ms t)"
  from day_index_value[OF assms(2), of loc] obtain dayIndex where
    d: "day_index loc (iso_ymd ?m) = Some dayIndex"
      "\<And>d c. dayIndex d = Some c \<longleftrightarrow> c < 7 \<and> d = iso_ymd (?m + int c)" by blast
  have len: "length (iso_ymd (?m + int c)) = 10" if "c < 7" for c
    by (rule iso_ymd_length) (rule four_digit_year, rule calm_day[OF assms(2)], use that in simp_all)+
  have p: "places dayIndex r c = (\<lambda>e. mpe_slot e = slot_names ! r \<and> mpe_date e = iso_ymd (?m + int c) \<and>
      truthy (mpe_recipe_id e))" if "c < 7" for r c
    using that by (auto simp: places_def d(2) fun_eq_iff)
  let ?f = "fold (place_entry dayIndex) entries (empty_grid, Map.empty)"
  have "entries_to_meal_plan loc entries from = Some \<lparr>ml_week_of = iso_ymd ?m, ml_rows = meal_plan_rows,
      ml_grid = fst ?f, ml_entry_ids = Some (snd ?f)\<rparr>"
    by (simp add: entries_to_meal_plan_def assms(1) week_monday_value[OF assms(2)] d(1) Let_def)
  moreover have "grid_shape (fst ?f) \<and> (\<forall>r < 4. \<forall>c < 7. fst ?f ! r ! c =
      Option.bind (cell_entry ?m r c entries) mpe_recipe_id)"
    using filled_cells[of dayIndex entries Map.empty] by (simp add: d(2) p cell_entry_def)
  moreover have "snd ?f (entry_key (iso_ymd (?m + int c)) (slot_names ! r)) =
      map_option meta_of (cell_entry ?m r c entries)" if "r < 4" "c < 7" for r c
    using filled_ids[of dayIndex r "iso_ymd (?m + int c)" c entries empty_grid] that len
    by (simp add: d(2) cell_entry_def p)
  ultimately show ?thesis by simp
qed

section \<open>The weekly screen\<close>

record meal_slot =
  sl_row :: nat
  sl_col :: nat
  sl_date :: string
  sl_meal :: string

text \<open>\<open>ui_calls\<close>: the mutations sent so far, in order.\<close>

record meal_ui =
  ui_local :: meal_grid
  ui_picker :: "meal_slot option"
  ui_edit :: "meal_slot option"
  ui_seeded :: "string option"
  ui_error :: "api_failure option"
  ui_calls :: "mutation list"

definition initial_meal_ui :: meal_ui where
  "initial_meal_ui = \<lparr>ui_local = [], ui_picker = None, ui_edit = None, ui_seeded = None, ui_error = None,
     ui_calls = []\<rparr>"

text \<open>Reading \<^verbatim>\<open>g[r]?.[c] ?? null\<close> and writing a cell; a hole reads as an empty row or cell.\<close>

definition grid_cell :: "meal_grid \<Rightarrow> nat \<Rightarrow> nat \<Rightarrow> string option" where
  "grid_cell g r c = (if r < length g \<and> c < length (g ! r) then g ! r ! c else None)"

definition js_write :: "'a \<Rightarrow> 'a list \<Rightarrow> nat \<Rightarrow> 'a \<Rightarrow> 'a list" where
  "js_write hole xs i v = (if i < length xs then xs[i := v] else xs @ replicate (i - length xs) hole @ [v])"

definition write_cell :: "nat \<Rightarrow> nat \<Rightarrow> string option \<Rightarrow> meal_grid \<Rightarrow> meal_grid" where
  "write_cell r c v g =
     js_write [] g r (js_write None (if r < length g then g ! r else []) c v)"

definition row_slot :: "nat \<Rightarrow> string" where
  "row_slot r = (if r < length slot_names then slot_names ! r else ''dinner'')"

definition display_grid :: "meal_plan option \<Rightarrow> meal_ui \<Rightarrow> meal_grid" where
  "display_grid mp u =
     (if ui_local u \<noteq> [] then ui_local u else (case mp of None \<Rightarrow> [] | Some m \<Rightarrow> ml_grid m))"

text \<open>Rendering seeds the local grid once per week.\<close>

definition seed_grid :: "meal_plan option \<Rightarrow> meal_ui \<Rightarrow> meal_ui" where
  "seed_grid mp u =
     (case mp of
        None \<Rightarrow> u
      | Some m \<Rightarrow> if ui_seeded u \<noteq> Some (ml_week_of m)
                  then u\<lparr>ui_seeded := Some (ml_week_of m), ui_local := ml_grid m\<rparr> else u)"

definition open_picker :: "meal_plan option \<Rightarrow> meal_slot \<Rightarrow> meal_ui \<Rightarrow> meal_ui" where
  "open_picker mp s u =
     (if truthy (grid_cell (display_grid mp u) (sl_row s) (sl_col s)) then u\<lparr>ui_edit := Some s\<rparr>
      else u\<lparr>ui_picker := Some s\<rparr>)"

definition send :: "mutation \<Rightarrow> meal_ui \<Rightarrow> meal_ui" where
  "send m u = u\<lparr>ui_error := None, ui_calls := ui_calls u @ [m]\<rparr>"

definition mutation_failed :: "api_failure \<Rightarrow> meal_ui \<Rightarrow> meal_ui" where
  "mutation_failed err u = u\<lparr>ui_error := Some err\<rparr>"

definition handle_edit_save :: "meal_plan option \<Rightarrow> rat \<Rightarrow> rat \<Rightarrow> rat \<Rightarrow> meal_ui \<Rightarrow> meal_ui" where
  "handle_edit_save mp multiplier batch leftovers u =
     (case (ui_edit u, mp) of
        (Some s, Some m) \<Rightarrow>
          (send (use_upsert_meal_plan_entry (sl_date s) (row_slot (sl_row s))
                   (grid_cell (display_grid mp u) (sl_row s) (sl_col s))
                   (Some multiplier) (Some batch) (Some leftovers)) u)\<lparr>ui_edit := None\<rparr>
      | _ \<Rightarrow> u)"

definition entry_meta_at :: "meal_plan \<Rightarrow> meal_slot \<Rightarrow> entry_meta option" where
  "entry_meta_at m s =
     (case ml_entry_ids m of None \<Rightarrow> None | Some ids \<Rightarrow> ids (entry_key (sl_date s) (row_slot (sl_row s))))"

definition handle_edit_delete :: "meal_plan option \<Rightarrow> meal_ui \<Rightarrow> meal_ui" where
  "handle_edit_delete mp u =
     (case (ui_edit u, mp) of
        (Some s, Some m) \<Rightarrow>
          (let v = (case entry_meta_at m s of
                      Some meta \<Rightarrow> if em_id meta \<noteq> [] then send (use_delete_meal_plan_entry (em_id meta)) u else u
                    | None \<Rightarrow> u)
           in v\<lparr>ui_local := write_cell (sl_row s) (sl_col s) None (display_grid mp u), ui_edit := None\<rparr>)
      | _ \<Rightarrow> u)"

text \<open>When the date cannot be computed the handler raises after it has changed the local grid.\<close>

definition pick_recipe :: "(int \<Rightarrow> int) \<Rightarrow> meal_plan option \<Rightarrow> string \<Rightarrow> meal_ui \<Rightarrow> meal_ui" where
  "pick_recipe loc mp recipeId u =
     (case (ui_picker u, mp) of
        (Some s, Some m) \<Rightarrow>
          (let v = u\<lparr>ui_local := write_cell (sl_row s) (sl_col s) (Some recipeId) (ui_local u)\<rparr>
           in case col_date loc (ml_week_of m) (int (sl_col s)) of
                None \<Rightarrow> v
              | Some date \<Rightarrow>
                  (send (use_upsert_meal_plan_entry date (row_slot (sl_row s)) (Some recipeId) None None None) v)
                    \<lparr>ui_picker := None\<rparr>)
      | _ \<Rightarrow> u)"

definition clear_slot :: "nat \<Rightarrow> nat \<Rightarrow> meal_ui \<Rightarrow> meal_ui" where
  "clear_slot r c u = u\<lparr>ui_local := write_cell r c None (ui_local u)\<rparr>"

text \<open>
  Copying last week: one upsert per filled cell, in row order, each awaited; \<open>answers i\<close> tells
  whether the \<open>i\<close>-th one succeeds. A date that cannot be computed raises like a failed call.
\<close>

definition last_week_of :: "(int \<Rightarrow> int) \<Rightarrow> meal_plan option \<Rightarrow> string option option" where
  "last_week_of loc mp =
     (case mp of
        None \<Rightarrow> Some None
      | Some m \<Rightarrow> if ml_week_of m = [] then Some None else map_option Some (col_date loc (ml_week_of m) (-7)))"

definition copy_requests ::
  "(int \<Rightarrow> int) \<Rightarrow> string \<Rightarrow> meal_grid \<Rightarrow> (string option \<times> string \<times> string) list" where
  "copy_requests loc weekOf grid =
     concat (map (\<lambda>ri. concat (map (\<lambda>ci.
        if truthy (grid ! ri ! ci)
        then [(col_date loc weekOf (int ci), row_slot ri, the (grid ! ri ! ci))] else [])
       [0..<length (grid ! ri)])) [0..<length grid])"

fun send_copies :: "(nat \<Rightarrow> bool) \<Rightarrow> nat \<Rightarrow> (string option \<times> string \<times> string) list \<Rightarrow> mutation list \<times> bool" where
  "send_copies answers i [] = ([], True)"
| "send_copies answers i ((None, slot, rid) # reqs) = ([], False)"
| "send_copies answers i ((Some date, slot, rid) # reqs) =
     (let m = use_upsert_meal_plan_entry date slot (Some rid) None None None
      in if answers i then (let r = send_copies answers (Suc i) reqs in (m # fst r, snd r)) else ([m], False))"

definition handle_copy_last_week ::
  "(int \<Rightarrow> int) \<Rightarrow> (nat \<Rightarrow> bool) \<Rightarrow> meal_plan option \<Rightarrow> meal_plan option \<Rightarrow> meal_ui \<Rightarrow> meal_ui \<times> bool option" where
  "handle_copy_last_week loc answers mp lastWeek u =
     (case (mp, lastWeek) of
        (Some m, Some l) \<Rightarrow>
          if ml_week_of m = [] then (u, None)
          else (let r = send_copies answers 0 (copy_requests loc (ml_week_of m) (ml_grid l))
                in (u\<lparr>ui_calls := ui_calls u @ fst r\<rparr>, Some (snd r)))
      | _ \<Rightarrow> (u, None))"

section \<open>Lemmas\<close>

lemma last_placed_Some: "last_placed P es = Some e \<Longrightarrow> e \<in> set es \<and> P e"
  by (auto simp: last_placed_def Let_def split: if_splits dest!: last_in_set)

lemma last_placed_None: "last_placed P es = None \<longleftrightarrow> (\<forall>e \<in> set es. \<not> P e)"
  by (auto simp: last_placed_def Let_def filter_empty_conv)

lemma cell_entry_snoc:
  assumes "mpe_slot e = slot_names ! r" "mpe_date e = iso_ymd (monday + int c)" "truthy (mpe_recipe_id e)"
  shows "cell_entry monday r c (es @ [e]) = Some e"
  using assms by (simp add: cell_entry_def last_placed_snoc)

lemma row_slot_value: "r < 4 \<Longrightarrow> row_slot r = slot_names ! r"
  by (simp add: row_slot_def slot_names_def)

lemma bex_grid:
  fixes k :: "nat \<Rightarrow> nat"
  assumes "\<And>r. r < 4 \<Longrightarrow> k r = 7" and "\<And>r c. \<lbrakk> r < 4; c < 7 \<rbrakk> \<Longrightarrow> Q r c = Q' r c"
  shows "(\<exists>r \<in> {0..<4}. \<exists>c \<in> {0..<k r}. Q r c) \<longleftrightarrow> (\<exists>r c. r < 4 \<and> c < 7 \<and> Q' r c)"
proof -
  have "(\<exists>r \<in> {0..<4}. \<exists>c \<in> {0..<k r}. Q r c) \<longleftrightarrow> (\<exists>r < 4. \<exists>c < 7. Q r c)"
    using assms(1) by (auto simp: Bex_def)
  then show ?thesis using assms(2) by blast
qed

lemma copy_requests_set:
  assumes "grid_shape g" and "calm_week n"
  shows "x \<in> set (copy_requests loc (iso_ymd (monday_of n)) g) \<longleftrightarrow>
    (\<exists>r c. r < 4 \<and> c < 7 \<and> truthy (g ! r ! c) \<and>
       x = (Some (iso_ymd (monday_of n + int c)), slot_names ! r, the (g ! r ! c)))"
proof -
  have d: "col_date loc (iso_ymd (monday_of n)) (int c) = Some (iso_ymd (monday_of n + int c))" if "c < 7" for c
    using col_date_value[of "monday_of n" "int c"] calm_day[OF assms(2), of "int c"] calm_day[OF assms(2), of 0] that
    by simp
  have l: "length g = 4" "r < 4 \<Longrightarrow> length (g ! r) = 7" for r
    using assms(1) by (simp_all add: grid_shape_def)
  have "x \<in> set (copy_requests loc (iso_ymd (monday_of n)) g) \<longleftrightarrow>
      (\<exists>r \<in> {0..<4}. \<exists>c \<in> {0..<length (g ! r)}. truthy (g ! r ! c) \<and>
        x = (col_date loc (iso_ymd (monday_of n)) (int c), row_slot r, the (g ! r ! c)))"
    by (auto simp: copy_requests_def l(1) split: if_splits)
  also have "\<dots> \<longleftrightarrow> (\<exists>r c. r < 4 \<and> c < 7 \<and> truthy (g ! r ! c) \<and>
       x = (Some (iso_ymd (monday_of n + int c)), slot_names ! r, the (g ! r ! c)))"
    by (rule bex_grid) (simp_all add: l(2) d row_slot_value)
  finally show ?thesis .
qed

lemma send_copies_ok:
  assumes "\<forall>x \<in> set reqs. fst x \<noteq> None" and "\<forall>i. answers i"
  shows "send_copies answers i reqs =
    (map (\<lambda>(d, s, rid). use_upsert_meal_plan_entry (the d) s (Some rid) None None None) reqs, True)"
  using assms
proof (induction reqs arbitrary: i)
  case Nil
  then show ?case by simp
next
  case (Cons x reqs)
  obtain d s rid where x: "x = (Some d, s, rid)" using Cons.prems(1) by (cases x) auto
  show ?case using Cons.IH Cons.prems by (simp add: x Let_def)
qed

text \<open>Entries stored for the copied cells show in the same cells.\<close>

lemma copied_cell:
  assumes "grid_shape g" and "calm_week n"
    and "\<forall>x. mpe_date (stored x) = the (fst x) \<and> mpe_slot (stored x) = fst (snd x) \<and>
           mpe_recipe_id (stored x) = Some (snd (snd x))"
    and rc: "r < 4" "c < 7"
  shows "Option.bind (cell_entry (monday_of n) r c
      (map stored (copy_requests loc (iso_ymd (monday_of n)) g))) mpe_recipe_id =
    (if truthy (g ! r ! c) then g ! r ! c else None)"
proof -
  let ?m = "monday_of n"
  let ?reqs = "copy_requests loc (iso_ymd ?m) g"
  note mem = copy_requests_set[OF assms(1,2), of _ loc]
  let ?P = "\<lambda>e. mpe_slot e = slot_names ! r \<and> mpe_date e = iso_ymd (?m + int c) \<and> truthy (mpe_recipe_id e)"
  have same: "r' = r \<and> c' = c" if "r' < 4" "c' < 7" "slot_names ! r' = slot_names ! r"
    "iso_ymd (?m + int c') = iso_ymd (?m + int c)" for r' c'
    using slot_names_inj[OF that(1) rc(1) that(3)] that(2) rc(2)
      iso_ymd_inj[OF calm_day calm_day that(4), OF assms(2) _ _ assms(2)] by simp
  have hit: "(e \<in> set (map stored ?reqs) \<and> ?P e) \<longleftrightarrow>
      truthy (g ! r ! c) \<and> e = stored (Some (iso_ymd (?m + int c)), slot_names ! r, the (g ! r ! c))"
    for e
  proof
    assume "e \<in> set (map stored ?reqs) \<and> ?P e"
    then obtain x where x: "x \<in> set ?reqs" "e = stored x" "?P e" by auto
    from x(1) mem obtain r' c' where y: "r' < 4" "c' < 7" "truthy (g ! r' ! c')"
      "x = (Some (iso_ymd (?m + int c')), slot_names ! r', the (g ! r' ! c'))" by blast
    have "r' = r \<and> c' = c" by (rule same) (use x y assms(3) in simp_all)
    with x(2) y show "truthy (g ! r ! c) \<and>
        e = stored (Some (iso_ymd (?m + int c)), slot_names ! r, the (g ! r ! c))" by simp
  next
    let ?x = "(Some (iso_ymd (?m + int c)), slot_names ! r, the (g ! r ! c))"
    assume e: "truthy (g ! r ! c) \<and> e = stored ?x"
    then have "?x \<in> set ?reqs" using mem rc by blast
    moreover have "?P e" using e assms(3) by (cases "g ! r ! c") simp_all
    ultimately show "e \<in> set (map stored ?reqs) \<and> ?P e" using e by auto
  qed
  show ?thesis
  proof (cases "last_placed ?P (map stored ?reqs)")
    case None
    then have "\<not> truthy (g ! r ! c)" using hit unfolding last_placed_None by blast
    with None show ?thesis by (simp add: cell_entry_def)
  next
    case (Some e)
    from last_placed_Some[OF this] hit have "truthy (g ! r ! c)"
      "e = stored (Some (iso_ymd (?m + int c)), slot_names ! r, the (g ! r ! c))" by blast+
    with Some assms(3) show ?thesis by (cases "g ! r ! c") (simp_all add: cell_entry_def)
  qed
qed

section \<open>Properties\<close>

text \<open>
  C5. The week grid is what the server's entries say: for a date in any week it covers Monday to
  Sunday around that date, has four rows of seven cells, and each cell holds the recipe of the last
  entry with a recipe for that slot and day, and nothing when there is none; the entry ids belong
  to the same entries, so an edit or a delete reaches the entry that is shown.
\<close>

theorem meal_plan_grid:
  assumes "date_parse loc from = Some t" and "calm_week (day_of_ms t)"
    and "m = monday_of (day_of_ms t)"
  shows "utc_day m = 1 \<and> m \<le> day_of_ms t \<and> day_of_ms t \<le> m + 6 \<and>
    (\<exists>mp ids. entries_to_meal_plan loc entries from = Some mp \<and> ml_week_of mp = iso_ymd m \<and>
       (length (ml_grid mp) = 4 \<and> (\<forall>row \<in> set (ml_grid mp). length row = 7)) \<and> ml_entry_ids mp = Some ids \<and>
       (\<forall>r < 4. \<forall>c < 7.
          ml_grid mp ! r ! c = Option.bind (cell_entry m r c entries) mpe_recipe_id \<and>
          ids (entry_key (iso_ymd (m + int c)) (slot_names ! r)) =
            map_option meta_of (cell_entry m r c entries)))"
  using entries_to_meal_plan_cells[OF assms(1,2), of entries] monday_of_props[of "day_of_ms t"]
  unfolding assms(3) grid_shape_def by (intro conjI)

definition demo_entry :: "string \<Rightarrow> string \<Rightarrow> string \<Rightarrow> string \<Rightarrow> meal_plan_entry" where
  "demo_entry i date slot rid = \<lparr>mpe_id = i, mpe_household_id = ''h'', mpe_recipe_id = Some rid, mpe_date = date,
     mpe_slot = slot, mpe_serving_multiplier = None, mpe_batch_quantity = None, mpe_planned_leftovers = None,
     mpe_created_at = [], mpe_updated_at = []\<rparr>"

lemma demo_week: "date_parse loc ''2026-04-22'' = Some (20565 * ms_per_day) \<and> calm_week 20565 \<and>
    monday_of 20565 = 20563"
proof -
  have "parse_ymd ''2026-04-22'' = Some 20565" by code_simp
  then have "date_parse loc ''2026-04-22'' = Some (20565 * ms_per_day)" by (simp add: date_parse_def)
  then show ?thesis by (simp add: calm_week_def four_digit_day_def monday_of_def utc_day_def)
qed

theorem meal_plan_grid_witness:
  "\<exists>mp. entries_to_meal_plan (\<lambda>t. t) [demo_entry ''e'' (iso_ymd 20564) ''dinner'' ''r1''] ''2026-04-22'' = Some mp \<and>
     ml_grid mp ! 2 ! 1 = Some ''r1''"
proof -
  from demo_week[of "\<lambda>t. t"] have p: "date_parse (\<lambda>t. t) ''2026-04-22'' = Some (20565 * ms_per_day)"
    "calm_week (day_of_ms (20565 * ms_per_day))" "20563 = monday_of (day_of_ms (20565 * ms_per_day))"
    by simp_all
  have "cell_entry 20563 2 1 [demo_entry ''e'' (iso_ymd 20564) ''dinner'' ''r1''] =
      Some (demo_entry ''e'' (iso_ymd 20564) ''dinner'' ''r1'')"
    using cell_entry_snoc[of "demo_entry ''e'' (iso_ymd 20564) ''dinner'' ''r1''" 2 20563 1 "[]"]
    by (simp add: demo_entry_def slot_names_def)
  then show ?thesis
    using meal_plan_grid[OF p, of "[demo_entry ''e'' (iso_ymd 20564) ''dinner'' ''r1'']"]
    by (auto simp: demo_entry_def)
qed


definition demo_grid :: meal_grid where
  "demo_grid = empty_grid[2 := (replicate 7 None)[1 := Some ''r1'']]"


text \<open>
  A picked recipe lands where the user put it: the cell of the screen shows it at once, one upsert
  is sent, and once the server holds the entry of that upsert, the reloaded week shows the recipe in
  the same row and column, whatever was planned there before.
\<close>

theorem picked_recipe_stays:
  assumes "ml_week_of m = iso_ymd (monday_of n)" and "calm_week n" and "calm_week (monday_of n)"
    and "ui_picker u = Some s" and "sl_row s < 4" and "sl_col s < 7" and "grid_shape (ui_local u)"
    and "rid \<noteq> []"
  shows "\<exists>date. ui_calls (pick_recipe loc (Some m) rid u) =
      ui_calls u @ [use_upsert_meal_plan_entry date (slot_names ! sl_row s) (Some rid) None None None] \<and>
    grid_cell (display_grid mp (pick_recipe loc (Some m) rid u)) (sl_row s) (sl_col s) = Some rid \<and>
    ui_picker (pick_recipe loc (Some m) rid u) = None \<and>
    (\<forall>e entries. mpe_date e = date \<and> mpe_slot e = slot_names ! sl_row s \<and> mpe_recipe_id e = Some rid \<longrightarrow>
       (\<exists>mp'. entries_to_meal_plan loc (entries @ [e]) (ml_week_of m) = Some mp' \<and>
          ml_grid mp' ! sl_row s ! sl_col s = Some rid))"
proof -
  let ?m = "monday_of n" and ?d = "iso_ymd (monday_of n + int (sl_col s))"
  have mm: "monday_of ?m = ?m" using monday_of_props(1)[of n] by (simp add: monday_of_def)
  have four: "four_digit_day ?m" "four_digit_day (?m + int (sl_col s))"
    using calm_day[OF assms(2), of 0] calm_day[OF assms(2), of "int (sl_col s)"] assms(6) by simp_all
  from col_date_value[OF this] have d: "col_date loc (ml_week_of m) (int (sl_col s)) = Some ?d"
    by (simp add: assms(1))
  have l: "length (ui_local u) = 4" "length (ui_local u ! sl_row s) = 7"
    using assms(5,7) by (simp_all add: grid_shape_def)
  then have g: "write_cell (sl_row s) (sl_col s) (Some rid) (ui_local u) =
      (ui_local u)[sl_row s := (ui_local u ! sl_row s)[sl_col s := Some rid]]"
    using assms(5,6) by (simp add: write_cell_def js_write_def)
  have after: "\<exists>mp'. entries_to_meal_plan loc (entries @ [e]) (ml_week_of m) = Some mp' \<and>
      ml_grid mp' ! sl_row s ! sl_col s = Some rid"
    if "mpe_date e = ?d" "mpe_slot e = slot_names ! sl_row s" "mpe_recipe_id e = Some rid" for e entries
  proof -
    have c: "calm_week (day_of_ms (?m * ms_per_day))" using assms(3) by simp
    have "cell_entry ?m (sl_row s) (sl_col s) (entries @ [e]) = Some e"
      by (rule cell_entry_snoc) (use that assms(8) in simp_all)
    with entries_to_meal_plan_cells[OF parse_iso_day[OF four(1)] c, of loc "entries @ [e]"] assms(5,6) that
    show ?thesis unfolding assms(1) mm day_of_midnight by auto
  qed
  have "pick_recipe loc (Some m) rid u =
      (send (use_upsert_meal_plan_entry ?d (slot_names ! sl_row s) (Some rid) None None None)
         (u\<lparr>ui_local := (ui_local u)[sl_row s := (ui_local u ! sl_row s)[sl_col s := Some rid]]\<rparr>))\<lparr>ui_picker := None\<rparr>"
    using assms(4,5) by (simp add: pick_recipe_def d g row_slot_value Let_def)
  then show ?thesis
    using l assms(5,6) after by (auto simp: send_def display_grid_def grid_cell_def)
qed

definition demo_ui :: meal_ui where
  "demo_ui = initial_meal_ui\<lparr>ui_local := empty_grid,
     ui_picker := Some \<lparr>sl_row = 2, sl_col = 1, sl_date = [], sl_meal = ''Dinner''\<rparr>\<rparr>"

theorem picked_recipe_stays_witness:
  "ui_picker (pick_recipe (\<lambda>t. t)
     (Some \<lparr>ml_week_of = iso_ymd 20563, ml_rows = [], ml_grid = [], ml_entry_ids = None\<rparr>) ''r1'' demo_ui) = None"
proof -
  let ?m = "\<lparr>ml_week_of = iso_ymd 20563, ml_rows = [], ml_grid = [], ml_entry_ids = None\<rparr>"
  let ?s = "\<lparr>sl_row = 2, sl_col = 1, sl_date = [], sl_meal = ''Dinner''\<rparr>"
  have m: "monday_of 20563 = 20563" by (simp add: monday_of_def utc_day_def)
  have "grid_shape empty_grid" by (simp add: grid_shape_def empty_grid_def)
  with m show ?thesis
    using picked_recipe_stays[of ?m 20563 demo_ui ?s "''r1''" "\<lambda>t. t"]
    by (auto simp: demo_ui_def calm_week_def four_digit_day_def)
qed

text \<open>
  Once a week is on the screen, the screen shows its local copy and nothing else: data that
  arrives for the same week, the meals just copied from last week included, does not appear; a cell
  cleared with its cross is only cleared locally, no call tells the server; and a failed call leaves
  the optimistic cell as it is.
\<close>

theorem week_screen_keeps_local_copy:
  assumes "ui_seeded u = Some (ml_week_of m)" and "ui_local u \<noteq> []"
  shows "display_grid (Some m) (seed_grid (Some m) u) = ui_local u \<and>
    display_grid (Some m) (seed_grid (Some m) (fst (handle_copy_last_week loc answers mp l u))) = ui_local u \<and>
    display_grid (Some m) (seed_grid (Some m) (mutation_failed err u)) = ui_local u \<and>
    ui_calls (clear_slot r c u) = ui_calls u \<and>
    grid_cell (display_grid (Some m) (clear_slot r c u)) r c = None"
proof -
  have "ui_local (fst (handle_copy_last_week loc answers mp l u)) = ui_local u \<and>
      ui_seeded (fst (handle_copy_last_week loc answers mp l u)) = ui_seeded u"
    by (simp add: handle_copy_last_week_def Let_def split: option.split)
  moreover have "grid_cell (write_cell r c None (ui_local u)) r c = None"
    by (auto simp: grid_cell_def write_cell_def js_write_def nth_append nth_list_update)
  moreover have "write_cell r c None (ui_local u) \<noteq> []" by (simp add: write_cell_def js_write_def assms(2))
  ultimately show ?thesis
    using assms by (simp add: seed_grid_def display_grid_def clear_slot_def mutation_failed_def)
qed

theorem week_screen_keeps_local_copy_witness:
  "ui_calls (clear_slot 2 1 (demo_ui\<lparr>ui_seeded := Some ''2026-04-20''\<rparr>)) = []"
  using week_screen_keeps_local_copy[of "demo_ui\<lparr>ui_seeded := Some ''2026-04-20''\<rparr>"
      "\<lparr>ml_week_of = ''2026-04-20'', ml_rows = [], ml_grid = [], ml_entry_ids = None\<rparr>"]
  by (simp add: demo_ui_def initial_meal_ui_def empty_grid_def)

end
