(* ===== verification/Shopping.thy ===== *)
theory Shopping
  imports HooksCore "HOL-Library.Product_Lexorder"
begin

text \<open>
  The shopping list: the conversion of the server's list in \<^verbatim>\<open>web/src/lib/api/shopping.ts\<close>, its hooks,
  the grouping of \<^verbatim>\<open>web/src/components/shopping/CategoryGroup.tsx\<close>, the pantry cues of
  \<^verbatim>\<open>PantryCues.tsx\<close> and the optimistic list of \<^verbatim>\<open>ShoppingList\<close> in
  \<^verbatim>\<open>web/src/components/screens/recipes.tsx\<close>.
\<close>

section \<open>Data\<close>

record api_shopping_item =
  si_id :: string
  si_shopping_list_id :: string
  si_name :: string
  si_amount :: rat
  si_unit :: string
  si_aisle :: "string option"
  si_source_recipes :: "string list option"
  si_completed :: bool
  si_sort_order :: rat

record api_shopping_list =
  al_id :: string
  al_household_id :: string
  al_name :: string
  al_date_from :: string
  al_date_to :: string
  al_is_active :: bool
  al_created_at :: string
  al_updated_at :: string
  al_items :: "api_shopping_item list option"

record shopping_item =
  it_amt :: string
  it_name :: string
  it_done :: bool
  it_id :: "string option"
  it_source_recipes :: "string list option"

record shopping_category =
  sc_name :: string
  sc_pantry :: "bool option"
  sc_items :: "shopping_item list"

record shopping =
  sh_week_of :: string
  sh_from_recipes :: nat
  sh_categories :: "shopping_category list"

section \<open>The server's list\<close>

definition capital_word :: "string \<Rightarrow> string" where
  "capital_word w = uppercase (take 1 w) @ lowercase (drop 1 w)"

definition title_case :: "string \<Rightarrow> string" where
  "title_case v = join '' '' (map capital_word (words v))"

text \<open>\<^verbatim>\<open>Number(x.toFixed(2))\<close>.\<close>

definition two_decimals :: "rat \<Rightarrow> rat" where
  "two_decimals x = sgn x * of_int \<lfloor>\<bar>x\<bar> * 100 + 1 / 2\<rfloor> / 100"

definition format_amount :: "rat \<Rightarrow> string \<Rightarrow> string" where
  "format_amount amount unit =
     (if amount = 0 then []
      else (let amountText = (if is_int amount then num_str amount else num_str (two_decimals amount))
            in if unit \<noteq> [] then amountText @ '' '' @ unit else amountText))"

definition to_shopping_item :: "api_shopping_item \<Rightarrow> shopping_item" where
  "to_shopping_item item =
     \<lparr>it_amt = format_amount (si_amount item) (si_unit item), it_name = si_name item,
      it_done = si_completed item, it_id = Some (si_id item),
      it_source_recipes = Some (case si_source_recipes item of None \<Rightarrow> [] | Some ss \<Rightarrow> ss)\<rparr>"

definition aisle_of :: "api_shopping_item \<Rightarrow> string" where
  "aisle_of item =
     (case si_aisle item of
        None \<Rightarrow> ''other''
      | Some a \<Rightarrow> if trim a = [] then ''other'' else trim a)"

text \<open>The category of an item: the first one with its name, or a new one at the end.\<close>

fun add_to_category :: "string \<Rightarrow> bool \<Rightarrow> shopping_item \<Rightarrow> shopping_category list \<Rightarrow> shopping_category list" where
  "add_to_category nm pantry it [] = [\<lparr>sc_name = nm, sc_pantry = Some pantry, sc_items = [it]\<rparr>]"
| "add_to_category nm pantry it (c # cs) =
     (if sc_name c = nm then c\<lparr>sc_items := sc_items c @ [it]\<rparr> # cs
      else c # add_to_category nm pantry it cs)"

definition add_names :: "api_shopping_item \<Rightarrow> string list \<Rightarrow> string list" where
  "add_names item names =
     fold (\<lambda>source ns. if source \<noteq> ''pantry staple'' then List.insert source ns else ns)
       (case si_source_recipes item of None \<Rightarrow> [] | Some ss \<Rightarrow> ss) names"

definition add_api_item ::
  "api_shopping_item \<Rightarrow> shopping_category list \<times> string list \<Rightarrow> shopping_category list \<times> string list" where
  "add_api_item item acc =
     (add_to_category (title_case (aisle_of item)) (contains (lowercase (aisle_of item)) ''pantry'')
        (to_shopping_item item) (fst acc),
      add_names item (snd acc))"

definition sorted_items :: "api_shopping_list \<Rightarrow> api_shopping_item list" where
  "sorted_items l = sort_key si_sort_order (case al_items l of None \<Rightarrow> [] | Some is \<Rightarrow> is)"

definition to_shopping :: "api_shopping_list \<Rightarrow> shopping" where
  "to_shopping l =
     (let r = fold add_api_item (sorted_items l) ([], [])
      in \<lparr>sh_week_of = al_date_from l, sh_from_recipes = length (snd r), sh_categories = fst r\<rparr>)"

section \<open>Hooks\<close>

definition use_shopping :: "query \<times> (api_shopping_list \<Rightarrow> shopping)" where
  "use_shopping =
     (plain_query qk_shopping (with_fallback (ApiGet ''/v1/shopping/current'') JUndef), to_shopping)"

text \<open>Without an id nothing is sent, the item is handed back as given.\<close>

definition use_toggle_shopping_item :: "string option \<Rightarrow> string \<Rightarrow> bool \<Rightarrow> mutation" where
  "use_toggle_shopping_item i nm done =
     \<lparr>mu_call = (if \<not> truthy i then Resolved (JObj [(''amt'', JStr []), (''name'', JStr nm), (''done'', JBool done)])
                else ApiPatch (''/v1/shopping/current/items/'' @ encode_uri_component (the i))
                       (JObj [(''completed'', JBool done)])),
      mu_invalidates = [qk_shopping]\<rparr>"

section \<open>Grouping\<close>

datatype group_mode = Aisle | Recipe | Manual

definition has_pantry :: "string \<Rightarrow> bool" where
  "has_pantry s = contains (lowercase s) ''pantry''"

definition item_sources :: "shopping_item \<Rightarrow> string list" where
  "item_sources it = filter (\<lambda>s. s \<noteq> []) (case it_source_recipes it of None \<Rightarrow> [] | Some ss \<Rightarrow> ss)"

definition is_staple :: "string \<Rightarrow> bool" where
  "is_staple s \<longleftrightarrow> lowercase s = ''pantry staple''"

definition is_pantry_item :: "shopping_category \<Rightarrow> shopping_item \<Rightarrow> bool" where
  "is_pantry_item cat it \<longleftrightarrow>
     sc_pantry cat = Some True \<or> (item_sources it = [] \<and> has_pantry (sc_name cat)) \<or>
     list_ex is_staple (item_sources it)"

text \<open>The buckets an item is pushed into, in order.\<close>

definition bucket_keys :: "shopping_category \<Rightarrow> shopping_item \<Rightarrow> string list" where
  "bucket_keys cat it =
     (if is_pantry_item cat it then [''Pantry staples'']
      else (let recipeNames = filter (\<lambda>s. \<not> is_staple s) (item_sources it)
            in if recipeNames = [] then [''Other''] else recipeNames))"

type_synonym buckets = "(string \<rightharpoonup> shopping_item list) \<times> string list"

definition push_bucket :: "string \<Rightarrow> shopping_item \<Rightarrow> buckets \<Rightarrow> buckets" where
  "push_bucket key it b =
     (case fst b key of
        None \<Rightarrow> ((fst b)(key \<mapsto> [it]), snd b @ [key])
      | Some xs \<Rightarrow> ((fst b)(key \<mapsto> xs @ [it]), snd b))"

definition push_item :: "shopping_category \<Rightarrow> shopping_item \<Rightarrow> buckets \<Rightarrow> buckets" where
  "push_item cat it b = fold (\<lambda>key. push_bucket key it) (bucket_keys cat it) b"

definition push_category :: "shopping_category \<Rightarrow> buckets \<Rightarrow> buckets" where
  "push_category cat b = fold (push_item cat) (sc_items cat) b"

definition group_shopping :: "shopping_category list \<Rightarrow> group_mode \<Rightarrow> shopping_category list" where
  "group_shopping categories mode =
     (case mode of
        Aisle \<Rightarrow> categories
      | Manual \<Rightarrow>
          (let items = concat (map sc_items categories)
           in if items = [] then [] else [\<lparr>sc_name = ''All items'', sc_pantry = None, sc_items = items\<rparr>])
      | Recipe \<Rightarrow>
          (let b = fold push_category categories (Map.empty, [])
           in map (\<lambda>nm. \<lparr>sc_name = nm, sc_pantry = Some (nm = ''Pantry staples''),
                         sc_items = (case fst b nm of None \<Rightarrow> [] | Some xs \<Rightarrow> xs)\<rparr>) (snd b)))"

section \<open>The optimistic list\<close>

record shopping_ui =
  su_categories :: "shopping_category list"
  su_version :: "string option"
  su_calls :: "mutation list"

definition shopping_mount :: "shopping option \<Rightarrow> shopping_ui" where
  "shopping_mount shopping =
     \<lparr>su_categories = (case shopping of None \<Rightarrow> [] | Some s \<Rightarrow> sh_categories s), su_version = None, su_calls = []\<rparr>"

definition shopping_seed :: "shopping option \<Rightarrow> shopping_ui \<Rightarrow> shopping_ui" where
  "shopping_seed shopping u =
     (let incoming = map_option sh_week_of shopping
      in if truthy incoming \<and> incoming \<noteq> su_version u
         then u\<lparr>su_version := incoming,
                su_categories := (case shopping of None \<Rightarrow> [] | Some s \<Rightarrow> sh_categories s)\<rparr>
         else u)"

text \<open>The first position, row by row, whose category and item satisfy \<open>P\<close>.\<close>

definition find_position :: "(shopping_category \<Rightarrow> shopping_item \<Rightarrow> bool) \<Rightarrow> shopping_category list \<Rightarrow> (nat \<times> nat) option" where
  "find_position P cats =
     find (\<lambda>(ci, ii). P (cats ! ci) (sc_items (cats ! ci) ! ii))
       (concat (map (\<lambda>ci. map (Pair ci) [0..<length (sc_items (cats ! ci))]) [0..<length cats]))"

definition find_indices :: "shopping_item \<Rightarrow> string \<Rightarrow> shopping_category list \<Rightarrow> (nat \<times> nat) option" where
  "find_indices item sourceCategoryName cats =
     (case find_position (\<lambda>cat it. truthy (it_id item) \<and> it_id it = it_id item) cats of
        Some p \<Rightarrow> Some p
      | None \<Rightarrow> find_position (\<lambda>cat it. \<not> (sourceCategoryName \<noteq> [] \<and> sc_name cat \<noteq> sourceCategoryName) \<and>
                  it_name it = it_name item \<and> it_amt it = it_amt item) cats)"

definition update_item ::
  "nat \<Rightarrow> nat \<Rightarrow> (shopping_item \<Rightarrow> shopping_item) \<Rightarrow> shopping_category list \<Rightarrow> shopping_category list" where
  "update_item ci ii f cats =
     map (\<lambda>(c, cat). if c \<noteq> ci then cat
                     else cat\<lparr>sc_items := map (\<lambda>(i, it). if i \<noteq> ii then it else f it) (List.enumerate 0 (sc_items cat))\<rparr>)
       (List.enumerate 0 cats)"

definition shopping_toggle :: "shopping_item \<Rightarrow> string \<Rightarrow> shopping_ui \<Rightarrow> shopping_ui" where
  "shopping_toggle item sourceCategoryName u =
     (case find_indices item sourceCategoryName (su_categories u) of
        None \<Rightarrow> u
      | Some (ci, ii) \<Rightarrow>
          (let currentItem = sc_items (su_categories u ! ci) ! ii
           in u\<lparr>su_categories := update_item ci ii (\<lambda>it. it\<lparr>it_done := \<not> it_done it\<rparr>) (su_categories u),
                su_calls := su_calls u @ [use_toggle_shopping_item (it_id currentItem) (it_name currentItem)
                                            (\<not> it_done currentItem)]\<rparr>))"

text \<open>The error handler of a toggle knows the position and the item it started from.\<close>

definition toggle_failed :: "nat \<Rightarrow> nat \<Rightarrow> shopping_item \<Rightarrow> shopping_ui \<Rightarrow> shopping_ui" where
  "toggle_failed ci ii currentItem u =
     u\<lparr>su_categories := update_item ci ii (\<lambda>it. it\<lparr>it_done := it_done currentItem\<rparr>) (su_categories u)\<rparr>"

section \<open>Lemmas\<close>

definition items_named :: "string \<Rightarrow> shopping_category list \<Rightarrow> shopping_item list" where
  "items_named k cs = (case find (\<lambda>c. sc_name c = k) cs of None \<Rightarrow> [] | Some c \<Rightarrow> sc_items c)"

lemma add_to_category_names:
  "map sc_name (add_to_category nm p it cs) =
     (if nm \<in> sc_name ` set cs then map sc_name cs else map sc_name cs @ [nm])"
  by (induction nm p it cs rule: add_to_category.induct) auto

lemma add_to_category_items:
  "items_named k (add_to_category nm p it cs) = (if k = nm then items_named k cs @ [it] else items_named k cs)"
  by (induction nm p it cs rule: add_to_category.induct) (auto simp: items_named_def)

lemma add_to_category_mset:
  "mset (concat (map sc_items (add_to_category nm p it cs))) = add_mset it (mset (concat (map sc_items cs)))"
  by (induction nm p it cs rule: add_to_category.induct) auto

lemma items_named_member:
  "distinct (map sc_name cs) \<Longrightarrow> c \<in> set cs \<Longrightarrow> items_named (sc_name c) cs = sc_items c"
  by (induction cs) (auto simp: items_named_def)

lemma add_names_set:
  "set (add_names item ns) = set ns \<union>
     {s \<in> set (case si_source_recipes item of None \<Rightarrow> [] | Some ss \<Rightarrow> ss). s \<noteq> ''pantry staple''}"
  "distinct ns \<Longrightarrow> distinct (add_names item ns)"
proof -
  have "set (fold (\<lambda>s ns. if s \<noteq> ''pantry staple'' then List.insert s ns else ns) ss ns) =
      set ns \<union> {s \<in> set ss. s \<noteq> ''pantry staple''} \<and>
      (distinct ns \<longrightarrow> distinct (fold (\<lambda>s ns. if s \<noteq> ''pantry staple'' then List.insert s ns else ns) ss ns))"
    for ss ns by (induction ss arbitrary: ns) auto
  then show "set (add_names item ns) = set ns \<union>
      {s \<in> set (case si_source_recipes item of None \<Rightarrow> [] | Some ss \<Rightarrow> ss). s \<noteq> ''pantry staple''}"
    "distinct ns \<Longrightarrow> distinct (add_names item ns)"
    unfolding add_names_def by blast+
qed

definition named_sources :: "api_shopping_item list \<Rightarrow> string set" where
  "named_sources items =
     {s. s \<noteq> ''pantry staple'' \<and> (\<exists>item \<in> set items. \<exists>ss. si_source_recipes item = Some ss \<and> s \<in> set ss)}"

lemma converted:
  "(let r = fold add_api_item items ([], []) in
     distinct (map sc_name (fst r)) \<and>
     sc_name ` set (fst r) = (\<lambda>i. title_case (aisle_of i)) ` set items \<and>
     (\<forall>k. items_named k (fst r) = map to_shopping_item (filter (\<lambda>i. title_case (aisle_of i) = k) items)) \<and>
     mset (concat (map sc_items (fst r))) = mset (map to_shopping_item items) \<and>
     distinct (snd r) \<and> set (snd r) = named_sources items)"
proof (induction items rule: rev_induct)
  case Nil
  show ?case by (simp add: items_named_def named_sources_def)
next
  case (snoc i items)
  let ?r = "fold add_api_item items ([], [])"
  have n: "map sc_name (fst (add_api_item i ?r)) =
      (if title_case (aisle_of i) \<in> sc_name ` set (fst ?r) then map sc_name (fst ?r)
       else map sc_name (fst ?r) @ [title_case (aisle_of i)])"
    by (simp add: add_api_item_def add_to_category_names)
  then have "sc_name ` set (fst (add_api_item i ?r)) = insert (title_case (aisle_of i)) (sc_name ` set (fst ?r))"
    by (metis (no_types, lifting) insert_absorb list.set_map list.simps(15) rotate1.simps(2) set_rotate1)
  moreover have "distinct (map sc_name (fst (add_api_item i ?r)))"
    using n snoc by (auto simp: Let_def)
  moreover have "named_sources (items @ [i]) = named_sources items \<union>
      {s \<in> set (case si_source_recipes i of None \<Rightarrow> [] | Some ss \<Rightarrow> ss). s \<noteq> ''pantry staple''}"
    by (auto simp: named_sources_def split: option.splits)
  ultimately show ?case
    using snoc
    by (simp add: Let_def) (auto simp: add_api_item_def add_to_category_items add_to_category_mset add_names_set)
qed

section \<open>Placements\<close>

text \<open>Every item with every bucket it belongs to, and the names in order of their first use.\<close>

definition placements :: "shopping_category list \<Rightarrow> (string \<times> shopping_item) list" where
  "placements cats =
     concat (map (\<lambda>cat. concat (map (\<lambda>it. map (\<lambda>k. (k, it)) (bucket_keys cat it)) (sc_items cat))) cats)"

definition firsts :: "'a list \<Rightarrow> 'a list" where
  "firsts xs = rev (remdups (rev xs))"

lemma firsts_snoc: "firsts (xs @ [x]) = (if x \<in> set xs then firsts xs else firsts xs @ [x])"
  by (simp add: firsts_def)

lemma firsts_props [simp]: "set (firsts xs) = set xs" "distinct (firsts xs)"
  by (simp_all add: firsts_def)

lemma push_flat: "fold push_category cats b = fold (\<lambda>(k, it). push_bucket k it) (placements cats) b"
proof -
  have f: "fold g (concat (map h xs)) b = fold (\<lambda>x. fold g (h x)) xs b" for g :: "'x \<Rightarrow> 'y \<Rightarrow> 'y" and h xs b
    by (induction xs arbitrary: b) simp_all
  have m: "fold (\<lambda>(k, it). push_bucket k it) (map (\<lambda>k. (k, it)) ks) b = fold (\<lambda>k. push_bucket k it) ks b" for it ks b
    by (induction ks arbitrary: b) simp_all
  show ?thesis
    unfolding placements_def f m push_category_def[abs_def] push_item_def[abs_def] ..
qed

lemma pushed:
  "snd (fold (\<lambda>(k, it). push_bucket k it) ps (Map.empty, [])) = firsts (map fst ps) \<and>
   (\<forall>k. fst (fold (\<lambda>(k, it). push_bucket k it) ps (Map.empty, [])) k =
      (if k \<in> fst ` set ps then Some (map snd (filter (\<lambda>p. fst p = k) ps)) else None))"
proof (induction ps rule: rev_induct)
  case Nil
  show ?case by (simp add: firsts_def)
next
  case (snoc p ps)
  obtain k it where p: "p = (k, it)" by force
  from snoc show ?case
    by (cases "k \<in> fst ` set ps") (auto simp: p push_bucket_def firsts_snoc filter_empty_conv)
qed

lemma group_recipe:
  "group_shopping cats Recipe =
     map (\<lambda>nm. \<lparr>sc_name = nm, sc_pantry = Some (nm = ''Pantry staples''),
                sc_items = map snd (filter (\<lambda>p. fst p = nm) (placements cats))\<rparr>)
       (firsts (map fst (placements cats)))"
proof -
  have "(case fst (fold push_category cats (Map.empty, [])) nm of None \<Rightarrow> [] | Some xs \<Rightarrow> xs) =
      map snd (filter (\<lambda>p. fst p = nm) (placements cats))" for nm
    using pushed[of "placements cats"] by (auto simp: push_flat filter_empty_conv image_iff)
  then show ?thesis
    using pushed[of "placements cats"] by (simp add: group_shopping_def Let_def) (simp add: push_flat)
qed

lemma bucket_keys_nonempty: "bucket_keys cat it \<noteq> []"
  by (simp add: bucket_keys_def Let_def)

lemma placements_set: "(k, it) \<in> set (placements cats) \<longleftrightarrow> (\<exists>cat \<in> set cats. it \<in> set (sc_items cat) \<and> k \<in> set (bucket_keys cat it))"
  by (auto simp: placements_def)

section \<open>Positions\<close>

definition in_range :: "nat \<Rightarrow> nat \<Rightarrow> shopping_category list \<Rightarrow> bool" where
  "in_range ci ii cats \<longleftrightarrow> ci < length cats \<and> ii < length (sc_items (cats ! ci))"

definition item_at :: "nat \<Rightarrow> nat \<Rightarrow> shopping_category list \<Rightarrow> shopping_item" where
  "item_at ci ii cats = sc_items (cats ! ci) ! ii"

lemma update_item_lists:
  assumes "in_range ci ii cats"
  shows "update_item ci ii f cats =
    cats[ci := (cats ! ci)\<lparr>sc_items := (sc_items (cats ! ci))[ii := f (item_at ci ii cats)]\<rparr>]"
proof -
  have e: "map (\<lambda>(i, x). if i \<noteq> k then x else g x) (List.enumerate 0 xs) = xs[k := g (xs ! k)]"
    if "k < length xs" for k :: nat and g and xs :: "'x list"
    by (rule nth_equalityI) (use that in \<open>auto simp: nth_enumerate_eq nth_list_update\<close>)
  have "update_item ci ii f cats =
      cats[ci := (cats ! ci)\<lparr>sc_items :=
        map (\<lambda>(i, it). if i \<noteq> ii then it else f it) (List.enumerate 0 (sc_items (cats ! ci)))\<rparr>]"
    unfolding update_item_def using assms by (intro e) (simp add: in_range_def)
  then show ?thesis using assms e[of ii "sc_items (cats ! ci)" f] by (simp add: in_range_def item_at_def)
qed

lemma update_item_range [simp]:
  assumes "in_range ci ii cats"
  shows "in_range ci' ii' (update_item ci ii f cats) \<longleftrightarrow> in_range ci' ii' cats"
  using assms by (auto simp: update_item_lists in_range_def nth_list_update)

lemma update_item_at:
  assumes "in_range ci ii cats" and "in_range ci' ii' cats"
  shows "item_at ci' ii' (update_item ci ii f cats) =
    (if ci' = ci \<and> ii' = ii then f (item_at ci ii cats) else item_at ci' ii' cats)"
  using assms by (auto simp: update_item_lists in_range_def item_at_def nth_list_update)

lemma update_item_twice:
  assumes "in_range ci ii cats"
  shows "update_item ci ii g (update_item ci ii f cats) = update_item ci ii (g \<circ> f) cats"
proof -
  have r: "in_range ci ii (update_item ci ii f cats)" using assms by simp
  from assms show ?thesis
    unfolding update_item_lists[OF r] update_item_at[OF assms assms]
    by (simp add: update_item_lists[OF assms] in_range_def)
qed

lemma update_item_id:
  assumes "in_range ci ii cats" and "f (item_at ci ii cats) = item_at ci ii cats"
  shows "update_item ci ii f cats = cats"
proof -
  have "(cats ! ci)\<lparr>sc_items := (sc_items (cats ! ci))[ii := f (item_at ci ii cats)]\<rparr> = cats ! ci"
    unfolding assms(2) by (simp add: item_at_def)
  then show ?thesis unfolding update_item_lists[OF assms(1)] by simp
qed

lemma find_unique:
  assumes "x \<in> set xs" and "P x" and "\<And>y. \<lbrakk> y \<in> set xs; P y \<rbrakk> \<Longrightarrow> y = x"
  shows "find P xs = Some x"
proof (cases "find P xs")
  case None
  with assms(1,2) show ?thesis by (auto simp: find_None_iff)
next
  case (Some y)
  then show ?thesis using find_Some_set[OF Some] assms(3) by simp
qed

lemma find_indices_id:
  assumes "in_range ci ii cats" and "truthy (it_id (item_at ci ii cats))" and "it_id item = it_id (item_at ci ii cats)"
    and "\<And>c i. \<lbrakk> in_range c i cats; it_id (item_at c i cats) = it_id (item_at ci ii cats) \<rbrakk> \<Longrightarrow> c = ci \<and> i = ii"
  shows "find_indices item src cats = Some (ci, ii)"
proof -
  have "find_position (\<lambda>cat it. truthy (it_id item) \<and> it_id it = it_id item) cats = Some (ci, ii)"
    unfolding find_position_def
  proof (rule find_unique)
    show "(ci, ii) \<in> set (concat (map (\<lambda>ci. map (Pair ci) [0..<length (sc_items (cats ! ci))]) [0..<length cats]))"
      using assms(1) by (auto simp: in_range_def intro!: bexI[of _ ci])
    show "case (ci, ii) of (ci, ii) \<Rightarrow> truthy (it_id item) \<and> it_id (sc_items (cats ! ci) ! ii) = it_id item"
      using assms(2,3) by (simp add: item_at_def)
  next
    fix y assume "y \<in> set (concat (map (\<lambda>ci. map (Pair ci) [0..<length (sc_items (cats ! ci))]) [0..<length cats]))"
      and q: "case y of (ci, ii) \<Rightarrow> truthy (it_id item) \<and> it_id (sc_items (cats ! ci) ! ii) = it_id item"
    then obtain c i where "y = (c, i)" "in_range c i cats" by (auto simp: in_range_def)
    with q assms(3) assms(4)[of c i] show "y = (ci, ii)" by (simp add: item_at_def)
  qed
  then show ?thesis by (simp add: find_indices_def)
qed

section \<open>Properties\<close>

text \<open>
  C7. Converting the server's list keeps every item exactly once: each stands in the one category
  named after its aisle, in the order of \<^verbatim>\<open>sort_order\<close>, no two categories share a name and none is
  empty; the badge counts the distinct recipes that are not pantry staples.
\<close>

theorem shopping_conversion:
  shows "mset (concat (map sc_items (sh_categories (to_shopping l)))) =
      mset (map to_shopping_item (case al_items l of None \<Rightarrow> [] | Some is \<Rightarrow> is)) \<and>
    distinct (map sc_name (sh_categories (to_shopping l))) \<and>
    (\<forall>cat \<in> set (sh_categories (to_shopping l)). sc_items cat \<noteq> [] \<and>
       sc_items cat = map to_shopping_item (filter (\<lambda>i. title_case (aisle_of i) = sc_name cat) (sorted_items l))) \<and>
    sorted (map si_sort_order (sorted_items l)) \<and>
    sh_from_recipes (to_shopping l) = card (named_sources (case al_items l of None \<Rightarrow> [] | Some is \<Rightarrow> is))"
proof -
  let ?items = "case al_items l of None \<Rightarrow> [] | Some is \<Rightarrow> is"
  let ?r = "fold add_api_item (sorted_items l) ([], [])"
  have m: "mset (sorted_items l) = mset ?items" "set (sorted_items l) = set ?items"
    by (simp_all add: sorted_items_def)
  note c = converted[of "sorted_items l", unfolded Let_def]
  have s: "named_sources (sorted_items l) = named_sources ?items" by (simp add: named_sources_def m(2))
  have cat: "sc_items cat \<noteq> [] \<and>
      sc_items cat = map to_shopping_item (filter (\<lambda>i. title_case (aisle_of i) = sc_name cat) (sorted_items l))"
    if "cat \<in> set (fst ?r)" for cat
  proof -
    have "sc_name cat \<in> (\<lambda>i. title_case (aisle_of i)) ` set (sorted_items l)" using c that by blast
    then have "filter (\<lambda>i. title_case (aisle_of i) = sc_name cat) (sorted_items l) \<noteq> []"
      by (auto simp: filter_empty_conv)
    moreover have "items_named (sc_name cat) (fst ?r) = sc_items cat" using c that by (intro items_named_member) blast+
    ultimately show ?thesis using c by auto
  qed
  have "length (snd ?r) = card (set (snd ?r))" using c by (metis distinct_card)
  moreover have "sorted (map si_sort_order (sorted_items l))" by (simp add: sorted_items_def)
  moreover have "mset (map to_shopping_item (sorted_items l)) = mset (map to_shopping_item ?items)"
    by (simp add: m(1))
  ultimately have "mset (concat (map sc_items (fst ?r))) = mset (map to_shopping_item ?items)"
    "length (snd ?r) = card (named_sources ?items)" "sorted (map si_sort_order (sorted_items l))"
    using c by (simp_all add: s)
  then show ?thesis using c cat unfolding to_shopping_def Let_def shopping.simps by blast
qed

definition demo_list :: api_shopping_list where
  "demo_list = \<lparr>al_id = ''s'', al_household_id = ''h'', al_name = ''Week'', al_date_from = ''2026-04-20'',
     al_date_to = ''2026-04-26'', al_is_active = True, al_created_at = [], al_updated_at = [],
     al_items = Some [\<lparr>si_id = ''i'', si_shopping_list_id = ''s'', si_name = ''Milk'', si_amount = 1, si_unit = ''l'',
       si_aisle = Some ''dairy'', si_source_recipes = Some [''Pancakes''], si_completed = False, si_sort_order = 0\<rparr>]\<rparr>"

theorem shopping_conversion_witness: "size (mset (concat (map sc_items (sh_categories (to_shopping demo_list))))) = 1"
  using shopping_conversion[of demo_list] by (simp add: demo_list_def)

text \<open>
  C8. Regrouping loses no item and invents none, in any mode; group names are distinct and no group of
  the recipe view is empty. By recipe, an item is listed under exactly its buckets, in list order;
  the other two modes keep the list as it is.
\<close>

theorem grouping_keeps_items:
  shows "\<Union> ((set \<circ> sc_items) ` set (group_shopping cats mode)) = \<Union> ((set \<circ> sc_items) ` set cats) \<and>
    concat (map sc_items (group_shopping cats Aisle)) = concat (map sc_items cats) \<and>
    concat (map sc_items (group_shopping cats Manual)) = concat (map sc_items cats) \<and>
    distinct (map sc_name (group_shopping cats Recipe)) \<and>
    (\<forall>g \<in> set (group_shopping cats Recipe). sc_items g \<noteq> [] \<and>
       sc_items g = concat (map (\<lambda>cat. concat (map (\<lambda>it.
         replicate (length (filter (\<lambda>k. k = sc_name g) (bucket_keys cat it))) it) (sc_items cat))) cats)) \<and>
    (\<forall>cat it k. cat \<in> set cats \<and> it \<in> set (sc_items cat) \<and> k \<in> set (bucket_keys cat it) \<longrightarrow>
       (\<exists>g \<in> set (group_shopping cats Recipe). sc_name g = k \<and> it \<in> set (sc_items g)))"
proof -
  have c: "map snd (filter (\<lambda>p. fst p = k) (placements cats)) =
      concat (map (\<lambda>cat. concat (map (\<lambda>it. replicate (length (filter (\<lambda>x. x = k) (bucket_keys cat it))) it)
        (sc_items cat))) cats)" for k
    by (simp add: placements_def filter_concat map_concat comp_def filter_map map_replicate_const)
  have members: "\<Union> ((set \<circ> sc_items) ` set (group_shopping cats Recipe)) = snd ` set (placements cats)"
    by (auto simp: group_recipe image_iff)
  have all: "snd ` set (placements cats) = \<Union> ((set \<circ> sc_items) ` set cats)"
  proof (intro equalityI subsetI)
    fix it assume "it \<in> \<Union> ((set \<circ> sc_items) ` set cats)"
    then obtain cat where "cat \<in> set cats" "it \<in> set (sc_items cat)" by auto
    moreover obtain k where "k \<in> set (bucket_keys cat it)" using bucket_keys_nonempty[of cat it] by fastforce
    ultimately have "(k, it) \<in> set (placements cats)" using placements_set by blast
    then show "it \<in> snd ` set (placements cats)" by force
  qed (auto simp: placements_def)
  have modes: "\<Union> ((set \<circ> sc_items) ` set (group_shopping cats mode)) = \<Union> ((set \<circ> sc_items) ` set cats)"
  proof (cases mode)
    case Aisle
    then show ?thesis by (simp add: group_shopping_def)
  next
    case Recipe
    with members all show ?thesis by simp
  next
    case Manual
    then show ?thesis by (auto simp: group_shopping_def Let_def)
  qed
  have flat: "concat (map sc_items (group_shopping cats Aisle)) = concat (map sc_items cats)"
    "concat (map sc_items (group_shopping cats Manual)) = concat (map sc_items cats)"
    by (simp_all add: group_shopping_def Let_def)
  have names: "map sc_name (group_shopping cats Recipe) = firsts (map fst (placements cats))"
    by (simp add: group_recipe comp_def)
  have groups: "sc_items g = map snd (filter (\<lambda>p. fst p = sc_name g) (placements cats)) \<and> sc_items g \<noteq> []"
    if "g \<in> set (group_shopping cats Recipe)" for g
    using that by (fastforce simp: group_recipe filter_empty_conv)
  have listed: "\<exists>g \<in> set (group_shopping cats Recipe). sc_name g = k \<and> it \<in> set (sc_items g)"
    if "cat \<in> set cats" "it \<in> set (sc_items cat)" "k \<in> set (bucket_keys cat it)" for cat it k
  proof -
    have "(k, it) \<in> set (placements cats)" using that placements_set by blast
    then show ?thesis by (force simp: group_recipe)
  qed
  have "distinct (map sc_name (group_shopping cats Recipe))" unfolding names by simp
  moreover have "sc_items g \<noteq> [] \<and> sc_items g = concat (map (\<lambda>cat. concat (map (\<lambda>it.
      replicate (length (filter (\<lambda>k. k = sc_name g) (bucket_keys cat it))) it) (sc_items cat))) cats)"
    if "g \<in> set (group_shopping cats Recipe)" for g
    using groups[OF that] unfolding c by blast
  ultimately show ?thesis using modes flat listed by blast
qed

definition demo_cats :: "shopping_category list" where
  "demo_cats = [\<lparr>sc_name = ''Dairy'', sc_pantry = Some False,
     sc_items = [\<lparr>it_amt = ''1 l'', it_name = ''Milk'', it_done = False, it_id = Some ''i1'',
       it_source_recipes = Some [''Pancakes'', ''Cocoa'']\<rparr>]\<rparr>]"

theorem grouping_keeps_items_witness:
  "\<exists>g \<in> set (group_shopping demo_cats Recipe). sc_name g = ''Cocoa'' \<and> hd (sc_items (hd demo_cats)) \<in> set (sc_items g)"
proof -
  have "hd demo_cats \<in> set demo_cats" "hd (sc_items (hd demo_cats)) \<in> set (sc_items (hd demo_cats))"
    by (simp_all add: demo_cats_def)
  moreover have "''Cocoa'' \<in> set (bucket_keys (hd demo_cats) (hd (sc_items (hd demo_cats))))" by code_simp
  ultimately show ?thesis using grouping_keeps_items[of demo_cats Recipe] by blast
qed

text \<open>
  C29. A tap on an item with a unique id, in whatever group it is shown, flips exactly that item and
  sends exactly one call, for that id and with the new value; when the call fails, the error handler
  restores the list as it was before the tap.
\<close>

theorem toggle_flips_one_item:
  assumes "in_range ci ii (su_categories u)" and "it_id (item_at ci ii (su_categories u)) = Some key" and "key \<noteq> []"
    and "\<forall>c i. in_range c i (su_categories u) \<and> it_id (item_at c i (su_categories u)) = Some key \<longrightarrow> c = ci \<and> i = ii"
    and "it_id item = Some key"
  shows "(let x = item_at ci ii (su_categories u); v = shopping_toggle item src u in
    (\<forall>c i. in_range c i (su_categories u) \<longrightarrow>
       item_at c i (su_categories v) =
         (if c = ci \<and> i = ii then x\<lparr>it_done := \<not> it_done x\<rparr> else item_at c i (su_categories u))) \<and>
    su_calls v = su_calls u @ [use_toggle_shopping_item (Some key) (it_name x) (\<not> it_done x)] \<and>
    call_path (mu_call (use_toggle_shopping_item (Some key) (it_name x) (\<not> it_done x))) =
      ''/v1/shopping/current/items/'' @ encode_uri_component key \<and>
    su_categories (toggle_failed ci ii x v) = su_categories u)"
proof -
  let ?x = "item_at ci ii (su_categories u)"
  have "find_indices item src (su_categories u) = Some (ci, ii)"
  proof (rule find_indices_id[OF assms(1)])
    show "truthy (it_id ?x)" by (simp add: assms(2,3))
    show "it_id item = it_id ?x" by (simp only: assms(2,5))
    show "c = ci \<and> i = ii" if "in_range c i (su_categories u)" "it_id (item_at c i (su_categories u)) = it_id ?x" for c i
      using that assms(4) unfolding assms(2) by blast
  qed
  then have v: "shopping_toggle item src u =
      u\<lparr>su_categories := update_item ci ii (\<lambda>it. it\<lparr>it_done := \<not> it_done it\<rparr>) (su_categories u),
        su_calls := su_calls u @ [use_toggle_shopping_item (Some key) (it_name ?x) (\<not> it_done ?x)]\<rparr>"
    by (simp add: shopping_toggle_def Let_def assms(2) flip: item_at_def)
  have "((\<lambda>it. it\<lparr>it_done := it_done ?x\<rparr>) \<circ> (\<lambda>it. it\<lparr>it_done := \<not> it_done it\<rparr>)) ?x = ?x" by simp
  then have "su_categories (toggle_failed ci ii ?x (shopping_toggle item src u)) = su_categories u"
    unfolding v toggle_failed_def by (simp add: update_item_twice[OF assms(1)] update_item_id[OF assms(1)])
  moreover have "call_path (mu_call (use_toggle_shopping_item (Some key) (it_name ?x) (\<not> it_done ?x))) =
      ''/v1/shopping/current/items/'' @ encode_uri_component key"
    using assms(3) by (simp add: use_toggle_shopping_item_def)
  ultimately show ?thesis
    unfolding Let_def using update_item_at[OF assms(1)] by (simp add: v)
qed

theorem toggle_flips_one_item_witness:
  "su_categories (toggle_failed 0 0 (item_at 0 0 demo_cats)
     (shopping_toggle (item_at 0 0 demo_cats) ''Cocoa'' \<lparr>su_categories = demo_cats, su_version = None, su_calls = []\<rparr>))
   = demo_cats"
  using toggle_flips_one_item[of 0 0 "\<lparr>su_categories = demo_cats, su_version = None, su_calls = []\<rparr>" "''i1''"
      "item_at 0 0 demo_cats" "''Cocoa''"]
  by (simp add: Let_def demo_cats_def in_range_def item_at_def)

end
