(* ===== verification/LiveUpdates.thy ===== *)
theory LiveUpdates
  imports WsProvider HooksProps MealPlan Shopping
begin

text \<open>
  What reaches the screens: the frames of the real-time connection and the writes of the meal plan,
  against the keys of the hooks that read the same data.
\<close>

section \<open>Frames as messages\<close>

text \<open>A frame as the server sends it.\<close>

definition ws_frame :: "string \<Rightarrow> jsobj \<Rightarrow> jsval" where
  "ws_frame t payload =
     JObj [(''type'', JStr t), (''household_id'', JStr ''h''), (''payload'', JObj payload),
           (''timestamp'', JStr ''2026-04-22T10:00:00Z'')]"

lemma frame_parse:
  assumes "wf_json (ws_frame t payload)"
  shows "json_parse (json_str (ws_frame t payload)) = Some (ws_frame t payload)"
    and "opt_prop (ws_frame t payload) ''type'' = JStr t"
  using parse_json_str[OF assms] by (simp_all add: ws_frame_def opt_prop_def jget_def)

lemma message_keys:
  assumes "json_parse data = Some ev" and "opt_prop ev ''type'' = JStr t"
  shows "message_refreshes data q = list_ex (key_starts_with (qy_key q)) (invalidated_keys t ev)"
  using assms by (simp add: message_refreshes_def on_message_def handle_invalidation_def)

text \<open>A prefix that is told apart within two characters.\<close>

lemma not_prefix:
  assumes "take 2 t \<noteq> take 2 p" and "2 \<le> length p"
  shows "\<not> starts_with t p"
proof
  assume "starts_with t p"
  then have "take 2 (take (length p) t) = take 2 p" by (simp add: starts_with_def)
  with assms show False by (simp add: min_def)
qed

lemma silent_frames:
  assumes "take 2 t \<in> {''me'', ''re'', ''ch'', ''wa'', ''po''}"
  shows "invalidated_keys t ev \<in> {[], [[JStr ''meal-plan'']], [[JStr ''recipe-collections'']]}"
proof -
  have "t \<noteq> ''list.item.toggled''" using assms by auto
  with assms show ?thesis
    using not_prefix[of t "''event.''"] not_prefix[of t "''list.item.''"] not_prefix[of t "''list.''"]
      not_prefix[of t "''routine.''"] not_prefix[of t "''shopping.''"] not_prefix[of t "''equity.''"]
    by (auto simp: invalidated_keys_def)
qed

lemma prefix_two: "starts_with t p \<Longrightarrow> 2 \<le> length p \<Longrightarrow> take 2 t = take 2 p"
  using not_prefix by blast

lemma loud_frames:
  "starts_with t ''event.'' \<Longrightarrow> invalidated_keys t ev = [[JStr ''events'']]"
  "starts_with t ''list.'' \<Longrightarrow> invalidated_keys t ev = lists_keys ev"
  "starts_with t ''routine.'' \<Longrightarrow> invalidated_keys t ev = [[JStr ''routines'']]"
  "starts_with t ''shopping.'' \<Longrightarrow> invalidated_keys t ev = [[JStr ''shopping'']]"
  "starts_with t ''equity.'' \<Longrightarrow> invalidated_keys t ev = [[JStr ''equity'']]"
proof -
  have toggled: "take 2 t \<noteq> ''li'' \<Longrightarrow> t \<noteq> ''list.item.toggled''" by auto
  show "starts_with t ''event.'' \<Longrightarrow> invalidated_keys t ev = [[JStr ''events'']]"
    by (simp add: invalidated_keys_def)
  show "starts_with t ''list.'' \<Longrightarrow> invalidated_keys t ev = lists_keys ev"
    using prefix_two[of t "''list.''"] not_prefix[of t "''event.''"] by (simp add: invalidated_keys_def)
  show "starts_with t ''routine.'' \<Longrightarrow> invalidated_keys t ev = [[JStr ''routines'']]"
    using prefix_two[of t "''routine.''"] not_prefix[of t "''event.''"] not_prefix[of t "''list.item.''"]
      not_prefix[of t "''list.''"] toggled by (simp add: invalidated_keys_def)
  show "starts_with t ''shopping.'' \<Longrightarrow> invalidated_keys t ev = [[JStr ''shopping'']]"
    using prefix_two[of t "''shopping.''"] not_prefix[of t "''event.''"] not_prefix[of t "''list.item.''"]
      not_prefix[of t "''list.''"] not_prefix[of t "''routine.''"] toggled by (simp add: invalidated_keys_def)
  show "starts_with t ''equity.'' \<Longrightarrow> invalidated_keys t ev = [[JStr ''equity'']]"
    using prefix_two[of t "''equity.''"] not_prefix[of t "''event.''"] not_prefix[of t "''list.item.''"]
      not_prefix[of t "''list.''"] not_prefix[of t "''routine.''"] not_prefix[of t "''shopping.''"]
      not_prefix[of t "''meal_plan.''"] not_prefix[of t "''recipe_collection.''"] toggled
    by (simp add: invalidated_keys_def)
qed

section \<open>Properties\<close>



text \<open>
  Some frames reach nothing: a meal plan frame does not refresh the meal plan, a recipe
  collection frame does not refresh the collections, since the keys they invalidate are not those
  of the hooks; and the frames about chores, wallets, points, redemptions and rewards invalidate
  nothing.
\<close>

theorem frames_without_effect:
  assumes "json_parse data = Some ev" and "opt_prop ev ''type'' = JStr t"
    and "starts_with t ''meal_plan.'' \<or> starts_with t ''recipe_collection.'' \<or>
      starts_with t ''chore.'' \<or> starts_with t ''wallet.'' \<or> starts_with t ''points.'' \<or>
      starts_with t ''redemption.'' \<or> starts_with t ''reward.''"
    and "(\<exists>loc now w f. use_meal_plan loc now w = Some (q, f)) \<or>
      q \<in> {use_recipe_collections, use_collection_recipes i, use_chores m, use_chore_completions a b m,
        use_wallet now m, use_points_balance m, use_scoreboard, use_redemptions m st}"
  shows "\<not> message_refreshes data q"
proof -
  have "take 2 t \<in> {''me'', ''re'', ''ch'', ''wa'', ''po''}" using assms(3) by (auto dest!: prefix_two)
  note inv = silent_frames[OF this, of ev]
  have "qy_key q \<noteq> [] \<and> hd (qy_key q) \<noteq> JStr ''meal-plan'' \<and> hd (qy_key q) \<noteq> JStr ''recipe-collections''"
    using assms(4)
    by (auto simp: qk_defs use_recipe_collections_def use_collection_recipes_def use_chores_def
        use_chore_completions_def use_wallet_def use_points_balance_def use_scoreboard_def use_redemptions_def
        use_meal_plan_def guarded_query_def plain_query_def split: option.splits)
  then have "\<not> key_starts_with (qy_key q) [JStr ''meal-plan'']" "\<not> key_starts_with (qy_key q) [JStr ''recipe-collections'']"
    by (cases "qy_key q"; auto)+
  with inv show ?thesis unfolding message_keys[OF assms(1,2)] by auto
qed

theorem frames_without_effect_witness:
  "\<not> message_refreshes (json_str (ws_frame ''recipe_collection.created'' [])) use_recipe_collections"
proof -
  have w: "wf_json (ws_frame ''recipe_collection.created'' [])" by (simp add: ws_frame_def)
  show ?thesis
    by (rule frames_without_effect[OF frame_parse[OF w]]) (simp_all add: starts_with_def)
qed

text \<open>
  The screens that read live data get neither: no frame and no write of the meal plan makes a
  live variant fetch again, while every write of the meal plan refetches each week read by
  \<^verbatim>\<open>useMealPlan\<close>.
\<close>

theorem live_variants_not_reached:
  shows "\<not> message_refreshes data (use_live_events opts) \<and> \<not> message_refreshes data use_live_lists \<and>
    \<not> message_refreshes data (use_live_routines params) \<and>
    (\<forall>loc now w q f. use_live_meal_plan loc now w = Some (q, f) \<longrightarrow>
       \<not> refreshes (use_upsert_meal_plan_entry d s rid sm bq pl) q \<and> \<not> refreshes (use_delete_meal_plan_entry i) q) \<and>
    (\<forall>loc now w q f. use_meal_plan loc now w = Some (q, f) \<longrightarrow>
       refreshes (use_upsert_meal_plan_entry d s rid sm bq pl) q \<and> refreshes (use_delete_meal_plan_entry i) q)"
proof -
  have heads: "\<forall>p \<in> set (invalidated_keys t ev). \<exists>s r. p = JStr s # r \<and> s \<noteq> ''live-only''" for t ev
    by (auto simp: invalidated_keys_def lists_keys_def)
  have dead: "\<not> message_refreshes data (plain_query (live_key k) c)" for k c
    using heads
    by (fastforce simp: message_refreshes_def on_message_def handle_invalidation_def list_ex_iff
        dest: key_starts_live split: option.splits jsval.splits)
  then show ?thesis
    by (auto simp: use_live_events_def use_live_lists_def use_live_routines_def use_live_meal_plan_def
        use_meal_plan_def use_upsert_meal_plan_entry_def use_delete_meal_plan_entry_def refreshes_def
        live_key_def plain_query_def qk_meal_plan_def split: option.splits)
qed

theorem live_variants_not_reached_witness:
  "\<exists>q f. use_meal_plan (\<lambda>t. t) 0 (Some ''2026-04-22'') = Some (q, f) \<and> refreshes (use_delete_meal_plan_entry ''e'') q"
proof -
  have "add_utc_days 6 (20565 * ms_per_day) = Some (20571 * ms_per_day)"
    by (simp add: add_utc_days_def time_clip_def ms_per_day_def)
  then have "\<exists>q f. use_meal_plan (\<lambda>t. t) 0 (Some ''2026-04-22'') = Some (q, f)"
    using demo_week by (simp add: use_meal_plan_def meal_plan_from_def col_date_def)
  then obtain q f where "use_meal_plan (\<lambda>t. t) 0 (Some ''2026-04-22'') = Some (q, f)" by blast
  then show ?thesis
    using live_variants_not_reached[of "[]" None None "[]" "[]" None None None None "''e''"] by blast
qed

end
