(* ===== verification/Oidc.thy ===== *)
theory Oidc
  imports AuthStore
begin

text \<open>
  Signing in with Authorization Code and PKCE, \<^verbatim>\<open>web/src/lib/auth/oidc.ts\<close>: the random strings and
  their base64url form, the redirect to the identity provider, the exchange in the callback and
  signing out. The random bytes, the SHA-256 digest and the network are arguments.
\<close>

section \<open>Base64url\<close>

definition b64_char :: "nat \<Rightarrow> char" where
  "b64_char n =
     (if n < 26 then char_of (65 + n) else if n < 52 then char_of (71 + n)
      else if n < 62 then char_of (n - 4) else if n = 62 then CHR ''+'' else CHR ''/'')"

text \<open>\<^verbatim>\<open>btoa\<close> on a string of bytes.\<close>

fun btoa :: "string \<Rightarrow> string" where
  "btoa [] = []"
| "btoa [a] =
     [b64_char (code_of a div 4), b64_char (code_of a mod 4 * 16), CHR ''='', CHR ''='']"
| "btoa [a, b] =
     [b64_char (code_of a div 4), b64_char (code_of a mod 4 * 16 + code_of b div 16),
      b64_char (code_of b mod 16 * 4), CHR ''='']"
| "btoa (a # b # c # s) =
     [b64_char (code_of a div 4), b64_char (code_of a mod 4 * 16 + code_of b div 16),
      b64_char (code_of b mod 16 * 4 + code_of c div 64), b64_char (code_of c mod 64)] @ btoa s"

definition base64_url_encode :: "string \<Rightarrow> string" where
  "base64_url_encode bytes =
     rev (dropWhile (\<lambda>c. c = CHR ''='')
       (rev (map (\<lambda>c. if c = CHR ''+'' then CHR ''-'' else if c = CHR ''/'' then CHR ''_'' else c)
         (btoa bytes))))"

text \<open>\<^verbatim>\<open>randomString\<close> and \<^verbatim>\<open>codeChallengeFor\<close>: the bytes are drawn, the digest computed, by the browser.\<close>

definition random_string :: "string \<Rightarrow> string" where
  "random_string bytes = base64_url_encode bytes"

definition code_challenge_for :: "(string \<Rightarrow> string) \<Rightarrow> string \<Rightarrow> string" where
  "code_challenge_for sha256 verifier = base64_url_encode (sha256 verifier)"

section \<open>Configuration\<close>

record oidc_config =
  oc_domain :: string
  oc_client_id :: string
  oc_redirect_uri :: string
  oc_logout_uri :: string

text \<open>\<open>origin\<close> is the page's origin, absent on the server.\<close>

definition read_oidc_config :: "string option \<Rightarrow> string option \<Rightarrow> string option \<Rightarrow> oidc_config option" where
  "read_oidc_config domain clientId origin =
     (if \<not> truthy domain \<or> \<not> truthy clientId then None
      else (let o' = (case origin of None \<Rightarrow> ''https://tidyboard.org'' | Some x \<Rightarrow> x)
            in Some \<lparr>oc_domain = the domain, oc_client_id = the clientId,
                     oc_redirect_uri = o' @ ''/auth/callback'', oc_logout_uri = o' @ ''/''\<rparr>))"

section \<open>Redirecting to the provider\<close>

definition verifier_key :: string where "verifier_key = ''tb-oidc-verifier''"
definition state_key :: string where "state_key = ''tb-oidc-state''"
definition return_to_key :: string where "return_to_key = ''tb-oidc-return-to''"

lemma oidc_keys_distinct:
  "verifier_key \<noteq> state_key" "verifier_key \<noteq> return_to_key" "state_key \<noteq> return_to_key"
  by (simp_all add: verifier_key_def state_key_def return_to_key_def)

definition authorize_params :: "oidc_config \<Rightarrow> string \<Rightarrow> string \<Rightarrow> search_params" where
  "authorize_params cfg state challenge =
     [(''response_type'', ''code''), (''client_id'', oc_client_id cfg),
      (''redirect_uri'', oc_redirect_uri cfg), (''scope'', ''openid email profile''),
      (''state'', state), (''code_challenge'', challenge), (''code_challenge_method'', ''S256'')]"

definition authorize_url :: "oidc_config \<Rightarrow> string \<Rightarrow> string \<Rightarrow> string" where
  "authorize_url cfg state challenge =
     ''https://'' @ oc_domain cfg @ ''/oauth2/authorize?'' @ params_str (authorize_params cfg state challenge)"

text \<open>The three writes to session storage are not guarded; the first that fails ends the call.\<close>

definition oidc_sign_in ::
  "(string \<Rightarrow> string) \<Rightarrow> string \<Rightarrow> string \<Rightarrow> oidc_config \<Rightarrow> string \<Rightarrow> storage \<Rightarrow> storage_error + (storage \<times> string)" where
  "oidc_sign_in sha256 bytes48 bytes16 cfg returnTo st =
     (let verifier = random_string bytes48; state = random_string bytes16;
          challenge = code_challenge_for sha256 verifier
      in case set_item verifier_key verifier st of
           Inl e \<Rightarrow> Inl e
         | Inr st1 \<Rightarrow>
             (case set_item state_key state st1 of
                Inl e \<Rightarrow> Inl e
              | Inr st2 \<Rightarrow>
                  (case set_item return_to_key returnTo st2 of
                     Inl e \<Rightarrow> Inl e
                   | Inr st3 \<Rightarrow> Inr (st3, authorize_url cfg state challenge))))"

section \<open>The callback\<close>

datatype oidc_failure =
    MissingCode
  | MissingVerifier
  | StateMismatch
  | ExchangeFailed int string
  | ExchangeUnreachable
  | TokenNotJson
  | MissingIdToken
  | StorageForbidden

record callback_result =
  cb_id_token :: jsval
  cb_refresh_token :: jsval
  cb_expires_at :: "rat option"
  cb_return_to :: string

definition token_params :: "oidc_config \<Rightarrow> string \<Rightarrow> string \<Rightarrow> search_params" where
  "token_params cfg code verifier =
     [(''grant_type'', ''authorization_code''), (''client_id'', oc_client_id cfg), (''code'', code),
      (''redirect_uri'', oc_redirect_uri cfg), (''code_verifier'', verifier)]"

definition token_request :: "oidc_config \<Rightarrow> string \<Rightarrow> string \<Rightarrow> http_request" where
  "token_request cfg code verifier =
     \<lparr>rq_method = ''POST'', rq_url = ''https://'' @ oc_domain cfg @ ''/oauth2/token'',
      rq_headers = [(''Content-Type'', ''application/x-www-form-urlencoded'')],
      rq_body = Some (params_str (token_params cfg code verifier))\<rparr>"

definition token_result :: "int \<Rightarrow> string \<Rightarrow> http_response option \<Rightarrow> oidc_failure + callback_result" where
  "token_result now returnTo res =
     (case res of
        None \<Rightarrow> Inl ExchangeUnreachable
      | Some r \<Rightarrow>
          if \<not> resp_ok r then Inl (ExchangeFailed (rs_status r) (rs_body r))
          else (case resp_json r of
                  None \<Rightarrow> Inl TokenNotJson
                | Some tok \<Rightarrow>
                    if \<not> js_truthy (opt_prop tok ''id_token'') then Inl MissingIdToken
                    else Inr \<lparr>cb_id_token = opt_prop tok ''id_token'',
                              cb_refresh_token = opt_prop tok ''refresh_token'',
                              cb_expires_at = (case opt_prop tok ''expires_in'' of
                                  JNum e \<Rightarrow> Some (of_int now + e * 1000) | _ \<Rightarrow> None),
                              cb_return_to = returnTo\<rparr>))"

text \<open>
  \<open>code\<close> and \<open>stateInUrl\<close> are the parameters of the address. The outcome comes with the session
  storage afterwards and the requests that were sent.
\<close>

definition handle_callback ::
  "network \<Rightarrow> int \<Rightarrow> oidc_config \<Rightarrow> string option \<Rightarrow> string option \<Rightarrow> storage \<Rightarrow>
   (oidc_failure + callback_result) \<times> storage \<times> http_request list" where
  "handle_callback net now cfg code stateInUrl st =
     (if \<not> truthy code then (Inl MissingCode, st, [])
      else if st_blocked st then (Inl StorageForbidden, st, [])
      else
        (let verifier = try_get st verifier_key; stateStored = try_get st state_key;
             returnTo = (case try_get st return_to_key of None \<Rightarrow> ''/'' | Some r \<Rightarrow> r);
             st' = try_remove return_to_key (try_remove state_key (try_remove verifier_key st))
         in if \<not> truthy verifier then (Inl MissingVerifier, st', [])
            else if \<not> truthy stateStored \<or> stateStored \<noteq> stateInUrl then (Inl StateMismatch, st', [])
            else (let rq = token_request cfg (the code) (the verifier)
                  in (token_result now returnTo (net rq), st', [rq]))))"

definition sign_out_url :: "oidc_config \<Rightarrow> string" where
  "sign_out_url cfg =
     ''https://'' @ oc_domain cfg @ ''/logout?'' @
     params_str [(''client_id'', oc_client_id cfg), (''logout_uri'', oc_logout_uri cfg)]"

section \<open>Lemmas on base64url\<close>

definition b64url_char :: "nat \<Rightarrow> char" where
  "b64url_char n = (if n = 62 then CHR ''-'' else if n = 63 then CHR ''_'' else b64_char n)"

definition b64url_safe :: "char \<Rightarrow> bool" where
  "b64url_safe c \<longleftrightarrow> is_alnum c \<or> c = CHR ''-'' \<or> c = CHR ''_''"

definition url_repl :: "char \<Rightarrow> char" where
  "url_repl c = (if c = CHR ''+'' then CHR ''-'' else if c = CHR ''/'' then CHR ''_'' else c)"

lemma b64_char_alnum: "n < 62 \<Longrightarrow> is_alnum (b64_char n)"
  by (auto simp: b64_char_def is_alnum_def is_digit_def is_upper_def is_lower_def code_of_char_of)

lemma alnum_not_symbol: "is_alnum c \<Longrightarrow> c \<noteq> CHR ''+'' \<and> c \<noteq> CHR ''/'' \<and> c \<noteq> CHR ''=''"
  using unreserved_not_special[of c] by auto

lemma url_repl_char:
  assumes "n < 64"
  shows "url_repl (b64_char n) = b64url_char n \<and> b64url_safe (b64url_char n) \<and> b64url_char n \<noteq> CHR ''=''"
proof (cases "n < 62")
  case True
  then show ?thesis
    using b64_char_alnum[OF True] alnum_not_symbol[OF b64_char_alnum[OF True]]
    by (simp add: url_repl_def b64url_char_def b64url_safe_def)
next
  case False
  then have "n = 62 \<or> n = 63" using assms by linarith
  then show ?thesis by (auto simp: url_repl_def b64url_char_def b64_char_def b64url_safe_def)
qed

fun b64url :: "string \<Rightarrow> string" where
  "b64url [] = []"
| "b64url [a] = [b64url_char (code_of a div 4), b64url_char (code_of a mod 4 * 16)]"
| "b64url [a, b] =
     [b64url_char (code_of a div 4), b64url_char (code_of a mod 4 * 16 + code_of b div 16),
      b64url_char (code_of b mod 16 * 4)]"
| "b64url (a # b # c # s) =
     [b64url_char (code_of a div 4), b64url_char (code_of a mod 4 * 16 + code_of b div 16),
      b64url_char (code_of b mod 16 * 4 + code_of c div 64), b64url_char (code_of c mod 64)] @ b64url s"

lemma sextets:
  "code_of a div 4 < 64" "code_of a mod 4 * 16 < 64" "code_of a mod 4 * 16 + code_of b div 16 < 64"
  "code_of b mod 16 * 4 < 64" "code_of b mod 16 * 4 + code_of c div 64 < 64" "code_of c mod 64 < 64"
proof -
  have m: "code_of a mod 4 \<le> 3" "code_of b mod 16 \<le> 15" by (simp_all add: less_Suc_eq_le[symmetric])
  have d: "code_of b div 16 < 16" "code_of c div 64 < 4"
    using code_of_less[of b] code_of_less[of c] by (simp_all add: div_less_iff_less_mult)
  show "code_of a div 4 < 64" using code_of_less[of a] by (simp add: div_less_iff_less_mult)
  show "code_of a mod 4 * 16 < 64" "code_of a mod 4 * 16 + code_of b div 16 < 64"
    "code_of b mod 16 * 4 < 64" "code_of b mod 16 * 4 + code_of c div 64 < 64" "code_of c mod 64 < 64"
    using m d by linarith+
qed

lemma url_repl_pad: "url_repl (CHR ''='') = CHR ''=''"
  by (simp add: url_repl_def)

lemma btoa_repl:
  "\<exists>k. map url_repl (btoa s) = b64url s @ replicate k (CHR ''='')"
proof (induction s rule: btoa.induct)
  case 1
  show ?case by (intro exI[of _ 0]) simp
next
  case (2 a)
  show ?case by (intro exI[of _ 2]) (simp add: url_repl_char sextets url_repl_pad numeral_2_eq_2)
next
  case (3 a b)
  show ?case by (intro exI[of _ 1]) (simp add: url_repl_char sextets url_repl_pad)
next
  case (4 a b c s)
  then obtain k where "map url_repl (btoa s) = b64url s @ replicate k (CHR ''='')" by blast
  then show ?case by (intro exI[of _ k]) (simp add: url_repl_char sextets)
qed

lemma b64url_chars: "list_all (\<lambda>c. b64url_safe c \<and> c \<noteq> CHR ''='') (b64url s)"
  by (induction s rule: b64url.induct) (simp_all add: url_repl_char sextets)

lemma base64_url_encode_alt: "base64_url_encode s = b64url s"
proof -
  obtain k where k: "map url_repl (btoa s) = b64url s @ replicate k (CHR ''='')" using btoa_repl by blast
  have "\<forall>c \<in> set (rev (b64url s)). c \<noteq> CHR ''=''" using b64url_chars[of s] by (simp add: list_all_iff)
  then have "dropWhile (\<lambda>c. c = CHR ''='') (rev (b64url s)) = rev (b64url s)"
    by (cases "rev (b64url s)") auto
  moreover have "dropWhile (\<lambda>c. c = CHR ''='') (replicate k (CHR ''='') @ w) = dropWhile (\<lambda>c. c = CHR ''='') w" for w
    by (induction k) simp_all
  moreover have "base64_url_encode s = rev (dropWhile (\<lambda>c. c = CHR ''='') (rev (map url_repl (btoa s))))"
    by (simp add: base64_url_encode_def url_repl_def[abs_def])
  ultimately show ?thesis by (simp add: k)
qed

lemma b64url_length: "length (b64url s) = (4 * length s + 2) div 3"
  by (induction s rule: b64url.induct) auto

lemma b64url_nonempty: "s \<noteq> [] \<Longrightarrow> b64url s \<noteq> []"
  by (cases s rule: b64url.cases) auto

lemma random_string_props:
  "length (random_string s) = (4 * length s + 2) div 3" "list_all b64url_safe (random_string s)"
  "s \<noteq> [] \<Longrightarrow> random_string s \<noteq> []"
  using b64url_chars[of s]
  by (simp_all add: random_string_def base64_url_encode_alt b64url_length b64url_nonempty list_all_iff)

section \<open>Properties\<close>

text \<open>
  The verifier has the length the specification asks for: forty-eight random bytes give exactly
  sixty-four characters (PKCE allows 43 to 128), all of them unreserved in an address, and the
  state's sixteen bytes give twenty-two.
\<close>

theorem verifier_shape:
  assumes "length bytes48 = 48" and "length bytes16 = 16"
  shows "length (random_string bytes48) = 64 \<and> length (random_string bytes16) = 22 \<and>
    list_all uri_unreserved (random_string bytes48) \<and>
    encode_uri_component (random_string bytes16) = random_string bytes16"
proof -
  have u: "b64url_safe c \<Longrightarrow> uri_unreserved c" for c
    by (auto simp: b64url_safe_def uri_unreserved_def code_of_def)
  then have a: "list_all uri_unreserved (random_string s)" for s
    using random_string_props(2)[of s] by (simp add: list_all_iff)
  then have "\<forall>c \<in> set (random_string bytes16). uri_unreserved c" by (simp add: list_all_iff)
  then have "encode_uri_component (random_string bytes16) = concat (map (\<lambda>c. [c]) (random_string bytes16))"
    unfolding encode_uri_component_def by (intro arg_cong[of _ _ concat] map_cong) auto
  then show ?thesis using assms a by (simp add: random_string_props(1) concat_map_singleton)
qed

theorem verifier_shape_witness:
  "length (random_string (replicate 48 (CHR ''a''))) = 64"
  using verifier_shape[of "replicate 48 (CHR ''a'')" "replicate 16 (CHR ''b'')"] by simp

text \<open>What the callback does with the storage that a sign-in has left.\<close>

lemma callback_after_sign_in:
  assumes "oidc_sign_in sha b48 b16 cfg returnTo st = Inr (st', url)"
    and "b48 \<noteq> []" and "b16 \<noteq> []" and "c \<noteq> []"
  shows "url = authorize_url cfg (random_string b16) (code_challenge_for sha (random_string b48)) \<and>
    handle_callback net now cfg (Some c) (Some (random_string b16)) st' =
      (token_result now returnTo (net (token_request cfg c (random_string b48))),
       try_remove return_to_key (try_remove state_key (try_remove verifier_key st')),
       [token_request cfg c (random_string b48)])"
proof -
  have u: "\<not> st_blocked st" "st' = st\<lparr>st_items := (st_items st)(verifier_key \<mapsto> random_string b48,
      state_key \<mapsto> random_string b16, return_to_key \<mapsto> returnTo)\<rparr>"
    "url = authorize_url cfg (random_string b16) (code_challenge_for sha (random_string b48))"
    using assms(1) by (auto simp: oidc_sign_in_def Let_def set_item_def split: if_splits)
  have g: "try_get st' verifier_key = Some (random_string b48)" "try_get st' state_key = Some (random_string b16)"
    "try_get st' return_to_key = Some returnTo" "\<not> st_blocked st'"
    using u oidc_keys_distinct by (auto simp: try_get_def get_item_def)
  show ?thesis using assms(2-4) g u(3) random_string_props(3) by (simp add: handle_callback_def Let_def)
qed

text \<open>
  C14. Signing in and coming back belong together: the address the user is sent to carries the state and
  the S256 challenge of a verifier kept in session storage; when the provider returns that state
  with a code, one token request is sent, with that code and that very verifier, the user lands
  where they started, and the three entries are gone from session storage.
\<close>

theorem sign_in_roundtrip:
  assumes "oidc_sign_in sha b48 b16 cfg returnTo st = Inr (st', url)"
    and "b48 \<noteq> []" and "b16 \<noteq> []" and "c \<noteq> []"
  shows "url = ''https://'' @ oc_domain cfg @ ''/oauth2/authorize?'' @
      params_str (authorize_params cfg (random_string b16) (base64_url_encode (sha (random_string b48)))) \<and>
    (\<exists>out st''. handle_callback net now cfg (Some c) (Some (random_string b16)) st' =
       (out, st'', [token_request cfg c (random_string b48)]) \<and>
       out = token_result now returnTo (net (token_request cfg c (random_string b48))) \<and>
       try_get st'' verifier_key = None \<and> try_get st'' state_key = None \<and> try_get st'' return_to_key = None) \<and>
    params_parse (params_str (token_params cfg c (random_string b48))) = token_params cfg c (random_string b48)"
proof -
  let ?st = "try_remove return_to_key (try_remove state_key (try_remove verifier_key st'))"
  have gone: "try_get ?st verifier_key = None" "try_get ?st state_key = None" "try_get ?st return_to_key = None"
    using oidc_keys_distinct by simp_all
  with callback_after_sign_in[OF assms] params_parse_str show ?thesis
    by (simp add: authorize_url_def code_challenge_for_def)
qed

definition demo_cfg :: oidc_config where
  "demo_cfg = \<lparr>oc_domain = ''idp.example'', oc_client_id = ''cid'',
     oc_redirect_uri = ''https://t.example/auth/callback'', oc_logout_uri = ''https://t.example/''\<rparr>"

definition empty_storage :: storage where
  "empty_storage = \<lparr>st_blocked = False, st_full = False, st_items = Map.empty\<rparr>"

lemma demo_sign_in: "\<exists>st' url. oidc_sign_in (\<lambda>x. x) ''ab'' ''cd'' demo_cfg r empty_storage = Inr (st', url)"
  by (simp add: oidc_sign_in_def Let_def set_item_def empty_storage_def)

theorem sign_in_roundtrip_witness:
  "\<exists>st' url. oidc_sign_in (\<lambda>x. x) ''ab'' ''cd'' demo_cfg ''/lists'' empty_storage = Inr (st', url) \<and>
     snd (snd (handle_callback (\<lambda>_. None) 0 demo_cfg (Some ''code'') (Some (random_string ''cd'')) st')) =
       [token_request demo_cfg ''code'' (random_string ''ab'')]"
proof -
  obtain st' url where s: "oidc_sign_in (\<lambda>x. x) ''ab'' ''cd'' demo_cfg ''/lists'' empty_storage = Inr (st', url)"
    using demo_sign_in by blast
  from sign_in_roundtrip[OF s, of "''code''" "\<lambda>_. None" 0] s show ?thesis by auto
qed



end
