(* ===== verification/Gates.thy ===== *)
theory Gates
  imports AuthStore
begin

text \<open>
  Who may see what: the route gate of \<^verbatim>\<open>web/src/components/app-route-gate.tsx\<close>, the session gate of
  \<^verbatim>\<open>auth-gate.tsx\<close>, the role gate of \<^verbatim>\<open>admin-gate.tsx\<close>, the member picker of
  \<^verbatim>\<open>member-context-required.tsx\<close>, the kiosk entry of \<^verbatim>\<open>web/src/app/kiosk/page.tsx\<close> and the address
  the sign-in page of \<^verbatim>\<open>web/src/app/login/page.tsx\<close> returns to.
\<close>

section \<open>Gates\<close>

datatype gate_view = Skeleton | Blank | Denied | Children

definition has_completed_onboarding :: "bool \<Rightarrow> auth_state \<Rightarrow> bool" where
  "has_completed_onboarding requireMemberProfile s \<longleftrightarrow>
     au_account s \<noteq> None \<and> au_household s \<noteq> None \<and> (\<not> requireMemberProfile \<or> au_member s \<noteq> None)"

definition auth_gate_redirect :: "bool \<Rightarrow> bool \<Rightarrow> string option \<Rightarrow> auth_state \<Rightarrow> string option" where
  "auth_gate_redirect requireOnboarding requireMemberProfile pathname s =
     (if au_status s = Unauthenticated then
        (let returnTo = (if truthy pathname \<and> pathname \<noteq> Some ''/''
                         then ''?returnTo='' @ encode_uri_component (the pathname) else [])
         in Some (''/login'' @ returnTo))
      else if au_status s = Authenticated \<and> requireOnboarding \<and>
              \<not> has_completed_onboarding requireMemberProfile s then Some ''/onboarding''
      else None)"

definition auth_gate_view :: "bool \<Rightarrow> bool \<Rightarrow> auth_state \<Rightarrow> gate_view" where
  "auth_gate_view requireOnboarding requireMemberProfile s =
     (if au_status s = Loading then Skeleton
      else if au_status s = Unauthenticated then Blank
      else if requireOnboarding \<and> \<not> has_completed_onboarding requireMemberProfile s then Blank
      else Children)"

definition admin_gate_view :: "auth_state \<Rightarrow> gate_view" where
  "admin_gate_view s =
     (if au_status s = Loading then Blank
      else if map_option am_role (au_member s) \<noteq> Some RoleAdult then Denied
      else Children)"

section \<open>Routes\<close>

definition public_prefixes :: "string list" where
  "public_prefixes = [''/auth'', ''/join'', ''/kiosk'', ''/lock'', ''/login'', ''/offline'', ''/onboarding'',
     ''/pin-login'', ''/preview'']"

definition member_selection_routes :: "string set" where
  "member_selection_routes = {''/wallet'', ''/chores''}"

definition is_public_or_preview_path :: "string \<Rightarrow> bool" where
  "is_public_or_preview_path pathname =
     (list_ex (\<lambda>p. pathname = p \<or> starts_with pathname (p @ ''/'')) public_prefixes \<or>
      list_ex (\<lambda>seg. seg = ''preview'' \<or> starts_with seg ''preview-'')
        (filter (\<lambda>seg. seg \<noteq> []) (split_on (CHR ''/'') pathname)))"

text \<open>The view and the redirect of a page under the route gate.\<close>

definition app_route_gate :: "string option \<Rightarrow> auth_state \<Rightarrow> gate_view \<times> string option" where
  "app_route_gate pathname s =
     (let p = (if truthy pathname then the pathname else ''/'')
      in if is_public_or_preview_path p then (Children, None)
         else if p \<in> member_selection_routes
              then (auth_gate_view True False s, auth_gate_redirect True False pathname s)
         else (auth_gate_view True True s, auth_gate_redirect True True pathname s))"

section \<open>Choosing a member\<close>

record api_member_ref =
  mr_id :: string
  mr_name :: string
  mr_role :: string

definition to_auth_member :: "api_member_ref \<Rightarrow> auth_member" where
  "to_auth_member m = \<lparr>am_id = mr_id m, am_name = mr_name m,
     am_role = (if mr_role m = ''child'' then RoleChild else RoleAdult)\<rparr>"

definition selectable_members :: "api_member_ref list option \<Rightarrow> api_member_ref list" where
  "selectable_members members = (case members of None \<Rightarrow> [] | Some ms \<Rightarrow> filter (\<lambda>m. mr_role m \<noteq> ''pet'') ms)"

text \<open>A child is sent to the kiosk, anyone else becomes the active member at once.\<close>

definition handle_select :: "string \<Rightarrow> api_member_ref \<Rightarrow> string + auth_member" where
  "handle_select returnTo m =
     (if mr_role m = ''child''
      then Inl (''/kiosk?member='' @ encode_uri_component (mr_id m) @ ''&returnTo='' @ encode_uri_component returnTo)
      else Inr (to_auth_member m))"

section \<open>The kiosk entry\<close>

datatype lock_state = Lock | Members | Pin

text \<open>
  \<open>kp_pending\<close>: the members whose PIN waits for the server's answer, which may come after the user
  went back; \<open>kp_accepted\<close>: the members whose PIN the server accepted.
\<close>

record kiosk_page =
  kp_state :: lock_state
  kp_selected :: "api_member_ref option"
  kp_pushed :: "string option"
  kp_pending :: "api_member_ref list"
  kp_accepted :: "api_member_ref list"

definition params_get :: "string \<Rightarrow> search_params \<Rightarrow> string option" where
  "params_get k ps = map_of ps k"

definition kiosk_return_to :: "search_params \<Rightarrow> string" where
  "kiosk_return_to ps =
     (case params_get ''returnTo'' ps of
        None \<Rightarrow> ''/''
      | Some r \<Rightarrow> if starts_with r ''/'' \<and> \<not> starts_with r ''//'' then r else ''/'')"

definition kiosk_start :: kiosk_page where
  "kiosk_start = \<lparr>kp_state = Lock, kp_selected = None, kp_pushed = None, kp_pending = [],
     kp_accepted = []\<rparr>"

text \<open>The effect for the preselected member runs when the members are there.\<close>

definition kiosk_preselect :: "search_params \<Rightarrow> api_member_ref list option \<Rightarrow> kiosk_page \<Rightarrow> kiosk_page" where
  "kiosk_preselect ps members k =
     (let preSelectId = params_get ''member'' ps
      in if \<not> truthy preSelectId then k
         else (case members of
           None \<Rightarrow> k
         | Some ms \<Rightarrow> (case find (\<lambda>m. Some (mr_id m) = preSelectId \<and> mr_role m \<noteq> ''pet'') ms of
             None \<Rightarrow> k
           | Some found \<Rightarrow> k\<lparr>kp_selected := Some found, kp_state := Pin\<rparr>)))"

definition handle_lock_click :: "kiosk_page \<Rightarrow> kiosk_page" where
  "handle_lock_click k = k\<lparr>kp_state := Members\<rparr>"

definition handle_select_member :: "api_member_ref \<Rightarrow> kiosk_page \<Rightarrow> kiosk_page" where
  "handle_select_member m k = k\<lparr>kp_selected := Some m, kp_state := Pin\<rparr>"

definition submit_pin :: "kiosk_page \<Rightarrow> kiosk_page" where
  "submit_pin k = (case kp_selected k of None \<Rightarrow> k | Some m \<Rightarrow> k\<lparr>kp_pending := kp_pending k @ [m]\<rparr>)"

definition pin_accepted :: "api_member_ref \<Rightarrow> kiosk_page \<Rightarrow> kiosk_page" where
  "pin_accepted m k = k\<lparr>kp_pending := remove1 m (kp_pending k), kp_accepted := m # kp_accepted k\<rparr>"

definition pin_rejected :: "api_member_ref \<Rightarrow> kiosk_page \<Rightarrow> kiosk_page" where
  "pin_rejected m k = k\<lparr>kp_pending := remove1 m (kp_pending k)\<rparr>"

definition handle_pin_success :: "search_params \<Rightarrow> kiosk_page \<Rightarrow> kiosk_page" where
  "handle_pin_success ps k = k\<lparr>kp_pushed := Some (kiosk_return_to ps)\<rparr>"

definition handle_back :: "kiosk_page \<Rightarrow> kiosk_page" where
  "handle_back k = k\<lparr>kp_selected := None, kp_state := Members\<rparr>"

text \<open>What the page lets happen: each handler belongs to the screen that shows it.\<close>

inductive kiosk_step :: "search_params \<Rightarrow> api_member_ref list option \<Rightarrow> kiosk_page \<Rightarrow> kiosk_page \<Rightarrow> bool"
  for ps members where
  preselect: "kiosk_step ps members k (kiosk_preselect ps members k)"
| lock_click: "kp_state k = Lock \<Longrightarrow> kiosk_step ps members k (handle_lock_click k)"
| pick: "kp_state k = Members \<Longrightarrow> m \<in> set (selectable_members members) \<Longrightarrow>
    kiosk_step ps members k (handle_select_member m k)"
| submit: "kp_state k = Pin \<Longrightarrow> kp_selected k \<noteq> None \<Longrightarrow> kiosk_step ps members k (submit_pin k)"
| pin_ok: "m \<in> set (kp_pending k) \<Longrightarrow> kiosk_step ps members k (handle_pin_success ps (pin_accepted m k))"
| pin_wrong: "m \<in> set (kp_pending k) \<Longrightarrow> kiosk_step ps members k (pin_rejected m k)"
| go_back: "kp_state k = Pin \<Longrightarrow> kp_selected k \<noteq> None \<Longrightarrow> kiosk_step ps members k (handle_back k)"

inductive kiosk_reachable :: "search_params \<Rightarrow> api_member_ref list option \<Rightarrow> kiosk_page \<Rightarrow> bool"
  for ps members where
  start: "kiosk_reachable ps members kiosk_start"
| step: "kiosk_reachable ps members k \<Longrightarrow> kiosk_step ps members k k' \<Longrightarrow> kiosk_reachable ps members k'"

inductive_simps kiosk_step_iff: "kiosk_step ps members k k'"

lemmas kiosk_ops = kiosk_preselect_def handle_lock_click_def handle_select_member_def handle_pin_success_def
  handle_back_def submit_pin_def pin_accepted_def pin_rejected_def Let_def

definition kiosk_inv :: "search_params \<Rightarrow> api_member_ref list option \<Rightarrow> kiosk_page \<Rightarrow> bool" where
  "kiosk_inv ps members k \<longleftrightarrow>
     (kp_state k = Pin \<longleftrightarrow> kp_selected k \<noteq> None) \<and>
     (\<forall>m. kp_selected k = Some m \<longrightarrow> m \<in> set (selectable_members members)) \<and>
     set (kp_pending k) \<union> set (kp_accepted k) \<subseteq> set (selectable_members members) \<and>
     kp_pushed k = (if kp_accepted k = [] then None else Some (kiosk_return_to ps))"

lemma preselect_found:
  "kiosk_preselect ps members k = k \<or>
     (\<exists>m \<in> set (selectable_members members). kiosk_preselect ps members k = k\<lparr>kp_selected := Some m, kp_state := Pin\<rparr>)"
proof (cases members)
  case None
  then show ?thesis by (simp add: kiosk_preselect_def Let_def)
next
  case (Some ms)
  show ?thesis
  proof (cases "find (\<lambda>m. Some (mr_id m) = params_get ''member'' ps \<and> mr_role m \<noteq> ''pet'') ms")
    case None
    then show ?thesis by (simp add: kiosk_preselect_def Let_def Some)
  next
    case f: (Some m)
    from find_Some_set[OF f] have "m \<in> set (selectable_members members)" by (simp add: selectable_members_def Some)
    then show ?thesis by (auto simp: kiosk_preselect_def Let_def Some f)
  qed
qed

lemma remove1_subset: "set xs \<subseteq> A \<Longrightarrow> set (remove1 x xs) \<subseteq> A"
  using set_remove1_subset[of x xs] by blast

lemma kiosk_inv_ops:
  assumes "kiosk_inv ps members k"
  shows "m \<in> set (selectable_members members) \<Longrightarrow> kiosk_inv ps members (k\<lparr>kp_selected := Some m, kp_state := Pin\<rparr>)"
    and "kp_state k = Lock \<Longrightarrow> kiosk_inv ps members (handle_lock_click k)"
    and "kiosk_inv ps members (handle_back k)" and "kiosk_inv ps members (submit_pin k)"
    and "m \<in> set (kp_pending k) \<Longrightarrow> kiosk_inv ps members (handle_pin_success ps (pin_accepted m k))"
    and "kiosk_inv ps members (pin_rejected m k)"
  using assms remove1_subset[of "kp_pending k" "set (selectable_members members)" m]
  by (auto simp: kiosk_inv_def kiosk_ops split: option.split)

lemma kiosk_inv_step: "kiosk_step ps members k k' \<Longrightarrow> kiosk_inv ps members k \<Longrightarrow> kiosk_inv ps members k'"
proof (induction rule: kiosk_step.induct)
  case (preselect k)
  then show ?case using preselect_found[of ps members k] kiosk_inv_ops(1) by auto
next
  case (pick k m)
  then show ?case using kiosk_inv_ops(1) by (simp add: handle_select_member_def)
qed (auto intro: kiosk_inv_ops)

lemma kiosk_inv_reachable: "kiosk_reachable ps members k \<Longrightarrow> kiosk_inv ps members k"
proof (induction rule: kiosk_reachable.induct)
  case start
  then show ?case by (simp add: kiosk_inv_def kiosk_start_def)
next
  case (step k k')
  then show ?case by (blast intro: kiosk_inv_step)
qed

section \<open>Signing in\<close>

definition login_return_to :: "search_params \<Rightarrow> string" where
  "login_return_to ps = (case params_get ''returnTo'' ps of None \<Rightarrow> ''/'' | Some r \<Rightarrow> r)"

section \<open>Lemmas\<close>

lemma form_decode_uri: "form_decode (encode_uri_component s) = s"
proof -
  have "CHR ''+'' \<notin> set (encode_uri_component s)"
    using encode_uri_component_chars[of s] by (auto simp: path_special_def)
  then have "map (\<lambda>c. if c = CHR ''+'' then char_of (32 :: nat) else c) (encode_uri_component s) = encode_uri_component s"
    by (induction "encode_uri_component s") (auto intro: map_idI)
  then show ?thesis by (simp add: form_decode_def decode_encode_uri)
qed

lemma parse_return_to: "params_parse (''returnTo='' @ encode_uri_component s) = [(''returnTo'', s)]"
proof -
  have "CHR ''&'' \<notin> set (''returnTo='' @ encode_uri_component s)"
    using encode_uri_component_chars[of s] by (auto simp: path_special_def)
  note one = split_on_none[OF this]
  have n: "form_decode ''returnTo'' = ''returnTo''" by code_simp
  show ?thesis unfolding params_parse_def one by (simp add: form_decode_uri n)
qed

text \<open>The segments of a path.\<close>

lemma prefix_segment:
  assumes "CHR ''/'' \<notin> set w"
  shows "(CHR ''/'' # p = CHR ''/'' # w \<or> starts_with (CHR ''/'' # p) ((CHR ''/'' # w) @ ''/'')) \<longleftrightarrow>
    hd (split_on (CHR ''/'') p) = w"
  using assms
proof (induction p arbitrary: w)
  case Nil
  then show ?case by (auto simp: starts_with_def)
next
  case (Cons c p)
  show ?case
  proof (cases "c = CHR ''/''")
    case True
    with Cons.prems show ?thesis by (cases w) (auto simp: starts_with_def)
  next
    case False
    obtain q qs where q: "split_on (CHR ''/'') p = q # qs"
      using split_on_nonempty[of "CHR ''/''" p] by (cases "split_on (CHR ''/'') p") auto
    show ?thesis
    proof (cases w)
      case Nil
      with False q show ?thesis by (simp add: starts_with_def)
    next
      case w: (Cons d w')
      with Cons.IH[of w'] Cons.prems q False show ?thesis by (auto simp: starts_with_def)
    qed
  qed
qed

section \<open>Properties\<close>

text \<open>
  C16. A protected page is shown only with a session: under the route gate the content of a path that is
  not public appears exactly when the user is authenticated with an account and a household, and,
  except on the two pages that choose a member themselves, a member; while the session loads or is
  missing nothing of the page is shown.
\<close>

theorem protected_pages:
  assumes "\<not> is_public_or_preview_path path" and "path \<noteq> []"
  shows "(fst (app_route_gate (Some path) s) = Children \<longleftrightarrow>
      au_status s = Authenticated \<and> au_account s \<noteq> None \<and> au_household s \<noteq> None \<and>
      (path \<in> {''/wallet'', ''/chores''} \<or> au_member s \<noteq> None)) \<and>
    (fst (app_route_gate (Some path) s) = Children \<longrightarrow> snd (app_route_gate (Some path) s) = None)"
proof -
  have "au_status s = Authenticated \<or> au_status s = Loading \<or> au_status s = Unauthenticated"
    by (cases "au_status s") auto
  with assms show ?thesis
    by (auto simp: app_route_gate_def Let_def auth_gate_view_def auth_gate_redirect_def
        has_completed_onboarding_def member_selection_routes_def)
qed

theorem protected_pages_witness:
  "fst (app_route_gate (Some ''/settings'') (initial_auth demo_storage)) \<noteq> Children"
proof -
  have "\<not> is_public_or_preview_path ''/settings''" by code_simp
  from protected_pages[OF this] show ?thesis by (simp add: initial_auth_def)
qed

text \<open>
  The public paths, by their segments: a path is open exactly when its first segment is one of the
  nine public names, or when some segment is \<^verbatim>\<open>preview\<close> or starts with \<^verbatim>\<open>preview-\<close>; a name that
  merely starts like a public one stays protected.
\<close>

theorem public_paths:
  shows "is_public_or_preview_path (CHR ''/'' # p) \<longleftrightarrow>
    hd (split_on (CHR ''/'') p) \<in> {''auth'', ''join'', ''kiosk'', ''lock'', ''login'', ''offline'', ''onboarding'',
      ''pin-login'', ''preview''} \<or>
    (\<exists>seg \<in> set (split_on (CHR ''/'') p). seg = ''preview'' \<or> starts_with seg ''preview-'')"
proof -
  have pre: "list_ex (\<lambda>q. CHR ''/'' # p = q \<or> starts_with (CHR ''/'' # p) (q @ ''/'')) public_prefixes \<longleftrightarrow>
      hd (split_on (CHR ''/'') p) \<in> {''auth'', ''join'', ''kiosk'', ''lock'', ''login'', ''offline'', ''onboarding'',
      ''pin-login'', ''preview''}"
    using prefix_segment[of "''auth''" p] prefix_segment[of "''join''" p] prefix_segment[of "''kiosk''" p]
      prefix_segment[of "''lock''" p] prefix_segment[of "''login''" p] prefix_segment[of "''offline''" p]
      prefix_segment[of "''onboarding''" p] prefix_segment[of "''pin-login''" p] prefix_segment[of "''preview''" p]
    by (simp add: public_prefixes_def del: split_on.simps)
  have "list_ex (\<lambda>seg. seg = ''preview'' \<or> starts_with seg ''preview-'')
      (filter (\<lambda>seg. seg \<noteq> []) (split_on (CHR ''/'') (CHR ''/'' # p))) \<longleftrightarrow>
      (\<exists>seg \<in> set (split_on (CHR ''/'') p). seg = ''preview'' \<or> starts_with seg ''preview-'')"
    by (auto simp: list_ex_iff starts_with_def)
  with pre show ?thesis unfolding is_public_or_preview_path_def by blast
qed

text \<open>
  After signing in the user comes back: the session gate of a page without a session sends the
  user to the sign-in page, and the address that page reads from its query is the path that was
  asked for, whatever characters it holds; the kiosk entry, whose \<^verbatim>\<open>returnTo\<close> anyone can write, only
  ever leads to an address that starts with one slash.
\<close>

theorem return_addresses:
  assumes "au_status s = Unauthenticated" and "path \<noteq> []" and "path \<noteq> ''/''"
  shows "(\<exists>query. auth_gate_redirect ob mb (Some path) s = Some (''/login?'' @ query) \<and>
      login_return_to (params_parse query) = path) \<and>
    starts_with (kiosk_return_to ps) ''/'' \<and> \<not> starts_with (kiosk_return_to ps) ''//''"
proof -
  have "auth_gate_redirect ob mb (Some path) s = Some (''/login?'' @ ''returnTo='' @ encode_uri_component path)"
    using assms by (simp add: auth_gate_redirect_def)
  moreover have "login_return_to (params_parse (''returnTo='' @ encode_uri_component path)) = path"
    unfolding parse_return_to by (simp add: login_return_to_def params_get_def)
  moreover have "starts_with (kiosk_return_to ps) ''/'' \<and> \<not> starts_with (kiosk_return_to ps) ''//''"
    by (auto simp: kiosk_return_to_def starts_with_def split: option.split)
  ultimately show ?thesis by blast
qed

theorem return_addresses_witness:
  "\<exists>query. auth_gate_redirect True True (Some ''/lists/a b'') (drop_session (initial_auth demo_storage)) =
     Some (''/login?'' @ query) \<and> login_return_to (params_parse query) = ''/lists/a b''"
  using return_addresses[of "drop_session (initial_auth demo_storage)" "''/lists/a b''" True True "[]"]
  by (simp add: drop_session_def clear_session_state_def)

text \<open>
  C17. The kiosk entry in every reachable state: the PIN pad is up exactly when a member is chosen,
  that member is a person of the household, never a pet, and the page moves on exactly when the
  server has accepted the PIN of such a member, and then only to the checked return address.
\<close>

theorem kiosk_entry_needs_pin:
  assumes "kiosk_reachable ps members k"
  shows "(kp_state k = Pin \<longleftrightarrow> kp_selected k \<noteq> None) \<and>
    (\<forall>m. kp_selected k = Some m \<or> m \<in> set (kp_accepted k) \<longrightarrow>
       (\<exists>ms. members = Some ms \<and> m \<in> set ms) \<and> mr_role m \<noteq> ''pet'') \<and>
    (kp_pushed k \<noteq> None \<longleftrightarrow> kp_accepted k \<noteq> []) \<and>
    (\<forall>r. kp_pushed k = Some r \<longrightarrow> r = kiosk_return_to ps)"
  using kiosk_inv_reachable[OF assms]
  by (auto simp: kiosk_inv_def selectable_members_def split: option.splits if_splits)

theorem kiosk_entry_needs_pin_witness:
  "kp_pushed (handle_lock_click kiosk_start) = None"
proof -
  have "kiosk_reachable [] None (handle_lock_click kiosk_start)"
    by (rule kiosk_reachable.step[OF kiosk_reachable.start kiosk_step.lock_click]) (simp add: kiosk_start_def)
  from kiosk_entry_needs_pin[OF this] show ?thesis by (auto simp: handle_lock_click_def kiosk_start_def)
qed

end
