(* ===== verification/Kiosk.thy ===== *)
theory Kiosk
  imports Machine
begin

text \<open>
  The kiosk around the pages: the idle timer of \<^verbatim>\<open>web/src/lib/use-idle-timeout.ts\<close>, the shell of
  \<^verbatim>\<open>web/src/components/kiosk/KioskAppShell.tsx\<close> with its lock (\<^verbatim>\<open>KioskLock.tsx\<close>), the rotation of the
  screensaver (\<^verbatim>\<open>AmbientScreensaver.tsx\<close>) and the quiet hours of \<^verbatim>\<open>SleepSchedule.tsx\<close>. Times are
  milliseconds on one clock; an event carries the time at which it happens.
\<close>

section \<open>The idle timer\<close>

record idle_state =
  id_idle :: bool
  id_deadline :: "int option"

datatype idle_event = Activity int | Elapse int

text \<open>\<^verbatim>\<open>reset\<close>: not idle, and a new timer.\<close>

definition idle_reset :: "int \<Rightarrow> int \<Rightarrow> idle_state \<Rightarrow> idle_state" where
  "idle_reset ms now s = s\<lparr>id_idle := False, id_deadline := Some (now + ms)\<rparr>"

definition idle_fire :: "int \<Rightarrow> idle_state \<Rightarrow> idle_state" where
  "idle_fire now s =
     (case id_deadline s of
        Some d \<Rightarrow> if d \<le> now then s\<lparr>id_idle := True, id_deadline := None\<rparr> else s
      | None \<Rightarrow> s)"

fun idle_step :: "int \<Rightarrow> idle_event \<Rightarrow> idle_state \<Rightarrow> idle_state" where
  "idle_step ms (Activity t) s = idle_reset ms t s"
| "idle_step ms (Elapse t) s = idle_fire t s"

definition idle_mount :: "int \<Rightarrow> int \<Rightarrow> idle_state" where
  "idle_mount ms now = idle_reset ms now \<lparr>id_idle = False, id_deadline = None\<rparr>"

section \<open>The shell\<close>

text \<open>
  The lock is mounted with the overlay: each time it starts empty, and what was typed is gone when the
  overlay goes. \<open>ks_epoch\<close> counts the mounts; \<open>ks_pending\<close> holds the mount that submitted each PIN
  still unanswered, since the answer is handled even when that lock is gone.
\<close>

record kiosk_shell =
  ks_idle :: idle_state
  ks_unlocked :: bool
  ks_pin :: string
  ks_error :: bool
  ks_loading :: bool
  ks_epoch :: nat
  ks_pending :: "nat list"

datatype overlay = NoOverlay | LockOverlay | Screensaver

definition ambient_active :: "kiosk_shell \<Rightarrow> bool" where
  "ambient_active s \<longleftrightarrow> id_idle (ks_idle s) \<and> \<not> ks_unlocked s"

definition shell_overlay :: "string option \<Rightarrow> kiosk_shell \<Rightarrow> overlay" where
  "shell_overlay lockMemberId s =
     (if \<not> ambient_active s then NoOverlay else if truthy lockMemberId then LockOverlay else Screensaver)"

definition shell_mount :: "int \<Rightarrow> int \<Rightarrow> kiosk_shell" where
  "shell_mount ms now =
     \<lparr>ks_idle = idle_mount ms now, ks_unlocked = False, ks_pin = [], ks_error = False, ks_loading = False,
      ks_epoch = 0, ks_pending = []\<rparr>"

datatype shell_event =
    Idle idle_event
  | TypePin string
  | SubmitPin
  | PinAnswer nat bool
  | Wake

text \<open>A step of the shell after which the overlay is gone unmounts the lock.\<close>

definition unmount_lock :: "string option \<Rightarrow> kiosk_shell \<Rightarrow> kiosk_shell" where
  "unmount_lock lockMemberId s =
     (if shell_overlay lockMemberId s = LockOverlay then s
      else s\<lparr>ks_pin := [], ks_error := False, ks_loading := False, ks_epoch := Suc (ks_epoch s)\<rparr>)"

definition change_pin :: "string \<Rightarrow> kiosk_shell \<Rightarrow> kiosk_shell" where
  "change_pin value s = s\<lparr>ks_pin := filter is_digit value\<rparr>"

definition lock_submit :: "kiosk_shell \<Rightarrow> kiosk_shell" where
  "lock_submit s =
     (if length (ks_pin s) < 4 then s
      else s\<lparr>ks_loading := True, ks_error := False, ks_pending := ks_pending s @ [ks_epoch s]\<rparr>)"

definition lock_answer :: "nat \<Rightarrow> bool \<Rightarrow> kiosk_shell \<Rightarrow> kiosk_shell" where
  "lock_answer epoch ok s =
     (if ok then s\<lparr>ks_unlocked := True, ks_loading := (ks_loading s \<and> epoch \<noteq> ks_epoch s)\<rparr>
      else if epoch = ks_epoch s then s\<lparr>ks_error := True, ks_pin := [], ks_loading := False\<rparr>
      else s)"

fun shell_step :: "int \<Rightarrow> string option \<Rightarrow> shell_event \<Rightarrow> kiosk_shell \<Rightarrow> kiosk_shell" where
  "shell_step ms lm (Idle e) s = unmount_lock lm (s\<lparr>ks_idle := idle_step ms e (ks_idle s)\<rparr>)"
| "shell_step ms lm (TypePin v) s =
     (if shell_overlay lm s = LockOverlay \<and> \<not> ks_loading s then change_pin v s else s)"
| "shell_step ms lm SubmitPin s =
     (if shell_overlay lm s = LockOverlay \<and> \<not> ks_loading s then lock_submit s else s)"
| "shell_step ms lm (PinAnswer i ok) s =
     (if i < length (ks_pending s)
      then unmount_lock lm (lock_answer (ks_pending s ! i) ok
             (s\<lparr>ks_pending := take i (ks_pending s) @ drop (Suc i) (ks_pending s)\<rparr>))
      else s)"
| "shell_step ms lm Wake s =
     (if shell_overlay lm s = Screensaver then unmount_lock lm (s\<lparr>ks_unlocked := True\<rparr>) else s)"

section \<open>Rotation and quiet hours\<close>

definition rotate_reminder :: "nat \<Rightarrow> nat \<Rightarrow> nat" where
  "rotate_reminder n i = (if n \<le> 1 then i else (i + 1) mod n)"

text \<open>\<^verbatim>\<open>toMinutes\<close>: one or two digits, a colon, two digits, nothing else after trimming.\<close>

definition to_minutes :: "string \<Rightarrow> int option" where
  "to_minutes hhmm =
     (let s = trim hhmm; hs = takeWhile is_digit s; r = dropWhile is_digit s
      in if length hs \<in> {1, 2} \<and> length r = 3 \<and> hd r = CHR '':'' \<and> list_all is_digit (tl r) then
           (let h = int (digits_val hs); mm = int (digits_val (tl r))
            in if h < 0 \<or> 23 < h \<or> mm < 0 \<or> 59 < mm then None else Some (h * 60 + mm))
         else None)"

text \<open>\<open>cur\<close> is \<^verbatim>\<open>now.getHours() * 60 + now.getMinutes()\<close>.\<close>

definition is_within_quiet_hours :: "string \<Rightarrow> string \<Rightarrow> int \<Rightarrow> bool" where
  "is_within_quiet_hours start end cur =
     (case (to_minutes start, to_minutes end) of
        (Some s, Some e) \<Rightarrow>
          if s = e then False
          else if s < e then s \<le> cur \<and> cur < e
          else s \<le> cur \<or> cur < e
      | _ \<Rightarrow> False)"

section \<open>Lemmas\<close>

fun event_time :: "idle_event \<Rightarrow> int" where
  "event_time (Activity t) = t"
| "event_time (Elapse t) = t"

definition last_activity :: "int \<Rightarrow> idle_event list \<Rightarrow> int" where
  "last_activity t0 es = fold (\<lambda>e t. case e of Activity t' \<Rightarrow> t' | Elapse _ \<Rightarrow> t) es t0"

definition last_time :: "int \<Rightarrow> idle_event list \<Rightarrow> int" where
  "last_time t0 es = fold (\<lambda>e _. event_time e) es t0"

definition in_order :: "int \<Rightarrow> idle_event list \<Rightarrow> bool" where
  "in_order t0 es \<longleftrightarrow> sorted (t0 # map event_time es)"

lemma last_time_bound: "in_order t0 (es @ [e]) \<Longrightarrow> last_time t0 es \<le> event_time e"
proof (cases es rule: rev_cases)
  case Nil
  assume "in_order t0 (es @ [e])"
  with Nil show ?thesis by (simp add: in_order_def last_time_def)
next
  case (snoc es' e')
  assume "in_order t0 (es @ [e])"
  with snoc show ?thesis by (simp add: in_order_def last_time_def sorted_append)
qed

lemma in_order_snoc: "in_order t0 (es @ [e]) \<Longrightarrow> in_order t0 es"
  by (auto simp: in_order_def sorted_append)

lemma idle_run:
  assumes "in_order t0 es" and "0 < ms"
  shows "let s = run (idle_step ms) es (idle_mount ms t0) in
    (id_idle s \<longleftrightarrow> last_activity t0 es + ms \<le> last_time t0 es) \<and>
    id_deadline s = (if id_idle s then None else Some (last_activity t0 es + ms))"
  using assms(1)
proof (induction es rule: rev_induct)
  case Nil
  with assms(2) show ?case by (simp add: idle_mount_def idle_reset_def last_activity_def last_time_def)
next
  case (snoc e es)
  note IH = snoc.IH[OF in_order_snoc[OF snoc.prems], unfolded Let_def]
  from last_time_bound[OF snoc.prems] IH assms(2) show ?case
    by (cases e) (auto simp: Let_def idle_reset_def idle_fire_def last_activity_def last_time_def split: option.splits)
qed

lemmas shell_ops = unmount_lock_def change_pin_def lock_submit_def lock_answer_def

lemma shell_unlocked_stays: "ks_unlocked s \<Longrightarrow> ks_unlocked (shell_step ms lm e s)"
  by (cases e) (auto simp: shell_ops)

text \<open>What the lock holds is always a row of digits, and nothing while there is no lock.\<close>

definition typed_ok :: "kiosk_shell \<Rightarrow> bool" where
  "typed_ok s \<longleftrightarrow> list_all is_digit (ks_pin s) \<and> (ks_loading s \<longrightarrow> 4 \<le> length (ks_pin s))"

definition lock_ok :: "string option \<Rightarrow> kiosk_shell \<Rightarrow> bool" where
  "lock_ok lm s \<longleftrightarrow> typed_ok s \<and> (shell_overlay lm s \<noteq> LockOverlay \<longrightarrow> ks_pin s = [] \<and> \<not> ks_loading s)"

lemma overlay_fields [simp]:
  "shell_overlay lm (s\<lparr>ks_pin := p\<rparr>) = shell_overlay lm s" "shell_overlay lm (s\<lparr>ks_error := b\<rparr>) = shell_overlay lm s"
  "shell_overlay lm (s\<lparr>ks_loading := b\<rparr>) = shell_overlay lm s"
  "shell_overlay lm (s\<lparr>ks_pending := ps\<rparr>) = shell_overlay lm s"
  "shell_overlay lm (s\<lparr>ks_epoch := n\<rparr>) = shell_overlay lm s"
  by (simp_all add: shell_overlay_def ambient_active_def)

lemma overlay_unlocked [simp]: "shell_overlay lm (s\<lparr>ks_unlocked := True\<rparr>) = NoOverlay"
  by (simp add: shell_overlay_def ambient_active_def)

lemma unmount_ok: "typed_ok s \<Longrightarrow> lock_ok lm (unmount_lock lm s)"
  by (auto simp: unmount_lock_def lock_ok_def typed_ok_def)

lemma digits_filter: "list_all is_digit (filter is_digit v)"
  by (simp add: list_all_iff)

lemma lock_ok_step: "lock_ok lm s \<Longrightarrow> lock_ok lm (shell_step ms lm e s)"
proof (cases e)
  case (Idle i)
  assume "lock_ok lm s"
  then have "typed_ok (s\<lparr>ks_idle := idle_step ms i (ks_idle s)\<rparr>)" by (simp add: lock_ok_def typed_ok_def)
  then show ?thesis unfolding Idle by (simp add: unmount_ok)
next
  case (PinAnswer i ok)
  assume l: "lock_ok lm s"
  then have "typed_ok (lock_answer k ok (s\<lparr>ks_pending := ps\<rparr>))" for k ps
    by (auto simp: lock_ok_def typed_ok_def lock_answer_def)
  with l show ?thesis unfolding PinAnswer by (simp add: unmount_ok)
next
  case Wake
  assume l: "lock_ok lm s"
  then have "typed_ok (s\<lparr>ks_unlocked := True\<rparr>)" by (simp add: lock_ok_def typed_ok_def)
  with l show ?thesis unfolding Wake by (simp add: unmount_ok)
next
  case (TypePin v)
  assume "lock_ok lm s"
  then show ?thesis unfolding TypePin by (auto simp: lock_ok_def typed_ok_def change_pin_def digits_filter)
next
  case SubmitPin
  assume "lock_ok lm s"
  then show ?thesis unfolding SubmitPin by (auto simp: lock_ok_def typed_ok_def lock_submit_def)
qed

text \<open>The shell as a machine whose rank, having been unlocked once, never falls.\<close>

interpretation kiosk: monotone_machine "shell_step ms lm" "\<lambda>_. True" "lock_ok lm" "\<lambda>s. if ks_unlocked s then 1 else 0"
  by unfold_locales (auto intro: lock_ok_step shell_unlocked_stays)

lemma to_minutes_bounds: "to_minutes v = Some m \<Longrightarrow> 0 \<le> m \<and> m < 1440"
  by (auto simp: to_minutes_def Let_def split: if_splits)

section \<open>Properties\<close>

text \<open>
  The idle timer: for events in the order of their times the kiosk counts as idle exactly when no
  activity has happened for at least the timeout, measured at the last moment observed, and a timer
  runs exactly while it does not.
\<close>

theorem idle_after_timeout:
  assumes "in_order t0 es" and "0 < ms"
  shows "(id_idle (run (idle_step ms) es (idle_mount ms t0)) \<longleftrightarrow> last_activity t0 es + ms \<le> last_time t0 es) \<and>
    (id_deadline (run (idle_step ms) es (idle_mount ms t0)) = None \<longleftrightarrow>
      id_idle (run (idle_step ms) es (idle_mount ms t0)))"
  using idle_run[OF assms] by (auto simp: Let_def)

theorem idle_after_timeout_witness:
  "id_idle (run (idle_step 300000) [Activity 1000, Elapse 200000, Elapse 301000] (idle_mount 300000 0))"
  using idle_after_timeout[of 0 "[Activity 1000, Elapse 200000, Elapse 301000]" 300000]
  by (simp add: in_order_def last_activity_def last_time_def)

text \<open>
  The kiosk lock does not hold: while it is on the screen, any touch, key or mouse movement takes it
  away, although no PIN was entered and the shell was never unlocked; it comes back only after
  another idle period.
\<close>

theorem lock_gone_on_activity:
  assumes "shell_overlay lm s = LockOverlay"
  shows "shell_overlay lm (shell_step ms lm (Idle (Activity t)) s) = NoOverlay \<and>
    \<not> ks_unlocked (shell_step ms lm (Idle (Activity t)) s) \<and>
    ks_pending (shell_step ms lm (Idle (Activity t)) s) = ks_pending s"
  using assms
  by (auto simp: shell_overlay_def ambient_active_def unmount_lock_def idle_reset_def split: if_splits)

theorem lock_gone_on_activity_witness:
  "(let s = shell_step 300000 (Some ''m1'') (Idle (Elapse 300000)) (shell_mount 300000 0) in
     shell_overlay (Some ''m1'') s = LockOverlay \<and>
     shell_overlay (Some ''m1'') (shell_step 300000 (Some ''m1'') (Idle (Activity 300001)) s) = NoOverlay)"
proof -
  have "shell_overlay (Some ''m1'') (shell_step 300000 (Some ''m1'') (Idle (Elapse 300000)) (shell_mount 300000 0)) = LockOverlay"
    by (simp add: shell_mount_def idle_mount_def idle_reset_def idle_fire_def unmount_lock_def shell_overlay_def
        ambient_active_def)
  from lock_gone_on_activity[OF this] this show ?thesis by (simp add: Let_def)
qed

text \<open>
  Unlocking is for good: once the shell was unlocked, by an accepted PIN or a tap on the
  screensaver, neither the lock nor the screensaver is ever shown again, whatever happens and
  however long the kiosk is left alone; and at every moment the lock holds digits only, is empty
  while it is not shown, and has sent only PINs of at least four digits.
\<close>

theorem unlocked_for_good:
  assumes "ks_unlocked (run (shell_step ms lm) es0 (shell_mount ms t0))"
  shows "shell_overlay lm (run (shell_step ms lm) (es0 @ es) (shell_mount ms t0)) = NoOverlay \<and>
    list_all is_digit (ks_pin (run (shell_step ms lm) es0 (shell_mount ms t0))) \<and>
    (shell_overlay lm (run (shell_step ms lm) es0 (shell_mount ms t0)) \<noteq> LockOverlay \<longrightarrow>
       ks_pin (run (shell_step ms lm) es0 (shell_mount ms t0)) = [])"
proof -
  let ?s = "run (shell_step ms lm) es0 (shell_mount ms t0)"
  have "lock_ok lm (shell_mount ms t0)" by (simp add: lock_ok_def typed_ok_def shell_mount_def)
  moreover have all: "list_all (\<lambda>_. True) fs" for fs :: "shell_event list" by (simp add: list_all_iff)
  ultimately have ok: "lock_ok lm ?s" by (rule kiosk.run_inv)
  from kiosk.run_rank[OF this all[of es], of ms] assms
  have "ks_unlocked (run (shell_step ms lm) es ?s)" by (simp split: if_splits)
  then show ?thesis using ok
    by (simp add: shell_overlay_def ambient_active_def lock_ok_def typed_ok_def)
qed

theorem unlocked_for_good_witness:
  "shell_overlay None (run (shell_step 1000 None) [Idle (Elapse 1000), Wake, Idle (Activity 1001), Idle (Elapse 90000)]
     (shell_mount 1000 0)) = NoOverlay"
proof -
  have idle: "shell_step 1000 None (Idle (Elapse 1000)) (shell_mount 1000 0) =
      (shell_mount 1000 0)\<lparr>ks_idle := \<lparr>id_idle = True, id_deadline = None\<rparr>, ks_epoch := 1\<rparr>" (is "_ = ?s")
    by (simp add: shell_mount_def idle_mount_def idle_reset_def idle_fire_def unmount_lock_def shell_overlay_def
        ambient_active_def)
  have "ks_unlocked (shell_step 1000 None Wake ?s)"
    by (simp add: unmount_lock_def shell_overlay_def ambient_active_def shell_mount_def)
  then have "ks_unlocked (run (shell_step 1000 None) [Idle (Elapse 1000), Wake] (shell_mount 1000 0))"
    by (simp only: run_simps idle)
  from unlocked_for_good[OF this, of "[Idle (Activity 1001), Idle (Elapse 90000)]"]
  show ?thesis unfolding append.simps by (rule conjunct1)
qed

text \<open>
  Quiet hours are an interval of the day that may cross midnight: the current minute is quiet
  exactly when its distance after the start, around the clock, is less than the length of the
  interval; start and end swapped give exactly the rest of the day, and equal or malformed times
  give no quiet hours at all.
\<close>

theorem quiet_hours:
  assumes "to_minutes start = Some s" and "to_minutes end' = Some e" and "0 \<le> cur" and "cur < 1440"
  shows "(is_within_quiet_hours start end' cur \<longleftrightarrow> (cur - s) mod 1440 < (e - s) mod 1440) \<and>
    (s \<noteq> e \<longrightarrow> is_within_quiet_hours end' start cur = (\<not> is_within_quiet_hours start end' cur))"
proof -
  have b: "0 \<le> s" "s < 1440" "0 \<le> e" "e < 1440" using to_minutes_bounds assms(1,2) by blast+
  have "x mod 1440 = (if x < 0 then x + 1440 else x)" if "-1440 < x" "x < 1440" for x :: int
  proof (cases "x < 0")
    case True
    have "(x + 1440) mod 1440 = x + 1440" by (rule mod_pos_pos_trivial) (use that True in simp_all)
    with True show ?thesis by simp
  qed (use that in simp)
  from this[of "cur - s"] this[of "e - s"] b assms(3,4) show ?thesis
    by (auto simp: is_within_quiet_hours_def assms(1,2))
qed

theorem quiet_hours_witness:
  "is_within_quiet_hours ''22:00'' ''6:00'' 30 \<longleftrightarrow> (30 - 1320) mod 1440 < (360 - 1320) mod (1440 :: int)"
proof -
  have "to_minutes ''22:00'' = Some 1320" "to_minutes ''6:00'' = Some 360" by code_simp+
  from quiet_hours[OF this, of 30] show ?thesis by simp
qed

end
