(* ===== verification/PantryCues.thy ===== *)
theory PantryCues
  imports DateUtc "HOL-Library.Product_Lexorder"
begin

text \<open>
  The pantry cues of \<^verbatim>\<open>web/src/components/shopping/PantryCues.tsx\<close>: which hints a record gives and the
  order in which they are shown. The kinds are a linear order, most urgent first, so that the
  order of the cues is a sort by key. \<^verbatim>\<open>localeCompare\<close> is the browser's collation, given as the
  position \<open>collate\<close> it assigns to a name.
\<close>

record pantry_cue_record =
  pr_id :: string
  pr_name :: string
  pr_amount :: "rat option"
  pr_unit :: "string option"
  pr_expires_on :: "string option"

datatype pantry_cue_kind = Low | Expiring | Expired

record pantry_cue =
  pc_id :: string
  pc_name :: string
  pc_kind :: pantry_cue_kind
  pc_message :: string
  pc_days :: "int option"

section \<open>The order of the kinds\<close>

definition cue_rank :: "pantry_cue_kind \<Rightarrow> nat" where
  "cue_rank k = (if k = Expired then 0 else if k = Expiring then 1 else 2)"

lemma cue_rank_inj: "cue_rank k = cue_rank k' \<Longrightarrow> k = k'"
  by (cases k; cases k') (simp_all add: cue_rank_def)

instantiation pantry_cue_kind :: linorder
begin

definition less_eq_pantry_cue_kind :: "pantry_cue_kind \<Rightarrow> pantry_cue_kind \<Rightarrow> bool" where
  "less_eq_pantry_cue_kind k k' \<longleftrightarrow> cue_rank k \<le> cue_rank k'"

definition less_pantry_cue_kind :: "pantry_cue_kind \<Rightarrow> pantry_cue_kind \<Rightarrow> bool" where
  "less_pantry_cue_kind k k' \<longleftrightarrow> cue_rank k < cue_rank k'"

instance
  by standard (auto simp: less_eq_pantry_cue_kind_def less_pantry_cue_kind_def intro: cue_rank_inj)

end

section \<open>Dates\<close>

text \<open>
  \<^verbatim>\<open>Date.UTC(y, m, d)\<close> as a day number: years 0 to 99 mean 1900 to 1999, a month or a day out of
  range carries over.
\<close>

definition date_utc :: "int \<Rightarrow> int \<Rightarrow> int \<Rightarrow> int" where
  "date_utc y m d =
     (let y' = (if 0 \<le> y \<and> y \<le> 99 then 1900 + y else y)
      in make_day \<lparr>cv_year = y' + m div 12, cv_month = nat (m mod 12), cv_day = d\<rparr>)"

definition ymd_shape :: "string \<Rightarrow> bool" where
  "ymd_shape s \<longleftrightarrow>
     length s = 10 \<and> s ! 4 = CHR ''-'' \<and> s ! 7 = CHR ''-'' \<and>
     list_all is_digit (take 4 s @ take 2 (drop 5 s) @ drop 8 s)"

definition days_from_now :: "string \<Rightarrow> int \<Rightarrow> int option" where
  "days_from_now isoDate now =
     (if \<not> ymd_shape isoDate then None
      else (let target = date_utc (int (digits_val (take 4 isoDate)))
                           (int (digits_val (take 2 (drop 5 isoDate))) - 1)
                           (int (digits_val (drop 8 isoDate)));
                c = civil_of_day (day_of_ms now);
                today = date_utc (cv_year c) (int (cv_month c)) (cv_day c)
            in Some (target - today)))"

section \<open>Messages\<close>

definition pluralize :: "int \<Rightarrow> string \<Rightarrow> string" where
  "pluralize n noun = int_str n @ '' '' @ noun @ (if n = 1 then [] else ''s'')"

definition capitalize :: "string \<Rightarrow> string" where
  "capitalize s = (if length s = 0 then s else uppercase (take 1 s) @ drop 1 s)"

section \<open>Cues\<close>

definition low_cue :: "pantry_cue_record \<Rightarrow> pantry_cue" where
  "low_cue r = \<lparr>pc_id = pr_id r, pc_name = pr_name r, pc_kind = Low, pc_message = ''Low on '' @ pr_name r,
     pc_days = None\<rparr>"

definition expired_cue :: "pantry_cue_record \<Rightarrow> int \<Rightarrow> pantry_cue" where
  "expired_cue r days = \<lparr>pc_id = pr_id r, pc_name = pr_name r, pc_kind = Expired,
     pc_message = capitalize (pr_name r) @ '' expired '' @ pluralize (- days) ''day'' @ '' ago'',
     pc_days = Some days\<rparr>"

definition expiring_cue :: "pantry_cue_record \<Rightarrow> int \<Rightarrow> pantry_cue" where
  "expiring_cue r days = \<lparr>pc_id = pr_id r, pc_name = pr_name r, pc_kind = Expiring,
     pc_message = (if days = 0 then capitalize (pr_name r) @ '' expires today''
                   else capitalize (pr_name r) @ '' expires in '' @ pluralize days ''day''),
     pc_days = Some days\<rparr>"

definition expiry_cues :: "int \<Rightarrow> int \<Rightarrow> pantry_cue_record \<Rightarrow> pantry_cue list" where
  "expiry_cues now window r =
     (if truthy (pr_expires_on r) then
        (case days_from_now (the (pr_expires_on r)) now of
           None \<Rightarrow> []
         | Some days \<Rightarrow> if days < 0 then [expired_cue r days]
                        else if days \<le> window then [expiring_cue r days] else [])
      else [])"

definition record_cues :: "int \<Rightarrow> rat \<Rightarrow> int \<Rightarrow> pantry_cue_record \<Rightarrow> pantry_cue list" where
  "record_cues now lowThreshold window r =
     (case pr_amount r of None \<Rightarrow> [] | Some a \<Rightarrow> if a \<le> lowThreshold then [low_cue r] else []) @
     expiry_cues now window r"

text \<open>
  The comparison of the source: by kind; then two cues with days by their days, else by name. Cues
  of one kind either all have days or all have none, so that it is a sort by this key.
\<close>

definition cue_key :: "(string \<Rightarrow> int) \<Rightarrow> pantry_cue \<Rightarrow> pantry_cue_kind \<times> int" where
  "cue_key collate c = (pc_kind c, case pc_days c of Some d \<Rightarrow> d | None \<Rightarrow> collate (pc_name c))"

definition compute_pantry_cues ::
  "(string \<Rightarrow> int) \<Rightarrow> pantry_cue_record list \<Rightarrow> int \<Rightarrow> rat option \<Rightarrow> int option \<Rightarrow> pantry_cue list" where
  "compute_pantry_cues collate records now lowStockThreshold expiringWithinDays =
     (let lowThreshold = (case lowStockThreshold of None \<Rightarrow> 1 | Some x \<Rightarrow> x);
          window = (case expiringWithinDays of None \<Rightarrow> 5 | Some x \<Rightarrow> x)
      in sort_key (cue_key collate) (concat (map (record_cues now lowThreshold window) records)))"

section \<open>Lemmas\<close>

lemma date_utc_civil:
  assumes "100 \<le> cv_year (civil_of_day n)"
  shows "date_utc (cv_year (civil_of_day n)) (int (cv_month (civil_of_day n))) (cv_day (civil_of_day n)) = n"
proof -
  have "cv_month (civil_of_day n) < 12" using valid_civil_of_day[of n] by (simp add: valid_civil_def)
  with assms make_civil[of n] show ?thesis by (cases "civil_of_day n") (simp add: date_utc_def)
qed

lemma days_from_now_value:
  assumes "four_digit_day d" and "100 \<le> cv_year (civil_of_day d)" and "100 \<le> cv_year (civil_of_day (day_of_ms now))"
  shows "days_from_now (iso_ymd d) now = Some (d - day_of_ms now)"
proof -
  from iso_ymd_parts[OF four_digit_year[OF assms(1)]] obtain a b c where p:
    "iso_ymd d = a @ CHR ''-'' # b @ CHR ''-'' # c" "length a = 4" "length b = 2" "length c = 2"
    "list_all is_digit (a @ b @ c)" "int (digits_val a) = cv_year (civil_of_day d)"
    "digits_val b = cv_month (civil_of_day d) + 1" "int (digits_val c) = cv_day (civil_of_day d)"
    by blast
  have "ymd_shape (iso_ymd d)" unfolding ymd_shape_def p(1) ymd_slices[OF p(2-4)] using p(2-5) by simp
  then show ?thesis
    unfolding days_from_now_def p(1) ymd_slices[OF p(2-4)]
    using date_utc_civil[OF assms(2)] date_utc_civil[OF assms(3)] p(6-8) by (simp add: Let_def)
qed

lemma cues_sorted: "sorted (map (cue_key collate) (compute_pantry_cues collate records now low win))"
  by (simp add: compute_pantry_cues_def Let_def)

lemma cues_members:
  "set (compute_pantry_cues collate records now (Some low) (Some win)) =
     (\<Union>r \<in> set records. set (record_cues now low win r))"
  by (simp add: compute_pantry_cues_def Let_def)

section \<open>Properties\<close>

text \<open>
  The cues stand in the order of their urgency: expired items first, the longest overdue at the
  top, then those about to expire, soonest first, then low stock.
\<close>

theorem pantry_cues_by_urgency:
  assumes "cues = compute_pantry_cues collate records now low win" and "i \<le> j" and "j < length cues"
  shows "cue_rank (pc_kind (cues ! i)) \<le> cue_rank (pc_kind (cues ! j)) \<and>
    (\<forall>d d'. pc_kind (cues ! i) = pc_kind (cues ! j) \<and> pc_days (cues ! i) = Some d \<and> pc_days (cues ! j) = Some d' \<longrightarrow>
       d \<le> d')"
proof -
  have "cue_key collate (cues ! i) \<le> cue_key collate (cues ! j)"
    using sorted_nth_mono[OF cues_sorted[of collate records now low win], of i j] assms by simp
  then show ?thesis
    by (auto simp: cue_key_def less_eq_prod_def less_eq_pantry_cue_kind_def less_pantry_cue_kind_def
        split: option.splits)
qed

definition demo_records :: "pantry_cue_record list" where
  "demo_records = [\<lparr>pr_id = ''p1'', pr_name = ''rice'', pr_amount = Some 1, pr_unit = None, pr_expires_on = None\<rparr>,
     \<lparr>pr_id = ''p2'', pr_name = ''milk'', pr_amount = None, pr_unit = None, pr_expires_on = Some (iso_ymd 20564)\<rparr>]"

theorem pantry_cues_by_urgency_witness:
  "\<exists>cues. cues = compute_pantry_cues (\<lambda>_. 0) demo_records (20565 * ms_per_day) None None \<and>
     cue_rank (pc_kind (cues ! 0)) \<le> cue_rank (pc_kind (cues ! 1))"
proof -
  have y: "year_of_day 20564 = 2026" "year_of_day 20565 = 2026"
    by (simp_all add: year_of_day_def day_from_year_def Let_def)
  have "days_from_now (iso_ymd 20564) (20565 * ms_per_day) = Some (-1)"
    using days_from_now_value[of 20564 "20565 * ms_per_day"] y
    by (simp add: four_digit_day_def civil_of_day_def Let_def day_of_ms_def ms_per_day_def)
  moreover have "iso_ymd 20564 \<noteq> []"
    using iso_ymd_length[OF four_digit_year[of 20564]] by (auto simp: four_digit_day_def)
  ultimately have "length (compute_pantry_cues (\<lambda>_. 0) demo_records (20565 * ms_per_day) None None) = 2"
    by (simp add: compute_pantry_cues_def demo_records_def record_cues_def expiry_cues_def Let_def)
  then show ?thesis
    using pantry_cues_by_urgency[where i = 0 and j = 1 and records = demo_records and collate = "\<lambda>_. 0"
        and now = "20565 * ms_per_day" and low = None and win = None, OF refl] by simp
qed

text \<open>
  A dated record gives exactly one date cue inside the window and none outside it: an expired one
  when its day is before today, an expiring one when it is at most the window away, with the number
  of calendar days between; an amount gives a low cue exactly when it is known and at most the
  threshold.
\<close>

theorem pantry_cue_cases:
  assumes "pr_expires_on r = Some (iso_ymd d)" and "four_digit_day d" and "100 \<le> cv_year (civil_of_day d)"
    and "100 \<le> cv_year (civil_of_day (day_of_ms now))" and "0 \<le> win"
  shows "(let today = day_of_ms now; date_cues = filter (\<lambda>c. pc_kind c \<noteq> Low) (record_cues now low win r) in
    date_cues = (if d < today then [expired_cue r (d - today)]
                 else if d \<le> today + win then [expiring_cue r (d - today)] else []) \<and>
    (low_cue r \<in> set (record_cues now low win r) \<longleftrightarrow> (\<exists>a. pr_amount r = Some a \<and> a \<le> low)))"
proof -
  have "iso_ymd d \<noteq> []" using iso_ymd_length[OF four_digit_year[OF assms(2)]] by auto
  then have e: "expiry_cues now win r =
      (if d < day_of_ms now then [expired_cue r (d - day_of_ms now)]
       else if d \<le> day_of_ms now + win then [expiring_cue r (d - day_of_ms now)] else [])"
    using days_from_now_value[OF assms(2-4)] by (simp add: expiry_cues_def assms(1))
  have k: "pc_kind (low_cue r) = Low" "pc_kind (expired_cue r x) = Expired" "pc_kind (expiring_cue r x) = Expiring"
    for x by (simp_all add: low_cue_def expired_cue_def expiring_cue_def)
  then have "low_cue r \<notin> set (expiry_cues now win r)" unfolding e by (auto dest: arg_cong[of _ _ pc_kind])
  moreover have "filter (\<lambda>c. pc_kind c \<noteq> Low) (expiry_cues now win r) = expiry_cues now win r"
    unfolding e by (simp add: k)
  ultimately show ?thesis unfolding Let_def e[symmetric]
    by (auto simp: record_cues_def k split: option.splits)
qed

theorem pantry_cue_cases_witness:
  "filter (\<lambda>c. pc_kind c \<noteq> Low) (record_cues (20565 * ms_per_day) 1 5 (demo_records ! 1)) =
     [expired_cue (demo_records ! 1) (-1)]"
proof -
  have y: "year_of_day 20564 = 2026" "year_of_day 20565 = 2026"
    by (simp_all add: year_of_day_def day_from_year_def Let_def)
  show ?thesis
    using pantry_cue_cases[of "demo_records ! 1" 20564 "20565 * ms_per_day" 5 1] y
    by (simp add: demo_records_def four_digit_day_def civil_of_day_def Let_def day_of_ms_def ms_per_day_def)
qed

end
