(* ===== verification/LocalTime.thy ===== *)
theory LocalTime
  imports DateUtc
begin

text \<open>
  Local time. A zone gives the local clock at an instant (\<open>tz_local\<close>, the \<^verbatim>\<open>LocalTime\<close> of the
  ECMAScript standard) and the instant of a local clock reading (\<open>tz_utc\<close>, its \<^verbatim>\<open>UTC\<close>), both in
  milliseconds; it is the browser's and stays a parameter. The getters and setters of \<^verbatim>\<open>Date\<close> that
  the calendar uses follow the standard. The locale holds the one law the calendar relies on.
\<close>

section \<open>Getters and setters\<close>

record zone =
  tz_local :: "int \<Rightarrow> int"
  tz_utc :: "int \<Rightarrow> int"

definition local_day :: "zone \<Rightarrow> int \<Rightarrow> int" where
  "local_day z t = day_of_ms (tz_local z t)"

definition local_ms :: "zone \<Rightarrow> int \<Rightarrow> int" where
  "local_ms z t = tz_local z t mod ms_per_day"

definition local_date :: "zone \<Rightarrow> int \<Rightarrow> civil" where
  "local_date z t = civil_of_day (local_day z t)"

definition get_day :: "zone \<Rightarrow> int \<Rightarrow> int" where
  "get_day z t = utc_day (local_day z t)"

definition get_hours :: "zone \<Rightarrow> int \<Rightarrow> int" where
  "get_hours z t = local_ms z t div 3600000"

definition get_minutes :: "zone \<Rightarrow> int \<Rightarrow> int" where
  "get_minutes z t = local_ms z t div 60000 mod 60"

text \<open>\<^verbatim>\<open>MakeDay\<close>: a month outside the year moves the year, a day outside the month the month.\<close>

definition js_day :: "int \<Rightarrow> int \<Rightarrow> int \<Rightarrow> int" where
  "js_day y m d = make_day \<lparr>cv_year = y + m div 12, cv_month = nat (m mod 12), cv_day = d\<rparr>"

definition set_hms :: "zone \<Rightarrow> int \<Rightarrow> int \<Rightarrow> int \<Rightarrow> int \<Rightarrow> int \<Rightarrow> int option" where
  "set_hms z h m s ms t =
     time_clip (tz_utc z (local_day z t * ms_per_day + (h * 3600000 + m * 60000 + s * 1000 + ms)))"

definition set_date :: "zone \<Rightarrow> int \<Rightarrow> int \<Rightarrow> int option" where
  "set_date z d t =
     (let c = local_date z t
      in time_clip (tz_utc z (js_day (cv_year c) (int (cv_month c)) d * ms_per_day + local_ms z t)))"

definition set_month :: "zone \<Rightarrow> int \<Rightarrow> int \<Rightarrow> int option" where
  "set_month z m t =
     (let c = local_date z t
      in time_clip (tz_utc z (js_day (cv_year c) m (cv_day c) * ms_per_day + local_ms z t)))"

text \<open>\<^verbatim>\<open>new Date(y, m, d)\<close>: a year below one hundred is one of the twentieth century.\<close>

definition new_date :: "zone \<Rightarrow> int \<Rightarrow> int \<Rightarrow> int \<Rightarrow> int option" where
  "new_date z y m d =
     time_clip (tz_utc z (js_day (if 0 \<le> y \<and> y \<le> 99 then 1900 + y else y) m d * ms_per_day))"

text \<open>The comparison of year, month and day that the screens write out.\<close>

definition same_date :: "zone \<Rightarrow> int \<Rightarrow> int \<Rightarrow> bool" where
  "same_date z a b \<longleftrightarrow>
     cv_year (local_date z a) = cv_year (local_date z b) \<and>
     cv_month (local_date z a) = cv_month (local_date z b) \<and>
     cv_day (local_date z a) = cv_day (local_date z b)"

section \<open>Days\<close>

lemma civil_of_day_inject: "civil_of_day a = civil_of_day b \<longleftrightarrow> a = b"
  by (metis make_civil)

lemma same_date_iff: "same_date z a b \<longleftrightarrow> local_day z a = local_day z b"
proof -
  have "same_date z a b \<longleftrightarrow> civil_of_day (local_day z a) = civil_of_day (local_day z b)"
    by (auto simp: same_date_def local_date_def intro!: civil.equality)
  then show ?thesis by (simp add: civil_of_day_inject)
qed

lemma local_split: "tz_local z t = local_day z t * ms_per_day + local_ms z t"
  by (simp add: local_day_def local_ms_def day_of_ms_def)

lemma local_ms_range: "0 \<le> local_ms z t" "local_ms z t < ms_per_day"
  by (simp_all add: local_ms_def ms_per_day_def)

lemma js_day_shift: "js_day y m d = js_day y m 1 + (d - 1)"
  by (simp add: js_day_def make_day_def)

lemma js_day_civil: "js_day (cv_year (civil_of_day n)) (int (cv_month (civil_of_day n))) d =
    n + (d - cv_day (civil_of_day n))"
proof -
  have m: "cv_month (civil_of_day n) < 12" using valid_civil_of_day[of n] by (simp add: valid_civil_def)
  have "n = make_day (civil_of_day n)" by (simp add: make_civil)
  then show ?thesis using m by (simp add: js_day_def make_day_def)
qed

text \<open>Months counted from the year zero, so that moving by months is adding.\<close>

definition month_index :: "civil \<Rightarrow> int" where
  "month_index c = 12 * cv_year c + int (cv_month c)"

definition first_of_month :: "int \<Rightarrow> int" where
  "first_of_month k = js_day 0 k 1"

lemma js_day_first: "js_day y m 1 = first_of_month (12 * y + m)"
  by (simp add: js_day_def first_of_month_def)

lemma civil_first_of_month:
  "civil_of_day (first_of_month k) = \<lparr>cv_year = k div 12, cv_month = nat (k mod 12), cv_day = 1\<rparr>"
proof -
  have "nat (k mod 12) < 12" by (simp add: nat_less_iff)
  moreover have "1 \<le> month_length y m" if "m < 12" for y m
  proof -
    have "m \<in> set [0..<12]" using that by simp
    moreover have "\<forall>i \<in> set [0..<12]. 1 \<le> month_start lp (i + 1) - month_start lp i" for lp
      by (simp add: upt_rec month_start_def)
    ultimately show ?thesis by (auto simp: month_length_def)
  qed
  ultimately show ?thesis unfolding first_of_month_def js_day_def
    by (subst civil_make) (auto simp: valid_civil_def)
qed

lemma month_index_first: "month_index (civil_of_day (first_of_month k)) = k"
  by (simp add: civil_first_of_month month_index_def)

lemma month_start_of_day:
  "first_of_month (month_index (civil_of_day n)) = n - cv_day (civil_of_day n) + 1"
  using js_day_civil[of n 1] by (simp add: month_index_def flip: js_day_first)

lemma month_length_first:
  "first_of_month (k + 1) - first_of_month k = month_length (k div 12) (nat (k mod 12))"
proof (cases "k mod 12 = 11")
  case True
  have k: "k + 1 = 12 * (k div 12) + (k mod 12 + 1)" by simp
  with True have k': "k + 1 = 12 * (k div 12 + 1) + 0" unfolding distrib_left by linarith
  have "(k + 1) div 12 = k div 12 + 1" "(k + 1) mod 12 = 0"
    using int_div_pos_eq[OF k'] int_mod_pos_eq[OF k'] by simp_all
  with True show ?thesis
    by (simp add: first_of_month_def js_day_def make_day_def month_length_def month_start_values
        day_from_year_Suc year_length_def)
next
  case False
  moreover have k: "k + 1 = 12 * (k div 12) + (k mod 12 + 1)" "0 \<le> k mod 12" "k mod 12 < 12" by simp_all
  ultimately have "k mod 12 + 1 < 12" by linarith
  with k have e: "(k + 1) div 12 = k div 12" "(k + 1) mod 12 = k mod 12 + 1"
    using int_div_pos_eq[OF k(1)] int_mod_pos_eq[OF k(1)] by simp_all
  have "nat (k mod 12 + 1) = nat (k mod 12) + 1" by (simp add: nat_add_distrib)
  with e show ?thesis by (simp only: first_of_month_def js_day_def make_day_def month_length_def) simp
qed

text \<open>The days of the month with index \<open>k\<close>.\<close>

lemma month_of_day_iff:
  "month_index (civil_of_day n) = k \<longleftrightarrow> first_of_month k \<le> n \<and> n < first_of_month (k + 1)"
proof -
  let ?c = "civil_of_day n"
  have v: "cv_month ?c < 12" "1 \<le> cv_day ?c" "cv_day ?c \<le> month_length (cv_year ?c) (cv_month ?c)"
    using valid_civil_of_day[of n] by (auto simp: valid_civil_def)
  let ?i = "month_index ?c"
  have d: "?i div 12 = cv_year ?c" "?i mod 12 = int (cv_month ?c)" using v(1) by (simp_all add: month_index_def)
  have lo: "first_of_month ?i \<le> n" using month_start_of_day[of n] v(2) by simp
  have hi: "n < first_of_month (?i + 1)"
    using month_start_of_day[of n] v(3) month_length_first[of ?i] by (simp add: d)
  have pos: "0 < month_length y m" if "m < 12" for y m
  proof -
    have "m \<in> set [0..<12]" using that by simp
    moreover have "\<forall>i \<in> set [0..<12]. 0 < month_start lp (i + 1) - month_start lp i" for lp
      by (simp add: upt_rec month_start_def)
    ultimately show ?thesis by (auto simp: month_length_def)
  qed
  have up: "first_of_month j < first_of_month (j + 1)" for j
    using month_length_first[of j] pos[of "nat (j mod 12)" "j div 12"] by (simp add: nat_less_iff)
  have mono: "first_of_month a \<le> first_of_month b" if "a \<le> b" for a b
    using that by (induction b rule: int_ge_induct) (auto intro: order_trans less_imp_le[OF up])
  show ?thesis
  proof
    assume "?i = k" with lo hi show "first_of_month k \<le> n \<and> n < first_of_month (k + 1)" by simp
  next
    assume a: "first_of_month k \<le> n \<and> n < first_of_month (k + 1)"
    then have "\<not> ?i + 1 \<le> k" "\<not> k + 1 \<le> ?i" using lo hi mono[of "?i + 1" k] mono[of "k + 1" ?i] by auto
    then show "?i = k" by simp
  qed
qed

section \<open>Time zones\<close>

text \<open>
  What the calendar expects of a zone: no change of the clock skips midnight, so that the instant of
  a clock reading lies on its date, and a change early in the day stays within the first six hours.
\<close>

definition early :: "int \<Rightarrow> bool" where
  "early r \<longleftrightarrow> 0 \<le> r \<and> r \<le> 21600000"

locale local_zone =
  fixes z :: zone
  assumes same_day: "\<lbrakk> 0 \<le> r; r < ms_per_day \<rbrakk> \<Longrightarrow> local_day z (tz_utc z (n * ms_per_day + r)) = n"
    and early_ms: "early r \<Longrightarrow> early (local_ms z (tz_utc z (n * ms_per_day + r)))"
begin

lemma midnight: "local_day z (tz_utc z (n * ms_per_day)) = n" "early (local_ms z (tz_utc z (n * ms_per_day)))"
  using same_day[of 0 n] early_ms[of 0 n] by (simp_all add: early_def ms_per_day_def)

lemma set_date_day:
  assumes "set_date z d t = Some t'"
  shows "local_day z t' = local_day z t + (d - cv_day (local_date z t))"
  using assms same_day[OF local_ms_range]
  by (auto simp: set_date_def Let_def local_date_def js_day_civil time_clip_def split: if_splits)

lemma set_date_early:
  assumes "early (local_ms z t)" and "set_date z d t = Some t'"
  shows "early (local_ms z t')"
  using assms early_ms[OF assms(1)]
  by (auto simp: set_date_def Let_def local_date_def js_day_civil time_clip_def split: if_splits)

lemma set_hms_day:
  assumes "set_hms z h m s ms t = Some t'"
    and "0 \<le> h * 3600000 + m * 60000 + s * 1000 + ms" and "h * 3600000 + m * 60000 + s * 1000 + ms < ms_per_day"
  shows "local_day z t' = local_day z t"
  using assms(1) same_day[OF assms(2,3), of "local_day z t"]
  by (auto simp: set_hms_def time_clip_def split: if_splits)

lemma set_midnight:
  assumes "set_hms z 0 0 0 0 t = Some t'"
  shows "local_day z t' = local_day z t" and "early (local_ms z t')"
  using assms midnight[of "local_day z t"] by (auto simp: set_hms_def time_clip_def split: if_splits)

lemma set_month_first:
  assumes "early (local_ms z t)" and "cv_day (local_date z t) = 1" and "set_month z m t = Some t'"
  shows "local_day z t' = first_of_month (12 * cv_year (local_date z t) + m)" and "early (local_ms z t')"
  using assms same_day[OF local_ms_range] early_ms[OF assms(1)]
  by (auto simp: set_month_def Let_def js_day_first time_clip_def split: if_splits)

lemma new_date_day:
  assumes "new_date z y m d = Some t" and "y < 0 \<or> 99 < y"
  shows "local_day z t = js_day y m d"
  using assms midnight by (auto simp: new_date_def time_clip_def split: if_splits)

end

text \<open>A zone that keeps one offset.\<close>

definition fixed_zone :: "int \<Rightarrow> zone" where
  "fixed_zone off = \<lparr>tz_local = \<lambda>t. t + off, tz_utc = \<lambda>l. l - off\<rparr>"

lemma day_ms_of_sum:
  assumes "0 \<le> r" and "r < ms_per_day"
  shows "day_of_ms (n * ms_per_day + r) = n" and "(n * ms_per_day + r) mod ms_per_day = r"
  using assms by (simp_all add: day_of_ms_def ms_per_day_def)

lemma early_less: "early r \<Longrightarrow> 0 \<le> r \<and> r < ms_per_day"
  by (simp add: early_def ms_per_day_def)

lemma early_mod: "early r \<Longrightarrow> r mod ms_per_day = r"
  by (simp add: early_def ms_per_day_def)

interpretation fixed: local_zone "fixed_zone off"
  by unfold_locales (auto simp: fixed_zone_def local_day_def local_ms_def day_ms_of_sum early_mod dest: early_less)

text \<open>
  A zone that changes from offset \<open>a\<close> to \<open>b\<close> at the instant \<open>s\<close>: as the standard has it, a skipped
  reading is taken with the offset before the change, a repeated one too.
\<close>

definition change_zone :: "int \<Rightarrow> int \<Rightarrow> int \<Rightarrow> zone" where
  "change_zone a b s =
     \<lparr>tz_local = \<lambda>t. if t < s then t + a else t + b,
      tz_utc = \<lambda>l. if l - a < s then l - a else if l - b < s then l - a else l - b\<rparr>"

locale clock_change =
  fixes a b s :: int
  assumes gap_start: "b - a \<le> (s + b) mod ms_per_day"
    and gap_end: "a < b \<Longrightarrow> (s + b) mod ms_per_day + (b - a) \<le> 21600000"
begin

lemma change_local:
  assumes "0 \<le> r" and "r < ms_per_day"
  shows "\<exists>r'. tz_local (change_zone a b s) (tz_utc (change_zone a b s) (n * ms_per_day + r)) = n * ms_per_day + r' \<and>
    (r' = r \<or> 0 \<le> r' \<and> r' \<le> 21600000)"
proof (cases "n * ms_per_day + r - a < s \<or> s \<le> n * ms_per_day + r - b")
  case True
  then show ?thesis by (intro exI[of _ r]) (auto simp: change_zone_def)
next
  case False
  then have ab: "a < b" and gap: "s + a \<le> n * ms_per_day + r" "n * ms_per_day + r < s + b" by auto
  let ?q = "(s + b) div ms_per_day" and ?m = "(s + b) mod ms_per_day"
  have sb: "s + b = ?q * ms_per_day + ?m" by simp
  have m: "0 \<le> ?m" "?m < ms_per_day" by (simp_all add: ms_per_day_def)
  have "?q * ms_per_day \<le> n * ms_per_day + r" using gap_start gap sb by linarith
  then have "?q \<le> n" using assms by (simp add: ms_per_day_def)
  moreover have "n \<le> ?q" using gap(2) sb m assms by (simp add: ms_per_day_def)
  ultimately have n: "n = ?q" by simp
  have "?q * ms_per_day + r < s + b" using gap(2) by (simp only: n)
  then have "r < ?m" using sb by linarith
  with gap_end[OF ab] have "r + (b - a) \<le> 21600000" by linarith
  moreover have "tz_local (change_zone a b s) (tz_utc (change_zone a b s) (n * ms_per_day + r)) =
      n * ms_per_day + (r + (b - a))"
    using False gap by (simp add: change_zone_def)
  ultimately show ?thesis using assms(1) ab by (intro exI[of _ "r + (b - a)"]) auto
qed

end

sublocale clock_change \<subseteq> local_zone "change_zone a b s"
proof
  fix r n :: int
  {
    assume "0 \<le> r" and "r < ms_per_day"
    from change_local[OF this, of n] obtain r' where r':
      "tz_local (change_zone a b s) (tz_utc (change_zone a b s) (n * ms_per_day + r)) = n * ms_per_day + r'"
      "r' = r \<or> 0 \<le> r' \<and> r' \<le> 21600000" by blast
    with \<open>0 \<le> r\<close> \<open>r < ms_per_day\<close> have "0 \<le> r'" "r' < ms_per_day" by (auto simp: ms_per_day_def)
    with r' show "local_day (change_zone a b s) (tz_utc (change_zone a b s) (n * ms_per_day + r)) = n"
      by (simp add: local_day_def day_ms_of_sum)
  }
  assume e: "early r"
  from early_less[OF e] change_local[of r n] obtain r' where r':
    "tz_local (change_zone a b s) (tz_utc (change_zone a b s) (n * ms_per_day + r)) = n * ms_per_day + r'"
    "r' = r \<or> 0 \<le> r' \<and> r' \<le> 21600000" by blast
  then have "early r'" using e by (auto simp: early_def)
  with r'(1) early_less[of r']
  show "early (local_ms (change_zone a b s) (tz_utc (change_zone a b s) (n * ms_per_day + r)))"
    by (simp add: local_ms_def day_ms_of_sum)
qed

text \<open>The clocks of Berlin around the change to summer time on 29 March 2026, 01:00 UTC.\<close>

definition berlin :: zone where
  "berlin = change_zone 3600000 7200000 1774746000000"

interpretation berlin_change: clock_change 3600000 7200000 1774746000000
  by unfold_locales (simp_all add: ms_per_day_def)

lemma berlin_zone: "local_zone berlin"
  using berlin_change.local_zone_axioms by (simp add: berlin_def)

end
