(* ===== verification/JsNumber.thy ===== *)
theory JsNumber
  imports Json
begin

text \<open>
  JavaScript Numbers with their special values, and the three conversions from strings that the
  screens use: \<^verbatim>\<open>Number(s)\<close>, \<^verbatim>\<open>Number.parseFloat(s)\<close> and \<^verbatim>\<open>Number.parseInt(s, 10)\<close>. A
  finite Number is a rational, as everywhere in the development; the two zeros are one.
\<close>

section \<open>Numbers\<close>

datatype jnum = Fin rat | PosInf | NegInf | NaN

fun jneg :: "jnum \<Rightarrow> jnum" where
  "jneg (Fin x) = Fin (- x)"
| "jneg PosInf = NegInf"
| "jneg NegInf = PosInf"
| "jneg NaN = NaN"

fun jadd :: "jnum \<Rightarrow> jnum \<Rightarrow> jnum" where
  "jadd (Fin x) (Fin y) = Fin (x + y)"
| "jadd NaN b = NaN"
| "jadd a NaN = NaN"
| "jadd PosInf NegInf = NaN"
| "jadd NegInf PosInf = NaN"
| "jadd PosInf b = PosInf"
| "jadd NegInf b = NegInf"
| "jadd (Fin x) b = b"

text \<open>\<^verbatim>\<open>x * c\<close> and \<^verbatim>\<open>x / c\<close> for a positive constant.\<close>

fun jscale :: "rat \<Rightarrow> jnum \<Rightarrow> jnum" where
  "jscale c (Fin x) = Fin (c * x)"
| "jscale c b = b"

text \<open>\<^verbatim>\<open>x / y\<close> for finite operands.\<close>

definition jdiv_fin :: "rat \<Rightarrow> rat \<Rightarrow> jnum" where
  "jdiv_fin x y = (if y \<noteq> 0 then Fin (x / y) else if x > 0 then PosInf else if x < 0 then NegInf else NaN)"

fun jround :: "jnum \<Rightarrow> jnum" where
  "jround (Fin x) = Fin (of_int (math_round x))"
| "jround b = b"

definition is_finite :: "jnum \<Rightarrow> bool" where
  "is_finite a = (case a of Fin _ \<Rightarrow> True | _ \<Rightarrow> False)"

text \<open>\<^verbatim>\<open>a < b\<close> and \<^verbatim>\<open>a <= b\<close>: false as soon as one side is not a number.\<close>

fun jless :: "jnum \<Rightarrow> jnum \<Rightarrow> bool" where
  "jless (Fin x) (Fin y) = (x < y)"
| "jless (Fin x) PosInf = True"
| "jless NegInf (Fin y) = True"
| "jless NegInf PosInf = True"
| "jless a b = False"

definition jleq :: "jnum \<Rightarrow> jnum \<Rightarrow> bool" where
  "jleq a b \<longleftrightarrow> a \<noteq> NaN \<and> (jless a b \<or> a = b)"

definition jnum_str :: "jnum \<Rightarrow> string" where
  "jnum_str a = (case a of Fin x \<Rightarrow> num_str x | PosInf \<Rightarrow> ''Infinity'' | NegInf \<Rightarrow> ''-Infinity'' | NaN \<Rightarrow> ''NaN'')"

lemma is_finite_simps [simp]:
  "is_finite (Fin x)" "\<not> is_finite PosInf" "\<not> is_finite NegInf" "\<not> is_finite NaN"
  by (simp_all add: is_finite_def)

lemma is_finite_iff: "is_finite a \<longleftrightarrow> (\<exists>x. a = Fin x)"
  by (cases a) simp_all

lemma jleq_simps [simp]:
  "jleq (Fin x) (Fin y) = (x \<le> y)" "jleq NaN b = False" "jleq a NaN = False"
  by (auto simp: jleq_def le_less)

section \<open>Reading numbers\<close>

text \<open>The longest prefix that is an unsigned decimal literal, and the rest.\<close>

definition scan_unsigned :: "string \<Rightarrow> (rat \<times> string) option" where
  "scan_unsigned s =
     (let ds = takeWhile is_digit s; r = dropWhile is_digit s;
          dot = (r \<noteq> [] \<and> hd r = CHR ''.'');
          fs = (if dot then takeWhile is_digit (tl r) else []);
          r2 = (if dot \<and> (ds \<noteq> [] \<or> fs \<noteq> []) then dropWhile is_digit (tl r) else r)
      in if ds = [] \<and> fs = [] then None
         else case parse_exp r2 of
           None \<Rightarrow> Some (of_nat (digits_val (ds @ fs)) / 10 ^ length fs, r2)
         | Some (e, q) \<Rightarrow> Some (scale10 (of_nat (digits_val (ds @ fs)) / 10 ^ length fs) e, q))"

definition scan_magnitude :: "string \<Rightarrow> (jnum \<times> string) option" where
  "scan_magnitude s =
     (if starts_with s ''Infinity'' then Some (PosInf, drop 8 s)
      else map_option (\<lambda>(x, r). (Fin x, r)) (scan_unsigned s))"

definition scan_number :: "string \<Rightarrow> (jnum \<times> string) option" where
  "scan_number s =
     (if s \<noteq> [] \<and> hd s = CHR ''-'' then map_option (\<lambda>(x, r). (jneg x, r)) (scan_magnitude (tl s))
      else if s \<noteq> [] \<and> hd s = CHR ''+'' then scan_magnitude (tl s)
      else scan_magnitude s)"

definition parse_float :: "string \<Rightarrow> jnum" where
  "parse_float s = (case scan_number (dropWhile is_space s) of None \<Rightarrow> NaN | Some (x, _) \<Rightarrow> x)"

definition radix_val :: "nat \<Rightarrow> string \<Rightarrow> jnum" where
  "radix_val b s =
     (let vs = map hex_val s
      in if s \<noteq> [] \<and> list_all (\<lambda>v. case v of Some n \<Rightarrow> n < b | None \<Rightarrow> False) vs
         then Fin (of_nat (foldl (\<lambda>a v. b * a + the v) 0 vs)) else NaN)"

definition to_number :: "string \<Rightarrow> jnum" where
  "to_number s =
     (let t = trim s; p = lowercase (take 2 t) in
      if t = [] then Fin 0
      else if p = ''0x'' then radix_val 16 (drop 2 t)
      else if p = ''0o'' then radix_val 8 (drop 2 t)
      else if p = ''0b'' then radix_val 2 (drop 2 t)
      else case scan_number t of Some (x, []) \<Rightarrow> x | _ \<Rightarrow> NaN)"

definition parse_int :: "string \<Rightarrow> jnum" where
  "parse_int s =
     (let t = dropWhile is_space s;
          neg = (t \<noteq> [] \<and> hd t = CHR ''-'');
          u = (if t \<noteq> [] \<and> (hd t = CHR ''-'' \<or> hd t = CHR ''+'') then tl t else t);
          ds = takeWhile is_digit u
      in if ds = [] then NaN
         else Fin (of_int (if neg then - int (digits_val ds) else int (digits_val ds))))"

lemma parse_int_whole: "parse_int s = NaN \<or> (\<exists>i. parse_int s = Fin (of_int i))"
  by (simp add: parse_int_def Let_def)

lemma parse_exp_digit_free: "s = [] \<or> (hd s \<noteq> CHR ''e'' \<and> hd s \<noteq> CHR ''E'') \<Longrightarrow> parse_exp s = Some (0, s)"
  by (auto simp: parse_exp_def)

lemma digit_no_space: "is_digit c \<Longrightarrow> \<not> is_space c"
  by (auto simp: is_digit_def is_space_def)

lemma trim_digit_ends:
  assumes "s \<noteq> []" and "is_digit (hd s)" and "is_digit (last s)"
  shows "trim s = s"
proof -
  have "dropWhile is_space s = s" using assms digit_no_space by (cases s) auto
  moreover have "dropWhile is_space (rev s) = rev s"
    using assms digit_no_space by (cases s rule: rev_cases) auto
  ultimately show ?thesis by (simp add: trim_def)
qed

text \<open>A string of digits reads as the number it spells.\<close>

lemma to_number_digits:
  assumes "list_all is_digit s" and "s \<noteq> []"
  shows "to_number s = Fin (of_nat (digits_val s))"
proof -
  have ds: "\<forall>c \<in> set s. is_digit c" using assms(1) by (simp add: list_all_iff)
  have "hd s \<in> set s" "last s \<in> set s" using assms(2) by simp_all
  then have t: "trim s = s" using ds assms(2) by (intro trim_digit_ends) blast+
  have tw: "takeWhile is_digit s = s" "dropWhile is_digit s = []" using ds by (simp_all add: takeWhile_eq_all_conv)
  have d2: "is_digit c \<Longrightarrow> lower_char c = c" for c by (auto simp: lower_char_def is_upper_def is_digit_def)
  have "\<forall>c \<in> set (take 2 s). is_digit c" using ds by (auto dest: in_set_takeD)
  then have p: "lowercase (take 2 s) = take 2 s" by (simp add: lowercase_def map_idI d2)
  have nd: "\<not> is_digit CHR ''x''" "\<not> is_digit CHR ''o''" "\<not> is_digit CHR ''b''" "\<not> is_digit CHR ''I''"
    "\<not> is_digit CHR ''-''" "\<not> is_digit CHR ''+''" by (simp_all add: is_digit_def code_of_def)
  have ne: "take 2 s \<noteq> [CHR ''0'', c]" if "\<not> is_digit c" for c
    using \<open>\<forall>c \<in> set (take 2 s). is_digit c\<close> that by (auto simp del: set_take_subset)
  have "\<not> starts_with s ''Infinity''"
    using ds nd(4) by (cases s) (auto simp: starts_with_def)
  moreover have "hd s \<noteq> CHR ''-''" "hd s \<noteq> CHR ''+''" using \<open>hd s \<in> set s\<close> ds nd by auto
  ultimately show ?thesis
    using ne[OF nd(1)] ne[OF nd(2)] ne[OF nd(3)] assms(2)
    by (simp add: to_number_def t p scan_number_def scan_magnitude_def scan_unsigned_def tw
        parse_exp_digit_free scale10_def)
qed

end
