(* ===== verification/CalendarViews.thy ===== *)
theory CalendarViews
  imports LocalTime JsNumber ApiTypes
begin

text \<open>
  The four views of \<^verbatim>\<open>web/src/components/screens/calendar.tsx\<close>: day, week, month and agenda, with
  the member filter of \<^verbatim>\<open>MemberFilterChips.tsx\<close>. A view is the data it draws; styles are left out.
  An invalid date is \<open>None\<close>. The type of an event promises \<^verbatim>\<open>start\<close> and \<^verbatim>\<open>end\<close>, but the wrapper
  does not check it and the server sends \<^verbatim>\<open>start_time\<close> and \<^verbatim>\<open>end_time\<close> only, so all four are options.
\<close>

section \<open>Events and members\<close>

definition fractional_hours :: "zone \<Rightarrow> string option \<Rightarrow> jnum" where
  "fractional_hours z timeStr =
     (case timeStr of
        None \<Rightarrow> Fin 0
      | Some s \<Rightarrow>
          if s = [] then Fin 0
          else if contains s ''T'' then
            (case date_parse (tz_utc z) s of
               None \<Rightarrow> NaN
             | Some t \<Rightarrow> Fin (of_int (get_hours z t) + of_int (get_minutes z t) / 60))
          else (case map to_number (split_on (CHR '':'') s) of
             [] \<Rightarrow> Fin 0
           | [h] \<Rightarrow> h
           | h # m # _ \<Rightarrow> jadd h (jscale (1 / 60) m)))"

definition member_lookup :: "member list \<Rightarrow> (string \<rightharpoonup> member)" where
  "member_lookup ms = map_of (rev (map (\<lambda>m. (mem_id m, m)) ms))"

definition resolve_members :: "string list \<Rightarrow> (string \<rightharpoonup> member) \<Rightarrow> member list" where
  "resolve_members ids memberById = List.map_filter memberById ids"

definition assignees :: "tbd_event \<Rightarrow> string list" where
  "assignees e =
     (case ev_assigned_members e of
        Some ids \<Rightarrow> ids
      | None \<Rightarrow> (case ev_members e of Some ids \<Rightarrow> ids | None \<Rightarrow> []))"

definition filter_events_by_member :: "tbd_event list \<Rightarrow> string option \<Rightarrow> tbd_event list" where
  "filter_events_by_member events memberId =
     (case memberId of None \<Rightarrow> events | Some i \<Rightarrow> filter (\<lambda>e. i \<in> set (assignees e)) events)"

text \<open>\<^verbatim>\<open>e.start_time ?? (e.start?.includes("T") ? e.start : null)\<close> and the date it gives.\<close>

definition iso_start :: "tbd_event \<Rightarrow> string option" where
  "iso_start e =
     (case ev_start_time e of
        Some s \<Rightarrow> Some s
      | None \<Rightarrow> (case ev_start e of Some s \<Rightarrow> if contains s ''T'' then Some s else None | None \<Rightarrow> None))"

definition any_start :: "tbd_event \<Rightarrow> string option" where
  "any_start e = (case ev_start_time e of Some s \<Rightarrow> Some s | None \<Rightarrow> ev_start e)"

definition start_date :: "zone \<Rightarrow> tbd_event \<Rightarrow> int option" where
  "start_date z e = (if truthy (iso_start e) then date_parse (tz_utc z) (the (iso_start e)) else None)"

definition starts_on :: "zone \<Rightarrow> int option \<Rightarrow> tbd_event \<Rightarrow> bool" where
  "starts_on z day e =
     (case (start_date z e, day) of (Some t, Some d) \<Rightarrow> same_date z t d | _ \<Rightarrow> False)"

section \<open>The day\<close>

definition shift_day :: "zone \<Rightarrow> int \<Rightarrow> int \<Rightarrow> int option" where
  "shift_day z delta t = set_date z (cv_day (local_date z t) + delta) t"

definition day_range :: "zone \<Rightarrow> int \<Rightarrow> (string \<times> string) option" where
  "day_range z t =
     (case (set_hms z 0 0 0 0 t, set_hms z 23 59 59 999 t) of
        (Some a, Some b) \<Rightarrow> Some (iso_string a, iso_string b)
      | _ \<Rightarrow> None)"

text \<open>The position of an hour in the column, in percent.\<close>

definition to_y :: "jnum \<Rightarrow> jnum" where
  "to_y h = jscale 100 (jscale (1 / 14) (jadd h (Fin (- 7))))"

text \<open>\<^verbatim>\<open>const [h, m] = s.split(":").map(Number)\<close> and \<^verbatim>\<open>h + m / 60\<close>; a missing part is undefined.\<close>

definition clock_hours :: "string \<Rightarrow> jnum" where
  "clock_hours s =
     (case map to_number (split_on (CHR '':'') s) of h # m # _ \<Rightarrow> jadd h (jscale (1 / 60) m) | _ \<Rightarrow> NaN)"

text \<open>\<open>None\<close> is the TypeError of calling \<^verbatim>\<open>split\<close> on a missing start or end.\<close>

definition day_block :: "tbd_event \<Rightarrow> (jnum \<times> jnum) option" where
  "day_block e =
     (case (ev_start e, ev_end e) of
        (Some s, Some t) \<Rightarrow>
          (let top = to_y (clock_hours s) in Some (top, jadd (to_y (clock_hours t)) (jneg top)))
      | _ \<Rightarrow> None)"

definition day_column :: "tbd_event list \<Rightarrow> member \<Rightarrow> tbd_event list" where
  "day_column events m = filter (\<lambda>e. mem_id m \<in> set (assignees e)) events"

definition draw_day :: "member list \<Rightarrow> tbd_event list \<Rightarrow> (member \<times> (tbd_event \<times> jnum \<times> jnum) list) list option" where
  "draw_day members events =
     those (map (\<lambda>m. map_option (Pair m)
       (those (map (\<lambda>e. map_option (Pair e) (day_block e)) (day_column events m)))) members)"

section \<open>The week\<close>

definition week_start :: "zone \<Rightarrow> int \<Rightarrow> int option" where
  "week_start z now =
     Option.bind (set_hms z 0 0 0 0 now) (\<lambda>d. set_date z (cv_day (local_date z d) - get_day z d) d)"

definition view_week_end :: "zone \<Rightarrow> int \<Rightarrow> int option" where
  "view_week_end z weekStart =
     Option.bind (set_date z (cv_day (local_date z weekStart) + 6) weekStart) (set_hms z 23 59 59 999)"

definition shift_week :: "zone \<Rightarrow> int \<Rightarrow> int \<Rightarrow> int option" where
  "shift_week z delta weekStart =
     Option.bind (set_date z (cv_day (local_date z weekStart) + delta * 7) weekStart) (set_hms z 0 0 0 0)"

text \<open>A start without a time of day has no hour; such a start counts as hour zero here.\<close>

definition hour_key :: "zone \<Rightarrow> tbd_event \<Rightarrow> rat" where
  "hour_key z e = (case fractional_hours z (any_start e) of Fin h \<Rightarrow> h | _ \<Rightarrow> 0)"

record week_column =
  wk_date :: "int option"
  wk_today :: bool
  wk_events :: "tbd_event list"

definition week_column_of :: "zone \<Rightarrow> int \<Rightarrow> int \<Rightarrow> tbd_event list \<Rightarrow> int \<Rightarrow> week_column" where
  "week_column_of z today weekStart events dowIndex =
     (let colDate = set_date z (cv_day (local_date z weekStart) + dowIndex) weekStart
      in \<lparr>wk_date = colDate,
          wk_today = (case colDate of None \<Rightarrow> False | Some d \<Rightarrow> same_date z d today),
          wk_events = sort_key (hour_key z) (filter (starts_on z colDate) events)\<rparr>)"

definition week_columns :: "zone \<Rightarrow> int \<Rightarrow> int \<Rightarrow> tbd_event list \<Rightarrow> week_column list" where
  "week_columns z today weekStart events =
     map (week_column_of z today weekStart events) [0, 1, 2, 3, 4, 5, 6]"

text \<open>The clock printed on a block: hours of the day with the letter of the half.\<close>

definition week_label :: "jnum \<Rightarrow> string" where
  "week_label startH =
     (case startH of
        Fin h \<Rightarrow>
          int_str \<lfloor>h\<rfloor> @ '':'' @ pad_start 2 (CHR ''0'') (int_str (math_round ((h - of_int \<lfloor>h\<rfloor>) * 60))) @
          '' '' @ (if h < 12 then ''a'' else ''p'')
      | _ \<Rightarrow> ''NaN:NaN p'')"

section \<open>The month\<close>

definition month_anchor :: "zone \<Rightarrow> int \<Rightarrow> int option" where
  "month_anchor z now = Option.bind (set_date z 1 now) (set_hms z 0 0 0 0)"

definition shift_month :: "zone \<Rightarrow> int \<Rightarrow> int \<Rightarrow> int option" where
  "shift_month z delta anchor = set_month z (int (cv_month (local_date z anchor)) + delta) anchor"

text \<open>The last day of the month \<open>k\<close> months after the anchor's, counted in days of the month.\<close>

definition month_last :: "zone \<Rightarrow> int \<Rightarrow> int \<Rightarrow> int option" where
  "month_last z anchor k =
     map_option (\<lambda>t. cv_day (local_date z t))
       (new_date z (cv_year (local_date z anchor)) (int (cv_month (local_date z anchor)) + k + 1) 0)"

definition visible_cells :: "int \<Rightarrow> int \<Rightarrow> int" where
  "visible_cells firstWeekday daysInMonth = max 35 ((firstWeekday + daysInMonth + 6) div 7 * 7)"

record month_cell =
  mc_num :: int
  mc_cur :: bool
  mc_date :: "int option"
  mc_shown :: "int option"
  mc_today :: bool
  mc_events :: "tbd_event list"

definition start_instant :: "zone \<Rightarrow> tbd_event \<Rightarrow> int" where
  "start_instant z e = (case start_date z e of Some t \<Rightarrow> t | None \<Rightarrow> 0)"

definition events_for_day :: "zone \<Rightarrow> tbd_event list \<Rightarrow> int option \<Rightarrow> tbd_event list" where
  "events_for_day z events date = sort_key (start_instant z) (filter (starts_on z date) events)"

definition month_cell_of ::
  "zone \<Rightarrow> int \<Rightarrow> int \<Rightarrow> tbd_event list \<Rightarrow> int \<Rightarrow> int \<Rightarrow> month_cell" where
  "month_cell_of z today anchor events daysInMonth d =
     (let cur = (1 \<le> d \<and> d \<le> daysInMonth);
          date = set_date z d anchor;
          isTodayMonth = (cv_year (local_date z today) = cv_year (local_date z anchor) \<and>
            cv_month (local_date z today) = cv_month (local_date z anchor))
      in \<lparr>mc_num = d, mc_cur = cur, mc_date = date,
          mc_shown = (if cur then Some d
            else if d \<le> 0 then map_option (\<lambda>p. p + d) (month_last z anchor (- 1))
            else Some (d - daysInMonth)),
          mc_today = (cur \<and> isTodayMonth \<and> d = cv_day (local_date z today)),
          mc_events = (if cur then events_for_day z events date else [])\<rparr>)"

definition month_cells :: "zone \<Rightarrow> int \<Rightarrow> int \<Rightarrow> tbd_event list \<Rightarrow> month_cell list" where
  "month_cells z today anchor events =
     (case month_last z anchor 0 of
        None \<Rightarrow> []
      | Some daysInMonth \<Rightarrow>
          (let firstWeekday = get_day z anchor
           in map (\<lambda>i. month_cell_of z today anchor events daysInMonth (i - firstWeekday + 1))
                [0 .. visible_cells firstWeekday daysInMonth - 1]))"

text \<open>The events a cell draws.\<close>

definition cell_buttons :: "month_cell \<Rightarrow> tbd_event list" where
  "cell_buttons c = take 3 (mc_events c)"

section \<open>The agenda\<close>

definition agenda_range :: "zone \<Rightarrow> int \<Rightarrow> (string \<times> string) option" where
  "agenda_range z today =
     map_option (\<lambda>t. (iso_date today, iso_date t)) (set_date z (cv_day (local_date z today) + 7) today)"

text \<open>\<open>None\<close> is the RangeError of \<^verbatim>\<open>toISOString\<close>.\<close>

definition agenda_key :: "zone \<Rightarrow> string \<Rightarrow> tbd_event \<Rightarrow> string option" where
  "agenda_key z start e =
     (if truthy (iso_start e) then map_option iso_date (date_parse (tz_utc z) (the (iso_start e)))
      else Some start)"

text \<open>A \<^verbatim>\<open>Map\<close> from keys to lists: an existing key keeps its place, a new one goes to the end.\<close>

definition push_day :: "string \<Rightarrow> tbd_event \<Rightarrow> (string \<times> tbd_event list) list \<Rightarrow> (string \<times> tbd_event list) list" where
  "push_day k e gs =
     (if k \<in> fst ` set gs then map (\<lambda>(k', es). if k' = k then (k', es @ [e]) else (k', es)) gs
      else gs @ [(k, [e])])"

definition group_by_date ::
  "zone \<Rightarrow> string \<Rightarrow> tbd_event list \<Rightarrow> (string \<times> tbd_event list) list option" where
  "group_by_date z start events =
     fold (\<lambda>e acc. case (acc, agenda_key z start e) of
             (Some gs, Some k) \<Rightarrow> Some (push_day k e gs) | _ \<Rightarrow> None) events (Some [])"

text \<open>\<open>collate\<close> is the position \<^verbatim>\<open>localeCompare\<close> gives a key, \<open>label\<close> the local text of a date.\<close>

definition agenda_groups ::
  "zone \<Rightarrow> (string \<Rightarrow> int) \<Rightarrow> (int option \<Rightarrow> string) \<Rightarrow> string \<Rightarrow> string \<Rightarrow> tbd_event list \<Rightarrow>
     (string \<times> tbd_event list) list option" where
  "agenda_groups z collate label todayLabel start events =
     map_option (map (\<lambda>(dateKey, items).
         (let dateLabel = uppercase (label (date_parse (tz_utc z) (dateKey @ ''T00:00:00'')))
          in (if dateKey = start then uppercase todayLabel @ '' '' @ [CHR 0xC2, CHR 0xB7] @ '' '' @ dateLabel else dateLabel, items)))
       \<circ> sort_key (\<lambda>g. collate (fst g))) (group_by_date z start events)"

definition agenda_matches :: "string \<Rightarrow> tbd_event \<Rightarrow> bool" where
  "agenda_matches q e \<longleftrightarrow>
     contains (lowercase (ev_title e)) q \<or>
     contains (lowercase (case ev_location e of None \<Rightarrow> [] | Some l \<Rightarrow> l)) q"

definition agenda_search ::
  "string \<Rightarrow> (string \<times> tbd_event list) list \<Rightarrow> (string \<times> tbd_event list) list" where
  "agenda_search query allGroups =
     (let q = lowercase (trim query)
      in if q = [] then allGroups
         else filter (\<lambda>g. snd g \<noteq> []) (map (\<lambda>g. (fst g, filter (agenda_matches q) (snd g))) allGroups))"

text \<open>Repeated navigation: a click of every \<open>delta\<close> in turn.\<close>

definition navigate :: "(int \<Rightarrow> int \<Rightarrow> int option) \<Rightarrow> int list \<Rightarrow> int \<Rightarrow> int option" where
  "navigate shift deltas t = fold (\<lambda>d acc. Option.bind acc (shift d)) deltas (Some t)"

lemma navigate_None: "fold (\<lambda>d acc. Option.bind acc (shift d)) deltas None = None"
  by (induction deltas) simp_all

lemma navigate_simps:
  "navigate shift [] t = Some t"
  "navigate shift (d # ds) t = (case shift d t of None \<Rightarrow> None | Some t' \<Rightarrow> navigate shift ds t')"
  by (simp_all add: navigate_def navigate_None split: option.splits)

section \<open>Lemmas\<close>

lemma starts_on_iff:
  "starts_on z (Some d) e \<longleftrightarrow> (\<exists>t. start_date z e = Some t \<and> local_day z t = local_day z d)"
  by (auto simp: starts_on_def same_date_iff split: option.splits)

lemma those_map_None: "those (map f xs) = None \<longleftrightarrow> (\<exists>x \<in> set xs. f x = None)"
  by (induction xs) (auto split: option.splits)

lemma those_map_Some: "\<forall>x \<in> set xs. f x \<noteq> None \<Longrightarrow> those (map f xs) = Some (map (the \<circ> f) xs)"
  by (induction xs) (auto split: option.splits)

lemma int_div_le_mono: "a \<le> b \<Longrightarrow> a div 7 * 7 \<le> b div 7 * (7 :: int)"
  using zdiv_mono1[of a b 7] by simp

lemma visible_cells_weeks:
  assumes "0 \<le> w" and "w < 7" and "28 \<le> d"
  shows "visible_cells w d mod 7 = 0" and "w + d \<le> visible_cells w d" and "35 \<le> visible_cells w d"
    and "visible_cells w d < max 36 (w + d + 7)"
proof -
  let ?x = "w + d + 6"
  have x: "?x = ?x div 7 * 7 + ?x mod 7" "0 \<le> ?x mod 7" "?x mod 7 < 7" by simp_all
  show "visible_cells w d mod 7 = 0" by (simp add: visible_cells_def max_def)
  show "w + d \<le> visible_cells w d" using x unfolding visible_cells_def by linarith
  show "35 \<le> visible_cells w d" by (simp add: visible_cells_def)
  show "visible_cells w d < max 36 (w + d + 7)" using x unfolding visible_cells_def by linarith
qed

lemma month_length_range:
  assumes "m < 12"
  shows "28 \<le> month_length y m" and "month_length y m \<le> 31"
proof -
  have "m \<in> set [0..<12]" using assms by simp
  moreover have "\<forall>i \<in> set [0..<12]. 28 \<le> month_start lp (i + 1) - month_start lp i \<and>
      month_start lp (i + 1) - month_start lp i \<le> 31" for lp
    by (simp add: upt_rec month_start_def)
  ultimately show "28 \<le> month_length y m" and "month_length y m \<le> 31" by (auto simp: month_length_def)
qed

section \<open>The month view\<close>

context local_zone begin

text \<open>What navigation keeps: the anchor is the first of a month, early in the day.\<close>

definition first_day :: "int \<Rightarrow> int \<Rightarrow> bool" where
  "first_day k a \<longleftrightarrow> local_day z a = first_of_month k \<and> early (local_ms z a)"

lemma first_day_date:
  assumes "first_day k a"
  shows "cv_year (local_date z a) = k div 12" "int (cv_month (local_date z a)) = k mod 12"
    "cv_day (local_date z a) = 1"
  using assms by (simp_all add: first_day_def local_date_def civil_first_of_month)

lemma anchor_first:
  assumes "month_anchor z now = Some a"
  shows "first_day (month_index (local_date z now)) a"
  using assms set_midnight
  by (auto simp: month_anchor_def first_day_def set_date_day local_date_def month_start_of_day split: bind_splits)

lemma shift_month_first:
  assumes "first_day k a" and "shift_month z delta a = Some a'"
  shows "first_day (k + delta) a'"
proof -
  have "12 * cv_year (local_date z a) + (int (cv_month (local_date z a)) + delta) = k + delta"
    by (simp add: first_day_date[OF assms(1)])
  with set_month_first[of a "int (cv_month (local_date z a)) + delta" a'] assms
  show ?thesis by (simp add: first_day_def shift_month_def local_date_def civil_first_of_month)
qed

lemma cell_day:
  assumes "first_day k a" and "set_date z d a = Some t"
  shows "local_day z t = first_of_month k + (d - 1)"
  using assms set_date_day[of d a t] by (simp add: first_day_def first_day_date[OF assms(1)])

lemma month_last_day:
  assumes "first_day k a" and "month_last z a j = Some p" and "1200 \<le> k"
  shows "p = month_length ((k + j) div 12) (nat ((k + j) mod 12))"
proof -
  from assms(2) obtain t where t: "new_date z (k div 12) (k mod 12 + j + 1) 0 = Some t"
    and p: "p = cv_day (local_date z t)"
    by (auto simp: month_last_def first_day_date[OF assms(1)])
  have "99 < k div 12" using assms(3) by simp
  with new_date_day[OF t] have "local_day z t = js_day (k div 12) (k mod 12 + j + 1) 0" by simp
  also have "\<dots> = first_of_month (k + j + 1) - 1"
    using js_day_shift[of "k div 12" "k mod 12 + j + 1" 0] by (simp add: js_day_first add.assoc)
  finally have l: "local_day z t = first_of_month (k + j + 1) - 1" .
  have len: "first_of_month (k + j + 1) - first_of_month (k + j) =
      month_length ((k + j) div 12) (nat ((k + j) mod 12))" by (rule month_length_first)
  have "28 \<le> month_length ((k + j) div 12) (nat ((k + j) mod 12))"
    by (rule month_length_range) (simp add: nat_less_iff)
  with len l have "month_index (civil_of_day (local_day z t)) = k + j"
    by (simp add: month_of_day_iff)
  with month_start_of_day[of "local_day z t"] l len p show ?thesis by (simp add: local_date_def)
qed


lemma navigate_first:
  assumes "first_day k a" and "navigate (shift_month z) deltas a = Some a'"
  shows "first_day (k + sum_list deltas) a'"
  using assms
proof (induction deltas arbitrary: k a)
  case Nil
  then show ?case by (simp add: navigate_def)
next
  case (Cons d ds)
  then obtain b where b: "shift_month z d a = Some b" "navigate (shift_month z) ds b = Some a'"
    by (cases "shift_month z d a") (simp_all add: navigate_simps)
  from Cons.IH[OF shift_month_first[OF Cons.prems(1) b(1)] b(2)] show ?case by (simp add: add.assoc)
qed

text \<open>The week: the anchor is a Sunday, early in the day.\<close>

definition sunday :: "int \<Rightarrow> bool" where
  "sunday w \<longleftrightarrow> utc_day (local_day z w) = 0 \<and> early (local_ms z w)"

lemma week_start_sunday:
  assumes "week_start z now = Some w"
  shows "sunday w" and "local_day z w = local_day z now - utc_day (local_day z now)"
proof -
  from assms obtain d where d: "set_hms z 0 0 0 0 now = Some d"
    "set_date z (cv_day (local_date z d) - get_day z d) d = Some w"
    by (auto simp: week_start_def split: bind_splits)
  note m = set_midnight[OF d(1)]
  show l: "local_day z w = local_day z now - utc_day (local_day z now)"
    using set_date_day[OF d(2)] m by (simp add: get_day_def)
  have "(x - (x + 4) mod 7 + 4) mod 7 = 0" for x :: int
    using minus_mod_eq_mult_div[of "x + 4" 7] by (simp add: algebra_simps)
  then show "sunday w" using l set_date_early[OF m(2) d(2)] by (simp add: sunday_def utc_day_def)
qed

lemma shift_week_sunday:
  assumes "sunday w" and "shift_week z delta w = Some w'"
  shows "sunday w'" and "local_day z w' = local_day z w + 7 * delta"
proof -
  from assms(2) obtain d where d: "set_date z (cv_day (local_date z w) + delta * 7) w = Some d"
    "set_hms z 0 0 0 0 d = Some w'"
    by (auto simp: shift_week_def split: bind_splits)
  show l: "local_day z w' = local_day z w + 7 * delta"
    using set_date_day[OF d(1)] set_midnight[OF d(2)] by simp
  have "(x + 7 * delta + 4) mod 7 = (x + 4) mod 7" for x :: int
    by (simp add: add.assoc add.left_commute[of _ "7 * delta"])
  then show "sunday w'" using l assms(1) set_midnight[OF d(2)] by (simp add: sunday_def utc_day_def)
qed

lemma navigate_sunday:
  assumes "sunday w" and "navigate (shift_week z) deltas w = Some w'"
  shows "sunday w' \<and> local_day z w' = local_day z w + 7 * sum_list deltas"
  using assms
proof (induction deltas arbitrary: w)
  case Nil
  then show ?case by (simp add: navigate_def)
next
  case (Cons d ds)
  then obtain b where b: "shift_week z d w = Some b" "navigate (shift_week z) ds b = Some w'"
    by (cases "shift_week z d w") (simp_all add: navigate_simps)
  note s = shift_week_sunday[OF Cons.prems(1) b(1)]
  from Cons.IH[OF s(1) b(2)] s(2) show ?case by simp
qed

lemma column_day:
  assumes "set_date z (cv_day (local_date z w) + i) w = Some t"
  shows "local_day z t = local_day z w + i"
  using set_date_day[OF assms] by simp

end

section \<open>Properties of the month\<close>

lemma cells_nth:
  assumes "month_last z a 0 = Some len" and "i < length (month_cells z today a events)"
  shows "month_cells z today a events ! i =
    month_cell_of z today a events len (int i - get_day z a + 1)"
  using assms by (simp add: month_cells_def Let_def)

lemma get_day_range: "0 \<le> get_day z a" "get_day z a < 7"
  by (simp_all add: get_day_def utc_day_range)

lemma cells_length:
  assumes "month_last z a 0 = Some len"
  shows "length (month_cells z today a events) = nat (visible_cells (get_day z a) len)"
  using assms by (simp add: month_cells_def Let_def)

lemma current_numbers:
  assumes "month_last z a 0 = Some len" and "28 \<le> len"
  shows "map mc_num (filter mc_cur (month_cells z today a events)) = [1..len]"
proof -
  let ?w = "get_day z a"
  note v = visible_cells_weeks[OF get_day_range assms(2), of z a]
  have f: "filter (\<lambda>i. 1 \<le> i - ?w + 1 \<and> i - ?w + 1 \<le> len) [0 .. visible_cells ?w len - 1] = [?w .. ?w + len - 1]"
  proof (rule sorted_distinct_set_unique)
    show "set (filter (\<lambda>i. 1 \<le> i - ?w + 1 \<and> i - ?w + 1 \<le> len) [0 .. visible_cells ?w len - 1]) = set [?w .. ?w + len - 1]"
      using v(2) get_day_range[of z a] by auto
  qed (simp_all add: sorted_wrt_filter)
  have "map mc_num (filter mc_cur (month_cells z today a events)) =
      map (\<lambda>i. i - ?w + 1) (filter (\<lambda>i. 1 \<le> i - ?w + 1 \<and> i - ?w + 1 \<le> len) [0 .. visible_cells ?w len - 1])"
    using assms(1) by (simp add: month_cells_def Let_def month_cell_of_def filter_map o_def)
  also have "\<dots> = [1..len]" unfolding f by (rule nth_equalityI) (use assms(2) in \<open>simp_all\<close>)
  finally show ?thesis .
qed

lemma day_in_month:
  assumes "first_of_month k \<le> n" and "n < first_of_month (k + 1)"
  shows "cv_day (civil_of_day n) = n - first_of_month k + 1"
proof -
  have "month_index (civil_of_day n) = k" using assms by (simp add: month_of_day_iff)
  with month_start_of_day[of n] show ?thesis by simp
qed

lemma month_step: "28 \<le> first_of_month (k + 1) - first_of_month k"
  unfolding month_length_first by (rule month_length_range) (simp add: nat_less_iff)

text \<open>The number a cell shows is the day of the month of its date, in the adjacent months too.\<close>

context local_zone begin

lemma cell_shown:
  assumes a: "first_day k a" and era: "1200 \<le> k"
    and last: "month_last z a 0 = Some len" and prev: "month_last z a (- 1) = Some p"
    and d: "- 5 \<le> d" "d < len + 28" and t: "set_date z d a = Some t"
  shows "mc_shown (month_cell_of z today a events len d) = Some (cv_day (local_date z t))"
proof -
  have len: "first_of_month (k + 1) = first_of_month k + len"
    using month_last_day[OF a last era] month_length_first[of k] by simp
  have p: "first_of_month k = first_of_month (k - 1) + p"
    using month_last_day[OF a prev era] month_length_first[of "k - 1"] by simp
  have p28: "28 \<le> p" using month_step[of "k - 1"] p by simp
  have n: "local_day z t = first_of_month k + (d - 1)" by (rule cell_day[OF a t])
  consider "1 \<le> d \<and> d \<le> len" | "d \<le> 0" | "1 \<le> d" "len < d" by linarith
  then show ?thesis
  proof cases
    case 1
    with n len have "cv_day (local_date z t) = d"
      using day_in_month[of k "local_day z t"] by (simp add: local_date_def)
    with 1 show ?thesis by (simp add: month_cell_of_def Let_def)
  next
    case 2
    with n p d p28 have "cv_day (local_date z t) = p + d"
      using day_in_month[of "k - 1" "local_day z t"] by (simp add: local_date_def)
    with 2 prev show ?thesis by (simp add: month_cell_of_def Let_def)
  next
    case 3
    with n len d month_step[of "k + 1"] have "cv_day (local_date z t) = d - len"
      using day_in_month[of "k + 1" "local_day z t"] by (simp add: local_date_def add.assoc)
    with 3 show ?thesis by (simp add: month_cell_of_def Let_def)
  qed
qed

end




section \<open>Properties of the week\<close>

lemma week_columns_nth:
  "i < 7 \<Longrightarrow> week_columns z today w events ! i = week_column_of z today w events (int i)"
  by (simp add: week_columns_def less_Suc_eq numeral_eq_Suc) (auto simp: numeral_eq_Suc)

lemma length_week_columns [simp]: "length (week_columns z today w events) = 7"
  by (simp add: week_columns_def)

lemma column_events:
  "set (wk_events (week_column_of z today w events i)) =
     {e \<in> set events. starts_on z (set_date z (cv_day (local_date z w) + i) w) e}"
  by (simp add: week_column_of_def Let_def)

text \<open>
  C10. However the user moves through the weeks, the seven columns are the days from Sunday to Saturday of
  the week reached. A column holds exactly the events that start on its local day, in the order of
  their clock, so that an event of the week is drawn once and others not at all.
\<close>

theorem week_shows_events_once:
  assumes zone: "local_zone z" and start: "week_start z now = Some w0"
    and nav: "navigate (shift_week z) deltas w0 = Some w"
    and i: "i < 7" and col: "col = week_columns z today w events ! i" and t: "wk_date col = Some t"
  shows "local_day z t = local_day z now - get_day z now + 7 * sum_list deltas + int i \<and>
    get_day z t = int i \<and>
    set (wk_events col) =
      {e \<in> set events. \<exists>s. start_date z e = Some s \<and> local_day z s = local_day z t} \<and>
    sorted (map (hour_key z) (wk_events col))"
proof -
  note s0 = local_zone.week_start_sunday[OF zone start]
  note s = local_zone.navigate_sunday[OF zone s0(1) nav]
  have c: "col = week_column_of z today w events (int i)" using i by (simp add: col week_columns_nth)
  then have d: "set_date z (cv_day (local_date z w) + int i) w = Some t"
    using t by (simp add: week_column_of_def Let_def)
  have l: "local_day z t = local_day z w + int i" by (rule local_zone.column_day[OF zone d])
  have sun: "utc_day (local_day z w) = 0"
    using conjunct1[OF s] unfolding local_zone.sunday_def[OF zone] by (rule conjunct1)
  have "utc_day (local_day z w + int i) = int i"
    using mod_add_eq[of "local_day z w + 4" 7 "int i"] sun i
    by (simp add: utc_day_def add.assoc add.commute add.left_commute)
  moreover have "sorted (map (hour_key z) (wk_events col))" by (simp add: c week_column_of_def Let_def)
  moreover have "set (wk_events col) =
      {e \<in> set events. \<exists>s. start_date z e = Some s \<and> local_day z s = local_day z t}"
    unfolding c column_events d by (simp add: starts_on_iff)
  ultimately show ?thesis using l s s0(2) by (simp add: get_day_def)
qed

definition demo_event :: "string \<Rightarrow> tbd_event" where
  "demo_event s = \<lparr>ev_id = ''e1'', ev_title = ''Dinner'', ev_start = None, ev_end = None, ev_members = None,
     ev_location = None, ev_type = None, ev_start_time = Some s, ev_end_time = Some s,
     ev_description = None, ev_recurrence_rule = None, ev_assigned_members = Some [''m1'']\<rparr>"

theorem week_shows_events_once_witness:
  "set (wk_events (week_columns berlin 0 1774134000000 [demo_event ''2026-03-28T23:30:00Z''] ! 6)) = {} \<and>
   set (wk_events (week_columns berlin 0 1774738800000 [demo_event ''2026-03-28T23:30:00Z''] ! 0)) =
     {demo_event ''2026-03-28T23:30:00Z''}"
proof -
  let ?e = "demo_event ''2026-03-28T23:30:00Z''"
  have w: "week_start berlin 1774600000000 = Some 1774134000000"
    "navigate (shift_week berlin) [1] 1774134000000 = Some 1774738800000"
    "navigate (shift_week berlin) [] 1774134000000 = Some 1774134000000"
    "wk_date (week_columns berlin 0 1774134000000 [] ! 6) = Some 1774652400000"
    "wk_date (week_columns berlin 0 1774738800000 [] ! 0) = Some 1774738800000"
    by code_simp+
  have d: "wk_date (week_columns z today w events ! i) = wk_date (week_columns z today w [] ! i)"
    if "i < 7" for z today w events i
    using that by (simp add: week_columns_nth week_column_of_def Let_def)
  have s: "start_date berlin ?e = Some 1774740600000" "local_day berlin 1774740600000 = 20541"
    "local_day berlin 1774652400000 = 20540" "local_day berlin 1774738800000 = 20541"
    by code_simp+
  have c: "wk_date (week_columns berlin 0 1774134000000 [?e] ! 6) = Some 1774652400000"
    by (rule trans[OF d w(4)]) simp
  have c': "wk_date (week_columns berlin 0 1774738800000 [?e] ! 0) = Some 1774738800000"
    by (rule trans[OF d w(5)]) simp
  have "(6::nat) < 7" "(0::nat) < 7" by simp_all
  note a = week_shows_events_once[OF berlin_zone w(1) w(3) this(1) refl c, THEN conjunct2, THEN conjunct2, THEN conjunct1]
    and b = week_shows_events_once[OF berlin_zone w(1) w(2) this(2) refl c', THEN conjunct2, THEN conjunct2, THEN conjunct1]
  show ?thesis unfolding a b by (auto simp: s)
qed

section \<open>Properties of the day\<close>

text \<open>
  Drawing the day fails with a TypeError exactly when an event that one of the members is assigned to
  lacks the clock fields \<^verbatim>\<open>start\<close> and \<^verbatim>\<open>end\<close>; the server's events never have them.
\<close>

theorem day_view_type_error:
  "draw_day members events = None \<longleftrightarrow>
     (\<exists>m \<in> set members. \<exists>e \<in> set events. mem_id m \<in> set (assignees e) \<and> (ev_start e = None \<or> ev_end e = None))"
proof -
  have b: "day_block e = None \<longleftrightarrow> ev_start e = None \<or> ev_end e = None" for e
    by (auto simp: day_block_def Let_def split: option.splits)
  show ?thesis
    by (auto simp: draw_day_def those_map_None day_column_def b)
qed

section \<open>Properties of the agenda\<close>

lemma push_day_props:
  assumes "distinct (map fst gs)" and "\<forall>g \<in> set gs. snd g = filter (\<lambda>e. f e = Some (fst g)) es \<and> snd g \<noteq> []"
    and "f e = Some k" and "\<And>k. k \<notin> fst ` set gs \<Longrightarrow> filter (\<lambda>e. f e = Some k) es = []"
  shows "distinct (map fst (push_day k e gs)) \<and>
    (\<forall>g \<in> set (push_day k e gs). snd g = filter (\<lambda>e. f e = Some (fst g)) (es @ [e]) \<and> snd g \<noteq> []) \<and>
    (\<forall>k'. k' \<notin> fst ` set (push_day k e gs) \<longrightarrow> filter (\<lambda>e. f e = Some k') (es @ [e]) = [])"
proof (cases "k \<in> fst ` set gs")
  case True
  have m: "map fst (push_day k e gs) = map fst gs"
    using True by (induction gs) (auto simp: push_day_def)
  then have i: "fst ` set (push_day k e gs) = fst ` set gs" by (metis list.set_map)
  have "snd g = filter (\<lambda>e. f e = Some (fst g)) (es @ [e]) \<and> snd g \<noteq> []" if "g \<in> set (push_day k e gs)" for g
  proof -
    from that True obtain h where "h \<in> set gs" "g = (if fst h = k then (fst h, snd h @ [e]) else h)"
      by (auto simp: push_day_def split: prod.splits if_splits)
    with assms(2,3) show ?thesis by (cases "fst h = k") auto
  qed
  moreover have "filter (\<lambda>e. f e = Some k') (es @ [e]) = []" if "k' \<notin> fst ` set gs" for k'
    using that True assms(3,4) by auto
  ultimately show ?thesis using m assms(1) i by metis
next
  case False
  then have p: "push_day k e gs = gs @ [(k, [e])]" by (simp add: push_day_def)
  have "\<forall>g \<in> set gs. fst g \<noteq> k" using False by force
  with False assms show ?thesis unfolding p by auto
qed

lemma group_fold:
  "group_by_date z start (es @ [e]) =
     (case (group_by_date z start es, agenda_key z start e) of (Some gs, Some k) \<Rightarrow> Some (push_day k e gs) | _ \<Rightarrow> None)"
  by (simp add: group_by_date_def)

lemma group_by_date_props:
  assumes "group_by_date z start es = Some gs"
  shows "distinct (map fst gs) \<and>
    (\<forall>g \<in> set gs. snd g = filter (\<lambda>e. agenda_key z start e = Some (fst g)) es \<and> snd g \<noteq> []) \<and>
    (\<forall>k. k \<notin> fst ` set gs \<longrightarrow> filter (\<lambda>e. agenda_key z start e = Some k) es = [])"
  using assms
proof (induction es arbitrary: gs rule: rev_induct)
  case Nil
  then show ?case by (simp add: group_by_date_def)
next
  case (snoc e es)
  then obtain hs k where h: "group_by_date z start es = Some hs" "agenda_key z start e = Some k"
    "gs = push_day k e hs"
    by (auto simp: group_fold split: option.splits)
  from snoc.IH[OF h(1)] show ?case unfolding h(3)
    by (intro push_day_props h(2)) auto
qed

lemma group_by_date_None:
  "group_by_date z start es = None \<longleftrightarrow> (\<exists>e \<in> set es. agenda_key z start e = None)"
  by (induction es rule: rev_induct) (auto simp: group_fold group_by_date_def split: option.splits)

lemma mset_push_day: "mset (concat (map snd (push_day k e gs))) = add_mset e (mset (concat (map snd gs)))"
  if "distinct (map fst gs)"
proof (cases "k \<in> fst ` set gs")
  case True
  have "mset (concat (map snd (map (\<lambda>(k', es). if k' = k then (k', es @ [e]) else (k', es)) gs))) =
      add_mset e (mset (concat (map snd gs)))"
    using that True
  proof (induction gs)
    case (Cons g gs)
    obtain k' es where g: "g = (k', es)" by (cases g)
    show ?case
    proof (cases "k' = k")
      case True
      with Cons.prems g have "map (\<lambda>(k', es). if k' = k then (k', es @ [e]) else (k', es)) gs = gs"
        by (intro map_idI) (auto split: prod.splits simp: image_iff)
      with True g show ?thesis by simp
    next
      case False
      with Cons g show ?thesis by auto
    qed
  qed simp
  with True show ?thesis by (simp add: push_day_def)
qed (simp add: push_day_def)

lemma mset_group_by_date:
  "group_by_date z start es = Some gs \<Longrightarrow> mset (concat (map snd gs)) = mset es"
proof (induction es arbitrary: gs rule: rev_induct)
  case Nil
  then show ?case by (simp add: group_by_date_def)
next
  case (snoc e es)
  then obtain hs k where h: "group_by_date z start es = Some hs" "gs = push_day k e hs"
    by (auto simp: group_fold split: option.splits)
  with snoc.IH[OF h(1)] group_by_date_props[OF h(1)] show ?case by (simp add: mset_push_day)
qed

lemma mset_search:
  "mset (concat (map snd (agenda_search query gs))) =
     filter_mset (\<lambda>e. lowercase (trim query) = [] \<or> agenda_matches (lowercase (trim query)) e)
       (mset (concat (map snd gs)))"
proof -
  have "concat (map snd (filter (\<lambda>g. snd g \<noteq> []) hs)) = concat (map snd hs)" for hs :: "(string \<times> tbd_event list) list"
    by (induction hs) auto
  moreover have "mset (concat (map (snd \<circ> (\<lambda>g. (fst g, filter P (snd g)))) gs)) = filter_mset P (mset (concat (map snd gs)))" for P
    by (induction gs) auto
  ultimately show ?thesis by (simp add: agenda_search_def Let_def)
qed

text \<open>
  The agenda fails with a RangeError exactly when a start cannot be read as a date. Otherwise it lists
  each event once, and a search keeps exactly the events whose title or place contains what was typed,
  in either case of letters.
\<close>

theorem agenda_lists_each_event_once:
  "(agenda_groups z collate label todayLabel start events = None \<longleftrightarrow>
      (\<exists>e \<in> set events. truthy (iso_start e) \<and> start_date z e = None)) \<and>
   (\<forall>gs. agenda_groups z collate label todayLabel start events = Some gs \<longrightarrow>
      mset (concat (map snd (agenda_search query gs))) =
        filter_mset (\<lambda>e. lowercase (trim query) = [] \<or> agenda_matches (lowercase (trim query)) e) (mset events))"
proof -
  have "agenda_key z start e = None \<longleftrightarrow> truthy (iso_start e) \<and> start_date z e = None" for e
    by (simp add: agenda_key_def start_date_def)
  moreover have "mset (concat (map snd (map (\<lambda>(k, es). (h k es, es)) gs))) = mset (concat (map snd gs))"
    for h :: "string \<Rightarrow> tbd_event list \<Rightarrow> string" and gs
    by (induction gs) auto
  moreover have "mset (concat (map snd (sort_key f gs))) = mset (concat (map snd gs))"
    for f :: "string \<times> tbd_event list \<Rightarrow> int" and gs
  proof -
    have "sum_list (map mset (map snd xs)) = sum_mset (image_mset (mset \<circ> snd) (mset xs))" for xs :: "(string \<times> tbd_event list) list"
      by (simp add: sum_mset_sum_list flip: mset_map)
    then show ?thesis by (simp only: mset_concat mset_sort)
  qed
  ultimately show ?thesis
    by (auto simp: agenda_groups_def group_by_date_None mset_search Let_def dest!: mset_group_by_date)
qed

theorem agenda_lists_each_event_once_witness:
  "mset (concat (map snd (agenda_search ''DIN'' [([], [demo_event ''2026-03-28T23:30:00Z''])]))) =
     {#demo_event ''2026-03-28T23:30:00Z''#}"
proof -
  let ?e = "demo_event ''2026-03-28T23:30:00Z''"
  have d: "agenda_matches (lowercase (trim ''DIN'')) ?e" by code_simp
  have "agenda_groups (fixed_zone 0) (\<lambda>_. 0) (\<lambda>_. []) ''today'' [] [?e] = Some [([], [?e])]" by code_simp
  with agenda_lists_each_event_once[of "fixed_zone 0" "\<lambda>_. 0" "\<lambda>_. []" "''today''" "[]" "[?e]" "''DIN''"]
  have "mset (concat (map snd (agenda_search ''DIN'' [([], [?e])]))) =
      filter_mset (\<lambda>e. lowercase (trim ''DIN'') = [] \<or> agenda_matches (lowercase (trim ''DIN'')) e) (mset [?e])"
    by blast
  with d show ?thesis by simp
qed

text \<open>
  The day of a group is the UTC day of the start: it is the local day, on which the week and the month
  show the event, only where the two days agree.
\<close>

theorem agenda_days_are_utc:
  assumes "start_date z e = Some t" and "four_digit_day (day_of_ms t)"
  shows "\<exists>k. agenda_key z start e = Some k \<and>
    (parse_ymd k = Some (local_day z t) \<longleftrightarrow> day_of_ms t = local_day z t)"
  using assms parse_iso_four_digit[OF assms(2,2)] iso_date_eq[OF four_digit_year[OF assms(2)]]
  by (auto simp: start_date_def agenda_key_def split: if_splits)

theorem agenda_days_are_utc_witness:
  "\<exists>k. agenda_key (fixed_zone (- 18000000)) [] (demo_event ''2026-03-29T01:30:00Z'') = Some k \<and>
     parse_ymd k \<noteq> Some 20540"
proof -
  have "start_date (fixed_zone (- 18000000)) (demo_event ''2026-03-29T01:30:00Z'') = Some 1774747800000"
    "four_digit_day (day_of_ms 1774747800000)" "local_day (fixed_zone (- 18000000)) 1774747800000 = 20540"
    "day_of_ms 1774747800000 = 20541"
    by code_simp+
  then show ?thesis using agenda_days_are_utc[of "fixed_zone (- 18000000)" _ 1774747800000 "[]"] by fastforce
qed

end
