(* ===== verification/EventForm.thy ===== *)
theory EventForm
  imports CalendarViews HooksHome Machine
begin

text \<open>
  The event form (\<^verbatim>\<open>EventModal\<close>) of \<^verbatim>\<open>web/src/components/screens/calendar.tsx\<close>, the page that opens
  it (\<^verbatim>\<open>web/src/app/calendar/page.tsx\<close>) and the detail sheet of
  \<^verbatim>\<open>web/src/components/calendar/EventDetailSheet.tsx\<close>. Texts that only the locale decides are
  parameters.
\<close>

section \<open>The form\<close>

record form_data =
  fd_id :: "string option"
  fd_title :: "string option"
  fd_start :: "string option"
  fd_end :: "string option"
  fd_start_time :: "string option"
  fd_end_time :: "string option"
  fd_location :: "string option"
  fd_description :: "string option"
  fd_members :: "string list option"
  fd_assigned_members :: "string list option"
  fd_recurrence_rule :: "string option"

record event_form =
  ef_title :: string
  ef_start :: string
  ef_end :: string
  ef_location :: string
  ef_description :: string
  ef_recurrence :: string
  ef_assigned :: "string list"
  ef_error :: string
  ef_mutation_error :: "api_failure option"

text \<open>The year is printed as it is, the other parts with two digits; an invalid date gives \<^verbatim>\<open>NaN\<close>.\<close>

definition to_datetime_local :: "zone \<Rightarrow> int option \<Rightarrow> string" where
  "to_datetime_local z d =
     (case d of
        None \<Rightarrow> ''NaN-NaN-NaNTNaN:NaN''
      | Some t \<Rightarrow>
          (let c = local_date z t
           in int_str (cv_year c) @ ''-'' @ pad_num 2 (int (cv_month c) + 1) @ ''-'' @ pad_num 2 (cv_day c) @
              ''T'' @ pad_num 2 (get_hours z t) @ '':'' @ pad_num 2 (get_minutes z t)))"

definition resolve_time :: "zone \<Rightarrow> int \<Rightarrow> string option \<Rightarrow> string option \<Rightarrow> string" where
  "resolve_time z fallback isoTime legacy =
     (if truthy isoTime then to_datetime_local z (date_parse (tz_utc z) (the isoTime))
      else if truthy legacy \<and> contains (the legacy) ''T''
        then to_datetime_local z (date_parse (tz_utc z) (the legacy))
      else to_datetime_local z (Some fallback))"

definition initial_assignees :: "form_data \<Rightarrow> string list" where
  "initial_assignees ev =
     (case fd_assigned_members ev of
        Some ids \<Rightarrow> ids
      | None \<Rightarrow> (case fd_members ev of Some ids \<Rightarrow> ids | None \<Rightarrow> []))"

definition or_blank :: "string option \<Rightarrow> string" where
  "or_blank x = (case x of None \<Rightarrow> [] | Some s \<Rightarrow> s)"

definition open_form :: "zone \<Rightarrow> int \<Rightarrow> form_data \<Rightarrow> event_form" where
  "open_form z now ev =
     \<lparr>ef_title = or_blank (fd_title ev),
      ef_start = resolve_time z now (fd_start_time ev) (fd_start ev),
      ef_end = resolve_time z (now + 3600000) (fd_end_time ev) (fd_end ev),
      ef_location = or_blank (fd_location ev), ef_description = or_blank (fd_description ev),
      ef_recurrence = or_blank (fd_recurrence_rule ev), ef_assigned = initial_assignees ev,
      ef_error = [], ef_mutation_error = None\<rparr>"

definition toggle_assignee :: "string \<Rightarrow> event_form \<Rightarrow> event_form" where
  "toggle_assignee memberId f =
     f\<lparr>ef_assigned := (if memberId \<in> set (ef_assigned f) then filter (\<lambda>i. i \<noteq> memberId) (ef_assigned f)
                      else ef_assigned f @ [memberId])\<rparr>"

section \<open>Conflicts\<close>

definition iso_end :: "tbd_event \<Rightarrow> string option" where
  "iso_end e =
     (case ev_end_time e of
        Some s \<Rightarrow> Some s
      | None \<Rightarrow> (case ev_end e of Some s \<Rightarrow> if contains s ''T'' then Some s else None | None \<Rightarrow> None))"

definition end_date :: "zone \<Rightarrow> tbd_event \<Rightarrow> int option" where
  "end_date z e = (if truthy (iso_end e) then date_parse (tz_utc z) (the (iso_end e)) else None)"

definition overlaps :: "zone \<Rightarrow> int \<Rightarrow> int \<Rightarrow> tbd_event \<Rightarrow> bool" where
  "overlaps z draftStart draftEnd e =
     (case (start_date z e, end_date z e) of
        (Some s, Some en) \<Rightarrow> s < draftEnd \<and> draftStart < en
      | _ \<Rightarrow> False)"

definition conflicts :: "zone \<Rightarrow> form_data \<Rightarrow> tbd_event list option \<Rightarrow> event_form \<Rightarrow> tbd_event list" where
  "conflicts z ev allEvents f =
     (case (allEvents, date_parse (tz_utc z) (ef_start f), date_parse (tz_utc z) (ef_end f)) of
        (Some events, Some draftStart, Some draftEnd) \<Rightarrow>
          if draftEnd \<le> draftStart then []
          else take 3 (filter (\<lambda>e. \<not> (truthy (fd_id ev) \<and> ev_id e = the (fd_id ev)) \<and>
                                 overlaps z draftStart draftEnd e) events)
      | _ \<Rightarrow> [])"

section \<open>Saving and deleting\<close>

text \<open>
  What a press of the save button leads to: the form complains, \<^verbatim>\<open>toISOString\<close> raises a RangeError, or
  a mutation is sent. The dates are read before either request is built.
\<close>

datatype save_outcome = Complain | SaveRaises | Send mutation

definition save_request :: "zone \<Rightarrow> form_data \<Rightarrow> event_form \<Rightarrow> mutation option" where
  "save_request z ev f =
     (case (date_parse (tz_utc z) (ef_start f), date_parse (tz_utc z) (ef_end f)) of
        (Some s, Some e) \<Rightarrow>
          (let times = [(''start_time'', JStr (iso_string s)), (''end_time'', JStr (iso_string e)),
                        (''location'', JStr (ef_location f)), (''description'', JStr (ef_description f))];
               title = (''title'', JStr (trim (ef_title f)));
               who = (''assigned_members'', JArr (map JStr (ef_assigned f)))
           in Some (if truthy (fd_id ev)
             then use_update_event (the (fd_id ev))
                    (title # times @ [(''recurrence_rule'', JStr (ef_recurrence f)), who])
             else use_create_event
                    (title # times @ (if ef_recurrence f \<noteq> [] then [(''recurrence_rule'', JStr (ef_recurrence f))] else [])
                       @ [who])))
      | _ \<Rightarrow> None)"

text \<open>\<open>required\<close> is the translated complaint, which falls back to English when it is empty.\<close>

definition handle_save :: "zone \<Rightarrow> string \<Rightarrow> form_data \<Rightarrow> event_form \<Rightarrow> event_form \<times> save_outcome" where
  "handle_save z required ev f =
     (if trim (ef_title f) = []
      then (f\<lparr>ef_error := (if required \<noteq> [] then required else ''Title is required'')\<rparr>, Complain)
      else (f\<lparr>ef_error := [], ef_mutation_error := None\<rparr>,
            case save_request z ev f of None \<Rightarrow> SaveRaises | Some m \<Rightarrow> Send m))"

definition handle_delete :: "form_data \<Rightarrow> event_form \<Rightarrow> event_form \<times> mutation option" where
  "handle_delete ev f =
     (if truthy (fd_id ev) then (f\<lparr>ef_mutation_error := None\<rparr>, Some (use_delete_event (the (fd_id ev))))
      else (f, None))"

section \<open>The page\<close>

text \<open>
  The page keeps the open event; \<open>cp_query\<close> is the event of the address that the query last delivered.
  The effect on that event runs when the object changes: the query client keeps the object while the
  data stays the same.
\<close>

datatype cal_view = DayView | WeekView | MonthView | AgendaView

definition view_of_param :: "string option \<Rightarrow> cal_view" where
  "view_of_param v =
     (if v = Some ''Day'' then DayView else if v = Some ''Week'' then WeekView
      else if v = Some ''Month'' then MonthView else if v = Some ''Agenda'' then AgendaView
      else DayView)"

record calendar_page =
  cp_view :: cal_view
  cp_modal :: "form_data option"
  cp_event_param :: "string option"
  cp_query :: "form_data option"

definition blank_data :: form_data where
  "blank_data = \<lparr>fd_id = None, fd_title = None, fd_start = None, fd_end = None, fd_start_time = None,
     fd_end_time = None, fd_location = None, fd_description = None, fd_members = None,
     fd_assigned_members = None, fd_recurrence_rule = None\<rparr>"

datatype page_event =
    NewParam "string option"
  | SelectView cal_view
  | PressNew
  | OpenEvent form_data
  | CloseModal
  | QueryDelivers "form_data option"

text \<open>\<open>OpenEvent\<close> also pushes the address \<^verbatim>\<open>/calendar?event=...\<close>, whose query answers later.\<close>

fun page_step :: "page_event \<Rightarrow> calendar_page \<Rightarrow> calendar_page" where
  "page_step (NewParam p) s = (if p = Some ''event'' then s\<lparr>cp_modal := Some blank_data\<rparr> else s)"
| "page_step (SelectView v) s = s\<lparr>cp_view := v\<rparr>"
| "page_step PressNew s = s\<lparr>cp_modal := Some blank_data\<rparr>"
| "page_step (OpenEvent e) s =
     (let s' = s\<lparr>cp_modal := Some e\<rparr>
      in if truthy (fd_id e) then s'\<lparr>cp_event_param := fd_id e\<rparr> else s')"
| "page_step CloseModal s = s\<lparr>cp_modal := None\<rparr>"
| "page_step (QueryDelivers d) s =
     (if d = cp_query s then s
      else let s' = s\<lparr>cp_query := d\<rparr> in (case d of None \<Rightarrow> s' | Some e \<Rightarrow> s'\<lparr>cp_modal := Some e\<rparr>))"

definition open_page :: "string option \<Rightarrow> string option \<Rightarrow> string option \<Rightarrow> calendar_page" where
  "open_page viewParam newParam eventParam =
     page_step (NewParam newParam)
       \<lparr>cp_view = view_of_param viewParam, cp_modal = None, cp_event_param = eventParam, cp_query = None\<rparr>"

text \<open>The address the page moves to.\<close>

definition event_address :: "form_data \<Rightarrow> string option" where
  "event_address e =
     (if truthy (fd_id e) then Some (''/calendar?event='' @ encode_uri_component (the (fd_id e))) else None)"

section \<open>The detail sheet\<close>

text \<open>\<^verbatim>\<open>rule.match(/FREQ=([A-Z]+)/i)\<close>: the letters after the first \<^verbatim>\<open>FREQ=\<close> that a letter follows.\<close>

fun freq_token :: "string \<Rightarrow> string option" where
  "freq_token [] = None"
| "freq_token (c # s) =
     (let letters = takeWhile (\<lambda>x. is_upper x \<or> is_lower x) (drop 5 (c # s))
      in if uppercase (take 5 (c # s)) = ''FREQ='' \<and> letters \<noteq> [] then Some letters else freq_token s)"

definition recurrence_label :: "string option \<Rightarrow> string option" where
  "recurrence_label rule =
     (if \<not> truthy rule then None
      else map_option (\<lambda>m.
        (let freq = uppercase m
         in if freq = ''DAILY'' then ''Repeats daily''
            else if freq = ''WEEKLY'' then ''Repeats weekly''
            else if freq = ''MONTHLY'' then ''Repeats monthly''
            else if freq = ''YEARLY'' then ''Repeats yearly''
            else ''Repeats '' @ lowercase freq)) (freq_token (the rule)))"

definition fmt_clock :: "zone \<Rightarrow> (int \<Rightarrow> string) \<Rightarrow> string option \<Rightarrow> string" where
  "fmt_clock z timeText value =
     (if \<not> truthy value then []
      else if contains (the value) ''T'' then
        (case date_parse (tz_utc z) (the value) of None \<Rightarrow> the value | Some t \<Rightarrow> timeText t)
      else the value)"

definition fmt_event_date :: "zone \<Rightarrow> (int \<Rightarrow> string) \<Rightarrow> string option \<Rightarrow> string" where
  "fmt_event_date z dateText value =
     (if \<not> truthy value \<or> \<not> contains (the value) ''T'' then []
      else (case date_parse (tz_utc z) (the value) of None \<Rightarrow> [] | Some t \<Rightarrow> dateText t))"

record detail_sheet =
  ds_title :: string
  ds_date :: string
  ds_time :: string
  ds_recurrence :: "string option"
  ds_location :: "string option"
  ds_assignees :: "member list"
  ds_notes :: "string option"
  ds_edit :: bool
  ds_delete :: bool

text \<open>An en dash stands between the times; the optional texts are shown when they are not empty.\<close>

definition shown_text :: "string option \<Rightarrow> string option" where
  "shown_text x = (if truthy x then x else None)"

definition event_detail ::
  "zone \<Rightarrow> (int \<Rightarrow> string) \<Rightarrow> (int \<Rightarrow> string) \<Rightarrow> tbd_event option \<Rightarrow> member list \<Rightarrow> bool \<Rightarrow> bool \<Rightarrow> bool \<Rightarrow>
     detail_sheet option" where
  "event_detail z timeText dateText event members canEdit hasEdit hasDelete =
     map_option (\<lambda>e.
       (let startClock = fmt_clock z timeText (any_start e);
            endClock = fmt_clock z timeText (case ev_end_time e of Some s \<Rightarrow> Some s | None \<Rightarrow> ev_end e)
        in \<lparr>ds_title = ev_title e, ds_date = fmt_event_date z dateText (iso_start e),
            ds_time = startClock @
              (if endClock \<noteq> [] then '' '' @ [CHR 0xE2, CHR 0x80, CHR 0x93] @ '' '' @ endClock else []),
            ds_recurrence = recurrence_label (ev_recurrence_rule e),
            ds_location = shown_text (ev_location e),
            ds_assignees = resolve_members (assignees e) (member_lookup members),
            ds_notes = shown_text (ev_description e),
            ds_edit = (canEdit \<and> hasEdit), ds_delete = (canEdit \<and> hasDelete)\<rparr>)) event"

section \<open>The form keeps the times of an event\<close>

text \<open>Local dates whose year has four digits as it is printed.\<close>

definition printable :: "zone \<Rightarrow> int \<Rightarrow> bool" where
  "printable z t \<longleftrightarrow> four_digit_day (day_of_ms t) \<and> 1000 \<le> cv_year (local_date z t) \<and> cv_year (local_date z t) \<le> 9999"

definition clock_reading :: "zone \<Rightarrow> int \<Rightarrow> int" where
  "clock_reading z t = tz_local z t - tz_local z t mod 60000"

lemma nat_str_four:
  assumes "1000 \<le> n" and "n < 10000"
  shows "length (nat_str n) = 4"
proof -
  have "length (nat_str n) \<le> 4" using assms(2) by (intro nat_str_length) auto
  moreover have "digits_val s < 10 ^ length s" if "list_all is_digit s" for s
    using that
  proof (induction s rule: rev_induct)
    case Nil
    then show ?case by (simp add: digits_val_def)
  next
    case (snoc c s)
    have "digits_val (s @ [c]) = 10 * digits_val s + (code_of c - 48)" by (simp add: digits_val_def)
    moreover have "code_of c - 48 < 10" using snoc.prems by (auto simp: is_digit_def)
    ultimately show ?case using snoc by auto
  qed
  from this[OF nat_str_digits, of n] have "n < 10 ^ length (nat_str n)" by (simp add: digits_nat_str)
  then have "\<not> length (nat_str n) \<le> 3"
    using assms(1) power_increasing[of "length (nat_str n)" 3 "10 :: nat"] by auto
  ultimately show ?thesis by simp
qed

lemma local_clock_split:
  "tz_local z t - tz_local z t mod 60000 =
     local_day z t * ms_per_day + get_hours z t * 3600000 + get_minutes z t * 60000"
proof -
  let ?r = "local_ms z t"
  have r: "?r = get_hours z t * 3600000 + get_minutes z t * 60000 + ?r mod 60000"
  proof -
    have q: "x div 60000 div 60 = x div 3600000" for x :: int by (simp flip: zdiv_zmult2_eq)
    show ?thesis
      using mult_div_mod_eq[of 60000 ?r] mult_div_mod_eq[of 60 "?r div 60000"]
      unfolding get_hours_def get_minutes_def q by linarith
  qed
  have "tz_local z t mod 60000 = ?r mod 60000"
    unfolding local_ms_def ms_per_day_def by (rule mod_mod_cancel[symmetric]) simp
  with r local_split[of z t] show ?thesis by linarith
qed

lemma get_ranges: "0 \<le> get_hours z t" "get_hours z t < 24" "0 \<le> get_minutes z t" "get_minutes z t < 60"
  using local_ms_range[of z t]
  by (auto simp: get_hours_def get_minutes_def ms_per_day_def div_less_iff_less_mult)

lemma parse_datetime_local:
  assumes "printable z t"
  shows "date_parse loc (to_datetime_local z (Some t)) = Some (loc (clock_reading z t))"
proof -
  let ?c = "civil_of_day (local_day z t)"
  have y: "1000 \<le> cv_year ?c" "cv_year ?c \<le> 9999" using assms by (simp_all add: printable_def local_date_def)
  then have "length (nat_str (nat (cv_year ?c))) = 4" by (intro nat_str_four) auto
  then have p: "int_str (cv_year ?c) = pad_num 4 (cv_year ?c)"
    using y by (simp add: int_str_def pad_num_def pad_start_def)
  have iso: "iso_ymd (local_day z t) =
      int_str (cv_year ?c) @ ''-'' @ pad_num 2 (int (cv_month ?c) + 1) @ ''-'' @ pad_num 2 (cv_day ?c)"
    using y by (simp add: iso_ymd_def Let_def iso_year_def p)
  have d: "to_datetime_local z (Some t) =
      iso_ymd (local_day z t) @ CHR ''T'' # pad_num 2 (get_hours z t) @ '':'' @ pad_num 2 (get_minutes z t)"
    by (simp add: to_datetime_local_def Let_def local_date_def iso)
  have l: "length (iso_ymd (local_day z t)) = 10" using y by (intro iso_ymd_length) auto
  have h: "length (pad_num 2 (get_hours z t)) = 2" "length (pad_num 2 (get_minutes z t)) = 2"
    using get_ranges[of z t] by (auto intro!: pad_num_props(1))
  have td: "two_digits (pad_num 2 (get_hours z t) @ r) = Some (get_hours z t)"
    "two_digits (pad_num 2 (get_minutes z t)) = Some (get_minutes z t)" for r
    using two_digits_pad[of "get_hours z t" r] two_digits_pad[of "get_minutes z t" "[]"] get_ranges[of z t] by simp_all
  have "parse_time loc (local_day z t * ms_per_day)
      (pad_num 2 (get_hours z t) @ '':'' @ pad_num 2 (get_minutes z t)) = Some (loc (clock_reading z t))"
    using h td get_ranges[of z t]
    by (simp add: parse_time_def nth_append parse_zone_def clock_reading_def local_clock_split)
  moreover have "parse_ymd (iso_ymd (local_day z t)) = Some (local_day z t)"
    using y by (intro parse_iso_ymd) auto
  ultimately show ?thesis by (simp add: d date_parse_def l)
qed

section \<open>Properties\<close>

text \<open>
  C11. Opening an event of the server and saving it unchanged sends the same event back: every field as it
  was, the times cut to the minute. The two hypotheses on the zone exclude a clock reading that occurs
  twice, where the form cannot tell the two instants apart.
\<close>

theorem event_saved_unchanged:
  assumes "fd_id ev = Some i" and "i \<noteq> []" and "fd_title ev = Some title" and "trim title \<noteq> []"
    and "fd_start_time ev = Some (iso_string s)" and "fd_end_time ev = Some (iso_string e)"
    and "fd_location ev = Some loc" and "fd_description ev = Some descr"
    and "fd_recurrence_rule ev = Some rule" and "fd_assigned_members ev = Some ids"
    and "printable z s" and "printable z e"
    and "tz_utc z (clock_reading z s) = s - tz_local z s mod 60000"
    and "tz_utc z (clock_reading z e) = e - tz_local z e mod 60000"
  shows "snd (handle_save z required ev (open_form z now ev)) =
    Send (use_update_event i
      [(''title'', JStr (trim title)),
       (''start_time'', JStr (iso_string (s - tz_local z s mod 60000))),
       (''end_time'', JStr (iso_string (e - tz_local z e mod 60000))),
       (''location'', JStr loc), (''description'', JStr descr),
       (''recurrence_rule'', JStr rule), (''assigned_members'', JArr (map JStr ids))])"
proof -
  have ne: "iso_string t \<noteq> []" if "printable z t" for t
    using that iso_ymd_length[OF four_digit_year, of "day_of_ms t"]
    by (auto simp: printable_def iso_string_def Let_def)
  have r: "resolve_time z n (Some (iso_string t)) l = to_datetime_local z (Some t)" if "printable z t" for n l t
    using that ne[OF that] by (simp add: resolve_time_def printable_def date_parse_iso_string)
  show ?thesis
    using assms
    by (simp add: handle_save_def save_request_def open_form_def or_blank_def r parse_datetime_local
        initial_assignees_def)
qed

definition demo_data :: form_data where
  "demo_data = blank_data\<lparr>fd_id := Some ''e1'', fd_title := Some ''Dinner'',
     fd_start_time := Some (iso_string 1774740642000), fd_end_time := Some (iso_string 1774746001000),
     fd_location := Some [], fd_description := Some [], fd_recurrence_rule := Some [],
     fd_assigned_members := Some [''m1'']\<rparr>"

theorem event_saved_unchanged_witness:
  "snd (handle_save berlin [] demo_data (open_form berlin 0 demo_data)) =
    Send (use_update_event ''e1''
      [(''title'', JStr ''Dinner''), (''start_time'', JStr (iso_string 1774740600000)),
       (''end_time'', JStr (iso_string 1774746000000)), (''location'', JStr []), (''description'', JStr []),
       (''recurrence_rule'', JStr []), (''assigned_members'', JArr [JStr ''m1''])])"
proof -
  have z: "printable berlin 1774740642000" "printable berlin 1774746001000"
    "tz_utc berlin (clock_reading berlin 1774740642000) = 1774740642000 - tz_local berlin 1774740642000 mod 60000"
    "tz_utc berlin (clock_reading berlin 1774746001000) = 1774746001000 - tz_local berlin 1774746001000 mod 60000"
    "1774740642000 - tz_local berlin 1774740642000 mod 60000 = 1774740600000"
    "1774746001000 - tz_local berlin 1774746001000 mod 60000 = 1774746000000"
    "trim ''Dinner'' = ''Dinner''"
    by code_simp+
  from event_saved_unchanged[of demo_data "''e1''" "''Dinner''", OF _ _ _ _ _ _ _ _ _ _ z(1-4)]
  show ?thesis using z(5-7) by (simp add: demo_data_def)
qed



definition demo_form :: event_form where
  "demo_form = \<lparr>ef_title = ''Dinner'', ef_start = ''2026-03-29T00:30'', ef_end = ''2026-03-29T01:30'',
     ef_location = [], ef_description = [], ef_recurrence = [], ef_assigned = [], ef_error = [],
     ef_mutation_error = None\<rparr>"

definition other_event :: tbd_event where
  "other_event = (demo_event ''2026-03-28T23:45:00Z'')\<lparr>ev_id := ''e2'', ev_end_time := Some ''2026-03-29T01:00:00Z''\<rparr>"


text \<open>
  Saving a change through the form that the calendar opened from an event makes the query behind the
  address fetch the event again, and the changed event it delivers opens the form anew after the
  save has closed it.
\<close>

theorem saved_event_reopens:
  assumes "fd_id e = Some i" and "i \<noteq> []" and "cp_query s \<noteq> Some e" and "e' \<noteq> e"
  shows "cp_event_param (page_step (OpenEvent e) s) = Some i \<and>
    refreshes (use_update_event i req) (use_live_event (Some i)) \<and>
    cp_modal (run page_step [OpenEvent e, QueryDelivers (Some e), CloseModal] s) = None \<and>
    cp_modal (run page_step [OpenEvent e, QueryDelivers (Some e), CloseModal, QueryDelivers (Some e')] s) = Some e'"
  using assms
  by (auto simp: Let_def refreshes_def use_update_event_def use_live_event_def qk_event_def)

theorem saved_event_reopens_witness:
  "cp_modal (run page_step [OpenEvent demo_data, QueryDelivers (Some demo_data), CloseModal,
       QueryDelivers (Some (demo_data\<lparr>fd_title := Some ''Supper''\<rparr>))] (open_page None None None)) \<noteq> None"
  using saved_event_reopens[of demo_data "''e1''" "open_page None None None" "demo_data\<lparr>fd_title := Some ''Supper''\<rparr>"]
  by (simp add: demo_data_def blank_data_def open_page_def)

text \<open>Pressing an assignee twice leaves the form as it was, up to the order of the assignees.\<close>

lemma toggle_assignee_twice:
  assumes "distinct (ef_assigned f)"
  shows "set (ef_assigned (toggle_assignee m (toggle_assignee m f))) = set (ef_assigned f)"
    and "distinct (ef_assigned (toggle_assignee m f))"
  using assms by (auto simp: toggle_assignee_def)

end
