(* ===== verification/AdminForms.thy ===== *)
theory AdminForms
  imports JsNumber HooksHome HooksChores Wallet
begin

text \<open>
  The forms with which parents manage money, tasks and points: \<^verbatim>\<open>wallet-detail.tsx\<close>,
  \<^verbatim>\<open>wallets-admin.tsx\<close>, \<^verbatim>\<open>ad-hoc-admin.tsx\<close>, \<^verbatim>\<open>chores-admin.tsx\<close>, \<^verbatim>\<open>rewards-admin.tsx\<close>,
  \<^verbatim>\<open>points-admin.tsx\<close>, \<^verbatim>\<open>quick-award.tsx\<close> and the kid's \<^verbatim>\<open>rewards-kid.tsx\<close> of
  \<^verbatim>\<open>web/src/components/screens\<close>, the rate field of \<^verbatim>\<open>settings/HourlyRateField.tsx\<close> and the popover of
  \<^verbatim>\<open>meal-plan/EditEntryPopover.tsx\<close>. A handler is a function from the fields to the mutation it
  sends, if any.
\<close>

section \<open>Amounts\<close>

text \<open>
  The browser keeps the value of a number input empty or a floating-point literal, so that what the
  handlers read is finite or not a number.
\<close>

definition float_literal :: "string \<Rightarrow> bool" where
  "float_literal s =
     (let u = (if s \<noteq> [] \<and> hd s = CHR ''-'' then tl s else s);
          ds = takeWhile is_digit u; r = dropWhile is_digit u;
          dot = (r \<noteq> [] \<and> hd r = CHR ''.'');
          fs = takeWhile is_digit (tl r);
          q = (if dot then dropWhile is_digit (tl r) else r)
      in (ds \<noteq> [] \<or> dot) \<and> (dot \<longrightarrow> fs \<noteq> []) \<and>
         (case parse_exp q of Some (_, []) \<Rightarrow> True | _ \<Rightarrow> False))"

definition number_input :: "string \<Rightarrow> string" where
  "number_input s = (if float_literal s then s else [])"

definition falsy_num :: "jnum \<Rightarrow> bool" where
  "falsy_num n \<longleftrightarrow> n = Fin 0 \<or> n = NaN"

text \<open>\<^verbatim>\<open>Math.round(parseFloat(s) * 100)\<close>.\<close>

definition typed_cents :: "string \<Rightarrow> jnum" where
  "typed_cents s = jround (jscale 100 (parse_float s))"

text \<open>The number sent for a finite amount; JSON has no other numbers and prints null for them.\<close>

definition with_amount :: "(rat \<Rightarrow> 'a) \<Rightarrow> jnum \<Rightarrow> 'a option" where
  "with_amount f n = (case n of Fin x \<Rightarrow> Some (f x) | _ \<Rightarrow> None)"

section \<open>Wallets\<close>

record wallet_form =
  wf_tip :: string
  wf_reason :: string
  wf_cash :: string
  wf_allowance :: string

definition allowance_of :: "(string \<times> rat) list \<Rightarrow> string \<Rightarrow> rat" where
  "allowance_of allowances memberId =
     (case find (\<lambda>a. fst a = memberId) allowances of None \<Rightarrow> 0 | Some a \<Rightarrow> snd a)"

text \<open>The state of the first render; \<open>allowances\<close> is what the query holds then, nothing on a fresh visit.\<close>

definition open_wallet :: "(string \<times> rat) list \<Rightarrow> string \<Rightarrow> wallet_form" where
  "open_wallet allowances memberId =
     \<lparr>wf_tip = [], wf_reason = [], wf_cash = [],
      wf_allowance = to_fixed 2 (allowance_of allowances memberId / 100)\<rparr>"

definition fire_tip :: "string \<Rightarrow> wallet_form \<Rightarrow> mutation option" where
  "fire_tip memberId f =
     (let cents = typed_cents (wf_tip f)
      in if falsy_num cents \<or> jleq cents (Fin 0) \<or> wf_reason f = [] then None
         else with_amount (\<lambda>x. use_tip memberId x (wf_reason f)) cents)"

definition tip_sent :: "wallet_form \<Rightarrow> wallet_form" where
  "tip_sent f = f\<lparr>wf_tip := [], wf_reason := []\<rparr>"

definition cash_out_of :: "string \<Rightarrow> string \<Rightarrow> mutation option" where
  "cash_out_of memberId amt =
     (let cents = typed_cents amt
      in if falsy_num cents \<or> jleq cents (Fin 0) then None
         else with_amount (\<lambda>x. use_cash_out memberId x (Some ''cash'') None) cents)"

definition fire_cash_out :: "string \<Rightarrow> wallet_form \<Rightarrow> mutation option" where
  "fire_cash_out memberId f = cash_out_of memberId (wf_cash f)"

definition save_allowance :: "string \<Rightarrow> wallet_form \<Rightarrow> mutation option" where
  "save_allowance memberId f =
     (let cents = typed_cents (wf_allowance f)
      in if jless cents (Fin 0) \<or> cents = NaN then None
         else with_amount (use_upsert_allowance memberId) cents)"

text \<open>The card of a child: the amount, and whether a payment is under way.\<close>

record wallet_card =
  wc_amount :: string
  wc_busy :: bool

definition handle_cash_out :: "string \<Rightarrow> wallet_card \<Rightarrow> wallet_card \<times> mutation option" where
  "handle_cash_out memberId s =
     (case cash_out_of memberId (wc_amount s) of
        None \<Rightarrow> (s, None)
      | Some m \<Rightarrow> (s\<lparr>wc_busy := True\<rparr>, Some m))"

definition cash_out_settled :: "wallet_card \<Rightarrow> wallet_card" where
  "cash_out_settled s = s\<lparr>wc_busy := False, wc_amount := []\<rparr>"

definition cash_out_disabled :: "wallet_card \<Rightarrow> bool" where
  "cash_out_disabled s \<longleftrightarrow> wc_busy s \<or> wc_amount s = []"

text \<open>The kid's view of a transaction.\<close>

definition label_for :: "string \<Rightarrow> string" where
  "label_for kind =
     (case map_of [(''chore_payout'', ''Chore''), (''streak_bonus'', ''Streak bonus''), (''tip'', ''Tip''),
        (''ad_hoc'', ''Bonus task''), (''cash_out'', ''Cashed out''), (''adjustment'', ''Adjustment'')] kind of
        None \<Rightarrow> kind | Some l \<Rightarrow> l)"

text \<open>An unreadable time gives \<^verbatim>\<open>NaN\<close>, for which every comparison fails.\<close>

definition rel_time :: "(int \<Rightarrow> int) \<Rightarrow> int \<Rightarrow> string \<Rightarrow> string" where
  "rel_time loc now createdAt =
     (case date_parse loc createdAt of
        None \<Rightarrow> ''NaNd ago''
      | Some t \<Rightarrow>
          (let ms = now - t in
           if ms < 60000 then ''just now''
           else if ms < 3600000 then int_str (ms div 60000) @ ''m ago''
           else if ms < 86400000 then int_str (ms div 3600000) @ ''h ago''
           else int_str (ms div 86400000) @ ''d ago''))"

section \<open>Bonus tasks and chores\<close>

text \<open>The child preselected by the first render.\<close>

definition first_kid :: "member list \<Rightarrow> string" where
  "first_kid members = (case filter (\<lambda>m. mem_role m = ''child'') members of [] \<Rightarrow> [] | m # _ \<Rightarrow> mem_id m)"

definition submit_ad_hoc :: "string \<Rightarrow> string \<Rightarrow> string \<Rightarrow> mutation option" where
  "submit_ad_hoc memberId nm amount =
     (let cents = typed_cents amount
      in if nm = [] \<or> memberId = [] \<or> falsy_num cents then None
         else with_amount (\<lambda>x. use_create_ad_hoc_task
           [(''member_id'', JStr memberId), (''name'', JStr nm), (''payout_cents'', JNum x),
            (''requires_approval'', JBool True)]) cents)"

text \<open>The set of picked pets, in the order of insertion.\<close>

definition toggle_pet :: "string \<Rightarrow> string list \<Rightarrow> string list" where
  "toggle_pet i prev = (if i \<in> set prev then filter (\<lambda>x. x \<noteq> i) prev else prev @ [i])"

record chore_form =
  cf_show :: bool
  cf_member :: string
  cf_name :: string
  cf_weight :: int
  cf_frequency :: string
  cf_auto_approve :: bool
  cf_pets :: "string list"

definition submit_chore :: "chore_form \<Rightarrow> mutation option" where
  "submit_chore f =
     (if cf_name f = [] \<or> cf_member f = [] then None
      else Some (use_create_chore
        [(''member_id'', JStr (cf_member f)), (''name'', JStr (cf_name f)),
         (''weight'', JNum (of_int (cf_weight f))), (''frequency_kind'', JStr (cf_frequency f)),
         (''auto_approve'', JBool (cf_auto_approve f))]))"

text \<open>\<open>created\<close> is the id in the answer.\<close>

definition chore_created :: "string option \<Rightarrow> chore_form \<Rightarrow> chore_form \<times> mutation option" where
  "chore_created created f =
     (f\<lparr>cf_name := [], cf_pets := [], cf_show := False\<rparr>,
      if cf_pets f \<noteq> [] \<and> truthy created then Some (use_set_chore_pets (the created) (cf_pets f)) else None)"

definition listed_chores :: "api_chore list \<Rightarrow> api_chore list" where
  "listed_chores chores = filter (\<lambda>c. \<not> truthy (ch_archived_at c)) chores"

section \<open>Rewards and points\<close>

definition submit_reward :: "string \<Rightarrow> jnum \<Rightarrow> string \<Rightarrow> mutation option" where
  "submit_reward nm cost kind =
     (if nm \<noteq> [] \<and> jleq (Fin 0) cost
      then with_amount (\<lambda>x. use_create_reward
        [(''name'', JStr nm), (''cost_points'', JNum x), (''fulfillment_kind'', JStr kind)]) cost
      else None)"

text \<open>Leaving a field sends it when it differs from what the server has.\<close>

definition blur_reward_name :: "string \<Rightarrow> string \<Rightarrow> string \<Rightarrow> mutation option" where
  "blur_reward_name i nm v = (if v \<noteq> nm then Some (use_update_reward i [(''name'', JStr v)]) else None)"

definition blur_reward_cost :: "string \<Rightarrow> rat \<Rightarrow> string \<Rightarrow> mutation option" where
  "blur_reward_cost i cost v =
     (if to_number v \<noteq> Fin cost
      then with_amount (\<lambda>x. use_update_reward i [(''cost_points'', JNum x)]) (to_number v) else None)"

definition decline_prompt :: "string \<Rightarrow> string option \<Rightarrow> mutation option" where
  "decline_prompt i answer = (if truthy answer then Some (use_decline_redemption i (the answer)) else None)"

definition submit_category :: "string \<Rightarrow> string \<Rightarrow> mutation option" where
  "submit_category nm color =
     (if nm \<noteq> [] then Some (use_create_point_category [(''name'', JStr nm), (''color'', JStr color)]) else None)"

definition submit_behavior :: "string \<Rightarrow> string \<Rightarrow> rat \<Rightarrow> mutation option" where
  "submit_behavior categoryId nm pts =
     (if categoryId \<noteq> [] \<and> nm \<noteq> []
      then Some (use_create_behavior
        [(''category_id'', JStr categoryId), (''name'', JStr nm), (''suggested_points'', JNum pts)])
      else None)"

definition blur_behavior_points :: "string \<Rightarrow> rat \<Rightarrow> string \<Rightarrow> mutation option" where
  "blur_behavior_points i pts v =
     (if to_number v \<noteq> Fin pts
      then with_amount (\<lambda>x. use_update_behavior i [(''suggested_points'', JNum x)]) (to_number v) else None)"

record behavior =
  bh_id :: string
  bh_category_id :: string
  bh_name :: string
  bh_suggested_points :: rat

definition filtered_behaviors :: "string option \<Rightarrow> behavior list \<Rightarrow> behavior list" where
  "filtered_behaviors categoryId bs =
     filter (\<lambda>b. \<not> truthy categoryId \<or> bh_category_id b = the categoryId) bs"

definition award :: "string option \<Rightarrow> behavior \<Rightarrow> mutation option" where
  "award memberId b =
     (if truthy memberId
      then Some (use_grant_points (the memberId)
        [(''behavior_id'', JStr (bh_id b)), (''category_id'', JStr (bh_category_id b)),
         (''points'', JNum (bh_suggested_points b)), (''reason'', JStr (bh_name b))])
      else None)"

text \<open>The kid's catalog passes no adjustments to \<^verbatim>\<open>effectiveCost\<close>.\<close>

definition reward_cards :: "(int \<Rightarrow> int) \<Rightarrow> int \<Rightarrow> api_reward list \<Rightarrow> (api_reward \<times> rat) list" where
  "reward_cards loc now rewards =
     map (\<lambda>r. (r, effective_cost loc (of_int (rw_cost_points r)) [] now)) rewards"

definition on_set_goal :: "string \<Rightarrow> string \<Rightarrow> string option \<Rightarrow> string option \<times> mutation" where
  "on_set_goal memberId rewardId activeGoal =
     (let nxt = (if activeGoal = Some rewardId then None else Some rewardId)
      in (nxt, use_set_savings_goal memberId nxt))"

definition redeem_toast :: "string \<Rightarrow> string \<Rightarrow> string" where
  "redeem_toast status charged =
     (if status = ''approved'' then ''Redeemed! '' @ charged @ '' pts spent.''
      else ''Request sent '' @ [CHR 0xE2, CHR 0x80, CHR 0x94] @ '' waiting for parent approval.'')"

section \<open>Hourly rates\<close>

definition cents_to_dollar_string :: "rat option \<Rightarrow> string" where
  "cents_to_dollar_string cents =
     (case cents of
        None \<Rightarrow> []
      | Some c \<Rightarrow> (let dollars = c / 100 in if is_int dollars then num_str dollars else to_fixed 2 dollars))"

definition dollar_string_to_cents :: "string \<Rightarrow> rat option" where
  "dollar_string_to_cents value =
     (let trimmed = trim value in
      if trimmed = [] then None
      else case to_number trimmed of
        Fin dollars \<Rightarrow> if dollars < 0 then None else Some (of_int (math_round (dollars * 100)))
      | _ \<Rightarrow> None)"

definition can_view_hourly_rate :: "(string \<times> string) option \<Rightarrow> string \<Rightarrow> bool" where
  "can_view_hourly_rate viewer targetMemberId =
     (case viewer of
        None \<Rightarrow> False
      | Some (i, role) \<Rightarrow> role = ''adult'' \<or> i = targetMemberId)"

text \<open>Saving: a complaint, or the update that is sent.\<close>

definition blank_patch :: member_patch where
  "blank_patch = \<lparr>mp_name = None, mp_display_name = None, mp_color = None, mp_role = None,
     mp_age_group = None, mp_pin = None, mp_rate_min = None, mp_rate_max = None\<rparr>"

definition save_rate :: "string \<Rightarrow> string \<Rightarrow> string \<Rightarrow> string \<Rightarrow> string + mutation" where
  "save_rate householdId memberId minDollars maxDollars =
     (let minCents = dollar_string_to_cents minDollars; maxCents = dollar_string_to_cents maxDollars in
      if trim minDollars \<noteq> [] \<and> minCents = None then Inl ''Minimum must be a non-negative number.''
      else if trim maxDollars \<noteq> [] \<and> maxCents = None then Inl ''Maximum must be a non-negative number.''
      else if minCents \<noteq> None \<and> maxCents \<noteq> None \<and> the maxCents < the minCents
        then Inl ''Minimum cannot exceed maximum.''
      else Inr (use_update_member householdId memberId
        (blank_patch\<lparr>mp_rate_min := Some minCents, mp_rate_max := Some maxCents\<rparr>)))"

section \<open>The popover of a planned meal\<close>

definition popover_values :: "string \<Rightarrow> string \<Rightarrow> string \<Rightarrow> rat \<times> rat \<times> rat" where
  "popover_values multiplier batch leftovers =
     ((case parse_float multiplier of Fin m \<Rightarrow> if m > 0 then m else 1 | _ \<Rightarrow> 1),
      (case parse_int batch of Fin b \<Rightarrow> if b > 0 then b else 1 | _ \<Rightarrow> 1),
      (case parse_int leftovers of Fin l \<Rightarrow> if l \<ge> 0 then l else 0 | _ \<Rightarrow> 0))"

section \<open>Lemmas\<close>

lemma with_amount_Some: "with_amount f n = Some m \<longleftrightarrow> (\<exists>x. n = Fin x \<and> m = f x)"
  by (auto simp: with_amount_def split: jnum.splits)

lemma typed_cents_whole: "typed_cents s = Fin x \<Longrightarrow> is_int x"
  by (cases "parse_float s") (auto simp: typed_cents_def is_int_def)

text \<open>The nearest cent: half a cent away at most.\<close>

lemma typed_cents_near:
  assumes "parse_float s = Fin d" and "typed_cents s = Fin x"
  shows "\<bar>x - 100 * d\<bar> \<le> 1 / 2"
proof -
  have x: "x = of_int \<lfloor>100 * d + 1 / 2\<rfloor>" using assms by (simp add: typed_cents_def math_round_def)
  have "of_int \<lfloor>100 * d + 1 / 2\<rfloor> \<le> 100 * d + 1 / 2" "100 * d + 1 / 2 < of_int \<lfloor>100 * d + 1 / 2\<rfloor> + 1"
    by linarith+
  with x show ?thesis by linarith
qed

text \<open>A literal with two fraction digits reads as what it spells.\<close>

lemma to_number_fixed:
  assumes "list_all is_digit w" and "w \<noteq> []" and "list_all is_digit f" and "f \<noteq> []"
  shows "to_number (w @ CHR ''.'' # f) = Fin (of_nat (digits_val (w @ f)) / 10 ^ length f)"
proof -
  have dot: "\<not> is_digit CHR ''.''" by (simp add: is_digit_def code_of_def)
  have w: "\<forall>c \<in> set w. is_digit c" and f: "\<forall>c \<in> set f. is_digit c" using assms by (simp_all add: list_all_iff)
  obtain c w' where cw: "w = c # w'" using assms(2) by (cases w) auto
  have lf: "is_digit (last f)" using f assms(4) by simp
  have t: "trim (w @ CHR ''.'' # f) = w @ CHR ''.'' # f"
    using cw w lf assms(4) by (intro trim_digit_ends) auto
  have "c \<noteq> CHR ''-''" "c \<noteq> CHR ''+''" "c \<noteq> CHR ''I''" using cw w by (auto simp: is_digit_def code_of_def)
  moreover have low: "lower_char c = c" using cw w by (auto simp: lower_char_def is_digit_def is_upper_def)
  have "lower_char x \<notin> {CHR ''x'', CHR ''o'', CHR ''b''}" if "is_digit x \<or> x = CHR ''.''" for x
  proof -
    have "\<not> is_upper x" using that by (auto simp: is_digit_def is_upper_def code_of_def)
    then have "lower_char x = x" by (simp add: lower_char_def)
    with that show ?thesis by (auto simp: is_digit_def code_of_def)
  qed
  then have "lowercase (take 2 (w @ CHR ''.'' # f)) \<notin> {''0x'', ''0o'', ''0b''}"
    using cw w by (cases w') (auto simp: lowercase_def)
  moreover have "takeWhile is_digit (w @ CHR ''.'' # f) = w" "dropWhile is_digit (w @ CHR ''.'' # f) = CHR ''.'' # f"
    "takeWhile is_digit f = f" "dropWhile is_digit f = []"
    using w f dot by (simp_all add: takeWhile_append2 dropWhile_append2 takeWhile_eq_all_conv)
  then have "scan_unsigned (w @ CHR ''.'' # f) = Some (of_nat (digits_val (w @ f)) / 10 ^ length f, [])"
    using assms(2) by (simp add: scan_unsigned_def parse_exp_digit_free scale10_def Let_def
        del: takeWhile_eq_all_conv dropWhile_eq_Nil_conv)
  moreover have "\<not> starts_with (w @ CHR ''.'' # f) ''Infinity''"
    using cw \<open>c \<noteq> CHR ''I''\<close> by (simp add: starts_with_def)
  moreover have "hd (w @ CHR ''.'' # f) = c" "w @ CHR ''.'' # f \<noteq> []" using cw by simp_all
  ultimately show ?thesis by (simp only: to_number_def t Let_def scan_number_def scan_magnitude_def) simp
qed

section \<open>Properties\<close>

lemma cents_of_text:
  "typed_cents s = Fin x \<Longrightarrow> is_int x \<and> (\<forall>d. parse_float s = Fin d \<longrightarrow> \<bar>x - 100 * d\<bar> \<le> 1 / 2)"
  using typed_cents_whole typed_cents_near by blast

lemma cash_out_Some:
  "cash_out_of memberId a = Some m \<longleftrightarrow>
     (\<exists>x. typed_cents a = Fin x \<and> 0 < x \<and> m = use_cash_out memberId x (Some ''cash'') None)"
  by (cases "typed_cents a") (auto simp: cash_out_of_def Let_def with_amount_def falsy_num_def jleq_def)

lemma fire_tip_Some:
  "fire_tip memberId f = Some m \<longleftrightarrow>
     (\<exists>x. typed_cents (wf_tip f) = Fin x \<and> 0 < x \<and> wf_reason f \<noteq> [] \<and> m = use_tip memberId x (wf_reason f))"
  by (cases "typed_cents (wf_tip f)") (auto simp: fire_tip_def Let_def with_amount_def falsy_num_def jleq_def)

text \<open>
  A tip or a payment that a parent sends is a positive whole number of cents, the one nearest to the
  amount typed, and a tip has a reason. The fields are left alone when nothing is sent.
\<close>

theorem amounts_sent_positive:
  "(\<forall>m. fire_tip memberId f = Some m \<longrightarrow>
      (\<exists>x. m = use_tip memberId x (wf_reason f) \<and> wf_reason f \<noteq> [] \<and> 0 < x \<and> is_int x \<and>
         (\<forall>d. parse_float (wf_tip f) = Fin d \<longrightarrow> \<bar>x - 100 * d\<bar> \<le> 1 / 2))) \<and>
   (case handle_cash_out memberId s of
      (s', Some m) \<Rightarrow> (\<exists>x. m = use_cash_out memberId x (Some ''cash'') None \<and> 0 < x \<and> is_int x \<and>
         (\<forall>d. parse_float (wc_amount s) = Fin d \<longrightarrow> \<bar>x - 100 * d\<bar> \<le> 1 / 2)) \<and> cash_out_disabled s'
    | (s', None) \<Rightarrow> s' = s)"
proof (intro conjI allI impI)
  fix m assume "fire_tip memberId f = Some m"
  then show "\<exists>x. m = use_tip memberId x (wf_reason f) \<and> wf_reason f \<noteq> [] \<and> 0 < x \<and> is_int x \<and>
      (\<forall>d. parse_float (wf_tip f) = Fin d \<longrightarrow> \<bar>x - 100 * d\<bar> \<le> 1 / 2)"
    unfolding fire_tip_Some using cents_of_text by blast
next
  show "case handle_cash_out memberId s of
      (s', Some m) \<Rightarrow> (\<exists>x. m = use_cash_out memberId x (Some ''cash'') None \<and> 0 < x \<and> is_int x \<and>
         (\<forall>d. parse_float (wc_amount s) = Fin d \<longrightarrow> \<bar>x - 100 * d\<bar> \<le> 1 / 2)) \<and> cash_out_disabled s'
    | (s', None) \<Rightarrow> s' = s"
  proof (cases "cash_out_of memberId (wc_amount s)")
    case None
    then show ?thesis by (simp add: handle_cash_out_def)
  next
    case (Some m)
    then have "\<exists>x. m = use_cash_out memberId x (Some ''cash'') None \<and> 0 < x \<and> is_int x \<and>
        (\<forall>d. parse_float (wc_amount s) = Fin d \<longrightarrow> \<bar>x - 100 * d\<bar> \<le> 1 / 2)"
      unfolding cash_out_Some using cents_of_text by blast
    with Some show ?thesis by (simp add: handle_cash_out_def cash_out_disabled_def)
  qed
qed

theorem amounts_sent_positive_witness:
  "\<exists>x. use_tip ''m1'' 1235 ''lawn'' = use_tip ''m1'' x ''lawn'' \<and> 0 < x \<and> is_int x"
proof -
  let ?f = "\<lparr>wf_tip = ''12.345'', wf_reason = ''lawn'', wf_cash = [], wf_allowance = []\<rparr>"
  have "typed_cents ''12.345'' = Fin 1235"
    by (simp add: typed_cents_def parse_float_def scan_number_def scan_magnitude_def scan_unsigned_def Let_def
        is_digit_def is_space_def code_of_def digits_val_def parse_exp_def starts_with_def math_round_def scale10_def)
  then have "fire_tip ''m1'' ?f = Some (use_tip ''m1'' 1235 ''lawn'')" unfolding fire_tip_Some by simp
  from amounts_sent_positive[THEN conjunct1, rule_format, OF this]
  obtain x where "use_tip ''m1'' 1235 ''lawn'' = use_tip ''m1'' x (wf_reason ?f)" "0 < x" "is_int x" by blast
  then show ?thesis by (intro exI[of _ x]) simp
qed

text \<open>
  The allowance field is filled by the first render: opened before the allowances have arrived it
  reads zero, and saving it unchanged then sets the allowance to zero, whatever it was.
\<close>

theorem unloaded_allowance_saved_as_zero:
  "save_allowance memberId (open_wallet [] memberId) = Some (use_upsert_allowance memberId 0)"
proof -
  have "to_fixed 2 0 = ''0.00''" by code_simp
  then have a: "wf_allowance (open_wallet [] memberId) = ''0.00''"
    by (simp add: open_wallet_def allowance_of_def)
  have "typed_cents ''0.00'' = Fin 0" by code_simp
  then show ?thesis by (simp add: save_allowance_def a with_amount_def)
qed

text \<open>
  A rate is shown to adults and to the child it belongs to only. The rates that are saved are not
  negative and in order.
\<close>

theorem saved_rates_in_order:
  "case save_rate h i lo hi of
     Inl _ \<Rightarrow> True
   | Inr m \<Rightarrow> (\<exists>a b. m = use_update_member h i (blank_patch\<lparr>mp_rate_min := Some a, mp_rate_max := Some b\<rparr>) \<and>
       (trim lo = [] \<longleftrightarrow> a = None) \<and> (trim hi = [] \<longleftrightarrow> b = None) \<and>
       (\<forall>x. a = Some x \<longrightarrow> 0 \<le> x \<and> is_int x) \<and> (\<forall>y. b = Some y \<longrightarrow> 0 \<le> y \<and> is_int y) \<and>
       (\<forall>x y. a = Some x \<and> b = Some y \<longrightarrow> x \<le> y))"
proof -
  have z: "0 \<le> x \<and> is_int x" if "dollar_string_to_cents s = Some x" for s x
  proof -
    from that have "\<exists>d. 0 \<le> d \<and> x = of_int (math_round (d * 100))"
      by (auto simp: dollar_string_to_cents_def Let_def not_less split: if_splits jnum.splits)
    then obtain d where "0 \<le> d" "x = of_int (math_round (d * 100))" by blast
    then show ?thesis by (simp add: is_int_def math_round_def)
  qed
  have n: "dollar_string_to_cents s = None" if "trim s = []" for s
    using that by (simp add: dollar_string_to_cents_def)
  let ?a = "dollar_string_to_cents lo" and ?b = "dollar_string_to_cents hi"
  show ?thesis
  proof (cases "save_rate h i lo hi")
    case (Inr m)
    then have m: "m = use_update_member h i (blank_patch\<lparr>mp_rate_min := Some ?a, mp_rate_max := Some ?b\<rparr>)"
      and ok: "trim lo \<noteq> [] \<longrightarrow> ?a \<noteq> None" "trim hi \<noteq> [] \<longrightarrow> ?b \<noteq> None"
        "\<not> (?a \<noteq> None \<and> ?b \<noteq> None \<and> the ?b < the ?a)"
      by (auto simp: save_rate_def Let_def split: if_splits)
    have "\<forall>x y. ?a = Some x \<and> ?b = Some y \<longrightarrow> x \<le> y" using ok(3) by auto
    with m ok(1,2) n z Inr show ?thesis unfolding Inr sum.case by (intro exI[of _ ?a] exI[of _ ?b]) blast
  qed simp
qed

lemma dollars_of_text:
  assumes "s \<noteq> []" and "is_digit (hd s)" and "is_digit (last s)" and "to_number s = Fin d" and "0 \<le> d"
  shows "dollar_string_to_cents s = Some (of_int (math_round (d * 100)))"
  using assms trim_digit_ends[OF assms(1-3)] by (simp add: dollar_string_to_cents_def)

lemma math_round_int: "math_round (of_int i) = i"
  unfolding math_round_def by linarith

text \<open>A rate in cents is shown in dollars and read back as the same cents.\<close>

theorem rate_roundtrip:
  assumes "0 \<le> c"
  shows "dollar_string_to_cents (cents_to_dollar_string (Some (of_int c))) = Some (of_int c)"
proof (cases "is_int (of_int c / 100 :: rat)")
  case True
  then obtain k where k: "(of_int c / 100 :: rat) = of_int k" unfolding is_int_def by metis
  then have c': "(of_int c :: rat) = of_int k * 100" by simp
  then have "(of_int c :: rat) = of_int (k * 100)" by simp
  then have k0: "0 \<le> k" using assms by (simp only: of_int_eq_iff)
  then have s: "cents_to_dollar_string (Some (of_int c)) = nat_str (nat k)"
    by (simp add: cents_to_dollar_string_def Let_def k is_int_def num_str_def int_str_def)
  have n: "to_number (nat_str (nat k)) = Fin (of_int k)"
    using to_number_digits[OF nat_str_digits nat_str_nonempty] k0 by (simp add: digits_nat_str)
  have "is_digit (hd (nat_str (nat k)))" "is_digit (last (nat_str (nat k)))"
    using nat_str_digits[of "nat k"] nat_str_nonempty[of "nat k"] by (simp_all add: list_all_iff)
  from dollars_of_text[OF nat_str_nonempty this n] k0 show ?thesis
    using math_round_int[of c] by (simp add: s flip: c')
next
  case False
  let ?m = "nat c" and ?w = "nat_str (nat c div 100)" and ?f = "pad_num 2 (int (nat c mod 100))"
  have "\<lfloor>\<bar>of_int c / 100 :: rat\<bar> * 10 ^ 2 + 1 / 2\<rfloor> = c"
    using assms math_round_int[of c] by (simp add: math_round_def)
  then have s: "cents_to_dollar_string (Some (of_int c)) = ?w @ CHR ''.'' # ?f"
    using assms False
    by (simp add: cents_to_dollar_string_def Let_def to_fixed_def pad_num_def)
  have f: "length ?f = 2" "digits_val ?f = nat c mod 100" "list_all is_digit ?f"
    using pad_num_props[of "int (nat c mod 100)" 2] by (simp_all add: nat_less_iff)
  then have fne: "?f \<noteq> []" by auto
  have n: "to_number (?w @ CHR ''.'' # ?f) = Fin (of_nat (digits_val (?w @ ?f)) / 10 ^ length ?f)"
    by (rule to_number_fixed) (use f fne nat_str_digits nat_str_nonempty in auto)
  also have "digits_val (?w @ ?f) = nat c"
    using f by (simp add: digits_val_append digits_nat_str)
  finally have n: "to_number (?w @ CHR ''.'' # ?f) = Fin (of_int c / 100)" using f(1) assms by simp
  have "is_digit (hd (?w @ CHR ''.'' # ?f))" "is_digit (last (?w @ CHR ''.'' # ?f))"
    using nat_str_digits[of "nat c div 100"] nat_str_nonempty[of "nat c div 100"] f(3) fne
    by (simp_all add: list_all_iff)
  from dollars_of_text[OF _ this n] assms show ?thesis
    using math_round_int[of c] by (simp add: s)
qed

theorem rate_roundtrip_witness:
  "dollar_string_to_cents (cents_to_dollar_string (Some 1250)) = Some 1250"
  using rate_roundtrip[of 1250] by simp

text \<open>What the popover of a planned meal saves is usable whatever was typed.\<close>

lemma popover_values_ok:
  "case popover_values a b c of (m, n, k) \<Rightarrow> 0 < m \<and> 1 \<le> n \<and> is_int n \<and> 0 \<le> k \<and> is_int k"
proof -
  have i: "is_int (of_int i)" for i :: int by (simp add: is_int_def)
  have pos: "1 \<le> x" if "0 < x" "x = of_int i" for x :: rat and i
    using that by simp
  show ?thesis
    using parse_int_whole[of b] parse_int_whole[of c] i
    by (auto simp: popover_values_def is_int_def split: jnum.splits intro: pos)
qed

end
