(* ===== verification/Cooking.thy ===== *)
theory Cooking
  imports JsNumber Machine UrlCodec
begin

text \<open>
  Cooking a recipe: the scaling of ingredient amounts and the servings of \<^verbatim>\<open>RecipeDetail\<close> in
  \<^verbatim>\<open>web/src/components/screens/recipes.tsx\<close>, and the step-by-step mode of
  \<^verbatim>\<open>web/src/components/screens/cooking-mode.tsx\<close> with its step timer.
\<close>

section \<open>Amounts\<close>

text \<open>
  The number token an amount starts with: a mixed number, a fraction or a decimal, tried in the order
  of the alternatives of the pattern; \<open>None\<close> if there is none.
\<close>

definition mixed_token :: "string \<Rightarrow> (string \<times> string) option" where
  "mixed_token s =
     (let w = takeWhile is_digit s; r = dropWhile is_digit s;
          sp = takeWhile is_space r; r2 = dropWhile is_space r;
          n = takeWhile is_digit r2; r3 = dropWhile is_digit r2;
          d = takeWhile is_digit (tl r3)
      in if w \<noteq> [] \<and> sp \<noteq> [] \<and> n \<noteq> [] \<and> r3 \<noteq> [] \<and> hd r3 = CHR ''/'' \<and> d \<noteq> []
         then Some (w @ sp @ n @ ''/'' @ d, dropWhile is_digit (tl r3)) else None)"

definition fraction_token :: "string \<Rightarrow> (string \<times> string) option" where
  "fraction_token s =
     (let n = takeWhile is_digit s; r = dropWhile is_digit s; d = takeWhile is_digit (tl r)
      in if n \<noteq> [] \<and> r \<noteq> [] \<and> hd r = CHR ''/'' \<and> d \<noteq> []
         then Some (n @ ''/'' @ d, dropWhile is_digit (tl r)) else None)"

definition decimal_token :: "string \<Rightarrow> (string \<times> string) option" where
  "decimal_token s =
     (let w = takeWhile is_digit s; r = dropWhile is_digit s; f = takeWhile is_digit (tl r)
      in if w = [] then None
         else if r \<noteq> [] \<and> hd r = CHR ''.'' \<and> f \<noteq> [] then Some (w @ ''.'' @ f, dropWhile is_digit (tl r))
         else Some (w, r))"

text \<open>The rest of the amount must not contain a line break, which the dot does not match.\<close>

definition amount_token :: "string \<Rightarrow> (string \<times> string) option" where
  "amount_token amt =
     (let s = dropWhile is_space amt;
          m = (case mixed_token s of Some x \<Rightarrow> Some x
               | None \<Rightarrow> (case fraction_token s of Some x \<Rightarrow> Some x | None \<Rightarrow> decimal_token s))
      in case m of
           None \<Rightarrow> None
         | Some (tok, rest) \<Rightarrow> if list_ex (\<lambda>c. code_of c \<in> {10, 13}) rest then None else Some (tok, rest))"

definition ratio :: "string \<Rightarrow> jnum" where
  "ratio fr =
     (case map to_number (split_on (CHR ''/'') fr) of
        Fin n # Fin d # _ \<Rightarrow> jdiv_fin n d
      | _ \<Rightarrow> NaN)"

definition token_value :: "string \<Rightarrow> jnum" where
  "token_value tok =
     (if CHR '' '' \<in> set tok then
        (case words tok of whole # fr # _ \<Rightarrow> jadd (to_number whole) (ratio fr) | _ \<Rightarrow> NaN)
      else if CHR ''/'' \<in> set tok then ratio tok
      else to_number tok)"

text \<open>\<open>factor\<close> is positive: a number of servings over another.\<close>

definition scale_amount :: "string option \<Rightarrow> rat \<Rightarrow> string" where
  "scale_amount amt factor =
     (if \<not> truthy amt then []
      else if factor = 1 then the amt
      else case amount_token (the amt) of
        None \<Rightarrow> the amt
      | Some (tok, rest) \<Rightarrow>
          jnum_str (jscale (1 / 100) (jround (jscale 100 (jscale factor (token_value tok))))) @ rest)"

definition scale_factor :: "rat \<Rightarrow> rat \<Rightarrow> rat" where
  "scale_factor baseServes servings = (if baseServes > 0 then servings / baseServes else 1)"

definition fewer_servings :: "rat \<Rightarrow> rat" where "fewer_servings s = max 1 (s - 1)"
definition more_servings :: "rat \<Rightarrow> rat" where "more_servings s = s + 1"

section \<open>The timer of a step\<close>

definition is_word :: "char \<Rightarrow> bool" where
  "is_word c \<longleftrightarrow> is_alnum c \<or> c = CHR ''_''"

definition word_ends :: "string \<Rightarrow> bool" where
  "word_ends s \<longleftrightarrow> s = [] \<or> \<not> is_word (hd s)"

text \<open>The pattern of digits and minutes at the start of the text; gives the digits.\<close>

definition minutes_here :: "string \<Rightarrow> string option" where
  "minutes_here s =
     (let ds = takeWhile is_digit s;
          r = dropWhile is_space (dropWhile is_digit s);
          q = drop 3 r
      in if ds \<noteq> [] \<and> lowercase (take 3 r) = ''min'' \<and>
            ((lowercase (take 4 q) = ''utes'' \<and> word_ends (drop 4 q)) \<or>
             (lowercase (take 3 q) = ''ute'' \<and> word_ends (drop 3 q)) \<or> word_ends q)
         then Some ds else None)"

fun find_minutes :: "bool \<Rightarrow> string \<Rightarrow> string option" where
  "find_minutes inWord [] = None"
| "find_minutes inWord (c # s) =
     (case (if inWord then None else minutes_here (c # s)) of
        Some ds \<Rightarrow> Some ds
      | None \<Rightarrow> find_minutes (is_word c) s)"

definition timer_seconds :: "string \<Rightarrow> nat option" where
  "timer_seconds step = map_option (\<lambda>ds. digits_val ds * 60) (find_minutes False step)"

record step_timer =
  st_seconds :: nat
  st_remaining :: nat
  st_running :: bool

definition mount_timer :: "nat \<Rightarrow> step_timer" where
  "mount_timer seconds = \<lparr>st_seconds = seconds, st_remaining = seconds, st_running = False\<rparr>"

text \<open>The countdown: one second passes. The flag tells that \<^verbatim>\<open>onDone\<close> is called.\<close>

definition tick :: "step_timer \<Rightarrow> step_timer \<times> bool" where
  "tick t =
     (if \<not> st_running t then (t, False)
      else if st_remaining t \<le> 1 then (t\<lparr>st_remaining := 0, st_running := False\<rparr>, True)
      else (t\<lparr>st_remaining := st_remaining t - 1\<rparr>, False))"

definition timer_label :: "step_timer \<Rightarrow> string" where
  "timer_label t =
     nat_str (st_remaining t div 60) @ '':'' @ pad_start 2 (CHR ''0'') (nat_str (st_remaining t mod 60))"

section \<open>Cooking mode\<close>

record cooking =
  ck_step :: nat
  ck_done :: bool
  ck_timer :: "step_timer option"

text \<open>
  Rendering a step. The timer is mounted while the step has one; a mounted timer starts over only when
  its number of seconds changes.
\<close>

definition sync_timer :: "nat option \<Rightarrow> step_timer option \<Rightarrow> step_timer option" where
  "sync_timer seconds t =
     (case seconds of
        None \<Rightarrow> None
      | Some n \<Rightarrow>
          if n = 0 then None
          else (case t of
              None \<Rightarrow> Some (mount_timer n)
            | Some old \<Rightarrow> if st_seconds old = n then Some old else Some (mount_timer n)))"

definition step_text :: "string list \<Rightarrow> nat \<Rightarrow> string" where
  "step_text steps i = (if i < length steps then steps ! i else [])"

definition go_to :: "string list \<Rightarrow> nat \<Rightarrow> cooking \<Rightarrow> cooking" where
  "go_to steps i s =
     (if i = ck_step s then s
      else \<lparr>ck_step = i, ck_done = False,
             ck_timer = sync_timer (timer_seconds (step_text steps i)) (ck_timer s)\<rparr>)"

definition enter_cooking :: "string list \<Rightarrow> cooking" where
  "enter_cooking steps =
     \<lparr>ck_step = 0, ck_done = False, ck_timer = sync_timer (timer_seconds (step_text steps 0)) None\<rparr>"

datatype cook_event = PrevStep | NextStep | StartTimer | PauseTimer | ResetTimer | SecondPasses

text \<open>
  The buttons are there when the code draws them: the first step has no previous one, the last one
  finishes instead, a timer starts only with time left and is reset only after it has run.
\<close>

fun cook_step :: "string list \<Rightarrow> cook_event \<Rightarrow> cooking \<Rightarrow> cooking" where
  "cook_step steps PrevStep s = (if ck_step s = 0 then s else go_to steps (ck_step s - 1) s)"
| "cook_step steps NextStep s =
     (if ck_step s + 1 < length steps then go_to steps (min (length steps - 1) (ck_step s + 1)) s else s)"
| "cook_step steps StartTimer s =
     s\<lparr>ck_timer := map_option (\<lambda>t. if 0 < st_remaining t then t\<lparr>st_running := True\<rparr> else t) (ck_timer s)\<rparr>"
| "cook_step steps PauseTimer s = s\<lparr>ck_timer := map_option (\<lambda>t. t\<lparr>st_running := False\<rparr>) (ck_timer s)\<rparr>"
| "cook_step steps ResetTimer s =
     s\<lparr>ck_timer := map_option (\<lambda>t. if st_remaining t \<noteq> st_seconds t
        then t\<lparr>st_remaining := st_seconds t, st_running := False\<rparr> else t) (ck_timer s)\<rparr>"
| "cook_step steps SecondPasses s =
     (case ck_timer s of
        None \<Rightarrow> s
      | Some t \<Rightarrow> s\<lparr>ck_timer := Some (fst (tick t)), ck_done := (ck_done s \<or> snd (tick t))\<rparr>)"

section \<open>The invariant of cooking mode\<close>

definition countdown_ok :: "nat option \<Rightarrow> step_timer option \<Rightarrow> bool" where
  "countdown_ok seconds t =
     (case t of
        None \<Rightarrow> seconds = None \<or> seconds = Some 0
      | Some x \<Rightarrow> seconds = Some (st_seconds x) \<and> 0 < st_seconds x \<and> st_remaining x \<le> st_seconds x \<and>
          (st_running x \<longrightarrow> 0 < st_remaining x))"

definition cook_ok :: "string list \<Rightarrow> cooking \<Rightarrow> bool" where
  "cook_ok steps s \<longleftrightarrow>
     ck_step s < max 1 (length steps) \<and> countdown_ok (timer_seconds (step_text steps (ck_step s))) (ck_timer s)"

lemma sync_countdown_ok:
  assumes "countdown_ok old t"
  shows "countdown_ok seconds (sync_timer seconds t)"
  using assms by (auto simp: countdown_ok_def sync_timer_def mount_timer_def split: option.splits)

lemma tick_ok: "countdown_ok n (Some t) \<Longrightarrow> countdown_ok n (Some (fst (tick t)))"
  by (auto simp: countdown_ok_def tick_def)

lemma cook_step_ok: "cook_ok steps s \<Longrightarrow> cook_ok steps (cook_step steps e s)"
proof (cases e)
  case PrevStep
  assume "cook_ok steps s"
  with PrevStep show ?thesis
    by (auto simp: cook_ok_def go_to_def intro: sync_countdown_ok)
next
  case NextStep
  assume "cook_ok steps s"
  with NextStep show ?thesis
    by (auto simp: cook_ok_def go_to_def intro: sync_countdown_ok)
next
  case SecondPasses
  assume "cook_ok steps s"
  with SecondPasses show ?thesis by (auto simp: cook_ok_def intro: tick_ok split: option.splits)
qed (auto simp: cook_ok_def countdown_ok_def split: option.splits)

interpretation cooking: machine "cook_step steps" "\<lambda>_. True" "cook_ok steps"
  by unfold_locales (rule cook_step_ok)

lemma enter_cooking_ok: "cook_ok steps (enter_cooking steps)"
  by (auto simp: cook_ok_def enter_cooking_def countdown_ok_def sync_timer_def mount_timer_def split: option.splits)

section \<open>Properties\<close>



text \<open>
  C25. A timer that is started and left alone ends: it counts down second by second, and after as many
  seconds as it had left it stands at zero and the step is marked as done; it is never marked before.
\<close>

theorem step_timer_ends:
  assumes "ck_timer s = Some t" and "st_running t" and "0 < st_remaining t" and "\<not> ck_done s"
  shows "let s' = run (cook_step steps) (replicate k SecondPasses) s;
             t' = the (ck_timer s')
         in ck_timer s' \<noteq> None \<and> st_remaining t' = st_remaining t - k \<and>
            (st_running t' \<longleftrightarrow> k < st_remaining t) \<and> (ck_done s' \<longleftrightarrow> st_remaining t \<le> k)"
proof (induction k)
  case 0
  with assms show ?case by (simp add: Let_def)
next
  case (Suc k)
  let ?s = "run (cook_step steps) (replicate k SecondPasses) s"
  have r: "run (cook_step steps) (replicate (Suc k) SecondPasses) s = cook_step steps SecondPasses ?s"
    by (simp only: replicate_append_same[symmetric] replicate_Suc run_simps)
  from Suc obtain t' where t': "ck_timer ?s = Some t'" "st_remaining t' = st_remaining t - k"
    "st_running t' \<longleftrightarrow> k < st_remaining t" "ck_done ?s \<longleftrightarrow> st_remaining t \<le> k"
    by (auto simp: Let_def)
  show ?case unfolding r using t' by (auto simp: Let_def tick_def)
qed

theorem step_timer_ends_witness:
  "ck_done (run (cook_step [''Boil for 5 min'']) (replicate 2 SecondPasses)
     \<lparr>ck_step = 0, ck_done = False, ck_timer = Some \<lparr>st_seconds = 300, st_remaining = 2, st_running = True\<rparr>\<rparr>)"
  using step_timer_ends[of "\<lparr>ck_step = 0, ck_done = False,
      ck_timer = Some \<lparr>st_seconds = 300, st_remaining = 2, st_running = True\<rparr>\<rparr>" _ "[''Boil for 5 min'']" 2]
  by (simp add: Let_def)

text \<open>
  Going on to the next step starts a fresh timer, except when the next step takes exactly as long as
  the one before: then the timer of the old step stays on screen, with the time it has left, and keeps
  running.
\<close>

theorem next_step_timer:
  assumes "ck_step s + 1 < length steps"
  shows "ck_timer (cook_step steps NextStep s) =
    (case timer_seconds (steps ! (ck_step s + 1)) of
       None \<Rightarrow> None
     | Some n \<Rightarrow> if n = 0 then None
         else if map_option st_seconds (ck_timer s) = Some n then ck_timer s
         else Some (mount_timer n))"
proof -
  have "min (length steps - 1) (ck_step s + 1) = ck_step s + 1" using assms by simp
  with assms show ?thesis by (auto simp: go_to_def sync_timer_def step_text_def split: option.splits)
qed

theorem next_step_timer_witness:
  "ck_timer (run (cook_step [''Fry 5 min'', ''Rest 5 min'']) [StartTimer, SecondPasses, NextStep]
     (enter_cooking [''Fry 5 min'', ''Rest 5 min''])) =
   Some \<lparr>st_seconds = 300, st_remaining = 299, st_running = True\<rparr>"
proof -
  let ?steps = "[''Fry 5 min'', ''Rest 5 min'']"
  let ?s = "run (cook_step ?steps) [StartTimer, SecondPasses] (enter_cooking ?steps)"
  have t: "timer_seconds ''Fry 5 min'' = Some 300" "timer_seconds ''Rest 5 min'' = Some 300" by code_simp+
  have s: "ck_step ?s = 0" "ck_timer ?s = Some \<lparr>st_seconds = 300, st_remaining = 299, st_running = True\<rparr>"
    by (simp_all add: enter_cooking_def step_text_def t sync_timer_def mount_timer_def tick_def)
  have "ck_step ?s + 1 < length ?steps" using s(1) by simp
  from next_step_timer[OF this] have "ck_timer (cook_step ?steps NextStep ?s) = ck_timer ?s"
    using s t by simp
  with s show ?thesis by simp
qed

lemma words_aux_run: "\<forall>c \<in> set x. \<not> is_space c \<Longrightarrow> words_aux acc (x @ s) = words_aux (rev x @ acc) s"
  by (induction x arbitrary: acc) auto

text \<open>An amount that starts with a mixed number is scaled as that number; what follows it stays.\<close>

theorem mixed_amount_scaled:
  assumes "list_all is_digit w" "list_all is_digit n" "list_all is_digit d" "w \<noteq> []" "n \<noteq> []" "d \<noteq> []"
    and "digits_val d \<noteq> 0" and "factor \<noteq> 1"
    and "rest = [] \<or> \<not> is_digit (hd rest)" and "\<forall>c \<in> set rest. code_of c \<notin> {10, 13}"
  shows "scale_amount (Some (w @ '' '' @ n @ ''/'' @ d @ rest)) factor =
    num_str (of_int (math_round (100 * (factor * (of_nat (digits_val w) + of_nat (digits_val n) / of_nat (digits_val d))))) / 100)
      @ rest"
proof -
  let ?amt = "w @ '' '' @ n @ ''/'' @ d @ rest"
  have sp: "\<not> is_digit CHR '' ''" "\<not> is_digit CHR ''/''" "is_space CHR '' ''" "\<not> is_space CHR ''/''"
    by (simp_all add: is_digit_def is_space_def code_of_def)
  have ds: "\<forall>c \<in> set w. is_digit c" "\<forall>c \<in> set n. is_digit c" "\<forall>c \<in> set d. is_digit c"
    using assms(1-3) by (simp_all add: list_all_iff)
  have hd_n: "\<not> is_space (hd n)" using ds(2) assms(5) digit_no_space by (cases n) auto
  have "dropWhile is_space ?amt = ?amt" using ds(1) assms(4) digit_no_space by (cases w) auto
  moreover have tw: "takeWhile is_digit ?amt = w" "dropWhile is_digit ?amt = '' '' @ n @ ''/'' @ d @ rest"
    using ds(1) sp(1) by (simp_all add: takeWhile_append2 dropWhile_append2)
  have ts: "takeWhile is_space ('' '' @ n @ ''/'' @ d @ rest) = '' ''"
    "dropWhile is_space ('' '' @ n @ ''/'' @ d @ rest) = n @ ''/'' @ d @ rest"
    using hd_n assms(5) sp(3) by (cases n; simp)+
  have tn: "takeWhile is_digit (n @ ''/'' @ d @ rest) = n" "dropWhile is_digit (n @ ''/'' @ d @ rest) = ''/'' @ d @ rest"
    using ds(2) sp(2) by (simp_all add: takeWhile_append2 dropWhile_append2)
  have td: "takeWhile is_digit (d @ rest) = d" "dropWhile is_digit (d @ rest) = rest"
    using ds(3) assms(9) by (cases rest; simp add: takeWhile_append2 dropWhile_append2 takeWhile_eq_all_conv)+
  have "mixed_token ?amt = Some (w @ '' '' @ n @ ''/'' @ d, rest)"
    unfolding mixed_token_def Let_def tw ts tn using assms(4-6) td by simp
  ultimately have tok: "amount_token ?amt = Some (w @ '' '' @ n @ ''/'' @ d, rest)"
    using assms(10) by (simp add: amount_token_def Let_def list_ex_iff)
  have nosp: "\<forall>c \<in> set w. \<not> is_space c" "\<forall>c \<in> set (n @ ''/'' @ d). \<not> is_space c"
    using ds sp(4) digit_no_space by auto
  have "words (w @ '' '' @ n @ ''/'' @ d) = [w, n @ ''/'' @ d]"
    using words_aux_run[OF nosp(1), of "[]" "'' '' @ n @ ''/'' @ d"] words_aux_run[OF nosp(2), of "[]" "[]"]
      assms(4) sp(3) by (simp add: words_def)
  moreover have "CHR ''/'' \<notin> set n" "CHR ''/'' \<notin> set d" using ds sp(2) by blast+
  then have "split_on (CHR ''/'') (n @ ''/'' @ d) = [n, d]" by (simp add: split_on_append split_on_none)
  moreover have "to_number w = Fin (of_nat (digits_val w))" "to_number n = Fin (of_nat (digits_val n))"
    "to_number d = Fin (of_nat (digits_val d))"
    using assms by (auto intro: to_number_digits)
  ultimately have v: "token_value (w @ '' '' @ n @ ''/'' @ d) =
      Fin (of_nat (digits_val w) + of_nat (digits_val n) / of_nat (digits_val d))"
    using assms(7) by (simp add: token_value_def ratio_def jdiv_fin_def)
  have "truthy (Some ?amt)" by simp
  then show ?thesis using assms(8) 
    by (simp only: scale_amount_def option.sel tok option.case prod.case v) (simp add: jnum_str_def)
qed

theorem mixed_amount_scaled_witness:
  "scale_amount (Some ''2 1/4 cups'') 2 = ''4.5 cups''"
proof -
  have d: "list_all is_digit ''2''" "list_all is_digit ''1''" "list_all is_digit ''4''"
    "digits_val ''2'' = 2" "digits_val ''1'' = 1" "digits_val ''4'' = 4" "\<not> is_digit CHR '' ''"
    "num_str (9 / 2) = ''4.5''"
    by code_simp+
  have nl: "\<forall>c \<in> set '' cups''. code_of c \<notin> {10, 13}" by code_simp
  have "\<lfloor>901 / 2 :: rat\<rfloor> = 450" by (rule floor_unique) simp_all
  with mixed_amount_scaled[OF d(1-3) _ _ _ _ _ _ nl, of 2] d(4-8)
  show ?thesis by (simp add: math_round_def)
qed

end
