(* ===== verification/AuditLog.thy ===== *)
theory AuditLog
  imports HooksHome Json Machine "HOL-Library.Char_ord" "HOL-Library.List_Lexorder"
begin

text \<open>
  The audit log of \<^verbatim>\<open>web/src/app/admin/audit/page.tsx\<close>: time ranges, relative times, the search within
  a page, paging and the CSV export, with a reader of quoted CSV that the export is checked against.
  Strings are compared by their bytes, which is the order of code units up to the characters outside the
  basic plane.
\<close>

record audit_entry =
  ad_id :: string
  ad_account_id :: string
  ad_household_id :: "string option"
  ad_action :: string
  ad_target_type :: string
  ad_target_id :: string
  ad_diff :: jsobj
  ad_ip_address :: "string option"
  ad_user_agent :: "string option"
  ad_created_at :: string

section \<open>Times\<close>

definition preset_to_range :: "int \<Rightarrow> string \<Rightarrow> (string \<times> string) option" where
  "preset_to_range now preset =
     map_option (\<lambda>ms. (iso_string (now - ms), iso_string now))
       (map_of [(''1h'', 3600000), (''24h'', 86400000), (''7d'', 604800000), (''30d'', 2592000000)] preset)"

text \<open>\<open>None\<close> of the date gives \<^verbatim>\<open>NaN\<close>, for which every comparison fails.\<close>

definition relative_time :: "(int \<Rightarrow> int) \<Rightarrow> int \<Rightarrow> string \<Rightarrow> string" where
  "relative_time loc now createdAt =
     (case date_parse loc createdAt of
        None \<Rightarrow> ''NaNd ago''
      | Some t \<Rightarrow>
          (let s = (now - t) div 1000; m = s div 60; h = m div 60 in
           if s < 60 then int_str s @ ''s ago''
           else if m < 60 then int_str m @ ''m ago''
           else if h < 24 then int_str h @ ''h ago''
           else int_str (h div 24) @ ''d ago''))"

section \<open>The CSV export\<close>

definition csv_headers :: "string list" where
  "csv_headers = [''id'', ''account_id'', ''household_id'', ''action'', ''target_type'', ''target_id'',
     ''ip_address'', ''user_agent'', ''created_at'', ''diff'']"

definition csv_escape :: "string \<Rightarrow> string" where
  "csv_escape s = quote_char # concat (map (\<lambda>c. if c = quote_char then [c, c] else [c]) s) @ [quote_char]"

definition entry_values :: "audit_entry \<Rightarrow> string list" where
  "entry_values e =
     [ad_id e, ad_account_id e, (case ad_household_id e of None \<Rightarrow> [] | Some h \<Rightarrow> h), ad_action e,
      ad_target_type e, ad_target_id e, (case ad_ip_address e of None \<Rightarrow> [] | Some x \<Rightarrow> x),
      (case ad_user_agent e of None \<Rightarrow> [] | Some x \<Rightarrow> x), ad_created_at e, json_str (JObj (ad_diff e))]"

definition newline :: char where
  "newline = char_of (10 :: nat)"

definition export_csv :: "audit_entry list \<Rightarrow> string" where
  "export_csv entries =
     join [newline] (join '','' csv_headers # map (\<lambda>e. join '','' (map csv_escape (entry_values e))) entries)"

text \<open>A reader of quoted CSV: the rest of a quoted field, a record, and the records of a file.\<close>

fun csv_quoted :: "string \<Rightarrow> (string \<times> string) option" where
  "csv_quoted [] = None"
| "csv_quoted [c] = (if c = quote_char then Some ([], []) else None)"
| "csv_quoted (c # d # s) =
     (if c = quote_char then
        (if d = quote_char then map_option (\<lambda>(f, r). (c # f, r)) (csv_quoted s) else Some ([], d # s))
      else map_option (\<lambda>(f, r). (c # f, r)) (csv_quoted (d # s)))"

lemma csv_quoted_shorter: "csv_quoted s = Some (f, r) \<Longrightarrow> length r < length s"
  by (induction s arbitrary: f r rule: csv_quoted.induct) (fastforce split: if_splits)+

function csv_record :: "string \<Rightarrow> (string list \<times> string) option" where
  "csv_record s =
     (if s = [] \<or> hd s \<noteq> quote_char then None
      else case csv_quoted (tl s) of
        None \<Rightarrow> None
      | Some (f, r) \<Rightarrow>
          (case r of
             [] \<Rightarrow> Some ([f], [])
           | c # q \<Rightarrow>
               if c = newline then Some ([f], q)
               else if c = CHR '','' then map_option (\<lambda>(fs, p). (f # fs, p)) (csv_record q)
               else None))"
  by pat_completeness auto
termination
  by (relation "measure length") (auto dest!: csv_quoted_shorter simp: neq_Nil_conv)

declare csv_record.simps [simp del]

lemma csv_record_shorter: "csv_record s = Some (fs, r) \<Longrightarrow> length r < length s"
proof (induction s arbitrary: fs r rule: csv_record.induct)
  case (1 s)
  from "1.prems" obtain f q where q: "s \<noteq> []" "hd s = quote_char" "csv_quoted (tl s) = Some (f, q)"
    by (subst (asm) csv_record.simps) (auto split: if_splits option.splits)
  then have l: "length q < length s" using csv_quoted_shorter[OF q(3)] by (cases s) auto
  show ?case
  proof (cases q)
    case Nil
    with "1.prems" q show ?thesis by (subst (asm) csv_record.simps) (auto split: if_splits)
  next
    case (Cons c p)
    have "csv_record p = Some (fs', r') \<Longrightarrow> length r' < length p" if "c \<noteq> newline" "c = CHR '',''" for fs' r'
      using "1.IH"[OF _ q(3) refl Cons that] q by simp
    with "1.prems" q Cons l show ?thesis
      by (subst (asm) csv_record.simps) (fastforce split: if_splits)
  qed
qed

function csv_records :: "string \<Rightarrow> string list list option" where
  "csv_records s =
     (if s = [] then Some []
      else case csv_record s of
        None \<Rightarrow> None
      | Some (fs, r) \<Rightarrow> map_option ((#) fs) (csv_records r))"
  by pat_completeness auto
termination by (relation "measure length") (auto dest: csv_record_shorter)

declare csv_records.simps [simp del]

definition read_csv :: "string \<Rightarrow> (string list \<times> string list list) option" where
  "read_csv s =
     (let header = takeWhile (\<lambda>c. c \<noteq> newline) s; body = dropWhile (\<lambda>c. c \<noteq> newline) s
      in map_option (Pair (split_on (CHR '','') header)) (csv_records (if body = [] then [] else tl body)))"

section \<open>The page\<close>

definition audit_limit :: int where "audit_limit = 50"

record audit_page =
  ap_offset :: int
  ap_action :: string
  ap_target :: string
  ap_preset :: string
  ap_search :: string
  ap_total :: int

definition audit_start :: audit_page where
  "audit_start = \<lparr>ap_offset = 0, ap_action = [], ap_target = [], ap_preset = [], ap_search = [], ap_total = 0\<rparr>"

definition non_empty :: "string \<Rightarrow> string option" where
  "non_empty s = (if s = [] then None else Some s)"

definition audit_query :: "int \<Rightarrow> audit_page \<Rightarrow> query" where
  "audit_query now p =
     (let range = preset_to_range now (ap_preset p)
      in use_audit audit_limit (ap_offset p)
           (Some \<lparr>af_action = non_empty (ap_action p), af_target_type = non_empty (ap_target p),
              af_from = map_option fst range, af_to = map_option snd range\<rparr>))"

datatype audit_event =
    PickAction string
  | PickTarget string
  | PickPreset string
  | TypeSearch string
  | PrevPage
  | NextPage
  | TotalArrives int

text \<open>A disabled button does nothing.\<close>

fun audit_step :: "audit_event \<Rightarrow> audit_page \<Rightarrow> audit_page" where
  "audit_step (PickAction a) p = p\<lparr>ap_action := a, ap_offset := 0\<rparr>"
| "audit_step (PickTarget a) p = p\<lparr>ap_target := a, ap_offset := 0\<rparr>"
| "audit_step (PickPreset a) p = p\<lparr>ap_preset := a, ap_offset := 0\<rparr>"
| "audit_step (TypeSearch s) p = p\<lparr>ap_search := s\<rparr>"
| "audit_step PrevPage p = (if ap_offset p = 0 then p else p\<lparr>ap_offset := max 0 (ap_offset p - audit_limit)\<rparr>)"
| "audit_step NextPage p =
     (if ap_total p \<le> ap_offset p + audit_limit then p else p\<lparr>ap_offset := ap_offset p + audit_limit\<rparr>)"
| "audit_step (TotalArrives n) p = p\<lparr>ap_total := n\<rparr>"

definition entry_matches :: "string \<Rightarrow> audit_entry \<Rightarrow> bool" where
  "entry_matches q e \<longleftrightarrow>
     contains (lowercase (ad_action e)) q \<or> contains (lowercase (ad_target_id e)) q \<or>
     contains (lowercase (ad_target_type e)) q \<or>
     contains (lowercase (case ad_ip_address e of None \<Rightarrow> [] | Some x \<Rightarrow> x)) q"

definition displayed_entries :: "audit_page \<Rightarrow> audit_entry list option \<Rightarrow> audit_entry list" where
  "displayed_entries p entries =
     (case entries of
        None \<Rightarrow> []
      | Some es \<Rightarrow>
          if trim (ap_search p) = [] then es
          else filter (entry_matches (lowercase (ap_search p))) es)"

definition unique_values :: "(audit_entry \<Rightarrow> string) \<Rightarrow> audit_entry list option \<Rightarrow> string list" where
  "unique_values f entries = (case entries of None \<Rightarrow> [] | Some es \<Rightarrow> sort (remdups (map f es)))"

definition shown_range :: "audit_page \<Rightarrow> audit_entry list option \<Rightarrow> int \<times> int" where
  "shown_range p entries =
     (ap_offset p + 1,
      min (ap_offset p + int (case entries of None \<Rightarrow> 0 | Some es \<Rightarrow> length es)) (ap_total p))"

text \<open>Long ids and agents are cut, with an ellipsis.\<close>

definition ellipsis :: string where
  "ellipsis = [CHR 0xE2, CHR 0x80, CHR 0xA6]"

definition target_tail :: "audit_entry \<Rightarrow> string" where
  "target_tail e =
     (if length (ad_target_id e) > 8 then ellipsis @ drop (length (ad_target_id e) - 8) (ad_target_id e)
      else ad_target_id e)"

definition ua_truncated :: "audit_entry \<Rightarrow> string" where
  "ua_truncated e =
     (if truthy (ad_user_agent e) then
        (let u = the (ad_user_agent e) in if length u > 40 then take 40 u @ ellipsis else u)
      else [CHR 0xE2, CHR 0x80, CHR 0x94])"

section \<open>Lemmas\<close>

lemma csv_quoted_cons:
  "csv_quoted (quote_char # quote_char # s) = map_option (\<lambda>(f, r). (quote_char # f, r)) (csv_quoted s)"
  "c \<noteq> quote_char \<Longrightarrow> s \<noteq> [] \<Longrightarrow> csv_quoted (c # s) = map_option (\<lambda>(f, r). (c # f, r)) (csv_quoted s)"
  by (cases s; simp)+

lemma csv_quoted_escaped:
  assumes "r = [] \<or> hd r \<noteq> quote_char"
  shows "csv_quoted (concat (map (\<lambda>c. if c = quote_char then [c, c] else [c]) s) @ quote_char # r) = Some (s, r)"
proof (induction s)
  case Nil
  with assms show ?case by (cases r) auto
next
  case (Cons c s)
  then show ?case by (cases "c = quote_char") (simp_all add: csv_quoted_cons)
qed

lemma csv_record_escaped:
  assumes "fs \<noteq> []"
  shows "csv_record (join '','' (map csv_escape fs) @ (if r = None then [] else newline # the r)) =
    Some (fs, (if r = None then [] else the r))"
  using assms
proof (induction fs rule: list_nonempty_induct)
  case (single f)
  have n: "newline \<noteq> quote_char" by (simp add: newline_def quote_char_def)
  with csv_quoted_escaped[of "if r = None then [] else newline # the r" f] show ?case
    by (subst csv_record.simps) (auto simp: csv_escape_def)
next
  case (cons f fs)
  let ?rest = "if r = None then [] else newline # the r"
  have c: "CHR '','' \<noteq> quote_char" "CHR '','' \<noteq> newline" by code_simp+
  have j: "join '','' (map csv_escape (f # fs)) = csv_escape f @ CHR '','' # join '','' (map csv_escape fs)"
    using cons.hyps by (cases fs) auto
  from csv_quoted_escaped[of "CHR '','' # join '','' (map csv_escape fs) @ ?rest" f] c cons.IH
  show ?case unfolding j by (subst csv_record.simps) (simp add: csv_escape_def[of f])
qed

lemma csv_records_escaped:
  assumes "\<forall>fs \<in> set rows. fs \<noteq> []"
  shows "csv_records (join [newline] (map (\<lambda>fs. join '','' (map csv_escape fs)) rows)) = Some rows"
  using assms
proof (induction rows)
  case Nil
  then show ?case by (simp add: csv_records.simps)
next
  case (Cons fs rows)
  let ?line = "\<lambda>fs. join '','' (map csv_escape fs)"
  have ne: "?line fs \<noteq> []" using Cons.prems by (cases fs; cases "tl fs") (auto simp: csv_escape_def)
  show ?case
  proof (cases rows)
    case Nil
    from csv_record_escaped[of fs None] Cons.prems ne Nil show ?thesis
      by (subst csv_records.simps) (simp add: csv_records.simps[of "[]"])
  next
    case (Cons x xs)
    from csv_record_escaped[of fs "Some (join [newline] (map ?line rows))"] Cons.prems \<open>rows = x # xs\<close> ne Cons.IH
    show ?thesis by (subst csv_records.simps) simp
  qed
qed

lemma takeWhile_line:
  assumes "newline \<notin> set h"
  shows "takeWhile (\<lambda>c. c \<noteq> newline) (h @ newline # s) = h" "dropWhile (\<lambda>c. c \<noteq> newline) (h @ newline # s) = newline # s"
    "takeWhile (\<lambda>c. c \<noteq> newline) h = h" "dropWhile (\<lambda>c. c \<noteq> newline) h = []"
  using assms by (induction h) auto

section \<open>Properties\<close>

text \<open>
  C26. The exported file read by a CSV reader gives the column names and the fields of the entries shown,
  whatever quotes, commas and line breaks they contain.
\<close>

theorem export_roundtrip:
  "read_csv (export_csv entries) = Some (csv_headers, map entry_values entries)"
proof -
  let ?h = "join '','' csv_headers"
  have h: "newline \<notin> set ?h" "split_on (CHR '','') ?h = csv_headers" by code_simp+
  have ne: "\<forall>fs \<in> set (map entry_values entries). fs \<noteq> []" by (simp add: entry_values_def)
  show ?thesis
  proof (cases entries)
    case Nil
    then show ?thesis
      by (simp add: export_csv_def read_csv_def Let_def takeWhile_line(3,4)[OF h(1)] h(2) csv_records.simps)
  next
    case (Cons e es)
    then have "export_csv entries = ?h @ newline # join [newline] (map (\<lambda>fs. join '','' (map csv_escape fs)) (map entry_values entries))"
      by (simp add: export_csv_def o_def)
    then show ?thesis
      by (simp only: read_csv_def Let_def takeWhile_line(1,2)[OF h(1)] h(2)) (simp add: csv_records_escaped[OF ne] del: map_map)
  qed
qed

definition page_ok :: "audit_page \<Rightarrow> bool" where
  "page_ok p \<longleftrightarrow> 0 \<le> ap_offset p \<and> ap_offset p mod audit_limit = 0"

lemma whole_page: "0 \<le> x \<Longrightarrow> x mod 50 = 0 \<Longrightarrow> x \<noteq> 0 \<Longrightarrow> 50 \<le> (x :: int)"
  by presburger

lemma audit_step_ok: "page_ok p \<Longrightarrow> page_ok (audit_step e p)"
proof (cases e)
  case PrevPage
  assume "page_ok p"
  then have "0 \<le> ap_offset p" "ap_offset p mod 50 = 0" by (simp_all add: page_ok_def audit_limit_def)
  then have "ap_offset p \<noteq> 0 \<Longrightarrow> 50 \<le> ap_offset p" by (rule whole_page)
  with PrevPage \<open>page_ok p\<close> show ?thesis
    by (auto simp: page_ok_def audit_limit_def max_def mod_diff_left_eq[symmetric] minus_mod_self2)
qed (auto simp: page_ok_def audit_limit_def)

interpretation audit: machine audit_step "\<lambda>_. True" page_ok
  by unfold_locales (rule audit_step_ok)

text \<open>
  Paging moves by whole pages: however the buttons and filters are used, the page begins at a multiple
  of fifty, the next button never leads past the last entry the server reported, and a new filter goes
  back to the first page.
\<close>

theorem audit_paging:
  "let p = run audit_step es audit_start in
   0 \<le> ap_offset p \<and> ap_offset p mod 50 = 0 \<and>
   ap_offset (audit_step NextPage p) < max (ap_total p) (ap_offset p + 1) \<and>
   (ap_offset p = 0 \<or> ap_offset (audit_step PrevPage p) = ap_offset p - 50) \<and>
   ap_offset (audit_step (PickAction a) p) = 0"
proof -
  have "page_ok (run audit_step es audit_start)"
    by (rule audit.run_inv) (simp_all add: page_ok_def audit_start_def list_all_iff)
  then have p: "0 \<le> ap_offset (run audit_step es audit_start)" "ap_offset (run audit_step es audit_start) mod 50 = 0"
    by (simp_all add: page_ok_def audit_limit_def)
  then have "ap_offset (run audit_step es audit_start) \<noteq> 0 \<Longrightarrow> 50 \<le> ap_offset (run audit_step es audit_start)"
    by (rule whole_page)
  with p show ?thesis by (auto simp: Let_def audit_limit_def)
qed

end
