(* ===== verification/Onboarding.thy ===== *)
theory Onboarding
  imports HooksHome Machine
begin

text \<open>
  The onboarding wizard: the page of \<^verbatim>\<open>web/src/app/onboarding/page.tsx\<close> with its requests and the
  family step of \<^verbatim>\<open>web/src/components/screens/onboarding.tsx\<close>, and the roster projection of
  \<^verbatim>\<open>web/src/lib/family-roster.ts\<close>. The wizard runs in time: a press sends the first request of its
  step, answers arrive later, and the back button works in between. \<open>ob_sent\<close> records the requests.
\<close>

section \<open>Members to add\<close>

record member_draft =
  md_id :: string
  md_name :: string
  md_display_name :: string
  md_role :: string
  md_age_group :: string
  md_color :: string
  md_pin :: "string option"

definition member_colors :: "string list" where
  "member_colors =
     [''#3B82F6'', ''#EF4444'', ''#22C55E'', ''#F59E0B'', ''#8B5CF6'', ''#EC4899'', ''#06B6D4'', ''#F97316'',
      ''#14B8A6'', ''#A855F7'', ''#6366F1'', ''#84CC16'']"

definition create_household_call :: "string \<Rightarrow> string \<Rightarrow> api_call" where
  "create_household_call nm timezone =
     ApiPost ''/v1/households'' (JObj [(''name'', JStr nm), (''timezone'', JStr timezone)])"

definition add_member_call :: "string \<Rightarrow> member_draft \<Rightarrow> string option \<Rightarrow> api_call" where
  "add_member_call householdId m accountId =
     ApiPost (''/v1/households/'' @ householdId @ ''/members'')
       (JObj ([(''name'', JStr (md_name m)), (''display_name'', JStr (md_display_name m)),
               (''role'', JStr (if md_role m = ''adult'' then ''admin'' else md_role m)),
               (''age_group'', JStr (md_age_group m)), (''color'', JStr (md_color m))] @
              (if md_role m = ''child'' then truthy_field ''pin'' (md_pin m) else []) @
              truthy_field ''account_id'' accountId))"

section \<open>The wizard\<close>

text \<open>
  What the page waits for; the family step carries the household and the members still to send. A
  draft has its id and color from the moment it is added.
\<close>

datatype ob_wait = AwaitHousehold | AwaitSelf | AwaitRefresh | AwaitFamily string "member_draft list"

record onboarding =
  ob_step :: nat
  ob_error :: "string option"
  ob_household_name :: string
  ob_timezone :: string
  ob_household_id :: "string option"
  ob_self_name :: string
  ob_self_display :: string
  ob_self_color :: string
  ob_members :: "member_draft list"
  ob_draft :: member_draft
  ob_reviewed :: bool
  ob_connected :: bool
  ob_pending :: "(nat \<times> ob_wait) option"
  ob_sent :: "api_call list"
  ob_left :: bool

definition ob_loading :: "onboarding \<Rightarrow> bool" where
  "ob_loading s \<longleftrightarrow> ob_pending s \<noteq> None"

definition blank_draft :: member_draft where
  "blank_draft = \<lparr>md_id = [], md_name = [], md_display_name = [], md_role = ''adult'',
     md_age_group = ''adult'', md_color = [], md_pin = None\<rparr>"

definition open_onboarding :: "string \<Rightarrow> onboarding" where
  "open_onboarding timezone =
     \<lparr>ob_step = 0, ob_error = None, ob_household_name = [], ob_timezone = timezone, ob_household_id = None,
      ob_self_name = [], ob_self_display = [], ob_self_color = hd member_colors, ob_members = [], ob_draft = blank_draft, ob_reviewed = False,
      ob_connected = False, ob_pending = None, ob_sent = [], ob_left = False\<rparr>"

definition fail_with :: "string \<Rightarrow> onboarding \<Rightarrow> onboarding" where
  "fail_with msg s = s\<lparr>ob_error := Some msg, ob_pending := None\<rparr>"

text \<open>The end of a press: the step after the one it was made in.\<close>

definition move_on :: "nat \<Rightarrow> onboarding \<Rightarrow> onboarding" where
  "move_on k s =
     (if k < 6 then s\<lparr>ob_step := k + 1, ob_pending := None\<rparr> else s\<lparr>ob_left := True, ob_pending := None\<rparr>)"

definition send_request :: "nat \<Rightarrow> ob_wait \<Rightarrow> api_call \<Rightarrow> onboarding \<Rightarrow> onboarding" where
  "send_request k w c s = s\<lparr>ob_pending := Some (k, w), ob_sent := ob_sent s @ [c]\<rparr>"

definition add_family :: "nat \<Rightarrow> string \<Rightarrow> member_draft list \<Rightarrow> onboarding \<Rightarrow> onboarding" where
  "add_family k hid ms s =
     (case ms of [] \<Rightarrow> move_on k s | m # rest \<Rightarrow> send_request k (AwaitFamily hid rest) (add_member_call hid m None) s)"

definition self_draft :: "onboarding \<Rightarrow> member_draft" where
  "self_draft s =
     \<lparr>md_id = ''self'', md_name = trim (ob_self_name s),
      md_display_name = trim (if ob_self_display s \<noteq> [] then ob_self_display s else ob_self_name s),
      md_role = ''adult'', md_age_group = ''adult'', md_color = ob_self_color s, md_pin = None\<rparr>"

definition advance :: "string option \<Rightarrow> onboarding \<Rightarrow> onboarding" where
  "advance accountId s0 =
     (let s = s0\<lparr>ob_error := None\<rparr>; k = ob_step s in
      if k = 2 then
        (if trim (ob_household_name s) = [] then fail_with ''Household name is required.'' s
         else if trim (ob_timezone s) = [] then fail_with ''Household timezone is required.'' s
         else send_request k AwaitHousehold (create_household_call (trim (ob_household_name s)) (trim (ob_timezone s))) s)
      else if k = 3 \<and> truthy (ob_household_id s) then
        (if trim (ob_self_name s) = [] then fail_with ''Your name is required.'' s
         else send_request k AwaitSelf (add_member_call (the (ob_household_id s)) (self_draft s) accountId) s)
      else if k = 4 \<and> truthy (ob_household_id s) then
        (if \<not> ob_reviewed s then fail_with ''Review the roster before continuing.'' s
         else add_family k (the (ob_household_id s)) (ob_members s) s)
      else move_on k s)"

text \<open>
  An answer: a failure with its message, or the id of what was created. The refresh of the session
  never fails.
\<close>

definition answer :: "string + string \<Rightarrow> onboarding \<Rightarrow> onboarding" where
  "answer r s =
     (case ob_pending s of
        None \<Rightarrow> s
      | Some (k, w) \<Rightarrow>
          (case (w, r) of
             (AwaitRefresh, _) \<Rightarrow> move_on k s
           | (_, Inl msg) \<Rightarrow> fail_with msg s
           | (AwaitHousehold, Inr i) \<Rightarrow> move_on k (s\<lparr>ob_household_id := Some i\<rparr>)
           | (AwaitSelf, Inr _) \<Rightarrow> s\<lparr>ob_pending := Some (k, AwaitRefresh)\<rparr>
           | (AwaitFamily hid ms, Inr _) \<Rightarrow> add_family k hid ms s))"

definition go_back :: "onboarding \<Rightarrow> onboarding" where
  "go_back s = s\<lparr>ob_error := None, ob_step := ob_step s - 1\<rparr>"

section \<open>The family step\<close>

definition type_name :: "string \<Rightarrow> member_draft \<Rightarrow> member_draft" where
  "type_name nm d =
     d\<lparr>md_name := nm, md_display_name := (if md_display_name d \<noteq> [] then md_display_name d else nm)\<rparr>"

definition age_group_of :: "string \<Rightarrow> string" where
  "age_group_of role = (if role = ''pet'' then ''pet'' else if role = ''child'' then ''child'' else ''adult'')"

definition pick_role :: "string \<Rightarrow> member_draft \<Rightarrow> member_draft" where
  "pick_role role d =
     d\<lparr>md_role := role, md_age_group := age_group_of role,
       md_pin := (if role = ''child'' then md_pin d else None)\<rparr>"

definition add_family_draft :: "string \<Rightarrow> onboarding \<Rightarrow> onboarding" where
  "add_family_draft freshId s =
     (let d = ob_draft s; nm = trim (md_name d) in
      if nm = [] then s\<lparr>ob_error := Some ''Family member name is required.''\<rparr>
      else s\<lparr>ob_members := ob_members s @
          [d\<lparr>md_id := freshId, md_name := nm,
             md_display_name := trim (if md_display_name d \<noteq> [] then md_display_name d else nm),
             md_age_group := age_group_of (md_role d),
             md_color := member_colors ! ((length (ob_members s) + 1) mod length member_colors),
             md_pin := (if md_role d = ''child'' \<and> md_pin d \<noteq> None \<and> trim (the (md_pin d)) \<noteq> []
                        then Some (trim (the (md_pin d))) else None)\<rparr>],
        ob_draft := blank_draft, ob_error := None\<rparr>)"

definition remove_family_draft :: "string \<Rightarrow> onboarding \<Rightarrow> onboarding" where
  "remove_family_draft i s = s\<lparr>ob_members := filter (\<lambda>m. md_id m \<noteq> i) (ob_members s)\<rparr>"

section \<open>Events\<close>

datatype ob_event =
    Advance "string option"
  | Answer "string + string"
  | GoBack
  | TypeHousehold string
  | TypeTimezone string
  | TypeSelf string
  | TypeSelfDisplay string
  | PickColor string
  | TypeName string
  | TypePin string
  | PickRole string
  | AddDraft string
  | RemoveDraft string
  | Review bool
  | ReturnConnected
  | LandingTimer

text \<open>The next button is disabled while loading, the back button on the first step.\<close>

fun ob_event_step :: "ob_event \<Rightarrow> onboarding \<Rightarrow> onboarding" where
  "ob_event_step (Advance acc) s = (if ob_loading s then s else advance acc s)"
| "ob_event_step (Answer r) s = answer r s"
| "ob_event_step GoBack s = (if ob_step s = 0 then s else go_back s)"
| "ob_event_step (TypeHousehold x) s = s\<lparr>ob_household_name := x\<rparr>"
| "ob_event_step (TypeTimezone x) s = s\<lparr>ob_timezone := x\<rparr>"
| "ob_event_step (TypeSelf x) s = s\<lparr>ob_self_name := x\<rparr>"
| "ob_event_step (TypeSelfDisplay x) s = s\<lparr>ob_self_display := x\<rparr>"
| "ob_event_step (PickColor x) s = s\<lparr>ob_self_color := x\<rparr>"
| "ob_event_step (TypeName x) s = s\<lparr>ob_draft := type_name x (ob_draft s)\<rparr>"
| "ob_event_step (TypePin x) s = s\<lparr>ob_draft := (ob_draft s)\<lparr>md_pin := Some x\<rparr>\<rparr>"
| "ob_event_step (PickRole x) s = s\<lparr>ob_draft := pick_role x (ob_draft s)\<rparr>"
| "ob_event_step (AddDraft i) s = add_family_draft i s"
| "ob_event_step (RemoveDraft i) s = remove_family_draft i s"
| "ob_event_step (Review b) s = s\<lparr>ob_reviewed := b\<rparr>"
| "ob_event_step ReturnConnected s = s\<lparr>ob_connected := True, ob_step := 5\<rparr>"
| "ob_event_step LandingTimer s = (if ob_step s = 6 then s\<lparr>ob_left := True\<rparr> else s)"

section \<open>The roster\<close>

definition default_member_color :: string where
  "default_member_color = ''#94a3b8''"

definition is_hex6 :: "string \<Rightarrow> bool" where
  "is_hex6 s \<longleftrightarrow> length s = 7 \<and> hd s = CHR ''#'' \<and> list_all is_hex (tl s)"

definition is_hex3 :: "string \<Rightarrow> bool" where
  "is_hex3 s \<longleftrightarrow> length s = 4 \<and> hd s = CHR ''#'' \<and> list_all is_hex (tl s)"

definition normalize_member_color :: "string \<Rightarrow> string" where
  "normalize_member_color color =
     (let t = lowercase (trim color) in
      if t = [] then default_member_color
      else if is_hex6 t then t
      else if is_hex3 t then ''#'' @ [t ! 1, t ! 1, t ! 2, t ! 2, t ! 3, t ! 3]
      else default_member_color)"

definition get_member_initials :: "string \<Rightarrow> string" where
  "get_member_initials nm =
     (case words nm of
        [] \<Rightarrow> ''?''
      | [w] \<Rightarrow> uppercase (take 1 w)
      | w # ws \<Rightarrow> uppercase (take 1 w @ take 1 (last ws)))"

record widget_member =
  wm_id :: string
  wm_name :: string
  wm_role :: string
  wm_color :: string
  wm_initials :: string
  wm_age_group :: "string option"

definition to_widget_member :: "member \<Rightarrow> widget_member" where
  "to_widget_member m =
     \<lparr>wm_id = mem_id m, wm_name = mem_name m, wm_role = mem_role m,
      wm_color = normalize_member_color (mem_color m),
      wm_initials = get_member_initials
        (if truthy (mem_full m) \<and> trim (the (mem_full m)) \<noteq> [] then the (mem_full m) else mem_name m),
      wm_age_group = mem_age_group m\<rparr>"

section \<open>The order of the steps\<close>

definition self_sent :: "api_call list \<Rightarrow> bool" where
  "self_sent calls \<longleftrightarrow>
     (\<exists>hid nm dn color acc. nm \<noteq> [] \<and>
        add_member_call hid \<lparr>md_id = ''self'', md_name = nm, md_display_name = dn, md_role = ''adult'',
          md_age_group = ''adult'', md_color = color, md_pin = None\<rparr> acc \<in> set calls)"

definition household_sent :: "api_call list \<Rightarrow> bool" where
  "household_sent calls \<longleftrightarrow> (\<exists>nm tz. nm \<noteq> [] \<and> tz \<noteq> [] \<and> create_household_call nm tz \<in> set calls)"

definition has_household :: "onboarding \<Rightarrow> bool" where
  "has_household s \<longleftrightarrow> truthy (ob_household_id s) \<and> household_sent (ob_sent s)"

definition wait_ok :: "onboarding \<Rightarrow> nat \<times> ob_wait \<Rightarrow> bool" where
  "wait_ok s p =
     (case p of
        (k, AwaitHousehold) \<Rightarrow> k = 2 \<and> household_sent (ob_sent s)
      | (k, AwaitFamily _ _) \<Rightarrow> k = 4 \<and> has_household s \<and> self_sent (ob_sent s)
      | (k, _) \<Rightarrow> k = 3 \<and> has_household s \<and> self_sent (ob_sent s))"

definition onboarding_ok :: "onboarding \<Rightarrow> bool" where
  "onboarding_ok s \<longleftrightarrow>
     ob_step s \<le> 6 \<and> (3 \<le> ob_step s \<longrightarrow> has_household s) \<and> (4 \<le> ob_step s \<longrightarrow> self_sent (ob_sent s)) \<and>
     (case ob_pending s of None \<Rightarrow> True | Some p \<Rightarrow> wait_ok s p)"

text \<open>The server's ids are not empty; the return from a calendar provider is left out.\<close>

definition ordinary :: "ob_event \<Rightarrow> bool" where
  "ordinary e = (case e of ReturnConnected \<Rightarrow> False | Answer (Inr i) \<Rightarrow> i \<noteq> [] | _ \<Rightarrow> True)"

lemma self_sent_append [simp]: "self_sent cs \<Longrightarrow> self_sent (cs @ ds)"
  unfolding self_sent_def set_append by blast

lemma household_sent_append [simp]: "household_sent cs \<Longrightarrow> household_sent (cs @ ds)"
  by (auto simp: household_sent_def)

lemma household_sent_new: "nm \<noteq> [] \<Longrightarrow> tz \<noteq> [] \<Longrightarrow> household_sent (cs @ [create_household_call nm tz])"
  by (auto simp: household_sent_def)

lemma self_sent_new: "trim (ob_self_name s) \<noteq> [] \<Longrightarrow> self_sent (cs @ [add_member_call hid (self_draft s) acc])"
  unfolding self_sent_def self_draft_def set_append list.set by (intro exI conjI) (assumption, rule UnI2, rule insertI1)

lemmas ob_defs = onboarding_ok_def wait_ok_def has_household_def fail_with_def move_on_def send_request_def

lemma add_family_ok:
  "onboarding_ok s \<Longrightarrow> has_household s \<Longrightarrow> self_sent (ob_sent s) \<Longrightarrow> onboarding_ok (add_family 4 hid ms s)"
  by (cases ms) (auto simp: add_family_def ob_defs)

lemma advance_ok:
  assumes "onboarding_ok s" and "ob_pending s = None"
  shows "onboarding_ok (advance acc s)"
proof -
  let ?s = "s\<lparr>ob_error := None\<rparr>"
  have s: "onboarding_ok ?s" using assms by (simp add: ob_defs)
  have sd: "self_draft ?s = self_draft s" by (simp add: self_draft_def)
  consider "ob_step s < 2" | "ob_step s = 2" | "ob_step s = 3" | "ob_step s = 4" | "4 < ob_step s" by linarith
  then show ?thesis
  proof cases
    case 1
    then show ?thesis using assms by (auto simp: advance_def Let_def ob_defs)
  next
    case 2
    then show ?thesis using assms by (auto simp: advance_def Let_def ob_defs household_sent_new)
  next
    case 3
    then show ?thesis using assms by (auto simp: advance_def Let_def ob_defs sd self_sent_new)
  next
    case 4
    then have "has_household ?s" "self_sent (ob_sent ?s)" using assms by (simp_all add: ob_defs)
    note family = add_family_ok[OF s this]
    have "onboarding_ok (fail_with msg ?s)" for msg using s by (simp add: ob_defs)
    moreover from 4 have "advance acc s =
        (if truthy (ob_household_id s)
         then if ob_reviewed s then add_family 4 (the (ob_household_id s)) (ob_members s) ?s
           else fail_with ''Review the roster before continuing.'' ?s
         else move_on 4 ?s)"
      by (simp add: advance_def Let_def)
    ultimately show ?thesis using family \<open>has_household ?s\<close> by (simp add: has_household_def)
  next
    case 5
    then show ?thesis using assms by (auto simp: advance_def Let_def ob_defs)
  qed
qed

lemma answer_ok:
  assumes "onboarding_ok s" and "ordinary (Answer r)"
  shows "onboarding_ok (answer r s)"
proof (cases "ob_pending s")
  case None
  then show ?thesis using assms by (simp add: answer_def)
next
  case (Some p)
  obtain k w where p: "p = (k, w)" by (cases p)
  show ?thesis
  proof (cases w)
    case (AwaitFamily hid ms)
    with Some p assms(1) have "k = 4" "has_household s" "self_sent (ob_sent s)" by (simp_all add: ob_defs)
    with add_family_ok[OF assms(1), of hid ms] Some p AwaitFamily assms(1) show ?thesis
      by (cases r) (simp_all add: answer_def ob_defs)
  qed (use Some p assms in \<open>cases r; auto simp: answer_def ob_defs ordinary_def\<close>)+
qed

lemma onboarding_step_ok: "onboarding_ok s \<Longrightarrow> ordinary e \<Longrightarrow> onboarding_ok (ob_event_step e s)"
proof (cases e)
  case (Advance a)
  assume "onboarding_ok s"
  with Advance show ?thesis by (cases "ob_pending s") (simp_all add: advance_ok ob_loading_def)
next
  case (Answer r)
  assume "onboarding_ok s" "ordinary e"
  with Answer show ?thesis by (simp add: answer_ok)
next
  case ReturnConnected
  assume "ordinary e"
  with ReturnConnected show ?thesis by (simp add: ordinary_def)
qed (auto simp: ob_defs go_back_def add_family_draft_def remove_family_draft_def Let_def
      split: option.splits prod.splits ob_wait.splits)

interpretation wizard: machine ob_event_step ordinary onboarding_ok
  by unfold_locales (rule onboarding_step_ok)

section \<open>Properties\<close>



text \<open>
  The wizard does not remember what it has sent. Going back from a finished step and pressing next
  again creates the household a second time, and after a failure in the middle of the family the next
  press starts again with the first member.
\<close>

theorem finished_requests_sent_again:
  assumes "ob_pending s = None"
  shows "(ob_step s = 2 \<and> trim (ob_household_name s) \<noteq> [] \<and> trim (ob_timezone s) \<noteq> [] \<longrightarrow>
      ob_sent (run ob_event_step [Advance a, Answer (Inr i), GoBack, Advance a] s) =
        (let c = create_household_call (trim (ob_household_name s)) (trim (ob_timezone s)) in ob_sent s @ [c, c])) \<and>
    (ob_step s = 4 \<and> ob_household_id s = Some h \<and> h \<noteq> [] \<and> ob_reviewed s \<and> ob_members s = m # m' # ms \<longrightarrow>
      ob_sent (run ob_event_step [Advance a, Answer (Inr i), Answer (Inl msg), Advance a] s) =
        ob_sent s @ [add_member_call h m None, add_member_call h m' None, add_member_call h m None])"
  using assms
  by (auto simp: ob_loading_def advance_def Let_def send_request_def answer_def move_on_def go_back_def add_family_def fail_with_def)

theorem finished_requests_sent_again_witness:
  "length (ob_sent (run ob_event_step [Advance None, Answer (Inr ''h1''), GoBack, Advance None]
     ((open_onboarding ''UTC'')\<lparr>ob_step := 2, ob_household_name := ''Smith''\<rparr>))) = 2"
proof -
  have t: "trim ''Smith'' = ''Smith''" "trim ''UTC'' = ''UTC''" by code_simp+
  show ?thesis
    using finished_requests_sent_again[of "(open_onboarding ''UTC'')\<lparr>ob_step := 2, ob_household_name := ''Smith''\<rparr>"
        None "''h1''"]
    by (simp add: open_onboarding_def t Let_def)
qed

text \<open>
  The display name follows the first letters typed into the name field and then stays: typed one letter
  at a time, a name leaves its first letter as the display name of the member.
\<close>

theorem typed_display_name:
  assumes "n1 \<noteq> []" and "trim nm \<noteq> []" and "ob_draft s = blank_draft"
  shows "let s' = ob_event_step (AddDraft i) (run ob_event_step (map TypeName (n1 # ns @ [nm])) s);
             m = last (ob_members s')
         in md_name m = trim nm \<and> md_display_name m = trim n1"
proof -
  have keep: "ob_draft (run ob_event_step (map TypeName xs) t) =
      (ob_draft t)\<lparr>md_name := (if xs = [] then md_name (ob_draft t) else last xs)\<rparr>"
    if "md_display_name (ob_draft t) \<noteq> []" for xs t
    using that by (induction xs arbitrary: t) (auto simp: type_name_def)
  have "ob_draft (run ob_event_step (map TypeName (n1 # ns @ [nm])) s) =
      (type_name n1 blank_draft)\<lparr>md_name := nm\<rparr>"
    using keep[of "ob_event_step (TypeName n1) s" "ns @ [nm]"] assms(1,3)
    by (simp add: type_name_def blank_draft_def)
  with assms(1,2) show ?thesis by (simp add: Let_def add_family_draft_def type_name_def blank_draft_def)
qed

theorem typed_display_name_witness:
  "md_display_name (last (ob_members (ob_event_step (AddDraft ''d1'')
     (run ob_event_step [TypeName ''A'', TypeName ''An'', TypeName ''Ann''] (open_onboarding ''UTC''))))) = ''A''"
proof -
  have t: "trim ''Ann'' = ''Ann''" "trim ''A'' = ''A''" by code_simp+
  from typed_display_name[of "''A''" "''Ann''" "open_onboarding ''UTC''" "''d1''" "[''An'']"]
  show ?thesis by (simp add: t Let_def open_onboarding_def)
qed

text \<open>A color of a widget is seven characters, lower case, and normalising it again changes nothing.\<close>

lemma is_hex_lower: "is_hex c \<Longrightarrow> is_hex (lower_char c)"
  by (auto simp: is_hex_def lower_char_def is_upper_def is_digit_def code_of_def)

lemma normalized_color: "is_hex6 (normalize_member_color c)"
proof -
  have d: "is_hex6 default_member_color" by code_simp
  let ?t = "lowercase (trim c)"
  have "is_hex6 (''#'' @ [?t ! 1, ?t ! 1, ?t ! 2, ?t ! 2, ?t ! 3, ?t ! 3])" if "is_hex3 ?t"
  proof -
    from that have l: "length ?t = 4" and h: "\<forall>x \<in> set (tl ?t). is_hex x" by (auto simp: is_hex3_def list_all_iff)
    have "?t ! i \<in> set (tl ?t)" if "0 < i" "i < 4" for i
      using that l nth_mem[of "i - 1" "tl ?t"] by (simp add: nth_tl)
    with h have "is_hex (?t ! 1)" "is_hex (?t ! 2)" "is_hex (?t ! 3)" by simp_all
    then show ?thesis by (simp add: is_hex6_def)
  qed
  with d show ?thesis by (auto simp: normalize_member_color_def Let_def)
qed

end
