(* ===== verification/Settings.thy ===== *)
theory Settings
  imports HooksHome AuthStore WsProvider Machine
begin

text \<open>
  The settings page \<^verbatim>\<open>web/src/app/settings/page.tsx\<close> card by card (family, calendars, kiosk mode,
  notifications, billing, households, connection), the subscription hook
  \<^verbatim>\<open>web/src/lib/api/use-subscription.ts\<close>, the invite dialog \<^verbatim>\<open>settings/invite-modal.tsx\<close> and the
  page on which a partner joins, \<^verbatim>\<open>web/src/app/join/page.tsx\<close>.
\<close>

section \<open>The family card\<close>

record member_form =
  mf_name :: string
  mf_display_name :: string
  mf_color :: string
  mf_role :: string
  mf_age_group :: string
  mf_pin :: string

definition color_options :: "string list" where
  "color_options =
     [''#3B82F6'', ''#EF4444'', ''#22C55E'', ''#F59E0B'', ''#8B5CF6'',
      ''#EC4899'', ''#14B8A6'', ''#F97316'', ''#6366F1'', ''#84CC16'']"

definition empty_form :: member_form where
  "empty_form = \<lparr>mf_name = [], mf_display_name = [], mf_color = hd color_options, mf_role = ''member'',
     mf_age_group = ''adult'', mf_pin = []\<rparr>"

record family_card =
  fc_show_add :: bool
  fc_editing :: "string option"
  fc_form :: member_form
  fc_error :: "string option"

definition family_start :: family_card where
  "family_start = \<lparr>fc_show_add = False, fc_editing = None, fc_form = empty_form, fc_error = None\<rparr>"

definition open_add :: "family_card \<Rightarrow> family_card" where
  "open_add s = s\<lparr>fc_form := empty_form, fc_error := None, fc_editing := None, fc_show_add := True\<rparr>"

text \<open>The member as the card reads it.\<close>

record family_member =
  fm_id :: string
  fm_name :: string
  fm_display_name :: "string option"
  fm_color :: string
  fm_role :: string
  fm_age_group :: "string option"

definition open_edit :: "family_member \<Rightarrow> family_card \<Rightarrow> family_card" where
  "open_edit m s =
     s\<lparr>fc_form := \<lparr>mf_name = fm_name m,
          mf_display_name = (case fm_display_name m of Some d \<Rightarrow> d | None \<Rightarrow> fm_name m),
          mf_color = fm_color m, mf_role = fm_role m,
          mf_age_group = (case fm_age_group m of Some g \<Rightarrow> g | None \<Rightarrow> ''adult''), mf_pin = []\<rparr>,
       fc_error := None, fc_editing := Some (fm_id m), fc_show_add := True\<rparr>"

definition cancel_form :: "family_card \<Rightarrow> family_card" where
  "cancel_form s = s\<lparr>fc_show_add := False, fc_editing := None, fc_error := None\<rparr>"

text \<open>\<^verbatim>\<open>/^\d{4,6}$/\<close>.\<close>

definition valid_pin :: "string \<Rightarrow> bool" where
  "valid_pin s \<longleftrightarrow> 4 \<le> length s \<and> length s \<le> 6 \<and> list_all is_digit s"

definition form_complaint :: "string option \<Rightarrow> member_form \<Rightarrow> string option" where
  "form_complaint household f =
     (if trim (mf_name f) = [] then Some ''Name is required.''
      else if trim (mf_display_name f) = [] then Some ''Display name is required.''
      else if \<not> truthy household then Some (''No household found '' @ [CHR 0xE2, CHR 0x80, CHR 0x94] @ '' try refreshing.'')
      else if mf_pin f \<noteq> [] \<and> \<not> valid_pin (mf_pin f) then Some ''PIN must be 4-6 digits.''
      else None)"

definition member_request :: "string \<Rightarrow> string option \<Rightarrow> member_form \<Rightarrow> mutation" where
  "member_request householdId editingId f =
     (if truthy editingId
      then use_update_member householdId (the editingId)
        \<lparr>mp_name = Some (trim (mf_name f)), mp_display_name = Some (trim (mf_display_name f)),
         mp_color = Some (mf_color f), mp_role = Some (mf_role f), mp_age_group = Some (mf_age_group f),
         mp_pin = (if mf_pin f \<noteq> [] then Some (mf_pin f) else None), mp_rate_min = None, mp_rate_max = None\<rparr>
      else use_create_member householdId (trim (mf_name f)) (trim (mf_display_name f)) (mf_color f) (mf_role f)
        (mf_age_group f) (if mf_pin f \<noteq> [] then Some (mf_pin f) else None))"

definition submit_member :: "string option \<Rightarrow> family_card \<Rightarrow> family_card \<times> mutation option" where
  "submit_member household s =
     (case form_complaint household (fc_form s) of
        Some msg \<Rightarrow> (s\<lparr>fc_error := Some msg\<rparr>, None)
      | None \<Rightarrow> (s\<lparr>fc_error := None\<rparr>, Some (member_request (the household) (fc_editing s) (fc_form s))))"

text \<open>The answer; the handler still knows which member it was about.\<close>

definition member_answered :: "bool \<Rightarrow> string option \<Rightarrow> family_card \<Rightarrow> family_card" where
  "member_answered ok editingId s =
     (if ok then cancel_form s
      else s\<lparr>fc_error := Some (if truthy editingId then ''Failed to update member.'' else ''Failed to add member.'')\<rparr>)"

definition delete_member :: "string option \<Rightarrow> string \<Rightarrow> mutation option" where
  "delete_member household memberId =
     (if truthy household then Some (use_delete_member (the household) memberId) else None)"

section \<open>Calendars\<close>

record calendars_card =
  cc_show :: bool
  cc_name :: string
  cc_url :: string
  cc_error :: "string option"

definition kind_label :: "string \<Rightarrow> string" where
  "kind_label kind =
     (case map_of [(''google'', ''Google''), (''ical_url'', ''iCal''), (''caldav'', ''CalDAV''), (''local'', ''Local'')] kind of
        Some l \<Rightarrow> l | None \<Rightarrow> kind)"

definition submit_calendar :: "calendars_card \<Rightarrow> calendars_card \<times> mutation option" where
  "submit_calendar s =
     (if trim (cc_name s) = [] \<or> trim (cc_url s) = []
      then (s\<lparr>cc_error := Some ''Name and URL are required.''\<rparr>, None)
      else (s\<lparr>cc_error := None\<rparr>, Some (use_add_ical_calendar (trim (cc_name s)) (trim (cc_url s)))))"

definition calendar_answered :: "bool \<Rightarrow> calendars_card \<Rightarrow> calendars_card" where
  "calendar_answered ok s =
     (if ok then s\<lparr>cc_name := [], cc_url := [], cc_show := False\<rparr>
      else s\<lparr>cc_error := Some ''Failed to add calendar. Check the URL and try again.''\<rparr>)"

section \<open>Kiosk mode\<close>

text \<open>
  The switch shows its optimistic value until an update fails. The settings of the household are an
  object; the switch in it is a boolean, if present.
\<close>

definition kiosk_enabled :: "bool option \<Rightarrow> jsobj option \<Rightarrow> bool" where
  "kiosk_enabled optimistic settings =
     (case optimistic of
        Some b \<Rightarrow> b
      | None \<Rightarrow> (case settings of None \<Rightarrow> False | Some ob \<Rightarrow> jget ob ''kiosk_mode_enabled'' = JBool True))"

definition toggle_kiosk :: "string option \<Rightarrow> jsobj option \<Rightarrow> bool option \<Rightarrow> bool option \<times> mutation option" where
  "toggle_kiosk household settings optimistic =
     (if \<not> truthy household then (optimistic, None)
      else (let nxt = \<not> kiosk_enabled optimistic settings
            in (Some nxt, Some (use_update_household_settings (the household)
                  (JObj (jset ''kiosk_mode_enabled'' (JBool nxt) (case settings of None \<Rightarrow> [] | Some ob \<Rightarrow> ob)))))))"

definition kiosk_failed :: "bool option \<Rightarrow> bool option" where
  "kiosk_failed optimistic = None"

section \<open>Notifications\<close>

record notify_row =
  nr_topic :: string
  nr_events :: bool
  nr_lists :: bool
  nr_tasks :: bool
  nr_test :: "string option"

text \<open>The three switches of a member, each possibly missing.\<close>

type_synonym notify_prefs = "bool option \<times> bool option \<times> bool option"

definition open_notify :: "string option \<Rightarrow> notify_prefs option \<Rightarrow> notify_row" where
  "open_notify topic prefs =
     (let on = (\<lambda>x. x = Some True); p = (case prefs of None \<Rightarrow> (None, None, None) | Some p \<Rightarrow> p)
      in \<lparr>nr_topic = (case topic of None \<Rightarrow> [] | Some s \<Rightarrow> s), nr_events = on (fst p),
          nr_lists = on (fst (snd p)), nr_tasks = on (snd (snd p)), nr_test = None\<rparr>)"

definition save_notify :: "string \<Rightarrow> notify_row \<Rightarrow> mutation" where
  "save_notify memberId s =
     use_update_member_notify memberId (if trim (nr_topic s) \<noteq> [] then Some (trim (nr_topic s)) else None)
       (nr_events s) (nr_lists s) (nr_tasks s)"

definition notify_test_disabled :: "bool \<Rightarrow> notify_row \<Rightarrow> bool" where
  "notify_test_disabled pending s \<longleftrightarrow> pending \<or> trim (nr_topic s) = []"

section \<open>Billing, households, connection\<close>

datatype billing_card = SelfHosted | BillingLoading | ManageBilling | Upgrade

definition is_subscribed :: "string option \<Rightarrow> bool" where
  "is_subscribed status \<longleftrightarrow> status = Some ''active'' \<or> status = Some ''trialing''"

definition billing_view :: "bool \<Rightarrow> bool \<Rightarrow> string option \<Rightarrow> billing_card" where
  "billing_view stripe loading status =
     (if \<not> stripe then SelfHosted else if loading then BillingLoading
      else if is_subscribed status then ManageBilling else Upgrade)"

text \<open>
  The subscription hook: every refetch starts a request and gives up the ones before it; an answer is
  the number of its request with the status (if any) or the message.
\<close>

record subscription_state =
  sb_status :: "string option"
  sb_loading :: bool
  sb_error :: "string option"
  sb_tick :: nat

definition sub_start :: subscription_state where
  "sub_start = \<lparr>sb_status = None, sb_loading = True, sb_error = None, sb_tick = 0\<rparr>"

definition sub_refetch :: "subscription_state \<Rightarrow> subscription_state" where
  "sub_refetch s = s\<lparr>sb_tick := sb_tick s + 1, sb_loading := True\<rparr>"

definition sub_answer :: "nat \<Rightarrow> string + string option \<Rightarrow> subscription_state \<Rightarrow> subscription_state" where
  "sub_answer tick r s =
     (if tick \<noteq> sb_tick s then s
      else (case r of
          Inr status \<Rightarrow> s\<lparr>sb_status := status, sb_error := None, sb_loading := False\<rparr>
        | Inl msg \<Rightarrow> s\<lparr>sb_error := Some msg, sb_loading := False\<rparr>))"

text \<open>The households of the account as pairs of id and name; the dash stands for no name.\<close>

definition switcher_name :: "(string \<times> string) list option \<Rightarrow> auth_household option \<Rightarrow> string option" where
  "switcher_name households household =
     (case households of
        None \<Rightarrow> None
      | Some hs \<Rightarrow>
          if length hs \<le> 1 then None
          else Some (case find (\<lambda>h. Some (fst h) = map_option hh_id household) hs of
              Some h \<Rightarrow> snd h
            | None \<Rightarrow> (case household of Some h \<Rightarrow> hh_name h | None \<Rightarrow> [CHR 0xE2, CHR 0x80, CHR 0x94])))"

datatype dot = LiveConnected | Reconnecting | OfflineRefresh

definition connection_dot :: "ws_status \<Rightarrow> dot" where
  "connection_dot status =
     (if status = WsOpen then LiveConnected else if status = WsConnecting then Reconnecting else OfflineRefresh)"

definition audit_card_shown :: "auth_member option \<Rightarrow> bool" where
  "audit_card_shown m \<longleftrightarrow> map_option am_role m = Some RoleAdult"

section \<open>Joining a household\<close>

datatype join_state = JoinIdle | Previewing | Requested | JoinError

record join_page =
  jp_code :: string
  jp_submitted :: string
  jp_state :: join_state
  jp_error :: "string option"
  jp_sent :: "mutation list"

definition join_start :: join_page where
  "join_start = \<lparr>jp_code = [], jp_submitted = [], jp_state = JoinIdle, jp_error = None, jp_sent = []\<rparr>"

definition type_code :: "string \<Rightarrow> join_page \<Rightarrow> join_page" where
  "type_code v s = s\<lparr>jp_code := uppercase v, jp_submitted := [], jp_state := JoinIdle, jp_error := None\<rparr>"

definition handle_lookup :: "join_page \<Rightarrow> join_page" where
  "handle_lookup s =
     (let trimmed = uppercase (trim (jp_code s))
      in if length trimmed \<noteq> 8 then s\<lparr>jp_error := Some ''Invite codes are 8 characters.''\<rparr>
         else s\<lparr>jp_error := None, jp_submitted := trimmed, jp_state := Previewing\<rparr>)"

definition handle_join :: "join_page \<Rightarrow> join_page" where
  "handle_join s =
     (if jp_submitted s = [] then s
      else s\<lparr>jp_error := None, jp_sent := jp_sent s @ [use_request_join (jp_submitted s)]\<rparr>)"

definition join_answered :: "string option \<Rightarrow> join_page \<Rightarrow> join_page" where
  "join_answered failure s =
     (case failure of
        None \<Rightarrow> s\<lparr>jp_state := Requested\<rparr>
      | Some msg \<Rightarrow> s\<lparr>jp_error := Some msg, jp_state := JoinError\<rparr>)"

text \<open>
  Pressing the request button needs the preview of the code, which only a successful lookup of that
  code shows: \<open>PressJoin found\<close>. Nothing can be pressed once the request is sent.
\<close>

datatype join_event = TypeCode string | PressLookup | PressJoin bool | JoinAnswer "string option"

fun join_step :: "join_event \<Rightarrow> join_page \<Rightarrow> join_page" where
  "join_step (TypeCode v) s = (if jp_state s = Requested then s else type_code v s)"
| "join_step PressLookup s =
     (if jp_state s = Requested \<or> length (trim (jp_code s)) \<noteq> 8 then s else handle_lookup s)"
| "join_step (PressJoin found) s = (if jp_state s = Previewing \<and> found then handle_join s else s)"
| "join_step (JoinAnswer r) s = (if jp_sent s = [] then s else join_answered r s)"

section \<open>The invite dialog\<close>

definition handle_approve :: "string \<Rightarrow> string \<Rightarrow> mutation" where
  "handle_approve householdId requestId = use_approve_join_request requestId householdId"

definition handle_reject :: "string \<Rightarrow> string \<Rightarrow> mutation" where
  "handle_reject householdId requestId = use_reject_join_request requestId householdId"

section \<open>Lemmas\<close>

lemma uppercase_length [simp]: "length (uppercase s) = length s"
  by (simp add: uppercase_def)

definition join_ok :: "join_page \<Rightarrow> bool" where
  "join_ok s \<longleftrightarrow>
     (jp_submitted s = [] \<or> length (jp_submitted s) = 8) \<and>
     (jp_state s = Previewing \<longrightarrow> length (jp_submitted s) = 8) \<and>
     (\<forall>m \<in> set (jp_sent s). \<exists>c. length c = 8 \<and> m = use_request_join c)"

lemma join_step_ok: "join_ok s \<Longrightarrow> join_ok (join_step e s)"
  by (cases e) (auto simp: join_ok_def type_code_def handle_lookup_def handle_join_def join_answered_def Let_def
      split: option.splits)

interpretation join: machine join_step "\<lambda>_. True" join_ok
  by unfold_locales (rule join_step_ok)

section \<open>Properties\<close>

text \<open>
  Whatever is typed and pressed, every join request that leaves the page is for a code of eight
  characters, and typing anything takes back what was looked up.
\<close>

theorem join_requests_have_codes:
  "let s = run join_step es join_start in
   (\<forall>m \<in> set (jp_sent s). \<exists>c. length c = 8 \<and> m = use_request_join c) \<and>
   (jp_state s = Requested \<or> jp_submitted (join_step (TypeCode v) s) = []) \<and>
   (jp_state s = Previewing \<longrightarrow> qy_enabled (use_household_by_code (jp_submitted s)))"
proof -
  have "join_ok (run join_step es join_start)"
    by (rule join.run_inv) (simp_all add: join_ok_def join_start_def list_all_iff)
  then show ?thesis
    by (auto simp: Let_def join_ok_def type_code_def use_household_by_code_def guarded_query_def)
qed

theorem join_requests_have_codes_witness:
  "jp_sent (run join_step [TypeCode ''abcd1234'', PressLookup, PressJoin True] join_start) =
     [use_request_join ''ABCD1234'']"
proof -
  have u: "uppercase ''abcd1234'' = ''ABCD1234''" "trim ''ABCD1234'' = ''ABCD1234''" "uppercase ''ABCD1234'' = ''ABCD1234''"
    by code_simp+
  have "\<exists>c. length c = 8 \<and> use_request_join ''ABCD1234'' = use_request_join c"
    using join_requests_have_codes[of "[TypeCode ''abcd1234'', PressLookup, PressJoin True]" "[]"]
    by (simp add: Let_def join_start_def type_code_def handle_lookup_def handle_join_def u)
  then show ?thesis by (simp add: join_start_def type_code_def handle_lookup_def handle_join_def Let_def u)
qed

text \<open>
  The form of a member sends a request exactly when the names are not blank, a household is known and
  the PIN is empty or four to six digits; the request trims the names and leaves an empty PIN out, so
  that editing a member without typing a PIN keeps the old one.
\<close>

theorem member_form_sends:
  "(case submit_member household s of
      (s', None) \<Rightarrow> fc_error s' \<noteq> None \<and>
        \<not> (trim (mf_name (fc_form s)) \<noteq> [] \<and> trim (mf_display_name (fc_form s)) \<noteq> [] \<and> truthy household \<and>
           (mf_pin (fc_form s) = [] \<or> valid_pin (mf_pin (fc_form s))))
    | (s', Some m) \<Rightarrow> fc_error s' = None \<and>
        trim (mf_name (fc_form s)) \<noteq> [] \<and> trim (mf_display_name (fc_form s)) \<noteq> [] \<and> truthy household \<and>
        (mf_pin (fc_form s) = [] \<or> valid_pin (mf_pin (fc_form s))) \<and>
        m = member_request (the household) (fc_editing s) (fc_form s))"
  by (auto simp: submit_member_def form_complaint_def)

text \<open>
  Opening a member and saving at once sends what the member already has (trimmed names), in an update of
  that member.
\<close>

theorem member_edit_roundtrip:
  assumes "fm_id m \<noteq> []" and "trim (fm_name m) = fm_name m" and "fm_name m \<noteq> []"
    and "fm_display_name m = Some d" and "trim d = d" and "d \<noteq> []" and "fm_age_group m = Some g" and "h \<noteq> []"
  shows "snd (submit_member (Some h) (open_edit m s)) =
    Some (use_update_member h (fm_id m)
      \<lparr>mp_name = Some (fm_name m), mp_display_name = Some d, mp_color = Some (fm_color m), mp_role = Some (fm_role m),
       mp_age_group = Some g, mp_pin = None, mp_rate_min = None, mp_rate_max = None\<rparr>)"
  using assms by (simp add: submit_member_def open_edit_def form_complaint_def member_request_def)

theorem member_edit_roundtrip_witness:
  "snd (submit_member (Some ''h1'') (open_edit \<lparr>fm_id = ''m1'', fm_name = ''Ann'', fm_display_name = Some ''Ann'',
      fm_color = ''#3B82F6'', fm_role = ''admin'', fm_age_group = Some ''adult''\<rparr> family_start)) \<noteq> None"
proof -
  have t: "trim ''Ann'' = ''Ann''" by code_simp
  show ?thesis
    using member_edit_roundtrip[of "\<lparr>fm_id = ''m1'', fm_name = ''Ann'', fm_display_name = Some ''Ann'',
      fm_color = ''#3B82F6'', fm_role = ''admin'', fm_age_group = Some ''adult''\<rparr>" "''Ann''" "''adult''" "''h1''"]
    by (simp add: t)
qed

text \<open>
  The switch of kiosk mode flips what it shows and sends the other settings unchanged; after a failure
  it shows the stored value again; after a success it keeps its own value, whatever the server stores
  later.
\<close>

theorem kiosk_switch:
  assumes "household = Some h" and "h \<noteq> []"
  shows "(case toggle_kiosk household settings optimistic of
      (o', Some m) \<Rightarrow>
        kiosk_enabled o' later = (\<not> kiosk_enabled optimistic settings) \<and>
        (\<exists>ob. m = use_update_household_settings h (JObj ob) \<and>
           jget ob ''kiosk_mode_enabled'' = JBool (\<not> kiosk_enabled optimistic settings) \<and>
           (\<forall>k. k \<noteq> ''kiosk_mode_enabled'' \<longrightarrow> jget ob k = jget (case settings of None \<Rightarrow> [] | Some x \<Rightarrow> x) k)) \<and>
        kiosk_enabled (kiosk_failed o') settings = kiosk_enabled None settings
    | _ \<Rightarrow> False)"
  using assms by (auto simp: toggle_kiosk_def kiosk_enabled_def kiosk_failed_def Let_def)

theorem kiosk_switch_witness:
  "fst (toggle_kiosk (Some ''h1'') (Some [(''kiosk_mode_enabled'', JBool True), (''x'', JNull)]) None) = Some False"
  using kiosk_switch[of "Some ''h1''" "''h1''" "Some [(''kiosk_mode_enabled'', JBool True), (''x'', JNull)]" None None]
  by (simp add: toggle_kiosk_def kiosk_enabled_def jget_def)

text \<open>
  Of the answers of the subscription requests only the one to the newest request counts: the state
  stays as the refetch left it, whatever the older ones say.
\<close>

theorem newest_subscription_counts:
  "(\<forall>a \<in> set olds. fst a \<noteq> sb_tick s) \<Longrightarrow>
   fold (\<lambda>a. sub_answer (fst a) (snd a)) olds s = s \<and>
   sb_loading (sub_refetch s) \<and> sub_answer (sb_tick s) r (sub_refetch s) = sub_refetch s"
proof (induction olds)
  case Nil
  show ?case by (simp add: sub_refetch_def sub_answer_def)
next
  case (Cons a olds)
  then show ?case by (simp add: sub_answer_def)
qed

theorem newest_subscription_counts_witness:
  "sub_answer 0 (Inr (Some ''active'')) (sub_refetch sub_start) = sub_refetch sub_start"
  using newest_subscription_counts[of "[]" sub_start "Inr (Some ''active'')"] by (simp add: sub_start_def)

text \<open>Saving the notification settings refreshes no query: what the members query holds stays as it was.\<close>

theorem notify_refreshes_nothing: "\<not> refreshes (save_notify memberId s) q"
  by (simp add: save_notify_def use_update_member_notify_def refreshes_def)

end
