(* ===== verification/PinLogin.thy ===== *)
theory PinLogin
  imports Settings JsNumber
begin

text \<open>
  The two number pads. The page \<^verbatim>\<open>web/src/app/pin-login/page.tsx\<close>: the faces to choose from and the number pad, which sends
  the PIN by itself once it is long enough. \<open>pe_sent\<close> records what was sent, \<open>pe_in\<close> that the page moves
  on to the start page. The pad of the kiosk entry, \<^verbatim>\<open>web/src/app/kiosk/page.tsx\<close>, takes up to six digits
  and sends on demand.
\<close>

definition login_members :: "member list \<Rightarrow> member list" where
  "login_members ms = filter (\<lambda>m. mem_role m \<noteq> ''pet'') ms"

definition pin_length :: nat where "pin_length = 4"

record pin_entry =
  pe_digits :: string
  pe_error :: "string option"
  pe_loading :: bool
  pe_sent :: "string list"
  pe_in :: bool

definition open_pin_entry :: pin_entry where
  "open_pin_entry = \<lparr>pe_digits = [], pe_error = None, pe_loading = False, pe_sent = [], pe_in = False\<rparr>"

definition handle_digit :: "char \<Rightarrow> pin_entry \<Rightarrow> pin_entry" where
  "handle_digit d s =
     (if pe_loading s then s
      else (let nxt = pe_digits s @ [d]; s' = s\<lparr>pe_digits := nxt, pe_error := None\<rparr>
            in if length nxt = pin_length then s'\<lparr>pe_loading := True, pe_sent := pe_sent s @ [nxt]\<rparr> else s'))"

definition pin_result :: "string option \<Rightarrow> pin_entry \<Rightarrow> pin_entry" where
  "pin_result failure s =
     (case failure of
        None \<Rightarrow> s\<lparr>pe_in := True, pe_loading := False\<rparr>
      | Some msg \<Rightarrow> s\<lparr>pe_error := Some msg, pe_digits := [], pe_loading := False\<rparr>)"

definition delete_digit :: "pin_entry \<Rightarrow> pin_entry" where
  "delete_digit s = s\<lparr>pe_digits := butlast (pe_digits s), pe_error := None\<rparr>"

text \<open>The pad has the ten digits and a delete key, which works while a PIN is checked too.\<close>

datatype pad_event = PadDigit char | PadDelete | PadAnswer "string option"

fun pad_step :: "pad_event \<Rightarrow> pin_entry \<Rightarrow> pin_entry" where
  "pad_step (PadDigit d) s = handle_digit d s"
| "pad_step PadDelete s = delete_digit s"
| "pad_step (PadAnswer r) s = (if pe_loading s then pin_result r s else s)"

definition on_pad :: "pad_event \<Rightarrow> bool" where
  "on_pad e = (case e of PadDigit d \<Rightarrow> is_digit d | _ \<Rightarrow> True)"

definition pad_ok :: "pin_entry \<Rightarrow> bool" where
  "pad_ok s \<longleftrightarrow> list_all is_digit (pe_digits s) \<and> (\<forall>p \<in> set (pe_sent s). length p = 4 \<and> list_all is_digit p)"

lemma list_all_butlast: "list_all P xs \<Longrightarrow> list_all P (butlast xs)"
  by (induction xs) auto

lemma pad_step_ok: "pad_ok s \<Longrightarrow> on_pad e \<Longrightarrow> pad_ok (pad_step e s)"
  by (cases e) (auto simp: pad_ok_def on_pad_def handle_digit_def delete_digit_def pin_result_def pin_length_def
      Let_def list_all_butlast split: option.splits)

interpretation pad: machine pad_step on_pad pad_ok
  by unfold_locales (rule pad_step_ok)

lemma typed_digits:
  assumes "\<not> pe_loading s" and "length (pe_digits s) + length ds < 4"
  shows "run pad_step (map PadDigit ds) s =
    (if ds = [] then s else s\<lparr>pe_digits := pe_digits s @ ds, pe_error := None\<rparr>)"
  using assms
proof (induction ds arbitrary: s)
  case Nil
  then show ?case by simp
next
  case (Cons d ds)
  let ?s = "s\<lparr>pe_digits := pe_digits s @ [d], pe_error := None\<rparr>"
  have "handle_digit d s = ?s" using Cons.prems by (simp add: handle_digit_def pin_length_def Let_def)
  moreover have "run pad_step (map PadDigit ds) ?s =
      (if ds = [] then ?s else ?s\<lparr>pe_digits := pe_digits ?s @ ds, pe_error := None\<rparr>)"
    using Cons.prems by (intro Cons.IH) auto
  ultimately show ?case by simp
qed

section \<open>Properties\<close>

text \<open>
  C33. The pad sends PINs of four digits only, in whatever order its keys are pressed and the answers
  arrive. The settings page accepts PINs of up to six digits: a member with five or six can never
  sign in here.
\<close>

theorem long_pins_never_sent:
  assumes "list_all on_pad es"
  shows "let s = run pad_step es open_pin_entry in
    (\<forall>p \<in> set (pe_sent s). length p = 4 \<and> valid_pin p) \<and>
    (valid_pin pin \<and> length pin \<noteq> 4 \<longrightarrow> pin \<notin> set (pe_sent s))"
proof -
  have "pad_ok (run pad_step es open_pin_entry)"
    by (rule pad.run_inv[OF _ assms]) (simp add: pad_ok_def open_pin_entry_def)
  then show ?thesis by (auto simp: Let_def pad_ok_def valid_pin_def)
qed

theorem long_pins_never_sent_witness:
  "valid_pin ''12345'' \<and>
   ''12345'' \<notin> set (pe_sent (run pad_step [PadDigit CHR ''1'', PadDigit CHR ''2'', PadDigit CHR ''3'', PadDigit CHR ''4'',
     PadAnswer (Some ''Incorrect PIN''), PadDigit CHR ''5''] open_pin_entry))"
proof -
  have v: "valid_pin ''12345''" by code_simp
  have p: "list_all on_pad [PadDigit CHR ''1'', PadDigit CHR ''2'', PadDigit CHR ''3'', PadDigit CHR ''4'',
      PadAnswer (Some ''Incorrect PIN''), PadDigit CHR ''5'']"
    by code_simp
  from long_pins_never_sent[OF p, of "''12345''"] v show ?thesis by (simp add: Let_def)
qed

text \<open>A PIN of four digits typed on a fresh pad is sent once, at its last digit.\<close>

theorem four_digits_sent:
  assumes "length pin = 4"
  shows "pe_sent (run pad_step (map PadDigit pin) open_pin_entry) = [pin] \<and>
    pe_loading (run pad_step (map PadDigit pin) open_pin_entry)"
proof -
  obtain ds d where pin: "pin = ds @ [d]" "length ds = 3"
    using assms by (cases pin rule: rev_cases) auto
  have "run pad_step (map PadDigit ds) open_pin_entry = open_pin_entry\<lparr>pe_digits := ds, pe_error := None\<rparr>"
    using typed_digits[of open_pin_entry ds] pin(2) by (auto simp: open_pin_entry_def)
  then show ?thesis
    using pin by (simp add: handle_digit_def pin_length_def Let_def open_pin_entry_def)
qed

theorem four_digits_sent_witness:
  "pe_sent (run pad_step (map PadDigit ''0420'') open_pin_entry) = [''0420'']"
  using four_digits_sent[of "''0420''"] by simp

section \<open>The pad of the kiosk entry\<close>

record kiosk_pad =
  kq_pin :: string
  kq_error :: bool
  kq_loading :: bool
  kq_sent :: "string list"
  kq_in :: bool

definition open_kiosk_pad :: kiosk_pad where
  "open_kiosk_pad = \<lparr>kq_pin = [], kq_error = False, kq_loading = False, kq_sent = [], kq_in = False\<rparr>"

definition kiosk_digit :: "char \<Rightarrow> kiosk_pad \<Rightarrow> kiosk_pad" where
  "kiosk_digit d s = (if length (kq_pin s) < 6 then s\<lparr>kq_pin := kq_pin s @ [d]\<rparr> else s)"

definition kiosk_backspace :: "kiosk_pad \<Rightarrow> kiosk_pad" where
  "kiosk_backspace s = s\<lparr>kq_pin := butlast (kq_pin s)\<rparr>"

definition kiosk_submit :: "kiosk_pad \<Rightarrow> kiosk_pad" where
  "kiosk_submit s =
     (if trim (kq_pin s) = [] then s else s\<lparr>kq_error := False, kq_loading := True, kq_sent := kq_sent s @ [kq_pin s]\<rparr>)"

definition kiosk_answer :: "bool \<Rightarrow> kiosk_pad \<Rightarrow> kiosk_pad" where
  "kiosk_answer ok s =
     (if ok then s\<lparr>kq_in := True, kq_loading := False\<rparr> else s\<lparr>kq_error := True, kq_pin := [], kq_loading := False\<rparr>)"

text \<open>All keys are disabled while a PIN is checked, the unlock button also below four digits.\<close>

datatype kiosk_key = KioskDigit char | KioskBackspace | KioskUnlock | KioskAnswer bool

fun kiosk_pad_step :: "kiosk_key \<Rightarrow> kiosk_pad \<Rightarrow> kiosk_pad" where
  "kiosk_pad_step (KioskDigit d) s = (if kq_loading s then s else kiosk_digit d s)"
| "kiosk_pad_step KioskBackspace s = (if kq_loading s then s else kiosk_backspace s)"
| "kiosk_pad_step KioskUnlock s = (if length (kq_pin s) < 4 \<or> kq_loading s then s else kiosk_submit s)"
| "kiosk_pad_step (KioskAnswer ok) s = (if kq_loading s then kiosk_answer ok s else s)"

definition kiosk_on_pad :: "kiosk_key \<Rightarrow> bool" where
  "kiosk_on_pad e = (case e of KioskDigit d \<Rightarrow> is_digit d | _ \<Rightarrow> True)"

definition kiosk_pad_ok :: "kiosk_pad \<Rightarrow> bool" where
  "kiosk_pad_ok s \<longleftrightarrow> list_all is_digit (kq_pin s) \<and> length (kq_pin s) \<le> 6 \<and> (\<forall>p \<in> set (kq_sent s). valid_pin p)"

lemma kiosk_step_ok: "kiosk_pad_ok s \<Longrightarrow> kiosk_on_pad e \<Longrightarrow> kiosk_pad_ok (kiosk_pad_step e s)"
  by (cases e) (auto simp: kiosk_pad_ok_def kiosk_on_pad_def kiosk_digit_def kiosk_backspace_def kiosk_submit_def
      kiosk_answer_def valid_pin_def list_all_butlast)

interpretation kiosk_keys: machine kiosk_pad_step kiosk_on_pad kiosk_pad_ok
  by unfold_locales (rule kiosk_step_ok)

lemma kiosk_typed:
  assumes "\<not> kq_loading s" and "length (kq_pin s) + length ds \<le> 6"
  shows "run kiosk_pad_step (map KioskDigit ds) s = s\<lparr>kq_pin := kq_pin s @ ds\<rparr>"
  using assms by (induction ds arbitrary: s) (simp_all add: kiosk_digit_def)

lemma digits_not_blank: "list_all is_digit p \<Longrightarrow> p \<noteq> [] \<Longrightarrow> trim p \<noteq> []"
  using trim_digit_ends[of p] by (simp add: list_all_iff)

text \<open>
  The kiosk pad and the settings page agree on what a PIN is: in any run everything sent is a PIN that
  the settings page accepts, and every such PIN can be typed on a fresh pad and is then sent.
\<close>

theorem kiosk_pad_sends_valid_pins:
  assumes "list_all kiosk_on_pad es" and "valid_pin pin"
  shows "(\<forall>p \<in> set (kq_sent (run kiosk_pad_step es open_kiosk_pad)). valid_pin p) \<and>
    kq_sent (run kiosk_pad_step (map KioskDigit pin @ [KioskUnlock]) open_kiosk_pad) = [pin]"
proof -
  have "kiosk_pad_ok (run kiosk_pad_step es open_kiosk_pad)"
    by (rule kiosk_keys.run_inv[OF _ assms(1)]) (simp add: kiosk_pad_ok_def open_kiosk_pad_def)
  then have sent: "\<forall>p \<in> set (kq_sent (run kiosk_pad_step es open_kiosk_pad)). valid_pin p"
    by (simp add: kiosk_pad_ok_def)
  have pin: "4 \<le> length pin" "length pin \<le> 6" "list_all is_digit pin" using assms(2) by (simp_all add: valid_pin_def)
  then have "trim pin \<noteq> []" by (intro digits_not_blank) auto
  moreover have "run kiosk_pad_step (map KioskDigit pin) open_kiosk_pad = open_kiosk_pad\<lparr>kq_pin := pin\<rparr>"
    using kiosk_typed[of open_kiosk_pad pin] pin(2) by (simp add: open_kiosk_pad_def)
  ultimately have "kq_sent (run kiosk_pad_step (map KioskDigit pin @ [KioskUnlock]) open_kiosk_pad) = [pin]"
    using pin(1) by (simp add: kiosk_submit_def open_kiosk_pad_def)
  with sent show ?thesis ..
qed

theorem kiosk_pad_sends_valid_pins_witness:
  "kq_sent (run kiosk_pad_step (map KioskDigit ''12345'' @ [KioskUnlock]) open_kiosk_pad) = [''12345'']"
proof -
  have "valid_pin ''12345''" by code_simp
  from kiosk_pad_sends_valid_pins[of "[]", OF _ this] show ?thesis by simp
qed

end
