(* ===== verification/Appearance.thy ===== *)
theory Appearance
  imports AiClient AiKeys UrlCodec
begin

text \<open>
  Theme, language and the assistant's settings: \<^verbatim>\<open>web/src/components/theme-provider.tsx\<close> with the
  script that runs before the first paint, the choice of the language in \<^verbatim>\<open>web/src/i18n/request.ts\<close>
  and \<^verbatim>\<open>i18n/provider.tsx\<close>, and \<^verbatim>\<open>web/src/app/settings/ai-section.tsx\<close>.
\<close>

section \<open>The theme\<close>

datatype theme = LightTheme | DarkTheme
datatype theme_pref = PrefLight | PrefDark | PrefSystem

fun pref_name :: "theme_pref \<Rightarrow> string" where
  "pref_name PrefLight = ''light''"
| "pref_name PrefDark = ''dark''"
| "pref_name PrefSystem = ''system''"

definition theme_key :: string where "theme_key = ''tb-theme''"

text \<open>\<open>sys\<close>: the system prefers a dark color scheme.\<close>

definition get_system_theme :: "bool \<Rightarrow> theme" where
  "get_system_theme sys = (if sys then DarkTheme else LightTheme)"

definition resolve_theme :: "bool \<Rightarrow> theme_pref \<Rightarrow> theme" where
  "resolve_theme sys pref =
     (case pref of PrefSystem \<Rightarrow> get_system_theme sys | PrefLight \<Rightarrow> LightTheme | PrefDark \<Rightarrow> DarkTheme)"

definition stored_pref :: "string option \<Rightarrow> theme_pref" where
  "stored_pref s =
     (if s = Some ''light'' then PrefLight else if s = Some ''dark'' then PrefDark else PrefSystem)"

record theme_state =
  th_pref :: theme_pref
  th_resolved :: theme
  th_dark_class :: bool
  th_sys :: bool
  th_store :: storage

text \<open>
  The effects of the first render run in order: the first schedules the stored preference, the second
  applies the class of the initial theme, which is light, whatever the script had set. \<open>None\<close>: a blocked
  storage raises inside the effect.
\<close>

definition first_effects :: "bool \<Rightarrow> storage \<Rightarrow> theme_state option" where
  "first_effects sys st =
     (case get_item st theme_key of
        Inl e \<Rightarrow> None
      | Inr s \<Rightarrow> Some \<lparr>th_pref = stored_pref s, th_resolved = resolve_theme sys (stored_pref s),
          th_dark_class = False, th_sys = sys, th_store = st\<rparr>)"

definition apply_class :: "theme_state \<Rightarrow> theme_state" where
  "apply_class s = s\<lparr>th_dark_class := (th_resolved s = DarkTheme)\<rparr>"

definition mount_theme :: "bool \<Rightarrow> storage \<Rightarrow> theme_state option" where
  "mount_theme sys st = map_option apply_class (first_effects sys st)"

text \<open>The handler stores the choice after the state is set; a storage that raises leaves the state set.\<close>

definition set_theme :: "theme_pref \<Rightarrow> theme_state \<Rightarrow> theme_state" where
  "set_theme t s =
     apply_class (s\<lparr>th_pref := t, th_resolved := resolve_theme (th_sys s) t,
       th_store := (if t = PrefSystem then try_remove theme_key (th_store s)
                    else try_set theme_key (pref_name t) (th_store s))\<rparr>)"

definition toggle_theme :: "theme_state \<Rightarrow> theme_state" where
  "toggle_theme s = set_theme (if th_resolved s = DarkTheme then PrefLight else PrefDark) s"

definition system_changed :: "bool \<Rightarrow> theme_state \<Rightarrow> theme_state" where
  "system_changed sys s =
     (let s' = s\<lparr>th_sys := sys\<rparr>
      in if th_pref s = PrefSystem then apply_class (s'\<lparr>th_resolved := get_system_theme sys\<rparr>) else s')"

text \<open>The script in the head: whether it puts the dark class on the page.\<close>

definition no_flash_script :: "bool \<Rightarrow> storage \<Rightarrow> bool" where
  "no_flash_script sys st =
     (case get_item st theme_key of Inl e \<Rightarrow> False | Inr s \<Rightarrow> s = Some ''dark'' \<or> (s \<noteq> Some ''light'' \<and> sys))"

datatype theme_event = SetTheme theme_pref | ToggleTheme | SystemChanged bool

fun theme_step :: "theme_event \<Rightarrow> theme_state \<Rightarrow> theme_state" where
  "theme_step (SetTheme t) s = set_theme t s"
| "theme_step ToggleTheme s = toggle_theme s"
| "theme_step (SystemChanged b) s = system_changed b s"

definition theme_ok :: "theme_state \<Rightarrow> bool" where
  "theme_ok s \<longleftrightarrow>
     storage_works (th_store s) \<and>
     stored_pref (st_items (th_store s) theme_key) = th_pref s \<and>
     th_resolved s = resolve_theme (th_sys s) (th_pref s) \<and>
     (th_dark_class s \<longleftrightarrow> th_resolved s = DarkTheme)"

lemma stored_pref_simps:
  "stored_pref (Some ''light'') = PrefLight" "stored_pref (Some ''dark'') = PrefDark" "stored_pref None = PrefSystem"
  by (simp_all add: stored_pref_def)

lemma system_dark: "get_system_theme sys = DarkTheme \<longleftrightarrow> sys"
  by (simp add: get_system_theme_def)

lemma stored_after:
  assumes "storage_works st"
  shows "st_items (try_set k v st) k = Some v" "st_items (try_remove k st) k = None"
  using assms by (simp_all add: storage_works_def try_set_def try_remove_def set_item_def remove_item_def)

lemma set_theme_ok: "theme_ok s \<Longrightarrow> theme_ok (set_theme t s)"
  by (cases t) (simp_all add: theme_ok_def set_theme_def apply_class_def stored_after stored_pref_simps)

lemma system_changed_ok: "theme_ok s \<Longrightarrow> theme_ok (system_changed b s)"
  by (cases "th_pref s") (simp_all add: system_changed_def theme_ok_def apply_class_def resolve_theme_def Let_def)

lemma theme_step_ok: "theme_ok s \<Longrightarrow> theme_ok (theme_step e s)"
  by (cases e) (simp_all only: theme_step.simps toggle_theme_def set_theme_ok system_changed_ok)

interpretation theming: machine theme_step "\<lambda>_. True" theme_ok
  by unfold_locales (rule theme_step_ok)

lemma mount_theme_ok: "storage_works st \<Longrightarrow> \<exists>s. mount_theme sys st = Some s \<and> theme_ok s \<and> th_sys s = sys"
  by (auto simp: mount_theme_def first_effects_def get_item_def storage_works_def theme_ok_def apply_class_def)

section \<open>The language\<close>

definition locales_supported :: "string list" where "locales_supported = [''en'', ''de'']"
definition default_locale :: string where "default_locale = ''en''"

definition language_of_part :: "string \<Rightarrow> string" where
  "language_of_part part = take 2 (lowercase (trim (hd (split_on (CHR '';'') part))))"

definition negotiate_locale :: "string option \<Rightarrow> string" where
  "negotiate_locale acceptLanguage =
     (if \<not> truthy acceptLanguage then default_locale
      else (case find (\<lambda>lang. lang \<in> set locales_supported)
              (map language_of_part (split_on (CHR '','') (the acceptLanguage))) of
          Some lang \<Rightarrow> lang | None \<Rightarrow> default_locale))"

definition request_locale :: "string option \<Rightarrow> string option \<Rightarrow> string" where
  "request_locale cookie acceptLanguage =
     (if truthy cookie \<and> the cookie \<in> set locales_supported then the cookie
      else negotiate_locale acceptLanguage)"

definition locale_cookie :: "string \<Rightarrow> string" where
  "locale_cookie loc = ''tb-locale='' @ loc @ '';path=/;max-age=31536000;SameSite=Lax''"

section \<open>The assistant's settings\<close>

datatype test_state = TestIdle | Testing | TestOk | TestError

record provider_row =
  pr_draft :: string
  pr_test :: test_state
  pr_message :: string

definition open_provider_row :: "string \<Rightarrow> provider_row" where
  "open_provider_row value = \<lparr>pr_draft = value, pr_test = TestIdle, pr_message = []\<rparr>"

text \<open>What the row does to the store when the field loses the focus.\<close>

definition save_draft :: "provider_row \<Rightarrow> string option" where
  "save_draft r = (if trim (pr_draft r) \<noteq> [] then Some (trim (pr_draft r)) else None)"

definition probe :: "ai_message list" where
  "probe = [\<lparr>am_role = RUser, am_content = ''Hello''\<rparr>]"

definition test_call :: "network \<Rightarrow> ai_provider \<Rightarrow> string \<Rightarrow> http_request list \<times> (ai_failure + jsval)" where
  "test_call net p key =
     (case p of
        Openai \<Rightarrow> call_openai net probe (Some ''gpt-4o-mini'') key
      | Anthropic \<Rightarrow> call_anthropic net probe (Some ''claude-haiku-20240307'') key
      | Google \<Rightarrow> call_google net probe (Some ''gemini-1.5-flash'') key)"

text \<open>\<open>text\<close> is the text of a message that is not a string.\<close>

definition test_result :: "(jsval \<Rightarrow> string) \<Rightarrow> ai_failure + jsval \<Rightarrow> provider_row \<Rightarrow> provider_row" where
  "test_result text a r =
     (case a of
        Inr _ \<Rightarrow> r\<lparr>pr_test := TestOk, pr_message := ''Connected successfully''\<rparr>
      | Inl (AIError m status _) \<Rightarrow>
          r\<lparr>pr_test := TestError,
            pr_message := ''Error '' @ int_str status @ '': '' @ (case m of JStr s \<Rightarrow> s | v \<Rightarrow> text v)\<rparr>
      | Inl _ \<Rightarrow> r\<lparr>pr_test := TestError, pr_message := ''Connection failed''\<rparr>)"

definition handle_test ::
  "(jsval \<Rightarrow> string) \<Rightarrow> network \<Rightarrow> ai_provider \<Rightarrow> provider_row \<Rightarrow> provider_row \<times> http_request list" where
  "handle_test text net p r =
     (if trim (pr_draft r) = [] then (r, [])
      else (case test_call net p (trim (pr_draft r)) of (rqs, a) \<Rightarrow> (test_result text a r, rqs)))"

definition clear_row :: "provider_row \<Rightarrow> provider_row" where
  "clear_row r = \<lparr>pr_draft = [], pr_test = TestIdle, pr_message = []\<rparr>"

text \<open>A press of the clear button takes the focus from the field first, which saves the draft.\<close>

definition press_clear :: "ai_provider \<Rightarrow> provider_row \<Rightarrow> keys_state \<Rightarrow> provider_row \<times> keys_state" where
  "press_clear p r s =
     (clear_row r, clear_key p (case save_draft r of Some k \<Rightarrow> set_key p k s | None \<Rightarrow> s))"

section \<open>Properties\<close>

text \<open>
  C32. The script of the head and the provider agree: the class the script sets is the one the page has
  after mounting, for every stored value and system scheme. In between, the first effects take the
  class away again.
\<close>

theorem no_flash_script_agrees:
  assumes "mount_theme sys st = Some s"
  shows "th_dark_class s = no_flash_script sys st \<and>
    (\<forall>s0. first_effects sys st = Some s0 \<longrightarrow> \<not> th_dark_class s0)"
  using assms
  by (auto simp: mount_theme_def first_effects_def no_flash_script_def apply_class_def stored_pref_def
      resolve_theme_def system_dark split: sum.splits if_splits)

theorem no_flash_script_agrees_witness:
  "\<exists>s. mount_theme True \<lparr>st_blocked = False, st_full = False, st_items = Map.empty\<rparr> = Some s \<and>
     th_dark_class s \<and> no_flash_script True \<lparr>st_blocked = False, st_full = False, st_items = Map.empty\<rparr>"
proof -
  let ?st = "\<lparr>st_blocked = False, st_full = False, st_items = Map.empty\<rparr>"
  obtain s where s: "mount_theme True ?st = Some s" using mount_theme_ok[of ?st True] by (auto simp: storage_works_def)
  from no_flash_script_agrees[OF this] s show ?thesis by (simp add: no_flash_script_def get_item_def)
qed

text \<open>
  The theme survives a reload: after any choices, toggles and changes of the system scheme the page on
  screen follows the preference, and mounting it again with the same storage and system gives the same
  preference, theme and class.
\<close>

theorem theme_survives_reload:
  assumes "mount_theme sys st = Some s0" and "storage_works st"
  shows "let s = run theme_step es s0 in
    th_resolved s = resolve_theme (th_sys s) (th_pref s) \<and>
    (th_dark_class s \<longleftrightarrow> th_resolved s = DarkTheme) \<and>
    mount_theme (th_sys s) (th_store s) = Some s"
proof -
  have "theme_ok s0" using mount_theme_ok[OF assms(2), of sys] assms(1) by auto
  then have "theme_ok (run theme_step es s0)" by (rule theming.run_inv) (simp add: list_all_iff)
  then show ?thesis
    by (auto simp: Let_def theme_ok_def mount_theme_def first_effects_def get_item_def storage_works_def apply_class_def)
qed

theorem theme_survives_reload_witness:
  "\<exists>s0. mount_theme False \<lparr>st_blocked = False, st_full = False, st_items = Map.empty\<rparr> = Some s0 \<and>
     th_resolved (run theme_step [ToggleTheme, SystemChanged True] s0) =
     resolve_theme (th_sys (run theme_step [ToggleTheme, SystemChanged True] s0))
       (th_pref (run theme_step [ToggleTheme, SystemChanged True] s0))"
proof -
  let ?st = "\<lparr>st_blocked = False, st_full = False, st_items = Map.empty\<rparr>"
  have w: "storage_works ?st" by (simp add: storage_works_def)
  then obtain s where s: "mount_theme False ?st = Some s" using mount_theme_ok[of ?st False] by auto
  from theme_survives_reload[OF this w, of "[ToggleTheme, SystemChanged True]"] s show ?thesis
    by (auto simp: Let_def)
qed

text \<open>
  The language of a page is one that exists; a chosen language wins over the browser's, and without one
  the first language of the browser's list that exists is taken, whatever the weights say.
\<close>

theorem request_locale_supported:
  "request_locale cookie acceptLanguage \<in> set locales_supported \<and>
   (loc \<in> set locales_supported \<longrightarrow> request_locale (Some loc) acceptLanguage = loc) \<and>
   (negotiate_locale (Some (''de;q=0.1,'' @ rest)) = ''de'')"
proof -
  have d: "default_locale \<in> set locales_supported" by (simp add: default_locale_def locales_supported_def)
  have n: "negotiate_locale a \<in> set locales_supported" for a
    using d by (auto simp: negotiate_locale_def find_Some_iff split: option.splits)
  have "split_on (CHR '','') (''de;q=0.1'' @ CHR '','' # rest) = ''de;q=0.1'' # split_on (CHR '','') rest"
    by (rule split_on_append) simp
  moreover have "language_of_part ''de;q=0.1'' = ''de''" by code_simp
  ultimately have "negotiate_locale (Some (''de;q=0.1,'' @ rest)) = ''de''"
    by (simp add: negotiate_locale_def locales_supported_def)
  with n show ?thesis
    by (auto simp: request_locale_def) (auto simp: locales_supported_def)
qed

theorem request_locale_supported_witness:
  "request_locale (Some ''de'') (Some ''en'') = ''de''"
  using request_locale_supported[of None "Some ''en''" "''de''"] by (simp add: locales_supported_def)

text \<open>
  The test button calls only the provider of its row, with the trimmed key on the screen; after the
  clear button no key of this provider is left, in the state and in the storage, even when a draft was
  in the field.
\<close>

theorem provider_row_keys:
  assumes "plain_keys s" and "storage_works (ks_store s)"
  shows "snd (handle_test text net p r) =
      (if trim (pr_draft r) = [] then [] else fst (test_call net p (trim (pr_draft r)))) \<and>
    key_of (snd (press_clear p r s)) p = JUndef \<and> keys_synced (snd (press_clear p r s)) \<and>
    pr_draft (fst (press_clear p r s)) = []"
proof -
  let ?s = "case save_draft r of Some k \<Rightarrow> set_key p k s | None \<Rightarrow> s"
  have "plain_keys ?s" "storage_works (ks_store ?s)"
    using plain_step[OF assms(1), of "SetKey p _"] works_step[OF assms(2), of "SetKey p _"] assms
    by (auto split: option.splits)
  from ai_key_store_laws[OF this, of p "[]" p True] show ?thesis
    by (auto simp: handle_test_def press_clear_def clear_row_def split: prod.splits)
qed

theorem provider_row_keys_witness:
  "key_of (snd (press_clear Google (open_provider_row '' k '')
     (mount_keys \<lparr>st_blocked = False, st_full = False, st_items = Map.empty\<rparr>))) Google = JUndef"
proof -
  have "plain_keys (mount_keys \<lparr>st_blocked = False, st_full = False, st_items = Map.empty\<rparr>)"
    "storage_works (ks_store (mount_keys \<lparr>st_blocked = False, st_full = False, st_items = Map.empty\<rparr>))"
    by (simp_all add: plain_keys_def mount_keys_def read_keys_def Let_def try_get_def get_item_def storage_works_def)
  from provider_row_keys[OF this, of "\<lambda>_. []" "\<lambda>_. None"] show ?thesis by blast
qed

end
