(* ===== verification/Grouping.thy ===== *)
theory Grouping
  imports Prelude
begin

text \<open>
  Grouping with a JavaScript \<^verbatim>\<open>Map\<close> from keys to arrays: a new key goes to the end, a known key keeps
  its place and its array grows. The screens group entries, chores and cards this way.
\<close>

definition push_group :: "'k \<Rightarrow> 'a \<Rightarrow> ('k \<times> 'a list) list \<Rightarrow> ('k \<times> 'a list) list" where
  "push_group k x gs =
     (if k \<in> fst ` set gs then map (\<lambda>(k', xs). if k' = k then (k', xs @ [x]) else (k', xs)) gs
      else gs @ [(k, [x])])"

definition group_by :: "('a \<Rightarrow> 'k) \<Rightarrow> 'a list \<Rightarrow> ('k \<times> 'a list) list" where
  "group_by f xs = fold (\<lambda>x. push_group (f x) x) xs []"

text \<open>\<^verbatim>\<open>map.get(k) ?? []\<close>.\<close>

definition group_of :: "('k \<times> 'a list) list \<Rightarrow> 'k \<Rightarrow> 'a list" where
  "group_of gs k = (case map_of gs k of None \<Rightarrow> [] | Some xs \<Rightarrow> xs)"

lemma group_by_simps [simp]:
  "group_by f [] = []" "group_by f (xs @ [x]) = push_group (f x) x (group_by f xs)"
  by (simp_all add: group_by_def)

lemma push_group_keys: "map fst (push_group k x gs) = (if k \<in> fst ` set gs then map fst gs else map fst gs @ [k])"
  by (auto simp: push_group_def)

lemma group_by_keys: "set (map fst (group_by f xs)) = f ` set xs \<and> distinct (map fst (group_by f xs))"
  by (induction xs rule: rev_induct) (auto simp: push_group_keys)

lemma group_by_member: "(k, ys) \<in> set (group_by f xs) \<Longrightarrow> ys = filter (\<lambda>x. f x = k) xs"
proof (induction xs arbitrary: ys rule: rev_induct)
  case Nil
  then show ?case by simp
next
  case (snoc x xs)
  show ?case
  proof (cases "f x \<in> fst ` set (group_by f xs)")
    case True
    with snoc.prems obtain zs where zs: "(k, zs) \<in> set (group_by f xs)" "ys = (if k = f x then zs @ [x] else zs)"
      by (auto simp: push_group_def split: if_splits)
    from snoc.IH[OF zs(1)] zs(2) show ?thesis by simp
  next
    case False
    then have "f x \<notin> f ` set xs" using group_by_keys[of f xs] by auto
    then have "\<forall>y \<in> set xs. f y \<noteq> f x" by (metis imageI)
    then have "filter (\<lambda>y. f y = f x) xs = []" by (simp add: filter_empty_conv)
    with False snoc show ?thesis by (auto simp: push_group_def image_iff)
  qed
qed

lemma group_of_by: "group_of (group_by f xs) k = filter (\<lambda>x. f x = k) xs"
proof (cases "map_of (group_by f xs) k")
  case None
  then have "k \<notin> f ` set xs" using group_by_keys[of f xs] by (auto simp: map_of_eq_None_iff)
  then have "filter (\<lambda>x. f x = k) xs = []" by (auto simp: filter_empty_conv)
  with None show ?thesis by (simp add: group_of_def)
next
  case (Some ys)
  with group_by_member[OF map_of_SomeD[OF Some]] show ?thesis by (simp add: group_of_def)
qed

lemma group_by_nonempty: "(k, ys) \<in> set (group_by f xs) \<Longrightarrow> ys \<noteq> []"
proof -
  assume a: "(k, ys) \<in> set (group_by f xs)"
  then have "k \<in> f ` set xs" using group_by_keys[of f xs] by force
  with group_by_member[OF a] show ?thesis by (auto simp: filter_empty_conv)
qed

lemma push_known_mset:
  assumes "distinct (map fst gs)"
  shows "mset (concat (map snd (map (\<lambda>(k', xs). if k' = k then (k', xs @ [x]) else (k', xs)) gs))) =
    (if k \<in> fst ` set gs then add_mset x (mset (concat (map snd gs))) else mset (concat (map snd gs)))"
  using assms
proof (induction gs)
  case Nil
  then show ?case by simp
next
  case (Cons g gs)
  obtain j ys where g: "g = (j, ys)" by (cases g)
  with Cons show ?case by (cases "j = k") (simp_all add: image_iff)
qed

lemma push_group_mset:
  assumes "distinct (map fst gs)"
  shows "mset (concat (map snd (push_group k x gs))) = add_mset x (mset (concat (map snd gs)))"
  using push_known_mset[OF assms, of k x] by (simp add: push_group_def del: map_map)

lemma group_by_mset: "mset (concat (map snd (group_by f xs))) = mset xs"
proof (induction xs rule: rev_induct)
  case Nil
  then show ?case by simp
next
  case (snoc x xs)
  with group_by_keys[of f xs] show ?case by (simp add: push_group_mset)
qed

end
