(* ===== verification/TimeReview.thy ===== *)
theory TimeReview
  imports HooksChores JsNumber Grouping
begin

text \<open>
  The review of chore times, \<^verbatim>\<open>web/src/app/admin/time-review/page.tsx\<close>: durations, the list per member
  and the editing of an entry.
\<close>

text \<open>The dash stands for no duration.\<close>

definition review_duration :: "jnum option \<Rightarrow> string" where
  "review_duration seconds =
     (case seconds of
        None \<Rightarrow> [CHR 0xE2, CHR 0x80, CHR 0x94]
      | Some (Fin x) \<Rightarrow>
          (let s = max 0 \<lfloor>x\<rfloor>; h = s div 3600; m = s mod 3600 div 60; sec = s mod 60 in
           if h > 0 then int_str h @ ''h '' @ int_str m @ ''m '' @ int_str sec @ ''s''
           else if m > 0 then int_str m @ ''m '' @ int_str sec @ ''s''
           else int_str sec @ ''s'')
      | Some _ \<Rightarrow> ''NaNs'')"

text \<open>A recorded duration, else the seconds between start and end; \<open>NaN\<close> if one of them is unreadable.\<close>

definition entry_duration_seconds :: "(int \<Rightarrow> int) \<Rightarrow> api_chore_time_entry \<Rightarrow> jnum option" where
  "entry_duration_seconds loc e =
     (case te_duration_seconds e of
        Some d \<Rightarrow> Some (Fin d)
      | None \<Rightarrow>
          if truthy (te_started_at e) \<and> truthy (te_ended_at e) then
            Some (case (date_parse loc (the (te_ended_at e)), date_parse loc (the (te_started_at e))) of
                (Some b, Some a) \<Rightarrow> Fin (of_int (math_round (of_int (b - a) / 1000)))
              | _ \<Rightarrow> NaN)
          else None)"

definition member_name :: "member list option \<Rightarrow> string \<Rightarrow> string" where
  "member_name members i =
     (case members of
        None \<Rightarrow> take 8 i
      | Some ms \<Rightarrow> (case find (\<lambda>m. mem_id m = i) ms of Some m \<Rightarrow> mem_name m | None \<Rightarrow> take 8 i))"

definition chore_name :: "api_chore list option \<Rightarrow> string \<Rightarrow> string" where
  "chore_name chores i =
     (case chores of
        None \<Rightarrow> ''(unknown chore)''
      | Some cs \<Rightarrow> (case find (\<lambda>c. ch_id c = i) cs of Some c \<Rightarrow> ch_name c | None \<Rightarrow> ''(unknown chore)''))"

text \<open>
  The entries of a member, the newest first. With an unreadable start the comparison yields \<open>NaN\<close> and the
  standard leaves the order to the engine, a parameter that permutes the entries.
\<close>

definition started_ms :: "(int \<Rightarrow> int) \<Rightarrow> api_chore_time_entry \<Rightarrow> int option" where
  "started_ms loc e = Option.bind (te_started_at e) (date_parse loc)"

definition newest_first ::
  "(api_chore_time_entry list \<Rightarrow> api_chore_time_entry list) \<Rightarrow> (int \<Rightarrow> int) \<Rightarrow>
   api_chore_time_entry list \<Rightarrow> api_chore_time_entry list" where
  "newest_first engine loc es =
     (if list_all (\<lambda>e. started_ms loc e \<noteq> None) es then sort_desc (\<lambda>e. the (started_ms loc e)) es else engine es)"

definition grouped_entries ::
  "(api_chore_time_entry list \<Rightarrow> api_chore_time_entry list) \<Rightarrow> (int \<Rightarrow> int) \<Rightarrow>
   api_chore_time_entry list \<Rightarrow> (string \<times> api_chore_time_entry list) list" where
  "grouped_entries engine loc entries =
     map (\<lambda>(m, es). (m, newest_first engine loc es)) (group_by te_member_id entries)"

record editing_state =
  ed_id :: string
  ed_minutes :: jnum
  ed_note :: string

text \<open>\<^verbatim>\<open>Math.max(1, x)\<close>.\<close>

definition at_least_one :: "jnum \<Rightarrow> jnum" where
  "at_least_one x =
     (case x of NaN \<Rightarrow> NaN | NegInf \<Rightarrow> Fin 1 | PosInf \<Rightarrow> PosInf | Fin n \<Rightarrow> Fin (max 1 n))"

definition start_edit :: "(int \<Rightarrow> int) \<Rightarrow> api_chore_time_entry \<Rightarrow> editing_state" where
  "start_edit loc e =
     \<lparr>ed_id = te_id e,
      ed_minutes = (case entry_duration_seconds loc e of
          None \<Rightarrow> Fin 1
        | Some dur \<Rightarrow> at_least_one (jround (jscale (1 / 60) dur))),
      ed_note = te_note e\<rparr>"

text \<open>\<^verbatim>\<open>Number.parseInt(value, 10) || 1\<close>.\<close>

definition type_minutes :: "string \<Rightarrow> editing_state \<Rightarrow> editing_state" where
  "type_minutes v ed = ed\<lparr>ed_minutes := (let n = parse_int v in if n = NaN \<or> n = Fin 0 then Fin 1 else n)\<rparr>"

text \<open>
  Saving: the dialog is closed without a request when the start is unreadable, \<^verbatim>\<open>toISOString\<close> raises when
  the new end is no date, else the new end and the note are sent and the dialog closes with the answer.
\<close>

definition new_end :: "int \<Rightarrow> rat \<Rightarrow> int option" where
  "new_end startedMs minutes =
     (let t = of_int startedMs + minutes * 60000 in time_clip (if t \<ge> 0 then \<lfloor>t\<rfloor> else \<lceil>t\<rceil>))"

datatype commit_outcome = NotEditing | EditDropped | CommitRaises | CommitSends mutation

definition commit_edit ::
  "(int \<Rightarrow> int) \<Rightarrow> api_chore_time_entry \<Rightarrow> editing_state option \<Rightarrow> editing_state option \<times> commit_outcome" where
  "commit_edit loc original editing =
     (case editing of
        None \<Rightarrow> (None, NotEditing)
      | Some ed \<Rightarrow>
          (case Option.bind (te_started_at original) (date_parse loc) of
             None \<Rightarrow> (None, EditDropped)
           | Some startedMs \<Rightarrow>
               (case ed_minutes ed of
                  Fin m \<Rightarrow>
                    (case new_end startedMs m of
                       None \<Rightarrow> (editing, CommitRaises)
                     | Some newEnd \<Rightarrow>
                         (editing, CommitSends (use_update_time_entry (ed_id ed) None (Some (iso_string newEnd)) (Some (ed_note ed)))))
                | _ \<Rightarrow> (editing, CommitRaises))))"

definition handle_delete_entry :: "bool \<Rightarrow> api_chore_time_entry \<Rightarrow> mutation option" where
  "handle_delete_entry confirmed e = (if confirmed then Some (use_delete_time_entry (te_id e)) else None)"

lemma new_end_whole: "new_end a (of_int k) = time_clip (a + k * 60000)"
proof -
  have "of_int a + of_int k * 60000 = (of_int (a + k * 60000) :: rat)" by simp
  then show ?thesis by (simp only: new_end_def Let_def floor_of_int ceiling_of_int if_cancel)
qed

lemma newest_first_mset: "\<forall>xs. mset (engine xs) = mset xs \<Longrightarrow> mset (newest_first engine loc es) = mset es"
  by (simp add: newest_first_def)

lemma map_groups_mset:
  "\<forall>xs. mset (f xs) = mset xs \<Longrightarrow> mset (concat (map snd (map (\<lambda>(m, es). (m, f es)) gs))) = mset (concat (map snd gs))"
  by (induction gs) auto

section \<open>Properties\<close>

text \<open>
  The review lists every time entry once, under its member; each member has one list that holds exactly
  the entries of the member, and the newest entry stands first when every start of the list is readable.
\<close>

theorem review_lists_each_entry_once:
  assumes "\<forall>xs. mset (engine xs) = mset xs"
  shows "mset (concat (map snd (grouped_entries engine loc entries))) = mset entries \<and>
   distinct (map fst (grouped_entries engine loc entries)) \<and>
   (\<forall>(m, es) \<in> set (grouped_entries engine loc entries).
      es \<noteq> [] \<and> mset es = mset (filter (\<lambda>e. te_member_id e = m) entries) \<and>
      ((\<forall>e \<in> set es. started_ms loc e \<noteq> None) \<longrightarrow> sorted (map (\<lambda>e. - the (started_ms loc e)) es)))"
proof (intro conjI)
  let ?g = "group_by te_member_id entries"
  have p: "\<forall>xs. mset (newest_first engine loc xs) = mset xs" using assms by (simp add: newest_first_mset)
  show "mset (concat (map snd (grouped_entries engine loc entries))) = mset entries"
    by (simp only: grouped_entries_def map_groups_mset[OF p] group_by_mset)
  have "map fst (grouped_entries engine loc entries) = map fst ?g"
    by (simp add: grouped_entries_def case_prod_beta comp_def)
  then show "distinct (map fst (grouped_entries engine loc entries))"
    using group_by_keys[of te_member_id entries] by simp
  have s: "\<forall>xs. set (newest_first engine loc xs) = set xs" using p by (metis mset_eq_setD)
  have "es \<noteq> [] \<and> mset es = mset (filter (\<lambda>e. te_member_id e = m) entries) \<and>
      ((\<forall>e \<in> set es. started_ms loc e \<noteq> None) \<longrightarrow> sorted (map (\<lambda>e. - the (started_ms loc e)) es))"
    if "(m, es) \<in> set (grouped_entries engine loc entries)" for m es
  proof -
    from that obtain xs where x: "(m, xs) \<in> set ?g" and es: "es = newest_first engine loc xs"
      by (auto simp: grouped_entries_def)
    have "es \<noteq> []" using s group_by_nonempty[OF x] unfolding es by (metis set_empty)
    moreover have "mset es = mset (filter (\<lambda>e. te_member_id e = m) entries)"
      using p group_by_member[OF x] unfolding es by simp
    moreover have "sorted (map (\<lambda>e. - the (started_ms loc e)) es)" if "\<forall>e \<in> set es. started_ms loc e \<noteq> None"
    proof -
      have "list_all (\<lambda>e. started_ms loc e \<noteq> None) xs" using that s unfolding es list_all_iff by (simp only:)
      then show ?thesis unfolding es newest_first_def by (simp only: if_True sort_desc_sorted)
    qed
    ultimately show ?thesis by blast
  qed
  then show "\<forall>(m, es) \<in> set (grouped_entries engine loc entries).
      es \<noteq> [] \<and> mset es = mset (filter (\<lambda>e. te_member_id e = m) entries) \<and>
      ((\<forall>e \<in> set es. started_ms loc e \<noteq> None) \<longrightarrow> sorted (map (\<lambda>e. - the (started_ms loc e)) es))"
    by blast
qed

theorem review_lists_each_entry_once_witness:
  "length (grouped_entries rev (\<lambda>t. t) [\<lparr>te_id = ''t1'', te_chore_id = ''c'', te_member_id = ''m1'', te_started_at = None,
     te_ended_at = None, te_duration_seconds = None, te_note = [], te_source = ''manual'', te_created_at = []\<rparr>]) = 1"
proof -
  let ?e = "\<lparr>te_id = ''t1'', te_chore_id = ''c'', te_member_id = ''m1'', te_started_at = None,
     te_ended_at = None, te_duration_seconds = None, te_note = [], te_source = ''manual'', te_created_at = []\<rparr>"
  have "size (mset (concat (map snd (grouped_entries rev (\<lambda>t. t) [?e])))) = 1"
    using review_lists_each_entry_once[of rev "\<lambda>t. t" "[?e]"] by simp
  then show ?thesis by (simp add: grouped_entries_def group_by_def push_group_def)
qed



end
