(* ===== verification/Equity.thy ===== *)
theory Equity
  imports ApiTypes JsNumber "HOL-Library.List_Lexorder" "HOL-Library.Char_ord"
begin

text \<open>
  The balance screens of \<^verbatim>\<open>web/src/components/screens/equity.tsx\<close>: the adapter of the dashboard answer,
  the contribution bars, the housekeeper card, the trend lines, the scales and the race. The shape of
  the answers is in \<^verbatim>\<open>web/src/lib/api/types.ts\<close>. The grouping of digits by \<^verbatim>\<open>toLocaleString\<close> depends
  on the browser and is a parameter.
\<close>

section \<open>Answers of the server\<close>

record member_equity =
  me_member_id :: string
  me_total_minutes :: rat
  me_cognitive_minutes :: rat
  me_physical_minutes :: rat
  me_load_pct :: rat
  me_load_status :: string

record domain_summary =
  ds_name :: string
  ds_owner_member_id :: "string option"
  ds_total_minutes :: rat
  ds_task_count :: rat

record equity_dashboard =
  eq_from :: string
  eq_to :: string
  eq_members :: "member_equity list"
  eq_domain_list :: "domain_summary list"
  eq_trend :: "(string \<times> rat) list list"

record contribution =
  co_member_id :: string
  co_total_minutes :: rat
  co_cents_min :: "rat option"
  co_cents_max :: "rat option"
  co_percentage_minutes :: rat
  co_percentage_cents :: "rat option"

record member_saving =
  ms_member_id :: string
  ms_minutes :: rat
  ms_savings_cents :: "rat option"

section \<open>The adapter\<close>

text \<open>\<^verbatim>\<open>Math.round(minutes / 60 * 10) / 10\<close>: hours with one decimal.\<close>

definition hours1 :: "rat \<Rightarrow> rat" where
  "hours1 minutes = of_int (math_round (minutes / 60 * 10)) / 10"

record equity_adult =
  ea_id :: string
  ea_total :: rat
  ea_cognitive :: rat
  ea_physical :: rat
  ea_personal_hrs :: rat
  ea_personal_goal :: rat
  ea_load :: string
  ea_load_pct :: int

record equity_domain =
  dm_name :: string
  dm_owner :: string
  dm_hours :: rat
  dm_tasks :: rat

record equity_trend =
  et_w :: string
  et_mom :: rat
  et_dad :: rat

record equity_data =
  eqd_period :: string
  eqd_domains :: nat
  eqd_adults :: "equity_adult list"
  eqd_domain_list :: "equity_domain list"
  eqd_trend :: "equity_trend list"

definition adapt_adult :: "member_equity \<Rightarrow> equity_adult" where
  "adapt_adult me =
     \<lparr>ea_id = me_member_id me, ea_total = hours1 (me_total_minutes me),
      ea_cognitive = hours1 (me_cognitive_minutes me), ea_physical = hours1 (me_physical_minutes me),
      ea_personal_hrs = 0, ea_personal_goal = 5, ea_load = me_load_status me,
      ea_load_pct = math_round (me_load_pct me)\<rparr>"

definition adapt_domain :: "domain_summary \<Rightarrow> equity_domain" where
  "adapt_domain d =
     \<lparr>dm_name = ds_name d, dm_owner = (case ds_owner_member_id d of None \<Rightarrow> [] | Some i \<Rightarrow> i),
      dm_hours = hours1 (ds_total_minutes d), dm_tasks = ds_task_count d\<rparr>"

text \<open>The ids in the order of \<^verbatim>\<open>sort()\<close>; a missing first or second id is read as the property \<^verbatim>\<open>undefined\<close>.\<close>

definition sorted_ids :: "equity_dashboard \<Rightarrow> string list" where
  "sorted_ids api = sort (map me_member_id (eq_members api))"

definition slot_minutes :: "string list \<Rightarrow> nat \<Rightarrow> (string \<times> rat) list \<Rightarrow> rat" where
  "slot_minutes ids k minutes =
     (case map_of minutes (if k < length ids then ids ! k else ''undefined'') of None \<Rightarrow> 0 | Some m \<Rightarrow> m)"

definition trend_label :: "nat \<Rightarrow> nat \<Rightarrow> string" where
  "trend_label n i = (if Suc i = n then ''This'' else ''W-'' @ int_str (int n - 1 - int i))"

definition adapt_trend :: "equity_dashboard \<Rightarrow> equity_trend list" where
  "adapt_trend api =
     (let n = length (eq_trend api)
      in map (\<lambda>(i, tp). \<lparr>et_w = trend_label n i, et_mom = hours1 (slot_minutes (sorted_ids api) 0 tp),
                          et_dad = hours1 (slot_minutes (sorted_ids api) 1 tp)\<rparr>)
           (enumerate 0 (eq_trend api)))"

text \<open>The dash between the bounds of the period, \<^verbatim>\<open> \u2013 \<close>.\<close>

definition en_dash :: string where "en_dash = '' '' @ [CHR 0xE2, CHR 0x80, CHR 0x93] @ '' ''"

definition adapt_dashboard :: "equity_dashboard \<Rightarrow> equity_data" where
  "adapt_dashboard api =
     \<lparr>eqd_period = eq_from api @ en_dash @ eq_to api, eqd_domains = length (eq_domain_list api),
      eqd_adults = map adapt_adult (eq_members api), eqd_domain_list = map adapt_domain (eq_domain_list api),
      eqd_trend = adapt_trend api\<rparr>"

text \<open>The screen prefers the live answer, else the older one, else it has nothing to show.\<close>

definition equity_shown :: "equity_dashboard option \<Rightarrow> equity_data option \<Rightarrow> equity_data option" where
  "equity_shown live stub = (case live of Some api \<Rightarrow> Some (adapt_dashboard api) | None \<Rightarrow> stub)"

definition adults_of :: "member list \<Rightarrow> member list" where
  "adults_of allMembers = filter (\<lambda>m. mem_role m = ''adult'') allMembers"

section \<open>Load, time and trend\<close>

definition adult_entry :: "equity_data \<Rightarrow> member \<Rightarrow> equity_adult option" where
  "adult_entry eq m = find (\<lambda>x. ea_id x = mem_id m) (eqd_adults eq)"

definition load_pct_shown :: "equity_data \<Rightarrow> member \<Rightarrow> int" where
  "load_pct_shown eq m = (case adult_entry eq m of Some a \<Rightarrow> ea_load_pct a | None \<Rightarrow> 0)"

datatype load_label = Balanced | Watch | Overloaded

definition load_row :: "equity_data \<Rightarrow> member \<Rightarrow> load_label \<times> string" where
  "load_row eq m =
     (let a = adult_entry eq m; status = (case a of Some x \<Rightarrow> ea_load x | None \<Rightarrow> ''green'')
      in (if status = ''green'' then Balanced else if status = ''yellow'' then Watch else Overloaded,
          case a of Some x \<Rightarrow> int_str (ea_load_pct x) @ ''% load this week'' | None \<Rightarrow> ''No data''))"

definition ring_pct :: "rat \<Rightarrow> rat \<Rightarrow> rat" where
  "ring_pct value goal = min 1 (value / goal)"

definition personal_ring :: "equity_data \<Rightarrow> member \<Rightarrow> rat \<times> rat" where
  "personal_ring eq m =
     (case adult_entry eq m of Some a \<Rightarrow> (ea_personal_hrs a, ea_personal_goal a) | None \<Rightarrow> (0, 5))"

text \<open>The two bars of the time balance, in percent of a day.\<close>

definition balance_bars :: "equity_data \<Rightarrow> member \<Rightarrow> (rat \<times> rat) option" where
  "balance_bars eq m = map_option (\<lambda>a. (ea_cognitive a / 24 * 100, ea_physical a / 24 * 100)) (adult_entry eq m)"

definition trend_line :: "equity_data \<Rightarrow> nat \<Rightarrow> rat list" where
  "trend_line eq mi = map (\<lambda>tp. if mi = 0 then et_mom tp else et_dad tp) (eqd_trend eq)"

definition trend_points :: "equity_data \<Rightarrow> nat \<Rightarrow> (rat \<times> rat) list" where
  "trend_points eq mi = map (\<lambda>(i, h). (40 + of_nat i * 85, 130 - h * 4)) (enumerate 0 (trend_line eq mi))"

section \<open>Contribution\<close>

definition rebalance_threshold_pct :: rat where "rebalance_threshold_pct = 70"

definition max_pct :: "contribution list \<Rightarrow> rat" where
  "max_pct cs = fold (\<lambda>c m. max m (co_percentage_minutes c)) cs 1"

definition width_pct :: "contribution list \<Rightarrow> contribution \<Rightarrow> rat" where
  "width_pct cs c = max 2 (co_percentage_minutes c / max_pct cs * 100)"

definition has_band :: "contribution \<Rightarrow> bool" where
  "has_band c \<longleftrightarrow> co_cents_min c \<noteq> None \<and> co_cents_max c \<noteq> None"

definition fmt_dollars :: "(int \<Rightarrow> string) \<Rightarrow> rat \<Rightarrow> string" where
  "fmt_dollars digits cents = ''$'' @ digits (math_round (cents / 100))"

definition fmt_dollar_band :: "(int \<Rightarrow> string) \<Rightarrow> rat \<Rightarrow> rat \<Rightarrow> string" where
  "fmt_dollar_band digits lo hi = fmt_dollars digits lo @ en_dash @ fmt_dollars digits hi"

text \<open>What a bar shows: the name, the hours, the percentage, the width and the band if both bounds are there.\<close>

record contribution_bar =
  cb_name :: string
  cb_hours :: rat
  cb_pct :: int
  cb_width :: rat
  cb_band :: "string option"

definition member_by_id :: "member list \<Rightarrow> string \<Rightarrow> member option" where
  "member_by_id ms i = find (\<lambda>m. mem_id m = i) (rev ms)"

definition name_or_id :: "member list \<Rightarrow> string \<Rightarrow> string" where
  "name_or_id ms i = (case member_by_id ms i of Some m \<Rightarrow> mem_name m | None \<Rightarrow> i)"

definition contribution_bars :: "(int \<Rightarrow> string) \<Rightarrow> member list \<Rightarrow> contribution list \<Rightarrow> contribution_bar list" where
  "contribution_bars digits ms cs =
     map (\<lambda>c. \<lparr>cb_name = name_or_id ms (co_member_id c), cb_hours = hours1 (co_total_minutes c),
               cb_pct = math_round (co_percentage_minutes c), cb_width = width_pct cs c,
               cb_band = (if has_band c
                          then Some (fmt_dollar_band digits (the (co_cents_min c)) (the (co_cents_max c)) @
                            (case co_percentage_cents c of None \<Rightarrow> []
                             | Some p \<Rightarrow> ''('' @ int_str (math_round p) @ ''% by $)''))
                          else None)\<rparr>) cs"

definition overloaded_contribution :: "member list \<Rightarrow> contribution list \<Rightarrow> contribution option" where
  "overloaded_contribution ms cs =
     find (\<lambda>c. (case member_by_id ms (co_member_id c) of Some m \<Rightarrow> mem_role m = ''adult'' | None \<Rightarrow> False) \<and>
               co_percentage_minutes c > rebalance_threshold_pct) cs"

text \<open>The line of savings below a category, one span per member.\<close>

definition middle_dot :: string where "middle_dot = '' '' @ [CHR 0xC2, CHR 0xB7] @ '' ''"

definition saving_spans :: "(int \<Rightarrow> string) \<Rightarrow> member list \<Rightarrow> member_saving list \<Rightarrow> string list" where
  "saving_spans digits ms savings =
     map (\<lambda>(i, s). name_or_id ms (ms_member_id s) @ '': '' @ num_str (hours1 (ms_minutes s)) @ ''h'' @
            (case ms_savings_cents s of None \<Rightarrow> [] | Some c \<Rightarrow> middle_dot @ ''saves '' @ fmt_dollars digits c) @
            (if Suc i < length savings then middle_dot else []))
       (enumerate 0 savings)"

section \<open>Scales and race\<close>

definition pan_hours :: "equity_adult list \<Rightarrow> member option \<Rightarrow> int" where
  "pan_hours equityAdults pan =
     (case pan of None \<Rightarrow> 0
      | Some m \<Rightarrow> math_round (case find (\<lambda>a. ea_id a = mem_id m) equityAdults of Some a \<Rightarrow> ea_total a | None \<Rightarrow> 0))"

definition nth_opt :: "'a list \<Rightarrow> nat \<Rightarrow> 'a option" where
  "nth_opt xs i = (if i < length xs then Some (xs ! i) else None)"

definition tilt :: "equity_adult list \<Rightarrow> member list \<Rightarrow> rat" where
  "tilt equityAdults adults =
     of_int (pan_hours equityAdults (nth_opt adults 0) - pan_hours equityAdults (nth_opt adults 1)) * (3 / 2)"

record race_participant =
  rc_id :: string
  rc_progress :: rat
  rc_items :: nat

definition race_pct :: "race_participant \<Rightarrow> jnum" where
  "race_pct p = jscale 100 (jdiv_fin (rc_progress p) (of_nat (rc_items p)))"

definition race_cells :: "race_participant \<Rightarrow> bool list" where
  "race_cells p = map (\<lambda>i. of_nat i < rc_progress p) [0 ..< rc_items p]"

text \<open>The member shown as having claimed a task; nobody when the id is empty or unknown.\<close>

definition claimed_by :: "member list \<Rightarrow> string option \<Rightarrow> member option" where
  "claimed_by ms memberId = (if truthy memberId then member_by_id ms (the memberId) else None)"

section \<open>Lemmas\<close>

lemma hours1_close: "\<bar>hours1 m - m / 60\<bar> \<le> 1 / 20"
proof -
  have "of_int (math_round x) \<le> x + 1 / 2 \<and> x - 1 / 2 < of_int (math_round x)" for x :: rat
    unfolding math_round_def by linarith
  from this[of "m / 60 * 10"] show ?thesis by (simp add: hours1_def abs_le_iff field_simps)
qed

lemma fold_max_bounds:
  fixes f :: "'a \<Rightarrow> rat"
  shows "k \<le> fold (\<lambda>c m. max m (f c)) cs k \<and> (\<forall>c \<in> set cs. f c \<le> fold (\<lambda>c m. max m (f c)) cs k)"
proof (induction cs arbitrary: k)
  case (Cons a cs)
  from Cons[of "max k (f a)"] show ?case by (simp add: max.bounded_iff)
qed simp

lemma fold_max_attained:
  fixes f :: "'a \<Rightarrow> rat"
  shows "fold (\<lambda>c m. max m (f c)) cs k = k \<or> (\<exists>c \<in> set cs. fold (\<lambda>c m. max m (f c)) cs k = f c)"
proof (induction cs arbitrary: k)
  case (Cons a cs)
  from Cons[of "max k (f a)"] show ?case by (cases "f a \<le> k") (auto simp: max_def)
qed simp

lemma max_pct_bounds: "1 \<le> max_pct cs" "c \<in> set cs \<Longrightarrow> co_percentage_minutes c \<le> max_pct cs"
  using fold_max_bounds[of 1 co_percentage_minutes cs] by (simp_all add: max_pct_def)

lemma max_pct_attained: "max_pct cs = 1 \<or> (\<exists>c \<in> set cs. max_pct cs = co_percentage_minutes c)"
  unfolding max_pct_def by (rule fold_max_attained)

lemma two_in_sum:
  fixes f :: "'a \<Rightarrow> rat"
  assumes "i < j" and "j < length xs" and "\<forall>x \<in> set xs. 0 \<le> f x"
  shows "f (xs ! i) + f (xs ! j) \<le> sum_list (map f xs)"
proof -
  have "sum_list (map f xs) = (\<Sum>k < length xs. f (xs ! k))" by (simp add: sum_list_sum_nth atLeast0LessThan)
  moreover have "(\<Sum>k \<in> {i, j}. f (xs ! k)) \<le> (\<Sum>k < length xs. f (xs ! k))"
    by (rule sum_mono2) (use assms in auto)
  ultimately show ?thesis using assms(1) by simp
qed

lemma find_iff_only:
  assumes "\<And>i j. i < j \<Longrightarrow> j < length xs \<Longrightarrow> \<not> (P (xs ! i) \<and> P (xs ! j))"
  shows "find P xs = Some x \<longleftrightarrow> x \<in> set xs \<and> P x"
proof
  assume "x \<in> set xs \<and> P x"
  then obtain j where j: "j < length xs" "xs ! j = x" "P x" by (auto simp: in_set_conv_nth)
  moreover have "\<not> P (xs ! i)" if "i < j" for i using assms[OF that j(1)] j by auto
  ultimately show "find P xs = Some x" by (auto simp: find_Some_iff)
qed (auto simp: find_Some_iff)

lemma sort_pair: "mset xs = {#a, b#} \<Longrightarrow> sort xs = [min a b, max a (b::'a::linorder)]"
proof -
  assume "mset xs = {#a, b#}"
  then have "mset [min a b, max a b] = mset xs" by (simp add: min_def max_def)
  then show ?thesis by (rule properties_for_sort) (use linear in \<open>auto simp: min_def max_def\<close>)
qed

lemma trend_line_adapted:
  "trend_line (adapt_dashboard api) mi =
     map (\<lambda>tp. hours1 (slot_minutes (sorted_ids api) (if mi = 0 then 0 else 1) tp)) (eq_trend api)"
proof -
  have "map (\<lambda>x. g (snd x)) (enumerate 0 xs) = map g xs" for g :: "(string \<times> rat) list \<Rightarrow> rat" and xs
    using map_map[of g snd "enumerate 0 xs"] by (simp add: comp_def)
  from this[of "\<lambda>tp. hours1 (slot_minutes (sorted_ids api) 0 tp)"] this[of "\<lambda>tp. hours1 (slot_minutes (sorted_ids api) 1 tp)"]
  show ?thesis by (simp add: trend_line_def adapt_dashboard_def adapt_trend_def Let_def comp_def case_prod_beta)
qed

section \<open>Properties\<close>

text \<open>
  The bars of the contribution are between two and a hundred percent wide, a larger share is never
  drawn shorter, and if any share reaches one percent the largest fills its track.
\<close>

theorem contribution_widths:
  assumes "c \<in> set cs" and "d \<in> set cs"
  shows "2 \<le> width_pct cs c \<and> width_pct cs c \<le> 100 \<and>
    (co_percentage_minutes c \<le> co_percentage_minutes d \<longrightarrow> width_pct cs c \<le> width_pct cs d) \<and>
    (1 \<le> co_percentage_minutes c \<longrightarrow> (\<exists>e \<in> set cs. width_pct cs e = 100))"
proof -
  have m: "1 \<le> max_pct cs" by (rule max_pct_bounds)
  have le: "co_percentage_minutes c \<le> max_pct cs" using max_pct_bounds(2)[OF assms(1)] .
  have "co_percentage_minutes c / max_pct cs * 100 \<le> 100" using m le by (simp add: field_simps)
  moreover have "co_percentage_minutes c / max_pct cs * 100 \<le> co_percentage_minutes d / max_pct cs * 100"
    if "co_percentage_minutes c \<le> co_percentage_minutes d"
    using that m by (simp add: divide_right_mono)
  moreover have "\<exists>e \<in> set cs. width_pct cs e = 100" if "1 \<le> co_percentage_minutes c"
  proof -
    from max_pct_attained[of cs] that le assms(1) obtain e where "e \<in> set cs" "max_pct cs = co_percentage_minutes e"
      by (metis order_antisym)
    with m show ?thesis by (intro bexI[of _ e]) (simp_all add: width_pct_def)
  qed
  ultimately show ?thesis by (auto simp: width_pct_def)
qed

theorem contribution_widths_witness:
  "let a = \<lparr>co_member_id = ''a'', co_total_minutes = 90, co_cents_min = None, co_cents_max = None,
       co_percentage_minutes = 75, co_percentage_cents = None\<rparr>;
     b = \<lparr>co_member_id = ''b'', co_total_minutes = 30, co_cents_min = None, co_cents_max = None,
       co_percentage_minutes = 25, co_percentage_cents = None\<rparr>
   in width_pct [a, b] b \<le> width_pct [a, b] a \<and> width_pct [a, b] a \<le> 100"
  unfolding Let_def
  using contribution_widths[of "\<lparr>co_member_id = ''b'', co_total_minutes = 30, co_cents_min = None, co_cents_max = None,
       co_percentage_minutes = 25, co_percentage_cents = None\<rparr>" "[\<lparr>co_member_id = ''a'', co_total_minutes = 90,
       co_cents_min = None, co_cents_max = None, co_percentage_minutes = 75, co_percentage_cents = None\<rparr>,
     \<lparr>co_member_id = ''b'', co_total_minutes = 30, co_cents_min = None, co_cents_max = None,
       co_percentage_minutes = 25, co_percentage_cents = None\<rparr>]" "\<lparr>co_member_id = ''a'', co_total_minutes = 90,
       co_cents_min = None, co_cents_max = None, co_percentage_minutes = 75, co_percentage_cents = None\<rparr>"]
    max_pct_bounds(2)
  by (simp add: width_pct_def max_pct_def)

text \<open>
  The hint to rebalance is exact: for shares that are not negative and add up to at most a hundred
  percent it appears precisely when some adult carries more than seventy, and names that adult.
\<close>

theorem overload_hint_exact:
  assumes "\<forall>c \<in> set cs. 0 \<le> co_percentage_minutes c"
    and "sum_list (map co_percentage_minutes cs) \<le> 100"
  shows "overloaded_contribution ms cs = Some c \<longleftrightarrow>
    c \<in> set cs \<and> co_percentage_minutes c > 70 \<and>
    (\<exists>m. member_by_id ms (co_member_id c) = Some m \<and> mem_role m = ''adult'')"
proof -
  let ?P = "\<lambda>c. (case member_by_id ms (co_member_id c) of Some m \<Rightarrow> mem_role m = ''adult'' | None \<Rightarrow> False) \<and>
               co_percentage_minutes c > rebalance_threshold_pct"
  have "\<not> (?P (cs ! i) \<and> ?P (cs ! j))" if "i < j" "j < length cs" for i j
    using two_in_sum[OF that assms(1)] assms(2) by (auto simp: rebalance_threshold_pct_def)
  from find_iff_only[of cs ?P, OF this] show ?thesis
    by (auto simp: overloaded_contribution_def rebalance_threshold_pct_def split: option.splits)
qed

theorem overload_hint_exact_witness:
  "let a = \<lparr>co_member_id = ''a'', co_total_minutes = 90, co_cents_min = None, co_cents_max = None,
       co_percentage_minutes = 75, co_percentage_cents = None\<rparr>;
     m = \<lparr>mem_id = ''a'', mem_name = ''Ann'', mem_full = None, mem_role = ''adult'', mem_display_name = None,
       mem_age_group = None, mem_color = [], mem_initial = ''A'', mem_stars = 0, mem_streak = 0\<rparr>
   in overloaded_contribution [m] [a] = Some a"
  unfolding Let_def
  by (subst overload_hint_exact) (simp_all add: member_by_id_def)

text \<open>
  The trend lines belong to the ids in alphabetical order, not to the adults they are drawn for: with
  two adults, the line and the colour of the first adult of the list show the hours of the adult with
  the smaller id.
\<close>

theorem trend_lines_by_sorted_id:
  assumes "map mem_id (adults_of ms) = [a, b]" and "mset (map me_member_id (eq_members api)) = {#a, b#}"
  shows "trend_line (adapt_dashboard api) 0 =
      map (\<lambda>tp. hours1 (case map_of tp (min a b) of None \<Rightarrow> 0 | Some m \<Rightarrow> m)) (eq_trend api) \<and>
    trend_line (adapt_dashboard api) 1 =
      map (\<lambda>tp. hours1 (case map_of tp (max a b) of None \<Rightarrow> 0 | Some m \<Rightarrow> m)) (eq_trend api) \<and>
    (mem_id (adults_of ms ! 0) = min a b \<longleftrightarrow> a \<le> b)"
proof -
  have "mem_id (adults_of ms ! 0) = a" using assms(1) by (metis length_map list.size(4) nth_Cons_0 nth_map zero_less_Suc add_Suc_right)
  moreover have "sorted_ids api = [min a b, max a b]" using sort_pair[OF assms(2)] by (simp add: sorted_ids_def)
  ultimately show ?thesis by (auto simp: trend_line_adapted slot_minutes_def min_def)
qed

theorem trend_lines_by_sorted_id_witness:
  "let mk = (\<lambda>i. \<lparr>mem_id = i, mem_name = i, mem_full = None, mem_role = ''adult'', mem_display_name = None,
       mem_age_group = None, mem_color = [], mem_initial = [], mem_stars = 0, mem_streak = 0\<rparr>);
     eq = (\<lambda>i. \<lparr>me_member_id = i, me_total_minutes = 0, me_cognitive_minutes = 0, me_physical_minutes = 0,
       me_load_pct = 0, me_load_status = ''green''\<rparr>);
     api = \<lparr>eq_from = [], eq_to = [], eq_members = [eq ''m'', eq ''d''], eq_domain_list = [],
       eq_trend = [[(''m'', 600), (''d'', 60)]]\<rparr>
   in map mem_id (adults_of [mk ''m'', mk ''d'']) = [''m'', ''d''] \<and> trend_line (adapt_dashboard api) 0 = [1]"
proof -
  let ?mk = "\<lambda>i. \<lparr>mem_id = i, mem_name = i, mem_full = None, mem_role = ''adult'', mem_display_name = None,
       mem_age_group = None, mem_color = [], mem_initial = [], mem_stars = 0, mem_streak = 0\<rparr>"
  let ?eq = "\<lambda>i. \<lparr>me_member_id = i, me_total_minutes = 0, me_cognitive_minutes = 0, me_physical_minutes = 0,
       me_load_pct = 0, me_load_status = ''green''\<rparr>"
  let ?api = "\<lparr>eq_from = [], eq_to = [], eq_members = [?eq ''m'', ?eq ''d''], eq_domain_list = [],
       eq_trend = [[(''m'', 600), (''d'', 60)]]\<rparr>"
  have a: "map mem_id (adults_of [?mk ''m'', ?mk ''d'']) = [''m'', ''d'']" by (simp add: adults_of_def)
  have m: "mset (map me_member_id (eq_members ?api)) = {#''m'', ''d''#}" by (simp add: add_mset_commute)
  have less: "min ''m'' ''d'' = ''d''" by (simp add: min_def less_eq_char_def)
  have h: "hours1 60 = 1" by (simp add: hours1_def math_round_def floor_eq_iff)
  from trend_lines_by_sorted_id[OF a m] less h a show ?thesis by (simp add: Let_def)
qed

text \<open>
  The adapter keeps the members and domains one to one and in order, hours are within three minutes of
  the reported minutes, and only the last week is labelled as this one.
\<close>

theorem adapter_keeps_rows:
  "map ea_id (eqd_adults (adapt_dashboard api)) = map me_member_id (eq_members api) \<and>
   eqd_domains (adapt_dashboard api) = length (eqd_domain_list (adapt_dashboard api)) \<and>
   list_all2 (\<lambda>a me. \<bar>60 * ea_total a - me_total_minutes me\<bar> \<le> 3) (eqd_adults (adapt_dashboard api)) (eq_members api) \<and>
   map et_w (eqd_trend (adapt_dashboard api)) = map (trend_label (length (eq_trend api))) [0 ..< length (eq_trend api)]"
proof (intro conjI)
  have "\<bar>60 * hours1 m - m\<bar> \<le> 3" for m using hours1_close[of m] unfolding abs_le_iff by linarith
  then show "list_all2 (\<lambda>a me. \<bar>60 * ea_total a - me_total_minutes me\<bar> \<le> 3) (eqd_adults (adapt_dashboard api)) (eq_members api)"
    by (simp add: adapt_dashboard_def adapt_adult_def list_all2_conv_all_nth)
  have "map (\<lambda>x. g (fst x)) (enumerate 0 xs) = map g [0 ..< length xs]" for g :: "nat \<Rightarrow> string" and xs :: "(string \<times> rat) list list"
    using map_map[of g fst "enumerate 0 xs"] by (simp add: comp_def)
  from this[of "trend_label (length (eq_trend api))" "eq_trend api"]
  show "map et_w (eqd_trend (adapt_dashboard api)) = map (trend_label (length (eq_trend api))) [0 ..< length (eq_trend api)]"
    by (simp add: adapt_dashboard_def adapt_trend_def Let_def comp_def case_prod_beta)
qed (simp_all add: adapt_dashboard_def adapt_adult_def comp_def)

text \<open>
  The race track of a participant has one cell per item, filled from the start, as many as the progress
  says but never more than there are items.
\<close>

theorem race_cells_filled:
  assumes "rc_progress p = of_nat k"
  shows "race_cells p = replicate (min k (rc_items p)) True @ replicate (rc_items p - k) False"
  by (rule nth_equalityI) (auto simp: race_cells_def assms nth_append)

theorem race_cells_filled_witness:
  "race_cells \<lparr>rc_id = ''emma'', rc_progress = 4, rc_items = 5\<rparr> = [True, True, True, True, False]"
  using race_cells_filled[of "\<lparr>rc_id = ''emma'', rc_progress = 4, rc_items = 5\<rparr>" 4]
  by (simp add: eval_nat_numeral)

end
