(* ===== verification/ListScreens.thy ===== *)
theory ListScreens
  imports HooksHome Machine
begin

text \<open>
  The lists of \<^verbatim>\<open>web/src/components/screens/lists.tsx\<close>: the cards of the index with their progress and
  preview, the form for a new list, and the actions on a list.
\<close>

record list_item =
  li_id :: string
  li_text :: string
  li_done :: bool
  li_assignee :: "string option"
  li_due :: "string option"

record family_list =
  fl_id :: string
  fl_title :: string
  fl_category :: string
  fl_emoji :: string
  fl_items :: "list_item list"

definition category_color :: "string \<Rightarrow> string option" where
  "category_color c =
     map_of [(''packing'', ''#7FB5B0''), (''chores'', ''#4F7942''), (''errands'', ''#D4A574''), (''todo'', ''#8B5CF6'')] c"

section \<open>The cards\<close>

definition done_count :: "list_item list \<Rightarrow> nat" where
  "done_count items = length (filter li_done items)"

definition progress_pct :: "list_item list \<Rightarrow> rat" where
  "progress_pct items =
     (if items = [] then 0 else of_nat (done_count items) / of_nat (length items) * 100)"

definition preview_items :: "list_item list \<Rightarrow> list_item list" where
  "preview_items items = take 3 (filter (\<lambda>i. \<not> li_done i) items)"

text \<open>The line of further items; it is part of the preview and is left out with it.\<close>

definition more_items :: "list_item list \<Rightarrow> nat option" where
  "more_items items =
     (let n = length items - length (preview_items items)
      in if preview_items items \<noteq> [] \<and> n > 0 then Some n else None)"

definition all_done :: "list_item list \<Rightarrow> bool" where
  "all_done items \<longleftrightarrow> done_count items = length items \<and> length items > 0"

section \<open>A new list\<close>

record lists_index =
  ix_name :: string
  ix_show :: bool
  ix_pending :: bool
  ix_sent :: "mutation list"

definition lists_start :: lists_index where
  "lists_start = \<lparr>ix_name = [], ix_show = False, ix_pending = False, ix_sent = []\<rparr>"

definition handle_create_list :: "lists_index \<Rightarrow> lists_index" where
  "handle_create_list s =
     (let nm = trim (ix_name s)
      in if nm = [] then s
         else s\<lparr>ix_pending := True, ix_sent := ix_sent s @ [use_create_list nm (Some ''todo'')]\<rparr>)"

definition list_created :: "bool \<Rightarrow> lists_index \<Rightarrow> lists_index" where
  "list_created ok s =
     (let s' = s\<lparr>ix_pending := False\<rparr> in if ok then s'\<lparr>ix_name := [], ix_show := False\<rparr> else s')"

definition close_new_list :: "lists_index \<Rightarrow> lists_index" where
  "close_new_list s = s\<lparr>ix_show := False, ix_name := []\<rparr>"

text \<open>
  The Create button is disabled while a request is under way, the Enter key is not. An answer names its
  request; only the callbacks of the last call count, as the query client has it.
\<close>

datatype lists_event = ShowNew | TypeName string | EnterKey | CreateButton | CloseNew | ListAnswer nat bool

fun lists_step :: "lists_event \<Rightarrow> lists_index \<Rightarrow> lists_index" where
  "lists_step ShowNew s = s\<lparr>ix_show := True\<rparr>"
| "lists_step (TypeName v) s = (if ix_show s then s\<lparr>ix_name := v\<rparr> else s)"
| "lists_step EnterKey s = (if ix_show s then handle_create_list s else s)"
| "lists_step CreateButton s = (if ix_show s \<and> \<not> ix_pending s then handle_create_list s else s)"
| "lists_step CloseNew s = (if ix_show s then close_new_list s else s)"
| "lists_step (ListAnswer n ok) s = (if ix_pending s \<and> Suc n = length (ix_sent s) then list_created ok s else s)"

section \<open>A list\<close>

definition toggle_list_item :: "family_list \<Rightarrow> list_item \<Rightarrow> mutation" where
  "toggle_list_item l i = use_toggle_list_item (fl_id l) (li_id i) (\<not> li_done i)"

definition add_item :: "family_list \<Rightarrow> string \<Rightarrow> mutation option" where
  "add_item l newText = (let txt = trim newText in if txt = [] then None else Some (use_add_list_item (fl_id l) txt))"

definition remove_list_item :: "family_list \<Rightarrow> string \<Rightarrow> mutation" where
  "remove_list_item l itemId = use_delete_list_item (fl_id l) itemId"

definition due_badge :: "list_item \<Rightarrow> string option" where
  "due_badge i = (if truthy (li_due i) \<and> \<not> li_done i then Some (drop 5 (the (li_due i))) else None)"

definition item_assignee :: "member list option \<Rightarrow> list_item \<Rightarrow> member option" where
  "item_assignee members i =
     (if truthy (li_assignee i)
      then find (\<lambda>m. mem_id m = the (li_assignee i)) (rev (case members of None \<Rightarrow> [] | Some ms \<Rightarrow> ms)) else None)"

section \<open>Lemmas\<close>

definition named_lists :: "lists_index \<Rightarrow> bool" where
  "named_lists s \<longleftrightarrow>
     (\<forall>m \<in> set (ix_sent s). \<exists>nm. nm \<noteq> [] \<and> trim nm = nm \<and> m = use_create_list nm (Some ''todo'')) \<and>
     (\<not> ix_show s \<longrightarrow> ix_name s = [])"

lemma create_named: "named_lists s \<Longrightarrow> ix_show s \<Longrightarrow> named_lists (handle_create_list s)"
  using trim_trim[of "ix_name s"] by (auto simp: named_lists_def handle_create_list_def Let_def)

lemma lists_step_named: "named_lists s \<Longrightarrow> named_lists (lists_step e s)"
proof (cases e)
  case (ListAnswer n ok)
  then show "named_lists s \<Longrightarrow> ?thesis" by (cases ok) (simp_all add: named_lists_def list_created_def Let_def)
qed (auto simp: create_named, auto simp: named_lists_def close_new_list_def)

interpretation lists: machine lists_step "\<lambda>_. True" named_lists
  by unfold_locales (rule lists_step_named)

lemma open_and_done: "length (filter (\<lambda>i. \<not> li_done i) items) + done_count items = length items"
  unfolding done_count_def by (induction items) auto

section \<open>Properties\<close>

text \<open>
  The card of a list: the finished share lies between zero and a hundred percent and reaches it exactly
  on a list that is not empty and all done; the preview is empty exactly when nothing is open. The number
  of further items counts the finished ones too: it exceeds the open items left out by those.
\<close>

theorem list_card_counts:
  "0 \<le> progress_pct items \<and> progress_pct items \<le> 100 \<and>
   (progress_pct items = 100 \<longleftrightarrow> all_done items) \<and>
   (preview_items items = [] \<longleftrightarrow> list_all li_done items) \<and>
   (more_items items = Some n \<longrightarrow>
      n = length (filter (\<lambda>i. \<not> li_done i) items) - length (preview_items items) + done_count items)"
proof (intro conjI)
  have le: "done_count items \<le> length items" by (simp add: done_count_def)
  show "0 \<le> progress_pct items" by (simp add: progress_pct_def)
  show "progress_pct items \<le> 100" using le by (simp add: progress_pct_def field_simps)
  show "progress_pct items = 100 \<longleftrightarrow> all_done items" by (auto simp: progress_pct_def all_done_def field_simps)
  show "preview_items items = [] \<longleftrightarrow> list_all li_done items"
    by (auto simp: preview_items_def filter_empty_conv list_all_iff)
  have "length (preview_items items) \<le> length (filter (\<lambda>i. \<not> li_done i) items)" by (simp add: preview_items_def)
  then show "more_items items = Some n \<longrightarrow>
      n = length (filter (\<lambda>i. \<not> li_done i) items) - length (preview_items items) + done_count items"
    using open_and_done[of items] by (auto simp: more_items_def Let_def split: if_splits)
qed

theorem list_card_counts_witness:
  "more_items [\<lparr>li_id = ''1'', li_text = ''a'', li_done = True, li_assignee = None, li_due = None\<rparr>,
     \<lparr>li_id = ''2'', li_text = ''b'', li_done = False, li_assignee = None, li_due = None\<rparr>] = Some 1"
proof -
  let ?items = "[\<lparr>li_id = ''1'', li_text = ''a'', li_done = True, li_assignee = None, li_due = None\<rparr>,
     \<lparr>li_id = ''2'', li_text = ''b'', li_done = False, li_assignee = None, li_due = None\<rparr>]"
  have "more_items ?items \<noteq> None" by (simp add: more_items_def preview_items_def)
  then obtain n where n: "more_items ?items = Some n" by auto
  with list_card_counts[of ?items n] show ?thesis by (simp add: preview_items_def done_count_def)
qed

text \<open>
  Whatever is typed and pressed, a new list is only ever created with a name that is neither empty nor
  padded, and a closed form forgets what was typed. Pressing Enter again before the answer creates the
  list a second time.
\<close>

theorem lists_have_names:
  "let s = run lists_step es lists_start in
    (\<forall>m \<in> set (ix_sent s). \<exists>nm. nm \<noteq> [] \<and> trim nm = nm \<and> m = use_create_list nm (Some ''todo'')) \<and>
    (\<not> ix_show s \<longrightarrow> ix_name s = []) \<and>
    (ix_show s \<and> trim (ix_name s) \<noteq> [] \<longrightarrow>
       length (ix_sent (run lists_step [EnterKey, EnterKey] s)) = length (ix_sent s) + 2)"
proof -
  have "named_lists (run lists_step es lists_start)"
    by (rule lists.run_inv) (simp_all add: named_lists_def lists_start_def list_all_iff)
  then show ?thesis by (auto simp: Let_def named_lists_def handle_create_list_def)
qed

theorem lists_have_names_witness:
  "length (ix_sent (run lists_step [ShowNew, TypeName ''Camping'', EnterKey, EnterKey] lists_start)) = 2"
proof -
  have "trim ''Camping'' \<noteq> []" by code_simp
  then show ?thesis
    using lists_have_names[of "[ShowNew, TypeName ''Camping'']"] by (simp add: lists_start_def Let_def)
qed

text \<open>
  A tap on an item sends the opposite of what is shown, to this item only, and every change of a list
  refetches both the list and the index.
\<close>

theorem list_changes_refresh:
  assumes "m = toggle_list_item l i \<or> m = remove_list_item l (li_id i) \<or> add_item l newText = Some m"
  shows "qk_list (fl_id l) \<in> set (mu_invalidates m) \<and> qk_lists \<in> set (mu_invalidates m)"
  using assms
  by (auto simp: toggle_list_item_def remove_list_item_def add_item_def Let_def use_toggle_list_item_def
      use_delete_list_item_def use_add_list_item_def split: if_splits)

theorem list_changes_refresh_witness:
  "qk_lists \<in> set (mu_invalidates (remove_list_item
     \<lparr>fl_id = ''l'', fl_title = ''Trip'', fl_category = ''packing'', fl_emoji = [], fl_items = []\<rparr> ''i''))"
  using list_changes_refresh[where l = "\<lparr>fl_id = ''l'', fl_title = ''Trip'', fl_category = ''packing'', fl_emoji = [], fl_items = []\<rparr>"
      and i = "\<lparr>li_id = ''i'', li_text = [], li_done = False, li_assignee = None, li_due = None\<rparr>" and newText = "[]"]
  by simp

end
