(* ===== verification/RoutineScreens.thy ===== *)
theory RoutineScreens
  imports ApiTypes HooksHome Machine
begin

text \<open>
  The routine screens of \<^verbatim>\<open>web/src/components/screens/routine.tsx\<close>: which state a screen shows, and the
  steps the child's screen marks in its own state while it sends completions.
\<close>

datatype 'a screen = ErrorScreen | LoadingScreen | EmptyScreen | Shown 'a

definition routine_kid_view ::
  "bool \<Rightarrow> bool \<Rightarrow> api_routine list option \<Rightarrow> member list option \<Rightarrow> (api_routine \<times> member) screen" where
  "routine_kid_view anyError anyPending routines members =
     (if anyError then ErrorScreen else if anyPending then LoadingScreen
      else (case routines of
          Some (r # _) \<Rightarrow>
            (case find (\<lambda>m. Some (mem_id m) = rt_member_id r) (case members of None \<Rightarrow> [] | Some ms \<Rightarrow> ms) of
               Some m \<Rightarrow> Shown (r, m) | None \<Rightarrow> EmptyScreen)
        | _ \<Rightarrow> EmptyScreen))"

text \<open>The checklist and the path take the routine they are given, else the first; an empty member id is none.\<close>

definition routine_list_view ::
  "bool \<Rightarrow> bool \<Rightarrow> api_routine option \<Rightarrow> api_routine list option \<Rightarrow> member list option \<Rightarrow>
   (api_routine \<times> member) screen" where
  "routine_list_view anyError anyPending given routines members =
     (let r = (case given of Some x \<Rightarrow> Some x | None \<Rightarrow> (case routines of Some (x # _) \<Rightarrow> Some x | _ \<Rightarrow> None));
          m = (case r of None \<Rightarrow> None | Some x \<Rightarrow>
                 if truthy (rt_member_id x)
                 then find (\<lambda>m. Some (mem_id m) = rt_member_id x) (case members of None \<Rightarrow> [] | Some ms \<Rightarrow> ms) else None)
      in if anyError then ErrorScreen else if anyPending then LoadingScreen
         else (case (r, m) of (Some x, Some y) \<Rightarrow> Shown (x, y) | _ \<Rightarrow> EmptyScreen))"

section \<open>Marking steps\<close>

record routine_kid =
  rk_done :: "string list"
  rk_last :: "string option"
  rk_sent :: "(string \<times> mutation) list"

definition routine_kid_start :: routine_kid where
  "routine_kid_start = \<lparr>rk_done = [], rk_last = None, rk_sent = []\<rparr>"

definition active_member_id :: "api_routine option \<Rightarrow> string" where
  "active_member_id r = (case Option.bind r rt_member_id of None \<Rightarrow> [] | Some i \<Rightarrow> i)"

text \<open>A render with another routine starts over.\<close>

definition reseed :: "api_routine option \<Rightarrow> routine_kid \<Rightarrow> routine_kid" where
  "reseed r s =
     (case r of
        Some x \<Rightarrow> (if rk_last s \<noteq> Some (rt_id x) then s\<lparr>rk_done := [], rk_last := Some (rt_id x)\<rparr> else s)
      | None \<Rightarrow> s)"

definition handle_tap_step :: "api_routine \<Rightarrow> string \<Rightarrow> routine_kid \<Rightarrow> routine_kid" where
  "handle_tap_step r stepId s =
     (let wasDone = stepId \<in> set (rk_done s); memberId = active_member_id (Some r);
          s' = s\<lparr>rk_done := (if wasDone then filter (\<lambda>i. i \<noteq> stepId) (rk_done s) else rk_done s @ [stepId])\<rparr>
      in if \<not> wasDone \<and> memberId \<noteq> []
         then s'\<lparr>rk_sent := rk_sent s @ [(stepId, use_mark_step_complete (rt_id r)
                [(''step_id'', JStr stepId), (''member_id'', JStr memberId)])]\<rparr>
         else s')"

definition routine_pct :: "api_routine \<Rightarrow> routine_kid \<Rightarrow> rat" where
  "routine_pct r s =
     (let total = length (rt_steps r) in if total > 0 then of_nat (length (rk_done s)) / of_nat total else 0)"

definition minutes_left :: "api_routine \<Rightarrow> routine_kid \<Rightarrow> rat" where
  "minutes_left r s =
     sum_list (map (\<lambda>x. case rs_est_minutes x of None \<Rightarrow> 0 | Some m \<Rightarrow> m)
       (filter (\<lambda>x. rs_id x \<notin> set (rk_done s)) (rt_steps r)))"

text \<open>The step highlighted as the current one.\<close>

definition is_active_step :: "api_routine \<Rightarrow> routine_kid \<Rightarrow> nat \<Rightarrow> bool" where
  "is_active_step r s idx \<longleftrightarrow>
     rs_id (rt_steps r ! idx) \<notin> set (rk_done s) \<and>
     (\<forall>j < idx. rs_id (rt_steps r ! j) \<in> set (rk_done s))"

definition pin_hint :: "member \<Rightarrow> string" where
  "pin_hint m = (if mem_role m = ''child'' then ''pinRequired'' else ''enterPassword'')"

section \<open>Lemmas\<close>

definition sent_for :: "string \<Rightarrow> routine_kid \<Rightarrow> nat" where
  "sent_for i s = length (filter (\<lambda>p. fst p = i) (rk_sent s))"

lemma tap_done:
  "set (rk_done (handle_tap_step r i s)) =
     (if i \<in> set (rk_done s) then set (rk_done s) - {i} else insert i (set (rk_done s)))"
  by (auto simp: handle_tap_step_def Let_def)

lemma tap_distinct: "distinct (rk_done s) \<Longrightarrow> distinct (rk_done (handle_tap_step r i s))"
  by (simp add: handle_tap_step_def Let_def)

lemma tap_sent:
  "active_member_id (Some r) \<noteq> [] \<Longrightarrow>
   sent_for k (handle_tap_step r i s) = sent_for k s + (if k = i \<and> i \<notin> set (rk_done s) then 1 else 0)"
  by (simp add: handle_tap_step_def Let_def sent_for_def)

lemma taps_distinct: "distinct (rk_done s) \<Longrightarrow> distinct (rk_done (run (handle_tap_step r) is s))"
  by (induction "is" arbitrary: s) (simp_all add: tap_distinct)

lemma taps_subset:
  "set (rk_done s) \<subseteq> I \<Longrightarrow> set is \<subseteq> I \<Longrightarrow> set (rk_done (run (handle_tap_step r) is s)) \<subseteq> I"
proof (induction "is" arbitrary: s)
  case (Cons i "is")
  then have "set (rk_done (handle_tap_step r i s)) \<subseteq> I" by (auto simp: tap_done)
  with Cons show ?case by simp
qed simp

lemma taps_parity:
  assumes "active_member_id (Some r) \<noteq> []"
  shows "(k \<in> set (rk_done (run (handle_tap_step r) is routine_kid_start)) \<longleftrightarrow> odd (count_list is k)) \<and>
    2 * sent_for k (run (handle_tap_step r) is routine_kid_start) = count_list is k + count_list is k mod 2"
proof (induction "is" rule: rev_induct)
  case Nil
  then show ?case by (simp add: routine_kid_start_def sent_for_def)
next
  case (snoc i xs)
  let ?s = "run (handle_tap_step r) xs routine_kid_start"
  show ?case
  proof (cases "k = i")
    case True
    with snoc show ?thesis
      by (cases "odd (count_list xs k)") (auto simp: tap_done tap_sent[OF assms] odd_iff_mod_2_eq_one even_iff_mod_2_eq_zero mod_Suc)
  next
    case False
    with snoc show ?thesis by (simp add: tap_done tap_sent[OF assms])
  qed
qed

section \<open>Properties\<close>

text \<open>
  A step is shown as done exactly after an odd number of taps, but what the server hears is the number
  of times it became done: taking the mark back sends nothing, and marking it again sends a second
  completion.
\<close>

theorem step_marks_and_requests:
  assumes "active_member_id (Some r) \<noteq> []"
  shows "let s = run (handle_tap_step r) taps routine_kid_start in
    (k \<in> set (rk_done s) \<longleftrightarrow> odd (count_list taps k)) \<and>
    sent_for k s = (count_list taps k + 1) div 2"
proof -
  have "2 * n = c + c mod 2 \<Longrightarrow> n = (c + 1) div 2" for n c :: nat by presburger
  then show ?thesis using taps_parity[OF assms, of k taps] by (simp only: Let_def)
qed

theorem step_marks_and_requests_witness:
  "let r = \<lparr>rt_id = ''r'', rt_household_id = ''h'', rt_name = ''Morning'', rt_member_id = Some ''emma'',
       rt_days_of_week = [], rt_time_slot = ''morning'', rt_archived = False, rt_sort_order = 0, rt_steps = [],
       rt_created_at = [], rt_updated_at = []\<rparr>
   in sent_for ''teeth'' (run (handle_tap_step r) [''teeth'', ''teeth''] routine_kid_start) = 1 \<and>
      ''teeth'' \<notin> set (rk_done (run (handle_tap_step r) [''teeth'', ''teeth''] routine_kid_start))"
proof -
  let ?r = "\<lparr>rt_id = ''r'', rt_household_id = ''h'', rt_name = ''Morning'', rt_member_id = Some ''emma'',
       rt_days_of_week = [], rt_time_slot = ''morning'', rt_archived = False, rt_sort_order = 0, rt_steps = [],
       rt_created_at = [], rt_updated_at = []\<rparr>"
  have "active_member_id (Some ?r) \<noteq> []" by (simp add: active_member_id_def)
  from step_marks_and_requests[OF this, where k = "''teeth''" and taps = "[''teeth'', ''teeth'']"] show ?thesis
    by (simp add: Let_def del: run_simps)
qed

text \<open>
  While only steps of the routine are tapped, the bar never passes the end, it is full exactly when no
  step is left, and then no minutes are left.
\<close>

theorem routine_progress_bounds:
  assumes "distinct (map rs_id (rt_steps r))" and "set taps \<subseteq> rs_id ` set (rt_steps r)" and "rt_steps r \<noteq> []"
  shows "let s = run (handle_tap_step r) taps routine_kid_start in
    0 \<le> routine_pct r s \<and> routine_pct r s \<le> 1 \<and>
    (routine_pct r s = 1 \<longleftrightarrow> (\<forall>x \<in> set (rt_steps r). rs_id x \<in> set (rk_done s))) \<and>
    (routine_pct r s = 1 \<longrightarrow> minutes_left r s = 0)"
proof -
  define s where "s = run (handle_tap_step r) taps routine_kid_start"
  let ?ids = "set (map rs_id (rt_steps r))"
  have d: "distinct (rk_done s)" unfolding s_def by (rule taps_distinct) (simp add: routine_kid_start_def)
  have sub: "set (rk_done s) \<subseteq> ?ids" unfolding s_def
    by (rule taps_subset) (use assms(2) in \<open>simp_all add: routine_kid_start_def\<close>)
  have n: "card ?ids = length (rt_steps r)" using distinct_card[OF assms(1)] by simp
  have le: "length (rk_done s) \<le> length (rt_steps r)"
    using card_mono[OF _ sub] distinct_card[OF d] n by simp
  have full: "length (rk_done s) = length (rt_steps r) \<longleftrightarrow> ?ids \<subseteq> set (rk_done s)"
  proof
    assume "length (rk_done s) = length (rt_steps r)"
    then show "?ids \<subseteq> set (rk_done s)" using card_subset_eq[OF _ sub] distinct_card[OF d] n by simp
  next
    assume "?ids \<subseteq> set (rk_done s)"
    then show "length (rk_done s) = length (rt_steps r)" using sub distinct_card[OF d] n by (metis subset_antisym)
  qed
  have pct: "routine_pct r s = of_nat (length (rk_done s)) / of_nat (length (rt_steps r))"
    using assms(3) by (simp add: routine_pct_def)
  have one: "routine_pct r s = 1 \<longleftrightarrow> length (rk_done s) = length (rt_steps r)"
    using assms(3) by (auto simp: pct)
  have all: "routine_pct r s = 1 \<longleftrightarrow> (\<forall>x \<in> set (rt_steps r). rs_id x \<in> set (rk_done s))"
    using one full by auto
  have "minutes_left r s = 0" if "\<forall>x \<in> set (rt_steps r). rs_id x \<in> set (rk_done s)"
    using that by (simp add: minutes_left_def filter_False)
  then have "routine_pct r s = 1 \<longrightarrow> minutes_left r s = 0" using all by blast
  moreover have "0 \<le> routine_pct r s \<and> routine_pct r s \<le> 1" using le assms(3) by (simp add: pct)
  ultimately show ?thesis using all unfolding s_def[symmetric] Let_def by blast
qed

theorem routine_progress_bounds_witness:
  "let st = \<lparr>rs_id = ''teeth'', rs_routine_id = ''r'', rs_name = ''Brush teeth'', rs_est_minutes = Some 3,
       rs_sort_order = 0, rs_icon = None, rs_created_at = [], rs_updated_at = []\<rparr>;
     r = \<lparr>rt_id = ''r'', rt_household_id = ''h'', rt_name = ''Morning'', rt_member_id = Some ''emma'',
       rt_days_of_week = [], rt_time_slot = ''morning'', rt_archived = False, rt_sort_order = 0, rt_steps = [st],
       rt_created_at = [], rt_updated_at = []\<rparr>
   in routine_pct r (run (handle_tap_step r) [''teeth''] routine_kid_start) \<le> 1"
proof -
  let ?st = "\<lparr>rs_id = ''teeth'', rs_routine_id = ''r'', rs_name = ''Brush teeth'', rs_est_minutes = Some 3,
       rs_sort_order = 0, rs_icon = None, rs_created_at = [], rs_updated_at = []\<rparr>"
  let ?r = "\<lparr>rt_id = ''r'', rt_household_id = ''h'', rt_name = ''Morning'', rt_member_id = Some ''emma'',
       rt_days_of_week = [], rt_time_slot = ''morning'', rt_archived = False, rt_sort_order = 0, rt_steps = [?st],
       rt_created_at = [], rt_updated_at = []\<rparr>"
  show ?thesis using routine_progress_bounds[of ?r "[''teeth'']"] by (simp add: Let_def del: run_simps)
qed

end
