(* ===== verification/Collections.thy ===== *)
theory Collections
  imports HooksHome Machine
begin

text \<open>
  The collections of recipes, \<^verbatim>\<open>web/src/components/screens/recipe-collections.tsx\<close> and
  \<^verbatim>\<open>recipes-with-collections.tsx\<close>: the dialog for a new collection, the menu that puts a recipe into
  collections, and the selection on the page.
\<close>

section \<open>A new collection\<close>

record create_collection =
  cr_name :: string
  cr_error :: string
  cr_open :: bool

definition type_collection_name :: "string \<Rightarrow> create_collection \<Rightarrow> create_collection" where
  "type_collection_name v s = s\<lparr>cr_name := v, cr_error := []\<rparr>"

definition submit_collection :: "create_collection \<Rightarrow> create_collection \<times> mutation option" where
  "submit_collection s =
     (if trim (cr_name s) = [] then (s\<lparr>cr_error := ''Name is required''\<rparr>, None)
      else (s, Some (use_create_collection [(''name'', JStr (trim (cr_name s)))])))"

definition collection_answered :: "bool \<Rightarrow> create_collection \<Rightarrow> create_collection" where
  "collection_answered ok s =
     (if ok then s\<lparr>cr_open := False\<rparr> else s\<lparr>cr_error := ''Failed to create collection''\<rparr>)"

section \<open>The menu of a recipe\<close>

datatype col_op = Assign string | Unassign string

fun op_col :: "col_op \<Rightarrow> string" where
  "op_col (Assign c) = c"
| "op_col (Unassign c) = c"

text \<open>
  The menu knows which collections it has seen assigned, the button that waits, and the requests under
  way, each with the mark whether it is the last one of its mutation. The last field is what the server
  holds: the collections that contain the recipe.
\<close>

record add_menu =
  am_assigned :: "string set"
  am_busy :: "string option"
  am_inflight :: "(col_op \<times> bool) list"
  am_server :: "string set"

definition open_menu :: "string set \<Rightarrow> add_menu" where
  "open_menu stored = \<lparr>am_assigned = {}, am_busy = None, am_inflight = [], am_server = stored\<rparr>"

definition same_hook :: "col_op \<Rightarrow> col_op \<Rightarrow> bool" where
  "same_hook a b = (case (a, b) of (Assign _, Assign _) \<Rightarrow> True | (Unassign _, Unassign _) \<Rightarrow> True | _ \<Rightarrow> False)"

text \<open>A further call of the same mutation takes the callbacks from the one before, as the query client does.\<close>

definition toggle_col :: "string \<Rightarrow> add_menu \<Rightarrow> add_menu" where
  "toggle_col c s =
     (let op = (if c \<in> am_assigned s then Unassign c else Assign c)
      in s\<lparr>am_busy := Some c,
           am_inflight := map (\<lambda>(x, live). (x, live \<and> \<not> same_hook op x)) (am_inflight s) @ [(op, True)]\<rparr>)"

definition op_request :: "string \<Rightarrow> col_op \<Rightarrow> mutation" where
  "op_request recipeId op =
     (case op of Assign c \<Rightarrow> use_assign_recipe_to_collection c recipeId None
      | Unassign c \<Rightarrow> use_remove_recipe_from_collection c recipeId)"

fun apply_op :: "col_op \<Rightarrow> string set \<Rightarrow> string set" where
  "apply_op (Assign c) S = insert c S"
| "apply_op (Unassign c) S = S - {c}"

text \<open>An answer to one of the requests under way: the server has done it, the menu if its callbacks still count.\<close>

definition col_answer :: "nat \<Rightarrow> bool \<Rightarrow> add_menu \<Rightarrow> add_menu" where
  "col_answer i ok s =
     (if i < length (am_inflight s) then
        (let (op, live) = am_inflight s ! i;
             rest = take i (am_inflight s) @ drop (Suc i) (am_inflight s)
         in s\<lparr>am_busy := (if live then None else am_busy s), am_inflight := rest,
              am_assigned := (if ok \<and> live then apply_op op (am_assigned s) else am_assigned s),
              am_server := (if ok then apply_op op (am_server s) else am_server s)\<rparr>)
      else s)"

datatype menu_event = TapCollection string | ColAnswer nat bool

fun menu_step :: "menu_event \<Rightarrow> add_menu \<Rightarrow> add_menu" where
  "menu_step (TapCollection c) s = (if am_busy s = Some c then s else toggle_col c s)"
| "menu_step (ColAnswer i ok) s = col_answer i ok s"

section \<open>The page\<close>

record collections_page =
  cp_selected :: "string option"
  cp_menu :: "string option"

definition select_collection :: "string option \<Rightarrow> collections_page \<Rightarrow> collections_page" where
  "select_collection i s = s\<lparr>cp_selected := i, cp_menu := None\<rparr>"

definition press_menu :: "string \<Rightarrow> collections_page \<Rightarrow> collections_page" where
  "press_menu recipeId s = s\<lparr>cp_menu := (if cp_menu s = Some recipeId then None else Some recipeId)\<rparr>"

definition delete_collection :: "string \<Rightarrow> mutation" where
  "delete_collection i = use_delete_collection i"

section \<open>Lemmas\<close>

definition taps_in :: "string set \<Rightarrow> menu_event \<Rightarrow> bool" where
  "taps_in T e = (case e of TapCollection c \<Rightarrow> c \<in> T | _ \<Rightarrow> True)"

definition removal :: "col_op \<Rightarrow> bool" where
  "removal op = (case op of Unassign _ \<Rightarrow> True | _ \<Rightarrow> False)"

text \<open>A run in which no ticked collection is tapped while another removal is under way.\<close>

fun one_removal :: "menu_event list \<Rightarrow> add_menu \<Rightarrow> bool" where
  "one_removal [] s = True"
| "one_removal (e # es) s =
     ((case e of
         TapCollection c \<Rightarrow> c \<in> am_assigned s \<longrightarrow> am_busy s = Some c \<or> (\<forall>p \<in> set (am_inflight s). \<not> removal (fst p))
       | _ \<Rightarrow> True) \<and>
      one_removal es (menu_step e s))"

definition menu_ok :: "string set \<Rightarrow> string set \<Rightarrow> add_menu \<Rightarrow> bool" where
  "menu_ok stored T s \<longleftrightarrow>
     am_assigned s \<subseteq> am_server s \<and> am_server s - T = stored - T \<and> am_assigned s \<subseteq> T \<and>
     (\<forall>p \<in> set (am_inflight s). op_col (fst p) \<in> T \<and> (removal (fst p) \<longrightarrow> snd p))"

lemma apply_op_sets:
  "A \<subseteq> B \<Longrightarrow> apply_op op A \<subseteq> apply_op op B"
  "A \<subseteq> B \<Longrightarrow> \<not> removal op \<Longrightarrow> A \<subseteq> apply_op op B"
  "op_col op \<in> T \<Longrightarrow> apply_op op B - T = B - T"
  "op_col op \<in> T \<Longrightarrow> A \<subseteq> T \<Longrightarrow> apply_op op A \<subseteq> T"
  by (cases op; auto simp: removal_def)+

lemma tap_ok:
  assumes "menu_ok stored T s" and "c \<in> T"
    and "c \<in> am_assigned s \<longrightarrow> (\<forall>p \<in> set (am_inflight s). \<not> removal (fst p))"
  shows "menu_ok stored T (toggle_col c s)"
  using assms by (auto simp: menu_ok_def toggle_col_def Let_def same_hook_def removal_def split: col_op.splits)

lemma col_answer_ok:
  assumes "menu_ok stored T s"
  shows "menu_ok stored T (col_answer i ok s)"
proof (cases "i < length (am_inflight s)")
  case True
  obtain op live where p: "am_inflight s ! i = (op, live)" by fastforce
  then have op: "op_col op \<in> T" "removal op \<longrightarrow> live" using assms nth_mem[OF True] by (auto simp: menu_ok_def)
  have rest: "set (take i (am_inflight s) @ drop (Suc i) (am_inflight s)) \<subseteq> set (am_inflight s)"
    using set_take_subset[of i "am_inflight s"] set_drop_subset[of "Suc i" "am_inflight s"] by auto
  have a: "am_assigned s \<subseteq> am_server s" "am_server s - T = stored - T" "am_assigned s \<subseteq> T"
    using assms by (simp_all add: menu_ok_def)
  have sets: "apply_op op (am_assigned s) \<subseteq> apply_op op (am_server s)" "apply_op op (am_server s) - T = stored - T"
    "apply_op op (am_assigned s) \<subseteq> T" "\<not> live \<Longrightarrow> am_assigned s \<subseteq> apply_op op (am_server s)"
    using apply_op_sets(1)[OF a(1)] apply_op_sets(3)[OF op(1)] apply_op_sets(4)[OF op(1) a(3)]
      apply_op_sets(2)[OF a(1), of op] op(2) a(2) by auto
  have fl: "\<forall>p \<in> set (take i (am_inflight s) @ drop (Suc i) (am_inflight s)). op_col (fst p) \<in> T \<and> (removal (fst p) \<longrightarrow> snd p)"
    using assms rest unfolding menu_ok_def by blast
  show ?thesis
    using True a sets fl by (simp add: col_answer_def p menu_ok_def del: set_append)
qed (use assms in \<open>simp add: col_answer_def\<close>)

lemma run_menu_ok:
  assumes "menu_ok stored T s" and "list_all (taps_in T) es" and "one_removal es s"
  shows "menu_ok stored T (run menu_step es s)"
  using assms
proof (induction es arbitrary: s)
  case (Cons e es)
  have "menu_ok stored T (menu_step e s)"
    using Cons.prems tap_ok[of stored T s] col_answer_ok[of stored T s] by (cases e) (auto simp: taps_in_def)
  with Cons show ?case by simp
qed simp

section \<open>Properties\<close>



text \<open>
  When two removals overlap the first one goes unnoticed: the recipe has left the collection on the
  server, and the menu still shows the tick.
\<close>

theorem overlapping_removals_lie:
  "let s = run menu_step [TapCollection ''a'', ColAnswer 0 True, TapCollection ''b'', ColAnswer 0 True,
      TapCollection ''a'', TapCollection ''b'', ColAnswer 0 True, ColAnswer 0 True] (open_menu {})
   in am_assigned s = {''a''} \<and> am_server s = {} \<and> am_inflight s = []"
  by (auto simp: Let_def open_menu_def toggle_col_def col_answer_def same_hook_def)

text \<open>
  A collection is created only with a name that is neither empty nor padded; a refused or failed attempt
  leaves the dialog open with its reason, and typing takes the reason away.
\<close>

theorem collection_dialog:
  "(case submit_collection s of
      (s', None) \<Rightarrow> cr_error s' \<noteq> [] \<and> cr_open s' = cr_open s \<and> trim (cr_name s) = []
    | (s', Some m) \<Rightarrow> s' = s \<and> trim (cr_name s) \<noteq> [] \<and>
        m = use_create_collection [(''name'', JStr (trim (cr_name s)))]) \<and>
   cr_open (collection_answered ok s) = (cr_open s \<and> \<not> ok) \<and>
   cr_error (type_collection_name v (collection_answered ok s)) = []"
  by (simp add: submit_collection_def collection_answered_def type_collection_name_def)

end
