(* ===== verification/ErrorReports.thy ===== *)
theory ErrorReports
  imports Http UrlCodec Machine
begin

text \<open>
  How failures reach the user: the description and the report button of
  \<^verbatim>\<open>web/src/components/ui/error-alert.tsx\<close>, the health of the server in \<^verbatim>\<open>web/src/lib/api/health.ts\<close>,
  and the panel of \<^verbatim>\<open>web/src/components/ui/system-status.tsx\<close>.
\<close>

section \<open>Describing what was thrown\<close>

text \<open>Anything can be thrown: an instance of \<^verbatim>\<open>Error\<close>, or a plain value.\<close>

datatype thrown = ThrownError string string "string option" | ThrownValue jsval

definition is_str :: "jsval \<Rightarrow> bool" where "is_str v = (case v of JStr _ \<Rightarrow> True | _ \<Rightarrow> False)"
definition is_num :: "jsval \<Rightarrow> bool" where "is_num v = (case v of JNum _ \<Rightarrow> True | _ \<Rightarrow> False)"

definition is_api_error :: "thrown \<Rightarrow> bool" where
  "is_api_error e =
     (case e of
        ThrownValue (JObj r) \<Rightarrow>
          is_str (jget r ''code'') \<and> is_str (jget r ''message'') \<and> is_num (jget r ''status'') \<and>
          is_str (jget r ''url'') \<and> is_str (jget r ''method'')
      | _ \<Rightarrow> False)"

record described =
  dc_status :: jsval
  dc_code :: jsval
  dc_message :: string
  dc_request_id :: jsval
  dc_url :: jsval
  dc_method :: jsval
  dc_stack :: jsval
  dc_payload :: jsval

definition bare :: "string \<Rightarrow> jsval \<Rightarrow> described" where
  "bare msg payload =
     \<lparr>dc_status = JUndef, dc_code = JUndef, dc_message = msg, dc_request_id = JUndef, dc_url = JUndef,
      dc_method = JUndef, dc_stack = JUndef, dc_payload = payload\<rparr>"

definition str_of :: "jsval \<Rightarrow> string" where
  "str_of v = (case v of JStr s \<Rightarrow> s | _ \<Rightarrow> [])"

definition message_payload :: "string \<Rightarrow> jsval" where
  "message_payload msg = JObj [(''message'', JStr msg)]"

definition describe :: "thrown \<Rightarrow> described" where
  "describe e =
     (case e of
        ThrownError nm msg stack \<Rightarrow>
          (bare (if msg \<noteq> [] then msg else if nm \<noteq> [] then nm else ''Error'')
             (JObj [(''name'', JStr nm), (''message'', JStr msg), (''stack'', opt_str stack)]))
          \<lparr>dc_stack := opt_str stack\<rparr>
      | ThrownValue (JStr s) \<Rightarrow> bare s (message_payload s)
      | ThrownValue JNull \<Rightarrow> bare ''Unknown error'' (message_payload ''Unknown error'')
      | ThrownValue JUndef \<Rightarrow> bare ''Unknown error'' (message_payload ''Unknown error'')
      | ThrownValue (JObj r) \<Rightarrow>
          (if is_api_error e then
             \<lparr>dc_status = jget r ''status'', dc_code = jget r ''code'', dc_message = str_of (jget r ''message''),
              dc_request_id = jget r ''requestId'', dc_url = jget r ''url'', dc_method = jget r ''method'',
              dc_stack = jget r ''stack'', dc_payload = JObj r\<rparr>
           else bare (if is_str (jget r ''message'') then str_of (jget r ''message'') else ''Unknown error'') (JObj r))
      | ThrownValue v \<Rightarrow> bare ''Unknown error'' v)"

section \<open>The issue page\<close>

definition github_new_issue_url :: string where
  "github_new_issue_url = ''https://github.com/codingsandmore/tidyboard/issues/new''"

definition issue_title :: "described \<Rightarrow> string" where
  "issue_title d =
     take 200 (''[bug] '' @ (if str_of (dc_code d) \<noteq> [] then str_of (dc_code d) @ '': '' else []) @ dc_message d)"

definition issue_body :: "string \<Rightarrow> string \<Rightarrow> string \<Rightarrow> string \<Rightarrow> string" where
  "issue_body fullJson page memberName userAgent =
     join [CHR 0x0A] [''**Auto-filled by ErrorAlert because /v1/bug-reports was unreachable.**'', [], ''### Error'',
       ''```json'', fullJson, ''```'', [], ''**Page:** '' @ page,
       ''**Member:** '' @ (if memberName \<noteq> [] then memberName else ''(none)''), ''**User-Agent:** '' @ userAgent]"

definition fallback_issue :: "described \<Rightarrow> string \<Rightarrow> string \<Rightarrow> string \<Rightarrow> string \<Rightarrow> string" where
  "fallback_issue d fullJson page memberName userAgent =
     github_new_issue_url @ ''?title='' @ encode_uri_component (issue_title d) @
     ''&body='' @ encode_uri_component (issue_body fullJson page memberName userAgent)"

section \<open>The report button\<close>

definition report_cooldown_ms :: int where "report_cooldown_ms = 60000"

datatype report_toast = Reported int string | NotReported string

text \<open>The instants of the reports sent and the number of issue pages opened are kept for the proofs.\<close>

record reporter =
  ra_now :: int
  ra_disabled :: bool
  ra_timer :: "int option"
  ra_inflight :: bool
  ra_toast :: "report_toast option"
  ra_posts :: "int list"
  ra_opened :: nat

definition mount_reporter :: "int \<Rightarrow> reporter" where
  "mount_reporter now =
     \<lparr>ra_now = now, ra_disabled = False, ra_timer = None, ra_inflight = False, ra_toast = None, ra_posts = [],
      ra_opened = 0\<rparr>"

definition start_cooldown :: "reporter \<Rightarrow> reporter" where
  "start_cooldown s = s\<lparr>ra_disabled := True, ra_timer := Some (ra_now s + report_cooldown_ms)\<rparr>"

definition handle_report :: "reporter \<Rightarrow> reporter" where
  "handle_report s =
     (if ra_disabled s \<or> ra_inflight s then s
      else start_cooldown (s\<lparr>ra_inflight := True, ra_posts := ra_posts s @ [ra_now s]\<rparr>))"

definition report_answered :: "report_toast \<Rightarrow> reporter \<Rightarrow> reporter" where
  "report_answered r s =
     s\<lparr>ra_toast := Some r, ra_inflight := False,
       ra_opened := (case r of NotReported _ \<Rightarrow> Suc (ra_opened s) | _ \<Rightarrow> ra_opened s)\<rparr>"

definition cooldown_over :: "reporter \<Rightarrow> reporter" where
  "cooldown_over s = s\<lparr>ra_disabled := False, ra_timer := None\<rparr>"

datatype report_event = PressReport | ReportAnswer report_toast | TimePasses nat

fun report_step :: "report_event \<Rightarrow> reporter \<Rightarrow> reporter" where
  "report_step PressReport s = handle_report s"
| "report_step (ReportAnswer r) s = (if ra_inflight s then report_answered r s else s)"
| "report_step (TimePasses d) s =
     (let s' = s\<lparr>ra_now := ra_now s + int d\<rparr>
      in case ra_timer s of None \<Rightarrow> s' | Some t \<Rightarrow> if t \<le> ra_now s' then cooldown_over s' else s')"

section \<open>Health\<close>

datatype system_status = Healthy | Degraded | Down | UnknownStatus

text \<open>What a query has: its last data, and whether its last attempt failed.\<close>

record 'a probe_result =
  pr_data :: "'a option"
  pr_error :: bool

definition fetch_health :: "http_response \<Rightarrow> jsval option" where
  "fetch_health res = (if resp_ok res then resp_json res else None)"

definition fetch_ready :: "http_response \<Rightarrow> jsval option" where
  "fetch_ready res = (if rs_status res \<noteq> 200 \<and> rs_status res \<noteq> 503 then None else resp_json res)"

definition health_status :: "jsval probe_result \<Rightarrow> jsval probe_result \<Rightarrow> system_status" where
  "health_status health ready =
     (if pr_error health then Down
      else if pr_data health = None then UnknownStatus
      else if pr_error ready \<or>
              (case pr_data ready of Some v \<Rightarrow> opt_prop v ''status'' = JStr ''degraded'' | None \<Rightarrow> False) then Degraded
      else Healthy)"

text \<open>A line of the panel is red when its check is listed as failed or its value is not \<open>ok\<close>.\<close>

definition check_failed :: "string list \<Rightarrow> string \<times> string \<Rightarrow> bool" where
  "check_failed failures c \<longleftrightarrow> fst c \<in> set failures \<or> snd c \<noteq> ''ok''"

definition status_label :: "system_status \<Rightarrow> string" where
  "status_label s =
     (case s of Healthy \<Rightarrow> ''Systems normal'' | Degraded \<Rightarrow> ''Service degraded'' | Down \<Rightarrow> ''Backend unreachable''
      | UnknownStatus \<Rightarrow> ''Checking'' @ [CHR 0xE2, CHR 0x80, CHR 0xA6])"

section \<open>Lemmas\<close>

fun spaced :: "int \<Rightarrow> int list \<Rightarrow> bool" where
  "spaced d (a # b # xs) = (a + d \<le> b \<and> spaced d (b # xs))"
| "spaced d xs = True"

lemma spaced_snoc: "spaced d (xs @ [x]) \<longleftrightarrow> spaced d xs \<and> (xs \<noteq> [] \<longrightarrow> last xs + d \<le> x)"
  by (induction d xs rule: spaced.induct) auto

definition reporter_ok :: "reporter \<Rightarrow> bool" where
  "reporter_ok s \<longleftrightarrow>
     spaced 60000 (ra_posts s) \<and> (ra_disabled s \<longleftrightarrow> ra_timer s \<noteq> None) \<and>
     (\<forall>t. ra_timer s = Some t \<longrightarrow> ra_now s < t \<and> t \<le> ra_now s + 60000) \<and>
     (ra_posts s \<noteq> [] \<longrightarrow> last (ra_posts s) \<le> ra_now s \<and> (ra_timer s = None \<longrightarrow> last (ra_posts s) + 60000 \<le> ra_now s) \<and>
        (\<forall>t. ra_timer s = Some t \<longrightarrow> t = last (ra_posts s) + 60000))"

lemma report_step_ok: "reporter_ok s \<Longrightarrow> reporter_ok (report_step e s)"
proof (cases e)
  case PressReport
  then show "reporter_ok s \<Longrightarrow> ?thesis"
    by (auto simp: reporter_ok_def handle_report_def start_cooldown_def report_cooldown_ms_def spaced_snoc)
next
  case (ReportAnswer r)
  then show "reporter_ok s \<Longrightarrow> ?thesis" by (simp add: reporter_ok_def report_answered_def)
next
  case (TimePasses d)
  then show "reporter_ok s \<Longrightarrow> ?thesis"
    by (cases "ra_timer s") (auto simp: reporter_ok_def cooldown_over_def Let_def)
qed

interpretation reports: machine report_step "\<lambda>_. True" reporter_ok
  by unfold_locales (rule report_step_ok)

lemma mount_reporter_ok: "reporter_ok (mount_reporter now)"
  by (simp add: reporter_ok_def mount_reporter_def)

section \<open>Properties\<close>

text \<open>
  C36. Reports are rate limited: whatever is pressed and however long the answers take, two reports of an
  alert are at least a minute apart. The button is never stuck: once the request is answered, it works
  again after at most a minute.
\<close>

theorem reports_spaced:
  "let s = run report_step es (mount_reporter now) in
    spaced report_cooldown_ms (ra_posts s) \<and>
    \<not> ra_disabled (report_step (TimePasses 60000) s) \<and>
    (\<not> ra_inflight s \<longrightarrow> length (ra_posts (run report_step [TimePasses 60000, PressReport] s)) = length (ra_posts s) + 1)"
proof -
  define s where "s = run report_step es (mount_reporter now)"
  have ok: "reporter_ok s" unfolding s_def by (rule reports.run_inv[OF mount_reporter_ok]) (simp add: list_all_iff)
  have d: "\<not> ra_disabled (report_step (TimePasses 60000) s)"
    using ok by (cases "ra_timer s") (auto simp: reporter_ok_def cooldown_over_def Let_def)
  moreover have "ra_posts (report_step (TimePasses 60000) s) = ra_posts s"
    "ra_inflight (report_step (TimePasses 60000) s) = ra_inflight s"
    by (simp_all add: Let_def cooldown_over_def split: option.splits)
  ultimately have "length (ra_posts (run report_step [TimePasses 60000, PressReport] s)) = length (ra_posts s) + 1"
    if "\<not> ra_inflight s" using that by (simp add: handle_report_def start_cooldown_def)
  with d ok show ?thesis unfolding s_def[symmetric] Let_def by (simp add: reporter_ok_def report_cooldown_ms_def)
qed

theorem reports_spaced_witness:
  "spaced report_cooldown_ms (ra_posts (run report_step
     [PressReport, ReportAnswer (NotReported ''offline''), PressReport, TimePasses 60000, PressReport] (mount_reporter 0)))"
  using reports_spaced[of "[PressReport, ReportAnswer (NotReported ''offline''), PressReport, TimePasses 60000, PressReport]" 0]
  unfolding Let_def by (rule conjunct1)

text \<open>
  The state of the system by its two probes: unreachable exactly when the health probe failed, normal
  only after it answered; the readiness probe can only lower it, and while it has not answered yet the
  system already counts as normal. An answer 503 to the readiness probe is data, not a failure.
\<close>

theorem health_status_cases:
  "(health_status h r = Down \<longleftrightarrow> pr_error h) \<and>
   (health_status h r = UnknownStatus \<longleftrightarrow> \<not> pr_error h \<and> pr_data h = None) \<and>
   (health_status h r = Degraded \<longleftrightarrow> \<not> pr_error h \<and> pr_data h \<noteq> None \<and>
      (pr_error r \<or> (\<exists>v. pr_data r = Some v \<and> opt_prop v ''status'' = JStr ''degraded''))) \<and>
   health_status \<lparr>pr_data = Some hv, pr_error = False\<rparr> \<lparr>pr_data = None, pr_error = False\<rparr> = Healthy \<and>
   (\<forall>res. rs_status res = 503 \<longrightarrow> fetch_health res = None \<and> fetch_ready res = resp_json res)"
  by (auto simp: health_status_def fetch_health_def fetch_ready_def resp_ok_def split: option.splits)

theorem health_status_cases_witness:
  "fetch_ready \<lparr>rs_status = 503, rs_status_text = [], rs_headers = [], rs_body = ''null''\<rparr> = Some JNull"
proof -
  have "resp_json \<lparr>rs_status = 503, rs_status_text = [], rs_headers = [], rs_body = ''null''\<rparr> = Some JNull"
    by code_simp
  then show ?thesis using health_status_cases by simp
qed

text \<open>
  Every thrown value is described by a message: an error of the API by its own fields and whole payload,
  an \<^verbatim>\<open>Error\<close> by its message, name or a default that is never empty, anything else by what it says or as
  unknown.
\<close>

theorem describe_cases:
  "(is_api_error (ThrownValue (JObj r)) \<longrightarrow>
      JStr (dc_message (describe (ThrownValue (JObj r)))) = jget r ''message'' \<and>
      dc_status (describe (ThrownValue (JObj r))) = jget r ''status'' \<and>
      dc_payload (describe (ThrownValue (JObj r))) = JObj r) \<and>
   dc_message (describe (ThrownError nm msg stack)) \<noteq> [] \<and>
   (dc_status (describe e) \<noteq> JUndef \<longrightarrow> is_api_error e)"
proof (intro conjI)
  show "is_api_error (ThrownValue (JObj r)) \<longrightarrow>
      JStr (dc_message (describe (ThrownValue (JObj r)))) = jget r ''message'' \<and>
      dc_status (describe (ThrownValue (JObj r))) = jget r ''status'' \<and>
      dc_payload (describe (ThrownValue (JObj r))) = JObj r"
    by (auto simp: describe_def is_api_error_def is_str_def str_of_def split: jsval.splits)
  show "dc_message (describe (ThrownError nm msg stack)) \<noteq> []" by (simp add: describe_def bare_def)
  show "dc_status (describe e) \<noteq> JUndef \<longrightarrow> is_api_error e"
    by (auto simp: describe_def bare_def split: thrown.splits jsval.splits if_splits)
qed

theorem describe_cases_witness:
  "dc_message (describe (ThrownValue (JObj [(''code'', JStr ''E''), (''message'', JStr ''boom''),
     (''status'', JNum 500), (''url'', JStr ''/v1''), (''method'', JStr ''GET'')]))) = ''boom''"
proof -
  let ?r = "[(''code'', JStr ''E''), (''message'', JStr ''boom''),
     (''status'', JNum 500), (''url'', JStr ''/v1''), (''method'', JStr ''GET'')]"
  have "is_api_error (ThrownValue (JObj ?r))" by (simp add: is_api_error_def jget_def is_str_def is_num_def)
  with describe_cases[of ?r "[]" "[]" None "ThrownValue JNull"] show ?thesis by (simp add: jget_def)
qed

end
