(* ===== verification/RecipeForms.thy ===== *)
theory RecipeForms
  imports HooksHome JsNumber Machine
begin

text \<open>
  The forms around recipes: the edit popover of a planned meal
  (\<^verbatim>\<open>web/src/components/meal-plan/EditEntryPopover.tsx\<close>), the review of a smart import
  (\<^verbatim>\<open>components/recipes/SmartImportReview.tsx\<close>), and the import by address with its polling
  (\<^verbatim>\<open>RecipeImport\<close> in \<^verbatim>\<open>components/screens/recipes.tsx\<close>, \<^verbatim>\<open>ImportStatusPanel.tsx\<close> and the hooks).
\<close>

section \<open>The edit popover\<close>

record edit_entry =
  ee_multiplier :: string
  ee_batch :: string
  ee_leftovers :: string

definition open_edit_entry :: "rat option \<Rightarrow> rat option \<Rightarrow> rat option \<Rightarrow> edit_entry" where
  "open_edit_entry multiplier batch leftovers =
     \<lparr>ee_multiplier = num_str (case multiplier of None \<Rightarrow> 1 | Some m \<Rightarrow> m),
      ee_batch = num_str (case batch of None \<Rightarrow> 1 | Some b \<Rightarrow> b),
      ee_leftovers = num_str (case leftovers of None \<Rightarrow> 0 | Some l \<Rightarrow> l)\<rparr>"

definition positive_or :: "rat \<Rightarrow> jnum \<Rightarrow> rat" where
  "positive_or d n = (case n of Fin x \<Rightarrow> if x > 0 then x else d | _ \<Rightarrow> d)"

text \<open>The three values of \<^verbatim>\<open>onSave\<close>: multiplier, batches, leftovers.\<close>

definition edit_entry_values :: "edit_entry \<Rightarrow> rat \<times> rat \<times> rat" where
  "edit_entry_values s =
     (positive_or 1 (parse_float (ee_multiplier s)), positive_or 1 (parse_int (ee_batch s)),
      (case parse_int (ee_leftovers s) of Fin x \<Rightarrow> if x \<ge> 0 then x else 0 | _ \<Rightarrow> 0))"

section \<open>The review of a draft\<close>

record import_draft =
  sd_title :: string
  sd_description :: "string option"
  sd_tags :: "string list option"
  sd_categories :: "string list option"
  sd_difficulty :: "string option"
  sd_rest :: jsobj

definition csv_to_list :: "string \<Rightarrow> string list" where
  "csv_to_list s = filter (\<lambda>x. x \<noteq> []) (map trim (split_on (CHR '','') s))"

record import_review =
  ir_start :: import_draft
  ir_title :: string
  ir_description :: string
  ir_tags_csv :: string
  ir_categories_csv :: string
  ir_difficulty :: string

definition field_or_empty :: "'a list option \<Rightarrow> 'a list" where
  "field_or_empty x = (case x of None \<Rightarrow> [] | Some xs \<Rightarrow> xs)"

definition open_review :: "import_draft \<Rightarrow> import_draft option \<Rightarrow> import_review" where
  "open_review initialDraft normalized =
     (let start = (case normalized of Some d \<Rightarrow> d | None \<Rightarrow> initialDraft)
      in \<lparr>ir_start = start, ir_title = sd_title start, ir_description = field_or_empty (sd_description start),
          ir_tags_csv = join '', '' (field_or_empty (sd_tags start)),
          ir_categories_csv = join '', '' (field_or_empty (sd_categories start)),
          ir_difficulty = (case sd_difficulty start of None \<Rightarrow> ''easy'' | Some d \<Rightarrow> d)\<rparr>)"

definition ai_badge :: "bool \<Rightarrow> string option \<Rightarrow> string option" where
  "ai_badge normalized aiProvider =
     (if normalized \<and> truthy aiProvider \<and> aiProvider \<noteq> Some ''disabled''
      then Some (''AI tidied '' @ [CHR 0xC2, CHR 0xB7] @ '' '' @ the aiProvider) else None)"

definition handle_confirm :: "import_review \<Rightarrow> import_draft option" where
  "handle_confirm s =
     (if trim (ir_title s) = [] then None
      else Some ((ir_start s)\<lparr>sd_title := trim (ir_title s), sd_description := Some (trim (ir_description s)),
             sd_tags := Some (csv_to_list (ir_tags_csv s)), sd_categories := Some (csv_to_list (ir_categories_csv s)),
             sd_difficulty := Some (ir_difficulty s)\<rparr>))"

section \<open>Import by address\<close>

record recipe_import =
  im_url :: string
  im_job_id :: "string option"
  im_started :: "import_job option"
  im_failed :: bool

definition import_start :: recipe_import where
  "import_start = \<lparr>im_url = [], im_job_id = None, im_started = None, im_failed = False\<rparr>"

text \<open>A new request clears the data of the last one, as the mutation of the query client does.\<close>

definition handle_import :: "recipe_import \<Rightarrow> recipe_import \<times> mutation option" where
  "handle_import s =
     (if trim (im_url s) = [] then (s, None)
      else (s\<lparr>im_job_id := None, im_started := None, im_failed := False\<rparr>, Some (use_start_import_job (trim (im_url s)))))"

definition import_started :: "import_job option \<Rightarrow> recipe_import \<Rightarrow> recipe_import" where
  "import_started answer s =
     (case answer of
        Some j \<Rightarrow> s\<lparr>im_started := Some j, im_job_id := Some (ij_id j), im_url := []\<rparr>
      | None \<Rightarrow> s\<lparr>im_failed := True\<rparr>)"

text \<open>The job on screen: the last poll, else the answer to the request.\<close>

definition live_job :: "import_job option \<Rightarrow> recipe_import \<Rightarrow> import_job option" where
  "live_job polled s = (case polled of Some j \<Rightarrow> Some j | None \<Rightarrow> im_started s)"

datatype import_panel = NoPanel | RunningPanel | DonePanel "string option" | FailedPanel string

definition import_panel_of :: "import_job option \<Rightarrow> import_panel" where
  "import_panel_of job =
     (case job of
        None \<Rightarrow> NoPanel
      | Some j \<Rightarrow>
          (case ij_status j of
             Running \<Rightarrow> RunningPanel
           | Succeeded \<Rightarrow> DonePanel (if truthy (ij_recipe_id j) then Some (''/recipes/'' @ the (ij_recipe_id j)) else None)
           | Failed \<Rightarrow> FailedPanel (case ij_error_message j of None \<Rightarrow> [] | Some m \<Rightarrow> m)))"

text \<open>
  The polling loop of the job query. \<open>answers n\<close> is the outcome of the n-th request, \<open>None\<close> a failed
  one; the interval is asked with the last payload and the failures since it. The loop returns the number
  of the first request it does not send, with the payload, and has no value when it never stops.
\<close>

partial_function (option) poll_job ::
  "(nat \<Rightarrow> import_job option) \<Rightarrow> nat \<Rightarrow> import_job option \<Rightarrow> nat \<Rightarrow> (nat \<times> import_job option) option" where
  "poll_job answers n data failures =
     (case import_refetch_interval data failures of
        None \<Rightarrow> Some (n, data)
      | Some ms \<Rightarrow>
          (case answers n of
             Some j \<Rightarrow> poll_job answers (Suc n) (Some j) 0
           | None \<Rightarrow> poll_job answers (Suc n) data (Suc failures)))"

section \<open>Lemmas\<close>

definition terminal :: "import_job option \<Rightarrow> bool" where
  "terminal data \<longleftrightarrow> (\<exists>j. data = Some j \<and> ij_status j \<noteq> Running)"

lemma interval_terminal: "import_refetch_interval data failures = None \<longleftrightarrow> terminal data"
proof -
  have "s \<noteq> Running \<longleftrightarrow> s = Succeeded \<or> s = Failed" for s by (cases s) simp_all
  then show ?thesis by (auto simp: import_refetch_interval_def terminal_def split: option.splits)
qed

lemma poll_stops: "terminal data \<Longrightarrow> poll_job answers n data failures = Some (n, data)"
  by (simp add: poll_job.simps interval_terminal[THEN iffD2])

lemma poll_goes_on:
  "\<not> terminal data \<Longrightarrow> poll_job answers n data failures =
     (case answers n of Some j \<Rightarrow> poll_job answers (Suc n) (Some j) 0
      | None \<Rightarrow> poll_job answers (Suc n) data (Suc failures))"
  using interval_terminal[of data failures] by (subst poll_job.simps) (auto split: option.splits)

lemma poll_reaches:
  assumes "\<not> terminal data" and "terminal (answers (n + k))" and "\<forall>i < k. \<not> terminal (answers (n + i))"
  shows "poll_job answers n data failures = Some (n + k + 1, answers (n + k))"
  using assms
proof (induction k arbitrary: n data failures)
  case 0
  then obtain j where "answers n = Some j" "terminal (Some j)" by (auto simp: terminal_def)
  then show ?case using poll_stops[of "Some j" answers "Suc n" 0] by (simp add: poll_goes_on[OF 0(1)])
next
  case (Suc k)
  have n: "\<not> terminal (answers n)" using spec[OF Suc.prems(3), of 0] by simp
  have s: "terminal (answers (Suc n + k))" "\<forall>i < k. \<not> terminal (answers (Suc n + i))"
    using Suc.prems(2,3) by auto
  show ?case
  proof (cases "answers n")
    case None
    with Suc.IH[OF Suc.prems(1) s] show ?thesis by (simp add: poll_goes_on[OF Suc.prems(1)])
  next
    case (Some j)
    with n Suc.IH[OF _ s, of "Some j"] show ?thesis by (simp add: poll_goes_on[OF Suc.prems(1)])
  qed
qed

lemma poll_sound:
  assumes "poll_job answers n data failures = Some y"
  shows "terminal data \<or> (\<exists>k \<ge> n. terminal (answers k))"
proof (rule poll_job.raw_induct[where P = "\<lambda>answers n data failures y. terminal data \<or> (\<exists>k \<ge> n. terminal (answers k))", OF _ assms])
  fix pj answers n data failures y
  assume IH: "\<And>answers n data failures y. pj answers n data failures = Some y \<Longrightarrow>
      terminal data \<or> (\<exists>k \<ge> n. terminal (answers k))"
    and body: "(case import_refetch_interval data failures of
        None \<Rightarrow> Some (n, data)
      | Some ms \<Rightarrow>
          (case answers n of
             Some j \<Rightarrow> pj answers (Suc n) (Some j) 0
           | None \<Rightarrow> pj answers (Suc n) data (Suc failures))) = Some y"
  show "terminal data \<or> (\<exists>k \<ge> n. terminal (answers k))"
  proof (cases "import_refetch_interval data failures = None \<or> answers n = None")
    case True
    then show ?thesis
    proof
      assume "import_refetch_interval data failures = None"
      then show ?thesis by (simp add: interval_terminal)
    next
      assume "answers n = None"
      with body have "terminal data \<or> pj answers (Suc n) data (Suc failures) = Some y"
        by (auto simp: interval_terminal split: option.splits)
      then show ?thesis using IH[of answers "Suc n"] by (meson Suc_leD)
    qed
  next
    case False
    then obtain j where j: "answers n = Some j" "pj answers (Suc n) (Some j) 0 = Some y" using body by auto
    show ?thesis using IH[OF j(2)] j(1) by (metis Suc_leD order_refl)
  qed
qed

lemma trim_space: "trim (CHR '' '' # s) = trim s"
  by (simp add: trim_def is_space_def code_of_def)

lemma csv_join:
  assumes "\<forall>t \<in> set ts. CHR '','' \<notin> set t"
  shows "map trim (split_on (CHR '','') (join '', '' ts)) = (if ts = [] then [[]] else map trim ts)"
  using assms
proof (induction ts rule: induct_list012)
  case (3 a b ts)
  then show ?case
    by (cases "split_on (CHR '','') (join '', '' (b # ts))") (auto simp: split_on_append split_on_nonempty trim_space)
qed (auto simp: split_on_none trim_def)

lemma tags_roundtrip:
  assumes "\<forall>t \<in> set ts. t \<noteq> [] \<and> trim t = t \<and> CHR '','' \<notin> set t"
  shows "csv_to_list (join '', '' ts) = ts"
proof -
  have "filter (\<lambda>x. x \<noteq> []) (map trim ts) = ts"
    using assms by (induction ts) auto
  then show ?thesis using csv_join[of ts] assms by (simp add: csv_to_list_def split: if_splits)
qed

section \<open>Properties\<close>

text \<open>
  C34. The polling of an import returns if and only if some answer reports that the job has succeeded or
  failed, however many requests fail before; it stops right after the first such answer, with it.
\<close>

theorem polling_terminates:
  "(poll_job answers n None 0 \<noteq> None \<longleftrightarrow> (\<exists>k \<ge> n. terminal (answers k))) \<and>
   (terminal (answers (n + k)) \<and> (\<forall>i < k. \<not> terminal (answers (n + i))) \<longrightarrow>
      poll_job answers n None 0 = Some (n + k + 1, answers (n + k)))"
proof -
  have nt: "\<not> terminal None" by (simp add: terminal_def)
  have r: "terminal (answers (n + k)) \<and> (\<forall>i < k. \<not> terminal (answers (n + i))) \<longrightarrow>
      poll_job answers n None 0 = Some (n + k + 1, answers (n + k))" for k
    using poll_reaches[OF nt] by blast
  have "poll_job answers n None 0 \<noteq> None" if "k \<ge> n" "terminal (answers k)" for k
  proof -
    let ?m = "LEAST i. terminal (answers (n + i))"
    have "terminal (answers (n + (k - n)))" using that by simp
    then have "terminal (answers (n + ?m))" by (rule LeastI)
    moreover have "\<forall>i < ?m. \<not> terminal (answers (n + i))" using not_less_Least by blast
    ultimately show ?thesis using r by (metis option.distinct(1))
  qed
  with r poll_sound nt show ?thesis by blast
qed

theorem polling_terminates_witness:
  "poll_job (\<lambda>n. if n < 3 then None else Some \<lparr>ij_id = ''j'', ij_status = Failed, ij_error_message = None,
     ij_recipe_id = None, ij_created_at = None, ij_updated_at = None\<rparr>) 0 None 0 \<noteq> None"
proof -
  let ?f = "\<lambda>n :: nat. if n < 3 then None else Some \<lparr>ij_id = ''j'', ij_status = Failed, ij_error_message = None,
     ij_recipe_id = None, ij_created_at = None, ij_updated_at = None\<rparr>"
  have "\<exists>k \<ge> 0. terminal (?f k)" by (rule exI[of _ 3]) (simp add: terminal_def)
  with polling_terminates[of ?f 0 0] show ?thesis by blast
qed

text \<open>
  Whatever is in the fields of the popover, the values it saves are usable: a positive multiplier, a
  positive whole number of batches and a whole number of leftovers that is not negative.
\<close>

theorem edit_values_usable:
  "case edit_entry_values s of (m, b, l) \<Rightarrow> 0 < m \<and> 0 < b \<and> 0 \<le> l \<and> b \<in> \<int> \<and> l \<in> \<int>"
proof -
  have "0 < positive_or 1 n" for n by (auto simp: positive_or_def split: jnum.splits)
  moreover have "positive_or 1 (parse_int t) \<in> \<int>" for t
    using parse_int_whole[of t] by (auto simp: positive_or_def)
  moreover have "0 \<le> l \<and> l \<in> \<int>" if "l = (case parse_int t of Fin x \<Rightarrow> if x \<ge> 0 then x else 0 | _ \<Rightarrow> 0)" for t l
    using parse_int_whole[of t] that by auto
  ultimately show ?thesis by (simp add: edit_entry_values_def)
qed

text \<open>
  Confirming a review without touching it saves the draft that was proposed, the normalized one if there
  is one: every field comes back, tags and categories through their comma-separated lines, provided the
  texts are trimmed and no name is empty or contains a comma. The fields the form does not show are kept.
\<close>

theorem review_keeps_draft:
  assumes "start = (case normalized of Some d \<Rightarrow> d | None \<Rightarrow> initialDraft)"
    and "sd_title start \<noteq> []" and "trim (sd_title start) = sd_title start"
    and "trim (field_or_empty (sd_description start)) = field_or_empty (sd_description start)"
    and "\<forall>t \<in> set (field_or_empty (sd_tags start)) \<union> set (field_or_empty (sd_categories start)).
      t \<noteq> [] \<and> trim t = t \<and> CHR '','' \<notin> set t"
  shows "handle_confirm (open_review initialDraft normalized) =
    Some (start\<lparr>sd_description := Some (field_or_empty (sd_description start)), sd_tags := Some (field_or_empty (sd_tags start)),
      sd_categories := Some (field_or_empty (sd_categories start)),
      sd_difficulty := Some (case sd_difficulty start of None \<Rightarrow> ''easy'' | Some d \<Rightarrow> d)\<rparr>)"
proof -
  have "csv_to_list (join '', '' (field_or_empty (sd_tags start))) = field_or_empty (sd_tags start)"
    "csv_to_list (join '', '' (field_or_empty (sd_categories start))) = field_or_empty (sd_categories start)"
    using assms(5) by (simp_all add: tags_roundtrip)
  then show ?thesis using assms(2-4) unfolding handle_confirm_def open_review_def assms(1)[symmetric] Let_def
    by simp
qed

theorem review_keeps_draft_witness:
  "let d = \<lparr>sd_title = ''Soup'', sd_description = None, sd_tags = Some [''dinner'', ''easy''], sd_categories = None,
       sd_difficulty = None, sd_rest = []\<rparr>
   in handle_confirm (open_review d None) = Some (d\<lparr>sd_description := Some [], sd_categories := Some [],
        sd_difficulty := Some ''easy''\<rparr>)"
proof -
  let ?d = "\<lparr>sd_title = ''Soup'', sd_description = None, sd_tags = Some [''dinner'', ''easy''], sd_categories = None,
       sd_difficulty = None, sd_rest = []\<rparr>"
  have t: "trim ''Soup'' = ''Soup''" "trim [] = []" "trim ''dinner'' = ''dinner''" "trim ''easy'' = ''easy''" by code_simp+
  show ?thesis unfolding Let_def
    by (subst review_keeps_draft[where start = ?d]) (simp_all add: t field_or_empty_def)
qed

end
