(* ===== verification/KioskWidgets.thy ===== *)
theory KioskWidgets
  imports CalendarViews Grouping Onboarding MealPlan Shopping
begin

text \<open>
  The widgets of the kiosk pages, \<^verbatim>\<open>web/src/components/kiosk/widgets\<close>, and the page of the day,
  \<^verbatim>\<open>web/src/app/kiosk/today/page.tsx\<close>. Widgets see members through their projection. Local time is a
  parameter, and so is the order an engine gives to events whose instants cannot be compared.
\<close>

definition widget_members :: "member list option \<Rightarrow> widget_member list" where
  "widget_members members = map to_widget_member (case members of None \<Rightarrow> [] | Some ms \<Rightarrow> ms)"

definition event_members :: "widget_member list \<Rightarrow> tbd_event \<Rightarrow> widget_member list" where
  "event_members ms e = List.map_filter (map_of (rev (map (\<lambda>m. (wm_id m, m)) ms))) (assignees e)"

section \<open>Agenda\<close>

text \<open>What the agenda shows: the first events with their members (three at most), and the rest counted.\<close>

definition agenda_list :: "nat \<Rightarrow> widget_member list \<Rightarrow> tbd_event list \<Rightarrow> (tbd_event \<times> widget_member list) list \<times> nat" where
  "agenda_list limit ms events =
     (map (\<lambda>e. (e, take 3 (event_members ms e))) (take limit events), length events - length (take limit events))"

section \<open>The page of the day\<close>

text \<open>\<^verbatim>\<open>new Date(y, m, d, h, mi)\<close> on the day of \<open>now\<close>, without a second number no date.\<close>

definition clock_today :: "zone \<Rightarrow> int \<Rightarrow> rat \<Rightarrow> rat option \<Rightarrow> jnum" where
  "clock_today z now h mi =
     (case mi of
        None \<Rightarrow> NaN
      | Some m \<Rightarrow>
          (let trunc = (\<lambda>x :: rat. if x \<ge> 0 then \<lfloor>x\<rfloor> else \<lceil>x\<rceil>); c = local_date z now;
               y = (if 0 \<le> cv_year c \<and> cv_year c \<le> 99 then 1900 + cv_year c else cv_year c)
           in case time_clip (tz_utc z (js_day y (int (cv_month c)) (cv_day c) * ms_per_day +
                  (trunc h * 3600000 + trunc m * 60000))) of
                Some t \<Rightarrow> Fin (of_int t) | None \<Rightarrow> NaN))"

definition num_or_zero :: "string \<Rightarrow> rat option" where
  "num_or_zero s = (case to_number s of Fin x \<Rightarrow> Some x | NaN \<Rightarrow> Some 0 | _ \<Rightarrow> None)"

definition event_epoch :: "zone \<Rightarrow> int \<Rightarrow> tbd_event \<Rightarrow> jnum" where
  "event_epoch z now e =
     (if \<not> truthy (any_start e) then PosInf
      else if contains (the (any_start e)) ''T'' then
        (case date_parse (tz_utc z) (the (any_start e)) of Some t \<Rightarrow> Fin (of_int t) | None \<Rightarrow> PosInf)
      else (case map num_or_zero (split_on (CHR '':'') (the (any_start e))) of
          Some h # Some m # _ \<Rightarrow> clock_today z now h (Some m)
        | _ \<Rightarrow> NaN))"

definition finite_epoch :: "zone \<Rightarrow> int \<Rightarrow> tbd_event \<Rightarrow> rat" where
  "finite_epoch z now e = (case event_epoch z now e of Fin t \<Rightarrow> t | _ \<Rightarrow> 0)"

text \<open>
  The events in the order of their instants, those without one last. An instant that is no number makes
  the comparison inconsistent; then the order is the engine's.
\<close>

definition sorted_events :: "(tbd_event list \<Rightarrow> tbd_event list) \<Rightarrow> zone \<Rightarrow> int \<Rightarrow> tbd_event list \<Rightarrow> tbd_event list" where
  "sorted_events engine z now events =
     (if list_all (\<lambda>e. event_epoch z now e \<noteq> NaN) events then
        sort_key (finite_epoch z now) (filter (\<lambda>e. is_finite (event_epoch z now e)) events) @
        filter (\<lambda>e. \<not> is_finite (event_epoch z now e)) events
      else engine events)"

definition upcoming_event :: "(tbd_event list \<Rightarrow> tbd_event list) \<Rightarrow> zone \<Rightarrow> int \<Rightarrow> tbd_event list \<Rightarrow> tbd_event option" where
  "upcoming_event engine z now events =
     (let es = sorted_events engine z now events
      in case find (\<lambda>e. jleq (Fin (of_int now)) (event_epoch z now e)) es of
           Some e \<Rightarrow> Some e
         | None \<Rightarrow> (case es of [] \<Rightarrow> None | e # _ \<Rightarrow> Some e))"

section \<open>The week\<close>

definition start_of_monday_week :: "zone \<Rightarrow> int \<Rightarrow> int option" where
  "start_of_monday_week z d =
     (let c = local_date z d; day = get_day z d
      in new_date z (cv_year c) (int (cv_month c)) (cv_day c + (if day = 0 then -6 else 1 - day)))"

definition event_date :: "zone \<Rightarrow> tbd_event \<Rightarrow> int option" where
  "event_date z e =
     (if truthy (any_start e) \<and> contains (the (any_start e)) ''T'' then date_parse (tz_utc z) (the (any_start e))
      else None)"

definition week_day :: "zone \<Rightarrow> int \<Rightarrow> nat \<Rightarrow> int option" where
  "week_day z start i = set_date z (cv_day (local_date z start) + int i) start"

definition dated_events :: "zone \<Rightarrow> tbd_event list \<Rightarrow> (tbd_event \<times> int) list" where
  "dated_events z events = List.map_filter (\<lambda>e. map_option (Pair e) (event_date z e)) events"

definition week_event_total :: "zone \<Rightarrow> tbd_event list \<Rightarrow> nat" where
  "week_event_total z events = length (dated_events z events)"

definition day_events :: "zone \<Rightarrow> int option \<Rightarrow> tbd_event list \<Rightarrow> tbd_event list" where
  "day_events z day events =
     map fst (filter (\<lambda>(e, t). case day of Some d \<Rightarrow> same_date z t d | None \<Rightarrow> False) (dated_events z events))"

text \<open>Three titles per day and the number of the others.\<close>

definition week_cell :: "zone \<Rightarrow> int option \<Rightarrow> tbd_event list \<Rightarrow> string list \<times> nat option" where
  "week_cell z day events =
     (let es = day_events z day events
      in (map ev_title (take 3 es), if length es > 3 then Some (length es - 3) else None))"

section \<open>Chores, meals, shopping, rewards\<close>

definition active_chores :: "api_chore list \<Rightarrow> api_chore list" where
  "active_chores chores = filter (\<lambda>c. \<not> truthy (ch_archived_at c)) chores"

definition eligible_members :: "widget_member list \<Rightarrow> widget_member list" where
  "eligible_members ms = filter (\<lambda>m. wm_role m \<noteq> ''pet'') ms"

definition chore_columns :: "nat \<Rightarrow> widget_member list \<Rightarrow> api_chore list \<Rightarrow> (widget_member \<times> api_chore list) list" where
  "chore_columns perMember ms chores =
     map (\<lambda>m. (m, take perMember (group_of (group_by ch_member_id (active_chores chores)) (wm_id m))))
       (take 4 (eligible_members ms))"

definition chores_total :: "api_chore list \<Rightarrow> nat" where
  "chores_total chores = length (active_chores chores)"

text \<open>The row of the strip: \<open>None\<close> without a plan or row, else the recipe of each day if it is known.\<close>

definition meal_strip :: "string \<Rightarrow> (string \<times> 'r) list \<Rightarrow> meal_plan option \<Rightarrow> 'r option list option" where
  "meal_strip rowName recipes plan =
     (case plan of
        None \<Rightarrow> None
      | Some p \<Rightarrow>
          (case filter (\<lambda>i. lowercase (ml_rows p ! i) = lowercase rowName) [0 ..< length (ml_rows p)] of
             [] \<Rightarrow> None
           | r # _ \<Rightarrow> Some (map (\<lambda>c. case c of
                 Some i \<Rightarrow> (if i \<noteq> [] then map_of (rev recipes) i else None) | None \<Rightarrow> None)
               (if r < length (ml_grid p) then ml_grid p ! r else []))))"

definition open_shopping :: "shopping \<Rightarrow> (shopping_item \<times> string) list" where
  "open_shopping s =
     concat (map (\<lambda>c. map (\<lambda>it. (it, sc_name c)) (filter (\<lambda>it. \<not> it_done it) (sc_items c))) (sh_categories s))"

definition shopping_widget :: "nat \<Rightarrow> shopping \<Rightarrow> (shopping_item \<times> string) list \<times> nat" where
  "shopping_widget limit s = (take limit (open_shopping s), length (open_shopping s) - length (take limit (open_shopping s)))"

definition rewards_widget :: "nat \<Rightarrow> api_reward list \<Rightarrow> api_reward list \<times> nat" where
  "rewards_widget limit rewards =
     (let active = filter rw_active rewards in (take limit active, length active - length (take limit active)))"

section \<open>Lemmas\<close>

lemma clock_today_cases: "clock_today z now h mi = NaN \<or> is_finite (clock_today z now h mi)"
  by (auto simp: clock_today_def Let_def split: option.splits)

lemma event_epoch_cases: "event_epoch z now e = NaN \<or> event_epoch z now e = PosInf \<or> is_finite (event_epoch z now e)"
  using clock_today_cases by (auto simp: event_epoch_def split: option.splits list.splits)

definition comparable :: "zone \<Rightarrow> int \<Rightarrow> tbd_event list \<Rightarrow> bool" where
  "comparable z now events \<longleftrightarrow> list_all (\<lambda>e. event_epoch z now e \<noteq> NaN) events"

lemma sorted_events_set: "comparable z now events \<Longrightarrow> set (sorted_events engine z now events) = set events"
  by (auto simp: sorted_events_def comparable_def)

lemma sorted_events_length: "comparable z now events \<Longrightarrow> length (sorted_events engine z now events) = length events"
  by (simp add: sorted_events_def comparable_def sum_length_filter_compl)

lemma epoch_leq:
  assumes "event_epoch z now a \<noteq> NaN" and "is_finite (event_epoch z now a) \<longrightarrow> is_finite (event_epoch z now b) \<longrightarrow>
      finite_epoch z now a \<le> finite_epoch z now b"
    and "is_finite (event_epoch z now b) \<longrightarrow> is_finite (event_epoch z now a)" and "event_epoch z now b \<noteq> NaN"
  shows "jleq (event_epoch z now a) (event_epoch z now b)"
  using assms event_epoch_cases[of z now a] event_epoch_cases[of z now b]
  by (auto simp: is_finite_iff finite_epoch_def jleq_def)

lemma sorted_events_sorted:
  assumes "comparable z now events"
  shows "sorted_wrt (\<lambda>a b. jleq (event_epoch z now a) (event_epoch z now b)) (sorted_events engine z now events)"
proof -
  let ?fin = "filter (\<lambda>e. is_finite (event_epoch z now e)) events"
  let ?inf = "filter (\<lambda>e. \<not> is_finite (event_epoch z now e)) events"
  have nn: "event_epoch z now e \<noteq> NaN" if "e \<in> set events" for e
    using assms that by (auto simp: comparable_def list_all_iff)
  have "sorted_wrt (\<lambda>a b. finite_epoch z now a \<le> finite_epoch z now b) (sort_key (finite_epoch z now) ?fin)"
    using sorted_sort_key[of "finite_epoch z now" ?fin] unfolding sorted_map .
  then have "sorted_wrt (\<lambda>a b. jleq (event_epoch z now a) (event_epoch z now b)) (sort_key (finite_epoch z now) ?fin)"
    by (rule sorted_wrt_mono_rel[rotated]) (auto intro!: epoch_leq nn)
  moreover have "sorted_wrt (\<lambda>a b. jleq (event_epoch z now a) (event_epoch z now b)) ?inf"
    by (rule sorted_wrt_mono_rel[of _ "\<lambda>_ _. True"]) (auto intro!: epoch_leq nn simp: sorted_wrt_true)
  moreover have "jleq (event_epoch z now a) (event_epoch z now b)" if "a \<in> set ?fin" "b \<in> set ?inf" for a b
    using that by (auto intro!: epoch_leq nn)
  ultimately show ?thesis using assms by (simp add: sorted_events_def comparable_def sorted_wrt_append)
qed

lemma find_first:
  assumes "find P xs = Some x" and "sorted_wrt R xs" and "\<And>a. a \<in> set xs \<Longrightarrow> R a a"
  shows "x \<in> set xs \<and> P x \<and> (\<forall>y \<in> set xs. P y \<longrightarrow> R x y)"
  using assms by (induction xs) (auto split: if_splits)

text \<open>The seven days partition what lies within the week.\<close>

lemma seven_days:
  fixes f :: "'a \<Rightarrow> int"
  shows "(\<Sum>i \<leftarrow> [0..<7]. length (filter (\<lambda>x. f x = M + int i) xs)) = length (filter (\<lambda>x. M \<le> f x \<and> f x < M + 7) xs)"
proof (induction xs)
  case Nil
  then show ?case by (simp add: sum_list_triv)
next
  case (Cons x xs)
  have e: "length (filter (\<lambda>y. f y = M + int i) (x # xs)) =
      (if f x = M + int i then 1 else 0) + length (filter (\<lambda>y. f y = M + int i) xs)" for i
    by simp
  have "(\<Sum>i \<leftarrow> [0..<7]. length (filter (\<lambda>y. f y = M + int i) (x # xs))) =
      (\<Sum>i \<leftarrow> [0..<7]. if f x = M + int i then 1 else 0) + (\<Sum>i \<leftarrow> [0..<7]. length (filter (\<lambda>y. f y = M + int i) xs))"
    unfolding e by (rule sum_list_addf)
  moreover have "(\<Sum>i \<leftarrow> [0..<7]. if f x = M + int i then 1 else 0 :: nat) = (if M \<le> f x \<and> f x < M + 7 then 1 else 0)"
    by (simp add: upt_rec numeral_eq_Suc)
  ultimately show ?case using Cons by simp
qed

section \<open>Properties\<close>

text \<open>
  The large card of the day: with comparable instants it shows the earliest event that has not started
  yet, and when all have started the earliest of all, which lies in the past.
\<close>

theorem next_event_choice:
  assumes "\<forall>e \<in> set events. event_epoch z now e \<noteq> NaN" and "events \<noteq> []"
  shows "\<exists>e \<in> set events. upcoming_event engine z now events = Some e \<and>
    (if \<exists>x \<in> set events. jleq (Fin (of_int now)) (event_epoch z now x)
     then jleq (Fin (of_int now)) (event_epoch z now e) \<and>
       (\<forall>x \<in> set events. jleq (Fin (of_int now)) (event_epoch z now x) \<longrightarrow> jleq (event_epoch z now e) (event_epoch z now x))
     else jless (event_epoch z now e) (Fin (of_int now)) \<and>
       (\<forall>x \<in> set events. jleq (event_epoch z now e) (event_epoch z now x)))"
proof -
  let ?R = "\<lambda>a b. jleq (event_epoch z now a) (event_epoch z now b)"
  let ?P = "\<lambda>e. jleq (Fin (of_int now)) (event_epoch z now e)"
  let ?es = "sorted_events engine z now events"
  have c: "comparable z now events" using assms(1) by (simp add: comparable_def list_all_iff)
  note set = sorted_events_set[OF c] and srt = sorted_events_sorted[OF c]
  have refl: "?R a a" if "a \<in> set ?es" for a using that assms(1) set by (auto simp: jleq_def)
  show ?thesis
  proof (cases "find ?P ?es")
    case None
    then have none: "\<not> ?P x" if "x \<in> set events" for x using that set by (auto simp: find_None_iff)
    have "?es \<noteq> []" using assms(2) set[of engine] by (metis set_empty)
    then obtain e rest where es: "?es = e # rest" by (cases ?es) auto
    then have e: "e \<in> set events" using set[of engine] by auto
    have "\<forall>x \<in> set events. ?R e x" using srt[of engine] refl[of e] set[of engine] unfolding es by auto
    moreover have "jless (event_epoch z now e) (Fin (of_int now))"
      using none[OF e] assms(1) e event_epoch_cases[of z now e] by (auto simp: is_finite_iff jleq_def)
    moreover have "upcoming_event engine z now events = Some e" using None es by (simp add: upcoming_event_def)
    ultimately show ?thesis using e none by auto
  next
    case (Some e)
    from find_first[OF Some srt refl] have "e \<in> set events" "?P e" "\<forall>y \<in> set events. ?P y \<longrightarrow> ?R e y" using set by auto
    moreover have "upcoming_event engine z now events = Some e" using Some by (simp add: upcoming_event_def)
    ultimately show ?thesis by auto
  qed
qed

text \<open>
  The agenda of the day is not limited to the day: it lists the earliest events of the household, so that
  an event that is left out is never earlier than one that is listed.
\<close>

theorem agenda_lists_oldest:
  assumes "\<forall>e \<in> set events. event_epoch z now e \<noteq> NaN"
    and "a \<in> fst ` set (fst (agenda_list limit ms (sorted_events engine z now events)))"
    and "b \<in> set (drop limit (sorted_events engine z now events))"
  shows "jleq (event_epoch z now a) (event_epoch z now b)"
proof -
  have c: "comparable z now events" using assms(1) by (simp add: comparable_def list_all_iff)
  have "sorted_wrt (\<lambda>a b. jleq (event_epoch z now a) (event_epoch z now b))
      (take limit (sorted_events engine z now events) @ drop limit (sorted_events engine z now events))"
    using sorted_events_sorted[OF c] by simp
  moreover have "a \<in> set (take limit (sorted_events engine z now events))"
    using assms(2) by (auto simp: agenda_list_def)
  ultimately show ?thesis using assms(3) unfolding sorted_wrt_append by blast
qed

text \<open>
  The seven cells of the week are Monday to Sunday around now, and each holds exactly the dated events of
  its local day. The title counts all dated events of the household, not those of the week: it exceeds the
  cells by the events of other weeks.
\<close>

theorem week_widget_cells:
  assumes zone: "local_zone z" and start: "start_of_monday_week z now = Some w" and y: "99 < cv_year (local_date z now)"
    and days: "\<forall>i < 7. week_day z w i = Some (d i)"
  shows "(\<forall>i < 7. local_day z (d i) = local_day z now - (get_day z now + 6) mod 7 + int i \<and>
      day_events z (week_day z w i) events =
        map fst (filter (\<lambda>(e, t). local_day z t = local_day z (d i)) (dated_events z events))) \<and>
    week_event_total z events =
      (\<Sum>i \<leftarrow> [0..<7]. length (day_events z (week_day z w i) events)) +
      length (filter (\<lambda>(e, t). local_day z t < local_day z (d 0) \<or> local_day z (d 0) + 7 \<le> local_day z t)
        (dated_events z events))"
proof -
  let ?M = "local_day z now - (get_day z now + 6) mod 7"
  have g: "0 \<le> get_day z now" "get_day z now < 7" by (simp_all add: get_day_def utc_day_def)
  have "local_day z w = local_day z now + (if get_day z now = 0 then -6 else 1 - get_day z now)"
    using local_zone.new_date_day[OF zone, of "cv_year (local_date z now)"] start y
    by (simp add: start_of_monday_week_def Let_def local_date_def js_day_civil)
  moreover have "(if k = 0 then -6 else 1 - k) = - ((k + 6) mod 7)" if "0 \<le> k" "k < 7" for k :: int
    using that by presburger
  ultimately have w: "local_day z w = ?M" using g by simp
  have di: "local_day z (d i) = ?M + int i" if "i < 7" for i
    using local_zone.set_date_day[OF zone, of _ w "d i"] days that w by (auto simp: week_day_def)
  have ev: "day_events z (week_day z w i) events =
      map fst (filter (\<lambda>(e, t). local_day z t = ?M + int i) (dated_events z events))" if "i < 7" for i
    using days that di[OF that] by (simp add: day_events_def same_date_iff)
  have "(\<Sum>i \<leftarrow> [0..<7]. length (day_events z (week_day z w i) events)) =
      (\<Sum>i \<leftarrow> [0..<7]. length (filter (\<lambda>x. local_day z (snd x) = ?M + int i) (dated_events z events)))"
    by (rule arg_cong[of _ _ sum_list], rule map_cong) (simp_all add: ev case_prod_unfold del: upt_Suc)
  also have "\<dots> = length (filter (\<lambda>x. ?M \<le> local_day z (snd x) \<and> local_day z (snd x) < ?M + 7) (dated_events z events))"
    by (rule seven_days)
  finally have s: "(\<Sum>i \<leftarrow> [0..<7]. length (day_events z (week_day z w i) events)) =
    length (filter (\<lambda>x. ?M \<le> local_day z (snd x) \<and> local_day z (snd x) < ?M + 7) (dated_events z events))" .
  have d0: "local_day z (d 0) = ?M" using di[of 0] by simp
  have "filter (\<lambda>(e, t). local_day z t < local_day z (d 0) \<or> local_day z (d 0) + 7 \<le> local_day z t) (dated_events z events) =
      filter (\<lambda>x. \<not> (?M \<le> local_day z (snd x) \<and> local_day z (snd x) < ?M + 7)) (dated_events z events)"
    by (rule filter_cong) (auto simp: d0)
  then have "week_event_total z events =
      (\<Sum>i \<leftarrow> [0..<7]. length (day_events z (week_day z w i) events)) +
      length (filter (\<lambda>(e, t). local_day z t < local_day z (d 0) \<or> local_day z (d 0) + 7 \<le> local_day z t)
        (dated_events z events))"
    unfolding s week_event_total_def by (simp only: sum_length_filter_compl)
  moreover have "\<forall>i < 7. local_day z (d i) = ?M + int i \<and> day_events z (week_day z w i) events =
        map fst (filter (\<lambda>(e, t). local_day z t = local_day z (d i)) (dated_events z events))"
    using di ev by simp
  ultimately show ?thesis by blast
qed

text \<open>
  The chore board never lists an archived chore or a chore of a pet; it lists the others of the first
  four members, each under its member, up to the limit. The title counts the active chores of everyone.
\<close>

theorem chore_board_lists:
  "chore_columns n ms chores =
     map (\<lambda>m. (m, take n (filter (\<lambda>c. ch_member_id c = wm_id m) (active_chores chores)))) (take 4 (eligible_members ms)) \<and>
   (\<forall>(m, cs) \<in> set (chore_columns n ms chores). wm_role m \<noteq> ''pet'' \<and>
      (\<forall>c \<in> set cs. c \<in> set chores \<and> ch_member_id c = wm_id m \<and> \<not> truthy (ch_archived_at c)))"
proof -
  have eq: "chore_columns n ms chores =
     map (\<lambda>m. (m, take n (filter (\<lambda>c. ch_member_id c = wm_id m) (active_chores chores)))) (take 4 (eligible_members ms))"
    by (simp add: chore_columns_def group_of_by)
  have p: "wm_role m \<noteq> ''pet''" if "m \<in> set (take 4 (eligible_members ms))" for m
    using in_set_takeD[OF that] by (simp add: eligible_members_def)
  have c: "c \<in> set chores \<and> ch_member_id c = i \<and> \<not> truthy (ch_archived_at c)"
    if "c \<in> set (take n (filter (\<lambda>c. ch_member_id c = i) (active_chores chores)))" for c i
    using in_set_takeD[OF that] by (simp add: active_chores_def)
  have "wm_role m \<noteq> ''pet'' \<and> (\<forall>c \<in> set cs. c \<in> set chores \<and> ch_member_id c = wm_id m \<and> \<not> truthy (ch_archived_at c))"
    if "(m, cs) \<in> set (chore_columns n ms chores)" for m cs
  proof -
    from that have "m \<in> set (take 4 (eligible_members ms))"
      "cs = take n (filter (\<lambda>c. ch_member_id c = wm_id m) (active_chores chores))"
      unfolding eq by auto
    with p c show ?thesis by blast
  qed
  with eq show ?thesis by blast
qed

text \<open>The widget of the shopping list shows and counts exactly the open items, in order.\<close>

theorem shopping_widget_counts:
  "case shopping_widget limit s of (shown, others) \<Rightarrow>
     length shown + others = length (filter (\<lambda>it. \<not> it_done it) (concat (map sc_items (sh_categories s)))) \<and>
     map fst shown = take limit (filter (\<lambda>it. \<not> it_done it) (concat (map sc_items (sh_categories s))))"
proof -
  have "map fst (open_shopping s) = filter (\<lambda>it. \<not> it_done it) (concat (map sc_items (sh_categories s)))"
    by (simp add: open_shopping_def map_concat filter_concat comp_def)
  then show ?thesis by (simp add: shopping_widget_def take_map[symmetric]) (metis length_map)
qed

section \<open>Witnesses\<close>

definition demo_kiosk_event :: "string \<Rightarrow> string \<Rightarrow> tbd_event" where
  "demo_kiosk_event i start =
     \<lparr>ev_id = i, ev_title = i, ev_start = None, ev_end = None, ev_members = None, ev_location = None, ev_type = None,
      ev_start_time = Some start, ev_end_time = None, ev_description = None, ev_recurrence_rule = None,
      ev_assigned_members = None\<rparr>"

lemma demo_epochs:
  "event_epoch (fixed_zone 0) 10 (demo_kiosk_event ''a'' ''1970-01-01T00:00:00Z'') = Fin 0"
  "event_epoch (fixed_zone 0) 10 (demo_kiosk_event ''b'' ''1970-01-01T00:00:01Z'') = Fin 1000"
proof -
  have "date_parse (tz_utc (fixed_zone 0)) ''1970-01-01T00:00:00Z'' = Some 0"
    "date_parse (tz_utc (fixed_zone 0)) ''1970-01-01T00:00:01Z'' = Some 1000"
    "contains ''1970-01-01T00:00:00Z'' ''T''" "contains ''1970-01-01T00:00:01Z'' ''T''" by code_simp+
  then show "event_epoch (fixed_zone 0) 10 (demo_kiosk_event ''a'' ''1970-01-01T00:00:00Z'') = Fin 0"
    "event_epoch (fixed_zone 0) 10 (demo_kiosk_event ''b'' ''1970-01-01T00:00:01Z'') = Fin 1000"
    by (simp_all add: event_epoch_def demo_kiosk_event_def any_start_def)
qed

theorem next_event_choice_witness:
  "upcoming_event rev (fixed_zone 0) 10 [demo_kiosk_event ''b'' ''1970-01-01T00:00:01Z'',
     demo_kiosk_event ''a'' ''1970-01-01T00:00:00Z''] = Some (demo_kiosk_event ''b'' ''1970-01-01T00:00:01Z'')"
proof -
  let ?es = "[demo_kiosk_event ''b'' ''1970-01-01T00:00:01Z'', demo_kiosk_event ''a'' ''1970-01-01T00:00:00Z'']"
  have "\<forall>e \<in> set ?es. event_epoch (fixed_zone 0) 10 e \<noteq> NaN" by (simp add: demo_epochs)
  from next_event_choice[OF this, of rev] show ?thesis by (auto simp: demo_epochs)
qed

theorem agenda_lists_oldest_witness:
  "jleq (Fin 0) (Fin 1000)"
proof -
  let ?a = "demo_kiosk_event ''a'' ''1970-01-01T00:00:00Z''" and ?b = "demo_kiosk_event ''b'' ''1970-01-01T00:00:01Z''"
  have n: "\<forall>e \<in> set [?b, ?a]. event_epoch (fixed_zone 0) 10 e \<noteq> NaN" by (simp add: demo_epochs)
  have "sorted_events rev (fixed_zone 0) 10 [?b, ?a] = [?a, ?b]"
    by (simp add: sorted_events_def demo_epochs finite_epoch_def)
  with agenda_lists_oldest[OF n, of ?a 1 "[]" rev ?b] show ?thesis by (simp add: agenda_list_def demo_epochs)
qed

theorem week_widget_cells_witness:
  "\<exists>w d. start_of_monday_week (fixed_zone 0) 0 = Some w \<and> (\<forall>i < 7. week_day (fixed_zone 0) w i = Some (d i)) \<and>
     (\<forall>i < 7. local_day (fixed_zone 0) (d i) = int i - 3)"
proof -
  let ?z = "fixed_zone 0"
  have z: "local_zone ?z" by (rule fixed.local_zone_axioms)
  have s: "start_of_monday_week ?z 0 = Some (- 259200000)" by code_simp
  have y: "99 < cv_year (local_date ?z 0)" by code_simp
  have l: "local_day ?z 0 = 0" "get_day ?z 0 = 4" by code_simp+
  have "list_all (\<lambda>i. week_day ?z (- 259200000) i = Some (int i * 86400000 - 259200000)) [0, 1, 2, 3, 4, 5, 6]" by code_simp
  then have "\<forall>i < 7. week_day ?z (- 259200000) i = Some (int i * 86400000 - 259200000)"
    by (auto simp: less_Suc_eq numeral_eq_Suc)
  from week_widget_cells[OF z s y this, of "[]"] this s l show ?thesis by auto
qed

theorem chore_board_lists_witness: "chore_columns 5 [] [] = []"
  using chore_board_lists[of 5 "[]" "[]"] by (simp add: eligible_members_def)

end
