(* ===== verification/Dashboards.thy ===== *)
theory Dashboards
  imports KioskWidgets ListScreens UrlCodec
begin

text \<open>
  The dashboards: the columns of \<^verbatim>\<open>web/src/components/screens/dashboard-kiosk-columns.tsx\<close> with the clock
  labels of \<^verbatim>\<open>web/src/lib/time.ts\<close>, the choices of \<^verbatim>\<open>dashboard-kiosk.tsx\<close> (member, events, dinner,
  weather), the celebrations of \<^verbatim>\<open>dashboard-desktop.tsx\<close>, and the weather of
  \<^verbatim>\<open>web/src/lib/weather/use-weather.ts\<close>. Local time and the formatting of the browser are parameters.
\<close>

section \<open>Clock labels\<close>

text \<open>\<^verbatim>\<open>((h + 11) % 12) + 1\<close>; the remainder has the sign of its dividend.\<close>

definition js_rem :: "rat \<Rightarrow> rat \<Rightarrow> rat" where
  "js_rem x k = (let q = x / k in x - k * of_int (if q \<ge> 0 then \<lfloor>q\<rfloor> else \<lceil>q\<rceil>))"

definition hour12 :: "jnum \<Rightarrow> jnum" where
  "hour12 h = (case h of Fin x \<Rightarrow> Fin (js_rem (x + 11) 12 + 1) | _ \<Rightarrow> NaN)"

definition fmt_time :: "(int \<Rightarrow> string) \<Rightarrow> zone \<Rightarrow> string \<Rightarrow> string" where
  "fmt_time clock z value =
     (if value = [] then []
      else if contains value ''T'' then
        (case date_parse (tz_utc z) value of None \<Rightarrow> value | Some t \<Rightarrow> clock t)
      else (let ns = map to_number (split_on (CHR '':'') value);
                h = (case ns of [] \<Rightarrow> Fin 0 | x # _ \<Rightarrow> x); m = (case ns of _ # y # _ \<Rightarrow> y | _ \<Rightarrow> Fin 0)
            in jnum_str (hour12 h) @ '':'' @ pad_start 2 (CHR ''0'') (jnum_str m) @ '' '' @
               (if jleq (Fin 12) h then ''PM'' else ''AM'')))"

section \<open>The columns\<close>

definition column_hour :: "zone \<Rightarrow> string \<Rightarrow> jnum" where
  "column_hour z value =
     (if contains value ''T'' then
        (case date_parse (tz_utc z) value of
           None \<Rightarrow> NaN | Some t \<Rightarrow> Fin (of_int (get_hours z t) + of_int (get_minutes z t) / 60))
      else (let ns = map to_number (split_on (CHR '':'') value)
            in jadd (case ns of [] \<Rightarrow> Fin 0 | x # _ \<Rightarrow> x) (jscale (1 / 60) (case ns of _ # y # _ \<Rightarrow> y | _ \<Rightarrow> Fin 0))))"

definition column_y :: "jnum \<Rightarrow> jnum" where
  "column_y h = jscale (100 / 14) (jadd h (Fin (-7)))"

definition at_least_four :: "jnum \<Rightarrow> jnum" where
  "at_least_four x = (case x of NaN \<Rightarrow> NaN | NegInf \<Rightarrow> Fin 4 | PosInf \<Rightarrow> PosInf | Fin n \<Rightarrow> Fin (max 4 n))"

text \<open>Top, height and label of a block; \<open>None\<close> is the TypeError of an event without a start or an end.\<close>

definition column_block :: "(int \<Rightarrow> string) \<Rightarrow> zone \<Rightarrow> tbd_event \<Rightarrow> (jnum \<times> jnum \<times> string) option" where
  "column_block clock z e =
     (case (any_start e, case ev_end_time e of Some t \<Rightarrow> Some t | None \<Rightarrow> ev_end e) of
        (Some s, Some t) \<Rightarrow>
          (let top = column_y (column_hour z s)
           in Some (top, at_least_four (jadd (column_y (column_hour z t)) (jneg top)),
                    fmt_time clock z (case ev_start e of None \<Rightarrow> [] | Some v \<Rightarrow> v)))
      | _ \<Rightarrow> None)"

definition kiosk_column_events :: "tbd_event list \<Rightarrow> member \<Rightarrow> tbd_event list" where
  "kiosk_column_events events m = filter (\<lambda>e. mem_id m \<in> set (assignees e)) events"

section \<open>The kiosk\<close>

definition active_targets :: "member list \<Rightarrow> member list" where
  "active_targets members = filter (\<lambda>m. mem_role m \<noteq> ''pet'') members"

text \<open>
  The choice on this screen, the member that the session was switched to, and the signed-in member, who is
  active while the session is not switched. Members are given by id, name and role.
\<close>

record kiosk_dash =
  kd_sel :: "string option"
  kd_active :: "(string \<times> string \<times> string) option"
  kd_own :: "(string \<times> string \<times> string) option"

definition kiosk_active_id :: "member list \<Rightarrow> kiosk_dash \<Rightarrow> string option" where
  "kiosk_active_id members s =
     (case (case kd_active s of Some a \<Rightarrow> Some a | None \<Rightarrow> kd_own s) of
        Some a \<Rightarrow> (if fst a \<in> mem_id ` set (active_targets members) then Some (fst a) else None)
      | None \<Rightarrow> None)"

definition selected_member_id :: "member list \<Rightarrow> kiosk_dash \<Rightarrow> string option" where
  "selected_member_id members s = (case kd_sel s of Some i \<Rightarrow> Some i | None \<Rightarrow> kiosk_active_id members s)"

definition press_member :: "member list \<Rightarrow> member \<Rightarrow> kiosk_dash \<Rightarrow> kiosk_dash" where
  "press_member members m s =
     (if selected_member_id members s = Some (mem_id m) then s\<lparr>kd_sel := None, kd_active := None\<rparr>
      else s\<lparr>kd_sel := Some (mem_id m),
             kd_active := Some (mem_id m, mem_name m, if mem_role m = ''child'' then ''child'' else ''adult'')\<rparr>)"

definition filter_events_for_member :: "tbd_event list \<Rightarrow> string option \<Rightarrow> tbd_event list" where
  "filter_events_for_member events memberId =
     (if truthy memberId then filter (\<lambda>e. assignees e = [] \<or> the memberId \<in> set (assignees e)) events else events)"

definition open_list_count :: "family_list list option \<Rightarrow> nat" where
  "open_list_count familyLists =
     fold (\<lambda>l count. count + length (filter (\<lambda>i. \<not> li_done i) (fl_items l)))
       (case familyLists of None \<Rightarrow> [] | Some ls \<Rightarrow> ls) 0"

text \<open>The day of the plan shown today; \<open>None\<close> is \<open>NaN\<close>.\<close>

definition start_of_day :: "zone \<Rightarrow> int \<Rightarrow> int option" where
  "start_of_day z t = (let c = local_date z t in new_date z (cv_year c) (int (cv_month c)) (cv_day c))"

definition clamp_day :: "int \<Rightarrow> int" where "clamp_day d = min 6 (max 0 d)"

definition meal_plan_day_index :: "zone \<Rightarrow> int \<Rightarrow> string \<Rightarrow> int option" where
  "meal_plan_day_index z now weekOf =
     (case date_parse (tz_utc z) (weekOf @ ''T00:00:00'') of
        None \<Rightarrow> Some (if get_day z now = 0 then 6 else get_day z now - 1)
      | Some weekStart \<Rightarrow>
          (case (start_of_day z now, start_of_day z weekStart) of
             (Some a, Some b) \<Rightarrow> Some (clamp_day ((a - b) div ms_per_day))
           | _ \<Rightarrow> None))"

definition find_dinner_recipe :: "zone \<Rightarrow> int \<Rightarrow> meal_plan option \<Rightarrow> (string \<times> 'r) list \<Rightarrow> 'r option" where
  "find_dinner_recipe z now plan recipes =
     (case plan of
        None \<Rightarrow> None
      | Some p \<Rightarrow>
          (case filter (\<lambda>i. lowercase (ml_rows p ! i) = ''dinner'') [0 ..< length (ml_rows p)] of
             [] \<Rightarrow> None
           | r # _ \<Rightarrow>
               (case (if r < length (ml_grid p) then Some (ml_grid p ! r) else None, meal_plan_day_index z now (ml_week_of p)) of
                  (Some row, Some i) \<Rightarrow>
                    (if nat i < length row then Option.bind (row ! nat i) (map_of recipes) else None)
                | _ \<Rightarrow> None)))"

section \<open>Weather\<close>

definition to_finite_number :: "jsval \<Rightarrow> rat option" where
  "to_finite_number v =
     (case v of
        JNum x \<Rightarrow> Some x
      | JStr s \<Rightarrow> (if trim s \<noteq> [] then (case to_number s of Fin x \<Rightarrow> Some x | _ \<Rightarrow> None) else None)
      | _ \<Rightarrow> None)"

definition coordinate_names :: "(string \<times> string) list" where
  "coordinate_names = [(''weather_latitude'', ''weather_longitude''), (''weatherLat'', ''weatherLon''), (''latitude'', ''longitude'')]"

definition household_weather_coords :: "jsobj option \<Rightarrow> (rat \<times> rat) option" where
  "household_weather_coords settings =
     (case settings of
        None \<Rightarrow> None
      | Some ob \<Rightarrow>
          (case List.map_filter (\<lambda>(a, b). case (to_finite_number (jget ob a), to_finite_number (jget ob b)) of
                 (Some lat, Some lon) \<Rightarrow> Some (lat, lon) | _ \<Rightarrow> None) coordinate_names of
             [] \<Rightarrow> None | c # _ \<Rightarrow> Some c))"

definition desktop_weather_coords :: "jsobj option \<Rightarrow> (rat \<times> rat) option" where
  "desktop_weather_coords settings =
     (case settings of
        None \<Rightarrow> None
      | Some ob \<Rightarrow>
          (case (jget ob ''weather_latitude'', jget ob ''weather_longitude'') of
             (JNum lat, JNum lon) \<Rightarrow> Some (lat, lon) | _ \<Rightarrow> None))"

datatype weather_icon = Sun | Cloud

definition describe_code :: "rat \<Rightarrow> string \<times> weather_icon" where
  "describe_code code =
     (if code = 0 then (''Clear'', Sun) else if code = 1 then (''Mainly clear'', Sun)
      else if code = 2 then (''Partly cloudy'', Cloud) else if code = 3 then (''Overcast'', Cloud)
      else if code = 45 \<or> code = 48 then (''Fog'', Cloud)
      else if code \<ge> 51 \<and> code \<le> 57 then (''Drizzle'', Cloud)
      else if code \<ge> 61 \<and> code \<le> 67 then (''Rain'', Cloud)
      else if code \<ge> 71 \<and> code \<le> 77 then (''Snow'', Cloud)
      else if code \<ge> 80 \<and> code \<le> 82 then (''Showers'', Cloud)
      else if code = 85 \<or> code = 86 then (''Snow showers'', Cloud)
      else if code = 95 then (''Thunderstorm'', Cloud)
      else if code = 96 \<or> code = 99 then (''Thunder + hail'', Cloud)
      else ([CHR 0xE2, CHR 0x80, CHR 0x94], Cloud))"

text \<open>
  The request for the weather. The service is documented to answer with numbers; an answer of any other
  shape counts as a failure here, as the missing parts do in the code.
\<close>

record weather_snapshot =
  wx_now :: int
  wx_high :: int
  wx_low :: int
  wx_code :: rat
  wx_label :: string
  wx_icon :: weather_icon

definition weather_params :: "rat \<Rightarrow> rat \<Rightarrow> search_params" where
  "weather_params lat lon =
     [(''latitude'', num_str lat), (''longitude'', num_str lon), (''current'', ''temperature_2m,weather_code''),
      (''daily'', ''temperature_2m_max,temperature_2m_min''), (''temperature_unit'', ''fahrenheit''), (''forecast_days'', ''1''),
      (''timezone'', ''auto'')]"

definition weather_request :: "rat \<Rightarrow> rat \<Rightarrow> http_request" where
  "weather_request lat lon =
     \<lparr>rq_method = ''GET'', rq_url = ''https://api.open-meteo.com/v1/forecast?'' @ params_str (weather_params lat lon),
      rq_headers = [], rq_body = None\<rparr>"

definition weather_of :: "jsval \<Rightarrow> weather_snapshot option" where
  "weather_of json =
     (case (opt_prop (opt_prop json ''current'') ''temperature_2m'', opt_prop (opt_prop json ''current'') ''weather_code'',
            opt_index (opt_prop (opt_prop json ''daily'') ''temperature_2m_max'') 0,
            opt_index (opt_prop (opt_prop json ''daily'') ''temperature_2m_min'') 0) of
        (JNum t, JNum c, JNum hi, JNum lo) \<Rightarrow>
          Some \<lparr>wx_now = math_round t, wx_high = math_round hi, wx_low = math_round lo, wx_code = c,
                wx_label = fst (describe_code c), wx_icon = snd (describe_code c)\<rparr>
      | _ \<Rightarrow> None)"

definition fetch_weather :: "(http_request \<Rightarrow> http_response option) \<Rightarrow> rat \<Rightarrow> rat \<Rightarrow> weather_snapshot option" where
  "fetch_weather net lat lon =
     (case net (weather_request lat lon) of
        None \<Rightarrow> None
      | Some res \<Rightarrow> if \<not> resp_ok res then None else Option.bind (resp_json res) weather_of)"

text \<open>The query is enabled with coordinates, unless the caller says otherwise; without them it fails.\<close>

definition weather_enabled :: "(rat \<times> rat) option \<Rightarrow> bool option \<Rightarrow> bool" where
  "weather_enabled coords enabled = (case enabled of Some b \<Rightarrow> b | None \<Rightarrow> coords \<noteq> None)"

definition weather_key :: "(rat \<times> rat) option \<Rightarrow> bool option \<Rightarrow> jsval list" where
  "weather_key coords enabled =
     (let (lat, lon) = (if weather_enabled coords enabled then (case coords of Some c \<Rightarrow> c | None \<Rightarrow> (0, 0)) else (0, 0))
      in [JStr ''weather'', JNum lat, JNum lon])"

definition query_weather ::
  "(http_request \<Rightarrow> http_response option) \<Rightarrow> (rat \<times> rat) option \<Rightarrow> bool option \<Rightarrow> weather_snapshot option" where
  "query_weather net coords enabled =
     (if \<not> weather_enabled coords enabled then None
      else case coords of None \<Rightarrow> None | Some (lat, lon) \<Rightarrow> fetch_weather net lat lon)"

section \<open>The desktop\<close>

datatype dash_view = DashError | DashLoading | DashShown

definition desktop_view :: "bool \<Rightarrow> bool \<Rightarrow> bool \<Rightarrow> bool \<Rightarrow> dash_view" where
  "desktop_view anyError listsPending hasHousehold householdPending =
     (if anyError then DashError else if listsPending \<or> hasHousehold \<and> householdPending then DashLoading else DashShown)"

definition pending_count :: "'a list option \<Rightarrow> 'b list option \<Rightarrow> nat" where
  "pending_count redemptions adHoc =
     (case redemptions of None \<Rightarrow> 0 | Some rs \<Rightarrow> length rs) + (case adHoc of None \<Rightarrow> 0 | Some ts \<Rightarrow> length ts)"

text \<open>\<^verbatim>\<open>d.setFullYear(y)\<close>.\<close>

definition set_full_year :: "zone \<Rightarrow> int \<Rightarrow> int \<Rightarrow> int option" where
  "set_full_year z y t =
     (let c = local_date z t in time_clip (tz_utc z (js_day y (int (cv_month c)) (cv_day c) * ms_per_day + local_ms z t)))"

definition is_yearly :: "tbd_event \<Rightarrow> bool" where
  "is_yearly e = contains (uppercase (case ev_recurrence_rule e of None \<Rightarrow> [] | Some r \<Rightarrow> r)) ''FREQ=YEARLY''"

text \<open>The next anniversary of an event; \<open>None\<close> when a date is invalid or it lies beyond the horizon.\<close>

definition next_anniversary :: "zone \<Rightarrow> int \<Rightarrow> int \<Rightarrow> int option" where
  "next_anniversary z today orig =
     (let oc = local_date z orig; y = cv_year (local_date z today)
      in case new_date z y (int (cv_month oc)) (cv_day oc) of
           None \<Rightarrow> None
         | Some nxt \<Rightarrow> if nxt < today then set_full_year z (cv_year (local_date z nxt) + 1) nxt else Some nxt)"

definition celebration :: "zone \<Rightarrow> int \<Rightarrow> int \<Rightarrow> tbd_event \<Rightarrow> (tbd_event \<times> int) option" where
  "celebration z today horizon e =
     (case start_date z e of
        None \<Rightarrow> None
      | Some orig \<Rightarrow>
          (case next_anniversary z today orig of
             None \<Rightarrow> None | Some w \<Rightarrow> if w \<le> horizon then Some (e, w) else None))"

definition celebrations :: "zone \<Rightarrow> int \<Rightarrow> tbd_event list \<Rightarrow> (tbd_event \<times> int) list" where
  "celebrations z now events =
     (case set_hms z 0 0 0 0 now of
        None \<Rightarrow> []
      | Some today \<Rightarrow>
          (case set_date z (cv_day (local_date z today) + 60) today of
             None \<Rightarrow> []
           | Some horizon \<Rightarrow> take 4 (sort_key snd (List.map_filter (celebration z today horizon) (filter is_yearly events)))))"

definition celebration_label :: "int \<Rightarrow> int \<Rightarrow> string" where
  "celebration_label today w =
     (let days = math_round (of_int (w - today) / of_int ms_per_day)
      in if days = 0 then ''TODAY'' else if days = 1 then ''TOMORROW'' else ''IN '' @ int_str days @ ''d'')"

section \<open>Midnights in order\<close>

text \<open>
  What the celebrations rely on beyond a calendar: midnights come in the order of their days. Zones with
  one offset and zones whose clocks change early in the day satisfy it.
\<close>

locale calendar_zone = local_zone +
  assumes midnight_less: "m < n \<Longrightarrow> tz_utc z (m * ms_per_day) < tz_utc z (n * ms_per_day)"
begin

lemma midnight_less_iff: "tz_utc z (m * ms_per_day) < tz_utc z (n * ms_per_day) \<longleftrightarrow> m < n"
  using midnight_less[of m n] midnight_less[of n m] by (cases m n rule: linorder_cases) auto

lemma set_midnight_value: "set_hms z 0 0 0 0 now = Some t \<Longrightarrow> t = tz_utc z (local_day z now * ms_per_day)"
  by (simp add: set_hms_def time_clip_def split: if_splits)

lemma new_date_value:
  "new_date z y m d = Some t \<Longrightarrow> 99 < y \<Longrightarrow> t = tz_utc z (js_day y m d * ms_per_day)"
  by (simp add: new_date_def time_clip_def split: if_splits)

end

interpretation fixed_calendar: calendar_zone "fixed_zone off"
  by unfold_locales (simp add: fixed_zone_def ms_per_day_def)

sublocale clock_change \<subseteq> change_calendar: calendar_zone "change_zone a b s"
proof unfold_locales
  fix m n :: int
  assume "m < n"
  then have "m * ms_per_day + ms_per_day \<le> n * ms_per_day" by (simp add: ms_per_day_def)
  moreover have "a < b \<Longrightarrow> b - a \<le> 21600000" using gap_start gap_end by (smt (verit) pos_mod_sign ms_per_day_def)
  ultimately show "tz_utc (change_zone a b s) (m * ms_per_day) < tz_utc (change_zone a b s) (n * ms_per_day)"
    by (auto simp: change_zone_def ms_per_day_def)
qed

section \<open>Anniversaries\<close>

lemma year_less_day: "cv_year (civil_of_day m) < cv_year (civil_of_day n) \<Longrightarrow> m < n"
proof -
  assume "cv_year (civil_of_day m) < cv_year (civil_of_day n)"
  then have "year_of_day m + 1 \<le> year_of_day n" by (simp add: civil_of_day_def Let_def)
  then show "m < n" using day_from_year_mono year_of_day[of m] year_of_day[of n] by fastforce
qed

text \<open>The day of the month of \<open>c\<close> in another year; the leap day has none in most years.\<close>

definition day_in_year :: "int \<Rightarrow> civil \<Rightarrow> int" where
  "day_in_year y c = js_day y (int (cv_month c)) (cv_day c)"

lemma month_length_other: "m \<noteq> 1 \<Longrightarrow> m < 12 \<Longrightarrow> month_length y m = month_length y' m"
  and february_length: "28 \<le> month_length y 1" "month_length y 1 \<le> 29"
proof -
  show "28 \<le> month_length y 1" "month_length y 1 \<le> 29" unfolding month_length_def one_add_one by (simp_all add: month_start_values)
  assume "m \<noteq> 1" "m < 12"
  then have "m \<in> set ([0] @ [2..<12])" by (cases "m = 0") (simp_all only: set_append set_upt, auto)
  moreover have "\<forall>i \<in> set ([0] @ [2..<12]). month_start l (i + 1) - month_start l i = month_start k (i + 1) - month_start k i" for l k
    by (simp add: upt_rec month_start_def)
  ultimately show "month_length y m = month_length y' m" unfolding month_length_def by blast
qed

lemma civil_day_in_year:
  assumes "valid_civil c" and "\<not> (cv_month c = 1 \<and> cv_day c = 29)"
  shows "civil_of_day (day_in_year y c) = \<lparr>cv_year = y, cv_month = cv_month c, cv_day = cv_day c\<rparr>"
proof -
  have "cv_day c \<le> month_length y (cv_month c)"
  proof (cases "cv_month c = 1")
    case True
    then show ?thesis using assms february_length[of "cv_year c"] february_length[of y] by (auto simp: valid_civil_def)
  next
    case False
    then show ?thesis using assms month_length_other[OF False, of "cv_year c" y] by (auto simp: valid_civil_def)
  qed
  then have "valid_civil \<lparr>cv_year = y, cv_month = cv_month c, cv_day = cv_day c\<rparr>"
    using assms(1) by (simp add: valid_civil_def)
  from civil_make[OF this] show ?thesis using assms(1) by (simp add: day_in_year_def js_day_def valid_civil_def)
qed

lemma next_anniversary_day:
  assumes "valid_civil c" and "\<not> (cv_month c = 1 \<and> cv_day c = 29)"
    and "y = cv_year (civil_of_day t)"
    and "d = (if day_in_year y c < t then day_in_year (y + 1) c else day_in_year y c)"
  shows "t \<le> d \<and> cv_month (civil_of_day d) = cv_month c \<and> cv_day (civil_of_day d) = cv_day c \<and>
    (\<forall>n. t \<le> n \<and> cv_month (civil_of_day n) = cv_month c \<and> cv_day (civil_of_day n) = cv_day c \<longrightarrow> d \<le> n)"
proof -
  note civ = civil_day_in_year[OF assms(1,2)]
  have "t \<le> d" using assms(3,4) year_less_day[of t "day_in_year (y + 1) c"] by (auto simp: civ)
  moreover have "d \<le> n" if n: "t \<le> n" "cv_month (civil_of_day n) = cv_month c" "cv_day (civil_of_day n) = cv_day c" for n
  proof -
    let ?yn = "cv_year (civil_of_day n)"
    have nd: "n = day_in_year ?yn c" using n(2,3) js_day_civil[of n "cv_day c"] by (simp add: day_in_year_def)
    have mono: "day_in_year a c \<le> day_in_year b c" if "a \<le> b" for a b
      using that year_less_day[of "day_in_year a c" "day_in_year b c"] by (cases "a = b") (auto simp: civ)
    have "y \<le> ?yn" using n(1) assms(3) year_less_day[of n t] by force
    moreover have "y \<noteq> ?yn" if "day_in_year y c < t" using that n(1) nd by auto
    ultimately have "(if day_in_year y c < t then y + 1 else y) \<le> ?yn" by auto
    from mono[OF this] show ?thesis using nd assms(4) by (auto split: if_splits)
  qed
  moreover have "cv_month (civil_of_day d) = cv_month c \<and> cv_day (civil_of_day d) = cv_day c"
    using assms(4) by (simp add: civ)
  ultimately show ?thesis by blast
qed

lemma map_filter_member: "y \<in> set (List.map_filter f xs) \<longleftrightarrow> (\<exists>x \<in> set xs. f x = Some y)"
  by (induction xs) (auto simp: List.map_filter_simps split: option.splits)

lemma celebrations_member:
  assumes "(e, w) \<in> set (celebrations z now events)"
  obtains today horizon orig where "set_hms z 0 0 0 0 now = Some today"
    and "set_date z (cv_day (local_date z today) + 60) today = Some horizon" and "start_date z e = Some orig"
    and "next_anniversary z today orig = Some w" and "w \<le> horizon" and "e \<in> set events" and "is_yearly e"
proof -
  from assms obtain today where today: "set_hms z 0 0 0 0 now = Some today" by (cases "set_hms z 0 0 0 0 now") (auto simp: celebrations_def)
  from assms obtain horizon where horizon: "set_date z (cv_day (local_date z today) + 60) today = Some horizon"
    by (cases "set_date z (cv_day (local_date z today) + 60) today") (auto simp: celebrations_def today)
  from assms have "(e, w) \<in> set (List.map_filter (celebration z today horizon) (filter is_yearly events))"
    unfolding celebrations_def today horizon option.case by (metis in_set_takeD set_sort)
  then obtain x where x: "x \<in> set events" "is_yearly x" and c: "celebration z today horizon x = Some (e, w)"
    by (auto simp: map_filter_member)
  from c obtain orig where orig: "start_date z x = Some orig" by (cases "start_date z x") (auto simp: celebration_def)
  from c have nxt: "next_anniversary z today orig = Some w" "w \<le> horizon" "e = x"
    by (auto simp: celebration_def orig split: option.splits if_splits)
  show thesis using that[OF today horizon _ nxt(1,2)] orig x nxt(3) by simp
qed

section \<open>Properties\<close>

text \<open>
  C35. Every celebration on the desktop is the next anniversary of its event: of the days from today on, the
  first with the month and day of the event, and no later than the horizon of sixty days. The leap day
  is left out.
\<close>

theorem celebration_is_next_anniversary:
  assumes zone: "calendar_zone z" and mem: "(e, w) \<in> set (celebrations z now events)"
    and orig: "start_date z e = Some orig" and leap: "\<not> (cv_month (local_date z orig) = 1 \<and> cv_day (local_date z orig) = 29)"
    and year: "99 < cv_year (local_date z now)"
  shows "local_day z now \<le> local_day z w \<and>
    cv_month (local_date z w) = cv_month (local_date z orig) \<and> cv_day (local_date z w) = cv_day (local_date z orig) \<and>
    (\<forall>n. local_day z now \<le> n \<and> cv_month (civil_of_day n) = cv_month (local_date z orig) \<and>
       cv_day (civil_of_day n) = cv_day (local_date z orig) \<longrightarrow> local_day z w \<le> n)"
proof -
  let ?c = "local_date z orig" and ?t = "local_day z now" and ?y = "cv_year (local_date z now)"
  note lz = calendar_zone.axioms(1)[OF zone]
  from celebrations_member[OF mem] orig obtain today where today: "set_hms z 0 0 0 0 now = Some today"
    and nxt: "next_anniversary z today orig = Some w" by (metis option.inject)
  have t: "today = tz_utc z (?t * ms_per_day)" using calendar_zone.set_midnight_value[OF zone today] .
  have td: "local_day z today = ?t" using local_zone.set_midnight(1)[OF lz today] .
  then have ty: "cv_year (local_date z today) = ?y" by (simp add: local_date_def)
  have valid: "valid_civil ?c" by (simp add: local_date_def valid_civil_of_day)
  from nxt obtain a where a: "new_date z ?y (int (cv_month ?c)) (cv_day ?c) = Some a"
    and w: "(if a < today then set_full_year z (cv_year (local_date z a) + 1) a else Some a) = Some w"
    by (auto simp: next_anniversary_def Let_def ty split: option.splits)
  have av: "a = tz_utc z (day_in_year ?y ?c * ms_per_day)"
    using calendar_zone.new_date_value[OF zone a year] by (simp add: day_in_year_def)
  have ad: "local_day z a = day_in_year ?y ?c"
    using local_zone.new_date_day[OF lz a] year by (simp add: day_in_year_def)
  have ac: "local_date z a = \<lparr>cv_year = ?y, cv_month = cv_month ?c, cv_day = cv_day ?c\<rparr>"
    using civil_day_in_year[OF valid leap, of ?y] by (simp add: local_date_def ad)
  have "a < today \<longleftrightarrow> day_in_year ?y ?c < ?t"
    unfolding av t using calendar_zone.midnight_less_iff[OF zone] .
  moreover have "local_day z w = day_in_year (?y + 1) ?c" if "a < today"
    using that w local_zone.same_day[OF lz local_ms_range]
    by (auto simp: set_full_year_def Let_def ac day_in_year_def time_clip_def split: if_splits)
  ultimately have "local_day z w = (if day_in_year ?y ?c < ?t then day_in_year (?y + 1) ?c else day_in_year ?y ?c)"
    using w ad by (auto split: if_splits)
  from next_anniversary_day[OF valid leap _ this] show ?thesis by (simp add: local_date_def)
qed

definition birthday :: tbd_event where
  "birthday = (demo_kiosk_event ''b1'' ''1990-06-01T12:00:00Z'')\<lparr>ev_recurrence_rule := Some ''FREQ=YEARLY''\<rparr>"

theorem celebration_is_next_anniversary_witness:
  "celebrations (fixed_zone 0) 1776816000005 [birthday] = [(birthday, 1780272000000)] \<and>
   local_day (fixed_zone 0) 1776816000005 \<le> local_day (fixed_zone 0) 1780272000000"
proof -
  have c: "celebrations (fixed_zone 0) 1776816000005 [birthday] = [(birthday, 1780272000000)]"
    "start_date (fixed_zone 0) birthday = Some 644241600000"
    "\<not> (cv_month (local_date (fixed_zone 0) 644241600000) = 1 \<and> cv_day (local_date (fixed_zone 0) 644241600000) = 29)"
    "99 < cv_year (local_date (fixed_zone 0) 1776816000005)" by code_simp+
  have "(birthday, 1780272000000) \<in> set (celebrations (fixed_zone 0) 1776816000005 [birthday])" by (simp add: c(1))
  from celebration_is_next_anniversary[OF fixed_calendar.calendar_zone_axioms this c(2-4)] c(1) show ?thesis by blast
qed

text \<open>
  The dinner shown is that of today: with one offset the index is the number of days since the plan's
  week began, kept within the week. When the clocks went forward in between, the index is one too small,
  because the difference of the midnights is divided and rounded down.
\<close>

theorem dinner_day_index:
  assumes "date_parse (tz_utc z) (weekOf @ ''T00:00:00'') = Some ws"
    and "start_of_day z now = Some x" and "start_of_day z ws = Some y"
    and "99 < cv_year (local_date z now)" and "99 < cv_year (local_date z ws)"
  shows "(z = fixed_zone off \<longrightarrow>
      meal_plan_day_index z now weekOf = Some (clamp_day (local_day z now - local_day z ws))) \<and>
    (z = change_zone a b s \<and> a < b \<and> b - a < ms_per_day \<and>
       local_day z ws * ms_per_day - a < s \<and> s \<le> local_day z now * ms_per_day - b \<longrightarrow>
     meal_plan_day_index z now weekOf = Some (clamp_day (local_day z now - local_day z ws - 1)))"
proof -
  have sod: "u = tz_utc z (local_day z t * ms_per_day)"
    if "start_of_day z t = Some u" "99 < cv_year (local_date z t)" for t u
    using that js_day_civil[of "local_day z t"]
    by (auto simp: start_of_day_def Let_def new_date_def local_date_def time_clip_def split: if_splits)
  let ?n = "local_day z now" and ?w = "local_day z ws"
  have i: "meal_plan_day_index z now weekOf =
      Some (clamp_day ((tz_utc z (?n * ms_per_day) - tz_utc z (?w * ms_per_day)) div ms_per_day))"
    unfolding meal_plan_day_index_def assms(1-3) option.case prod.case sod[OF assms(2,4)] sod[OF assms(3,5)] ..
  have "(?n * ms_per_day - off - (?w * ms_per_day - off)) div ms_per_day = ?n - ?w"
  proof -
    have "?n * ms_per_day - off - (?w * ms_per_day - off) = (?n - ?w) * ms_per_day" by (simp add: algebra_simps)
    then show ?thesis by (simp add: ms_per_day_def)
  qed
  moreover have "(?n * ms_per_day - b - (?w * ms_per_day - a)) div ms_per_day = ?n - ?w - 1" if "a < b" "b - a < ms_per_day"
  proof -
    have "?n * ms_per_day - b - (?w * ms_per_day - a) = (?n - ?w - 1) * ms_per_day + (ms_per_day - (b - a))"
      by (simp add: algebra_simps)
    moreover have "0 \<le> ms_per_day - (b - a)" "ms_per_day - (b - a) < ms_per_day" using that by simp_all
    ultimately show ?thesis using day_ms_of_sum(1)[of "ms_per_day - (b - a)" "?n - ?w - 1"]
      unfolding day_of_ms_def by presburger
  qed
  ultimately show ?thesis unfolding i by (auto simp: fixed_zone_def change_zone_def)
qed

theorem dinner_day_index_witness:
  "meal_plan_day_index (fixed_zone 0) 1776816000005 ''2026-04-20'' = Some 2"
proof -
  have d: "date_parse (tz_utc (fixed_zone 0)) (''2026-04-20'' @ ''T00:00:00'') = Some 1776643200000"
    "start_of_day (fixed_zone 0) 1776816000005 = Some 1776816000000"
    "start_of_day (fixed_zone 0) 1776643200000 = Some 1776643200000"
    "99 < cv_year (local_date (fixed_zone 0) 1776816000005)" "99 < cv_year (local_date (fixed_zone 0) 1776643200000)"
    "clamp_day (local_day (fixed_zone 0) 1776816000005 - local_day (fixed_zone 0) 1776643200000) = 2" by code_simp+
  from dinner_day_index[OF d(1-5), of 0] d(6) show ?thesis by simp
qed

text \<open>
  The weather on a dashboard is the service's answer for the coordinates that the household stored: a
  snapshot comes from a successful answer to a request whose parameters carry exactly these, and its
  rounded temperatures are within half a degree.
\<close>

theorem weather_for_stored_place:
  assumes "query_weather net (household_weather_coords settings) None = Some w"
  shows "\<exists>lat lon r json t c hi lo. household_weather_coords settings = Some (lat, lon) \<and>
    net (weather_request lat lon) = Some r \<and> resp_ok r \<and> resp_json r = Some json \<and>
    map_of (params_parse (drop (length ''https://api.open-meteo.com/v1/forecast?'') (rq_url (weather_request lat lon)))) ''latitude'' =
      Some (num_str lat) \<and>
    opt_prop (opt_prop json ''current'') ''temperature_2m'' = JNum t \<and> \<bar>of_int (wx_now w) - t\<bar> \<le> 1 / 2 \<and>
    opt_index (opt_prop (opt_prop json ''daily'') ''temperature_2m_max'') 0 = JNum hi \<and> \<bar>of_int (wx_high w) - hi\<bar> \<le> 1 / 2 \<and>
    opt_index (opt_prop (opt_prop json ''daily'') ''temperature_2m_min'') 0 = JNum lo \<and> \<bar>of_int (wx_low w) - lo\<bar> \<le> 1 / 2 \<and>
    opt_prop (opt_prop json ''current'') ''weather_code'' = JNum c \<and> (wx_label w, wx_icon w) = describe_code c"
proof -
  from assms obtain lat lon where c: "household_weather_coords settings = Some (lat, lon)"
    and f: "fetch_weather net lat lon = Some w"
    by (cases "household_weather_coords settings") (auto simp: query_weather_def weather_enabled_def)
  from f obtain r json where r: "net (weather_request lat lon) = Some r" "resp_ok r" "resp_json r = Some json"
    and w: "weather_of json = Some w"
    by (auto simp: fetch_weather_def bind_eq_Some_conv split: option.splits if_splits)
  from w obtain t c hi lo where j: "opt_prop (opt_prop json ''current'') ''temperature_2m'' = JNum t"
      "opt_prop (opt_prop json ''current'') ''weather_code'' = JNum c"
      "opt_index (opt_prop (opt_prop json ''daily'') ''temperature_2m_max'') 0 = JNum hi"
      "opt_index (opt_prop (opt_prop json ''daily'') ''temperature_2m_min'') 0 = JNum lo"
    and ws: "w = \<lparr>wx_now = math_round t, wx_high = math_round hi, wx_low = math_round lo, wx_code = c,
                wx_label = fst (describe_code c), wx_icon = snd (describe_code c)\<rparr>"
    unfolding weather_of_def by (auto split: jsval.splits)
  have half: "\<bar>of_int (math_round x) - x\<bar> \<le> 1 / 2" for x :: rat
    unfolding math_round_def using floor_correct[of "x + 1 / 2"] by linarith
  have d: "drop (length ''https://api.open-meteo.com/v1/forecast?'') (rq_url (weather_request lat lon)) =
      params_str (weather_params lat lon)"
    by (simp add: weather_request_def)
  have "map_of (weather_params lat lon) ''latitude'' = Some (num_str lat)" by (simp add: weather_params_def)
  then have p: "map_of (params_parse (drop (length ''https://api.open-meteo.com/v1/forecast?'') (rq_url (weather_request lat lon))))
      ''latitude'' = Some (num_str lat)"
    unfolding d params_parse_str .
  show ?thesis
    using c r j p half[of t] half[of hi] half[of lo]
    by (intro exI[of _ lat] exI[of _ lon] exI[of _ r] exI[of _ json] exI[of _ t] exI[of _ c] exI[of _ hi] exI[of _ lo])
      (simp only: ws weather_snapshot.simps prod.collapse simp_thms)
qed

text \<open>
  The member column: a press selects the member, makes it the active one and shows its events together
  with those of nobody in particular. A second press undoes the choice of the screen and the switch, so that
  the signed-in member is selected; only when nobody is signed in, or nobody with a tile, everything is shown.
\<close>

theorem press_selects_and_undoes:
  assumes "selected_member_id members s \<noteq> Some (mem_id m)" and "mem_id m \<noteq> []"
  shows "let s1 = press_member members m s; s2 = press_member members m s1 in
    selected_member_id members s1 = Some (mem_id m) \<and> fst (the (kd_active s1)) = mem_id m \<and>
    filter_events_for_member events (selected_member_id members s1) =
      filter (\<lambda>e. assignees e = [] \<or> mem_id m \<in> set (assignees e)) events \<and>
    kd_active s2 = None \<and>
    (case kd_own s of
       Some a \<Rightarrow> selected_member_id members s2 = (if fst a \<in> mem_id ` set (active_targets members) then Some (fst a) else None)
     | None \<Rightarrow> selected_member_id members s2 = None) \<and>
    (selected_member_id members s2 = None \<longrightarrow> filter_events_for_member events (selected_member_id members s2) = events)"
proof -
  let ?a = "(mem_id m, mem_name m, if mem_role m = ''child'' then ''child'' else ''adult'')"
  have p1: "press_member members m s = s\<lparr>kd_sel := Some (mem_id m), kd_active := Some ?a\<rparr>"
    using assms(1) unfolding press_member_def by (rule if_not_P)
  have s1: "selected_member_id members (s\<lparr>kd_sel := Some (mem_id m), kd_active := Some ?a\<rparr>) = Some (mem_id m)"
    by (simp add: selected_member_id_def)
  have p2: "press_member members m (s\<lparr>kd_sel := Some (mem_id m), kd_active := Some ?a\<rparr>) = s\<lparr>kd_sel := None, kd_active := None\<rparr>"
    unfolding press_member_def s1 by simp
  show ?thesis unfolding Let_def p1 p2 s1 using assms(2)
    by (simp add: filter_events_for_member_def selected_member_id_def kiosk_active_id_def split: option.splits)
qed

definition demo_child :: member where
  "demo_child = \<lparr>mem_id = ''m1'', mem_name = ''Mia'', mem_full = None, mem_role = ''child'', mem_display_name = None,
     mem_age_group = None, mem_color = [], mem_initial = ''M'', mem_stars = 0, mem_streak = 0\<rparr>"

theorem press_selects_and_undoes_witness:
  "let m = demo_child; s = \<lparr>kd_sel = None, kd_active = None, kd_own = Some (''m9'', ''Ann'', ''adult'')\<rparr> in
   kd_active (press_member [m] m (press_member [m] m s)) = None"
  using press_selects_and_undoes[of "[demo_child]" "\<lparr>kd_sel = None, kd_active = None, kd_own = Some (''m9'', ''Ann'', ''adult'')\<rparr>" demo_child "[]"]
  by (simp add: Let_def selected_member_id_def kiosk_active_id_def active_targets_def demo_child_def)

text \<open>The tile of the signed-in member cannot be released: pressed again it is still selected.\<close>

lemma own_tile_stays_selected:
  assumes "m \<in> set (active_targets members)" and "kd_own s = Some (mem_id m, n, r)"
  shows "selected_member_id members (press_member members m s) = Some (mem_id m)"
  using assms by (auto simp: press_member_def selected_member_id_def kiosk_active_id_def)

lemma contains_char: "contains s [c] \<longleftrightarrow> c \<in> set s"
  by (induction s) (auto simp: starts_with_def)

lemma jnum_str_of_nat: "jnum_str (Fin (of_nat n)) = nat_str n"
  by (simp add: jnum_str_def num_str_def is_int_def int_str_def)

lemma twelve_hours:
  assumes "h < 24"
  shows "js_rem (of_nat h + 11) 12 + 1 = of_nat (if h mod 12 = 0 then 12 else h mod 12)"
proof -
  have "\<forall>h \<in> set [0..<24]. js_rem (of_nat h + 11) 12 + 1 = of_nat (if h mod 12 = 0 then 12 else h mod 12)"
    by code_simp
  then show ?thesis using assms by auto
qed

text \<open>
  A time of the day is printed on the twelve-hour clock: hours and minutes written with digits give the
  hour between one and twelve, the minutes with two digits, and the half of the day.
\<close>

theorem fmt_time_clock:
  assumes "h < 24" and "m < 60"
  shows "fmt_time clock z (nat_str h @ '':'' @ pad_num 2 (int m)) =
    nat_str (if h mod 12 = 0 then 12 else h mod 12) @ '':'' @ pad_num 2 (int m) @ (if h < 12 then '' AM'' else '' PM'')"
proof -
  let ?H = "nat_str h" and ?M = "pad_num 2 (int m)"
  note M = pad_num_props[of "int m" 2]
  have M: "length ?M = 2" "digits_val ?M = m" "list_all is_digit ?M" using M assms(2) by simp_all
  have Mne: "?M \<noteq> []" using M(1) by force
  have digit: "c \<notin> set w" if "list_all is_digit w" "\<not> is_digit c" for c w using that by (auto simp: list_all_iff)
  have T: "\<not> is_digit (CHR ''T'')" "\<not> is_digit (CHR '':'')" by (simp_all add: is_digit_def code_of_def)
  have c: "\<not> contains (?H @ '':'' @ ?M) ''T''"
    using digit[OF nat_str_digits T(1)] digit[OF M(3) T(1)] by (simp add: contains_char)
  have sp: "split_on (CHR '':'') (?H @ '':'' @ ?M) = [?H, ?M]"
    using digit[OF nat_str_digits T(2)] digit[OF M(3) T(2)] by (simp add: split_on_append split_on_none)
  have n: "to_number ?H = Fin (of_nat h)" "to_number ?M = Fin (of_nat m)"
    using to_number_digits[OF nat_str_digits nat_str_nonempty] to_number_digits[OF M(3) Mne] M(2)
    by (simp_all add: digits_nat_str)
  have h12: "jnum_str (hour12 (Fin (of_nat h))) = nat_str (if h mod 12 = 0 then 12 else h mod 12)"
    unfolding hour12_def jnum.case twelve_hours[OF assms(1)] by (rule jnum_str_of_nat)
  have pad: "pad_start 2 (CHR ''0'') (jnum_str (Fin (of_nat m))) = ?M"
    unfolding jnum_str_of_nat by (simp add: pad_num_def)
  have ge: "jleq (Fin 12) (Fin (of_nat h)) \<longleftrightarrow> \<not> h < 12"
    using of_nat_le_iff[of 12 h, where 'a=rat] by (auto simp: jleq_def not_less)
  have ne: "?H @ '':'' @ ?M \<noteq> []" by simp
  show ?thesis
    unfolding fmt_time_def if_not_P[OF ne] if_not_P[OF c] sp list.map n Let_def list.case h12 pad ge
    by simp
qed

theorem fmt_time_clock_witness:
  "fmt_time (\<lambda>t. []) (fixed_zone 0) (nat_str 13 @ '':'' @ pad_num 2 (int 5)) = ''1:05 PM''"
proof -
  have "nat_str (if 13 mod 12 = (0::nat) then 12 else 13 mod 12) @ '':'' @ pad_num 2 (int 5) @
    (if (13::nat) < 12 then '' AM'' else '' PM'') = ''1:05 PM''" by code_simp
  with fmt_time_clock[of 13 5 "\<lambda>t. []" "fixed_zone 0"] show ?thesis by simp
qed

end
