(* ===== verification/MealActions.thy ===== *)
theory MealActions
  imports MealPlan HooksHome AiClient Machine
begin

text \<open>
  The two actions of the meal plan that wait for an answer, \<^verbatim>\<open>web/src/components/screens/recipes.tsx\<close>:
  generating the shopping list of the week, with its messages and its timers, and asking an assistant for
  dinners. Also the views of a recipe. Answers and the passage of time are events.
\<close>

section \<open>Generating the shopping list\<close>

datatype action_status = Idle | Loading | ActionOk | ActionError

text \<open>
  The status and the message of the button; the instants at which pending timers reset the status and
  leave the page; the requests sent so far.
\<close>

record generate_ui =
  gu_now :: int
  gu_status :: action_status
  gu_message :: string
  gu_idle_at :: "int list"
  gu_leave_at :: "int list"
  gu_left :: bool
  gu_sent :: "mutation list"

definition generate_start :: "int \<Rightarrow> generate_ui" where
  "generate_start now =
     \<lparr>gu_now = now, gu_status = Idle, gu_message = [], gu_idle_at = [], gu_leave_at = [], gu_left = False, gu_sent = []\<rparr>"

text \<open>\<open>None\<close> is the RangeError of a week that is no date.\<close>

definition handle_generate_shopping :: "(int \<Rightarrow> int) \<Rightarrow> string option \<Rightarrow> generate_ui \<Rightarrow> generate_ui option" where
  "handle_generate_shopping loc weekOf s =
     (if \<not> truthy weekOf then Some s
      else map_option (\<lambda>to. s\<lparr>gu_status := Loading, gu_message := [],
               gu_sent := gu_sent s @ [use_generate_shopping_list (the weekOf) to]\<rparr>)
             (col_date loc (the weekOf) 6))"

definition generate_failure :: "string \<Rightarrow> string" where
  "generate_failure code =
     (if code = ''missing_meal_plan'' then ''Add recipes to this week before generating a shopping list.''
      else if code = ''missing_recipe_ingredients''
        then ''Planned recipes need ingredients before a shopping list can be generated.''
      else ''Shopping list generation failed. Please retry.'')"

datatype generate_answer = Generated | GenerateFailed string

definition generate_answered :: "generate_answer \<Rightarrow> generate_ui \<Rightarrow> generate_ui" where
  "generate_answered a s =
     (case a of
        Generated \<Rightarrow> s\<lparr>gu_status := ActionOk, gu_message := ''Shopping list generated.'',
                       gu_leave_at := gu_leave_at s @ [gu_now s + 600]\<rparr>
      | GenerateFailed code \<Rightarrow> s\<lparr>gu_status := ActionError, gu_message := generate_failure code,
                       gu_idle_at := gu_idle_at s @ [gu_now s + 3000]\<rparr>)"

definition generate_time :: "nat \<Rightarrow> generate_ui \<Rightarrow> generate_ui" where
  "generate_time d s =
     (let t = gu_now s + int d
      in s\<lparr>gu_now := t,
           gu_status := (if \<exists>x \<in> set (gu_idle_at s). x \<le> t then Idle else gu_status s),
           gu_idle_at := filter (\<lambda>x. t < x) (gu_idle_at s),
           gu_left := (gu_left s \<or> (\<exists>x \<in> set (gu_leave_at s). x \<le> t)),
           gu_leave_at := filter (\<lambda>x. t < x) (gu_leave_at s)\<rparr>)"

text \<open>The button is disabled while loading. Only the callbacks of the last request count.\<close>

datatype generate_event = PressGenerate | GenerateAnswer nat generate_answer | GenerateTime nat

fun generate_step :: "(int \<Rightarrow> int) \<Rightarrow> string option \<Rightarrow> generate_event \<Rightarrow> generate_ui \<Rightarrow> generate_ui" where
  "generate_step loc weekOf PressGenerate s =
     (if gu_status s = Loading then s
      else (case handle_generate_shopping loc weekOf s of None \<Rightarrow> s | Some s' \<Rightarrow> s'))"
| "generate_step loc weekOf (GenerateAnswer n a) s =
     (if Suc n = length (gu_sent s) then generate_answered a s else s)"
| "generate_step loc weekOf (GenerateTime d) s = generate_time d s"

section \<open>Asking for dinners\<close>

definition suggest_provider :: "jsval \<Rightarrow> ai_provider option" where
  "suggest_provider keys =
     (if js_truthy (opt_prop keys ''openai'') then Some Openai
      else if js_truthy (opt_prop keys ''anthropic'') then Some Anthropic
      else if js_truthy (opt_prop keys ''google'') then Some Google else None)"

definition quoted :: "string \<Rightarrow> string" where
  "quoted s = CHR 0x22 # s @ [CHR 0x22]"

definition suggest_prompt :: "(string \<times> string) list \<Rightarrow> string" where
  "suggest_prompt recipes =
     ''Suggest 7 dinner recipes for a family of 4 from this list: '' @
     join '', '' (map (\<lambda>(i, t). i @ '': '' @ t) recipes) @
     ''. Return only JSON array: [{'' @ quoted ''day'' @ '':'' @ quoted ''Mon'' @ '','' @ quoted ''recipe_id'' @ '':'' @ quoted ''r1'' @
     '','' @ quoted ''reason'' @ '':'' @ quoted ''...'' @ ''},...] for Mon'' @ [CHR 0xE2, CHR 0x80, CHR 0x93] @ ''Sun.''"

text \<open>The text has an opening bracket and a closing one behind it.\<close>

definition has_array :: "string \<Rightarrow> bool" where
  "has_array s \<longleftrightarrow> CHR '']'' \<in> set (dropWhile (\<lambda>c. c \<noteq> CHR ''['') s)"

datatype suggest_toast = Applied | Unexpected | RequestFailed | Unconfigured

fun toast_text :: "suggest_toast \<Rightarrow> string" where
  "toast_text Applied = ''AI suggestions applied to dinner slots.''"
| "toast_text Unexpected = ''AI responded but returned unexpected format.''"
| "toast_text RequestFailed = ''AI request failed. Check your key in Settings.''"
| "toast_text Unconfigured = ''Configure AI in Settings first.''"

text \<open>
  The requests sent and the toast shown. \<open>text_of\<close> is the text of a stored key that is no string. An
  answer whose text is no string has no \<^verbatim>\<open>match\<close>, which counts as a failure.
\<close>

definition handle_ai_suggest ::
  "network \<Rightarrow> (jsval \<Rightarrow> string) \<Rightarrow> bool \<Rightarrow> storage \<Rightarrow> jsval \<Rightarrow> (string \<times> string) list \<Rightarrow> http_request list \<times> suggest_toast" where
  "handle_ai_suggest net text_of win st keys recipes =
     (if \<not> is_ai_enabled win st then ([], Unconfigured)
      else case suggest_provider keys of
             None \<Rightarrow> ([], Unconfigured)
           | Some p \<Rightarrow>
               (let apiKey = (case opt_prop keys (provider_name p) of JStr k \<Rightarrow> k | v \<Rightarrow> text_of v);
                    (rqs, res) = call_ai net (provider_name p) [\<lparr>am_role = RUser, am_content = suggest_prompt recipes\<rparr>] apiKey None
                in (rqs, case res of
                      Inr (JStr txt) \<Rightarrow> (if has_array txt then Applied else Unexpected)
                    | _ \<Rightarrow> RequestFailed)))"

section \<open>A recipe\<close>

datatype recipe_view = RecipeLoading | RecipeError | RecipeMissing | RecipeShown

text \<open>\<open>status\<close> is the HTTP status of the error, if it has one.\<close>

definition recipe_view_of :: "string option \<Rightarrow> bool \<Rightarrow> int option option \<Rightarrow> bool \<Rightarrow> recipe_view" where
  "recipe_view_of i isPending err hasData =
     (if truthy i \<and> isPending then RecipeLoading
      else if err \<noteq> None \<and> err \<noteq> Some (Some 404) then RecipeError
      else if \<not> hasData then RecipeMissing else RecipeShown)"

section \<open>Lemmas\<close>

definition generate_ok :: "(int \<Rightarrow> int) \<Rightarrow> string option \<Rightarrow> generate_ui \<Rightarrow> bool" where
  "generate_ok loc weekOf s \<longleftrightarrow>
     (\<forall>x \<in> set (gu_idle_at s). x \<le> gu_now s + 3000) \<and> (\<forall>x \<in> set (gu_leave_at s). x \<le> gu_now s + 600) \<and>
     (gu_status s = ActionError \<longrightarrow> gu_idle_at s \<noteq> []) \<and>
     (gu_status s = ActionOk \<longrightarrow> gu_leave_at s \<noteq> [] \<or> gu_left s) \<and>
     (\<forall>m \<in> set (gu_sent s). \<exists>w to. weekOf = Some w \<and> col_date loc w 6 = Some to \<and> m = use_generate_shopping_list w to)"

lemma generate_step_ok: "generate_ok loc weekOf s \<Longrightarrow> generate_ok loc weekOf (generate_step loc weekOf e s)"
proof (cases e)
  case PressGenerate
  assume s: "generate_ok loc weekOf s"
  show ?thesis
  proof (cases "gu_status s = Loading \<or> \<not> truthy weekOf")
    case True
    then show ?thesis using s by (auto simp: PressGenerate handle_generate_shopping_def)
  next
    case False
    then obtain w where w: "weekOf = Some w" by (cases weekOf) auto
    show ?thesis
      using s False
      by (cases "col_date loc w 6") (simp_all add: PressGenerate handle_generate_shopping_def w generate_ok_def)
  qed
next
  case (GenerateAnswer n a)
  assume "generate_ok loc weekOf s"
  then have "generate_ok loc weekOf (generate_answered a s)"
    by (cases a) (auto simp: generate_ok_def generate_answered_def)
  with \<open>generate_ok loc weekOf s\<close> show ?thesis by (simp add: GenerateAnswer)
next
  case (GenerateTime d)
  assume s: "generate_ok loc weekOf s"
  have idle: "filter (\<lambda>x. gu_now s + int d < x) xs \<noteq> []" if "xs \<noteq> []" "\<not> (\<exists>x \<in> set xs. x \<le> gu_now s + int d)" for xs :: "int list"
    using that by (cases xs) auto
  show ?thesis
    using s idle[of "gu_idle_at s"] idle[of "gu_leave_at s"]
    by (auto simp: GenerateTime generate_time_def Let_def generate_ok_def)
qed

interpretation generate: machine "generate_step loc weekOf" "\<lambda>_. True" "generate_ok loc weekOf" for loc weekOf
  by unfold_locales (rule generate_step_ok)

lemma generate_reach: "generate_ok loc weekOf (run (generate_step loc weekOf) es (generate_start now))"
  by (rule generate.run_inv) (simp_all add: generate_ok_def generate_start_def list_all_iff)

lemma generate_times_waiting:
  assumes "gu_idle_at s = []"
  shows "gu_idle_at (run (generate_step loc weekOf) (map GenerateTime ds) s) = [] \<and>
    gu_status (run (generate_step loc weekOf) (map GenerateTime ds) s) = gu_status s \<and>
    gu_sent (run (generate_step loc weekOf) (map GenerateTime ds) s) = gu_sent s"
  using assms by (induction ds arbitrary: s) (simp_all add: generate_time_def Let_def)

lemma has_array_order:
  assumes "has_array s"
  shows "\<exists>i < length s. \<exists>j < length s. i < j \<and> s ! i = CHR ''['' \<and> s ! j = CHR '']''"
proof -
  let ?P = "\<lambda>c. c \<noteq> CHR ''[''" and ?i = "length (takeWhile (\<lambda>c. c \<noteq> CHR ''['') s)"
  have d: "dropWhile ?P s = drop ?i s" by (simp add: dropWhile_eq_drop)
  with assms obtain k where k: "k < length (drop ?i s)" "drop ?i s ! k = CHR '']''"
    by (auto simp: has_array_def in_set_conv_nth)
  then have i: "?i < length s" by auto
  then have a: "s ! ?i = CHR ''[''" using nth_length_takeWhile[of ?P s] by simp
  have j: "?i + k < length s" "s ! (?i + k) = CHR '']''" using k by auto
  have "k \<noteq> 0" using a j(2) by (cases k) auto
  then show ?thesis using i a j by (intro exI[of _ ?i] conjI exI[of _ "?i + k"]) auto
qed

lemma suggest_request_of:
  assumes "is_ai_enabled win st" and "suggest_provider keys = Some p"
  obtains k where "fst (handle_ai_suggest net text_of win st keys recipes) =
      fst (call_ai net (provider_name p) [\<lparr>am_role = RUser, am_content = suggest_prompt recipes\<rparr>] k None)"
    and "snd (handle_ai_suggest net text_of win st keys recipes) =
      (case snd (call_ai net (provider_name p) [\<lparr>am_role = RUser, am_content = suggest_prompt recipes\<rparr>] k None) of
         Inr (JStr txt) \<Rightarrow> if has_array txt then Applied else Unexpected | _ \<Rightarrow> RequestFailed)"
  using assms by (simp add: handle_ai_suggest_def Let_def case_prod_beta')

section \<open>Properties\<close>

text \<open>
  C38. The button settles: after any run, three seconds without a press or an answer take an error back to the
  idle button, a success leaves the page, and every request ever sent asked for the seven days that begin
  with the week on screen.
\<close>

theorem generate_settles:
  "let s = run (generate_step loc weekOf) es (generate_start now); s' = generate_step loc weekOf (GenerateTime 3000) s in
    gu_status s' \<noteq> ActionError \<and> (gu_status s' = ActionOk \<longrightarrow> gu_left s') \<and> gu_idle_at s' = [] \<and> gu_leave_at s' = [] \<and>
    (\<forall>m \<in> set (gu_sent s). \<exists>w to. weekOf = Some w \<and> col_date loc w 6 = Some to \<and> m = use_generate_shopping_list w to)"
proof -
  define s where "s = run (generate_step loc weekOf) es (generate_start now)"
  have ok: "generate_ok loc weekOf s" unfolding s_def by (rule generate_reach)
  then have idle: "\<forall>x \<in> set (gu_idle_at s). x \<le> gu_now s + 3000" and leave: "\<forall>x \<in> set (gu_leave_at s). x \<le> gu_now s + 3000"
    by (force simp: generate_ok_def)+
  have e: "gu_status s = ActionError \<longrightarrow> (\<exists>x \<in> set (gu_idle_at s). x \<le> gu_now s + 3000)"
    and o: "gu_status s = ActionOk \<longrightarrow> gu_left s \<or> (\<exists>x \<in> set (gu_leave_at s). x \<le> gu_now s + 3000)"
    using ok idle leave by (cases "gu_idle_at s"; cases "gu_leave_at s"; force simp: generate_ok_def)+
  have "\<forall>m \<in> set (gu_sent s). \<exists>w to. weekOf = Some w \<and> col_date loc w 6 = Some to \<and> m = use_generate_shopping_list w to"
    using ok by (simp add: generate_ok_def)
  moreover have "filter (\<lambda>x. gu_now s + 3000 < x) (gu_idle_at s) = []" "filter (\<lambda>x. gu_now s + 3000 < x) (gu_leave_at s) = []"
    using idle leave by (auto simp: filter_empty_conv)
  ultimately show ?thesis
    using e o unfolding s_def[symmetric] Let_def by (auto simp: generate_time_def Let_def)
qed

theorem generate_settles_witness:
  "gu_status (generate_step (\<lambda>t. t) (Some ''2026-04-20'') (GenerateTime 3000)
     (run (generate_step (\<lambda>t. t) (Some ''2026-04-20'')) [PressGenerate, GenerateAnswer 0 (GenerateFailed ''x'')] (generate_start 0)))
   \<noteq> ActionError"
  using generate_settles[of "\<lambda>t. t" "Some ''2026-04-20''" "[PressGenerate, GenerateAnswer 0 (GenerateFailed ''x'')]" 0]
  unfolding Let_def by blast

text \<open>
  A request that starts while no timer of an earlier error is pending keeps the button disabled until it
  is answered, however long it takes.
\<close>

theorem button_waits_for_answer:
  assumes "gu_idle_at s = []" and "gu_status s \<noteq> Loading" and "weekOf = Some w" and "w \<noteq> []" and "col_date loc w 6 = Some to"
  shows "let s' = run (generate_step loc weekOf) (PressGenerate # map GenerateTime ds) s in
    gu_status s' = Loading \<and> gu_sent s' = gu_sent s @ [use_generate_shopping_list w to] \<and>
    generate_step loc weekOf PressGenerate s' = s'"
proof -
  define s1 where "s1 = s\<lparr>gu_status := Loading, gu_message := [], gu_sent := gu_sent s @ [use_generate_shopping_list w to]\<rparr>"
  have p: "generate_step loc weekOf PressGenerate s = s1"
    using assms by (simp add: s1_def handle_generate_shopping_def)
  have "gu_idle_at s1 = []" using assms(1) by (simp add: s1_def)
  from generate_times_waiting[OF this, of loc weekOf ds] show ?thesis
    unfolding Let_def run_simps(2) p by (simp add: s1_def)
qed

theorem button_waits_for_answer_witness:
  "gu_status (run (generate_step (\<lambda>t. t) (Some ''2026-04-20'')) (PressGenerate # map GenerateTime [100000]) (generate_start 0)) = Loading"
proof -
  have "col_date (\<lambda>t. t) ''2026-04-20'' 6 = Some ''2026-04-26''" by code_simp
  from button_waits_for_answer[of "generate_start 0" "Some ''2026-04-20''", OF _ _ refl _ this, of "[100000]"]
  show ?thesis by (simp add: generate_start_def Let_def del: run_simps)
qed

text \<open>
  Otherwise the timer of the error before takes the button back to idle while the retry is still under
  way, and a further press sends the request again.
\<close>

theorem stale_timer_enables_retry:
  "length (gu_sent (run (generate_step (\<lambda>t. t) (Some ''2026-04-20''))
     [PressGenerate, GenerateAnswer 0 (GenerateFailed ''x''), GenerateTime 2000, PressGenerate, GenerateTime 1000, PressGenerate]
     (generate_start 0))) = 3"
proof -
  have "col_date (\<lambda>t. t) ''2026-04-20'' 6 = Some ''2026-04-26''" by code_simp
  then show ?thesis
    by (simp add: generate_start_def handle_generate_shopping_def generate_answered_def generate_time_def)
qed

text \<open>
  A suggestion sends nothing exactly when the assistant is switched off or no provider has a key, and then
  asks for a configuration; otherwise it sends one request, to the first provider with a key. The toast
  of success only needs an answer with an opening and a closing bracket.
\<close>

theorem suggestion_request:
  assumes "r = handle_ai_suggest net text_of win st keys recipes"
  shows "(fst r = [] \<longleftrightarrow> \<not> is_ai_enabled win st \<or> suggest_provider keys = None) \<and> (fst r = [] \<longleftrightarrow> snd r = Unconfigured) \<and>
    (is_ai_enabled win st \<and> suggest_provider keys = Some p \<longrightarrow>
       length (fst r) = 1 \<and> starts_with (rq_url (hd (fst r))) (provider_origin (provider_name p))) \<and>
    (snd r = Applied \<longrightarrow> (\<exists>q k txt. snd (call_ai net q [\<lparr>am_role = RUser, am_content = suggest_prompt recipes\<rparr>] k None) = Inr (JStr txt) \<and>
       (\<exists>i < length txt. \<exists>j < length txt. i < j \<and> txt ! i = CHR ''['' \<and> txt ! j = CHR '']'')))"
proof (cases "is_ai_enabled win st \<and> suggest_provider keys \<noteq> None")
  case True
  then obtain q where q: "suggest_provider keys = Some q" and en: "is_ai_enabled win st" by auto
  obtain k where f: "fst r = fst (call_ai net (provider_name q) [\<lparr>am_role = RUser, am_content = suggest_prompt recipes\<rparr>] k None)"
    and g: "snd r = (case snd (call_ai net (provider_name q) [\<lparr>am_role = RUser, am_content = suggest_prompt recipes\<rparr>] k None) of
        Inr (JStr txt) \<Rightarrow> if has_array txt then Applied else Unexpected | _ \<Rightarrow> RequestFailed)"
    unfolding assms by (rule suggest_request_of[OF en q])
  have one: "length (fst r) = 1" "starts_with (rq_url (hd (fst r))) (provider_origin (provider_name q))"
    using ai_call_only_to_provider[of net "provider_name q" "[\<lparr>am_role = RUser, am_content = suggest_prompt recipes\<rparr>]" k None]
    unfolding f[symmetric] by (cases "fst r"; simp)+
  have u: "snd r \<noteq> Unconfigured" unfolding g by (simp split: sum.splits jsval.splits)
  have "snd r = Applied \<Longrightarrow> \<exists>txt. snd (call_ai net (provider_name q) [\<lparr>am_role = RUser, am_content = suggest_prompt recipes\<rparr>] k None) =
      Inr (JStr txt) \<and> has_array txt"
    unfolding g by (simp split: sum.splits jsval.splits if_splits)
  then have a: "snd r = Applied \<Longrightarrow> \<exists>q k txt. snd (call_ai net q [\<lparr>am_role = RUser, am_content = suggest_prompt recipes\<rparr>] k None) = Inr (JStr txt) \<and>
       (\<exists>i < length txt. \<exists>j < length txt. i < j \<and> txt ! i = CHR ''['' \<and> txt ! j = CHR '']'')"
    using has_array_order by blast
  have "fst r \<noteq> []" using one(1) by force
  then show ?thesis using one u a en q by auto
next
  case False
  then have "r = ([], Unconfigured)" by (auto simp: assms handle_ai_suggest_def split: option.splits)
  with False show ?thesis by auto
qed

theorem suggestion_request_witness:
  "handle_ai_suggest (\<lambda>_. None) (\<lambda>_. []) True \<lparr>st_blocked = True, st_full = False, st_items = Map.empty\<rparr> (JObj []) [] = ([], Unconfigured)"
proof -
  let ?r = "handle_ai_suggest (\<lambda>_. None) (\<lambda>_. []) True \<lparr>st_blocked = True, st_full = False, st_items = Map.empty\<rparr> (JObj []) []"
  have "suggest_provider (JObj []) = None" by code_simp
  then have "fst ?r = []" "snd ?r = Unconfigured" using suggestion_request[OF refl] by blast+
  then show ?thesis by (simp add: prod_eq_iff)
qed

end
