(* ===== verification/Boards.thy ===== *)
theory Boards
  imports KioskWidgets UnifiedTasks Notes AdminForms
begin

text \<open>
  The small screens over the data of other components: the task feed with its chips
  (\<^verbatim>\<open>web/src/components/tasks/UnifiedTaskFeed.tsx\<close>), the notes board (\<^verbatim>\<open>components/screens/notes.tsx\<close>),
  the timeline and the scoreboard, the card of a reward (\<^verbatim>\<open>components/ui/reward-card.tsx\<close>), the slideshow,
  the message of a failed query (\<^verbatim>\<open>components/ui/data-state.tsx\<close>), and the pages of the companion
  (\<^verbatim>\<open>app/companion\<close>).
\<close>

section \<open>The task feed\<close>

definition filterable_members :: "member list \<Rightarrow> member list" where
  "filterable_members members =
     filter (\<lambda>m. mem_role m \<noteq> ''pet'' \<and> (case mem_age_group m of None \<Rightarrow> ''adult'' | Some a \<Rightarrow> a) \<noteq> ''pet'') members"

definition press_chip :: "string option \<Rightarrow> string option \<Rightarrow> string option" where
  "press_chip chip selected =
     (case chip of None \<Rightarrow> None | Some i \<Rightarrow> if selected = Some i then None else Some i)"

definition visible_tasks :: "unify_sources \<Rightarrow> string option \<Rightarrow> unified_task list" where
  "visible_tasks s selected = filter_tasks_by_member (unify_tasks s) selected"

section \<open>The notes board\<close>

definition note_colors :: "string list" where
  "note_colors = [''#FEF3C7'', ''#FECACA'', ''#BBF7D0'', ''#BFDBFE'', ''#DDD6FE'', ''#FED7AA'']"

definition author_id :: "string option \<Rightarrow> member list \<Rightarrow> string" where
  "author_id activeMember members =
     (case activeMember of Some i \<Rightarrow> i | None \<Rightarrow> (case members of [] \<Rightarrow> [] | m # _ \<Rightarrow> mem_id m))"

text \<open>The draft that is left, and the note that is added.\<close>

definition handle_add_note :: "string \<Rightarrow> string \<Rightarrow> string \<Rightarrow> string \<times> (string \<times> string \<times> string) option" where
  "handle_add_note draft authorId color =
     (if trim draft = [] \<or> authorId = [] then (draft, None) else ([], Some (trim draft, authorId, color)))"

definition note_age :: "int \<Rightarrow> int option \<Rightarrow> string" where
  "note_age now pinned =
     (case pinned of
        None \<Rightarrow> ''NaNd ago''
      | Some t \<Rightarrow>
          (let sec = (now - t) div 1000
           in if sec < 60 then ''just now''
              else if sec < 3600 then int_str (sec div 60) @ ''m ago''
              else if sec < 86400 then int_str (sec div 3600) @ ''h ago''
              else int_str (sec div 86400) @ ''d ago''))"

definition note_author :: "member list \<Rightarrow> string \<Rightarrow> string" where
  "note_author members i = (case find (\<lambda>m. mem_id m = i) members of Some m \<Rightarrow> mem_name m | None \<Rightarrow> ''Someone'')"

section \<open>Timeline and scoreboard\<close>

datatype timeline_kind = PointGrant | Redemption | CostAdjustment | WalletTransaction

fun timeline_label :: "timeline_kind \<Rightarrow> string" where
  "timeline_label PointGrant = ''Points''"
| "timeline_label Redemption = ''Redemption''"
| "timeline_label CostAdjustment = ''Cost adjustment''"
| "timeline_label WalletTransaction = ''Wallet''"

text \<open>Amounts are whole points or cents.\<close>

definition fmt_amount :: "timeline_kind \<Rightarrow> int \<Rightarrow> string \<Rightarrow> string" where
  "fmt_amount kind amount reason =
     (if kind = WalletTransaction
        then (if amount \<ge> 0 then ''+'' else ''-'') @ ''$'' @ to_fixed 2 (of_int \<bar>amount\<bar> / 100)
      else if kind = Redemption then int_str amount @ '' pts ('' @ reason @ '')''
      else (if amount > 0 then ''+'' else []) @ int_str amount @ '' pts'')"

record score_row =
  sr_member_id :: string
  sr_total :: rat
  sr_by_category :: "(string option \<times> rat) list"

definition rank_label :: "nat \<Rightarrow> string option" where
  "rank_label i = (if i = 0 then None else Some (''#'' @ nat_str (Suc i)))"

definition score_bars :: "score_row \<Rightarrow> (string \<times> rat \<times> rat) list" where
  "score_bars row =
     map (\<lambda>(c, n). (the c, n, if sr_total row \<noteq> 0 then n / sr_total row * 100 else 0))
       (filter (\<lambda>(c, n). truthy c) (sr_by_category row))"

section \<open>The card of a reward\<close>

definition can_afford :: "rat \<Rightarrow> rat \<Rightarrow> bool" where
  "can_afford balance cost \<longleftrightarrow> balance \<ge> cost"

definition cta_label :: "api_reward \<Rightarrow> rat \<Rightarrow> rat \<Rightarrow> string" where
  "cta_label reward balance cost =
     (if can_afford balance cost then (if rw_fulfillment_kind reward = ''self_serve'' then ''Redeem'' else ''Request'')
      else ''Need '' @ num_str (cost - balance) @ '' more'')"

text \<open>\<^verbatim>\<open>Math.min(100, x)\<close>, which is \<open>NaN\<close> for \<open>NaN\<close>.\<close>

definition goal_progress :: "rat \<Rightarrow> rat \<Rightarrow> jnum" where
  "goal_progress balance cost =
     (case jround (jscale 100 (jdiv_fin balance cost)) of
        Fin x \<Rightarrow> Fin (min 100 x) | PosInf \<Rightarrow> Fin 100 | NegInf \<Rightarrow> NegInf | NaN \<Rightarrow> NaN)"

section \<open>Slides and failures\<close>

definition next_slide :: "nat \<Rightarrow> nat \<Rightarrow> nat" where
  "next_slide n i = (if n \<le> 1 then i else (i + 1) mod n)"

definition is_image :: "string \<Rightarrow> bool" where
  "is_image slide \<longleftrightarrow> starts_with slide ''http'' \<or> starts_with slide ''/''"

text \<open>The message of a failed query; an error object is the object of its status, code and message.\<close>

definition error_message :: "jsval \<Rightarrow> string" where
  "error_message e =
     (let parts = filter (\<lambda>p. p \<noteq> [])
            [case opt_prop e ''status'' of JNum n \<Rightarrow> ''HTTP '' @ num_str n | _ \<Rightarrow> [],
             case opt_prop e ''code'' of JStr c \<Rightarrow> c | _ \<Rightarrow> [], case opt_prop e ''message'' of JStr m \<Rightarrow> m | _ \<Rightarrow> []]
      in if parts \<noteq> [] then join '' - '' parts else ''The backend request failed.'')"

section \<open>The companion\<close>

fun outstanding_in :: "shopping_item list \<Rightarrow> nat \<Rightarrow> nat" where
  "outstanding_in [] n = n"
| "outstanding_in (i # items) n = outstanding_in items (if \<not> it_done i then n + 1 else n)"

definition shopping_outstanding :: "shopping option \<Rightarrow> nat" where
  "shopping_outstanding shopping =
     (case shopping of None \<Rightarrow> 0 | Some s \<Rightarrow> fold (\<lambda>c n. outstanding_in (sc_items c) n) (sh_categories s) 0)"

definition companion_counts :: "tbd_event list option \<Rightarrow> api_chore list option \<Rightarrow> shopping option \<Rightarrow> nat \<times> nat \<times> nat" where
  "companion_counts events chores shopping =
     (case events of None \<Rightarrow> 0 | Some es \<Rightarrow> length es, case chores of None \<Rightarrow> 0 | Some cs \<Rightarrow> length cs,
      shopping_outstanding shopping)"

text \<open>The rows of the shopping page, open and done, with their category.\<close>

definition companion_shopping :: "shopping option \<Rightarrow> (shopping_item \<times> string) list \<times> (shopping_item \<times> string) list" where
  "companion_shopping shopping =
     fold (\<lambda>c acc. fold (\<lambda>i (o', d). if it_done i then (o', d @ [(i, sc_name c)]) else (o' @ [(i, sc_name c)], d)) (sc_items c) acc)
       (case shopping of None \<Rightarrow> [] | Some s \<Rightarrow> sh_categories s) ([], [])"

definition companion_chores :: "api_chore list option \<Rightarrow> api_chore list" where
  "companion_chores chores = filter (\<lambda>c. \<not> truthy (ch_archived_at c)) (case chores of None \<Rightarrow> [] | Some cs \<Rightarrow> cs)"

definition member_label :: "member list option \<Rightarrow> string option \<Rightarrow> string" where
  "member_label members memberId =
     (if \<not> truthy memberId \<or> members = None then ''Unassigned''
      else case find (\<lambda>m. Some (mem_id m) = memberId) (the members) of
             Some m \<Rightarrow> wm_name (to_widget_member m) | None \<Rightarrow> ''Unassigned'')"

definition format_when :: "(int \<Rightarrow> string) \<Rightarrow> zone \<Rightarrow> tbd_event \<Rightarrow> string" where
  "format_when clock z e =
     (if \<not> truthy (any_start e) then ''Unscheduled''
      else if contains (the (any_start e)) ''T'' then
        (case date_parse (tz_utc z) (the (any_start e)) of None \<Rightarrow> the (any_start e) | Some t \<Rightarrow> clock t)
      else the (any_start e))"

section \<open>Lemmas\<close>

lemma outstanding_in_count: "outstanding_in items n = n + length (filter (\<lambda>i. \<not> it_done i) items)"
  by (induction items n rule: outstanding_in.induct) auto

lemma outstanding_count:
  "fold (\<lambda>c n. outstanding_in (sc_items c) n) cs n = n + length (concat (map (\<lambda>c. filter (\<lambda>i. \<not> it_done i) (sc_items c)) cs))"
  by (induction cs arbitrary: n) (auto simp: outstanding_in_count)

definition rows_of :: "bool \<Rightarrow> shopping_category list \<Rightarrow> (shopping_item \<times> string) list" where
  "rows_of b cs = concat (map (\<lambda>c. map (\<lambda>i. (i, sc_name c)) (filter (\<lambda>i. it_done i = b) (sc_items c))) cs)"

lemma split_items:
  "fold (\<lambda>i (o', d). if it_done i then (o', d @ [(i, nm)]) else (o' @ [(i, nm)], d)) items (xs, ys) =
     (xs @ map (\<lambda>i. (i, nm)) (filter (\<lambda>i. \<not> it_done i) items), ys @ map (\<lambda>i. (i, nm)) (filter it_done items))"
  by (induction items arbitrary: xs ys) auto

lemma split_categories:
  "fold (\<lambda>c acc. fold (\<lambda>i (o', d). if it_done i then (o', d @ [(i, sc_name c)]) else (o' @ [(i, sc_name c)], d)) (sc_items c) acc)
     cs (xs, ys) = (xs @ rows_of False cs, ys @ rows_of True cs)"
proof (induction cs arbitrary: xs ys)
  case (Cons c cs)
  show ?case unfolding fold_Cons comp_def split_items Cons.IH by (simp add: rows_of_def)
qed (simp add: rows_of_def)

lemma rows_of_open: "rows_of False (sh_categories s) = open_shopping s"
  by (simp add: rows_of_def open_shopping_def)

lemma sum_list_filter_split:
  "sum_list (map f (filter P xs)) + sum_list (map f (filter (\<lambda>x. \<not> P x) xs)) = (sum_list (map f xs) :: rat)"
  by (induction xs) auto

lemma run_slides: "n > 0 \<Longrightarrow> i < n \<Longrightarrow> (next_slide n ^^ k) i = (i + k) mod n"
proof (induction k)
  case (Suc k)
  then show ?case by (cases "n = 1") (auto simp: next_slide_def mod_Suc_eq)
qed simp

section \<open>Properties\<close>

text \<open>
  The open items counted on the companion's tile, listed on its shopping page and shown by the kiosk
  widget are the same, and the page loses no item.
\<close>

theorem open_items_agree:
  "companion_shopping (Some s) = (open_shopping s, rows_of True (sh_categories s)) \<and>
   shopping_outstanding (Some s) = length (open_shopping s) \<and>
   snd (shopping_widget limit s) + length (fst (shopping_widget limit s)) = shopping_outstanding (Some s) \<and>
   length (fst (companion_shopping (Some s))) + length (snd (companion_shopping (Some s))) =
     sum_list (map (\<lambda>c. length (sc_items c)) (sh_categories s))"
proof -
  have c: "companion_shopping (Some s) = (open_shopping s, rows_of True (sh_categories s))"
    by (simp add: companion_shopping_def split_categories rows_of_open)
  have "shopping_outstanding (Some s) = length (open_shopping s)"
    by (simp add: shopping_outstanding_def outstanding_count open_shopping_def length_concat o_def)
  moreover have "length (rows_of False cs) + length (rows_of True cs) = sum_list (map (\<lambda>c. length (sc_items c)) cs)" for cs
  proof (induction cs)
    case (Cons c cs)
    with sum_length_filter_compl[of it_done "sc_items c"] show ?case by (simp add: rows_of_def)
  qed (simp add: rows_of_def)
  ultimately show ?thesis
    using c by (simp add: shopping_widget_def flip: rows_of_open)
qed

text \<open>
  A chip shows the tasks of its member in the order of the whole feed, a second press shows everything
  again, and no chip stands for a pet.
\<close>

theorem chips_filter_feed:
  assumes "m \<in> set (filterable_members members)" and "mem_id m \<noteq> []" and "selected \<noteq> Some (mem_id m)"
  shows "let one = press_chip (Some (mem_id m)) selected in
    visible_tasks s one = filter (\<lambda>t. ut_member t = Some (mem_id m)) (unify_tasks s) \<and>
    sorted_wrt (\<lambda>a b. ut_priority b \<le> ut_priority a) (visible_tasks s one) \<and>
    visible_tasks s (press_chip (Some (mem_id m)) one) = unify_tasks s \<and>
    mem_role m \<noteq> ''pet'' \<and> mem_age_group m \<noteq> Some ''pet''"
proof -
  have one: "press_chip (Some (mem_id m)) selected = Some (mem_id m)" using assms(3) by (simp add: press_chip_def)
  have v: "visible_tasks s (Some (mem_id m)) = filter (\<lambda>t. ut_member t = Some (mem_id m)) (unify_tasks s)"
    using assms(2) by (simp add: visible_tasks_def filter_tasks_by_member_def)
  have "sorted_wrt (\<lambda>a b. ut_priority b \<le> ut_priority a) (unify_tasks s)"
    using sort_desc_sorted[of ut_priority "project_tasks s"] by (simp add: unify_tasks_alt sorted_map)
  then have "sorted_wrt (\<lambda>a b. ut_priority b \<le> ut_priority a) (visible_tasks s (Some (mem_id m)))"
    unfolding v by (rule sorted_wrt_filter)
  moreover have "visible_tasks s None = unify_tasks s" by (simp add: visible_tasks_def filter_tasks_by_member_def)
  moreover have "mem_role m \<noteq> ''pet'' \<and> mem_age_group m \<noteq> Some ''pet''"
    using assms(1) by (auto simp: filterable_members_def)
  moreover have "press_chip (Some (mem_id m)) (Some (mem_id m)) = None" by (simp add: press_chip_def)
  ultimately show ?thesis using v unfolding Let_def one by simp
qed

text \<open>
  The amount of a wallet entry shows the sign, a dollar and the cents: what stands behind the dollar reads
  back as the amount.
\<close>

theorem wallet_amount_reads_back:
  "\<exists>sign s. fmt_amount WalletTransaction a reason = sign # ''$'' @ s \<and>
     sign = (if a \<ge> 0 then CHR ''+'' else CHR ''-'') \<and> to_number s = Fin (of_int \<bar>a\<bar> / 100)"
proof -
  let ?m = "nat \<bar>a\<bar>" and ?w = "nat_str (nat \<bar>a\<bar> div 100)" and ?f = "pad_num 2 (int (nat \<bar>a\<bar> mod 100))"
  have "\<lfloor>\<bar>of_int \<bar>a\<bar> / 100 :: rat\<bar> * 10 ^ 2 + 1 / 2\<rfloor> = \<bar>a\<bar>"
    using math_round_int[of "\<bar>a\<bar>"] by (simp add: math_round_def)
  then have s: "to_fixed 2 (of_int \<bar>a\<bar> / 100) = ?w @ CHR ''.'' # ?f"
    by (simp add: to_fixed_def Let_def pad_num_def)
  have f: "length ?f = 2" "digits_val ?f = ?m mod 100" "list_all is_digit ?f"
    using pad_num_props[of "int (?m mod 100)" 2] by (simp_all add: nat_less_iff)
  then have "?f \<noteq> []" by auto
  then have n: "to_number (?w @ CHR ''.'' # ?f) = Fin (of_nat (digits_val (?w @ ?f)) / 10 ^ length ?f)"
    by (intro to_number_fixed) (use f nat_str_digits nat_str_nonempty in auto)
  have "digits_val (?w @ ?f) = ?m" using f by (simp add: digits_val_append digits_nat_str)
  then have "to_number (?w @ CHR ''.'' # ?f) = Fin (of_int \<bar>a\<bar> / 100)" using n f(1) by simp
  then have r: "to_number (to_fixed 2 (of_int \<bar>a\<bar> / 100)) = Fin (of_int \<bar>a\<bar> / 100)" by (simp only: s)
  have e: "fmt_amount WalletTransaction a reason =
      (if a \<ge> 0 then CHR ''+'' else CHR ''-'') # ''$'' @ to_fixed 2 (of_int \<bar>a\<bar> / 100)"
    by (simp add: fmt_amount_def)
  show ?thesis using e r by blast
qed

text \<open>
  The bars of a score are shares of its total: between nothing and the whole, and together at most the
  whole, when the total is the sum of the categories.
\<close>

theorem score_bars_are_shares:
  assumes "\<forall>(c, n) \<in> set (sr_by_category row). 0 \<le> n" and "sr_total row = sum_list (map snd (sr_by_category row))"
  shows "(\<forall>(c, n, w) \<in> set (score_bars row). 0 \<le> w \<and> w \<le> 100) \<and>
    sum_list (map (\<lambda>(c, n, w). w) (score_bars row)) \<le> 100"
proof (cases "sr_total row = 0")
  case True
  then show ?thesis by (auto simp: score_bars_def o_def case_prod_beta')
next
  case False
  let ?T = "sr_total row" and ?xs = "sr_by_category row"
  have pos: "\<forall>x \<in> set ?xs. 0 \<le> snd x" using assms(1) by auto
  then have nn: "0 \<le> sum_list (map snd ys)" if "set ys \<subseteq> set ?xs" for ys
    using that by (intro sum_list_nonneg) auto
  then have T: "0 < ?T" using False assms(2) by (metis order_le_less subset_refl)
  have part: "sum_list (map snd (filter P ?xs)) \<le> ?T" for P
  proof -
    have "sum_list (map snd (filter P ?xs)) + sum_list (map snd (filter (\<lambda>x. \<not> P x) ?xs)) = ?T"
      unfolding assms(2) by (rule sum_list_filter_split)
    moreover have "0 \<le> sum_list (map snd (filter (\<lambda>x. \<not> P x) ?xs))" by (rule nn) auto
    ultimately show ?thesis by linarith
  qed
  have le: "snd x \<le> ?T" if "x \<in> set ?xs" for x
    using member_le_sum_list[of "snd x" "map snd ?xs"] that pos assms(2) by auto
  have w: "0 \<le> snd x / ?T * 100 \<and> snd x / ?T * 100 \<le> 100" if "x \<in> set ?xs" for x
    using T le[OF that] that pos by (auto simp: field_simps)
  have bars: "map (\<lambda>(c, n, w). w) (score_bars row) = map (\<lambda>x. snd x / ?T * 100) (filter (\<lambda>(c, n). truthy c) ?xs)"
    using False by (simp add: score_bars_def o_def case_prod_beta')
  have total: "sum_list (map (\<lambda>x. snd x / ?T * 100) ys) = sum_list (map snd ys) / ?T * 100" for ys :: "(string option \<times> rat) list"
    by (induction ys) (simp_all add: add_divide_distrib distrib_right)
  have "y / ?T * 100 \<le> 100" if "y \<le> ?T" for y using that T by (simp add: field_simps)
  then have "sum_list (map (\<lambda>(c, n, w). w) (score_bars row)) \<le> 100"
    unfolding bars total using part[of "\<lambda>(c, n). truthy c"] by blast
  moreover have "\<forall>(c, n, w) \<in> set (score_bars row). 0 \<le> w \<and> w \<le> 100"
    using w False by (auto simp: score_bars_def)
  ultimately show ?thesis by blast
qed

theorem score_bars_are_shares_witness:
  "score_bars \<lparr>sr_member_id = ''m1'', sr_total = 4, sr_by_category = [(Some ''k'', 3), (None, 1)]\<rparr> = [(''k'', 3, 75)] \<and> (75::rat) \<le> 100"
  using score_bars_are_shares[of "\<lparr>sr_member_id = ''m1'', sr_total = 4, sr_by_category = [(Some ''k'', 3), (None, 1)]\<rparr>"]
  by (simp add: score_bars_def)

text \<open>
  The bar of a savings goal is full when the reward can be afforded, and else full only by rounding: less
  than half a percent is missing.
\<close>

theorem goal_bar:
  assumes "0 \<le> balance" and "0 < cost"
  shows "\<exists>x. goal_progress balance cost = Fin x \<and> 0 \<le> x \<and> x \<le> 100 \<and> (can_afford balance cost \<longrightarrow> x = 100) \<and>
    (x = 100 \<longrightarrow> can_afford balance cost \<or> cost - balance \<le> cost / 200)"
proof -
  let ?p = "balance / cost * 100"
  have g: "goal_progress balance cost = Fin (min 100 (of_int (math_round ?p)))"
    using assms by (simp add: goal_progress_def jdiv_fin_def mult.commute)
  have p0: "0 \<le> ?p" using assms by simp
  then have m0: "0 \<le> math_round ?p" by (simp add: math_round_def)
  have near: "of_int (math_round ?p) \<le> ?p + 1 / 2" by (simp add: math_round_def)
  have ge: "100 \<le> math_round ?p" if "can_afford balance cost"
  proof -
    have "100 \<le> ?p" using that assms by (simp add: can_afford_def field_simps)
    then have "(100::int) \<le> \<lfloor>?p + 1 / 2\<rfloor>" by (simp add: le_floor_iff)
    then show ?thesis by (simp add: math_round_def)
  qed
  have "cost - balance \<le> cost / 200" if "(100::rat) \<le> of_int (math_round ?p)"
  proof -
    have "99 + 1 / 2 \<le> ?p" using near that by linarith
    then show ?thesis using assms by (simp add: field_simps)
  qed
  then show ?thesis using ge m0 unfolding g by (auto simp: min_def)
qed

theorem goal_bar_witness: "\<exists>x. goal_progress 30 40 = Fin x \<and> 0 \<le> x \<and> x \<le> 100"
  using goal_bar[of 30 40] by auto

text \<open>The slideshow shows the slides in turn.\<close>

theorem slides_in_turn: "n > 0 \<Longrightarrow> (next_slide n ^^ k) 0 = k mod n"
  using run_slides[of n 0 k] by simp

theorem slides_in_turn_witness: "(next_slide 5 ^^ 7) 0 = 2"
  using slides_in_turn[of 5 7] by simp

text \<open>The age of a note is given in the largest unit that is not zero, rounded down.\<close>

theorem note_age_units:
  assumes "t \<le> now"
  shows "let sec = (now - t) div 1000 in
    \<exists>n u. note_age now (Some t) = (if n = 0 then ''just now'' else int_str n @ u @ '' ago'') \<and>
      0 \<le> n \<and> (n = 0 \<longleftrightarrow> sec < 60) \<and>
      (u = ''m'' \<and> n < 60 \<and> n = sec div 60 \<or> u = ''h'' \<and> 0 < n \<and> n < 24 \<and> n = sec div 3600 \<or>
       u = ''d'' \<and> 0 < n \<and> n = sec div 86400)"
proof -
  define sec where "sec = (now - t) div 1000"
  have s0: "0 \<le> sec" using assms by (simp add: sec_def)
  have r: "note_age now (Some t) =
      (if sec < 60 then ''just now'' else if sec < 3600 then int_str (sec div 60) @ ''m ago''
       else if sec < 86400 then int_str (sec div 3600) @ ''h ago'' else int_str (sec div 86400) @ ''d ago'')"
    by (simp add: note_age_def sec_def Let_def)
  have "\<exists>n u. note_age now (Some t) = (if n = 0 then ''just now'' else int_str n @ u @ '' ago'') \<and>
      0 \<le> n \<and> (n = 0 \<longleftrightarrow> sec < 60) \<and>
      (u = ''m'' \<and> n < 60 \<and> n = sec div 60 \<or> u = ''h'' \<and> 0 < n \<and> n < 24 \<and> n = sec div 3600 \<or>
       u = ''d'' \<and> 0 < n \<and> n = sec div 86400)"
  proof -
    consider "sec < 60" | "60 \<le> sec" "sec < 3600" | "3600 \<le> sec" "sec < 86400" | "86400 \<le> sec" by linarith
    then show ?thesis
    proof cases
      case 1
      then show ?thesis using s0 by (intro exI[of _ 0] exI[of _ "''m''"]) (simp add: r)
    next
      case 2
      then have "sec div 60 \<noteq> 0" "sec div 60 < 60" by linarith+
      then show ?thesis using 2 by (intro exI[of _ "sec div 60"] exI[of _ "''m''"]) (simp add: r)
    next
      case 3
      then have "0 < sec div 3600" "sec div 3600 < 24" by linarith+
      then show ?thesis using 3 by (intro exI[of _ "sec div 3600"] exI[of _ "''h''"]) (simp add: r)
    next
      case 4
      then have "0 < sec div 86400" by linarith
      then show ?thesis using 4 by (intro exI[of _ "sec div 86400"] exI[of _ "''d''"]) (simp add: r)
    qed
  qed
  then show ?thesis by (simp only: Let_def sec_def)
qed

theorem note_age_units_witness: "note_age 7200000 (Some 0) \<noteq> ''just now''"
  using note_age_units[of 0 7200000] by (auto simp: Let_def)

end
