(* ===== verification/Markup.thy ===== *)
theory Markup
  imports Machine
begin

text \<open>
  What a component renders, as far as the program's behaviour goes: the texts, links and controls of
  its JSX in their order, with the handlers as events of the component. Styles, icons and the nesting of
  layout elements are left out; an element with a role or a test id is a box. A user acts on what is
  rendered: pressing a button that is not disabled, typing into a field, choosing an option. The locale
  \<open>screen\<close> states the contract of a component (its handlers, reached through what it renders, and the
  answers it waits for keep an invariant) and gives what holds after any use.
\<close>

section \<open>Elements\<close>

datatype 'e ui =
    Txt string
  | Link string string
  | Btn string string bool 'e
  | Field string string "string \<Rightarrow> 'e"
  | Pick string string "string list" "string \<Rightarrow> 'e"
  | Check string bool 'e
  | Box string "'e ui list"

text \<open>
  \<open>Link text href\<close>; \<open>Btn name label enabled event\<close> (the name is its test id, or the label where it has
  none); \<open>Field name value handler\<close>; \<open>Pick name value options handler\<close>; \<open>Check name checked event\<close>;
  \<open>Box role children\<close>. \<open>{cond && element}\<close> renders nothing when the condition is false.
\<close>

definition shown_if :: "bool \<Rightarrow> 'e ui list \<Rightarrow> 'e ui list" where
  "shown_if b us = (if b then us else [])"

definition shown_some :: "string option \<Rightarrow> 'e ui list" where
  "shown_some x = (case x of None \<Rightarrow> [] | Some s \<Rightarrow> if s = [] then [] else [Txt s])"

definition dots :: string where "dots = [CHR 0xE2, CHR 0x80, CHR 0xA6]"
definition em_dash :: string where "em_dash = [CHR 0xE2, CHR 0x80, CHR 0x94]"
definition right_arrow :: string where "right_arrow = [CHR 0xE2, CHR 0x86, CHR 0x92]"
definition left_arrow :: string where "left_arrow = [CHR 0xE2, CHR 0x86, CHR 0x90]"
definition mid_dot :: string where "mid_dot = [CHR '' '', CHR 0xC2, CHR 0xB7, CHR '' '']"
definition times_sign :: string where "times_sign = [CHR 0xC3, CHR 0x97]"

section \<open>Reading and using what is rendered\<close>

fun says :: "'e ui list \<Rightarrow> string list" where
  "says [] = []"
| "says (Txt s # us) = s # says us"
| "says (Link s h # us) = s # says us"
| "says (Btn n l en e # us) = l # says us"
| "says (Field n v h # us) = v # says us"
| "says (Pick n v opts h # us) = v # says us"
| "says (Check n b e # us) = says us"
| "says (Box r xs # us) = says xs @ says us"

fun links :: "'e ui list \<Rightarrow> string list" where
  "links [] = []"
| "links (Link s h # us) = h # links us"
| "links (Box r xs # us) = links xs @ links us"
| "links (u # us) = links us"

datatype act = Press string | Enter string string

fun fire :: "act \<Rightarrow> 'e ui list \<Rightarrow> 'e option" where
  "fire a [] = None"
| "fire a (Txt s # us) = fire a us"
| "fire a (Link s h # us) = fire a us"
| "fire a (Btn n l en e # us) = (if a = Press n \<and> en then Some e else fire a us)"
| "fire a (Field n v h # us) =
     (case a of Enter m s \<Rightarrow> if m = n then Some (h s) else fire a us | Press _ \<Rightarrow> fire a us)"
| "fire a (Pick n v opts h # us) =
     (case a of Enter m s \<Rightarrow> if m = n \<and> s \<in> set opts then Some (h s) else fire a us | Press _ \<Rightarrow> fire a us)"
| "fire a (Check n b e # us) = (if a = Press n then Some e else fire a us)"
| "fire a (Box r xs # us) = (case fire a xs of Some e \<Rightarrow> Some e | None \<Rightarrow> fire a us)"

lemma fire_append: "fire a (us @ vs) = (case fire a us of Some e \<Rightarrow> Some e | None \<Rightarrow> fire a vs)"
  by (induction a us rule: fire.induct) (auto split: option.splits act.splits)

lemma fire_shown [simp]:
  "fire a (shown_if b us) = (if b then fire a us else None)" "fire a (shown_some x) = None"
  by (simp_all add: shown_if_def shown_some_def split: option.splits)

lemma says_append [simp]: "says (us @ vs) = says us @ says vs"
  by (induction us rule: says.induct) auto

lemma links_append [simp]: "links (us @ vs) = links us @ links vs"
  by (induction us rule: links.induct) auto

lemma says_shown [simp]:
  "says (shown_if b us) = (if b then says us else [])"
  "says (shown_some x) = (case x of None \<Rightarrow> [] | Some s \<Rightarrow> if s = [] then [] else [s])"
  by (simp_all add: shown_if_def shown_some_def split: option.splits)

text \<open>Embedding a component into a page renames its events and nothing else.\<close>

lemma fire_map: "fire a (map (map_ui f) us) = map_option f (fire a us)"
  by (induction a us rule: fire.induct) (auto split: option.splits act.splits)

lemma says_map [simp]: "says (map (map_ui f) us) = says us"
  by (induction us rule: says.induct) auto

text \<open>A list of items: what fires comes from one of them.\<close>

lemma fire_concat: "fire a (concat uss) = Some e \<Longrightarrow> \<exists>us \<in> set uss. fire a us = Some e"
  by (induction uss) (auto simp: fire_append split: option.splits)

lemma fire_items: "fire a (concat (map f xs)) = Some e \<Longrightarrow> \<exists>x \<in> set xs. fire a (f x) = Some e"
  by (drule fire_concat) auto

lemma fire_concat_only:
  assumes "\<And>us. us \<in> set uss \<Longrightarrow> fire a us = None \<or> fire a us = Some e"
    and "us \<in> set uss" and "fire a us = Some e"
  shows "fire a (concat uss) = Some e"
  using assms
proof (induction uss)
  case Nil
  then show ?case by simp
next
  case (Cons vs uss)
  show ?case
  proof (cases "fire a vs")
    case None
    with Cons.prems(2,3) have "us \<in> set uss" by auto
    with Cons None show ?thesis by (simp add: fire_append)
  next
    case (Some e')
    then have "e' = e" using Cons.prems(1)[of vs] by simp
    with Some show ?thesis by (simp add: fire_append)
  qed
qed

lemma fire_items_only:
  assumes "\<And>x. x \<in> set xs \<Longrightarrow> fire a (f x) = None \<or> fire a (f x) = Some e"
    and "x \<in> set xs" and "fire a (f x) = Some e"
  shows "fire a (concat (map f xs)) = Some e"
  using assms by (intro fire_concat_only[where us = "f x"]) auto

lemma fire_texts [simp]: "fire a (map (\<lambda>x. Txt (g x)) ys) = None" "fire a (map Txt xs) = None"
proof -
  show "fire a (map (\<lambda>x. Txt (g x)) ys) = None" by (induction ys) simp_all
  show "fire a (map Txt xs) = None" by (induction xs) simp_all
qed

section \<open>Screens\<close>

text \<open>
  A step of a screen is an act of the user on what is rendered, or something from outside (an answer, a
  timer, new data). An act on a control that is not there or disabled does nothing.
\<close>

datatype 'e use = User act | Outside 'e

fun use_step :: "('s \<Rightarrow> 'e ui list) \<Rightarrow> ('e \<Rightarrow> 's \<Rightarrow> 's) \<Rightarrow> 'e use \<Rightarrow> 's \<Rightarrow> 's" where
  "use_step view step (User a) s = (case fire a (view s) of None \<Rightarrow> s | Some e \<Rightarrow> step e s)"
| "use_step view step (Outside e) s = step e s"

fun use_legal :: "('e \<Rightarrow> bool) \<Rightarrow> 'e use \<Rightarrow> bool" where
  "use_legal outside (User a) = True"
| "use_legal outside (Outside e) = outside e"

lemma use_legal_any [simp]: "use_legal (\<lambda>_. True) u"
  by (cases u) simp_all

lemma use_legal_user [simp]: "list_all (use_legal outside) (map User as)"
  by (simp add: list_all_iff)

locale screen =
  fixes view :: "'s \<Rightarrow> 'e ui list" and step :: "'e \<Rightarrow> 's \<Rightarrow> 's"
    and outside :: "'e \<Rightarrow> bool" and inv :: "'s \<Rightarrow> bool"
  assumes handlers_keep: "\<lbrakk> inv s; fire a (view s) = Some e \<rbrakk> \<Longrightarrow> inv (step e s)"
    and answers_keep: "\<lbrakk> inv s; outside e \<rbrakk> \<Longrightarrow> inv (step e s)"
begin

lemma use_step_inv: "inv s \<Longrightarrow> use_legal outside u \<Longrightarrow> inv (use_step view step u s)"
  by (cases u) (auto intro: handlers_keep answers_keep split: option.splits)

end

sublocale screen \<subseteq> used: machine "use_step view step" "use_legal outside" inv
  by unfold_locales (rule use_step_inv)

context screen
begin

lemma always: "inv s \<Longrightarrow> list_all (use_legal outside) us \<Longrightarrow> inv (run (use_step view step) us s)"
  by (rule used.run_inv)

lemma dead_control: "fire a (view s) = None \<Longrightarrow> run (use_step view step) [User a] s = s"
  by simp

end

end
