(* ===== verification/Account.thy ===== *)
theory Account
  imports Settings Oidc Gates ErrorReports Markup
begin

text \<open>
  The pages and cards of an account as they are rendered and used: the sign-in page \<^verbatim>\<open>app/login\<close>, the
  page the provider returns to (\<^verbatim>\<open>app/auth/callback\<close>), leaving the session from the settings page (sign out,
  switch of household), its connection, audit and billing cards, the invite dialog
  \<^verbatim>\<open>app/settings/invite-modal.tsx\<close> and the page on which a partner joins, \<^verbatim>\<open>app/join\<close>. A function
  \<open>t\<close> stands for the message catalogue.
\<close>

section \<open>The message of what was caught\<close>

text \<open>\<^verbatim>\<open>String(x)\<close> for a value of JSON.\<close>

fun js_string :: "jsval \<Rightarrow> string" where
  "js_string JUndef = ''undefined''"
| "js_string JNull = ''null''"
| "js_string (JBool b) = (if b then ''true'' else ''false'')"
| "js_string (JNum x) = num_str x"
| "js_string (JStr s) = s"
| "js_string (JArr xs) = join '','' (map (\<lambda>x. if x = JUndef \<or> x = JNull then [] else js_string x) xs)"
| "js_string (JObj ob) = ''[object Object]''"

text \<open>The \<^verbatim>\<open>catch\<close> blocks of these pages: the message of the thrown object, else a fixed sentence.\<close>

definition caught_message :: "string \<Rightarrow> thrown \<Rightarrow> string" where
  "caught_message fallback e =
     (case e of
        ThrownError nm msg stack \<Rightarrow> msg
      | ThrownValue (JObj ob) \<Rightarrow>
          if ''message'' \<in> fst ` set ob then js_string (jget ob ''message'') else fallback
      | ThrownValue v \<Rightarrow> fallback)"

section \<open>Signing in\<close>

text \<open>
  \<open>signIn\<close> of the session: without a configuration it throws; \<open>domText\<close> gives the browser's message for a
  failed access to the storage.
\<close>

definition auth_sign_in ::
  "(storage_error \<Rightarrow> string) \<Rightarrow> (string \<Rightarrow> string) \<Rightarrow> string \<Rightarrow> string \<Rightarrow> oidc_config option \<Rightarrow> string \<Rightarrow> storage \<Rightarrow>
   thrown + (storage \<times> string)" where
  "auth_sign_in domText sha256 bytes48 bytes16 config returnTo st =
     (case config of
        None \<Rightarrow> Inl (ThrownError ''Error'' ''auth: Cognito not configured (NEXT_PUBLIC_COGNITO_* env missing)'' None)
      | Some cfg \<Rightarrow>
          (case oidc_sign_in sha256 bytes48 bytes16 cfg returnTo st of
             Inl e \<Rightarrow> Inl (ThrownError ''DOMException'' (domText e) None)
           | Inr r \<Rightarrow> Inr r))"

record login_page =
  lg_error :: "string option"
  lg_loading :: bool
  lg_calls :: nat

datatype login_event = ClickSignIn | SignInFailed thrown

definition login_start :: login_page where
  "login_start = \<lparr>lg_error = None, lg_loading = False, lg_calls = 0\<rparr>"

fun login_step :: "login_event \<Rightarrow> login_page \<Rightarrow> login_page" where
  "login_step ClickSignIn s = s\<lparr>lg_error := None, lg_loading := True, lg_calls := lg_calls s + 1\<rparr>"
| "login_step (SignInFailed e) s = s\<lparr>lg_error := Some (caught_message ''Sign-in failed.'' e), lg_loading := False\<rparr>"

definition login_view :: "(string \<Rightarrow> string) \<Rightarrow> login_page \<Rightarrow> login_event ui list" where
  "login_view t s =
     [Txt ''tidyboard'', Txt (t ''signIn''), Txt (t ''welcomeBack''), Box ''alert'' (shown_some (lg_error s)),
      Btn ''sign-in'' (if lg_loading s then t ''signingIn'' else t ''logIn'') (\<not> lg_loading s) ClickSignIn,
      Txt ''You will be redirected to a secure sign-in page where you can use your Google account or your email address.'',
      Link (''Kiosk PIN login '' @ right_arrow) ''/pin-login'']"

section \<open>Coming back from the provider\<close>

datatype callback_wait = NoWait | WaitExchange | WaitAccept string

record callback_page =
  cp_error :: "string option"
  cp_cancelled :: bool
  cp_wait :: callback_wait
  cp_timer :: bool
  cp_accepted :: "jsval list"
  cp_replaced :: "string list"

definition callback_start :: callback_page where
  "callback_start = \<lparr>cp_error = None, cp_cancelled = False, cp_wait = NoWait, cp_timer = False,
     cp_accepted = [], cp_replaced = []\<rparr>"

text \<open>The errors that the exchange throws; the texts of the browser's own errors are \<open>browser\<close>.\<close>

definition oidc_failure_message :: "(oidc_failure \<Rightarrow> string) \<Rightarrow> oidc_failure \<Rightarrow> string" where
  "oidc_failure_message browser e =
     (case e of
        MissingCode \<Rightarrow> ''oidc: missing authorization code''
      | MissingVerifier \<Rightarrow> ''oidc: missing PKCE verifier (session expired?)''
      | StateMismatch \<Rightarrow> ''oidc: state mismatch '' @ em_dash @ '' possible CSRF''
      | ExchangeFailed status body \<Rightarrow>
          ''oidc: token exchange failed ('' @ int_str status @ ''): '' @ body
      | MissingIdToken \<Rightarrow> ''oidc: token response missing id_token''
      | _ \<Rightarrow> browser e)"

text \<open>
  The effect of the page runs once (its dependencies never change); what happens after each
  \<^verbatim>\<open>await\<close> is an event, and leaving the page cancels what is still to come.
\<close>

datatype callback_event =
    RunEffect bool
  | Exchanged "thrown + callback_result"
  | Accepted
  | ReturnTimer
  | LeavePage

fun callback_step :: "callback_event \<Rightarrow> callback_page \<Rightarrow> callback_page" where
  "callback_step (RunEffect configured) s =
     (if \<not> configured then s\<lparr>cp_error := Some ''Cognito is not configured for this build.''\<rparr>
      else s\<lparr>cp_wait := WaitExchange\<rparr>)"
| "callback_step (Exchanged r) s =
     (if cp_wait s \<noteq> WaitExchange then s
      else if cp_cancelled s then s\<lparr>cp_wait := NoWait\<rparr>
      else (case r of
          Inr res \<Rightarrow> s\<lparr>cp_accepted := cp_accepted s @ [cb_id_token res], cp_wait := WaitAccept (cb_return_to res)\<rparr>
        | Inl e \<Rightarrow> s\<lparr>cp_error := Some (caught_message ''Sign-in could not be completed.'' e), cp_timer := True,
                     cp_wait := NoWait\<rparr>))"
| "callback_step Accepted s =
     (case cp_wait s of
        WaitAccept returnTo \<Rightarrow>
          if cp_cancelled s then s\<lparr>cp_wait := NoWait\<rparr>
          else s\<lparr>cp_wait := NoWait, cp_replaced := cp_replaced s @ [returnTo]\<rparr>
      | _ \<Rightarrow> s)"
| "callback_step ReturnTimer s =
     (if \<not> cp_timer s then s
      else if cp_cancelled s then s\<lparr>cp_timer := False\<rparr>
      else s\<lparr>cp_timer := False, cp_replaced := cp_replaced s @ [''/login'']\<rparr>)"
| "callback_step LeavePage s = s\<lparr>cp_cancelled := True\<rparr>"

definition callback_view :: "callback_page \<Rightarrow> callback_event ui list" where
  "callback_view s =
     (if truthy (cp_error s)
      then [Txt ''Sign-in failed'', Txt (the (cp_error s)), Txt (''Returning you to the sign-in page'' @ dots)]
      else [Txt (''Signing you in'' @ dots)])"

text \<open>What \<open>handle_callback\<close> comes to in the page's promise.\<close>

definition callback_outcome :: "(oidc_failure \<Rightarrow> string) \<Rightarrow> oidc_failure + callback_result \<Rightarrow> thrown + callback_result" where
  "callback_outcome browser r =
     (case r of Inl e \<Rightarrow> Inl (ThrownError ''Error'' (oidc_failure_message browser e) None) | Inr res \<Rightarrow> Inr res)"

section \<open>Leaving the session\<close>

text \<open>
  The session afterwards, the address of the provider that the browser is sent to (if there is a
  configuration), and the page that the router is asked for.
\<close>

definition leave_session :: "oidc_config option \<Rightarrow> string \<Rightarrow> auth_state \<Rightarrow> auth_state \<times> string option \<times> string" where
  "leave_session config target s = (logout s, map_option sign_out_url config, target)"

definition handle_sign_out :: "oidc_config option \<Rightarrow> auth_state \<Rightarrow> auth_state \<times> string option \<times> string" where
  "handle_sign_out config s = leave_session config ''/login'' s"

definition handle_switch :: "oidc_config option \<Rightarrow> auth_state \<Rightarrow> auth_state \<times> string option \<times> string" where
  "handle_switch config s = leave_session config ''/login?switch=1'' s"

datatype leave_event = SwitchHousehold | SignOut

definition switcher_view :: "(string \<times> string) list option \<Rightarrow> auth_household option \<Rightarrow> leave_event ui list" where
  "switcher_view households household =
     (case switcher_name households household of
        None \<Rightarrow> []
      | Some activeName \<Rightarrow>
          [Txt ''Active household'', Box ''active-household-name'' [Txt activeName],
           Txt (''You belong to '' @ nat_str (length (the households)) @ '' households.''),
           Btn ''switch-household-btn'' (''Switch household'' @ dots) True SwitchHousehold])"

definition sign_out_view :: "(string \<Rightarrow> string) \<Rightarrow> leave_event ui list" where
  "sign_out_view t = [Txt (t ''account''), Btn ''logout-button'' (t ''signOut'') True SignOut]"

section \<open>Cards of the settings page\<close>

text \<open>\<^verbatim>\<open>s.replace(p, q)\<close> for a string pattern: the first occurrence.\<close>

fun replace_first :: "string \<Rightarrow> string \<Rightarrow> string \<Rightarrow> string" where
  "replace_first p q [] = (if p = [] then q else [])"
| "replace_first p q (c # s) =
     (if starts_with (c # s) p then q @ drop (length p) (c # s) else c # replace_first p q s)"

definition connection_view :: "(string \<Rightarrow> string) \<Rightarrow> ws_status \<Rightarrow> 'e ui list" where
  "connection_view t status =
     [Txt (t ''connection''),
      Txt (case connection_dot status of
             LiveConnected \<Rightarrow> t ''liveConnected'' | Reconnecting \<Rightarrow> t ''reconnecting''
           | OfflineRefresh \<Rightarrow> t ''offlineRefresh'')]"

definition audit_card_view :: "(string \<Rightarrow> string) \<Rightarrow> (string \<Rightarrow> string) \<Rightarrow> auth_member option \<Rightarrow> 'e ui list" where
  "audit_card_view t tCommon m =
     shown_if (audit_card_shown m)
       [Txt (t ''title''),
        Link (replace_first (left_arrow @ '' '') [] (tCommon ''home'') @ '' '' @ right_arrow) ''/admin/audit'']"

text \<open>Billing: two requests that answer with an address, which the browser then opens.\<close>

record billing_state =
  bl_busy :: bool
  bl_error :: "string option"
  bl_sent :: "string list"
  bl_went :: "string list"

datatype billing_event = UpgradePlan | OpenPortal | BillingAnswer bool "thrown + jsval"

definition billing_start :: billing_state where
  "billing_start = \<lparr>bl_busy = False, bl_error = None, bl_sent = [], bl_went = []\<rparr>"

definition billing_send :: "string \<Rightarrow> billing_state \<Rightarrow> billing_state" where
  "billing_send path s = s\<lparr>bl_busy := True, bl_error := None, bl_sent := bl_sent s @ [path]\<rparr>"

fun billing_step :: "billing_event \<Rightarrow> billing_state \<Rightarrow> billing_state" where
  "billing_step UpgradePlan s = billing_send ''/v1/billing/checkout'' s"
| "billing_step OpenPortal s = billing_send ''/v1/billing/portal'' s"
| "billing_step (BillingAnswer portal r) s =
     (case r of
        Inr res \<Rightarrow> s\<lparr>bl_busy := False, bl_went := bl_went s @ [js_string (opt_prop res ''url'')]\<rparr>
      | Inl e \<Rightarrow> s\<lparr>bl_busy := False,
          bl_error := Some (caught_message (if portal then ''Failed to open portal'' else ''Failed to start checkout'') e)\<rparr>)"

definition billing_card_view ::
  "(string \<Rightarrow> string) \<Rightarrow> (string \<Rightarrow> string) \<Rightarrow> bool \<Rightarrow> bool \<Rightarrow> string option \<Rightarrow> billing_state \<Rightarrow> billing_event ui list" where
  "billing_card_view t tCommon stripe loading status s =
     [Txt (t ''billing'')] @
     (case billing_view stripe loading status of
        SelfHosted \<Rightarrow> [Txt (t ''selfHosted'' @ '' '' @ em_dash), Link (t ''noBillingNeeded'') ''https://tidyboard.dev/cloud'']
      | BillingLoading \<Rightarrow> [Txt (tCommon ''loading'')]
      | ManageBilling \<Rightarrow>
          [Btn ''manage'' (if bl_busy s then dots else t ''manageBilling'') (\<not> bl_busy s) OpenPortal]
      | Upgrade \<Rightarrow>
          [Btn ''upgrade'' (if bl_busy s then dots else t ''upgradeToCloud'') (\<not> bl_busy s) UpgradePlan]) @
     shown_some (bl_error s)"

section \<open>The invite dialog\<close>

text \<open>
  What the dialog shows from the server is part of its state (\<open>iv_code\<close>, \<open>iv_requests\<close> with ids and
  accounts); \<open>iv_timers\<close> are the times at which a timeout takes \<open>Copied!\<close> back, \<open>iv_busy\<close> says which
  mutation is pending.
\<close>

record invite_dialog =
  iv_code :: string
  iv_loading :: bool
  iv_requests :: "(string \<times> string) list option"
  iv_requests_loading :: bool
  iv_copied :: bool
  iv_timers :: "int list"
  iv_error :: "string option"
  iv_regenerating :: bool
  iv_approving :: bool
  iv_rejecting :: bool
  iv_clipboard :: "string option"
  iv_sent :: "mutation list"
  iv_closed :: bool

datatype invite_event =
    CloseDialog
  | CopyCode
  | CodeCopied int
  | CopyRefused
  | TimePasses int
  | RegenerateCode
  | Regenerated bool
  | ApproveRequest string
  | RejectRequest string
  | ApproveSettled
  | RejectSettled
  | InviteData string "(string \<times> string) list option"

fun invite_step :: "string \<Rightarrow> invite_event \<Rightarrow> invite_dialog \<Rightarrow> invite_dialog" where
  "invite_step hid CloseDialog s = s\<lparr>iv_closed := True\<rparr>"
| "invite_step hid CopyCode s = s"
| "invite_step hid (CodeCopied now) s =
     (if iv_code s = [] then s
      else s\<lparr>iv_clipboard := Some (iv_code s), iv_copied := True, iv_timers := iv_timers s @ [now + 2000]\<rparr>)"
| "invite_step hid CopyRefused s = s"
| "invite_step hid (TimePasses now) s =
     (if list_ex (\<lambda>d. d \<le> now) (iv_timers s)
      then s\<lparr>iv_copied := False, iv_timers := filter (\<lambda>d. now < d) (iv_timers s)\<rparr> else s)"
| "invite_step hid RegenerateCode s =
     s\<lparr>iv_error := None, iv_regenerating := True, iv_sent := iv_sent s @ [use_regenerate_invite_code hid]\<rparr>"
| "invite_step hid (Regenerated ok) s =
     s\<lparr>iv_regenerating := False, iv_error := (if ok then iv_error s else Some ''Failed to regenerate code.'')\<rparr>"
| "invite_step hid (ApproveRequest i) s =
     s\<lparr>iv_approving := True, iv_sent := iv_sent s @ [handle_approve hid i]\<rparr>"
| "invite_step hid (RejectRequest i) s =
     s\<lparr>iv_rejecting := True, iv_sent := iv_sent s @ [handle_reject hid i]\<rparr>"
| "invite_step hid ApproveSettled s = s\<lparr>iv_approving := False\<rparr>"
| "invite_step hid RejectSettled s = s\<lparr>iv_rejecting := False\<rparr>"
| "invite_step hid (InviteData code reqs) s =
     s\<lparr>iv_code := code, iv_loading := False, iv_requests := reqs, iv_requests_loading := False\<rparr>"

definition invite_open :: invite_dialog where
  "invite_open = \<lparr>iv_code = [], iv_loading = True, iv_requests = None, iv_requests_loading = True,
     iv_copied = False, iv_timers = [], iv_error = None, iv_regenerating = False, iv_approving = False,
     iv_rejecting = False, iv_clipboard = None, iv_sent = [], iv_closed = False\<rparr>"

definition request_row :: "invite_dialog \<Rightarrow> string \<times> string \<Rightarrow> invite_event ui list" where
  "request_row s r =
     [Box (''join-request-'' @ fst r)
        [Txt (snd r),
         Btn (''approve-'' @ fst r) ''Approve'' (\<not> iv_approving s) (ApproveRequest (fst r)),
         Btn (''reject-'' @ fst r) ''Reject'' (\<not> iv_rejecting s) (RejectRequest (fst r))]]"

definition invite_view :: "invite_dialog \<Rightarrow> invite_event ui list" where
  "invite_view s =
     [Txt ''Invite a Partner'', Btn ''Close'' times_sign True CloseDialog,
      Txt (''Share this code with your partner. They can enter it on the /join page to request access. '' @
        ''You'' @ [CHR 0x27] @ ''ll approve their request here.'')] @
     (if iv_loading s then [Txt (''Loading'' @ dots)]
      else [Txt ''Invite code'', Box ''invite-code-display'' [Txt (iv_code s)]]) @
     shown_some (iv_error s) @
     [Btn ''copy-invite-code-btn'' (if iv_copied s then ''Copied!'' else ''Copy Code'') (iv_code s \<noteq> []) CopyCode,
      Btn ''regenerate-invite-code-btn'' (if iv_regenerating s then ''Regenerating'' @ dots else ''Regenerate'')
        (\<not> iv_regenerating s) RegenerateCode,
      Txt ''Pending Join Requests''] @
     shown_if (iv_requests_loading s) [Txt (''Loading'' @ dots)] @
     shown_if (\<not> iv_requests_loading s \<and> (iv_requests s = None \<or> iv_requests s = Some [])) [Txt ''No pending requests.''] @
     concat (map (request_row s) (case iv_requests s of None \<Rightarrow> [] | Some rs \<Rightarrow> rs)) @
     [Btn ''close'' ''Close'' True CloseDialog]"

section \<open>The join page\<close>

text \<open>
  The lookup of the code that was submitted: still running, answered with a name, or failed; \<open>pending\<close>
  is the request to join under way. An answer that the page shows belongs to \<open>jp_submitted\<close>.
\<close>

datatype lookup = LookingUp | HouseholdFound string | NoHousehold

datatype join_press = JoinDo join_event | BackHome

definition join_view :: "lookup \<Rightarrow> bool \<Rightarrow> join_page \<Rightarrow> join_press ui list" where
  "join_view found pending s =
     (if jp_state s = Requested then
        [Txt ''Request sent!'',
         Txt (''Your join request has been sent to the household owner. You'' @ [CHR 0x27] @
           ''ll be added once they approve it.''),
         Btn ''back'' ''Back to home'' True BackHome]
      else
        [Txt ''Join a household'', Txt ''Enter the 8-character invite code you received from your household owner.'',
         Field ''invite-code-input'' (jp_code s) (\<lambda>v. JoinDo (TypeCode v)),
         Btn ''lookup'' ''Look up household'' (length (trim (jp_code s)) = 8) (JoinDo PressLookup)] @
        shown_if (jp_state s = Previewing)
          (case found of
             LookingUp \<Rightarrow> [Txt (''Looking up household'' @ dots)]
           | NoHousehold \<Rightarrow> [Txt ''Household not found. Check the code and try again.'']
           | HouseholdFound nm \<Rightarrow>
               [Txt (''You'' @ [CHR 0x27] @ ''re joining''), Box ''household-preview-name'' [Txt nm],
                Btn ''request-join-btn'' (if pending then ''Sending request'' @ dots else ''Request to join'')
                  (\<not> pending) (JoinDo (PressJoin True))]) @
        [Box ''alert'' (shown_some (jp_error s)), Btn ''cancel'' ''Cancel'' True BackHome])"

text \<open>
  The page as it is used. The lookup hook keeps one answer per code: a new code starts a new lookup, and
  an answer to another code is not shown.
\<close>

record join_use =
  ju_page :: join_page
  ju_lookup :: lookup
  ju_pending :: bool
  ju_home :: bool

datatype join_use_event = Pressed join_press | LookupAnswer string lookup | JoinSettled "string option"

definition join_use_start :: join_use where
  "join_use_start = \<lparr>ju_page = join_start, ju_lookup = LookingUp, ju_pending = False, ju_home = False\<rparr>"

fun join_use_step :: "join_use_event \<Rightarrow> join_use \<Rightarrow> join_use" where
  "join_use_step (Pressed BackHome) s = s\<lparr>ju_home := True\<rparr>"
| "join_use_step (Pressed (JoinDo e)) s =
     (let p = join_step e (ju_page s)
      in s\<lparr>ju_page := p, ju_lookup := (if jp_submitted p = jp_submitted (ju_page s) then ju_lookup s else LookingUp),
           ju_pending := (ju_pending s \<or> jp_sent p \<noteq> jp_sent (ju_page s))\<rparr>)"
| "join_use_step (LookupAnswer code found) s =
     (if code \<noteq> [] \<and> jp_submitted (ju_page s) = code then s\<lparr>ju_lookup := found\<rparr> else s)"
| "join_use_step (JoinSettled r) s =
     (if ju_pending s then s\<lparr>ju_page := join_step (JoinAnswer r) (ju_page s), ju_pending := False\<rparr> else s)"

definition join_use_view :: "join_use \<Rightarrow> join_use_event ui list" where
  "join_use_view s = map (map_ui Pressed) (join_view (ju_lookup s) (ju_pending s) (ju_page s))"

section \<open>Lemmas\<close>

text \<open>Outside the page the directory of the server answers a lookup; it answers each code in one way.\<close>

definition join_outside :: "(string \<Rightarrow> lookup) \<Rightarrow> join_use_event \<Rightarrow> bool" where
  "join_outside directory e =
     (case e of Pressed _ \<Rightarrow> False | LookupAnswer c r \<Rightarrow> r = directory c \<and> directory c \<noteq> LookingUp | JoinSettled _ \<Rightarrow> True)"

definition known_code :: "(string \<Rightarrow> lookup) \<Rightarrow> string \<Rightarrow> bool" where
  "known_code directory c \<longleftrightarrow> length c = 8 \<and> (\<exists>nm. directory c = HouseholdFound nm)"

definition join_use_ok :: "(string \<Rightarrow> lookup) \<Rightarrow> join_use \<Rightarrow> bool" where
  "join_use_ok directory s \<longleftrightarrow>
     join_ok (ju_page s) \<and> (ju_lookup s = LookingUp \<or> ju_lookup s = directory (jp_submitted (ju_page s))) \<and>
     (\<forall>m \<in> set (jp_sent (ju_page s)). \<exists>c. known_code directory c \<and> m = use_request_join c)"

lemma join_offers:
  assumes "fire a (join_use_view s) = Some e"
  shows "e = Pressed BackHome \<or> (\<exists>v. e = Pressed (JoinDo (TypeCode v))) \<or> e = Pressed (JoinDo PressLookup) \<or>
    (e = Pressed (JoinDo (PressJoin True)) \<and> jp_state (ju_page s) = Previewing \<and> (\<exists>nm. ju_lookup s = HouseholdFound nm))"
  using assms
  by (auto simp: join_use_view_def fire_map join_view_def fire_append split: if_splits lookup.splits act.splits option.splits)

lemma join_step_sent:
  "jp_sent (join_step e p) = jp_sent p @
     (if e = PressJoin True \<and> jp_state p = Previewing \<and> jp_submitted p \<noteq> [] then [use_request_join (jp_submitted p)] else [])"
  by (cases e) (auto simp: type_code_def handle_lookup_def handle_join_def join_answered_def Let_def split: option.splits)

lemma join_step_keeps_code: "jp_submitted (join_step (JoinAnswer r) p) = jp_submitted p"
  by (auto simp: join_answered_def split: option.splits)

interpretation joining: screen join_use_view join_use_step "join_outside directory" "join_use_ok directory"
  for directory
proof (unfold_locales, goal_cases)
  case (1 s a e)
  let ?p = "ju_page s"
  show ?case
  proof (cases e)
    case (Pressed press)
    show ?thesis
    proof (cases press)
      case BackHome
      with Pressed 1(1) show ?thesis by (simp add: join_use_ok_def)
    next
      case (JoinDo j)
      have ok: "join_ok (join_step j ?p)" using 1(1) by (simp add: join_use_ok_def join_step_ok)
      have "\<forall>m \<in> set (jp_sent (join_step j ?p)). \<exists>c. known_code directory c \<and> m = use_request_join c"
      proof (cases "j = PressJoin True \<and> jp_state ?p = Previewing \<and> jp_submitted ?p \<noteq> []")
        case True
        then obtain nm where nm: "ju_lookup s = HouseholdFound nm" using join_offers[OF 1(2)] Pressed JoinDo by auto
        have "directory (jp_submitted ?p) = HouseholdFound nm"
          using 1(1) nm unfolding join_use_ok_def by (metis lookup.distinct(1))
        then have "known_code directory (jp_submitted ?p)"
          using 1(1) True by (simp add: join_use_ok_def join_ok_def known_code_def)
        then show ?thesis using 1(1) by (auto simp: join_step_sent join_use_ok_def)
      next
        case False
        then show ?thesis using 1(1) by (auto simp: join_step_sent join_use_ok_def)
      qed
      with ok 1(1) Pressed JoinDo show ?thesis by (auto simp: join_use_ok_def Let_def)
    qed
  qed (use join_offers[OF 1(2)] in auto)
next
  case (2 s e)
  then show ?case
    by (cases e) (auto simp: join_use_ok_def join_outside_def join_step_ok join_step_sent join_step_keeps_code
        simp del: join_step.simps)
qed

lemma billing_offers:
  assumes "fire a (billing_card_view t tCommon stripe loading status s) = Some e"
  shows "\<not> bl_busy s \<and> stripe \<and> \<not> loading \<and> e = (if is_subscribed status then OpenPortal else UpgradePlan)"
  using assms by (auto simp: billing_card_view_def billing_view_def fire_append split: if_splits)

text \<open>At most one billing request is without its answer, and it shows as busy.\<close>

record billing_use =
  bu_state :: billing_state
  bu_open :: nat

fun billing_use_step :: "billing_event \<Rightarrow> billing_use \<Rightarrow> billing_use" where
  "billing_use_step (BillingAnswer p r) s =
     (if bu_open s = 0 then s else s\<lparr>bu_state := billing_step (BillingAnswer p r) (bu_state s), bu_open := bu_open s - 1\<rparr>)"
| "billing_use_step e s = s\<lparr>bu_state := billing_step e (bu_state s), bu_open := bu_open s + 1\<rparr>"

definition billing_outside :: "billing_event \<Rightarrow> bool" where
  "billing_outside e = (case e of BillingAnswer _ _ \<Rightarrow> True | _ \<Rightarrow> False)"

definition billing_ok :: "billing_use \<Rightarrow> bool" where
  "billing_ok s \<longleftrightarrow> bu_open s = (if bl_busy (bu_state s) then 1 else 0) \<and>
     (bl_busy (bu_state s) \<longrightarrow> bl_error (bu_state s) = None)"

interpretation billing: screen "\<lambda>s. billing_card_view t tCommon stripe loading status (bu_state s)" billing_use_step
    billing_outside billing_ok
  for t tCommon stripe loading status
  by unfold_locales
    (auto dest!: billing_offers simp: billing_ok_def billing_send_def billing_outside_def
      split: billing_event.splits sum.splits if_splits)

definition listed :: "(string \<times> string) list option \<Rightarrow> string set" where
  "listed rs = fst ` set (case rs of None \<Rightarrow> [] | Some l \<Rightarrow> l)"

lemma request_row_offers:
  "fire a (request_row s r) = Some e \<Longrightarrow>
   e = ApproveRequest (fst r) \<and> \<not> iv_approving s \<or> e = RejectRequest (fst r) \<and> \<not> iv_rejecting s"
  by (auto simp: request_row_def split: if_splits option.splits)

lemma invite_offers:
  assumes "fire a (invite_view s) = Some e"
  shows "e = CloseDialog \<or> (e = CopyCode \<and> iv_code s \<noteq> []) \<or> (e = RegenerateCode \<and> \<not> iv_regenerating s) \<or>
    (\<exists>i \<in> listed (iv_requests s). e = ApproveRequest i \<and> \<not> iv_approving s \<or> e = RejectRequest i \<and> \<not> iv_rejecting s)"
  using assms
  by (auto simp: invite_view_def fire_append listed_def split: if_splits option.splits dest!: fire_items request_row_offers)

definition invite_outside :: "string set \<Rightarrow> invite_event \<Rightarrow> bool" where
  "invite_outside known e =
     (case e of
        InviteData _ rs \<Rightarrow> listed rs \<subseteq> known
      | CodeCopied _ \<Rightarrow> True | CopyRefused \<Rightarrow> True | TimePasses _ \<Rightarrow> True | Regenerated _ \<Rightarrow> True
      | ApproveSettled \<Rightarrow> True | RejectSettled \<Rightarrow> True | _ \<Rightarrow> False)"

definition invite_request_ok :: "string \<Rightarrow> string set \<Rightarrow> mutation \<Rightarrow> bool" where
  "invite_request_ok hid known m \<longleftrightarrow>
     m = use_regenerate_invite_code hid \<or> (\<exists>i \<in> known. m = handle_approve hid i \<or> m = handle_reject hid i)"

definition invite_ok :: "string \<Rightarrow> string set \<Rightarrow> invite_dialog \<Rightarrow> bool" where
  "invite_ok hid known s \<longleftrightarrow>
     (iv_copied s \<longrightarrow> iv_timers s \<noteq> []) \<and>
     listed (iv_requests s) \<subseteq> known \<and>
     (\<forall>m \<in> set (iv_sent s). invite_request_ok hid known m)"

lemma invite_requests:
  "invite_request_ok hid known (use_regenerate_invite_code hid)"
  "i \<in> known \<Longrightarrow> invite_request_ok hid known (handle_approve hid i)"
  "i \<in> known \<Longrightarrow> invite_request_ok hid known (handle_reject hid i)"
  by (auto simp: invite_request_ok_def)

interpretation inviting: screen invite_view "invite_step hid" "invite_outside known" "invite_ok hid known"
  for hid known
proof (unfold_locales, goal_cases)
  case (1 s a e)
  then show ?case by (auto dest!: invite_offers simp: invite_ok_def invite_requests subset_iff)
next
  case (2 s e)
  then show ?case by (cases e) (auto simp: invite_ok_def invite_outside_def list_ex_iff)
qed

text \<open>The callback page after its effect has run.\<close>

definition callback_inv :: "callback_page \<Rightarrow> bool" where
  "callback_inv s \<longleftrightarrow>
     (case cp_wait s of
        WaitExchange \<Rightarrow> cp_accepted s = [] \<and> cp_replaced s = [] \<and> cp_error s = None \<and> \<not> cp_timer s
      | WaitAccept r \<Rightarrow> length (cp_accepted s) = 1 \<and> cp_replaced s = [] \<and> cp_error s = None \<and> \<not> cp_timer s
      | NoWait \<Rightarrow> length (cp_replaced s) \<le> 1 \<and> length (cp_accepted s) \<le> 1 \<and>
          (cp_timer s \<longrightarrow> cp_error s \<noteq> None \<and> cp_replaced s = []) \<and>
          (cp_error s \<noteq> None \<longrightarrow> cp_accepted s = [] \<and> set (cp_replaced s) \<subseteq> {''/login''}) \<and>
          (cp_error s = None \<longrightarrow> cp_replaced s \<noteq> [] \<longrightarrow> cp_accepted s \<noteq> []))"

definition later_event :: "callback_event \<Rightarrow> bool" where
  "later_event e = (case e of RunEffect _ \<Rightarrow> False | _ \<Rightarrow> True)"

interpretation callback: machine callback_step later_event callback_inv
proof (unfold_locales, goal_cases)
  case (1 s e)
  then show ?case
    by (cases e) (auto simp: callback_inv_def later_event_def split: callback_wait.splits sum.splits if_splits)
qed

lemma left_page_step:
  "cp_cancelled s \<Longrightarrow> later_event e \<Longrightarrow>
   cp_cancelled (callback_step e s) \<and> cp_replaced (callback_step e s) = cp_replaced s \<and>
   cp_accepted (callback_step e s) = cp_accepted s \<and> cp_error (callback_step e s) = cp_error s"
  by (cases e) (auto simp: later_event_def split: callback_wait.splits)

interpretation left_page: machine callback_step later_event cp_cancelled
  by unfold_locales (simp add: left_page_step)

lemma token_result_return: "token_result now r res = Inr x \<Longrightarrow> cb_return_to x = r"
  by (auto simp: token_result_def split: option.splits if_splits)

section \<open>Properties\<close>

text \<open>
  Whatever is typed and pressed on the join page, and whenever answers arrive, a request to join leaves
  only for a code of eight characters under which the server knows a household: the button is offered
  with the household's name and not before.
\<close>

theorem join_needs_known_code:
  assumes "list_all (use_legal (join_outside directory)) us"
  shows "\<forall>m \<in> set (jp_sent (ju_page (run (use_step join_use_view join_use_step) us join_use_start))).
     \<exists>c nm. length c = 8 \<and> directory c = HouseholdFound nm \<and> m = use_request_join c"
proof -
  have "join_use_ok directory join_use_start"
    by (simp add: join_use_ok_def join_use_start_def join_start_def join_ok_def)
  then have "join_use_ok directory (run (use_step join_use_view join_use_step) us join_use_start)"
    using assms by (rule joining.always)
  then show ?thesis by (auto simp: join_use_ok_def known_code_def)
qed

definition smiths :: "string \<Rightarrow> lookup" where
  "smiths c = (if c = ''ABCD1234'' then HouseholdFound ''Smith'' else NoHousehold)"

definition smiths_uses :: "join_use_event use list" where
  "smiths_uses =
     [User (Enter ''invite-code-input'' ''abcd1234''), User (Press ''request-join-btn''), User (Press ''lookup''),
      User (Press ''request-join-btn''), Outside (LookupAnswer ''ABCD1234'' (smiths ''ABCD1234'')),
      User (Press ''request-join-btn''), User (Press ''request-join-btn'')]"

lemma smiths_run:
  "jp_sent (ju_page (run (use_step join_use_view join_use_step) smiths_uses join_use_start)) = [use_request_join ''ABCD1234'']"
  by code_simp

theorem join_needs_known_code_witness:
  "jp_sent (ju_page (run (use_step join_use_view join_use_step) smiths_uses join_use_start)) = [use_request_join ''ABCD1234''] \<and>
   (\<exists>c nm. length c = 8 \<and> smiths c = HouseholdFound nm \<and> use_request_join ''ABCD1234'' = use_request_join c)"
proof -
  have "list_all (use_legal (join_outside smiths)) smiths_uses"
    by (simp add: smiths_uses_def join_outside_def smiths_def)
  from join_needs_known_code[OF this] smiths_run show ?thesis by simp
qed

text \<open>
  The invite dialog sends only for its household and answers only requests that the server has listed;
  once the last timeout is over the button says \<open>Copy Code\<close> again.
\<close>

theorem invite_dialog_safe:
  assumes "list_all (use_legal (invite_outside known)) us"
  shows "let s = run (use_step invite_view (invite_step hid)) us invite_open in
    (\<forall>m \<in> set (iv_sent s). m = use_regenerate_invite_code hid \<or>
       (\<exists>i \<in> known. m = use_approve_join_request i hid \<or> m = use_reject_join_request i hid)) \<and>
    (list_all (\<lambda>d. d \<le> now) (iv_timers s) \<longrightarrow>
       \<not> iv_copied (invite_step hid (TimePasses now) s))"
proof -
  have "invite_ok hid known invite_open" by (simp add: invite_ok_def invite_open_def listed_def)
  then have ok: "invite_ok hid known (run (use_step invite_view (invite_step hid)) us invite_open)"
    using assms by (rule inviting.always)
  have "list_all P xs \<Longrightarrow> xs \<noteq> [] \<Longrightarrow> list_ex P xs" for P and xs :: "int list" by (cases xs) auto
  with ok show ?thesis
    by (auto simp: Let_def invite_ok_def invite_request_ok_def handle_approve_def handle_reject_def)
qed

theorem invite_dialog_safe_witness:
  "let us = [Outside (InviteData ''ABCD1234'' (Some [(''r1'', ''acc-1'')])), User (Press ''approve-r1''), User (Press ''reject-r2'')]
   in iv_sent (run (use_step invite_view (invite_step ''h1'')) us invite_open) = [use_approve_join_request ''r1'' ''h1''] \<and>
      (\<forall>m \<in> set (iv_sent (run (use_step invite_view (invite_step ''h1'')) us invite_open)).
         m = use_regenerate_invite_code ''h1'' \<or>
         (\<exists>i \<in> {''r1''}. m = use_approve_join_request i ''h1'' \<or> m = use_reject_join_request i ''h1''))"
proof -
  let ?us = "[Outside (InviteData ''ABCD1234'' (Some [(''r1'', ''acc-1'')])), User (Press ''approve-r1''), User (Press ''reject-r2'')]"
  have r: "iv_sent (run (use_step invite_view (invite_step ''h1'')) ?us invite_open) = [use_approve_join_request ''r1'' ''h1'']"
    by code_simp
  have "list_all (use_legal (invite_outside {''r1''})) ?us" by (simp add: invite_outside_def listed_def)
  from invite_dialog_safe[OF this, of "''h1''" 0] r show ?thesis by (simp add: Let_def)
qed

text \<open>Copying twice: the first timeout takes the second \<open>Copied!\<close> back, half a second after it appeared.\<close>

lemma second_copy_cut_short:
  "let s = run (use_step invite_view (invite_step ''h1''))
      [Outside (InviteData ''ABCD1234'' None), Outside (CodeCopied 0), Outside (CodeCopied 1500), Outside (TimePasses 2000)]
      invite_open
   in \<not> iv_copied s \<and> iv_timers s = [3500]"
  by code_simp

text \<open>
  A started billing request disables its button: however the card is used, there is never a second
  request before the answer to the first, and an answer ends the busy state in every case.
\<close>

theorem one_billing_request_at_a_time:
  assumes "list_all (use_legal billing_outside) us"
  shows "bu_open (run (use_step (\<lambda>s. billing_card_view t tCommon stripe loading status (bu_state s)) billing_use_step) us
      \<lparr>bu_state = billing_start, bu_open = 0\<rparr>) \<le> 1 \<and>
    \<not> bl_busy (billing_step (BillingAnswer portal r) s)"
proof -
  have "billing_ok \<lparr>bu_state = billing_start, bu_open = 0\<rparr>" by (simp add: billing_ok_def billing_start_def)
  then have "billing_ok (run (use_step (\<lambda>s. billing_card_view t tCommon stripe loading status (bu_state s)) billing_use_step) us
      \<lparr>bu_state = billing_start, bu_open = 0\<rparr>)"
    using assms by (rule billing.always)
  then show ?thesis by (auto simp: billing_ok_def split: sum.splits)
qed

theorem one_billing_request_at_a_time_witness:
  "bu_open (run (use_step (\<lambda>s. billing_card_view (\<lambda>k. k) (\<lambda>k. k) True False None (bu_state s)) billing_use_step)
      [User (Press ''upgrade''), User (Press ''upgrade''), User (Press ''manage'')]
      \<lparr>bu_state = billing_start, bu_open = 0\<rparr>) \<le> 1"
  using one_billing_request_at_a_time[of "[User (Press ''upgrade''), User (Press ''upgrade''), User (Press ''manage'')]"
      "\<lambda>k. k" "\<lambda>k. k" True False None] by simp

text \<open>
  The callback page hands over at most one token and leaves at most once: with a token to the address
  of the sign-in, without one to the sign-in page; after the user has left it does nothing more.
\<close>

theorem callback_page_leaves_once:
  assumes "list_all later_event es" and "list_all later_event fs"
  shows "let s = run callback_step es (callback_step (RunEffect configured) callback_start);
      gone = run callback_step fs (callback_step LeavePage s) in
    length (cp_accepted s) \<le> 1 \<and> length (cp_replaced s) \<le> 1 \<and>
    (cp_error s \<noteq> None \<longrightarrow> cp_accepted s = [] \<and> set (cp_replaced s) \<subseteq> {''/login''}) \<and>
    (cp_error s = None \<longrightarrow> cp_replaced s \<noteq> [] \<longrightarrow> cp_accepted s \<noteq> []) \<and>
    cp_replaced gone = cp_replaced s \<and> cp_accepted gone = cp_accepted s"
proof -
  let ?s = "run callback_step es (callback_step (RunEffect configured) callback_start)"
  have "callback_inv (callback_step (RunEffect configured) callback_start)"
    by (simp add: callback_inv_def callback_start_def)
  then have i: "callback_inv ?s" using assms(1) by (rule callback.run_inv)
  have c: "cp_cancelled (callback_step LeavePage ?s)" by simp
  have "cp_replaced (run callback_step fs (callback_step LeavePage ?s)) = cp_replaced (callback_step LeavePage ?s)"
    by (rule left_page.run_keeps[where f = cp_replaced, OF c assms(2)]) (simp add: left_page_step)
  moreover have "cp_accepted (run callback_step fs (callback_step LeavePage ?s)) = cp_accepted (callback_step LeavePage ?s)"
    by (rule left_page.run_keeps[where f = cp_accepted, OF c assms(2)]) (simp add: left_page_step)
  ultimately show ?thesis
    using i by (auto simp: Let_def callback_inv_def split: callback_wait.splits)
qed

theorem callback_page_leaves_once_witness:
  "cp_replaced (run callback_step [Exchanged (Inl (ThrownError ''Error'' ''x'' None)), LeavePage, ReturnTimer]
     (callback_step (RunEffect True) callback_start)) = [] \<and>
   length (cp_replaced (run callback_step [] (callback_step (RunEffect True) callback_start))) \<le> 1"
  using callback_page_leaves_once[of "[]" "[]" True] by (simp add: callback_start_def later_event_def Let_def)

text \<open>
  Signing in from the sign-in page and coming back with a code: if the provider answers the exchange
  with a token, the page hands that token over and goes to the address the sign-in page was given (the
  start page without one); a provider that returns another state leaves the error on the page, no token
  handed over, and after the timeout the sign-in page.
\<close>

theorem sign_in_lands_where_asked:
  assumes "auth_sign_in domText sha b48 b16 (Some cfg) (login_return_to ps) st = Inr (st', url)"
    and "b48 \<noteq> []" and "b16 \<noteq> []" and "c \<noteq> []"
    and "token_result now (login_return_to ps) (net (token_request cfg c (random_string b48))) = Inr res"
    and "forged \<noteq> Some (random_string b16)"
  shows "let back = (\<lambda>state. run callback_step
        [Exchanged (callback_outcome browser (fst (handle_callback net now cfg (Some c) state st'))), Accepted, ReturnTimer]
        (callback_step (RunEffect True) callback_start))
    in cp_accepted (back (Some (random_string b16))) = [cb_id_token res] \<and>
       cp_replaced (back (Some (random_string b16))) = [login_return_to ps] \<and>
       cp_accepted (back forged) = [] \<and> cp_replaced (back forged) = [''/login''] \<and> cp_error (back forged) \<noteq> None"
proof -
  have o: "oidc_sign_in sha b48 b16 cfg (login_return_to ps) st = Inr (st', url)"
    using assms(1) by (auto simp: auth_sign_in_def split: sum.splits)
  have fine: "fst (handle_callback net now cfg (Some c) (Some (random_string b16)) st') = Inr res"
    using callback_after_sign_in[OF o assms(2-4)] assms(5) by simp
  have "try_get st' state_key = Some (random_string b16)" "\<not> st_blocked st'"
    using o oidc_keys_distinct
    by (auto simp: oidc_sign_in_def Let_def set_item_def try_get_def get_item_def split: if_splits)
  then have "\<exists>e. fst (handle_callback net now cfg (Some c) forged st') = Inl e"
    using assms(4,6) by (cases "truthy (try_get st' verifier_key)") (auto simp: handle_callback_def Let_def)
  then obtain e where forgery: "fst (handle_callback net now cfg (Some c) forged st') = Inl e" by blast
  show ?thesis
    using fine forgery token_result_return[OF assms(5)]
    by (simp add: Let_def callback_outcome_def callback_start_def)
qed

definition demo_tokens :: network where
  "demo_tokens rq = Some \<lparr>rs_status = 200, rs_status_text = [], rs_headers = [],
     rs_body = json_str (JObj [(''id_token'', JStr ''tok'')])\<rparr>"

lemma demo_tokens_result:
  "\<exists>res. token_result 0 r (demo_tokens rq) = Inr res \<and> cb_id_token res = JStr ''tok''"
proof -
  have p: "json_parse (json_str (JObj [(''id_token'', JStr ''tok'')])) = Some (JObj [(''id_token'', JStr ''tok'')])"
    by code_simp
  show ?thesis
    unfolding token_result_def demo_tokens_def
    by (simp add: resp_json_def p resp_ok_def opt_prop_def jget_def del: json_str.simps)
qed

theorem sign_in_lands_where_asked_witness:
  "\<exists>st' url. auth_sign_in (\<lambda>_. []) (\<lambda>x. x) ''ab'' ''cd'' (Some demo_cfg) ''/lists'' empty_storage = Inr (st', url) \<and>
     cp_replaced (run callback_step
        [Exchanged (callback_outcome (\<lambda>_. []) (fst (handle_callback demo_tokens 0 demo_cfg (Some ''code'')
           (Some (random_string ''cd'')) st'))), Accepted, ReturnTimer]
        (callback_step (RunEffect True) callback_start)) = [''/lists'']"
proof -
  obtain st' url where s: "oidc_sign_in (\<lambda>x. x) ''ab'' ''cd'' demo_cfg ''/lists'' empty_storage = Inr (st', url)"
    using demo_sign_in by blast
  then have a: "auth_sign_in (\<lambda>_. []) (\<lambda>x. x) ''ab'' ''cd'' (Some demo_cfg) (login_return_to [(''returnTo'', ''/lists'')])
      empty_storage = Inr (st', url)"
    by (simp add: auth_sign_in_def login_return_to_def params_get_def)
  obtain res where "token_result 0 (login_return_to [(''returnTo'', ''/lists'')])
      (demo_tokens (token_request demo_cfg ''code'' (random_string ''ab''))) = Inr res"
    using demo_tokens_result by blast
  from sign_in_lands_where_asked[where c = "''code''" and net = demo_tokens and forged = None and browser = "\<lambda>_. []",
      OF a _ _ _ this] a
  show ?thesis by (simp add: Let_def login_return_to_def params_get_def)
qed

text \<open>
  Leaving the session from the settings page empties it at once; every page behind the route gate then
  sends the user to the sign-in page, and the provider's own session is ended when one is configured.
\<close>

theorem leaving_closes_every_page:
  assumes "\<not> is_public_or_preview_path p" and "p \<noteq> []"
  shows "let (s', external, target) = (if switch then handle_switch config s else handle_sign_out config s)
    in au_token s' = None \<and> active_member s' = None \<and> au_household s' = None \<and>
       app_route_gate (Some p) s' =
         (Blank, Some (''/login'' @ (if p = ''/'' then [] else ''?returnTo='' @ encode_uri_component p))) \<and>
       admin_gate_view s' = Denied \<and>
       external = map_option sign_out_url config \<and> starts_with target ''/login''"
proof -
  have "starts_with ''/login?switch=1'' ''/login''" "starts_with ''/login'' ''/login''" by (simp_all add: starts_with_def)
  then show ?thesis
    using assms
    by (auto simp: handle_switch_def handle_sign_out_def leave_session_def logout_def drop_session_def
        clear_session_state_def active_member_def app_route_gate_def auth_gate_view_def auth_gate_redirect_def
        admin_gate_view_def Let_def)
qed

theorem leaving_closes_every_page_witness:
  "\<not> is_public_or_preview_path ''/wallet'' \<and>
   snd (app_route_gate (Some ''/wallet'') (fst (handle_sign_out None (initial_auth empty_storage)))) =
     Some (''/login?returnTo='' @ encode_uri_component ''/wallet'')"
proof -
  have p: "\<not> is_public_or_preview_path ''/wallet''" by code_simp
  from leaving_closes_every_page[OF p, of False None "initial_auth empty_storage"] p show ?thesis by (auto simp: Let_def split: prod.splits)
qed

text \<open>The test of a notification goes to the stored topic: what is typed only decides whether it can be pressed.\<close>

lemma test_ignores_typed_topic:
  "\<not> notify_test_disabled False (s\<lparr>nr_topic := ''typed''\<rparr>) \<and>
   mu_call (use_test_notification mid) = ApiPost ''/v1/notify/test'' (JObj [(''member_id'', JStr mid)])"
proof -
  have "trim ''typed'' = ''typed''" by code_simp
  then show ?thesis by (simp add: notify_test_disabled_def use_test_notification_def)
qed
end
