(* ===== verification/SettingsViews.thy ===== *)
theory SettingsViews
  imports Account AdminForms
begin

text \<open>
  The cards of \<^verbatim>\<open>web/src/app/settings/page.tsx\<close> as they are rendered and used: the family card with its
  form, the calendars, the kiosk switch, the rows of the notifications, and the private hourly rate
  (\<^verbatim>\<open>components/settings/HourlyRateField.tsx\<close>). The handlers are those of \<open>Settings\<close> and
  \<open>AdminForms\<close>; here they are reached through the controls that the card shows.
\<close>

section \<open>The family card\<close>

record family_use =
  fu_card :: family_card
  fu_members :: "family_member list option"
  fu_loading :: bool
  fu_invite :: bool
  fu_creating :: bool
  fu_updating :: bool
  fu_sent :: "mutation list"

datatype family_event =
    AddMember
  | EditMember family_member
  | RemoveMember string
  | OpenInvite
  | CloseInvite
  | ChangeForm member_form
  | SubmitForm
  | CancelForm
  | MemberSaved bool "string option"
  | MembersData "family_member list"

definition family_use_start :: family_use where
  "family_use_start = \<lparr>fu_card = family_start, fu_members = None, fu_loading = True, fu_invite = False,
     fu_creating = False, fu_updating = False, fu_sent = []\<rparr>"

fun family_step :: "string option \<Rightarrow> family_event \<Rightarrow> family_use \<Rightarrow> family_use" where
  "family_step household AddMember s = s\<lparr>fu_card := open_add (fu_card s)\<rparr>"
| "family_step household (EditMember m) s = s\<lparr>fu_card := open_edit m (fu_card s)\<rparr>"
| "family_step household (RemoveMember i) s =
     (case delete_member household i of None \<Rightarrow> s | Some m \<Rightarrow> s\<lparr>fu_sent := fu_sent s @ [m]\<rparr>)"
| "family_step household OpenInvite s = s\<lparr>fu_invite := True\<rparr>"
| "family_step household CloseInvite s = s\<lparr>fu_invite := False\<rparr>"
| "family_step household (ChangeForm f) s = s\<lparr>fu_card := (fu_card s)\<lparr>fc_form := f\<rparr>\<rparr>"
| "family_step household SubmitForm s =
     (case submit_member household (fu_card s) of
        (c, None) \<Rightarrow> s\<lparr>fu_card := c\<rparr>
      | (c, Some m) \<Rightarrow>
          s\<lparr>fu_card := c, fu_sent := fu_sent s @ [m], fu_updating := (fu_updating s \<or> truthy (fc_editing c)),
            fu_creating := (fu_creating s \<or> \<not> truthy (fc_editing c))\<rparr>)"
| "family_step household CancelForm s = s\<lparr>fu_card := cancel_form (fu_card s)\<rparr>"
| "family_step household (MemberSaved ok editingId) s =
     s\<lparr>fu_card := member_answered ok editingId (fu_card s),
       fu_updating := (fu_updating s \<and> \<not> truthy editingId), fu_creating := (fu_creating s \<and> truthy editingId)\<rparr>"
| "family_step household (MembersData ms) s = s\<lparr>fu_members := Some ms, fu_loading := False\<rparr>"

definition role_options :: "string list" where
  "role_options = [''admin'', ''member'', ''child'', ''guest'']"

definition age_options :: "string list" where
  "age_options = [''toddler'', ''child'', ''tween'', ''teen'', ''adult'']"

definition shown_name :: "family_member \<Rightarrow> string" where
  "shown_name m = (case fm_display_name m of Some d \<Rightarrow> d | None \<Rightarrow> fm_name m)"

definition member_row :: "family_member \<Rightarrow> family_event ui list" where
  "member_row m =
     [Txt (uppercase (take 1 (shown_name m))), Txt (shown_name m), Txt (fm_role m),
      Btn (''edit-member-'' @ fm_id m) ''Edit'' True (EditMember m),
      Btn (''delete-member-'' @ fm_id m) ''Delete'' True (RemoveMember (fm_id m))]"

text \<open>The form; \<open>rate\<close> is what the hourly rate of the edited member renders.\<close>

definition member_form_view :: "family_event ui list \<Rightarrow> family_use \<Rightarrow> family_event ui list" where
  "member_form_view rate s =
     (let c = fu_card s; f = fc_form c; isPending = (fu_creating s \<or> fu_updating s)
      in [Field ''Full name'' (mf_name f) (\<lambda>v. ChangeForm (f\<lparr>mf_name := v\<rparr>)),
          Field ''Display name'' (mf_display_name f) (\<lambda>v. ChangeForm (f\<lparr>mf_display_name := v\<rparr>)),
          Pick ''role'' (mf_role f) role_options (\<lambda>v. ChangeForm (f\<lparr>mf_role := v\<rparr>)),
          Pick ''age'' (mf_age_group f) age_options (\<lambda>v. ChangeForm (f\<lparr>mf_age_group := v\<rparr>)),
          Txt ''Color''] @
         map (\<lambda>k. Btn k [] True (ChangeForm (f\<lparr>mf_color := k\<rparr>))) color_options @
         [Field ''PIN (4-6 digits, optional)'' (mf_pin f) (\<lambda>v. ChangeForm (f\<lparr>mf_pin := v\<rparr>))] @
         shown_some (fc_error c) @ rate @
         [Btn ''member-form-submit''
            (if isPending then ''Saving'' @ dots else if truthy (fc_editing c) then ''Save Changes'' else ''Add Member'')
            (\<not> isPending) SubmitForm,
          Btn ''cancel'' ''Cancel'' True CancelForm])"

definition family_view :: "string option \<Rightarrow> family_event ui list \<Rightarrow> family_use \<Rightarrow> family_event ui list" where
  "family_view household rate s =
     (let ms = (case fu_members s of None \<Rightarrow> [] | Some l \<Rightarrow> l)
      in shown_if (fu_invite s \<and> truthy household) [Box ''invite'' [Btn ''close-invite'' [] True CloseInvite]] @
         [Txt ''Family Members'', Btn ''invite-partner-btn'' ''Invite a partner'' True OpenInvite,
          Btn ''add-member-btn'' ''+ Add Member'' True AddMember] @
         shown_if (fu_loading s) [Txt (''Loading'' @ dots)] @
         shown_if (\<not> fu_loading s \<and> fu_members s = Some []) [Txt ''No members yet.''] @
         concat (map member_row ms) @
         shown_if (fc_show_add (fu_card s)) (member_form_view rate s))"

text \<open>The hourly rate is rendered for the member being edited, to a viewer who has a profile.\<close>

definition rate_member :: "string option \<Rightarrow> (string \<times> string) option \<Rightarrow> family_use \<Rightarrow> family_member option" where
  "rate_member household viewer s =
     (if truthy (fc_editing (fu_card s)) \<and> truthy household \<and> viewer \<noteq> None
      then find (\<lambda>m. Some (fm_id m) = fc_editing (fu_card s)) (case fu_members s of None \<Rightarrow> [] | Some l \<Rightarrow> l)
      else None)"

section \<open>The hourly rate\<close>

record rate_field =
  rf_min :: string
  rf_max :: string
  rf_error :: "string option"
  rf_flash :: bool
  rf_timers :: "int list"
  rf_pending :: bool
  rf_sent :: "mutation list"

definition open_rate :: "rat option \<Rightarrow> rat option \<Rightarrow> rate_field" where
  "open_rate lo hi = \<lparr>rf_min = cents_to_dollar_string lo, rf_max = cents_to_dollar_string hi, rf_error = None,
     rf_flash = False, rf_timers = [], rf_pending = False, rf_sent = []\<rparr>"

datatype rate_event =
    SetMin string
  | SetMax string
  | SaveRate
  | RateSaved int bool
  | RateTime int
  | RateChanged "rat option" "rat option"

fun rate_step :: "string \<Rightarrow> string \<Rightarrow> rate_event \<Rightarrow> rate_field \<Rightarrow> rate_field" where
  "rate_step hid mid (SetMin v) s = s\<lparr>rf_min := v\<rparr>"
| "rate_step hid mid (SetMax v) s = s\<lparr>rf_max := v\<rparr>"
| "rate_step hid mid SaveRate s =
     (case save_rate hid mid (rf_min s) (rf_max s) of
        Inl msg \<Rightarrow> s\<lparr>rf_error := Some msg\<rparr>
      | Inr m \<Rightarrow> s\<lparr>rf_error := None, rf_pending := True, rf_sent := rf_sent s @ [m]\<rparr>)"
| "rate_step hid mid (RateSaved now ok) s =
     (if ok then s\<lparr>rf_pending := False, rf_flash := True, rf_timers := rf_timers s @ [now + 1800]\<rparr>
      else s\<lparr>rf_pending := False, rf_error := Some ''Failed to save hourly rate.''\<rparr>)"
| "rate_step hid mid (RateTime now) s =
     (if list_ex (\<lambda>d. d \<le> now) (rf_timers s)
      then s\<lparr>rf_flash := False, rf_timers := filter (\<lambda>d. now < d) (rf_timers s)\<rparr> else s)"
| "rate_step hid mid (RateChanged lo hi) s =
     s\<lparr>rf_min := cents_to_dollar_string lo, rf_max := cents_to_dollar_string hi, rf_error := None, rf_flash := False\<rparr>"

definition rate_view :: "(string \<times> string) option \<Rightarrow> string \<Rightarrow> rate_field \<Rightarrow> rate_event ui list" where
  "rate_view viewer mid s =
     (if \<not> can_view_hourly_rate viewer mid then []
      else [Box ''hourly-rate-section''
        ([Txt ''Hourly rate'', Txt (''Private '' @ em_dash @ '' visible only to you and your household admin.''),
          Txt ''Min $/hr'', Field ''hourly-rate-min'' (rf_min s) SetMin,
          Txt ''Max $/hr'', Field ''hourly-rate-max'' (rf_max s) SetMax,
          Btn ''hourly-rate-save'' (if rf_pending s then ''Saving'' @ dots else ''Save'') (\<not> rf_pending s) SaveRate] @
         shown_if (rf_flash s) [Box ''hourly-rate-saved'' [Txt ''Saved.'']] @
         [Box ''hourly-rate-error'' (shown_some (rf_error s))])])"

section \<open>Calendars\<close>

record calendars_use =
  cu_card :: calendars_card
  cu_list :: "(string \<times> string) list option"
  cu_loading :: bool
  cu_pending :: bool
  cu_sent :: "mutation list"

datatype calendars_event =
    ToggleCalendarForm
  | CalendarName string
  | CalendarUrl string
  | SubmitCalendar
  | CancelCalendar
  | CalendarSaved bool
  | CalendarsData "(string \<times> string) list"

fun calendars_step :: "calendars_event \<Rightarrow> calendars_use \<Rightarrow> calendars_use" where
  "calendars_step ToggleCalendarForm s = s\<lparr>cu_card := (cu_card s)\<lparr>cc_show := \<not> cc_show (cu_card s)\<rparr>\<rparr>"
| "calendars_step (CalendarName v) s = s\<lparr>cu_card := (cu_card s)\<lparr>cc_name := v\<rparr>\<rparr>"
| "calendars_step (CalendarUrl v) s = s\<lparr>cu_card := (cu_card s)\<lparr>cc_url := v\<rparr>\<rparr>"
| "calendars_step SubmitCalendar s =
     (case submit_calendar (cu_card s) of
        (c, None) \<Rightarrow> s\<lparr>cu_card := c\<rparr>
      | (c, Some m) \<Rightarrow> s\<lparr>cu_card := c, cu_pending := True, cu_sent := cu_sent s @ [m]\<rparr>)"
| "calendars_step CancelCalendar s = s\<lparr>cu_card := (cu_card s)\<lparr>cc_show := False, cc_error := None\<rparr>\<rparr>"
| "calendars_step (CalendarSaved ok) s = s\<lparr>cu_card := calendar_answered ok (cu_card s), cu_pending := False\<rparr>"
| "calendars_step (CalendarsData cs) s = s\<lparr>cu_list := Some cs, cu_loading := False\<rparr>"

definition calendars_view :: "calendars_use \<Rightarrow> calendars_event ui list" where
  "calendars_view s =
     (let c = cu_card s; cs = (case cu_list s of None \<Rightarrow> [] | Some l \<Rightarrow> l)
      in [Txt ''Calendars'', Btn ''add-ical'' ''+ Add iCal URL'' True ToggleCalendarForm,
          Link ''+ Connect Google Calendar'' ''/v1/auth/oauth/google/start''] @
         shown_if (cu_loading s) [Txt (''Loading calendars'' @ dots)] @
         shown_if (\<not> cu_loading s \<and> cu_list s = Some []) [Txt ''No calendars connected yet.''] @
         concat (map (\<lambda>(nm, kind). [Txt nm, Txt (kind_label kind)]) cs) @
         shown_if (cc_show c)
           ([Field ''Calendar name'' (cc_name c) CalendarName,
             Field ''https://example.com/calendar.ics'' (cc_url c) CalendarUrl] @
            shown_some (cc_error c) @
            [Btn ''add-calendar'' (if cu_pending s then ''Adding'' @ dots else ''Add Calendar'') (\<not> cu_pending s) SubmitCalendar,
             Btn ''cancel'' ''Cancel'' True CancelCalendar]))"

section \<open>Kiosk mode\<close>

record kiosk_use =
  ku_optimistic :: "bool option"
  ku_settings :: "jsobj option"
  ku_loading :: bool
  ku_pending :: bool
  ku_sent :: "mutation list"

datatype kiosk_event = ToggleKiosk | KioskSaved bool | KioskData "jsobj option"

fun kiosk_use_step :: "string option \<Rightarrow> kiosk_event \<Rightarrow> kiosk_use \<Rightarrow> kiosk_use" where
  "kiosk_use_step household ToggleKiosk s =
     (case toggle_kiosk household (ku_settings s) (ku_optimistic s) of
        (o', None) \<Rightarrow> s\<lparr>ku_optimistic := o'\<rparr>
      | (o', Some m) \<Rightarrow> s\<lparr>ku_optimistic := o', ku_pending := True, ku_sent := ku_sent s @ [m]\<rparr>)"
| "kiosk_use_step household (KioskSaved ok) s =
     s\<lparr>ku_pending := False, ku_optimistic := (if ok then ku_optimistic s else kiosk_failed (ku_optimistic s))\<rparr>"
| "kiosk_use_step household (KioskData settings) s = s\<lparr>ku_settings := settings, ku_loading := False\<rparr>"

definition kiosk_card_view :: "kiosk_use \<Rightarrow> kiosk_event ui list" where
  "kiosk_card_view s =
     [Txt ''Kiosk Mode'',
      Txt ''When on, the app starts at the lock screen. Any family member can claim the session with their PIN.'',
      if ku_loading s then Txt (''Loading'' @ dots)
      else Btn ''kiosk-mode-toggle'' (if kiosk_enabled (ku_optimistic s) (ku_settings s) then ''pressed'' else ''not pressed'')
        (\<not> ku_pending s) ToggleKiosk]"

section \<open>Notifications\<close>

record notify_use =
  nu_row :: notify_row
  nu_saving :: bool
  nu_testing :: bool
  nu_sent :: "mutation list"

datatype notify_event =
    SetTopic string
  | ToggleEvents | ToggleLists | ToggleTasks
  | SaveNotify | NotifySaved
  | SendTest | TestAnswered bool

fun notify_step :: "string \<Rightarrow> notify_event \<Rightarrow> notify_use \<Rightarrow> notify_use" where
  "notify_step mid (SetTopic v) s = s\<lparr>nu_row := (nu_row s)\<lparr>nr_topic := v\<rparr>\<rparr>"
| "notify_step mid ToggleEvents s = s\<lparr>nu_row := (nu_row s)\<lparr>nr_events := \<not> nr_events (nu_row s)\<rparr>\<rparr>"
| "notify_step mid ToggleLists s = s\<lparr>nu_row := (nu_row s)\<lparr>nr_lists := \<not> nr_lists (nu_row s)\<rparr>\<rparr>"
| "notify_step mid ToggleTasks s = s\<lparr>nu_row := (nu_row s)\<lparr>nr_tasks := \<not> nr_tasks (nu_row s)\<rparr>\<rparr>"
| "notify_step mid SaveNotify s = s\<lparr>nu_saving := True, nu_sent := nu_sent s @ [save_notify mid (nu_row s)]\<rparr>"
| "notify_step mid NotifySaved s = s\<lparr>nu_saving := False\<rparr>"
| "notify_step mid SendTest s =
     s\<lparr>nu_row := (nu_row s)\<lparr>nr_test := None\<rparr>, nu_testing := True, nu_sent := nu_sent s @ [use_test_notification mid]\<rparr>"
| "notify_step mid (TestAnswered ok) s =
     s\<lparr>nu_testing := False,
       nu_row := (nu_row s)\<lparr>nr_test := Some (if ok then ''Sent!'' else ''Failed '' @ em_dash @ '' check topic.'')\<rparr>\<rparr>"

definition notify_view :: "string \<Rightarrow> string \<Rightarrow> notify_use \<Rightarrow> notify_event ui list" where
  "notify_view mid displayName s =
     (let r = nu_row s
      in [Txt (uppercase (take 1 displayName)), Txt displayName, Txt ''ntfy topic'',
          Field (''ntfy-topic-'' @ mid) (nr_topic r) SetTopic,
          Txt (''Choose a hard-to-guess topic name '' @ em_dash @ '' anyone with it can read your notifications.''),
          Check (''pref-events_enabled-'' @ mid) (nr_events r) ToggleEvents, Txt ''Events'',
          Check (''pref-lists_enabled-'' @ mid) (nr_lists r) ToggleLists, Txt ''Lists'',
          Check (''pref-tasks_enabled-'' @ mid) (nr_tasks r) ToggleTasks, Txt ''Tasks'',
          Btn (''save-notify-'' @ mid) (if nu_saving s then ''Saving'' @ dots else ''Save'') (\<not> nu_saving s) SaveNotify,
          Btn (''test-notify-'' @ mid) (if nu_testing s then ''Sending'' @ dots else ''Send test'')
            (\<not> notify_test_disabled (nu_testing s) r) SendTest] @
         shown_some (nr_test r))"

text \<open>The card: one row per member, each with a state of its own.\<close>

definition notifications_view :: "family_member list option \<Rightarrow> bool \<Rightarrow> (string \<Rightarrow> notify_use) \<Rightarrow> (string \<times> notify_event) ui list" where
  "notifications_view members loading rows =
     [Txt ''Notifications (ntfy.sh)'',
      Txt (''Install the ntfy app on your phone, subscribe to your topic, and enter it here. Pick a non-obvious topic '' @
        em_dash @ '' it'' @ [CHR 0x27] @ ''s your notification password.'')] @
     shown_if loading [Txt (''Loading'' @ dots)] @
     shown_if (\<not> loading \<and> members = Some []) [Txt ''No members yet.''] @
     concat (map (\<lambda>m. map (map_ui (\<lambda>e. (fm_id m, e))) (notify_view (fm_id m) (shown_name m) (rows (fm_id m))))
       (case members of None \<Rightarrow> [] | Some l \<Rightarrow> l))"

definition notifications_step :: "string \<times> notify_event \<Rightarrow> (string \<Rightarrow> notify_use) \<Rightarrow> string \<Rightarrow> notify_use" where
  "notifications_step e rows = rows(fst e := notify_step (fst e) (snd e) (rows (fst e)))"

section \<open>Lemmas\<close>

lemma fire_colors:
  "fire a (map (\<lambda>k. Btn k [] True (g k)) ks) = Some e \<Longrightarrow> \<exists>k \<in> set ks. e = g k"
  by (induction ks) (auto split: if_splits)

lemma family_offers:
  assumes "fire a (family_view household rate s) = Some e" and "\<And>a. fire a rate = None"
  shows "e = OpenInvite \<or> e = CloseInvite \<or> e = AddMember \<or> e = CancelForm \<or> (\<exists>f. e = ChangeForm f) \<or>
    (e = SubmitForm \<and> \<not> fu_creating s \<and> \<not> fu_updating s) \<or>
    (\<exists>m \<in> set (case fu_members s of None \<Rightarrow> [] | Some l \<Rightarrow> l). e = EditMember m \<or> e = RemoveMember (fm_id m))"
proof -
  have row: "fire a (member_row m) = Some e' \<Longrightarrow> e' = EditMember m \<or> e' = RemoveMember (fm_id m)" for m e'
    by (auto simp: member_row_def split: if_splits)
  have form: "fire a (member_form_view rate s) = Some e' \<Longrightarrow>
      e' = CancelForm \<or> (\<exists>f. e' = ChangeForm f) \<or> (e' = SubmitForm \<and> \<not> fu_creating s \<and> \<not> fu_updating s)" for e'
    using assms(2)
    by (auto simp: member_form_view_def Let_def fire_append split: if_splits act.splits option.splits dest!: fire_colors)
  show ?thesis
    using assms(1)
    by (auto simp: family_view_def Let_def fire_append split: if_splits option.splits dest!: fire_items row form)
qed

text \<open>
  What the family card may send to household \<open>h\<close>: a removal of a listed member, or a form without
  complaint that creates a member or updates a listed one.
\<close>

definition family_request_ok :: "string \<Rightarrow> string set \<Rightarrow> mutation \<Rightarrow> bool" where
  "family_request_ok h known m \<longleftrightarrow>
     (\<exists>i \<in> known. m = use_delete_member h i) \<or>
     (\<exists>editing f. form_complaint (Some h) f = None \<and> (truthy editing \<longrightarrow> the editing \<in> known) \<and>
        m = member_request h editing f)"

definition ids_of :: "family_member list option \<Rightarrow> string set" where
  "ids_of ms = fm_id ` set (case ms of None \<Rightarrow> [] | Some l \<Rightarrow> l)"

definition family_ok :: "string \<Rightarrow> string set \<Rightarrow> family_use \<Rightarrow> bool" where
  "family_ok h known s \<longleftrightarrow>
     ids_of (fu_members s) \<subseteq> known \<and>
     (truthy (fc_editing (fu_card s)) \<longrightarrow> the (fc_editing (fu_card s)) \<in> known) \<and>
     \<not> (fu_creating s \<and> fu_updating s) \<and>
     (\<forall>m \<in> set (fu_sent s). family_request_ok h known m)"

definition family_outside :: "string set \<Rightarrow> family_event \<Rightarrow> bool" where
  "family_outside known e =
     (case e of MemberSaved _ _ \<Rightarrow> True | MembersData ms \<Rightarrow> fm_id ` set ms \<subseteq> known | _ \<Rightarrow> False)"

lemma submit_member_cases:
  assumes "h \<noteq> []"
  shows "(\<exists>msg. submit_member (Some h) c = (c\<lparr>fc_error := Some msg\<rparr>, None)) \<or>
    (form_complaint (Some h) (fc_form c) = None \<and>
     submit_member (Some h) c = (c\<lparr>fc_error := None\<rparr>, Some (member_request h (fc_editing c) (fc_form c))))"
  by (auto simp: submit_member_def split: option.splits)

lemma family_submit_ok:
  assumes "h \<noteq> []" and ok: "family_ok h known s" and "\<not> fu_creating s" and "\<not> fu_updating s"
  shows "family_ok h known (family_step (Some h) SubmitForm s)"
  using submit_member_cases[OF assms(1), of "fu_card s"]
proof
  assume "\<exists>msg. submit_member (Some h) (fu_card s) = ((fu_card s)\<lparr>fc_error := Some msg\<rparr>, None)"
  with ok show ?thesis by (auto simp: family_ok_def)
next
  assume a: "form_complaint (Some h) (fc_form (fu_card s)) = None \<and>
    submit_member (Some h) (fu_card s) =
      ((fu_card s)\<lparr>fc_error := None\<rparr>, Some (member_request h (fc_editing (fu_card s)) (fc_form (fu_card s))))"
  have "family_request_ok h known (member_request h (fc_editing (fu_card s)) (fc_form (fu_card s)))"
    unfolding family_request_ok_def using a ok[unfolded family_ok_def] by blast
  with a ok assms(3,4) show ?thesis by (simp add: family_ok_def)
qed

lemma family_change_ok:
  "family_ok h known s \<Longrightarrow> i \<in> known \<Longrightarrow> h \<noteq> [] \<Longrightarrow> family_ok h known (family_step (Some h) (RemoveMember i) s)"
  "family_ok h known s \<Longrightarrow> fm_id m \<in> known \<Longrightarrow> family_ok h known (family_step (Some h) (EditMember m) s)"
  "family_ok h known s \<Longrightarrow> family_ok h known (family_step (Some h) AddMember s)"
  "family_ok h known s \<Longrightarrow> family_ok h known (family_step (Some h) CancelForm s)"
  "family_ok h known s \<Longrightarrow> family_ok h known (family_step (Some h) (ChangeForm f) s)"
  "family_ok h known s \<Longrightarrow> family_ok h known (family_step (Some h) (MemberSaved ok ed) s)"
  by (auto simp: family_ok_def delete_member_def family_request_ok_def open_edit_def open_add_def cancel_form_def
      member_answered_def)

text \<open>The slot of the rate belongs to another component and offers nothing to this one.\<close>

interpretation family: screen "family_view (Some (c # cs)) []" "family_step (Some (c # cs))" "family_outside known"
    "family_ok (c # cs) known"
  for c cs known
proof (unfold_locales, goal_cases)
  case (1 s a e)
  have "m \<in> set (case fu_members s of None \<Rightarrow> [] | Some l \<Rightarrow> l) \<Longrightarrow> fm_id m \<in> known" for m
    using 1(1) by (auto simp: family_ok_def ids_of_def)
  moreover have "family_ok (c # cs) known (family_step (Some (c # cs)) OpenInvite s)"
    "family_ok (c # cs) known (family_step (Some (c # cs)) CloseInvite s)"
    using 1(1) by (simp_all add: family_ok_def)
  moreover have "e = OpenInvite \<or> e = CloseInvite \<or> e = AddMember \<or> e = CancelForm \<or> (\<exists>f. e = ChangeForm f) \<or>
    (e = SubmitForm \<and> \<not> fu_creating s \<and> \<not> fu_updating s) \<or>
    (\<exists>m \<in> set (case fu_members s of None \<Rightarrow> [] | Some l \<Rightarrow> l). e = EditMember m \<or> e = RemoveMember (fm_id m))"
    by (rule family_offers[OF 1(2)]) simp
  ultimately show ?case
    using 1(1) family_submit_ok[of "c # cs" known s] family_change_ok(1-5)[of "c # cs" known s] by blast
next
  case outer: (2 s e)
  then consider ok ed where "e = MemberSaved ok ed" | ms where "e = MembersData ms" "fm_id ` set ms \<subseteq> known"
    by (cases e) (auto simp: family_outside_def)
  then show ?case
  proof cases
    case 1
    then show ?thesis using outer(1) family_change_ok(6) by blast
  next
    case 2
    then show ?thesis using outer(1) by (simp add: family_ok_def ids_of_def)
  qed
qed

text \<open>While a request of the switch is under way, the switch shows what the request says.\<close>

definition kiosk_ok :: "string option \<Rightarrow> kiosk_use \<Rightarrow> bool" where
  "kiosk_ok household s \<longleftrightarrow>
     (ku_pending s \<longrightarrow>
        (\<exists>b ob. ku_optimistic s = Some b \<and> ku_sent s \<noteq> [] \<and>
          last (ku_sent s) = use_update_household_settings (the household) (JObj ob) \<and>
          jget ob ''kiosk_mode_enabled'' = JBool b))"

lemma kiosk_offers: "fire a (kiosk_card_view s) = Some e \<Longrightarrow> e = ToggleKiosk \<and> \<not> ku_pending s"
  by (auto simp: kiosk_card_view_def split: if_splits)

lemma toggle_kiosk_cases:
  "toggle_kiosk household settings opt = (opt, None) \<or>
   (\<exists>b ob. toggle_kiosk household settings opt =
      (Some b, Some (use_update_household_settings (the household) (JObj ob))) \<and> jget ob ''kiosk_mode_enabled'' = JBool b)"
  unfolding toggle_kiosk_def Let_def by (metis jget_jset)

lemma kiosk_toggle_ok: "\<not> ku_pending s \<Longrightarrow> kiosk_ok household (kiosk_use_step household ToggleKiosk s)"
  using toggle_kiosk_cases[of household "ku_settings s" "ku_optimistic s"] by (auto simp: kiosk_ok_def)

interpretation kiosk_switching: screen kiosk_card_view "kiosk_use_step household" "\<lambda>e. e \<noteq> ToggleKiosk" "kiosk_ok household"
  for household
proof (unfold_locales, goal_cases)
  case (1 s a e)
  then show ?case by (auto dest!: kiosk_offers intro: kiosk_toggle_ok simp del: kiosk_use_step.simps)
next
  case (2 s e)
  then show ?case by (cases e) (auto simp: kiosk_ok_def kiosk_failed_def)
qed

section \<open>Properties\<close>

text \<open>
  However the family card is used, and whatever the server answers meanwhile: every request it sends
  goes to the household and is a removal of a listed member, or comes from a form with both names and a
  PIN that is empty or of four to six digits, and then creates a member or updates a listed one.
\<close>

theorem family_card_requests:
  assumes "list_all (use_legal (family_outside known)) us" and "household = Some (c # cs)"
  shows "\<forall>m \<in> set (fu_sent (run (use_step (family_view household []) (family_step household)) us family_use_start)).
    (\<exists>i \<in> known. m = use_delete_member (c # cs) i) \<or>
    (\<exists>editing f. trim (mf_name f) \<noteq> [] \<and> trim (mf_display_name f) \<noteq> [] \<and> (mf_pin f = [] \<or> valid_pin (mf_pin f)) \<and>
       (truthy editing \<longrightarrow> the editing \<in> known) \<and> m = member_request (c # cs) editing f)"
proof -
  have "family_ok (c # cs) known family_use_start"
    by (simp add: family_ok_def ids_of_def family_use_start_def family_start_def)
  then have "family_ok (c # cs) known (run (use_step (family_view household []) (family_step household)) us family_use_start)"
    unfolding assms(2) using assms(1) by (rule family.always)
  moreover have "form_complaint (Some (c # cs)) f = None \<Longrightarrow>
      trim (mf_name f) \<noteq> [] \<and> trim (mf_display_name f) \<noteq> [] \<and> (mf_pin f = [] \<or> valid_pin (mf_pin f))" for f
    by (auto simp: form_complaint_def split: if_splits)
  ultimately show ?thesis unfolding family_ok_def family_request_ok_def by blast
qed

definition ann :: family_member where
  "ann = \<lparr>fm_id = ''m1'', fm_name = ''Ann'', fm_display_name = None, fm_color = ''#3B82F6'', fm_role = ''admin'',
     fm_age_group = None\<rparr>"

definition ann_uses :: "family_event use list" where
  "ann_uses = [Outside (MembersData [ann]), User (Press ''edit-member-m1''), User (Enter ''Display name'' ''  ''),
     User (Press ''member-form-submit''), User (Enter ''Display name'' ''Mum''), User (Press ''member-form-submit''),
     User (Press ''member-form-submit'')]"

theorem family_card_requests_witness:
  "length (fu_sent (run (use_step (family_view (Some ''h1'') []) (family_step (Some ''h1''))) ann_uses family_use_start)) = 1 \<and>
   (\<forall>m \<in> set (fu_sent (run (use_step (family_view (Some ''h1'') []) (family_step (Some ''h1''))) ann_uses family_use_start)).
    (\<exists>i \<in> {''m1''}. m = use_delete_member ''h1'' i) \<or>
    (\<exists>editing f. trim (mf_name f) \<noteq> [] \<and> trim (mf_display_name f) \<noteq> [] \<and> (mf_pin f = [] \<or> valid_pin (mf_pin f)) \<and>
       (truthy editing \<longrightarrow> the editing \<in> {''m1''}) \<and> m = member_request ''h1'' editing f))"
proof -
  have l: "list_all (use_legal (family_outside {''m1''})) ann_uses"
    by (simp add: ann_uses_def ann_def family_outside_def)
  have n: "length (fu_sent (run (use_step (family_view (Some ''h1'') []) (family_step (Some ''h1''))) ann_uses family_use_start)) = 1"
    by code_simp
  show ?thesis by (rule conjI[OF n family_card_requests[OF l refl]])
qed

text \<open>
  A save that succeeds closes whichever form is open: here the form of a second member, opened and
  filled in while the first save was under way, is closed with what was typed.
\<close>

lemma save_closes_other_form:
  "let s = run (use_step (family_view (Some ''h1'') []) (family_step (Some ''h1'')))
      [Outside (MembersData [ann]), User (Press ''edit-member-m1''), User (Press ''member-form-submit''),
       User (Press ''add-member-btn''), User (Enter ''Full name'' ''Bob''), Outside (MemberSaved True (Some ''m1''))]
      family_use_start
   in \<not> fc_show_add (fu_card s) \<and> mf_name (fc_form (fu_card s)) = ''Bob'' \<and> length (fu_sent s) = 1"
  by code_simp

text \<open>
  The private rate: to a viewer who is neither an adult nor the member nothing is rendered, so that no
  use of the field changes or sends anything; to the others every request is the checked one.
\<close>

theorem rate_is_private:
  "(\<not> can_view_hourly_rate viewer mid \<longrightarrow>
      rate_view viewer mid s = [] \<and>
      run (use_step (rate_view viewer mid) (rate_step hid mid)) (map User acts) s = s) \<and>
   (fire a (rate_view viewer mid s) = Some SaveRate \<longrightarrow>
      can_view_hourly_rate viewer mid \<and> \<not> rf_pending s \<and>
      (case save_rate hid mid (rf_min s) (rf_max s) of
         Inl msg \<Rightarrow> rf_error (rate_step hid mid SaveRate s) = Some msg \<and> rf_sent (rate_step hid mid SaveRate s) = rf_sent s
       | Inr m \<Rightarrow> rf_sent (rate_step hid mid SaveRate s) = rf_sent s @ [m] \<and>
           fire a (rate_view viewer mid (rate_step hid mid SaveRate s)) = None))"
proof -
  have hidden: "run (use_step (rate_view viewer mid) (rate_step hid mid)) (map User acts) s = s"
    if "\<not> can_view_hourly_rate viewer mid"
    using that by (induction acts) (simp_all add: rate_view_def)
  have "rate_view viewer mid s = []" if "\<not> can_view_hourly_rate viewer mid" using that by (simp add: rate_view_def)
  moreover have "can_view_hourly_rate viewer mid \<and> \<not> rf_pending s \<and> a = Press ''hourly-rate-save''"
    if "fire a (rate_view viewer mid s) = Some SaveRate"
    using that by (auto simp: rate_view_def fire_append split: if_splits act.splits option.splits)
  moreover have "fire (Press ''hourly-rate-save'') (rate_view viewer mid t) = None" if "rf_pending t" for t
    using that by (simp add: rate_view_def fire_append)
  ultimately show ?thesis using hidden by (auto split: sum.splits)
qed

theorem rate_is_private_witness:
  "rate_view (Some (''kid'', ''child'')) ''mum'' (open_rate None None) = [] \<and>
   rf_sent (run (use_step (rate_view (Some (''kid'', ''child'')) ''mum'') (rate_step ''h'' ''mum''))
      (map User [Press ''hourly-rate-save'']) (open_rate None None)) = []"
  using rate_is_private[of "Some (''kid'', ''child'')" "''mum''" "open_rate None None" "''h''" "[Press ''hourly-rate-save'']" "Press []"]
  by (simp add: can_view_hourly_rate_def open_rate_def)

text \<open>
  While a request of the kiosk switch is under way the switch shows what that request says, and
  pressing it does nothing.
\<close>

theorem kiosk_switch_waits:
  assumes "list_all (use_legal (\<lambda>e. e \<noteq> ToggleKiosk)) us"
  shows "let s = run (use_step kiosk_card_view (kiosk_use_step household)) us
        \<lparr>ku_optimistic = None, ku_settings = None, ku_loading = True, ku_pending = False, ku_sent = []\<rparr>
    in ku_pending s \<longrightarrow>
      (\<exists>b ob. ku_optimistic s = Some b \<and> ku_sent s \<noteq> [] \<and>
         last (ku_sent s) = use_update_household_settings (the household) (JObj ob) \<and>
         jget ob ''kiosk_mode_enabled'' = JBool b) \<and>
      run (use_step kiosk_card_view (kiosk_use_step household)) [User a] s = s"
proof -
  let ?s = "run (use_step kiosk_card_view (kiosk_use_step household)) us
    \<lparr>ku_optimistic = None, ku_settings = None, ku_loading = True, ku_pending = False, ku_sent = []\<rparr>"
  have "kiosk_ok household \<lparr>ku_optimistic = None, ku_settings = None, ku_loading = True, ku_pending = False, ku_sent = []\<rparr>"
    by (simp add: kiosk_ok_def)
  then have "kiosk_ok household ?s" using assms by (rule kiosk_switching.always)
  moreover have "fire a (kiosk_card_view ?s) = None" if "ku_pending ?s"
    using that kiosk_offers by (metis not_None_eq)
  ultimately show ?thesis
    by (simp add: Let_def kiosk_ok_def kiosk_switching.dead_control del: run_simps)
qed

theorem kiosk_switch_waits_witness:
  "ku_pending (run (use_step kiosk_card_view (kiosk_use_step (Some ''h1'')))
      [Outside (KioskData None), User (Press ''kiosk-mode-toggle'')]
      \<lparr>ku_optimistic = None, ku_settings = None, ku_loading = True, ku_pending = False, ku_sent = []\<rparr>) \<and>
   (\<exists>ob. last (ku_sent (run (use_step kiosk_card_view (kiosk_use_step (Some ''h1'')))
      [Outside (KioskData None), User (Press ''kiosk-mode-toggle'')]
      \<lparr>ku_optimistic = None, ku_settings = None, ku_loading = True, ku_pending = False, ku_sent = []\<rparr>)) =
      use_update_household_settings ''h1'' (JObj ob))"
proof -
  let ?us = "[Outside (KioskData None), User (Press ''kiosk-mode-toggle'')]"
  let ?s = "run (use_step kiosk_card_view (kiosk_use_step (Some ''h1''))) ?us
    \<lparr>ku_optimistic = None, ku_settings = None, ku_loading = True, ku_pending = False, ku_sent = []\<rparr>"
  have p: "ku_pending ?s" by code_simp
  from kiosk_switch_waits[of ?us "Some ''h1''" "Press []"] p show ?thesis by (auto simp: Let_def simp del: run_simps)
qed

text \<open>
  The rows of the notifications are independent: an act changes the row of one listed member at most,
  and a test leaves only from a row whose topic is not blank.
\<close>

theorem notification_rows_independent:
  assumes "fire a (notifications_view members loading rows) = Some e"
  shows "fst e \<in> ids_of members \<and> (\<forall>i. i \<noteq> fst e \<longrightarrow> notifications_step e rows i = rows i) \<and>
    (snd e = SendTest \<longrightarrow> trim (nr_topic (nu_row (rows (fst e)))) \<noteq> [] \<and> \<not> nu_testing (rows (fst e)))"
proof -
  from assms obtain m where m: "m \<in> set (case members of None \<Rightarrow> [] | Some l \<Rightarrow> l)"
    and f: "fire a (map (map_ui (\<lambda>e. (fm_id m, e))) (notify_view (fm_id m) (shown_name m) (rows (fm_id m)))) = Some e"
    by (auto simp: notifications_view_def fire_append split: if_splits dest!: fire_items)
  from f obtain e' where e: "e = (fm_id m, e')"
    and f': "fire a (notify_view (fm_id m) (shown_name m) (rows (fm_id m))) = Some e'"
    by (auto simp: fire_map)
  have "e' = SendTest \<Longrightarrow> \<not> notify_test_disabled (nu_testing (rows (fm_id m))) (nu_row (rows (fm_id m)))"
    using f' by (auto simp: notify_view_def Let_def fire_append split: if_splits act.splits option.splits)
  with m e show ?thesis by (auto simp: ids_of_def notifications_step_def notify_test_disabled_def)
qed

theorem notification_rows_independent_witness:
  "fire (Press ''test-notify-m1'') (notifications_view (Some [ann]) False
      (\<lambda>_. \<lparr>nu_row = open_notify (Some ''t'') None, nu_saving = False, nu_testing = False, nu_sent = []\<rparr>)) = Some (''m1'', SendTest) \<and>
   ''m1'' \<in> ids_of (Some [ann])"
proof -
  let ?v = "notifications_view (Some [ann]) False
      (\<lambda>_. \<lparr>nu_row = open_notify (Some ''t'') None, nu_saving = False, nu_testing = False, nu_sent = []\<rparr>)"
  have f: "fire (Press ''test-notify-m1'') ?v = Some (''m1'', SendTest)" by code_simp
  from notification_rows_independent[OF f] f show ?thesis by simp
qed
end
