(* ===== verification/OnboardingViews.thy ===== *)
theory OnboardingViews
  imports Onboarding Settings Markup
begin

text \<open>
  What the onboarding wizard renders: the seven steps of \<^verbatim>\<open>web/src/components/screens/onboarding.tsx\<close>
  inside the page \<^verbatim>\<open>web/src/app/onboarding/page.tsx\<close>, with the calendar form of its sixth step. A
  button of the kit (\<^verbatim>\<open>ui/button.tsx\<close>) has the type \<open>button\<close> unless it is given another: one without
  a handler is only its label. \<open>t\<close> is the message catalogue with full keys.
\<close>

section \<open>The steps\<close>

text \<open>\<^verbatim>\<open>s.split(ab)\<close> for a separator of two characters.\<close>

fun split_two :: "char \<Rightarrow> char \<Rightarrow> string \<Rightarrow> string list" where
  "split_two a b [] = [[]]"
| "split_two a b [c] = [[c]]"
| "split_two a b (c # d # s) =
     (if c = a \<and> d = b then [] # split_two a b s
      else (case split_two a b (d # s) of [] \<Rightarrow> [[c]] | w # ws \<Rightarrow> (c # w) # ws))"

definition ob_welcome :: "(string \<Rightarrow> string) \<Rightarrow> 'e ui list" where
  "ob_welcome t =
     (let s = t ''onboarding.welcome.signIn''
      in [Txt ''tidyboard'', Txt (t ''onboarding.welcome.greeting''), Txt (t ''app.tagline''),
          Txt (t ''onboarding.welcome.cta''), Txt (hd (split_on (CHR ''?'') s) @ ''?''),
          Txt (case split_two (CHR ''?'') (CHR '' '') s of _ # w # _ \<Rightarrow> w | _ \<Rightarrow> [])])"

definition ob_create :: "(string \<Rightarrow> string) \<Rightarrow> 'e ui list" where
  "ob_create t =
     [Txt ''tidyboard'', Txt (t ''onboarding.create.title''), Txt (t ''onboarding.create.subtitle''),
      Txt ''Your Tidyboard account is ready. Continue to create the household that will own this dashboard.'',
      Txt (t ''onboarding.create.createAccount''), Txt (t ''onboarding.create.alreadyHaveAccount''),
      Txt (t ''onboarding.create.signIn'')]"

definition ob_household :: "(string \<Rightarrow> string) \<Rightarrow> onboarding \<Rightarrow> ob_event ui list" where
  "ob_household t s =
     [Txt (t ''onboarding.household.title''), Txt (t ''onboarding.household.subtitle''),
      Field ''e.g. Our household'' (ob_household_name s) TypeHousehold,
      Txt ''Timezone'', Field ''Household timezone'' (ob_timezone s) TypeTimezone,
      Txt ''Used for routines, calendar days, and shopping windows.'', Txt (t ''onboarding.household.continue'')]"

definition first_letter :: "string \<Rightarrow> string" where
  "first_letter nm = (if trim nm = [] then ''?'' else uppercase (take 1 (trim nm)))"

definition ob_self :: "(string \<Rightarrow> string) \<Rightarrow> onboarding \<Rightarrow> ob_event ui list" where
  "ob_self t s =
     [Txt (t ''onboarding.self.title''), Txt (first_letter (ob_self_name s)),
      Txt (t ''onboarding.self.fullName''), Field ''Your full name'' (ob_self_name s) TypeSelf,
      Txt (t ''onboarding.self.displayName''), Field ''e.g. Mom, Dad, Alex'' (ob_self_display s) TypeSelfDisplay,
      Txt (t ''onboarding.self.displayNameHint''), Txt (t ''onboarding.self.color'')] @
     map (\<lambda>c. Btn c [] True (PickColor c)) member_colors @
     [Txt (t ''onboarding.self.colorHint''), Txt (t ''onboarding.self.continue'')]"

definition role_label :: "string \<Rightarrow> string" where
  "role_label r = (if r = ''adult'' then ''Adult'' else if r = ''child'' then ''Child'' else ''Pet'')"

definition family_row :: "member_draft \<Rightarrow> ob_event ui list" where
  "family_row m =
     [Txt (first_letter (md_name m)), Txt (if md_display_name m \<noteq> [] then md_display_name m else md_name m),
      Txt (role_label (md_role m))] @
     shown_if (truthy (md_pin m)) [Txt (''PIN '' @ the (md_pin m))] @
     [Btn (''Remove '' @ md_name m) [] True (RemoveDraft (md_id m))]"

text \<open>\<open>freshId\<close> is the identifier that the next press on the add button would draw.\<close>

definition ob_family :: "(string \<Rightarrow> string) \<Rightarrow> string \<Rightarrow> onboarding \<Rightarrow> ob_event ui list" where
  "ob_family t freshId s =
     (let d = ob_draft s
      in [Txt (t ''onboarding.family.title''), Txt (nat_str (length (ob_members s)) @ '' added''),
          Txt (t ''onboarding.family.subtitle'')] @
         concat (map family_row (ob_members s)) @
         [Txt ''Name'', Field ''Family member name'' (md_name d) TypeName,
          Txt ''Role'', Pick ''Family member role'' (md_role d) [''adult'', ''child'', ''pet''] PickRole] @
         shown_if (md_role d = ''child'')
           [Txt ''PIN'', Field ''Optional child PIN'' (case md_pin d of None \<Rightarrow> [] | Some p \<Rightarrow> p) TypePin,
            Txt ''Optional 4-6 digit kiosk unlock code.''] @
         [Btn ''add-member'' (t ''onboarding.family.addMember'') True (AddDraft freshId),
          Check ''roster-reviewed'' (ob_reviewed s) (Review (\<not> ob_reviewed s)),
          Txt ''My roster includes everyone who should appear on Tidyboard.'', Txt (t ''onboarding.family.continue'')])"

section \<open>The calendar form\<close>

record ical_form =
  if_show :: bool
  if_name :: string
  if_url :: string
  if_error :: "string option"
  if_success :: bool
  if_pending :: bool
  if_sent :: "mutation list"

datatype ical_event = ShowIcal | HideIcal | IcalName string | IcalUrl string | SubmitIcal | IcalSaved bool

definition ical_start :: ical_form where
  "ical_start = \<lparr>if_show = False, if_name = [], if_url = [], if_error = None, if_success = False, if_pending = False,
     if_sent = []\<rparr>"

fun ical_step :: "ical_event \<Rightarrow> ical_form \<Rightarrow> ical_form" where
  "ical_step ShowIcal s = s\<lparr>if_show := True\<rparr>"
| "ical_step HideIcal s = s\<lparr>if_show := False, if_error := None\<rparr>"
| "ical_step (IcalName v) s = s\<lparr>if_name := v\<rparr>"
| "ical_step (IcalUrl v) s = s\<lparr>if_url := v\<rparr>"
| "ical_step SubmitIcal s =
     (if trim (if_name s) = [] \<or> trim (if_url s) = [] then s\<lparr>if_error := Some ''Name and URL are required.''\<rparr>
      else s\<lparr>if_error := None, if_pending := True,
             if_sent := if_sent s @ [use_add_ical_calendar (trim (if_name s)) (trim (if_url s))]\<rparr>)"
| "ical_step (IcalSaved ok) s =
     (if ok then s\<lparr>if_pending := False, if_success := True, if_show := False\<rparr>
      else s\<lparr>if_pending := False, if_error := Some ''Failed to add calendar. Check the URL and try again.''\<rparr>)"

text \<open>
  Submitting a form with the Enter key, after the HTML standard: with a submit button through that
  button, without one only where at most one field blocks it.
\<close>

definition enter_submits :: "bool \<Rightarrow> nat \<Rightarrow> bool" where
  "enter_submits has_submit_button text_fields \<longleftrightarrow> has_submit_button \<or> text_fields \<le> 1"

text \<open>The button that reads \<open>Add Calendar\<close> has the type \<open>button\<close> and no handler.\<close>

definition ob_calendar :: "(string \<Rightarrow> string) \<Rightarrow> ical_form \<Rightarrow> ical_event ui list" where
  "ob_calendar t s =
     [Txt (t ''onboarding.calendar.title''), Txt (t ''onboarding.calendar.subtitle''),
      Txt ''Thursday'', Txt ''Apr 22'',
      Txt ''8:00'', Txt ''Calendar events'', Txt ''9:00'', Txt ''Routine blocks'', Txt ''3:30'', Txt ''Care reminders'',
      Txt (t ''onboarding.calendar.eventsAppearHere''), Txt (t ''onboarding.calendar.connectGoogle'')] @
     (if if_show s then
        [Field ''Calendar name'' (if_name s) IcalName, Field ''https://example.com/calendar.ics'' (if_url s) IcalUrl] @
        shown_if (enter_submits False 2) [Btn ''Enter'' [] True SubmitIcal] @
        shown_some (if_error s) @
        [Txt (if if_pending s then ''Adding'' @ dots else ''Add Calendar''), Btn ''Cancel'' ''Cancel'' True HideIcal]
      else if if_success s then [Txt ''iCal calendar added!'', Txt (t ''onboarding.calendar.skipForNow'')]
      else [Btn ''add-ical'' (t ''onboarding.calendar.addIcal'') True ShowIcal, Txt (t ''onboarding.calendar.skipForNow'')])"

definition ob_landing :: "(string \<Rightarrow> string) \<Rightarrow> 'e ui list" where
  "ob_landing t =
     [Txt (t ''onboarding.landing.title''), Txt (t ''onboarding.landing.subtitle''),
      Txt (''THU '' @ [CHR 0xC2, CHR 0xB7] @ '' APR 22''),
      Txt ''Household created'', Txt ''Adult profile linked'', Txt ''Roster reviewed'',
      Txt ''Pets kept out of sign-in and wallet flows'', Txt (t ''onboarding.landing.opening'')]"

section \<open>The page\<close>

datatype wizard_event = Wizard ob_event | Ical ical_event

definition onboarding_labels :: "string list" where
  "onboarding_labels = [''Welcome'', ''Create account'', ''Household name'', ''Add self'', ''Add family'',
     ''Connect calendar'', ''All set!'']"

definition onboarding_screen :: "(string \<Rightarrow> string) \<Rightarrow> string \<Rightarrow> onboarding \<Rightarrow> ical_form \<Rightarrow> wizard_event ui list" where
  "onboarding_screen t freshId s f =
     (let w = map (map_ui Wizard); k = ob_step s in
      if k = 1 then ob_create t else if k = 2 then w (ob_household t s) else if k = 3 then w (ob_self t s)
      else if k = 4 then w (ob_family t freshId s) else if k = 5 then map (map_ui Ical) (ob_calendar t f)
      else if k = 6 then ob_landing t else ob_welcome t)"

definition wizard_view ::
  "(string \<Rightarrow> string) \<Rightarrow> string \<Rightarrow> string option \<Rightarrow> onboarding \<times> ical_form \<Rightarrow> wizard_event ui list" where
  "wizard_view t freshId accountId p =
     (let s = fst p; k = ob_step s; label = onboarding_labels ! k; next_up = Wizard (Advance accountId)
      in onboarding_screen t freshId s (snd p) @
         shown_if (k = 2) [Txt ''Already have a code?'', Link ''Join an existing household'' ''/join''] @
         [Box ''alert'' (shown_some (ob_error s)),
          Btn (''Continue from '' @ label) [] (\<not> ob_loading s) next_up,
          Btn ''back'' (t ''common.back'') (k \<noteq> 0) (Wizard GoBack),
          Txt (''Step '' @ nat_str (k + 1) @ '' / 7 '' @ [CHR 0xC2, CHR 0xB7] @ '' '' @ label),
          Btn ''next'' (if ob_loading s then dots else if k = 6 then t ''common.finish'' else t ''common.next'')
            (\<not> ob_loading s) next_up])"

text \<open>Leaving the calendar step unmounts its form: coming back shows a new one.\<close>

fun wizard_use_step :: "wizard_event \<Rightarrow> onboarding \<times> ical_form \<Rightarrow> onboarding \<times> ical_form" where
  "wizard_use_step (Wizard e) (s, f) =
     (let s' = ob_event_step e s in (s', if ob_step s' = 5 then f else ical_start\<lparr>if_sent := if_sent f\<rparr>))"
| "wizard_use_step (Ical e) (s, f) = (s, if ob_step s = 5 then ical_step e f else f)"

section \<open>Lemmas\<close>

lemma ob_self_colors: "fire a (map (\<lambda>c. Btn c [] True (PickColor c)) cs) = Some e \<Longrightarrow> \<exists>c. e = PickColor c"
  by (induction cs) (auto split: if_splits)

lemma family_row_offers: "fire a (family_row m) = Some e \<Longrightarrow> e = RemoveDraft (md_id m)"
  by (auto simp: family_row_def fire_append split: if_splits)

lemma static_steps: "fire a (ob_welcome t) = None" "fire a (ob_create t) = None" "fire a (ob_landing t) = None"
  by (simp_all add: ob_welcome_def ob_create_def ob_landing_def Let_def)

text \<open>What a step offers changes fields of that step only.\<close>

lemma step_offers:
  "fire a (ob_household t s) = Some e \<Longrightarrow> (\<exists>v. e = TypeHousehold v \<or> e = TypeTimezone v)"
  "fire a (ob_self t s) = Some e \<Longrightarrow> (\<exists>v. e = TypeSelf v \<or> e = TypeSelfDisplay v \<or> e = PickColor v)"
  "fire a (ob_family t i s) = Some e \<Longrightarrow>
     (\<exists>v. e = TypeName v \<or> e = PickRole v \<or> e = TypePin v \<or> e = RemoveDraft v) \<or> e = AddDraft i \<or> (\<exists>b. e = Review b)"
  by (auto simp: ob_household_def ob_self_def ob_family_def Let_def fire_append split: if_splits act.splits option.splits
      dest!: ob_self_colors fire_items family_row_offers)

lemma ical_offers:
  "fire a (ob_calendar t f) = Some e \<Longrightarrow> e = ShowIcal \<or> e = HideIcal \<or> (\<exists>v. e = IcalName v \<or> e = IcalUrl v)"
  by (auto simp: ob_calendar_def enter_submits_def fire_append split: if_splits act.splits option.splits)

lemma screen_offers:
  assumes "fire a (onboarding_screen t i s f) = Some e"
  shows "(\<exists>o'. e = Wizard o' \<and> ordinary o') \<or> (\<exists>c. e = Ical c \<and> c \<noteq> SubmitIcal \<and> (\<forall>ok. c \<noteq> IcalSaved ok))"
  using assms
  by (auto simp: onboarding_screen_def Let_def fire_map static_steps ordinary_def split: if_splits dest!: step_offers ical_offers)

lemma wizard_offers:
  assumes "fire a (wizard_view t i acc (s, f)) = Some e"
  shows "(\<exists>o'. e = Wizard o' \<and> ordinary o') \<or> (\<exists>c. e = Ical c \<and> c \<noteq> SubmitIcal \<and> (\<forall>ok. c \<noteq> IcalSaved ok))"
  using assms
  by (auto simp: wizard_view_def Let_def fire_append ordinary_def split: if_splits option.splits dest!: screen_offers)

definition wizard_outside :: "wizard_event \<Rightarrow> bool" where
  "wizard_outside e =
     (case e of Wizard (Answer r) \<Rightarrow> ordinary (Answer r) | Wizard LandingTimer \<Rightarrow> True | Ical (IcalSaved ok) \<Rightarrow> True | _ \<Rightarrow> False)"

definition wizard_ok :: "onboarding \<times> ical_form \<Rightarrow> bool" where
  "wizard_ok p \<longleftrightarrow> onboarding_ok (fst p) \<and> if_sent (snd p) = []"

lemma wizard_use_ok:
  assumes "wizard_ok (s, f)" and "e = Wizard o' \<and> ordinary o' \<or> e = Ical c \<and> c \<noteq> SubmitIcal"
  shows "wizard_ok (wizard_use_step e (s, f))"
  using assms
proof (elim disjE)
  assume "e = Wizard o' \<and> ordinary o'"
  with assms(1) show ?thesis by (simp add: wizard_ok_def Let_def onboarding_step_ok)
next
  assume "e = Ical c \<and> c \<noteq> SubmitIcal"
  with assms(1) show ?thesis by (cases c) (simp_all add: wizard_ok_def)
qed

interpretation wizard_page: screen "wizard_view t i acc" wizard_use_step wizard_outside wizard_ok
  for t i acc
proof (unfold_locales, goal_cases)
  case (1 p a e)
  obtain s f where p: "p = (s, f)" by (cases p)
  with wizard_offers[of a t i acc s f e] 1 show ?case by (auto intro: wizard_use_ok simp del: wizard_use_step.simps)
next
  case (2 p e)
  obtain s f where p: "p = (s, f)" by (cases p)
  have "(\<exists>o'. e = Wizard o' \<and> ordinary o') \<or> (\<exists>ok. e = Ical (IcalSaved ok))"
    using 2(2) by (auto simp: wizard_outside_def ordinary_def split: wizard_event.splits ob_event.splits ical_event.splits)
  then show ?case using 2(1) p by (auto intro: wizard_use_ok simp del: wizard_use_step.simps)
qed

section \<open>Properties\<close>

text \<open>
  However the rendered wizard is used: its step has a label, the own name is asked only with a
  household created, the family only with the user sent as its member, and the calendar form never sends
  anything, because no control of it submits it.
\<close>

theorem wizard_as_rendered:
  assumes "list_all (use_legal wizard_outside) us"
  shows "let (s, f) = run (use_step (wizard_view t i acc) wizard_use_step) us (open_onboarding tz, ical_start) in
    ob_step s < length onboarding_labels \<and>
    (3 \<le> ob_step s \<longrightarrow> truthy (ob_household_id s) \<and> household_sent (ob_sent s)) \<and>
    (4 \<le> ob_step s \<longrightarrow> self_sent (ob_sent s)) \<and> if_sent f = []"
proof -
  have "wizard_ok (open_onboarding tz, ical_start)"
    by (simp add: wizard_ok_def open_onboarding_def ob_defs ical_start_def)
  then have "wizard_ok (run (use_step (wizard_view t i acc) wizard_use_step) us (open_onboarding tz, ical_start))"
    using assms by (rule wizard_page.always)
  then show ?thesis
    by (auto simp: Let_def wizard_ok_def onboarding_ok_def has_household_def onboarding_labels_def split: prod.splits)
qed

definition smith_uses :: "wizard_event use list" where
  "smith_uses = [User (Press ''next''), User (Press ''next''), User (Press ''next''),
     User (Enter ''e.g. Our household'' ''Smith''), User (Press ''next''), User (Press ''next''),
     Outside (Wizard (Answer (Inr ''h1'')))]"

theorem wizard_as_rendered_witness:
  "ob_step (fst (run (use_step (wizard_view (\<lambda>k. k) ''d1'' None) wizard_use_step) smith_uses (open_onboarding ''UTC'', ical_start))) = 3 \<and>
   household_sent (ob_sent (fst (run (use_step (wizard_view (\<lambda>k. k) ''d1'' None) wizard_use_step) smith_uses
     (open_onboarding ''UTC'', ical_start))))"
proof -
  let ?p = "run (use_step (wizard_view (\<lambda>k. k) ''d1'' None) wizard_use_step) smith_uses (open_onboarding ''UTC'', ical_start)"
  have s: "ob_step (fst ?p) = 3" by code_simp
  have l: "list_all (use_legal wizard_outside) smith_uses" by (simp add: smith_uses_def wizard_outside_def ordinary_def)
  from wizard_as_rendered[OF l, of "\<lambda>k. k" "''d1''" None "''UTC''"] s show ?thesis by (auto simp: Let_def split: prod.splits)
qed

text \<open>
  The form cannot be submitted: with a name and an address typed in, no press and no Enter key does
  anything but hide it.
\<close>

lemma ical_form_dead:
  "if_show f \<Longrightarrow> fire (Press n) (ob_calendar t f) \<noteq> None \<Longrightarrow> fire (Press n) (ob_calendar t f) = Some HideIcal"
  by (auto simp: ob_calendar_def enter_submits_def fire_append split: if_splits)

text \<open>
  A member who is added while the family is being sent is shown in the roster and never sent: the
  wizard goes on with the list it had at the press.
\<close>

lemma member_added_meanwhile_is_lost:
  assumes "ob_pending s = Some (4, AwaitFamily h [])" and "ob_step s = 4" and "trim nm \<noteq> []" and "ob_draft s = blank_draft"
  shows "let s' = run ob_event_step [TypeName nm, AddDraft i, Answer (Inr j)] s in
    ob_step s' = 5 \<and> md_name (last (ob_members s')) = trim nm \<and> ob_sent s' = ob_sent s"
  using assms
  by (simp add: Let_def add_family_draft_def type_name_def blank_draft_def answer_def add_family_def move_on_def)
end
