(* ===== verification/CalendarScreens.thy ===== *)
theory CalendarScreens
  imports EventForm Boards Dashboards Markup
begin

text \<open>
  The calendar as it is rendered and used: the four views and the event form of
  \<^verbatim>\<open>web/src/components/screens/calendar.tsx\<close>, the event card and the member chips of
  \<^verbatim>\<open>components/calendar\<close>, the detail sheet, and the page \<^verbatim>\<open>app/calendar/page.tsx\<close> around them. What the
  views place where is in \<open>CalendarViews\<close>, what the form does in \<open>EventForm\<close>. Texts of the locale
  are functions: \<open>t\<close> for the catalogue, \<open>clock\<close> for times of day.
\<close>

section \<open>Loading\<close>

text \<open>What the two queries of a view have delivered.\<close>

record cal_data =
  cd_members_error :: "jsval option"
  cd_events_error :: "jsval option"
  cd_members_pending :: bool
  cd_events_pending :: bool
  cd_members :: "member list option"
  cd_events :: "tbd_event list option"

definition data_members :: "cal_data \<Rightarrow> member list" where
  "data_members d = (case cd_members d of None \<Rightarrow> [] | Some ms \<Rightarrow> ms)"

definition data_events :: "cal_data \<Rightarrow> tbd_event list" where
  "data_events d = (case cd_events d of None \<Rightarrow> [] | Some es \<Rightarrow> es)"

datatype view_event =
    ChangeView cal_view
  | ShiftBy int
  | OpenFrom tbd_event
  | SearchFor string
  | FilterBy "string option"
  | RetryLoad

text \<open>An error beats a pending query; both replace the whole view. The status panel of the server is left out.\<close>

definition error_state :: "string \<Rightarrow> jsval \<Rightarrow> 'e \<Rightarrow> 'e ui list" where
  "error_state title e retry = [Box ''alert'' [Txt title, Txt (error_message e), Btn ''Retry'' ''Retry'' True retry]]"

definition cal_guard :: "string \<Rightarrow> string \<Rightarrow> 'e \<Rightarrow> cal_data \<Rightarrow> 'e ui list \<Rightarrow> 'e ui list" where
  "cal_guard title label retry d body =
     (case (cd_members_error d, cd_events_error d) of
        (Some e, _) \<Rightarrow> error_state title e retry
      | (None, Some e) \<Rightarrow> error_state title e retry
      | (None, None) \<Rightarrow> if cd_members_pending d \<or> cd_events_pending d then [Txt label] else body)"

definition cal_screen :: "cal_data \<Rightarrow> view_event ui list \<Rightarrow> view_event ui list" where
  "cal_screen d body = cal_guard ''Unable to load calendar data'' ''Loading calendar...'' RetryLoad d body"

section \<open>Parts\<close>

fun view_name :: "cal_view \<Rightarrow> string" where
  "view_name DayView = ''Day''"
| "view_name WeekView = ''Week''"
| "view_name MonthView = ''Month''"
| "view_name AgendaView = ''Agenda''"

definition view_tabs :: "(string \<Rightarrow> string) \<Rightarrow> (cal_view \<Rightarrow> 'e) \<Rightarrow> 'e ui list" where
  "view_tabs t onChange =
     [Btn ''tab-Day'' (t ''views.day'') True (onChange DayView), Btn ''tab-Week'' (t ''views.week'') True (onChange WeekView),
      Btn ''tab-Month'' (t ''views.month'') True (onChange MonthView),
      Btn ''tab-Agenda'' (t ''views.agenda'') True (onChange AgendaView)]"

text \<open>The two arrows around the heading of a view.\<close>

definition heading_row :: "string \<Rightarrow> string \<Rightarrow> string list \<Rightarrow> (string \<Rightarrow> string) \<Rightarrow> view_event ui list" where
  "heading_row kind heading notes t =
     [Btn (''calendar-'' @ kind @ ''-prev'') [] True (ShiftBy (- 1)), Box (''calendar-'' @ kind @ ''-heading'') [Txt heading]] @
     map Txt notes @ [Btn (''calendar-'' @ kind @ ''-next'') [] True (ShiftBy 1)] @ view_tabs t ChangeView"

definition event_button :: "(tbd_event \<Rightarrow> 'e) \<Rightarrow> tbd_event \<Rightarrow> 'e ui" where
  "event_button onOpen e = Btn (''event-card-'' @ ev_id e) (ev_title e) True (onOpen e)"

text \<open>The card of the agenda; the times are read from the fields \<^verbatim>\<open>start\<close> and \<^verbatim>\<open>end\<close>.\<close>

definition event_card :: "(string \<Rightarrow> string) \<Rightarrow> (tbd_event \<Rightarrow> 'e) \<Rightarrow> member list \<Rightarrow> tbd_event \<Rightarrow> 'e ui list" where
  "event_card clock onOpen ms e =
     [Box ''avatars'' (map (\<lambda>m. Txt (mem_name m)) ms), event_button onOpen e,
      Txt (clock (or_blank (ev_start e)) @ '' '' @ [CHR 0xE2, CHR 0x80, CHR 0x93] @ '' '' @ clock (or_blank (ev_end e)) @
        (if truthy (ev_location e) then '' '' @ [CHR 0xC2, CHR 0xB7] @ '' '' @ the (ev_location e) else []))]"

definition event_card_compact :: "(string \<Rightarrow> string) \<Rightarrow> (tbd_event \<Rightarrow> 'e) \<Rightarrow> tbd_event \<Rightarrow> 'e ui list" where
  "event_card_compact clock onOpen e = [Txt (clock (or_blank (ev_start e))), event_button onOpen e]"

definition filter_chips :: "(string option \<Rightarrow> 'e) \<Rightarrow> member list \<Rightarrow> string option \<Rightarrow> 'e ui list" where
  "filter_chips onChange ms selected =
     [Box ''member-filter-chips''
        (Btn ''member-filter-all'' ''All'' True (onChange None) #
         map (\<lambda>m. Btn (''member-filter-'' @ mem_id m) (mem_name m) True (onChange (Some (mem_id m)))) ms)]"

definition chip_selected :: "string option \<Rightarrow> string option \<Rightarrow> bool" where
  "chip_selected selected chip \<longleftrightarrow> selected = chip"

section \<open>The four views\<close>

definition hour_text :: "nat \<Rightarrow> string" where
  "hour_text h = nat_str ((h + 11) mod 12 + 1) @ (if h < 12 then '' AM'' else '' PM'')"

text \<open>\<open>None\<close> is the TypeError of an event without start or end, which takes the whole view down.\<close>

definition day_column_view ::
  "(string \<Rightarrow> string) \<Rightarrow> member \<times> (tbd_event \<times> jnum \<times> jnum) list \<Rightarrow> view_event ui list" where
  "day_column_view clock c =
     Txt (mem_name (fst c)) #
     concat (map (\<lambda>(e, top, height). [event_button OpenFrom e, Txt (clock (or_blank (ev_start e)))]) (snd c))"

definition day_screen ::
  "(string \<Rightarrow> string) \<Rightarrow> (string \<Rightarrow> string) \<Rightarrow> string \<Rightarrow> string \<Rightarrow> (nat \<Rightarrow> string) \<Rightarrow> cal_data \<Rightarrow> view_event ui list option" where
  "day_screen t clock heading sub eventsCount d =
     (if cd_members_error d \<noteq> None \<or> cd_events_error d \<noteq> None \<or> cd_members_pending d \<or> cd_events_pending d
      then Some (cal_screen d [])
      else map_option (\<lambda>columns.
        heading_row ''day'' heading [sub @ '' '' @ [CHR 0xC2, CHR 0xB7] @ '' '' @ eventsCount (length (data_events d))] t @
        map (\<lambda>h. Txt (hour_text h)) [7 ..< 21] @
        concat (map (day_column_view clock) columns))
        (draw_day (data_members d) (data_events d)))"

definition dow_keys :: "string list" where
  "dow_keys = [''sun'', ''mon'', ''tue'', ''wed'', ''thu'', ''fri'', ''sat'']"

definition week_heading :: "zone \<Rightarrow> (int \<Rightarrow> string) \<Rightarrow> int \<Rightarrow> int \<Rightarrow> string" where
  "week_heading z monthDay weekStart weekEnd =
     (let c = local_date z weekEnd; year = '', '' @ int_str (cv_year c); dash = '' '' @ [CHR 0xE2, CHR 0x80, CHR 0x93] @ '' ''
      in if cv_month (local_date z weekStart) = cv_month c
         then monthDay weekStart @ dash @ int_str (cv_day c) @ year
         else monthDay weekStart @ dash @ monthDay weekEnd @ year)"

definition week_column_view :: "zone \<Rightarrow> (string \<Rightarrow> string) \<Rightarrow> string \<Rightarrow> week_column \<Rightarrow> view_event ui list" where
  "week_column_view z t key c =
     [Txt (t (''weekDays.'' @ key)),
      Txt (case wk_date c of None \<Rightarrow> ''NaN'' | Some d \<Rightarrow> int_str (cv_day (local_date z d)))] @
     concat (map (\<lambda>e. [Txt (week_label (fractional_hours z (any_start e))), event_button OpenFrom e]) (wk_events c))"

definition week_screen :: "zone \<Rightarrow> (string \<Rightarrow> string) \<Rightarrow> string \<Rightarrow> int \<Rightarrow> int \<Rightarrow> cal_data \<Rightarrow> view_event ui list" where
  "week_screen z t heading today weekStart d =
     cal_screen d
       (heading_row ''week'' heading [] t @
        concat (map2 (week_column_view z t) dow_keys (week_columns z today weekStart (data_events d))))"

definition month_cell_view :: "month_cell \<Rightarrow> view_event ui list" where
  "month_cell_view c =
     Txt (case mc_shown c of None \<Rightarrow> ''NaN'' | Some n \<Rightarrow> int_str n) # map (event_button OpenFrom) (cell_buttons c)"

definition month_screen :: "zone \<Rightarrow> (string \<Rightarrow> string) \<Rightarrow> string \<Rightarrow> int \<Rightarrow> int \<Rightarrow> cal_data \<Rightarrow> view_event ui list" where
  "month_screen z t heading today anchor d =
     cal_screen d
       (heading_row ''month'' heading [] t @ map (\<lambda>k. Txt (t (''weekDays.'' @ k))) dow_keys @
        concat (map month_cell_view (month_cells z today anchor (data_events d))))"

text \<open>The agenda; \<open>groups\<close> is what \<open>agenda_groups\<close> makes of the filtered events.\<close>

definition agenda_screen ::
  "(string \<Rightarrow> string) \<Rightarrow> (string \<Rightarrow> string) \<Rightarrow> string \<Rightarrow> string option \<Rightarrow>
   (tbd_event list \<Rightarrow> (string \<times> tbd_event list) list) \<Rightarrow> cal_data \<Rightarrow> view_event ui list" where
  "agenda_screen t clock query memberFilter groupsOf d =
     (let groups = agenda_search query (groupsOf (filter_events_by_member (data_events d) memberFilter))
      in cal_screen d
        ([Txt (t ''agenda'')] @ view_tabs t ChangeView @ [Field ''search'' query SearchFor] @
         shown_if (data_members d \<noteq> []) (filter_chips FilterBy (data_members d) memberFilter) @
         shown_if (groups = []) [Txt (t ''noEventsYet'')] @
         concat (map (\<lambda>(label, items).
           [Txt label] @ shown_if (items = []) [Txt (t ''noEventsYet'')] @
           concat (map (\<lambda>e. event_card clock OpenFrom
             (resolve_members (assignees e) (member_lookup (data_members d))) e) items)) groups)))"

section \<open>The event form\<close>

datatype form_event =
    SetTitle string
  | SetStart string
  | SetEnd string
  | SetRecurrence string
  | SetLocation string
  | SetDescription string
  | ToggleMember string
  | SaveForm
  | DeleteForm
  | CloseForm
  | RetryForm
  | FormAnswered "api_failure option"

text \<open>The form of one opening: \<open>mo_busy\<close> is a pending mutation, \<open>mo_raised\<close> a RangeError of the save handler.\<close>

record modal =
  mo_form :: event_form
  mo_busy :: bool
  mo_closed :: bool
  mo_raised :: bool
  mo_sent :: "mutation list"

definition open_modal :: "zone \<Rightarrow> int \<Rightarrow> form_data \<Rightarrow> modal" where
  "open_modal z now ev = \<lparr>mo_form = open_form z now ev, mo_busy = False, mo_closed = False, mo_raised = False, mo_sent = []\<rparr>"

fun modal_step :: "zone \<Rightarrow> string \<Rightarrow> form_data \<Rightarrow> form_event \<Rightarrow> modal \<Rightarrow> modal" where
  "modal_step z required ev (SetTitle v) s = s\<lparr>mo_form := (mo_form s)\<lparr>ef_title := v\<rparr>\<rparr>"
| "modal_step z required ev (SetStart v) s = s\<lparr>mo_form := (mo_form s)\<lparr>ef_start := v\<rparr>\<rparr>"
| "modal_step z required ev (SetEnd v) s = s\<lparr>mo_form := (mo_form s)\<lparr>ef_end := v\<rparr>\<rparr>"
| "modal_step z required ev (SetRecurrence v) s = s\<lparr>mo_form := (mo_form s)\<lparr>ef_recurrence := v\<rparr>\<rparr>"
| "modal_step z required ev (SetLocation v) s = s\<lparr>mo_form := (mo_form s)\<lparr>ef_location := v\<rparr>\<rparr>"
| "modal_step z required ev (SetDescription v) s = s\<lparr>mo_form := (mo_form s)\<lparr>ef_description := v\<rparr>\<rparr>"
| "modal_step z required ev (ToggleMember i) s = s\<lparr>mo_form := toggle_assignee i (mo_form s)\<rparr>"
| "modal_step z required ev SaveForm s =
     (case handle_save z required ev (mo_form s) of
        (f, Complain) \<Rightarrow> s\<lparr>mo_form := f\<rparr>
      | (f, SaveRaises) \<Rightarrow> s\<lparr>mo_form := f, mo_raised := True\<rparr>
      | (f, Send m) \<Rightarrow> s\<lparr>mo_form := f, mo_busy := True, mo_sent := mo_sent s @ [m]\<rparr>)"
| "modal_step z required ev DeleteForm s =
     (case handle_delete ev (mo_form s) of
        (f, None) \<Rightarrow> s\<lparr>mo_form := f\<rparr>
      | (f, Some m) \<Rightarrow> s\<lparr>mo_form := f, mo_busy := True, mo_sent := mo_sent s @ [m]\<rparr>)"
| "modal_step z required ev CloseForm s = s\<lparr>mo_closed := True\<rparr>"
| "modal_step z required ev RetryForm s = s"
| "modal_step z required ev (FormAnswered failure) s =
     (case failure of
        None \<Rightarrow> s\<lparr>mo_busy := False, mo_closed := True\<rparr>
      | Some e \<Rightarrow> s\<lparr>mo_busy := False, mo_form := (mo_form s)\<lparr>ef_mutation_error := Some e\<rparr>\<rparr>)"

definition recurrence_options :: "string list" where
  "recurrence_options = [[], ''FREQ=DAILY'', ''FREQ=WEEKLY'', ''FREQ=MONTHLY'', ''FREQ=YEARLY'']"

definition conflict_warning :: "tbd_event list \<Rightarrow> 'e ui list" where
  "conflict_warning cs =
     shown_if (cs \<noteq> []) [Box ''event-conflict-warning''
       [Txt (if length cs = 1 then ''Conflicts with '' @ [CHR 0x22] @ ev_title (hd cs) @ [CHR 0x22]
             else ''Conflicts with '' @ nat_str (length cs) @ '' other events''),
        Txt (join ('' '' @ [CHR 0xC2, CHR 0xB7] @ '' '') (map ev_title cs))]]"

definition member_chips :: "(string \<Rightarrow> string) \<Rightarrow> member list \<Rightarrow> event_form \<Rightarrow> form_event ui list" where
  "member_chips t ms f =
     shown_if (ms \<noteq> [])
       [Txt (t ''assignedTo''), Box ''event-member-chips'' (concat (map (\<lambda>m.
          [Check (''event-member-'' @ mem_id m) (mem_id m \<in> set (ef_assigned f)) (ToggleMember (mem_id m)), Txt (mem_name m)]) ms))]"

definition modal_fields :: "(string \<Rightarrow> string) \<Rightarrow> event_form \<Rightarrow> form_event ui list" where
  "modal_fields t f =
     [Field ''Event title'' (ef_title f) SetTitle] @ shown_if (ef_error f \<noteq> []) [Txt (ef_error f)] @
     [Txt (t ''start''), Field ''start'' (ef_start f) SetStart, Txt (t ''end''), Field ''end'' (ef_end f) SetEnd,
      Txt (t ''repeat''), Pick ''event-recurrence'' (ef_recurrence f) recurrence_options SetRecurrence,
      Txt (t ''location''), Field ''Add location'' (ef_location f) SetLocation]"

definition modal_notes :: "(string \<Rightarrow> string) \<Rightarrow> event_form \<Rightarrow> form_event ui list" where
  "modal_notes t f = [Txt (t ''notes''), Field (''Add notes'' @ dots) (ef_description f) SetDescription]"

definition modal_footer :: "(string \<Rightarrow> string) \<Rightarrow> form_data \<Rightarrow> bool \<Rightarrow> form_event ui list" where
  "modal_footer tCommon ev busy =
     shown_if (truthy (fd_id ev)) [Btn ''delete'' (tCommon ''delete'') (\<not> busy) DeleteForm] @
     [Btn ''cancel'' (tCommon ''cancel'') (\<not> busy) CloseForm,
      Btn ''save'' (if busy then dots else tCommon ''save'') (\<not> busy) SaveForm]"

definition modal_view ::
  "zone \<Rightarrow> (string \<Rightarrow> string) \<Rightarrow> (string \<Rightarrow> string) \<Rightarrow> form_data \<Rightarrow> cal_data \<Rightarrow> modal \<Rightarrow> form_event ui list" where
  "modal_view z t tCommon ev d s =
     (let f = mo_form s
      in cal_guard ''Unable to load event data'' ''Loading event data...'' RetryForm d
        (shown_if (ef_mutation_error f \<noteq> None) [Box ''error-alert'' []] @
         conflict_warning (conflicts z ev (cd_events d) f) @ modal_fields t f @ member_chips t (data_members d) f @
         modal_notes t f @ modal_footer tCommon ev (mo_busy s)))"

lemmas modal_parts = modal_view_def modal_fields_def modal_notes_def modal_footer_def Let_def

section \<open>The detail sheet\<close>

datatype sheet_event = CloseSheet | EditEvent tbd_event | DeleteEvent string

definition sheet_head :: "detail_sheet \<Rightarrow> sheet_event ui list" where
  "sheet_head s =
     [Txt (ds_title s)] @ shown_if (ds_date s \<noteq> []) [Txt (ds_date s)] @
     [Box ''event-detail-time'' [Txt (ds_time s)]] @
     [Box ''event-detail-recurrence'' (shown_some (ds_recurrence s)), Box ''event-detail-location'' (shown_some (ds_location s))]"

definition sheet_people :: "detail_sheet \<Rightarrow> sheet_event ui list" where
  "sheet_people s =
     shown_if (ds_assignees s \<noteq> []) [Txt ''Who'', Box ''event-detail-members'' (map (\<lambda>m. Txt (mem_name m)) (ds_assignees s))] @
     shown_if (ds_notes s \<noteq> None) [Txt ''Notes'', Box ''event-detail-notes'' (shown_some (ds_notes s))]"

definition sheet_footer :: "tbd_event \<Rightarrow> detail_sheet \<Rightarrow> sheet_event ui list" where
  "sheet_footer e s =
     shown_if (ds_delete s) [Btn ''event-detail-delete'' ''Delete'' True (DeleteEvent (ev_id e))] @
     [Btn ''event-detail-close'' ''Close'' True CloseSheet] @
     shown_if (ds_edit s) [Btn ''event-detail-edit'' ''Edit'' True (EditEvent e)]"

definition sheet_view :: "tbd_event \<Rightarrow> detail_sheet \<Rightarrow> sheet_event ui list" where
  "sheet_view e s = sheet_head s @ sheet_people s @ sheet_footer e s"

section \<open>The page\<close>

text \<open>
  The element around the form closes it when it is hit itself; the form covers it completely, so no
  click reaches it and it offers nothing.
\<close>

datatype calendar_event = Page page_event | Inner view_event | Form form_event

text \<open>An event of the calendar as the form takes it.\<close>

definition event_data :: "tbd_event \<Rightarrow> form_data" where
  "event_data e =
     \<lparr>fd_id = Some (ev_id e), fd_title = Some (ev_title e), fd_start = ev_start e, fd_end = ev_end e,
      fd_start_time = ev_start_time e, fd_end_time = ev_end_time e, fd_location = ev_location e,
      fd_description = ev_description e, fd_members = ev_members e, fd_assigned_members = ev_assigned_members e,
      fd_recurrence_rule = ev_recurrence_rule e\<rparr>"

fun inner_event :: "view_event \<Rightarrow> calendar_event" where
  "inner_event (ChangeView v) = Page (SelectView v)"
| "inner_event (OpenFrom e) = Page (OpenEvent (event_data e))"
| "inner_event e = Inner e"

definition calendar_page_view ::
  "(string \<Rightarrow> string) \<Rightarrow> (string \<Rightarrow> string) \<Rightarrow> (cal_view \<Rightarrow> view_event ui list) \<Rightarrow> (form_data \<Rightarrow> form_event ui list) \<Rightarrow>
   calendar_page \<Rightarrow> calendar_event ui list" where
  "calendar_page_view t tCommon view_of modal_of s =
     [Link (tCommon ''home'') ''/''] @
     [Btn ''page-Day'' (t ''views.day'') True (Page (SelectView DayView)),
      Btn ''page-Week'' (t ''views.week'') True (Page (SelectView WeekView)),
      Btn ''page-Month'' (t ''views.month'') True (Page (SelectView MonthView)),
      Btn ''page-Agenda'' (t ''views.agenda'') True (Page (SelectView AgendaView)),
      Btn ''page-new'' (tCommon ''event'') True (Page PressNew)] @
     map (map_ui inner_event) (view_of (cp_view s)) @
     (case cp_modal s of
        None \<Rightarrow> []
      | Some ev \<Rightarrow> map (map_ui (\<lambda>e. if e = CloseForm then Page CloseModal else Form e)) (modal_of ev))"

section \<open>Lemmas\<close>

definition cal_loaded :: "cal_data \<Rightarrow> bool" where
  "cal_loaded d \<longleftrightarrow> cd_members_error d = None \<and> cd_events_error d = None \<and> \<not> cd_members_pending d \<and> \<not> cd_events_pending d"

lemma cal_guard_loaded [simp]: "cal_loaded d \<Longrightarrow> cal_guard title label retry d body = body"
  by (simp add: cal_loaded_def cal_guard_def)

lemma cal_guard_not_loaded:
  "\<not> cal_loaded d \<Longrightarrow> fire a (cal_guard title label retry d body) = Some e \<Longrightarrow> e = retry"
  by (auto simp: cal_loaded_def cal_guard_def error_state_def split: option.splits if_splits)

lemma heading_offers:
  "fire a (heading_row kind heading notes t) = Some e \<Longrightarrow> (\<exists>n. e = ShiftBy n) \<or> (\<exists>v. e = ChangeView v)"
  by (auto simp: heading_row_def view_tabs_def fire_append split: if_splits option.splits)

lemma heading_not_event:
  "k \<in> {''day'', ''week'', ''month''} \<Longrightarrow> fire (Press (''event-card-'' @ i)) (heading_row k heading notes t) = None"
  by (auto simp: heading_row_def view_tabs_def fire_append)

lemma fire_event_button:
  "fire a [event_button h e] = (if a = Press (''event-card-'' @ ev_id e) then Some (h e) else None)"
  "fire a (event_button h e # us) = (if a = Press (''event-card-'' @ ev_id e) then Some (h e) else fire a us)"
  by (simp_all add: event_button_def)

lemma fire_buttons:
  "fire a (map (event_button h) es) = Some x \<Longrightarrow> \<exists>e \<in> set es. x = h e \<and> a = Press (''event-card-'' @ ev_id e)"
  by (induction es) (auto simp: fire_event_button split: if_splits)

lemma week_events_subset: "c \<in> set (week_columns z today w es) \<Longrightarrow> set (wk_events c) \<subseteq> set es"
  by (auto simp: week_columns_def week_column_of_def Let_def)

lemma month_events_subset: "c \<in> set (month_cells z today a es) \<Longrightarrow> set (cell_buttons c) \<subseteq> set es"
  by (auto simp: month_cells_def month_cell_of_def cell_buttons_def events_for_day_def Let_def
      split: option.splits dest!: in_set_takeD)

lemma week_column_offers:
  "fire a (week_column_view z t k c) = Some x \<Longrightarrow>
   \<exists>e \<in> set (wk_events c). x = OpenFrom e \<and> a = Press (''event-card-'' @ ev_id e)"
  by (auto simp: week_column_view_def fire_append fire_event_button split: if_splits dest!: fire_items)

lemma month_cell_offers:
  "fire a (month_cell_view c) = Some x \<Longrightarrow>
   \<exists>e \<in> set (cell_buttons c). x = OpenFrom e \<and> a = Press (''event-card-'' @ ev_id e)"
  by (auto simp: month_cell_view_def dest!: fire_buttons)

lemma event_card_offers:
  "fire a (event_card clock h ms e) = (if a = Press (''event-card-'' @ ev_id e) then Some (h e) else None)"
  by (simp add: event_card_def fire_event_button)

text \<open>Distinct ids make an event the only one that its control opens.\<close>

lemma same_event: "inj_on ev_id A \<Longrightarrow> e \<in> A \<Longrightarrow> e' \<in> A \<Longrightarrow> ev_id e = ev_id e' \<Longrightarrow> e' = e"
  by (metis inj_onD)

lemma week_screen_opens:
  assumes "cal_loaded d" and inj: "inj_on ev_id (set (data_events d))"
    and c: "c \<in> set (week_columns z today w (data_events d))" and e: "e \<in> set (wk_events c)"
  shows "fire (Press (''event-card-'' @ ev_id e)) (week_screen z t heading today w d) = Some (OpenFrom e)"
proof -
  let ?es = "data_events d" and ?a = "Press (''event-card-'' @ ev_id e)"
  let ?cols = "week_columns z today w ?es"
  have len: "length dow_keys = length ?cols" by (simp add: dow_keys_def week_columns_def)
  have E: "e \<in> set ?es" using week_events_subset[OF c] e by auto
  from c len obtain k where kc: "(k, c) \<in> set (zip dow_keys ?cols)" by (metis in_set_impl_in_set_zip2)
  have only: "fire ?a (week_column_view z t k' c') = None \<or> fire ?a (week_column_view z t k' c') = Some (OpenFrom e)"
    if "(k', c') \<in> set (zip dow_keys ?cols)" for k' c'
  proof (cases "fire ?a (week_column_view z t k' c')")
    case (Some x)
    then obtain e' where e': "e' \<in> set (wk_events c')" "x = OpenFrom e'" "ev_id e = ev_id e'"
      using week_column_offers by fastforce
    have "c' \<in> set ?cols" using that by (rule set_zip_rightD)
    then have "e' \<in> set ?es" using week_events_subset e'(1) by blast
    with same_event[OF inj E _ e'(3)] Some e'(2) show ?thesis by simp
  qed simp
  have "fire ?a [Txt x, event_button OpenFrom e] = Some (OpenFrom e)" for x by (simp add: fire_event_button)
  then have "fire ?a (week_column_view z t k c) \<noteq> None"
    using e
    by (auto simp: week_column_view_def fire_event_button in_set_conv_decomp fire_append split: option.splits)
  then have hit: "fire ?a (week_column_view z t k c) = Some (OpenFrom e)" using only[OF kc] by auto
  have "fire ?a (concat (map2 (week_column_view z t) dow_keys ?cols)) = Some (OpenFrom e)"
    by (rule fire_concat_only[where us = "week_column_view z t k c"]) (use only hit kc in \<open>auto intro: rev_image_eqI\<close>)
  with assms(1) heading_not_event show ?thesis by (simp add: week_screen_def cal_screen_def fire_append)
qed

lemma month_screen_opens:
  assumes "cal_loaded d" and inj: "inj_on ev_id (set (data_events d))"
    and c: "c \<in> set (month_cells z today anchor (data_events d))" and e: "e \<in> set (cell_buttons c)"
  shows "fire (Press (''event-card-'' @ ev_id e)) (month_screen z t heading today anchor d) = Some (OpenFrom e)"
proof -
  let ?es = "data_events d" and ?a = "Press (''event-card-'' @ ev_id e)"
  let ?cells = "month_cells z today anchor ?es"
  have E: "e \<in> set ?es" using month_events_subset[OF c] e by auto
  have only: "fire ?a (month_cell_view c') = None \<or> fire ?a (month_cell_view c') = Some (OpenFrom e)"
    if "c' \<in> set ?cells" for c'
  proof (cases "fire ?a (month_cell_view c')")
    case (Some x)
    then obtain e' where e': "e' \<in> set (cell_buttons c')" "x = OpenFrom e'" "ev_id e = ev_id e'"
      using month_cell_offers by fastforce
    then have "e' \<in> set ?es" using month_events_subset[OF that] by blast
    with same_event[OF inj E _ e'(3)] Some e'(2) show ?thesis by simp
  qed simp
  have "fire ?a (map (event_button OpenFrom) es) \<noteq> None" if "e \<in> set es" for es
    using that by (induction es) (auto simp: fire_event_button)
  then have "fire ?a (month_cell_view c) \<noteq> None" using e by (simp add: month_cell_view_def)
  then have hit: "fire ?a (month_cell_view c) = Some (OpenFrom e)" using only[OF c] by auto
  have "fire ?a (concat (map month_cell_view ?cells)) = Some (OpenFrom e)"
    by (rule fire_items_only[where x = c]) (use only hit c in auto)
  with assms(1) heading_not_event show ?thesis by (simp add: month_screen_def cal_screen_def fire_append)
qed

lemma screens_open_only_data:
  "fire a (week_screen z t heading today w d) = Some (OpenFrom e) \<Longrightarrow> e \<in> set (data_events d)"
  "fire a (month_screen z t heading today anchor d) = Some (OpenFrom e) \<Longrightarrow> e \<in> set (data_events d)"
proof -
  assume f: "fire a (week_screen z t heading today w d) = Some (OpenFrom e)"
  show "e \<in> set (data_events d)"
  proof (cases "cal_loaded d")
    case False
    then show ?thesis using cal_guard_not_loaded f by (fastforce simp: week_screen_def cal_screen_def)
  next
    case True
    then obtain k c where "c \<in> set (week_columns z today w (data_events d))"
      and "fire a (week_column_view z t k c) = Some (OpenFrom e)"
      using f by (auto simp: week_screen_def cal_screen_def fire_append split: option.splits
          dest: heading_offers dest!: fire_concat set_zip_rightD)
    then show ?thesis using week_column_offers week_events_subset by (metis subsetD view_event.inject(3))
  qed
next
  assume f: "fire a (month_screen z t heading today anchor d) = Some (OpenFrom e)"
  show "e \<in> set (data_events d)"
  proof (cases "cal_loaded d")
    case False
    then show ?thesis using cal_guard_not_loaded f by (fastforce simp: month_screen_def cal_screen_def)
  next
    case True
    then obtain c where "c \<in> set (month_cells z today anchor (data_events d))"
      and "fire a (month_cell_view c) = Some (OpenFrom e)"
      using f by (auto simp: month_screen_def cal_screen_def fire_append split: option.splits
          dest: heading_offers dest!: fire_items)
    then show ?thesis using month_cell_offers month_events_subset by (metis subsetD view_event.inject(3))
  qed
qed

text \<open>What the form may send: a checked save of the open event, or its removal.\<close>

definition form_request_ok :: "zone \<Rightarrow> form_data \<Rightarrow> mutation \<Rightarrow> bool" where
  "form_request_ok z ev m \<longleftrightarrow>
     (\<exists>f. trim (ef_title f) \<noteq> [] \<and> save_request z ev f = Some m) \<or>
     (truthy (fd_id ev) \<and> m = use_delete_event (the (fd_id ev)))"

definition modal_ok :: "zone \<Rightarrow> form_data \<Rightarrow> modal \<Rightarrow> bool" where
  "modal_ok z ev s \<longleftrightarrow> (\<forall>m \<in> set (mo_sent s). form_request_ok z ev m)"

lemma handle_save_cases:
  "(\<exists>f'. handle_save z required ev f = (f', Complain)) \<or> (\<exists>f'. handle_save z required ev f = (f', SaveRaises)) \<or>
   (\<exists>f' m. handle_save z required ev f = (f', Send m) \<and> trim (ef_title f) \<noteq> [] \<and> save_request z ev f = Some m)"
  by (auto simp: handle_save_def split: option.splits)

lemma form_requests:
  "trim (ef_title f) \<noteq> [] \<Longrightarrow> save_request z ev f = Some m \<Longrightarrow> form_request_ok z ev m"
  "truthy (fd_id ev) \<Longrightarrow> form_request_ok z ev (use_delete_event (the (fd_id ev)))"
  by (auto simp: form_request_ok_def)

lemma modal_step_ok: "modal_ok z ev s \<Longrightarrow> modal_ok z ev (modal_step z required ev e s)"
proof (cases e)
  case SaveForm
  assume "modal_ok z ev s"
  with SaveForm handle_save_cases[of z required ev "mo_form s"] show ?thesis
    by (auto simp: modal_ok_def form_requests)
next
  case DeleteForm
  assume "modal_ok z ev s"
  with DeleteForm show ?thesis by (simp add: modal_ok_def form_requests handle_delete_def)
qed (auto simp: modal_ok_def split: option.splits)

lemma member_chip_offers: "fire a (member_chips t ms f) = Some e \<Longrightarrow> \<exists>i. e = ToggleMember i"
  by (auto simp: member_chips_def split: if_splits option.splits dest!: fire_items)

lemma conflict_warning_offers [simp]: "fire a (conflict_warning cs) = None"
  by (simp add: conflict_warning_def)

lemma modal_offers:
  assumes "fire a (modal_view z t tCommon ev d s) = Some e"
  shows "(\<forall>r. e \<noteq> FormAnswered r) \<and> (e \<in> {SaveForm, DeleteForm, CloseForm} \<longrightarrow> \<not> mo_busy s) \<and>
    (e = DeleteForm \<longrightarrow> truthy (fd_id ev))"
proof (cases "cal_loaded d")
  case False
  then show ?thesis using cal_guard_not_loaded assms by (fastforce simp: modal_view_def Let_def)
next
  case True
  then show ?thesis
    using assms
    by (auto simp: modal_parts fire_append split: if_splits act.splits option.splits dest!: member_chip_offers)
qed

interpretation event_modal: screen "modal_view z t tCommon ev d" "modal_step z required ev" "\<lambda>_. True" "modal_ok z ev"
  for z t tCommon ev d required
  by unfold_locales (simp_all add: modal_step_ok)

section \<open>Properties\<close>

text \<open>
  In the week and in the month every event that the view places can be opened by its control, and
  nothing but an event of the loaded data can be opened; while a query fails or is pending, no event
  can be opened at all.
\<close>

theorem views_open_their_events:
  assumes "inj_on ev_id (set (data_events d))"
  shows "(cal_loaded d \<longrightarrow>
      (\<forall>c \<in> set (week_columns z today w (data_events d)). \<forall>e \<in> set (wk_events c).
         fire (Press (''event-card-'' @ ev_id e)) (week_screen z t heading today w d) = Some (OpenFrom e)) \<and>
      (\<forall>c \<in> set (month_cells z today anchor (data_events d)). \<forall>e \<in> set (cell_buttons c).
         fire (Press (''event-card-'' @ ev_id e)) (month_screen z t heading today anchor d) = Some (OpenFrom e))) \<and>
    (\<forall>a e. fire a (week_screen z t heading today w d) = Some (OpenFrom e) \<or>
           fire a (month_screen z t heading today anchor d) = Some (OpenFrom e) \<longrightarrow>
       cal_loaded d \<and> e \<in> set (data_events d))"
proof -
  have l: "fire a (week_screen z t heading today w d) = Some (OpenFrom e) \<Longrightarrow> cal_loaded d"
    "fire a (month_screen z t heading today anchor d) = Some (OpenFrom e) \<Longrightarrow> cal_loaded d" for a e
    using cal_guard_not_loaded by (fastforce simp: week_screen_def month_screen_def cal_screen_def)+
  show ?thesis
    by (auto intro: week_screen_opens[OF _ assms, simplified] month_screen_opens[OF _ assms, simplified] dest: l screens_open_only_data)
qed

definition one_event :: cal_data where
  "one_event = \<lparr>cd_members_error = None, cd_events_error = None, cd_members_pending = False, cd_events_pending = False,
     cd_members = Some [], cd_events = Some [demo_event ''2026-04-22T10:00:00Z'']\<rparr>"

theorem views_open_their_events_witness:
  "inj_on ev_id (set (data_events one_event)) \<and>
   (fire (Press ''event-card-e9'') (week_screen z t heading today w one_event) = Some (OpenFrom e) \<longrightarrow>
      e = demo_event ''2026-04-22T10:00:00Z'')"
proof -
  have i: "inj_on ev_id (set (data_events one_event))" by (simp add: one_event_def data_events_def)
  from views_open_their_events[OF i] have "fire (Press ''event-card-e9'') (week_screen z t heading today w one_event) = Some (OpenFrom e)
      \<longrightarrow> e \<in> set (data_events one_event)" by blast
  with i show ?thesis by (simp add: one_event_def data_events_def)
qed

text \<open>The detail sheet offers changes only to those who may make them, and always a way out.\<close>

theorem sheet_offers_what_is_allowed:
  assumes "event_detail z timeText dateText (Some e) members canEdit hasEdit hasDelete = Some s"
  shows "fire (Press ''event-detail-edit'') (sheet_view e s) = (if canEdit \<and> hasEdit then Some (EditEvent e) else None) \<and>
    fire (Press ''event-detail-delete'') (sheet_view e s) =
      (if canEdit \<and> hasDelete then Some (DeleteEvent (ev_id e)) else None) \<and>
    fire (Press ''event-detail-close'') (sheet_view e s) = Some CloseSheet"
  using assms
  by (auto simp: event_detail_def Let_def sheet_view_def sheet_head_def sheet_people_def sheet_footer_def fire_append)

theorem sheet_offers_what_is_allowed_witness:
  "\<exists>s. event_detail z (\<lambda>_. []) (\<lambda>_. []) (Some (demo_event [])) [] False True True = Some s \<and>
     fire (Press ''event-detail-delete'') (sheet_view (demo_event []) s) = None"
proof -
  obtain s where s: "event_detail z (\<lambda>_. []) (\<lambda>_. []) (Some (demo_event [])) [] False True True = Some s"
    by (simp add: event_detail_def)
  from sheet_offers_what_is_allowed[OF s] s show ?thesis by auto
qed

text \<open>
  Opening an event on the page, from whichever view shows it: the form opens on that event with its
  own title and the assignees the calendar draws it for, and the address names the event.
\<close>

theorem opening_an_event:
  assumes "fire a (view_of (cp_view s)) = Some (OpenFrom e)"
    and "a \<notin> {Press ''page-Day'', Press ''page-Week'', Press ''page-Month'', Press ''page-Agenda'', Press ''page-new''}"
    and "ev_id e \<noteq> []"
  shows "fire a (calendar_page_view t tCommon view_of modal_of s) = Some (Page (OpenEvent (event_data e))) \<and>
    cp_modal (page_step (OpenEvent (event_data e)) s) = Some (event_data e) \<and>
    event_address (event_data e) = Some (''/calendar?event='' @ encode_uri_component (ev_id e)) \<and>
    ef_title (mo_form (open_modal z now (event_data e))) = ev_title e \<and>
    ef_assigned (mo_form (open_modal z now (event_data e))) = assignees e"
  using assms
  by (auto simp: calendar_page_view_def fire_append fire_map event_data_def event_address_def open_modal_def open_form_def
      or_blank_def initial_assignees_def assignees_def Let_def split: option.splits)

theorem opening_an_event_witness:
  "fire (Press ''event-card-e1'') (calendar_page_view (\<lambda>k. k) (\<lambda>k. k) (\<lambda>_. [event_button OpenFrom (demo_event ''2026-04-22T10:00:00Z'')])
     (\<lambda>_. []) (open_page None None None)) = Some (Page (OpenEvent (event_data (demo_event ''2026-04-22T10:00:00Z''))))"
proof -
  let ?e = "demo_event ''2026-04-22T10:00:00Z''"
  have "fire (Press ''event-card-e1'') ((\<lambda>_. [event_button OpenFrom ?e]) (cp_view (open_page None None None))) = Some (OpenFrom ?e)"
    by (simp add: event_button_def demo_event_def)
  from opening_an_event[OF this] show ?thesis by (simp add: demo_event_def)
qed

text \<open>
  However the form is used: what it sends is a save of the open event with a title that is not blank and
  two readable times, or the removal of an event that exists; while a request is under way neither
  saving, deleting nor closing can be pressed.
\<close>

theorem event_form_requests:
  "(\<forall>m \<in> set (mo_sent (run (use_step (modal_view z t tCommon ev d) (modal_step z required ev)) us (open_modal z now ev))).
      (\<exists>f. trim (ef_title f) \<noteq> [] \<and> save_request z ev f = Some m) \<or>
      (truthy (fd_id ev) \<and> m = use_delete_event (the (fd_id ev)))) \<and>
   (mo_busy s \<longrightarrow> fire a (modal_view z t tCommon ev d s) \<notin> Some ` {SaveForm, DeleteForm, CloseForm})"
proof -
  have "modal_ok z ev (open_modal z now ev)" by (simp add: modal_ok_def open_modal_def)
  moreover have "list_all (use_legal (\<lambda>_. True)) us"
    by (rule list_all_iff[THEN iffD2]) (metis use_legal.elims(3))
  ultimately have "modal_ok z ev (run (use_step (modal_view z t tCommon ev d) (modal_step z required ev)) us (open_modal z now ev))"
    by (rule event_modal.always)
  then show ?thesis using modal_offers by (fastforce simp: modal_ok_def form_request_ok_def)
qed

definition deleting :: "form_event use list" where
  "deleting = [User (Press ''delete''), User (Press ''delete''), User (Press ''save'')]"

theorem event_form_requests_witness:
  "mo_sent (run (use_step (modal_view berlin (\<lambda>k. k) (\<lambda>k. k) (blank_data\<lparr>fd_id := Some ''e1''\<rparr>) one_event)
      (modal_step berlin [] (blank_data\<lparr>fd_id := Some ''e1''\<rparr>))) deleting (open_modal berlin 0 (blank_data\<lparr>fd_id := Some ''e1''\<rparr>))) =
     [use_delete_event ''e1''] \<and>
   ((\<exists>f. trim (ef_title f) \<noteq> [] \<and> save_request berlin (blank_data\<lparr>fd_id := Some ''e1''\<rparr>) f = Some (use_delete_event ''e1'')) \<or>
    use_delete_event ''e1'' = use_delete_event ''e1'')"
proof -
  let ?ev = "blank_data\<lparr>fd_id := Some ''e1''\<rparr>"
  let ?s = "open_modal berlin 0 ?ev"
  let ?view = "modal_view berlin (\<lambda>k. k) (\<lambda>k. k) ?ev one_event"
  have l: "cal_loaded one_event" by (simp add: cal_loaded_def one_event_def)
  have del: "fire (Press ''delete'') (?view s) = (if mo_busy s then None else Some DeleteForm)"
    and sav: "fire (Press ''save'') (?view s) = (if mo_busy s then None else Some SaveForm)" for s
    using l by (simp_all add: modal_parts fire_append conflict_warning_def member_chips_def one_event_def
        data_members_def blank_data_def)
  have r: "mo_sent (run (use_step ?view (modal_step berlin [] ?ev)) deleting ?s) = [use_delete_event ''e1'']"
    by (simp add: deleting_def del sav handle_delete_def) (simp add: open_modal_def blank_data_def)
  from event_form_requests[of berlin "\<lambda>k. k" "\<lambda>k. k" ?ev one_event "[]" deleting 0] r
  show ?thesis by (simp add: blank_data_def)
qed

end
