(* ===== verification/RecipeScreens.thy ===== *)
theory RecipeScreens
  imports MealActions RecipeForms Cooking Shopping PantryCues CalendarScreens
begin

text \<open>
  The screens of \<^verbatim>\<open>web/src/components/screens/recipes.tsx\<close> and \<^verbatim>\<open>cooking-mode.tsx\<close> as they are rendered
  and used: the import by address with its status panel, a recipe with its serving scaler, the preview,
  cooking mode, and the shopping list. What they compute is in \<open>RecipeForms\<close>, \<open>Cooking\<close>,
  \<open>MealActions\<close> and \<open>Shopping\<close>. A field that an answer of the server may lack is an option; reading
  a method of a missing one raises, which is \<open>None\<close>.
\<close>

section \<open>A recipe\<close>

record ingredient =
  in_amt :: "string option"
  in_amount :: "rat option"
  in_unit :: "string option"
  in_name :: string

text \<open>A step is a text (sample data) or a row with a text (the server).\<close>

datatype recipe_step = PlainStep string | RowStep string

record recipe =
  rc_id :: string
  rc_title :: string
  rc_source :: "string option"
  rc_prep :: "rat option"
  rc_cook :: "rat option"
  rc_total :: "rat option"
  rc_serves :: "rat option"
  rc_rating :: "rat option"
  rc_tag :: "string list option"
  rc_ingredients :: "ingredient list option"
  rc_steps :: "recipe_step list option"

definition or_no_list :: "'a list option \<Rightarrow> 'a list" where
  "or_no_list x = (case x of None \<Rightarrow> [] | Some xs \<Rightarrow> xs)"

text \<open>A number in a template; one that is missing prints as \<^verbatim>\<open>undefined\<close>.\<close>

definition num_tmpl :: "rat option \<Rightarrow> string" where
  "num_tmpl x = (case x of None \<Rightarrow> ''undefined'' | Some v \<Rightarrow> num_str v)"

section \<open>Import by address\<close>

datatype import_event =
    TypeImportUrl string
  | PressImport
  | PressManual
  | PressCopyError
  | StartAnswered nat "import_job option"
  | JobPolled import_job
  | ClipboardWrote
  | CopyShownEnough

text \<open>
  \<open>iu_polled\<close> is the payload of the query of the job; the query belongs to the job under way and forgets
  its payload with it. \<open>iu_path\<close> are the addresses pushed to the router.
\<close>

record import_use =
  iu_page :: recipe_import
  iu_polled :: "import_job option"
  iu_pending :: bool
  iu_copied :: bool
  iu_sent :: "mutation list"
  iu_path :: "string list"

definition import_use_start :: import_use where
  "import_use_start = \<lparr>iu_page = import_start, iu_polled = None, iu_pending = False, iu_copied = False, iu_sent = [],
     iu_path = []\<rparr>"

fun import_step :: "import_event \<Rightarrow> import_use \<Rightarrow> import_use" where
  "import_step (TypeImportUrl v) s = s\<lparr>iu_page := (iu_page s)\<lparr>im_url := v\<rparr>\<rparr>"
| "import_step PressImport s =
     (case handle_import (iu_page s) of
        (_, None) \<Rightarrow> s
      | (p, Some m) \<Rightarrow> s\<lparr>iu_page := p, iu_polled := None, iu_pending := True, iu_sent := iu_sent s @ [m]\<rparr>)"
| "import_step PressManual s = s\<lparr>iu_path := iu_path s @ [''/recipes/import?manual=1'']\<rparr>"
| "import_step PressCopyError s = s"
| "import_step (StartAnswered n a) s =
     (if iu_pending s \<and> Suc n = length (iu_sent s)
      then s\<lparr>iu_page := import_started a (iu_page s), iu_polled := None, iu_pending := False\<rparr> else s)"
| "import_step (JobPolled j) s =
     (if im_job_id (iu_page s) = Some (ij_id j) then s\<lparr>iu_polled := Some j\<rparr> else s)"
| "import_step ClipboardWrote s = s\<lparr>iu_copied := True\<rparr>"
| "import_step CopyShownEnough s = s\<lparr>iu_copied := False\<rparr>"

definition import_panel_view :: "'e \<Rightarrow> bool \<Rightarrow> import_job option \<Rightarrow> 'e ui list" where
  "import_panel_view copy copied job =
     (case import_panel_of job of
        NoPanel \<Rightarrow> []
      | RunningPanel \<Rightarrow> [Box ''import-job-status'' [Txt (''Importing'' @ dots @ '' this may take up to 30 seconds.'')]]
      | DonePanel href \<Rightarrow>
          [Box ''import-job-status''
             (Txt ''Recipe imported.'' #
              (case href of None \<Rightarrow> [] | Some h \<Rightarrow> [Link (''Open the new recipe '' @ right_arrow) h]))]
      | FailedPanel msg \<Rightarrow>
          [Box ''import-job-status''
             [Txt ''Import failed'', Box ''import-job-error'' [Txt msg],
              Btn ''import-job-error-copy'' (if copied then ''Copied'' else ''Copy error'') True copy]])"

definition import_running :: "import_use \<Rightarrow> bool" where
  "import_running s \<longleftrightarrow>
     (case live_job (iu_polled s) (iu_page s) of None \<Rightarrow> False | Some j \<Rightarrow> ij_status j = Running)"

definition import_view :: "(string \<Rightarrow> string) \<Rightarrow> import_use \<Rightarrow> import_event ui list" where
  "import_view t s =
     [Txt (t ''recipe.addRecipe''), Txt (t ''recipe.pasteUrl''), Txt (t ''recipe.worksWithSites''),
      Field ''url'' (im_url (iu_page s)) TypeImportUrl,
      Btn ''import'' (if iu_pending s \<or> import_running s then ''Importing'' @ dots else t ''recipe.importRecipe'') True PressImport] @
     import_panel_view PressCopyError (iu_copied s) (live_job (iu_polled s) (iu_page s)) @
     shown_if (im_failed (iu_page s)) [Box ''error-alert'' []] @
     [Txt (t ''common.or''), Btn ''manual'' (t ''recipe.enterManually'') True PressManual,
      Txt (t ''recipe.importFromFile'')]"

section \<open>The page of a recipe\<close>

definition ingredient_unit :: "ingredient \<Rightarrow> string" where
  "ingredient_unit i = (case in_unit i of None \<Rightarrow> [] | Some u \<Rightarrow> u)"

text \<open>The amount of a line: the text of the samples, else number and unit of the server.\<close>

definition ingredient_amount :: "rat \<Rightarrow> ingredient \<Rightarrow> string" where
  "ingredient_amount factor i =
     (if truthy (in_amt i) then scale_amount (in_amt i) factor
      else (case in_amount i of
              None \<Rightarrow> ingredient_unit i
            | Some a \<Rightarrow>
                if a > 0 then scale_amount (Some (num_str a)) factor @
                  (if ingredient_unit i \<noteq> [] then '' '' @ ingredient_unit i else [])
                else ingredient_unit i))"

definition ingredient_line :: "rat \<Rightarrow> ingredient \<Rightarrow> 'e ui list" where
  "ingredient_line factor i = shown_some (Some (ingredient_amount factor i)) @ [Txt (in_name i)]"

fun step_body :: "recipe_step \<Rightarrow> string" where
  "step_body (PlainStep s) = s"
| "step_body (RowStep s) = s"

definition base_serves :: "recipe option \<Rightarrow> rat" where
  "base_serves r = (case r of None \<Rightarrow> 1 | Some x \<Rightarrow> (case rc_serves x of None \<Rightarrow> 1 | Some n \<Rightarrow> n))"

datatype detail_event = FewerServings | MoreServings | OpenTab string | StartCooking | RetryRecipe

record detail_ui =
  du_tab :: string
  du_servings :: rat
  du_path :: "string list"
  du_refetched :: nat

definition detail_mount :: "recipe option \<Rightarrow> detail_ui" where
  "detail_mount r = \<lparr>du_tab = ''ing'', du_servings = base_serves r, du_path = [], du_refetched = 0\<rparr>"

text \<open>The effect of new data: its dependencies are the id and the servings of the recipe.\<close>

definition detail_seed :: "recipe option \<Rightarrow> recipe option \<Rightarrow> detail_ui \<Rightarrow> detail_ui" where
  "detail_seed old new s =
     (if map_option rc_id old = map_option rc_id new \<and> Option.bind old rc_serves = Option.bind new rc_serves then s
      else (case Option.bind new rc_serves of
              None \<Rightarrow> s
            | Some n \<Rightarrow> if n \<noteq> 0 then s\<lparr>du_servings := n\<rparr> else s))"

fun detail_step :: "recipe option \<Rightarrow> detail_event \<Rightarrow> detail_ui \<Rightarrow> detail_ui" where
  "detail_step r FewerServings s = s\<lparr>du_servings := fewer_servings (du_servings s)\<rparr>"
| "detail_step r MoreServings s = s\<lparr>du_servings := more_servings (du_servings s)\<rparr>"
| "detail_step r (OpenTab v) s = s\<lparr>du_tab := v\<rparr>"
| "detail_step r StartCooking s =
     (case r of None \<Rightarrow> s
      | Some x \<Rightarrow> if rc_id x \<noteq> [] then s\<lparr>du_path := du_path s @ [''/recipes/'' @ rc_id x @ ''/cook'']\<rparr> else s)"
| "detail_step r RetryRecipe s = s\<lparr>du_refetched := du_refetched s + 1\<rparr>"

definition detail_tabs :: "(string \<times> string) list" where
  "detail_tabs = [(''ing'', ''recipe.ingredients''), (''step'', ''recipe.steps''), (''nut'', ''recipe.nutrition'')]"

definition ingredients_tab :: "(string \<Rightarrow> string) \<Rightarrow> rat \<Rightarrow> recipe \<Rightarrow> 'e ui list" where
  "ingredients_tab t factor r =
     [Box ''recipe-ingredients''
        (if or_no_list (rc_ingredients r) = [] then [Box ''recipe-ingredients-empty'' [Txt (t ''recipe.noIngredients'')]]
         else concat (map (ingredient_line factor) (or_no_list (rc_ingredients r))))]"

definition steps_tab :: "(string \<Rightarrow> string) \<Rightarrow> recipe \<Rightarrow> 'e ui list" where
  "steps_tab t r =
     [Box ''recipe-steps''
        (if or_no_list (rc_steps r) = [] then [Box ''recipe-steps-empty'' [Txt (t ''recipe.noSteps'')]]
         else concat (map (\<lambda>(i, s). [Txt (nat_str (i + 1)), Txt (step_body s)])
                (List.enumerate 0 (or_no_list (rc_steps r)))))]"

definition serving_scaler :: "(string \<Rightarrow> string) \<Rightarrow> rat \<Rightarrow> detail_event ui list" where
  "serving_scaler t servings =
     [Txt (t ''recipe.servings''),
      Btn ''serving-decrement'' [CHR 0xE2, CHR 0x88, CHR 0x92] (servings > 1) FewerServings,
      Box ''serving-count'' [Txt (num_str servings)], Btn ''serving-increment'' ''+'' True MoreServings]"

text \<open>\<open>tn key n\<close> is a message of the catalogue with a number, which may be missing.\<close>

definition detail_page ::
  "(string \<Rightarrow> string) \<Rightarrow> (string \<Rightarrow> rat option \<Rightarrow> string) \<Rightarrow> recipe \<Rightarrow> detail_ui \<Rightarrow> detail_event ui list option" where
  "detail_page t tn r s =
     (case rc_source r of
        None \<Rightarrow> None
      | Some source \<Rightarrow> Some
          ([Txt (uppercase source), Txt (rc_title r), Txt (tn ''recipe.prep'' (rc_prep r)), Txt (tn ''recipe.cook'' (rc_cook r)),
            Txt (tn ''recipe.serves'' (rc_serves r)), Txt (num_tmpl (rc_rating r) @ ''/5'')] @
           serving_scaler t (du_servings s) @
           map (\<lambda>(v, key). Btn v (t key) True (OpenTab v)) detail_tabs @
           shown_if (du_tab s = ''ing'') (ingredients_tab t (scale_factor (base_serves (Some r)) (du_servings s)) r) @
           shown_if (du_tab s = ''step'') (steps_tab t r) @
           [Btn ''start-cooking'' (t ''recipe.startCooking'') True StartCooking]))"

record recipe_load =
  rl_pending :: bool
  rl_error :: "jsval option"
  rl_data :: "recipe option"

text \<open>\<^verbatim>\<open>status === 404\<close> for an error that may have a status.\<close>

definition http_404 :: "jsval \<Rightarrow> int option" where
  "http_404 e = (if opt_prop e ''status'' = JNum 404 then Some 404 else None)"

definition detail_view ::
  "(string \<Rightarrow> string) \<Rightarrow> (string \<Rightarrow> rat option \<Rightarrow> string) \<Rightarrow> string option \<Rightarrow> recipe_load \<Rightarrow> detail_ui \<Rightarrow> detail_event ui list option" where
  "detail_view t tn i d s =
     (case (recipe_view_of i (rl_pending d) (map_option http_404 (rl_error d)) (rl_data d \<noteq> None), rl_error d, rl_data d) of
        (RecipeLoading, _, _) \<Rightarrow> Some [Txt ''Loading recipe...'']
      | (RecipeError, Some e, _) \<Rightarrow> Some (error_state ''Unable to load recipe'' e RetryRecipe)
      | (RecipeShown, _, Some r) \<Rightarrow> detail_page t tn r s
      | _ \<Rightarrow> Some [Txt (t ''recipe.noRecipeFound'')])"

section \<open>The preview\<close>

datatype preview_event = Discard | SaveToCollection

definition preview_view :: "(string \<Rightarrow> string) \<Rightarrow> preview_event ui list" where
  "preview_view t =
     [Txt (t ''recipe.reviewAndSave''), Txt (t ''recipe.imported''),
      Txt (''recipe image '' @ [CHR 0xC2, CHR 0xB7] @ '' imported''), Txt [],
      Txt (t ''recipe.source'' @ [CHR '' '', CHR 0xC2, CHR 0xB7, CHR '' ''] @ ''Import a recipe to review it here''),
      Txt ''0m'', Txt (t ''recipe.prepLabel''), Txt ''0m'', Txt (t ''recipe.cookLabel''), Txt ''0'', Txt (t ''recipe.servings''),
      Txt (t ''recipe.tags''), Txt ''+ add'', Txt (t ''recipe.yourRating''), Txt (t ''recipe.personalNotes''),
      Txt ''Add household notes after importing a recipe.'',
      Btn ''discard'' (t ''recipe.discard'') True Discard, Btn ''save'' (t ''recipe.saveToCollection'') True SaveToCollection]"

text \<open>The addresses pushed; \<open>confirmed\<close> is the answer of the dialog of the browser.\<close>

fun preview_step :: "bool \<Rightarrow> preview_event \<Rightarrow> string list \<Rightarrow> string list" where
  "preview_step confirmed Discard path = (if confirmed then path @ [''/recipes''] else path)"
| "preview_step confirmed SaveToCollection path = path @ [''/recipes'']"

section \<open>Cooking mode\<close>

text \<open>The buttons of cooking mode are its events; closing and finishing go back.\<close>

datatype cook_press = Cook cook_event | LeaveCooking

definition timer_view :: "step_timer \<Rightarrow> cook_press ui list" where
  "timer_view x =
     [Box ''step-timer''
        ([Txt (if st_remaining x = 0 then ''Done!'' else timer_label x)] @
         shown_if (\<not> st_running x \<and> st_remaining x > 0) [Btn ''timer-start'' ''Start timer'' True (Cook StartTimer)] @
         shown_if (st_running x) [Btn ''timer-pause'' ''Pause'' True (Cook PauseTimer)] @
         shown_if (st_remaining x \<noteq> st_seconds x) [Btn ''timer-reset'' ''Reset'' True (Cook ResetTimer)])]"

definition cook_bar :: "nat \<Rightarrow> nat \<Rightarrow> cook_press ui list" where
  "cook_bar n i =
     [Btn ''cook-prev'' ''Previous'' (i \<noteq> 0) (Cook PrevStep),
      (if int i = int n - 1 then Btn ''cook-finish'' (''Done! '' @ [CHR 0xF0, CHR 0x9F, CHR 0x8E, CHR 0x89]) True LeaveCooking
       else Btn ''cook-next'' ''Next step'' True (Cook NextStep))]"

definition cook_page :: "bool \<Rightarrow> string \<Rightarrow> string list \<Rightarrow> cooking \<Rightarrow> cook_press ui list" where
  "cook_page awake title steps s =
     [Btn ''cook-close'' ''Exit'' True LeaveCooking, Txt title] @ shown_if awake [Txt ''Screen kept awake''] @
     [Box ''step-counter'' [Txt (nat_str (ck_step s + 1) @ '' / '' @ nat_str (length steps))],
      Txt (nat_str (ck_step s + 1)), Box ''step-text'' [Txt (step_text steps (ck_step s))]] @
     (case ck_timer s of None \<Rightarrow> [] | Some x \<Rightarrow> timer_view x) @
     shown_if (ck_done s) [Box ''timer-done-badge'' [Txt ''Timer done!'']] @ cook_bar (length steps) (ck_step s)"

text \<open>
  The page reads the steps as texts: it looks for minutes with \<^verbatim>\<open>currentStep.match\<close>, a method that a row
  of the server does not have.
\<close>

definition plain_text :: "recipe_step \<Rightarrow> string option" where
  "plain_text s = (case s of PlainStep x \<Rightarrow> Some x | RowStep _ \<Rightarrow> None)"

definition cooking_view :: "bool \<Rightarrow> recipe option \<Rightarrow> cooking \<Rightarrow> cook_press ui list option" where
  "cooking_view awake r s =
     (let steps = (case r of None \<Rightarrow> [] | Some x \<Rightarrow> or_no_list (rc_steps x))
      in if ck_step s < length steps \<and> plain_text (steps ! ck_step s) = None then None
         else (case r of
                 None \<Rightarrow> Some [Txt (''Loading recipe'' @ dots)]
               | Some x \<Rightarrow>
                   if steps = [] then
                     Some [Txt [CHR 0xF0, CHR 0x9F, CHR 0x8D, CHR 0xBD, CHR 0xEF, CHR 0xB8, CHR 0x8F], Txt (rc_title x),
                           Txt ''This recipe has no step-by-step instructions yet.'',
                           Btn ''back'' ''Back to recipe'' True LeaveCooking]
                   else Some (cook_page awake (rc_title x) (map step_body steps) s)))"

fun cook_use_step :: "string list \<Rightarrow> cook_press \<Rightarrow> cooking \<times> nat \<Rightarrow> cooking \<times> nat" where
  "cook_use_step steps (Cook e) (s, went) = (cook_step steps e s, went)"
| "cook_use_step steps LeaveCooking (s, went) = (s, went + 1)"

section \<open>The shopping list\<close>

text \<open>The toggle of a failed request keeps what its callback closed over.\<close>

datatype shop_event =
    GroupBy group_mode
  | ToggleItem shopping_item string
  | ToggleFailed nat nat shopping_item
  | ShoppingArrived "shopping option"

record shop_page =
  sp_ui :: shopping_ui
  sp_mode :: group_mode
  sp_data :: "shopping option"

definition shop_mount :: "group_mode \<Rightarrow> shopping option \<Rightarrow> shop_page" where
  "shop_mount mode d = \<lparr>sp_ui = shopping_seed d (shopping_mount d), sp_mode = mode, sp_data = d\<rparr>"

fun shop_step :: "shop_event \<Rightarrow> shop_page \<Rightarrow> shop_page" where
  "shop_step (GroupBy m) s = s\<lparr>sp_mode := m\<rparr>"
| "shop_step (ToggleItem it g) s = s\<lparr>sp_ui := shopping_toggle it g (sp_ui s)\<rparr>"
| "shop_step (ToggleFailed ci ii it) s = s\<lparr>sp_ui := toggle_failed ci ii it (sp_ui s)\<rparr>"
| "shop_step (ShoppingArrived d) s = s\<lparr>sp_data := d, sp_ui := shopping_seed d (sp_ui s)\<rparr>"

definition mode_toggle :: "shop_event ui list" where
  "mode_toggle =
     [Box ''shopping-group-toggle''
        [Btn ''group-by-aisle'' ''By aisle'' True (GroupBy Aisle),
         Btn ''group-by-recipe'' ''By recipe'' True (GroupBy Recipe),
         Btn ''group-by-manual'' ''No grouping'' True (GroupBy Manual)]]"

definition pantry_view :: "bool \<Rightarrow> pantry_cue list \<Rightarrow> 'e ui list" where
  "pantry_view flat cues =
     (if cues = [] then []
      else [Box ''pantry-cues'' (shown_if (\<not> flat) [Txt ''Pantry cues''] @ map (\<lambda>c. Txt (pc_message c)) cues)])"

text \<open>A row is pressed as a whole; the group it stands in and its React key name it.\<close>

definition shop_row :: "string \<Rightarrow> nat \<Rightarrow> shopping_item \<Rightarrow> shop_event ui list" where
  "shop_row g n it =
     [Btn (g @ ''/'' @ (case it_id it of Some i \<Rightarrow> i | None \<Rightarrow> g @ '':'' @ it_name it @ '':'' @ nat_str n))
        (it_name it) True (ToggleItem it g)] @
     shown_if (it_done it) [Box ''check'' []] @ shown_some (Some (it_amt it)) @
     shown_if (or_no_list (it_source_recipes it) \<noteq> []) [Txt (join '', '' (or_no_list (it_source_recipes it)))]"

definition shop_group :: "shopping_category \<Rightarrow> shop_event ui list" where
  "shop_group c =
     [Box (''shopping-group-'' @ sc_name c)
        ([Txt (sc_name c), Txt ([CHR 0xC2, CHR 0xB7, CHR '' ''] @ nat_str (length (sc_items c)))] @
         concat (map (\<lambda>(n, it). shop_row (sc_name c) n it) (List.enumerate 0 (sc_items c))))]"

definition shop_view ::
  "(string \<Rightarrow> string) \<Rightarrow> (string \<Rightarrow> string \<Rightarrow> string) \<Rightarrow> pantry_cue list \<Rightarrow> shop_page \<Rightarrow> shop_event ui list" where
  "shop_view t ts cues s =
     (let grouped = group_shopping (su_categories (sp_ui s)) (sp_mode s)
      in [Txt (t ''recipe.shoppingList''),
          Txt (ts ''recipe.weekOf'' (case sp_data s of None \<Rightarrow> [] | Some d \<Rightarrow> sh_week_of d)),
          Txt (ts ''recipe.generatedFrom'' (nat_str (case sp_data s of None \<Rightarrow> 0 | Some d \<Rightarrow> sh_from_recipes d)))] @
         mode_toggle @ pantry_view False cues @
         shown_if (grouped = []) [Txt (t ''recipe.emptyShoppingList'')] @ concat (map shop_group grouped))"

section \<open>Lemmas\<close>

lemma links_shown [simp]:
  "links (shown_if b us) = (if b then links us else [])" "links (shown_some x) = []"
  by (simp_all add: shown_if_def shown_some_def split: option.splits)

text \<open>What the import page offers.\<close>

lemma panel_offers: "fire a (import_panel_view copy copied job) = Some e \<Longrightarrow> e = copy"
  by (auto simp: import_panel_view_def split: import_panel.splits option.splits if_splits)

lemma panel_links:
  "h \<in> set (links (import_panel_view copy copied job)) \<longleftrightarrow>
     (\<exists>j i. job = Some j \<and> ij_status j = Succeeded \<and> ij_recipe_id j = Some i \<and> i \<noteq> [] \<and> h = ''/recipes/'' @ i)"
proof (cases job)
  case (Some j)
  then show ?thesis
    by (cases "ij_status j"; cases "ij_recipe_id j") (auto simp: import_panel_view_def import_panel_of_def)
qed (simp add: import_panel_view_def import_panel_of_def)

lemma import_offers:
  "fire a (import_view t s) = Some e \<Longrightarrow> (\<exists>v. e = TypeImportUrl v) \<or> e \<in> {PressImport, PressManual, PressCopyError}"
  by (auto simp: import_view_def fire_append dest!: panel_offers split: act.splits if_splits option.splits)

definition import_use_ok :: "import_use \<Rightarrow> bool" where
  "import_use_ok s \<longleftrightarrow>
     (\<forall>m \<in> set (iu_sent s). \<exists>u. trim u \<noteq> [] \<and> m = use_start_import_job (trim u)) \<and>
     (\<forall>j. iu_polled s = Some j \<longrightarrow> im_job_id (iu_page s) = Some (ij_id j)) \<and>
     (im_job_id (iu_page s) = map_option ij_id (im_started (iu_page s))) \<and>
     (iu_pending s \<longrightarrow> im_job_id (iu_page s) = None)"

lemma import_step_ok: "import_use_ok s \<Longrightarrow> import_use_ok (import_step e s)"
proof (cases e)
  case PressImport
  assume "import_use_ok s"
  then show ?thesis
    by (auto simp: PressImport import_use_ok_def handle_import_def)
next
  case (StartAnswered n a)
  assume "import_use_ok s"
  then show ?thesis
    by (auto simp: StartAnswered import_use_ok_def import_started_def split: option.splits)
qed (auto simp: import_use_ok_def)

interpretation import_screen: screen "import_view t" import_step "\<lambda>_. True" import_use_ok for t
  by unfold_locales (simp_all add: import_step_ok)

text \<open>What a recipe offers.\<close>

definition detail_ok :: "recipe \<Rightarrow> detail_ui \<Rightarrow> bool" where
  "detail_ok r s \<longleftrightarrow> 1 \<le> du_servings s \<and> du_tab s \<in> {''ing'', ''step'', ''nut''} \<and>
     (\<forall>p \<in> set (du_path s). p = ''/recipes/'' @ rc_id r @ ''/cook'')"

definition shown_ui :: "'e ui list option \<Rightarrow> 'e ui list" where
  "shown_ui v = (case v of None \<Rightarrow> [] | Some us \<Rightarrow> us)"

lemma fire_lines [simp]:
  "fire a (concat (map (ingredient_line f) xs)) = None" "fire a (ingredients_tab t f r) = None" "fire a (steps_tab t r) = None"
proof -
  have l: "fire a (concat (map (ingredient_line f) xs)) = None" for xs
    by (induction xs) (simp_all add: ingredient_line_def fire_append)
  then show "fire a (concat (map (ingredient_line f) xs)) = None" "fire a (ingredients_tab t f r) = None"
    by (simp_all add: ingredients_tab_def l)
  have st: "fire a (concat (map (\<lambda>(i, s). [Txt (nat_str (Suc i)), Txt (step_body s)]) ys)) = None" for ys
    by (induction ys) auto
  show "fire a (steps_tab t r) = None" by (simp add: steps_tab_def st)
qed

lemma detail_offers:
  assumes "detail_page t tn r s = Some us" and "fire a us = Some e"
  shows "e \<in> {FewerServings, MoreServings, OpenTab ''ing'', OpenTab ''step'', OpenTab ''nut'', StartCooking}"
  using assms
  by (auto simp: detail_page_def serving_scaler_def detail_tabs_def fire_append split: option.splits if_splits)

lemma detail_step_ok:
  "detail_ok r s \<Longrightarrow> e \<in> {FewerServings, MoreServings, OpenTab ''ing'', OpenTab ''step'', OpenTab ''nut'', StartCooking} \<Longrightarrow>
     detail_ok r (detail_step (Some r) e s)"
  by (cases "rc_id r = []"; elim insertE emptyE) (simp_all add: detail_ok_def fewer_servings_def more_servings_def)

interpretation detail_screen: screen "\<lambda>s. shown_ui (detail_page t tn r s)" "detail_step (Some r)" "\<lambda>_. False" "detail_ok r"
  for t tn r
proof unfold_locales
  fix s a e assume s: "detail_ok r s" and f: "fire a (shown_ui (detail_page t tn r s)) = Some e"
  show "detail_ok r (detail_step (Some r) e s)"
  proof (cases "detail_page t tn r s")
    case None
    with f show ?thesis by (simp add: shown_ui_def)
  next
    case (Some us)
    from detail_step_ok[OF s detail_offers[OF Some]] f Some show ?thesis by (simp add: shown_ui_def)
  qed
qed simp

text \<open>The rows of the shopping list.\<close>

lemma shop_group_offers:
  assumes "fire a (shop_group c) = Some e"
  shows "\<exists>it \<in> set (sc_items c). e = ToggleItem it (sc_name c)"
proof -
  from assms obtain n it where i: "(n, it) \<in> set (List.enumerate 0 (sc_items c))" and f: "fire a (shop_row (sc_name c) n it) = Some e"
    by (auto simp: shop_group_def split: option.splits dest!: fire_items)
  from i have "it \<in> set (sc_items c)" using in_set_enumerate_eq[of "(n, it)" 0 "sc_items c"] by auto
  moreover from f have "e = ToggleItem it (sc_name c)"
    by (auto simp: shop_row_def fire_append split: if_splits option.splits)
  ultimately show ?thesis by blast
qed

lemma fire_pantry [simp]: "fire a (pantry_view flat cues) = None"
  by (simp add: pantry_view_def fire_append)

lemma shop_offers:
  assumes "fire a (shop_view t ts cues s) = Some (ToggleItem it g)"
  shows "\<exists>c \<in> set (group_shopping (su_categories (sp_ui s)) (sp_mode s)). sc_name c = g \<and> it \<in> set (sc_items c)"
proof -
  have m: "fire a mode_toggle \<noteq> Some (ToggleItem it g)"
    by (simp add: mode_toggle_def)
  from assms m have "fire a (concat (map shop_group (group_shopping (su_categories (sp_ui s)) (sp_mode s)))) = Some (ToggleItem it g)"
    by (simp add: shop_view_def Let_def fire_append split: option.splits if_splits)
  then show ?thesis by (auto dest!: fire_items shop_group_offers)
qed

lemma group_members: "\<Union> ((set \<circ> sc_items) ` set (group_shopping cats mode)) \<subseteq> \<Union> ((set \<circ> sc_items) ` set cats)"
proof (cases mode)
  case Recipe
  have "\<Union> ((set \<circ> sc_items) ` set (group_shopping cats Recipe)) = snd ` set (placements cats)"
    by (auto simp: group_recipe image_iff)
  moreover have "snd ` set (placements cats) \<subseteq> \<Union> ((set \<circ> sc_items) ` set cats)"
    by (auto simp: placements_def)
  ultimately show ?thesis unfolding Recipe by blast
next
  case Manual
  then show ?thesis by (simp add: group_shopping_def Let_def)
qed (simp add: group_shopping_def)

text \<open>The items of a list in a row, and an update of one of them.\<close>

definition all_items :: "shopping_category list \<Rightarrow> shopping_item list" where
  "all_items cats = concat (map sc_items cats)"

lemma item_at_split:
  assumes "in_range ci ii cats"
  obtains A B where "all_items cats = A @ item_at ci ii cats # B" and "all_items (update_item ci ii f cats) = A @ f (item_at ci ii cats) # B"
proof -
  let ?c = "cats ! ci"
  have c: "cats = take ci cats @ ?c # drop (Suc ci) cats" using assms by (simp add: in_range_def id_take_nth_drop)
  have i: "sc_items ?c = take ii (sc_items ?c) @ item_at ci ii cats # drop (Suc ii) (sc_items ?c)"
    using assms by (simp add: in_range_def item_at_def id_take_nth_drop)
  let ?A = "all_items (take ci cats) @ take ii (sc_items ?c)" and ?B = "drop (Suc ii) (sc_items ?c) @ all_items (drop (Suc ci) cats)"
  have "all_items cats = all_items (take ci cats) @ sc_items ?c @ all_items (drop (Suc ci) cats)"
    by (subst c) (simp add: all_items_def)
  also have "\<dots> = ?A @ item_at ci ii cats # ?B" by (subst i) simp
  finally have a: "all_items cats = ?A @ item_at ci ii cats # ?B" .
  have "all_items (update_item ci ii f cats) = ?A @ f (item_at ci ii cats) # ?B"
    using assms unfolding update_item_lists[OF assms]
    by (simp add: all_items_def in_range_def upd_conv_take_nth_drop)
  with a show thesis by (rule that)
qed

lemma update_flat:
  assumes "in_range ci ii cats" and "distinct (map it_id (all_items cats))"
  shows "all_items (update_item ci ii f cats) =
    map (\<lambda>x. if it_id x = it_id (item_at ci ii cats) then f x else x) (all_items cats)"
proof -
  obtain A B where s: "all_items cats = A @ item_at ci ii cats # B"
    and u: "all_items (update_item ci ii f cats) = A @ f (item_at ci ii cats) # B"
    by (rule item_at_split[OF assms(1)])
  from assms(2) have "\<forall>x \<in> set A \<union> set B. it_id x \<noteq> it_id (item_at ci ii cats)"
    unfolding s by (auto simp: image_iff)
  then have "map (\<lambda>x. if it_id x = it_id (item_at ci ii cats) then f x else x) A = A"
    "map (\<lambda>x. if it_id x = it_id (item_at ci ii cats) then f x else x) B = B"
    by (auto intro: map_idI)
  with u show ?thesis unfolding s by simp
qed

lemma item_position:
  assumes "it \<in> set (all_items cats)"
  obtains ci ii where "in_range ci ii cats" and "item_at ci ii cats = it"
proof -
  from assms obtain c where "c \<in> set cats" "it \<in> set (sc_items c)" by (auto simp: all_items_def)
  then show thesis using that by (metis in_range_def item_at_def in_set_conv_nth)
qed

lemma find_position_Some:
  assumes "find_position P cats = Some (ci, ii)"
  shows "in_range ci ii cats \<and> P (cats ! ci) (item_at ci ii cats)"
  using find_Some_set[OF assms[unfolded find_position_def]] by (auto simp: in_range_def item_at_def)

lemma find_position_exists:
  assumes "in_range ci ii cats" and "P (cats ! ci) (item_at ci ii cats)"
  shows "find_position P cats \<noteq> None"
proof -
  have "(ci, ii) \<in> set (concat (map (\<lambda>ci. map (Pair ci) [0..<length (sc_items (cats ! ci))]) [0..<length cats]))"
    using assms(1) by (auto simp: in_range_def intro!: bexI[of _ ci])
  moreover have "(\<lambda>(ci, ii). P (cats ! ci) (sc_items (cats ! ci) ! ii)) (ci, ii)" using assms(2) by (simp add: item_at_def)
  ultimately show ?thesis unfolding find_position_def find_None_iff by blast
qed

lemma find_indices_of:
  assumes "it \<in> set (all_items cats)" and "truthy (it_id it)"
  obtains ci ii where "find_indices it g cats = Some (ci, ii)" and "in_range ci ii cats" and "it_id (item_at ci ii cats) = it_id it"
proof -
  obtain c i where "in_range c i cats" "item_at c i cats = it" by (rule item_position[OF assms(1)])
  with assms(2) have "find_position (\<lambda>cat x. truthy (it_id it) \<and> it_id x = it_id it) cats \<noteq> None"
    by (intro find_position_exists) auto
  then obtain ci ii where p: "find_position (\<lambda>cat x. truthy (it_id it) \<and> it_id x = it_id it) cats = Some (ci, ii)" by auto
  with find_position_Some[OF p] show thesis by (intro that[of ci ii]) (simp_all add: find_indices_def)
qed

section \<open>Properties\<close>

text \<open>
  However the import page is used, every request it sends names a trimmed address that is not empty, and
  the panel speaks of the job under way only: a link to a recipe is there exactly when that job has
  succeeded and names it.
\<close>

theorem import_page_requests:
  assumes "s = run (use_step (import_view t) import_step) us import_use_start"
  shows "(\<forall>m \<in> set (iu_sent s). \<exists>u. trim u \<noteq> [] \<and> m = use_start_import_job (trim u)) \<and>
    (\<forall>h \<in> set (links (import_view t s)).
       \<exists>(j :: import_job) i. im_job_id (iu_page s) = Some (ij_id j) \<and> ij_status j = Succeeded \<and> ij_recipe_id j = Some i \<and> h = ''/recipes/'' @ i)"
proof -
  have "import_use_ok s" unfolding assms
    by (rule import_screen.always) (simp_all add: import_use_ok_def import_use_start_def import_start_def list_all_iff)
  then have live: "im_job_id (iu_page s) = Some (ij_id j)" if "live_job (iu_polled s) (iu_page s) = Some j" for j
    using that by (auto simp: import_use_ok_def live_job_def split: option.splits)
  have shown: "\<exists>j i. live_job (iu_polled s) (iu_page s) = Some j \<and> ij_status j = Succeeded \<and> ij_recipe_id j = Some i \<and> h = ''/recipes/'' @ i"
    if "h \<in> set (links (import_view t s))" for h
    using that by (auto simp: import_view_def panel_links)
  have "\<exists>(j :: import_job) i. im_job_id (iu_page s) = Some (ij_id j) \<and> ij_status j = Succeeded \<and> ij_recipe_id j = Some i \<and> h = ''/recipes/'' @ i"
    if "h \<in> set (links (import_view t s))" for h
  proof -
    from shown[OF that] obtain j i where j: "live_job (iu_polled s) (iu_page s) = Some j" "ij_status j = Succeeded"
      "ij_recipe_id j = Some i" "h = ''/recipes/'' @ i" by (elim exE conjE)
    show ?thesis by (rule exI[of _ j], rule exI[of _ i]) (simp only: j live[OF j(1)] simp_thms)
  qed
  moreover have "\<forall>m \<in> set (iu_sent s). \<exists>u. trim u \<noteq> [] \<and> m = use_start_import_job (trim u)"
    using \<open>import_use_ok s\<close> by (simp add: import_use_ok_def)
  ultimately show ?thesis by blast
qed

text \<open>
  However the buttons of a recipe are pressed, at least one serving is asked for, the tab is one of the three and
  cooking starts with this recipe; at the number of servings of the recipe every amount is the one that
  is stored, and a step up and down leaves the number as it was.
\<close>

theorem serving_scaler_sound:
  assumes "rc_serves r = Some n" and "1 \<le> n"
  shows "let s = run (use_step (\<lambda>s. shown_ui (detail_page t tn r s)) (detail_step (Some r))) (map User as) (detail_mount (Some r)) in
    1 \<le> du_servings s \<and> du_tab s \<in> {''ing'', ''step'', ''nut''} \<and> (\<forall>p \<in> set (du_path s). p = ''/recipes/'' @ rc_id r @ ''/cook'') \<and>
    (du_servings s = n \<longrightarrow> (\<forall>i. truthy (in_amt i) \<longrightarrow> ingredient_amount (scale_factor n (du_servings s)) i = the (in_amt i))) \<and>
    detail_step (Some r) FewerServings (detail_step (Some r) MoreServings s) = s"
proof -
  define s where "s = run (use_step (\<lambda>s. shown_ui (detail_page t tn r s)) (detail_step (Some r))) (map User as) (detail_mount (Some r))"
  have "detail_ok r s" unfolding s_def
    by (rule detail_screen.always) (use assms in \<open>simp_all add: detail_ok_def detail_mount_def base_serves_def list_all_iff\<close>)
  moreover have "ingredient_amount (scale_factor n n) i = the (in_amt i)" if "truthy (in_amt i)" for i
    using that assms(2) by (simp add: ingredient_amount_def scale_factor_def scale_amount_def)
  ultimately show ?thesis unfolding Let_def s_def[symmetric]
    by (auto simp: detail_ok_def fewer_servings_def more_servings_def)
qed

text \<open>
  The recipe page reads a method of the field \<^verbatim>\<open>source\<close>, which no recipe of the server has
  (\<^verbatim>\<open>internal/model/recipe.go\<close> has \<^verbatim>\<open>source_url\<close> and \<^verbatim>\<open>source_domain\<close>): the page raises for each of them.
  Cooking mode raises when the step on screen is a row, as all steps of the server are.
\<close>

theorem server_recipes_raise:
  assumes "rl_data d = Some r" and "rl_error d = None" and "\<not> (truthy i \<and> rl_pending d)"
  shows "(detail_view t tn i d s = None \<longleftrightarrow> rc_source r = None) \<and>
    (cooking_view awake (Some r) c = None \<longleftrightarrow>
       ck_step c < length (or_no_list (rc_steps r)) \<and> (\<exists>x. or_no_list (rc_steps r) ! ck_step c = RowStep x))"
proof
  from assms show "detail_view t tn i d s = None \<longleftrightarrow> rc_source r = None"
    by (simp add: detail_view_def recipe_view_of_def detail_page_def split: option.splits)
  show "cooking_view awake (Some r) c = None \<longleftrightarrow>
      ck_step c < length (or_no_list (rc_steps r)) \<and> (\<exists>x. or_no_list (rc_steps r) ! ck_step c = RowStep x)"
    by (simp add: cooking_view_def Let_def plain_text_def split: recipe_step.splits)
qed

text \<open>
  The guards of the events of cooking mode are its buttons: an event whose button is drawn and enabled is what the
  button does, and an event whose button is missing or disabled changes nothing.
\<close>

fun cook_button :: "cook_event \<Rightarrow> string" where
  "cook_button PrevStep = ''cook-prev''"
| "cook_button NextStep = ''cook-next''"
| "cook_button StartTimer = ''timer-start''"
| "cook_button PauseTimer = ''timer-pause''"
| "cook_button ResetTimer = ''timer-reset''"
| "cook_button SecondPasses = []"

theorem cooking_buttons_are_guards:
  assumes "rc_steps r = Some (map PlainStep steps)" and "steps \<noteq> []" and "ck_step c < length steps" and "e \<noteq> SecondPasses"
  shows "\<exists>us. cooking_view awake (Some r) c = Some us \<and>
    (case fire (Press (cook_button e)) us of Some p \<Rightarrow> p = Cook e | None \<Rightarrow> cook_step steps e c = c)"
proof -
  have "map step_body (map PlainStep steps) = steps" by (simp add: comp_def)
  then have v: "cooking_view awake (Some r) c = Some (cook_page awake (rc_title r) steps c)"
    using assms by (simp add: cooking_view_def or_no_list_def Let_def plain_text_def)
  have "case fire (Press (cook_button e)) (cook_page awake (rc_title r) steps c) of Some p \<Rightarrow> p = Cook e | None \<Rightarrow> cook_step steps e c = c"
    using assms(3,4)
    by (cases e; cases "ck_timer c") (auto simp: cook_page_def cook_bar_def timer_view_def fire_append shown_if_def)
  with v show ?thesis by blast
qed

text \<open>
  Every row of the shopping list, in whatever group it is shown, ticks its own item: when the items have
  different ids, what a press on a rendered row does is to flip that item and no other and to send one
  request, for it, with the new value.
\<close>

theorem shopping_rows_tick_their_item:
  assumes "fire a (shop_view t ts cues s) = Some (ToggleItem it g)"
    and "\<forall>x \<in> set (all_items (su_categories (sp_ui s))). truthy (it_id x)"
    and "distinct (map it_id (all_items (su_categories (sp_ui s))))"
  shows "let s' = use_step (shop_view t ts cues) shop_step (User a) s in
    all_items (su_categories (sp_ui s')) =
      map (\<lambda>x. if it_id x = it_id it then x\<lparr>it_done := \<not> it_done x\<rparr> else x) (all_items (su_categories (sp_ui s))) \<and>
    su_calls (sp_ui s') = su_calls (sp_ui s) @ [use_toggle_shopping_item (it_id it) (it_name it) (\<not> it_done it)]"
proof -
  let ?cats = "su_categories (sp_ui s)"
  have it: "it \<in> set (all_items ?cats)"
    using shop_offers[OF assms(1)] group_members[of ?cats "sp_mode s"] by (force simp: all_items_def)
  with assms(2) have "truthy (it_id it)" by blast
  then obtain ci ii where f: "find_indices it g ?cats = Some (ci, ii)" "in_range ci ii ?cats" "it_id (item_at ci ii ?cats) = it_id it"
    by (rule find_indices_of[OF it])
  have "item_at ci ii ?cats \<in> set (all_items ?cats)"
    using item_at_split[OF f(2)] by (metis in_set_conv_decomp)
  with f(3) it assms(3) have same: "item_at ci ii ?cats = it" by (auto simp: distinct_map dest: inj_onD)
  show ?thesis
    using update_flat[OF f(2) assms(3), of "\<lambda>x. x\<lparr>it_done := \<not> it_done x\<rparr>"]
    by (simp add: assms(1) shopping_toggle_def f(1) Let_def same flip: item_at_def)
qed

text \<open>
  A row without an id is found again by the name of its group, which is an aisle in one mode only: grouped
  by recipe or not at all, a press on it does nothing.
\<close>

lemma grouped_row_without_id_is_dead:
  assumes "\<not> truthy (it_id it)" and "g \<noteq> []" and "\<forall>c \<in> set (su_categories (sp_ui s)). sc_name c \<noteq> g"
  shows "shop_step (ToggleItem it g) s = s"
proof -
  have "find_position (\<lambda>cat x. truthy (it_id it) \<and> it_id x = it_id it) (su_categories (sp_ui s)) = None"
    using assms(1) by (simp add: find_position_def find_None_iff)
  moreover have "find_position (\<lambda>cat x. \<not> (g \<noteq> [] \<and> sc_name cat \<noteq> g) \<and> it_name x = it_name it \<and> it_amt x = it_amt it)
      (su_categories (sp_ui s)) = None"
    using assms(2,3) by (auto simp: find_position_def find_None_iff)
  ultimately show ?thesis by (simp add: shopping_toggle_def find_indices_def)
qed

text \<open>The preview saves nothing: both of its buttons only lead to the recipes.\<close>

lemma preview_only_leaves: "preview_step ok e path \<in> {path, path @ [''/recipes'']}"
  by (cases e) simp_all

end
