(* ===== verification/MealScreens.thy ===== *)
theory MealScreens
  imports RecipeScreens
begin

text \<open>
  The weekly meal plan as it is rendered and used (\<^verbatim>\<open>MealPlan\<close> in
  \<^verbatim>\<open>web/src/components/screens/recipes.tsx\<close>) with its two dialogs, the picker of a recipe and the popover of
  a planned meal (\<^verbatim>\<open>components/meal-plan/EditEntryPopover.tsx\<close>). Its handlers are those of \<open>MealPlan\<close>,
  \<open>MealActions\<close> and \<open>RecipeForms\<close>. A dialog covers the grid but does not remove it, so that the model
  lets a user reach the grid behind it too.
\<close>

section \<open>The page\<close>

datatype meal_event =
    CopyLastWeek
  | SuggestDinners
  | PressShopping
  | OpenCell meal_slot
  | ClearCell nat nat
  | TypeMultiplier string
  | TypeBatch string
  | TypeLeftovers string
  | SaveEntry
  | CancelEntry
  | DeleteEntry
  | DeleteConfirmed bool
  | ChooseRecipe string
  | ClosePicker
  | PlanArrived "meal_plan option"
  | LastWeekArrived "meal_plan option"
  | RecipesArrived "recipe list option"
  | UpsertSettled "api_failure option"
  | DeleteSettled "api_failure option"
  | CopyRan "bool list"
  | CopyTimer
  | ShoppingEvent generate_event
  | SuggestDone suggest_toast
  | ToastTimer

text \<open>
  \<open>mg_form\<close> is the state of the popover while it is mounted, \<open>mg_asking\<close> the dialog of the browser that
  asks to confirm. \<open>mg_upserting\<close> and \<open>mg_deleting\<close> are the pending marks of the two mutations.
\<close>

record meal_page =
  mg_plan :: "meal_plan option"
  mg_last :: "meal_plan option"
  mg_recipes :: "recipe list option"
  mg_ui :: meal_ui
  mg_form :: "edit_entry option"
  mg_asking :: bool
  mg_upserting :: bool
  mg_deleting :: bool
  mg_copy :: action_status
  mg_shop :: generate_ui
  mg_thinking :: bool
  mg_toast :: "suggest_toast option"

definition meal_mount :: "int \<Rightarrow> meal_page" where
  "meal_mount now = \<lparr>mg_plan = None, mg_last = None, mg_recipes = None, mg_ui = initial_meal_ui, mg_form = None,
     mg_asking = False, mg_upserting = False, mg_deleting = False, mg_copy = Idle, mg_shop = generate_start now,
     mg_thinking = False, mg_toast = None\<rparr>"

text \<open>The popover is mounted with the values of the entry when it opens and forgotten when it closes.\<close>

definition entry_form :: "meal_plan \<Rightarrow> meal_slot \<Rightarrow> edit_entry" where
  "entry_form m sl =
     (let meta = entry_meta_at m sl
      in open_edit_entry (Option.bind meta em_serving_multiplier) (Option.bind meta em_batch_quantity)
           (Option.bind meta em_planned_leftovers))"

definition mount_entry :: "meal_page \<Rightarrow> meal_page" where
  "mount_entry s =
     (case (ui_edit (mg_ui s), mg_plan s) of
        (Some sl, Some m) \<Rightarrow> s\<lparr>mg_form := Some (case mg_form s of Some f \<Rightarrow> f | None \<Rightarrow> entry_form m sl)\<rparr>
      | _ \<Rightarrow> s\<lparr>mg_form := None, mg_asking := False\<rparr>)"

definition on_form :: "(edit_entry \<Rightarrow> edit_entry) \<Rightarrow> meal_page \<Rightarrow> meal_page" where
  "on_form f s = s\<lparr>mg_form := map_option f (mg_form s)\<rparr>"

definition save_entry :: "meal_page \<Rightarrow> meal_page" where
  "save_entry s =
     (case mg_form s of
        None \<Rightarrow> s
      | Some f \<Rightarrow>
          (case edit_entry_values f of (m, b, l) \<Rightarrow>
             s\<lparr>mg_ui := handle_edit_save (mg_plan s) m b l (mg_ui s), mg_upserting := True\<rparr>))"

definition delete_entry :: "meal_page \<Rightarrow> meal_page" where
  "delete_entry s =
     (let u = handle_edit_delete (mg_plan s) (mg_ui s)
      in s\<lparr>mg_ui := u, mg_deleting := (mg_deleting s \<or> ui_calls u \<noteq> ui_calls (mg_ui s))\<rparr>)"

definition copy_ran :: "(int \<Rightarrow> int) \<Rightarrow> (nat \<Rightarrow> bool) \<Rightarrow> meal_page \<Rightarrow> meal_page" where
  "copy_ran loc answers s =
     (case handle_copy_last_week loc answers (mg_plan s) (mg_last s) (mg_ui s) of
        (u, r) \<Rightarrow> s\<lparr>mg_ui := u, mg_copy := (case r of None \<Rightarrow> mg_copy s | Some True \<Rightarrow> ActionOk | Some False \<Rightarrow> ActionError)\<rparr>)"

definition week_of :: "meal_page \<Rightarrow> string option" where
  "week_of s = map_option ml_week_of (mg_plan s)"

text \<open>\<open>ready\<close>: the assistant is switched on and one of the three keys is set.\<close>

fun meal_step :: "(int \<Rightarrow> int) \<Rightarrow> bool \<Rightarrow> meal_event \<Rightarrow> meal_page \<Rightarrow> meal_page" where
  "meal_step loc ready CopyLastWeek s =
     (if truthy (week_of s) \<and> mg_last s \<noteq> None then s\<lparr>mg_copy := Loading\<rparr> else s)"
| "meal_step loc ready SuggestDinners s =
     (if ready then s\<lparr>mg_thinking := True\<rparr> else s\<lparr>mg_toast := Some Unconfigured, mg_thinking := False\<rparr>)"
| "meal_step loc ready PressShopping s = s\<lparr>mg_shop := generate_step loc (week_of s) PressGenerate (mg_shop s)\<rparr>"
| "meal_step loc ready (OpenCell sl) s = mount_entry (s\<lparr>mg_ui := open_picker (mg_plan s) sl (mg_ui s)\<rparr>)"
| "meal_step loc ready (ClearCell r c) s = s\<lparr>mg_ui := clear_slot r c (mg_ui s)\<rparr>"
| "meal_step loc ready (TypeMultiplier v) s = on_form (\<lambda>f. f\<lparr>ee_multiplier := v\<rparr>) s"
| "meal_step loc ready (TypeBatch v) s = on_form (\<lambda>f. f\<lparr>ee_batch := v\<rparr>) s"
| "meal_step loc ready (TypeLeftovers v) s = on_form (\<lambda>f. f\<lparr>ee_leftovers := v\<rparr>) s"
| "meal_step loc ready SaveEntry s = mount_entry (save_entry s)"
| "meal_step loc ready CancelEntry s = mount_entry (s\<lparr>mg_ui := (mg_ui s)\<lparr>ui_edit := None\<rparr>\<rparr>)"
| "meal_step loc ready DeleteEntry s = s\<lparr>mg_asking := True\<rparr>"
| "meal_step loc ready (DeleteConfirmed ok) s = mount_entry ((if ok then delete_entry s else s)\<lparr>mg_asking := False\<rparr>)"
| "meal_step loc ready (ChooseRecipe i) s =
     s\<lparr>mg_ui := pick_recipe loc (mg_plan s) i (mg_ui s),
       mg_upserting := (mg_upserting s \<or> ui_calls (pick_recipe loc (mg_plan s) i (mg_ui s)) \<noteq> ui_calls (mg_ui s))\<rparr>"
| "meal_step loc ready ClosePicker s = s\<lparr>mg_ui := (mg_ui s)\<lparr>ui_picker := None\<rparr>\<rparr>"
| "meal_step loc ready (PlanArrived p) s = mount_entry (s\<lparr>mg_plan := p, mg_ui := seed_grid p (mg_ui s)\<rparr>)"
| "meal_step loc ready (LastWeekArrived p) s = s\<lparr>mg_last := p\<rparr>"
| "meal_step loc ready (RecipesArrived rs) s = s\<lparr>mg_recipes := rs\<rparr>"
| "meal_step loc ready (UpsertSettled e) s =
     s\<lparr>mg_upserting := False, mg_ui := (case e of None \<Rightarrow> mg_ui s | Some x \<Rightarrow> mutation_failed x (mg_ui s))\<rparr>"
| "meal_step loc ready (DeleteSettled e) s =
     s\<lparr>mg_deleting := False, mg_ui := (case e of None \<Rightarrow> mg_ui s | Some x \<Rightarrow> mutation_failed x (mg_ui s))\<rparr>"
| "meal_step loc ready (CopyRan answers) s = (if mg_copy s = Loading then copy_ran loc (\<lambda>i. i < length answers \<and> answers ! i) s else s)"
| "meal_step loc ready CopyTimer s = s\<lparr>mg_copy := Idle\<rparr>"
| "meal_step loc ready (ShoppingEvent e) s = s\<lparr>mg_shop := generate_step loc (week_of s) e (mg_shop s)\<rparr>"
| "meal_step loc ready (SuggestDone x) s = s\<lparr>mg_toast := Some x, mg_thinking := False\<rparr>"
| "meal_step loc ready ToastTimer s = s\<lparr>mg_toast := None, mg_thinking := False\<rparr>"

section \<open>What is rendered\<close>

definition meal_emoji :: "string \<Rightarrow> string" where
  "meal_emoji i =
     (if i = ''r1'' then [CHR 0xF0, CHR 0x9F, CHR 0x8D, CHR 0x9D] else if i = ''r2'' then [CHR 0xF0, CHR 0x9F, CHR 0x8C, CHR 0xAE]
      else if i = ''r3'' then [CHR 0xF0, CHR 0x9F, CHR 0x90, CHR 0x9F] else if i = ''r4'' then [CHR 0xF0, CHR 0x9F, CHR 0x8D, CHR 0xB2]
      else if i = ''r5'' then [CHR 0xF0, CHR 0x9F, CHR 0xA5, CHR 0xA3] else if i = ''r6'' then [CHR 0xF0, CHR 0x9F, CHR 0xA5, CHR 0x9E]
      else if i = ''r7'' then [CHR 0xF0, CHR 0x9F, CHR 0xA5, CHR 0x97] else if i = ''r8'' then [CHR 0xF0, CHR 0x9F, CHR 0xA7, CHR 0x80]
      else [CHR 0xF0, CHR 0x9F, CHR 0x8D, CHR 0xBD, CHR 0xEF, CHR 0xB8, CHR 0x8F])"

definition short_title :: "string \<Rightarrow> string" where
  "short_title title = join '' '' (take 2 (split_on (CHR '' '') title))"

definition cell_name :: "nat \<Rightarrow> nat \<Rightarrow> string" where
  "cell_name r c = ''meal-cell-'' @ nat_str r @ ''-'' @ nat_str c"

text \<open>A cell is pressed as a whole; the cross in it stops the press from reaching the cell.\<close>

definition meal_cell :: "recipe list \<Rightarrow> string \<Rightarrow> nat \<Rightarrow> nat \<Rightarrow> string \<Rightarrow> string option \<Rightarrow> meal_event ui list" where
  "meal_cell recipes row r c date rid =
     Btn (cell_name r c) [] True (OpenCell \<lparr>sl_row = r, sl_col = c, sl_date = date, sl_meal = row\<rparr>) #
     (case (if truthy rid then find (\<lambda>x. rc_id x = the rid) recipes else None) of
        Some x \<Rightarrow> [Txt (meal_emoji (rc_id x)), Txt (short_title (rc_title x)),
                   Btn (''clear-'' @ cell_name r c) times_sign True (ClearCell r c)]
      | None \<Rightarrow> [Box ''plus'' []])"

definition row_label :: "(string \<Rightarrow> string) \<Rightarrow> string \<Rightarrow> string" where
  "row_label t row =
     (if row \<in> {''Breakfast'', ''Lunch'', ''Dinner'', ''Snack''} then t (''recipe.rows.'' @ lowercase row) else uppercase row)"

definition meal_row ::
  "(int \<Rightarrow> int) \<Rightarrow> (string \<Rightarrow> string) \<Rightarrow> recipe list \<Rightarrow> string \<Rightarrow> meal_grid \<Rightarrow> nat \<times> string \<Rightarrow> meal_event ui list option" where
  "meal_row loc t recipes weekOf grid p =
     (case p of (r, row) \<Rightarrow>
        map_option (\<lambda>cells. Txt (row_label t row) # concat cells)
          (those (map (\<lambda>(c, rid). map_option (\<lambda>date. meal_cell recipes row r c date rid) (col_date loc weekOf (int c)))
             (List.enumerate 0 (if r < length grid then grid ! r else [])))))"

text \<open>The numbers over the columns are fixed.\<close>

definition day_heads :: "meal_event ui list" where
  "day_heads =
     concat (map (\<lambda>(i, d). [Txt (uppercase d), Txt (nat_str (19 + i))])
       (List.enumerate 0 [''Mon'', ''Tue'', ''Wed'', ''Thu'', ''Fri'', ''Sat'', ''Sun'']))"

definition retry_label :: string where
  "retry_label = ''Error '' @ em_dash @ '' retry''"

definition button_status :: "action_status \<Rightarrow> string \<Rightarrow> string \<Rightarrow> string \<Rightarrow> string" where
  "button_status st loading ok idle =
     (case st of Loading \<Rightarrow> loading | ActionOk \<Rightarrow> ok | ActionError \<Rightarrow> retry_label | Idle \<Rightarrow> idle)"

definition meal_header :: "(string \<Rightarrow> string) \<Rightarrow> (string \<Rightarrow> string \<Rightarrow> string) \<Rightarrow> string \<Rightarrow> meal_page \<Rightarrow> meal_event ui list" where
  "meal_header t ts weekOf s =
     [Txt (t ''recipe.mealPlan''), Txt (ts ''recipe.weekOfDate'' weekOf),
      Btn ''copy-last-week'' (button_status (mg_copy s) (''Copying'' @ dots) ''Copied!'' (t ''recipe.copyLastWeek''))
        (mg_copy s \<noteq> Loading) CopyLastWeek,
      Btn ''ai-suggest-btn'' (if mg_thinking s then ''Thinking'' @ dots else t ''recipe.aiSuggest'') True SuggestDinners,
      Btn ''generate-shopping''
        (button_status (gu_status (mg_shop s)) (''Generating'' @ dots) ''Done!'' (t ''recipe.generateShoppingList''))
        (gu_status (mg_shop s) \<noteq> Loading) PressShopping] @
     shown_some (Some (gu_message (mg_shop s)))"

definition entry_popover :: "string \<Rightarrow> bool \<Rightarrow> edit_entry \<Rightarrow> meal_event ui list" where
  "entry_popover title busy f =
     [Btn ''meal-plan-edit-popover'' [] True CancelEntry, Txt title,
      Btn ''meal-plan-edit-delete'' [] (\<not> busy) DeleteEntry,
      Txt ''Servings multiplier'', Field ''meal-plan-edit-multiplier'' (ee_multiplier f) TypeMultiplier,
      Txt ''Batch quantity'', Field ''meal-plan-edit-batch'' (ee_batch f) TypeBatch,
      Txt ''Planned leftovers'', Field ''meal-plan-edit-leftovers'' (ee_leftovers f) TypeLeftovers,
      Btn ''cancel-entry'' ''Cancel'' (\<not> busy) CancelEntry,
      Btn ''meal-plan-edit-save'' ''Save'' (\<not> busy) SaveEntry]"

definition confirm_dialog :: "string \<Rightarrow> 'e \<Rightarrow> 'e \<Rightarrow> 'e ui list" where
  "confirm_dialog question yes no = [Txt question, Btn ''ok'' ''OK'' True yes, Btn ''cancel'' ''Cancel'' True no]"

definition recipe_picker :: "recipe list \<Rightarrow> meal_slot \<Rightarrow> meal_event ui list" where
  "recipe_picker recipes sl =
     [Btn ''meal-picker'' [] True ClosePicker, Txt (''Pick a recipe '' @ em_dash @ '' '' @ sl_meal sl)] @
     shown_if (recipes = []) [Txt ''No recipes yet. Import one first.''] @
     map (\<lambda>x. Btn (''pick-recipe-'' @ rc_id x) (meal_emoji (rc_id x) @ rc_title x) True (ChooseRecipe (rc_id x))) recipes @
     [Btn ''close-picker'' ''Cancel'' True ClosePicker]"

definition planned_recipes :: "meal_page \<Rightarrow> recipe list" where
  "planned_recipes s = or_no_list (mg_recipes s)"

definition meal_dialogs :: "meal_plan \<Rightarrow> meal_page \<Rightarrow> meal_event ui list" where
  "meal_dialogs m s =
     (case (ui_edit (mg_ui s), mg_form s) of
        (Some sl, Some f) \<Rightarrow>
          entry_popover (sl_meal sl @ '' '' @ em_dash @ '' '' @ sl_date sl) (mg_upserting s \<or> mg_deleting s) f
      | _ \<Rightarrow> []) @
     (case ui_picker (mg_ui s) of None \<Rightarrow> [] | Some sl \<Rightarrow> recipe_picker (planned_recipes s) sl)"

text \<open>While the browser asks to confirm, nothing else can be reached. \<open>None\<close>: a week that is no date raises.\<close>

definition meal_view ::
  "(int \<Rightarrow> int) \<Rightarrow> (string \<Rightarrow> string) \<Rightarrow> (string \<Rightarrow> string \<Rightarrow> string) \<Rightarrow> meal_page \<Rightarrow> meal_event ui list option" where
  "meal_view loc t ts s =
     (case mg_plan s of
        None \<Rightarrow> Some [Txt (t ''recipe.mealPlan''), Txt (t ''recipe.noMealPlanYet'')]
      | Some m \<Rightarrow>
          if mg_asking s then Some (confirm_dialog ''Delete this meal-plan entry?'' (DeleteConfirmed True) (DeleteConfirmed False))
          else map_option (\<lambda>rows.
              (case mg_toast s of None \<Rightarrow> [] | Some x \<Rightarrow> [Box ''ai-toast'' [Txt (toast_text x)]]) @
              shown_if (ui_error (mg_ui s) \<noteq> None) [Box ''error-alert'' []] @
              meal_header t ts (ml_week_of m) s @ day_heads @ concat rows @ meal_dialogs m s)
            (those (map (meal_row loc t (planned_recipes s) (ml_week_of m) (display_grid (mg_plan s) (mg_ui s)))
               (List.enumerate 0 (ml_rows m)))))"

section \<open>Lemmas\<close>

text \<open>A request that the screen may send: an entry in one of the four slots with usable amounts, or the removal of a known entry.\<close>

definition meal_request_ok :: "mutation \<Rightarrow> bool" where
  "meal_request_ok x \<longleftrightarrow>
     (\<exists>date slot rid. slot \<in> set slot_names \<and> x = use_upsert_meal_plan_entry date slot rid None None None) \<or>
     (\<exists>date slot rid m b l. slot \<in> set slot_names \<and> 0 < m \<and> 0 < b \<and> 0 \<le> l \<and>
        x = use_upsert_meal_plan_entry date slot rid (Some m) (Some b) (Some l)) \<or>
     (\<exists>i. i \<noteq> [] \<and> x = use_delete_meal_plan_entry i)"

lemma slot_of_row: "row_slot r \<in> set slot_names"
proof -
  have "''dinner'' \<in> set slot_names" by (simp add: slot_names_def)
  then show ?thesis by (simp add: row_slot_def)
qed

lemma upsert_ok: "slot \<in> set slot_names \<Longrightarrow> meal_request_ok (use_upsert_meal_plan_entry date slot rid None None None)"
  unfolding meal_request_ok_def by blast

lemma upsert_amounts_ok:
  "slot \<in> set slot_names \<Longrightarrow> 0 < m \<Longrightarrow> 0 < b \<Longrightarrow> 0 \<le> l \<Longrightarrow>
     meal_request_ok (use_upsert_meal_plan_entry date slot rid (Some m) (Some b) (Some l))"
  unfolding meal_request_ok_def by blast

lemma delete_ok: "i \<noteq> [] \<Longrightarrow> meal_request_ok (use_delete_meal_plan_entry i)"
  unfolding meal_request_ok_def by blast

lemma copies_ok:
  "\<forall>q \<in> set reqs. fst (snd q) \<in> set slot_names \<Longrightarrow> list_all meal_request_ok (fst (send_copies answers i reqs))"
proof (induction reqs arbitrary: i)
  case (Cons q reqs)
  then show ?case by (cases q; cases "fst q") (auto simp: Let_def upsert_ok)
qed simp

lemma copy_requests_slots: "q \<in> set (copy_requests loc w grid) \<Longrightarrow> fst (snd q) \<in> set slot_names"
  by (auto simp: copy_requests_def slot_of_row split: if_splits)

definition dated :: "(int \<Rightarrow> int) \<Rightarrow> meal_slot \<Rightarrow> bool" where
  "dated loc sl \<longleftrightarrow> (\<exists>w k. col_date loc w k = Some (sl_date sl))"

definition meal_page_ok :: "(int \<Rightarrow> int) \<Rightarrow> meal_page \<Rightarrow> bool" where
  "meal_page_ok loc s \<longleftrightarrow>
     list_all meal_request_ok (ui_calls (mg_ui s)) \<and>
     (\<forall>sl. ui_edit (mg_ui s) = Some sl \<or> ui_picker (mg_ui s) = Some sl \<longrightarrow> dated loc sl) \<and>
     (mg_form s \<noteq> None \<longrightarrow> ui_edit (mg_ui s) \<noteq> None \<and> mg_plan s \<noteq> None)"

definition meal_ui_ok :: "(int \<Rightarrow> int) \<Rightarrow> meal_ui \<Rightarrow> bool" where
  "meal_ui_ok loc u \<longleftrightarrow> list_all meal_request_ok (ui_calls u) \<and>
     (\<forall>sl. ui_edit u = Some sl \<or> ui_picker u = Some sl \<longrightarrow> dated loc sl)"

lemma meal_ui_of: "meal_page_ok loc s \<Longrightarrow> meal_ui_ok loc (mg_ui s)"
  by (simp add: meal_page_ok_def meal_ui_ok_def)

lemma mount_entry_ok: "meal_ui_ok loc (mg_ui s) \<Longrightarrow> meal_page_ok loc (mount_entry s)"
  by (auto simp: mount_entry_def meal_page_ok_def meal_ui_ok_def split: option.splits)

lemma same_edit_ok:
  "meal_page_ok loc s \<Longrightarrow> meal_ui_ok loc u \<Longrightarrow> ui_edit u = ui_edit (mg_ui s) \<Longrightarrow> meal_page_ok loc (s\<lparr>mg_ui := u\<rparr>)"
  by (simp add: meal_page_ok_def meal_ui_ok_def)

lemma ui_handlers_ok:
  assumes "meal_ui_ok loc u"
  shows "dated loc sl \<Longrightarrow> meal_ui_ok loc (open_picker p sl u)" "meal_ui_ok loc (clear_slot r c u)"
    "meal_ui_ok loc (pick_recipe loc p i u)" "meal_ui_ok loc (seed_grid p u)" "meal_ui_ok loc (mutation_failed x u)"
    "meal_ui_ok loc (handle_edit_delete p u)" "0 < m \<Longrightarrow> 0 < b \<Longrightarrow> 0 \<le> l \<Longrightarrow> meal_ui_ok loc (handle_edit_save p m b l u)"
    "meal_ui_ok loc (fst (handle_copy_last_week loc answers p q u))"
proof -
  note defs = meal_ui_ok_def open_picker_def clear_slot_def pick_recipe_def seed_grid_def mutation_failed_def
    handle_edit_delete_def handle_edit_save_def send_def Let_def
  show "meal_ui_ok loc (open_picker p sl u)" if "dated loc sl" using assms that by (auto simp: defs)
  show "meal_ui_ok loc (clear_slot r c u)" "meal_ui_ok loc (seed_grid p u)" "meal_ui_ok loc (mutation_failed x u)"
    using assms by (auto simp: defs split: option.splits)
  show "meal_ui_ok loc (pick_recipe loc p i u)"
    using assms by (auto simp: defs upsert_ok slot_of_row split: option.splits)
  show "meal_ui_ok loc (handle_edit_delete p u)"
    using assms by (auto simp: defs delete_ok split: option.splits)
  show "meal_ui_ok loc (handle_edit_save p m b l u)" if "0 < m" "0 < b" "0 \<le> l"
    using assms that by (auto simp: defs upsert_amounts_ok slot_of_row split: option.splits)
  show "meal_ui_ok loc (fst (handle_copy_last_week loc answers p q u))"
    using assms copies_ok[of "copy_requests loc w g" for w g] copy_requests_slots
    by (fastforce simp: handle_copy_last_week_def meal_ui_ok_def Let_def split: option.splits)
qed

lemma edit_values: "edit_entry_values f = (m, b, l) \<Longrightarrow> 0 < m \<and> 0 < b \<and> 0 \<le> l"
  using edit_values_usable[of f] by simp

text \<open>What the page offers: cells carry the date of their column, and only the user's events are reached.\<close>

fun meal_outside :: "meal_event \<Rightarrow> bool" where
  "meal_outside (OpenCell sl) = False"
| "meal_outside e = True"

lemma those_member: "those xs = Some ys \<Longrightarrow> y \<in> set ys \<Longrightarrow> Some y \<in> set xs"
proof (induction xs arbitrary: ys)
  case (Cons x xs)
  then show ?case by (cases x; cases "those xs") auto
qed simp

lemma meal_cell_offers:
  assumes "fire a (meal_cell recipes row r c date rid) = Some (OpenCell sl)"
  shows "sl = \<lparr>sl_row = r, sl_col = c, sl_date = date, sl_meal = row\<rparr>"
  using assms by (auto simp: meal_cell_def split: if_splits option.splits)

lemma meal_row_offers:
  assumes "meal_row loc t recipes w grid (r, row) = Some us" and "fire a us = Some (OpenCell sl)"
  shows "\<exists>c. sl_row sl = r \<and> sl_col sl = c \<and> sl_meal sl = row \<and> col_date loc w (int c) = Some (sl_date sl)"
proof -
  let ?f = "\<lambda>(c, rid). map_option (\<lambda>date. meal_cell recipes row r c date rid) (col_date loc w (int c))"
  from assms(1) obtain cells where c: "those (map ?f (List.enumerate 0 (if r < length grid then grid ! r else []))) = Some cells"
    and us: "us = Txt (row_label t row) # concat cells"
    by (auto simp: meal_row_def)
  from assms(2) us obtain cell where m: "cell \<in> set cells" and f: "fire a cell = Some (OpenCell sl)"
    by (auto dest: fire_concat)
  from those_member[OF c m] obtain k rid where "Some cell = ?f (k, rid)" by (auto split: prod.splits)
  then obtain date where d: "col_date loc w (int k) = Some date" and "cell = meal_cell recipes row r k date rid"
    by (cases "col_date loc w (int k)") auto
  with meal_cell_offers[of a recipes row r k date rid sl] f show ?thesis by simp
qed

lemma fixed_parts_offer:
  "fire a (meal_header t ts w s) = Some e \<Longrightarrow> meal_outside e"
  "fire a day_heads = None"
  "fire a (meal_dialogs m s) = Some e \<Longrightarrow> meal_outside e"
proof -
  show "fire a (meal_header t ts w s) = Some e \<Longrightarrow> meal_outside e"
    by (auto simp: meal_header_def fire_append split: if_splits)
  show "fire a day_heads = None" by (simp add: day_heads_def)
  have p: "fire a (map (\<lambda>x. Btn (n x) (l x) True (ChooseRecipe (rc_id x))) rs) = Some e \<Longrightarrow> meal_outside e"
    for n l :: "recipe \<Rightarrow> string" and rs by (induction rs) (auto split: if_splits)
  have "fire a (recipe_picker rs sl) = Some e \<Longrightarrow> meal_outside e" for rs sl
    by (auto simp: recipe_picker_def fire_append dest: p split: if_splits option.splits)
  moreover have "fire a (entry_popover title busy f) = Some e \<Longrightarrow> meal_outside e" for title busy f
    by (auto simp: entry_popover_def split: if_splits act.splits)
  ultimately show "fire a (meal_dialogs m s) = Some e \<Longrightarrow> meal_outside e"
    by (auto simp: meal_dialogs_def fire_append split: option.splits)
qed

lemma meal_offers:
  assumes "fire a (shown_ui (meal_view loc t ts s)) = Some (OpenCell sl)"
  shows "\<exists>m. mg_plan s = Some m \<and> col_date loc (ml_week_of m) (int (sl_col sl)) = Some (sl_date sl)"
proof -
  from assms obtain us where v: "meal_view loc t ts s = Some us" and f: "fire a us = Some (OpenCell sl)"
    by (auto simp: shown_ui_def split: option.splits)
  then obtain m where m: "mg_plan s = Some m" by (auto simp: meal_view_def split: option.splits)
  let ?rows = "those (map (meal_row loc t (planned_recipes s) (ml_week_of m) (display_grid (mg_plan s) (mg_ui s))) (List.enumerate 0 (ml_rows m)))"
  have na: "\<not> mg_asking s"
    using v f m by (auto simp: meal_view_def confirm_dialog_def split: if_splits)
  then obtain rows where r: "?rows = Some rows" using v m by (auto simp: meal_view_def)
  have d: "fire a (meal_dialogs m s) \<noteq> Some (OpenCell sl)" "fire a (meal_header t ts (ml_week_of m) s) \<noteq> Some (OpenCell sl)"
    using fixed_parts_offer(1,3) by fastforce+
  have "fire a (concat rows) = Some (OpenCell sl)"
  proof (cases "mg_toast s")
    case None
    with v f d show ?thesis
      by (auto simp: meal_view_def m na r[unfolded m] fire_append fixed_parts_offer(2) split: option.splits if_splits)
  next
    case (Some x)
    with v f d show ?thesis
      by (auto simp: meal_view_def m na r[unfolded m] fire_append fixed_parts_offer(2) split: option.splits if_splits)
  qed
  then obtain us' where u: "us' \<in> set rows" "fire a us' = Some (OpenCell sl)" by (auto dest: fire_concat)
  from those_member[OF r u(1)] obtain ri row where
    "meal_row loc t (planned_recipes s) (ml_week_of m) (display_grid (mg_plan s) (mg_ui s)) (ri, row) = Some us'" by auto
  from meal_row_offers[OF this u(2)] m show ?thesis by auto
qed

lemma meal_step_ok:
  assumes s: "meal_page_ok loc s" and e: "\<And>sl. e = OpenCell sl \<Longrightarrow> dated loc sl"
  shows "meal_page_ok loc (meal_step loc ready e s)"
proof -
  note u = meal_ui_of[OF s]
  show ?thesis
  proof (cases e)
    case SaveEntry
    have "meal_ui_ok loc (mg_ui (save_entry s))"
    proof (cases "mg_form s")
      case (Some f)
      obtain m b l where v: "edit_entry_values f = (m, b, l)" by (cases "edit_entry_values f")
      from edit_values[OF v] u show ?thesis by (simp add: save_entry_def Some v ui_handlers_ok(7))
    qed (simp add: save_entry_def u)
    then show ?thesis unfolding SaveEntry by (simp add: mount_entry_ok)
  next
    case (DeleteConfirmed ok)
    have "meal_ui_ok loc (mg_ui (delete_entry s))"
      using u by (auto simp: delete_entry_def Let_def intro: ui_handlers_ok(6))
    with u show ?thesis unfolding DeleteConfirmed by (simp add: mount_entry_ok)
  next
    case (CopyRan answers)
    let ?h = "handle_copy_last_week loc (\<lambda>i. i < length answers \<and> answers ! i) (mg_plan s) (mg_last s) (mg_ui s)"
    have "ui_edit (fst ?h) = ui_edit (mg_ui s)"
      by (simp add: handle_copy_last_week_def Let_def split: option.splits)
    with same_edit_ok[OF s ui_handlers_ok(8)[OF u]] have "meal_page_ok loc (s\<lparr>mg_ui := fst ?h\<rparr>)" by blast
    then show ?thesis unfolding CopyRan
      by (cases ?h) (use s in \<open>simp add: copy_ran_def meal_page_ok_def\<close>)
  next
    case (ChooseRecipe i)
    have "ui_edit (pick_recipe loc (mg_plan s) i (mg_ui s)) = ui_edit (mg_ui s)"
      by (simp add: pick_recipe_def send_def Let_def split: option.splits)
    with ui_handlers_ok(3)[OF u, of "mg_plan s" i] s show ?thesis
      unfolding ChooseRecipe by (simp add: meal_page_ok_def meal_ui_ok_def)
  next
    case (PlanArrived p)
    then show ?thesis using ui_handlers_ok(4)[OF u] by (simp add: mount_entry_ok)
  next
    case (OpenCell sl)
    then show ?thesis using ui_handlers_ok(1)[OF u e] by (simp add: mount_entry_ok)
  next
    case CancelEntry
    then show ?thesis using u by (simp add: mount_entry_ok meal_ui_ok_def)
  next
    case (UpsertSettled x)
    then show ?thesis using s by (auto simp: meal_page_ok_def mutation_failed_def split: option.splits)
  next
    case (DeleteSettled x)
    then show ?thesis using s by (auto simp: meal_page_ok_def mutation_failed_def split: option.splits)
  qed (use s in \<open>simp_all add: meal_page_ok_def on_form_def clear_slot_def\<close>)
qed

interpretation meal_screen: screen "\<lambda>s. shown_ui (meal_view loc t ts s)" "meal_step loc ready" meal_outside "meal_page_ok loc"
  for loc t ts ready
proof unfold_locales
  fix s a e assume s: "meal_page_ok loc s" and f: "fire a (shown_ui (meal_view loc t ts s)) = Some e"
  show "meal_page_ok loc (meal_step loc ready e s)"
  proof (rule meal_step_ok[OF s])
    fix sl assume "e = OpenCell sl"
    with f have "fire a (shown_ui (meal_view loc t ts s)) = Some (OpenCell sl)" by simp
    from meal_offers[OF this] show "dated loc sl" by (auto simp: dated_def)
  qed
next
  fix s e assume "meal_page_ok loc s" and "meal_outside e"
  then show "meal_page_ok loc (meal_step loc ready e s)" by (intro meal_step_ok) auto
qed

section \<open>Properties\<close>

text \<open>
  However the page of the meal plan is used and whatever arrives meanwhile, every request it sends puts an entry
  into one of the four slots, with a positive multiplier, a positive number of batches and no negative
  leftovers where it names them, or removes an entry by an id that is not empty; a dialog that is open
  belongs to a date that was computed from a week.
\<close>

theorem meal_plan_requests:
  assumes "list_all (use_legal meal_outside) us"
    and "s = run (use_step (\<lambda>s. shown_ui (meal_view loc t ts s)) (meal_step loc ready)) us (meal_mount now)"
  shows "(\<forall>x \<in> set (ui_calls (mg_ui s)).
      (\<exists>date slot rid. slot \<in> set slot_names \<and> x = use_upsert_meal_plan_entry date slot rid None None None) \<or>
      (\<exists>date slot rid m b l. slot \<in> set slot_names \<and> 0 < m \<and> 0 < b \<and> 0 \<le> l \<and>
         x = use_upsert_meal_plan_entry date slot rid (Some m) (Some b) (Some l)) \<or>
      (\<exists>i. i \<noteq> [] \<and> x = use_delete_meal_plan_entry i)) \<and>
    (\<forall>sl. ui_edit (mg_ui s) = Some sl \<or> ui_picker (mg_ui s) = Some sl \<longrightarrow> (\<exists>w k. col_date loc w k = Some (sl_date sl)))"
proof -
  have "meal_page_ok loc s" unfolding assms(2)
    by (rule meal_screen.always[OF _ assms(1)]) (simp add: meal_page_ok_def meal_mount_def initial_meal_ui_def)
  then show ?thesis by (simp add: meal_page_ok_def list_all_iff meal_request_ok_def dated_def)
qed

text \<open>
  A planned recipe that is not in the list of recipes, for instance while that list is loading, is drawn as
  an empty cell; a press on it opens the popover of the planned entry and not the picker.
\<close>

lemma unknown_recipe_cell:
  assumes "grid_cell (display_grid (mg_plan s) (mg_ui s)) r c = Some i" and "i \<noteq> []" and "i \<notin> rc_id ` set recipes"
    and "sl = \<lparr>sl_row = r, sl_col = c, sl_date = date, sl_meal = row\<rparr>"
  shows "meal_cell recipes row r c date (Some i) = meal_cell recipes row r c date None \<and>
    ui_edit (mg_ui (meal_step loc ready (OpenCell sl) s)) = Some sl \<and>
    ui_picker (mg_ui (meal_step loc ready (OpenCell sl) s)) = ui_picker (mg_ui s)"
proof -
  have "find (\<lambda>x. rc_id x = i) recipes = None" using assms(3) by (auto simp: find_None_iff)
  then show ?thesis
    using assms by (auto simp: meal_cell_def open_picker_def mount_entry_def split: option.splits)
qed

end
