(* ===== verification/CollectionScreens.thy ===== *)
theory CollectionScreens
  imports Collections RecipeScreens
begin

text \<open>
  The page of the recipes with its collections as it is rendered and used
  (\<^verbatim>\<open>web/src/components/screens/recipe-collections.tsx\<close>, \<^verbatim>\<open>recipes-with-collections.tsx\<close>): the sidebar, the
  menu on a card, the dialog for a new collection. Also the review of a smart import
  (\<^verbatim>\<open>components/recipes/SmartImportReview.tsx\<close>). Their handlers are those of \<open>Collections\<close> and
  \<open>RecipeForms\<close>.
\<close>

section \<open>The page\<close>

record col_row =
  cl_id :: string
  cl_name :: string

text \<open>The dialog for a new collection is mounted from the sidebar or from the menu of a card.\<close>

datatype dialog_owner = OfSidebar | OfMenu

datatype cols_event =
    NewCollection dialog_owner
  | CloseDialog dialog_owner
  | NameCollection dialog_owner string
  | SubmitCollection dialog_owner
  | SelectCol "string option"
  | DeleteCol string
  | PressMenu string
  | CloseMenu
  | TapCol string
  | RetryRecipes
  | CreateAnswered dialog_owner nat bool
  | MenuAnswered nat bool
  | ColsArrived "col_row list"
  | CardsArrived "recipe list"

text \<open>
  A mounted dialog has the number of its last request while that is under way; a dialog that is closed no longer
  hears of it. \<open>cu_menu\<close> is the menu of the recipe \<open>cp_menu\<close>, mounted afresh whenever it opens.
\<close>

type_synonym create_dialog = "create_collection \<times> nat option"

record cols_use =
  cu_page :: collections_page
  cu_menu :: add_menu
  cu_side :: "create_dialog option"
  cu_card :: "create_dialog option"
  cu_cols :: "col_row list"
  cu_recipes :: "recipe list"
  cu_sent :: "mutation list"

definition cols_mount :: cols_use where
  "cols_mount = \<lparr>cu_page = \<lparr>cp_selected = None, cp_menu = None\<rparr>, cu_menu = open_menu {}, cu_side = None, cu_card = None,
     cu_cols = [], cu_recipes = [], cu_sent = []\<rparr>"

definition new_dialog :: create_dialog where
  "new_dialog = (\<lparr>cr_name = [], cr_error = [], cr_open = True\<rparr>, None)"

definition dialog_of :: "dialog_owner \<Rightarrow> cols_use \<Rightarrow> create_dialog option" where
  "dialog_of w s = (case w of OfSidebar \<Rightarrow> cu_side s | OfMenu \<Rightarrow> cu_card s)"

definition set_dialog :: "dialog_owner \<Rightarrow> create_dialog option \<Rightarrow> cols_use \<Rightarrow> cols_use" where
  "set_dialog w d s = (case w of OfSidebar \<Rightarrow> s\<lparr>cu_side := d\<rparr> | OfMenu \<Rightarrow> s\<lparr>cu_card := d\<rparr>)"

definition send_col :: "mutation \<Rightarrow> cols_use \<Rightarrow> cols_use" where
  "send_col m s = s\<lparr>cu_sent := cu_sent s @ [m]\<rparr>"

text \<open>The dialog in the menu goes with it.\<close>

definition on_page :: "(collections_page \<Rightarrow> collections_page) \<Rightarrow> cols_use \<Rightarrow> cols_use" where
  "on_page f s =
     (let p = f (cu_page s)
      in if cp_menu p = cp_menu (cu_page s) then s\<lparr>cu_page := p\<rparr>
         else s\<lparr>cu_page := p, cu_menu := open_menu {}, cu_card := None\<rparr>)"

fun cols_step :: "cols_event \<Rightarrow> cols_use \<Rightarrow> cols_use" where
  "cols_step (NewCollection w) s = (if dialog_of w s = None then set_dialog w (Some new_dialog) s else s)"
| "cols_step (CloseDialog w) s = set_dialog w None s"
| "cols_step (NameCollection w v) s = set_dialog w (map_option (apfst (type_collection_name v)) (dialog_of w s)) s"
| "cols_step (SubmitCollection w) s =
     (case dialog_of w s of
        None \<Rightarrow> s
      | Some (d, n) \<Rightarrow>
          (case submit_collection d of
             (d', None) \<Rightarrow> set_dialog w (Some (d', n)) s
           | (d', Some m) \<Rightarrow> send_col m (set_dialog w (Some (d', Some (length (cu_sent s)))) s)))"
| "cols_step (SelectCol i) s = on_page (select_collection i) s"
| "cols_step (DeleteCol i) s = send_col (delete_collection i) s"
| "cols_step (PressMenu i) s = on_page (press_menu i) s"
| "cols_step CloseMenu s = on_page (\<lambda>p. p\<lparr>cp_menu := None\<rparr>) s"
| "cols_step (TapCol c) s =
     (case cp_menu (cu_page s) of
        None \<Rightarrow> s
      | Some r \<Rightarrow>
          send_col (op_request r (if c \<in> am_assigned (cu_menu s) then Unassign c else Assign c))
            (s\<lparr>cu_menu := toggle_col c (cu_menu s)\<rparr>))"
| "cols_step RetryRecipes s = s"
| "cols_step (CreateAnswered w n ok) s =
     (case dialog_of w s of
        None \<Rightarrow> s
      | Some (d, m) \<Rightarrow>
          if m = Some n
          then set_dialog w (if cr_open (collection_answered ok d) then Some (collection_answered ok d, None) else None) s
          else s)"
| "cols_step (MenuAnswered i ok) s = s\<lparr>cu_menu := col_answer i ok (cu_menu s)\<rparr>"
| "cols_step (ColsArrived cs) s = s\<lparr>cu_cols := cs\<rparr>"
| "cols_step (CardsArrived rs) s = s\<lparr>cu_recipes := rs\<rparr>"

section \<open>What is rendered\<close>

text \<open>The Enter key in the field of a dialog submits it like the button does.\<close>

definition create_view :: "dialog_owner \<Rightarrow> create_dialog \<Rightarrow> cols_event ui list" where
  "create_view w dn =
     (let (d, pending) = dn in
     [Btn ''create-collection-modal'' [] True (CloseDialog w), Txt ''New collection'',
      Field ''collection-name-input'' (cr_name d) (NameCollection w),
      Btn ''enter:collection-name-input'' [] True (SubmitCollection w)] @
     shown_some (Some (cr_error d)) @
     [Btn ''cancel-collection'' ''Cancel'' True (CloseDialog w),
      Btn ''create-collection'' (if pending \<noteq> None then ''Creating'' @ dots else ''Create'') True (SubmitCollection w)])"

definition menu_row :: "add_menu \<Rightarrow> col_row \<Rightarrow> cols_event ui list" where
  "menu_row m c =
     [Btn (''assign-collection-'' @ cl_id c) (cl_name c) (am_busy m \<noteq> Some (cl_id c)) (TapCol (cl_id c))] @
     shown_if (cl_id c \<in> am_assigned m) [Box ''check'' []] @ shown_if (am_busy m = Some (cl_id c)) [Txt dots]"

definition menu_view :: "cols_use \<Rightarrow> cols_event ui list" where
  "menu_view s =
     [Btn ''add-to-collection-menu'' [] True CloseMenu, Txt ''Add to collection''] @
     shown_if (cu_cols s = []) [Txt ''No collections yet''] @
     concat (map (menu_row (cu_menu s)) (cu_cols s)) @
     [Btn ''create-new-collection-btn'' ''New collection'' True (NewCollection OfMenu)] @
     (case cu_card s of None \<Rightarrow> [] | Some d \<Rightarrow> create_view OfMenu d)"

definition sidebar_row :: "col_row \<Rightarrow> cols_event ui list" where
  "sidebar_row c =
     [Btn (''collection-item-'' @ cl_id c) (cl_name c) True (SelectCol (Some (cl_id c))),
      Btn (''delete-collection-'' @ cl_id c) times_sign True (DeleteCol (cl_id c))]"

definition sidebar_view :: "cols_use \<Rightarrow> cols_event ui list" where
  "sidebar_view s =
     [Txt ''Collections'', Btn ''new-collection-btn'' [] True (NewCollection OfSidebar),
      Btn ''collection-all'' ''All recipes'' True (SelectCol None)] @
     concat (map sidebar_row (cu_cols s)) @
     (case cu_side s of None \<Rightarrow> [] | Some d \<Rightarrow> create_view OfSidebar d)"

definition collection_view :: "bool \<Rightarrow> recipe list \<Rightarrow> 'e ui list" where
  "collection_view loading recipes =
     (if loading then [Txt (''Loading'' @ dots)]
      else if recipes = [] then
        [Box ''empty-collection'' [Txt ''No recipes in this collection yet. Use the menu on a recipe card to add one.'']]
      else concat (map (\<lambda>r. Link (rc_title r) (''/recipes/'' @ rc_id r) # shown_some (rc_source r)) recipes))"

definition jsx_num :: "rat option \<Rightarrow> string" where
  "jsx_num x = (case x of None \<Rightarrow> [] | Some v \<Rightarrow> num_str v)"

text \<open>A card reads \<^verbatim>\<open>r.tag.slice\<close>: \<open>None\<close> is the TypeError of a recipe without tags.\<close>

definition recipe_card :: "cols_use \<Rightarrow> recipe \<Rightarrow> cols_event ui list option" where
  "recipe_card s r =
     map_option (\<lambda>tags.
         [Link (rc_title r) (''/recipes/'' @ rc_id r)] @ shown_some (rc_source r) @
         [Txt (jsx_num (rc_total r) @ ''m''), Txt (jsx_num (rc_serves r)), Txt (jsx_num (rc_rating r) @ ''/5'')] @
         map (\<lambda>x. Txt (''#'' @ x)) (take 2 tags) @
         [Btn (''collection-menu-btn-'' @ rc_id r) [] True (PressMenu (rc_id r))] @
         shown_if (cp_menu (cu_page s) = Some (rc_id r)) (menu_view s))
       (rc_tag r)"

definition recipes_grid :: "cols_use \<Rightarrow> cols_event ui list option" where
  "recipes_grid s =
     map_option (\<lambda>cards. Txt ''All Recipes'' #
         shown_if (cu_recipes s = []) [Txt ''No recipes yet. Add recipes from your household account.''] @ concat cards)
       (those (map (recipe_card s) (cu_recipes s)))"

text \<open>\<open>shown\<close> is what the query of the selected collection has delivered.\<close>

definition cols_view ::
  "jsval option \<Rightarrow> bool \<Rightarrow> bool \<Rightarrow> recipe list \<Rightarrow> cols_use \<Rightarrow> cols_event ui list option" where
  "cols_view err pending loading shown s =
     (case err of
        Some e \<Rightarrow> Some (error_state ''Unable to load recipes'' e RetryRecipes)
      | None \<Rightarrow>
          if pending then Some [Txt ''Loading recipes...'']
          else map_option (\<lambda>body. [Link (left_arrow @ '' Home'') ''/'', Link ''+ Add recipe'' ''/recipes/import''] @
                  sidebar_view s @ body)
            (case cp_selected (cu_page s) of
               Some _ \<Rightarrow> Some (Txt ''Collection recipes'' # collection_view loading shown)
             | None \<Rightarrow> recipes_grid s))"

section \<open>The review of a smart import\<close>

datatype review_event =
    ReviewTitle string
  | ReviewDescription string
  | ReviewTags string
  | ReviewCategories string
  | ReviewDifficulty string
  | ConfirmReview
  | CancelReview
  | ReviewSaved

record review_use =
  ru_form :: import_review
  ru_busy :: bool
  ru_sent :: "import_draft list"
  ru_cancelled :: nat

definition review_mount :: "import_draft \<Rightarrow> import_draft option \<Rightarrow> review_use" where
  "review_mount d n = \<lparr>ru_form = open_review d n, ru_busy = False, ru_sent = [], ru_cancelled = 0\<rparr>"

fun review_step :: "review_event \<Rightarrow> review_use \<Rightarrow> review_use" where
  "review_step (ReviewTitle v) s = s\<lparr>ru_form := (ru_form s)\<lparr>ir_title := v\<rparr>\<rparr>"
| "review_step (ReviewDescription v) s = s\<lparr>ru_form := (ru_form s)\<lparr>ir_description := v\<rparr>\<rparr>"
| "review_step (ReviewTags v) s = s\<lparr>ru_form := (ru_form s)\<lparr>ir_tags_csv := v\<rparr>\<rparr>"
| "review_step (ReviewCategories v) s = s\<lparr>ru_form := (ru_form s)\<lparr>ir_categories_csv := v\<rparr>\<rparr>"
| "review_step (ReviewDifficulty v) s = s\<lparr>ru_form := (ru_form s)\<lparr>ir_difficulty := v\<rparr>\<rparr>"
| "review_step ConfirmReview s =
     (case handle_confirm (ru_form s) of
        None \<Rightarrow> s
      | Some d \<Rightarrow> s\<lparr>ru_busy := True, ru_sent := ru_sent s @ [d]\<rparr>)"
| "review_step CancelReview s = s\<lparr>ru_cancelled := ru_cancelled s + 1\<rparr>"
| "review_step ReviewSaved s = s\<lparr>ru_busy := False\<rparr>"

text \<open>\<open>badge\<close> is \<open>ai_badge\<close>; \<open>photo\<close> is the address of the picture of a draft read from a photo.\<close>

definition review_view :: "string option \<Rightarrow> string option \<Rightarrow> bool \<Rightarrow> string option \<Rightarrow> review_use \<Rightarrow> review_event ui list" where
  "review_view badge aiError from_photo photo s =
     (let f = ru_form s
      in Txt ''Review draft'' # shown_some badge @ shown_if from_photo [Txt ''from photo''] @
         shown_if (truthy aiError)
           [Box ''smart-import-ai-error''
              [Txt (''AI couldn'' @ [CHR 0xE2, CHR 0x80, CHR 0x99] @ ''t tidy this draft '' @ em_dash @ '' review the raw fields below.'')]] @
         shown_if (from_photo \<and> truthy photo) [Box ''smart-import-photo-preview'' []] @
         [Txt ''Title'', Field ''Recipe title'' (ir_title f) ReviewTitle,
          Txt ''Description'', Field ''Recipe description'' (ir_description f) ReviewDescription,
          Txt ''Tags (comma-separated)'', Field ''Recipe tags'' (ir_tags_csv f) ReviewTags,
          Txt ''Categories (comma-separated)'', Field ''Recipe categories'' (ir_categories_csv f) ReviewCategories,
          Txt ''Difficulty'', Pick ''Recipe difficulty'' (ir_difficulty f) [''easy'', ''medium'', ''hard''] ReviewDifficulty,
          Btn ''smart-import-cancel'' ''Cancel'' True CancelReview,
          Btn ''smart-import-confirm'' (if ru_busy s then ''Saving'' @ dots else ''Confirm and save'')
            (\<not> (ru_busy s \<or> trim (ir_title f) = [])) ConfirmReview])"

section \<open>Lemmas\<close>

text \<open>A request of the page: a new collection with a name, the end of one that is listed, a recipe in or out of one.\<close>

definition known_cols :: "cols_use \<Rightarrow> string set" where
  "known_cols s = cl_id ` set (cu_cols s)"

definition col_request_ok :: "string set \<Rightarrow> string set \<Rightarrow> mutation \<Rightarrow> bool" where
  "col_request_ok C R m \<longleftrightarrow>
     (\<exists>v. trim v \<noteq> [] \<and> m = use_create_collection [(''name'', JStr (trim v))]) \<or>
     (\<exists>c \<in> C. m = use_delete_collection c) \<or>
     (\<exists>c \<in> C. \<exists>r \<in> R. m = op_request r (Assign c) \<or> m = op_request r (Unassign c))"

fun cols_offered :: "cols_event \<Rightarrow> cols_use \<Rightarrow> bool" where
  "cols_offered (DeleteCol i) s \<longleftrightarrow> i \<in> known_cols s"
| "cols_offered (TapCol i) s \<longleftrightarrow> i \<in> known_cols s"
| "cols_offered (PressMenu i) s \<longleftrightarrow> i \<in> rc_id ` set (cu_recipes s)"
| "cols_offered (ColsArrived cs) s \<longleftrightarrow> False"
| "cols_offered (CardsArrived rs) s \<longleftrightarrow> False"
| "cols_offered e s \<longleftrightarrow> True"

lemma create_offers: "fire a (create_view w d) = Some e \<Longrightarrow> cols_offered e s"
  by (cases d) (auto simp: create_view_def fire_append split: if_splits act.splits)

lemma menu_row_offers: "fire a (menu_row m c) = Some e \<Longrightarrow> e = TapCol (cl_id c)"
  by (auto simp: menu_row_def fire_append split: if_splits)

lemma sidebar_row_offers: "fire a (sidebar_row c) = Some e \<Longrightarrow> e \<in> {SelectCol (Some (cl_id c)), DeleteCol (cl_id c)}"
  by (auto simp: sidebar_row_def split: if_splits)

lemma menu_offers: "fire a (menu_view s) = Some e \<Longrightarrow> cols_offered e s"
  by (auto simp: menu_view_def fire_append known_cols_def dest!: fire_items menu_row_offers intro: create_offers
      split: if_splits option.splits)

lemma sidebar_offers: "fire a (sidebar_view s) = Some e \<Longrightarrow> cols_offered e s"
  by (auto simp: sidebar_view_def fire_append known_cols_def dest!: fire_items sidebar_row_offers intro: create_offers
      split: if_splits option.splits)

lemma card_offers: "recipe_card s r = Some us \<Longrightarrow> r \<in> set (cu_recipes s) \<Longrightarrow> fire a us = Some e \<Longrightarrow> cols_offered e s"
  by (auto simp: recipe_card_def fire_append dest!: menu_offers split: if_splits option.splits)

lemma fire_links [simp]: "fire a (concat (map (\<lambda>r. Link (g r) (h r) # shown_some (k r)) rs)) = None"
  by (induction rs) (simp_all add: fire_append)

lemma collection_view_offers [simp]: "fire a (collection_view loading rs) = None"
  using fire_links[of a rc_title "\<lambda>r. ''/recipes/'' @ rc_id r" rc_source rs] by (simp add: collection_view_def)

lemma those_items: "those (map f xs) = Some ys \<Longrightarrow> y \<in> set ys \<Longrightarrow> \<exists>x \<in> set xs. f x = Some y"
proof (induction xs arbitrary: ys)
  case (Cons x xs)
  then show ?case by (cases "f x"; cases "those (map f xs)") auto
qed simp

lemma grid_offers: "recipes_grid s = Some us \<Longrightarrow> fire a us = Some e \<Longrightarrow> cols_offered e s"
proof -
  assume g: "recipes_grid s = Some us" and f: "fire a us = Some e"
  then obtain cards where c: "those (map (recipe_card s) (cu_recipes s)) = Some cards" and "fire a (concat cards) = Some e"
    by (auto simp: recipes_grid_def fire_append split: if_splits)
  then obtain card where "card \<in> set cards" "fire a card = Some e" by (auto dest: fire_concat)
  with those_items[OF c] show ?thesis by (auto intro: card_offers)
qed

lemma cols_offers:
  assumes "fire a (shown_ui (cols_view err pending loading shown s)) = Some e"
  shows "cols_offered e s"
proof -
  obtain us where v: "cols_view err pending loading shown s = Some us" "fire a us = Some e"
    using assms by (auto simp: shown_ui_def split: option.splits)
  show ?thesis
  proof (cases "err = None \<and> \<not> pending")
    case False
    with v show ?thesis by (auto simp: cols_view_def error_state_def split: option.splits if_splits)
  next
    case True
    then obtain body where u: "us = [Link (left_arrow @ '' Home'') ''/'', Link ''+ Add recipe'' ''/recipes/import''] @ sidebar_view s @ body"
      and b: "(case cp_selected (cu_page s) of Some _ \<Rightarrow> Some (Txt ''Collection recipes'' # collection_view loading shown)
             | None \<Rightarrow> recipes_grid s) = Some body"
      using v(1) by (auto simp: cols_view_def)
    show ?thesis
    proof (cases "fire a (sidebar_view s)")
      case (Some e')
      with v(2) u have "fire a (sidebar_view s) = Some e" by (simp add: fire_append)
      then show ?thesis by (rule sidebar_offers)
    next
      case None
      with v(2) u have "fire a body = Some e" by (simp add: fire_append)
      with b show ?thesis by (auto intro: grid_offers split: option.splits)
    qed
  qed
qed

text \<open>The sets of collections and recipes that the server ever listed bound what is asked for.\<close>

definition cols_ok :: "string set \<Rightarrow> string set \<Rightarrow> cols_use \<Rightarrow> bool" where
  "cols_ok C R s \<longleftrightarrow> known_cols s \<subseteq> C \<and> rc_id ` set (cu_recipes s) \<subseteq> R \<and>
     (\<forall>r. cp_menu (cu_page s) = Some r \<longrightarrow> r \<in> R) \<and> (\<forall>m \<in> set (cu_sent s). col_request_ok C R m)"

fun cols_outside :: "string set \<Rightarrow> string set \<Rightarrow> cols_event \<Rightarrow> bool" where
  "cols_outside C R (ColsArrived cs) \<longleftrightarrow> cl_id ` set cs \<subseteq> C"
| "cols_outside C R (CardsArrived rs) \<longleftrightarrow> rc_id ` set rs \<subseteq> R"
| "cols_outside C R (CreateAnswered w n ok) \<longleftrightarrow> True"
| "cols_outside C R (MenuAnswered i ok) \<longleftrightarrow> True"
| "cols_outside C R e \<longleftrightarrow> False"

lemma set_dialog_keeps [simp]:
  "cu_page (set_dialog w d s) = cu_page s" "cu_sent (set_dialog w d s) = cu_sent s"
  "cu_cols (set_dialog w d s) = cu_cols s" "cu_recipes (set_dialog w d s) = cu_recipes s"
  by (simp_all add: set_dialog_def split: dialog_owner.splits)

lemma set_dialog_ok [simp]: "cols_ok C R (set_dialog w d s) = cols_ok C R s"
  by (simp add: cols_ok_def known_cols_def)

lemma on_page_ok:
  "cols_ok C R s \<Longrightarrow> (\<And>r. cp_menu (f (cu_page s)) = Some r \<Longrightarrow> r \<in> R) \<Longrightarrow> cols_ok C R (on_page f s)"
  by (auto simp: cols_ok_def known_cols_def on_page_def Let_def)

lemma send_col_ok: "cols_ok C R s \<Longrightarrow> col_request_ok C R m \<Longrightarrow> cols_ok C R (send_col m s)"
  by (auto simp: cols_ok_def known_cols_def send_col_def)

lemma submit_ok: "submit_collection d = (d', Some m) \<Longrightarrow> col_request_ok C R m"
  by (auto simp: submit_collection_def col_request_ok_def split: if_splits)

lemma cols_step_ok:
  assumes s: "cols_ok C R s" and e: "cols_offered e s \<or> cols_outside C R e"
  shows "cols_ok C R (cols_step e s)"
proof (cases e)
  case (SubmitCollection w)
  then show ?thesis
    using s by (auto intro!: send_col_ok dest: submit_ok split: option.splits prod.splits)
next
  case (DeleteCol i)
  with s e have "i \<in> C" by (auto simp: cols_ok_def)
  then show ?thesis
    using DeleteCol s by (auto intro!: send_col_ok simp: delete_collection_def col_request_ok_def)
next
  case (TapCol c)
  with s e have c: "c \<in> C" by (auto simp: cols_ok_def)
  show ?thesis
  proof (cases "cp_menu (cu_page s)")
    case (Some r)
    with s have "r \<in> R" by (simp add: cols_ok_def)
    with c have "col_request_ok C R (op_request r (if c \<in> am_assigned (cu_menu s) then Unassign c else Assign c))"
      by (auto simp: col_request_ok_def)
    moreover have "cols_ok C R (s\<lparr>cu_menu := toggle_col c (cu_menu s)\<rparr>)" using s by (simp add: cols_ok_def known_cols_def)
    ultimately show ?thesis by (simp add: TapCol Some send_col_ok)
  qed (use s TapCol in simp)
next
  case (PressMenu i)
  with s e have "i \<in> R" by (auto simp: cols_ok_def)
  with s show ?thesis by (auto simp: PressMenu press_menu_def intro!: on_page_ok split: if_splits)
next
  case (SelectCol i)
  with s show ?thesis by (auto simp: select_collection_def intro!: on_page_ok)
next
  case CloseMenu
  with s show ?thesis by (auto intro!: on_page_ok)
next
  case (CreateAnswered w n ok)
  with s show ?thesis by (auto split: option.splits)
qed (use s e in \<open>auto simp: cols_ok_def known_cols_def\<close>)

interpretation cols_screen: screen "\<lambda>s. shown_ui (cols_view err pending loading shown s)" cols_step "cols_outside C R" "cols_ok C R"
  for err pending loading shown C R
proof unfold_locales
  fix s a e assume s: "cols_ok C R s" and f: "fire a (shown_ui (cols_view err pending loading shown s)) = Some e"
  from cols_step_ok[OF s] cols_offers[OF f] show "cols_ok C R (cols_step e s)" by blast
qed (auto intro: cols_step_ok)

section \<open>Properties\<close>

text \<open>
  However the page is used: a new collection is asked for with a trimmed name that is not empty, only a
  collection that was listed is deleted, and only recipes that were listed go into or out of one.
\<close>

theorem collection_page_requests:
  assumes "list_all (use_legal (cols_outside C R)) us"
    and "m \<in> set (cu_sent (run (use_step (\<lambda>s. shown_ui (cols_view err pending loading shown s)) cols_step) us cols_mount))"
  shows "(\<exists>v. trim v \<noteq> [] \<and> m = use_create_collection [(''name'', JStr (trim v))]) \<or>
    (\<exists>c \<in> C. m = use_delete_collection c) \<or>
    (\<exists>c \<in> C. \<exists>r \<in> R. m = op_request r (Assign c) \<or> m = op_request r (Unassign c))"
proof -
  have "cols_ok C R (run (use_step (\<lambda>s. shown_ui (cols_view err pending loading shown s)) cols_step) us cols_mount)"
    by (rule cols_screen.always[OF _ assms(1)]) (simp add: cols_ok_def cols_mount_def known_cols_def)
  with assms(2) show ?thesis unfolding cols_ok_def col_request_ok_def by blast
qed

text \<open>
  The button of the dialog is not disabled while a collection is being created: a second press asks for a
  second collection of the same name. Deleting the selected collection leaves it selected.
\<close>

lemma pressed_twice_created_twice:
  assumes "dialog_of w s = Some (d, n)" and "trim (cr_name d) \<noteq> []"
  shows "cu_sent (run cols_step [SubmitCollection w, SubmitCollection w] s) =
    cu_sent s @ replicate 2 (use_create_collection [(''name'', JStr (trim (cr_name d)))])"
  using assms by (cases w) (simp_all add: submit_collection_def send_col_def set_dialog_def dialog_of_def numeral_2_eq_2)

lemma deleted_stays_selected: "cp_selected (cu_page (cols_step (DeleteCol i) s)) = cp_selected (cu_page s)"
  by (simp add: send_col_def)

text \<open>
  A review is confirmed at most once at a time: while a save is under way the button is disabled, every draft
  that is handed over has a trimmed title that is not empty, and there are never more drafts than saves
  that ended and one under way.
\<close>

definition review_ok :: "review_use \<Rightarrow> bool" where
  "review_ok s \<longleftrightarrow> (\<forall>d \<in> set (ru_sent s). sd_title d \<noteq> [] \<and> trim (sd_title d) = sd_title d)"

lemma review_offers:
  "fire a (review_view badge er fp ph s) = Some ConfirmReview \<Longrightarrow> \<not> ru_busy s \<and> trim (ir_title (ru_form s)) \<noteq> []"
  by (auto simp: review_view_def Let_def fire_append split: if_splits act.splits)

lemma review_step_ok: "review_ok s \<Longrightarrow> review_ok (review_step e s)"
  by (cases e) (auto simp: review_ok_def handle_confirm_def trim_trim)

interpretation review_screen: screen "review_view badge er fp ph" review_step "\<lambda>_. True" review_ok for badge er fp ph
  by unfold_locales (simp_all add: review_step_ok)

theorem review_confirms_once:
  shows "(\<forall>d \<in> set (ru_sent (run (use_step (review_view badge er fp ph) review_step) us (review_mount d0 n))).
      sd_title d \<noteq> [] \<and> trim (sd_title d) = sd_title d) \<and>
    (ru_busy s \<longrightarrow> ru_sent (use_step (review_view badge er fp ph) review_step (User a) s) = ru_sent s)"
proof
  have "review_ok (run (use_step (review_view badge er fp ph) review_step) us (review_mount d0 n))"
    by (rule review_screen.always) (simp_all add: review_ok_def review_mount_def list_all_iff)
  then show "\<forall>d \<in> set (ru_sent (run (use_step (review_view badge er fp ph) review_step) us (review_mount d0 n))).
      sd_title d \<noteq> [] \<and> trim (sd_title d) = sd_title d" by (simp add: review_ok_def)
  show "ru_busy s \<longrightarrow> ru_sent (use_step (review_view badge er fp ph) review_step (User a) s) = ru_sent s"
  proof
    assume b: "ru_busy s"
    show "ru_sent (use_step (review_view badge er fp ph) review_step (User a) s) = ru_sent s"
    proof (cases "fire a (review_view badge er fp ph s)")
      case (Some e)
      with b review_offers[of a badge er fp ph s] show ?thesis by (cases e) auto
    qed simp
  qed
qed

end
