(* ===== verification/ListViews.thy ===== *)
theory ListViews
  imports ListScreens RoutineScreens CalendarScreens
begin

text \<open>
  The lists (\<^verbatim>\<open>web/src/components/screens/lists.tsx\<close>) and the routines (\<^verbatim>\<open>routine.tsx\<close>, with the two lock
  screens of that file) as they are rendered and used. What they compute and send is in \<open>ListScreens\<close>
  and \<open>RoutineScreens\<close>. A list as the query delivers it may lack fields that the code declares; reading a
  method of a missing one raises, which is \<open>None\<close>.
\<close>

section \<open>The index of the lists\<close>

record wire_list =
  wl_id :: string
  wl_title :: "string option"
  wl_category :: "string option"
  wl_emoji :: "string option"
  wl_items :: "list_item list option"

definition or_undefined :: "string option \<Rightarrow> string" where
  "or_undefined x = (case x of None \<Rightarrow> ''undefined'' | Some s \<Rightarrow> s)"

definition jsx_text :: "string option \<Rightarrow> string" where
  "jsx_text x = (case x of None \<Rightarrow> [] | Some s \<Rightarrow> s)"

definition new_list_form :: "lists_index \<Rightarrow> lists_event ui list" where
  "new_list_form s =
     [Field ''List name'' (ix_name s) TypeName, Btn ''enter:List name'' [] True EnterKey,
      Btn ''escape:List name'' [] True CloseNew,
      Btn ''create-list'' (if ix_pending s then dots else ''Create'') (\<not> ix_pending s) CreateButton,
      Btn ''close-new-list'' times_sign True CloseNew]"

text \<open>A card is a link; \<open>tn\<close> is the message of further items.\<close>

definition list_card :: "(string \<Rightarrow> string) \<Rightarrow> (string \<Rightarrow> nat \<Rightarrow> string) \<Rightarrow> wire_list \<Rightarrow> 'e ui list option" where
  "list_card t tn l =
     map_option (\<lambda>items.
         [Link (jsx_text (wl_title l)) (''/lists/'' @ wl_id l), Txt (jsx_text (wl_emoji l)),
          Txt (t (''list.categories.'' @ or_undefined (wl_category l))),
          Txt (nat_str (done_count items) @ ''/'' @ nat_str (length items))] @
         map (\<lambda>i. Txt (li_text i)) (preview_items items) @
         (case more_items items of None \<Rightarrow> [] | Some n \<Rightarrow> [Txt (tn ''list.moreItems'' n)]) @
         shown_if (all_done items) [Txt (t ''list.allDone'')])
       (wl_items l)"

definition lists_view ::
  "(string \<Rightarrow> string) \<Rightarrow> (string \<Rightarrow> nat \<Rightarrow> string) \<Rightarrow> wire_list list option \<Rightarrow> lists_index \<Rightarrow> lists_event ui list option" where
  "lists_view t tn xss s =
     (let ls = (case xss of None \<Rightarrow> [] | Some xs \<Rightarrow> xs)
      in map_option (\<lambda>cards.
           [Txt (t ''list.lists''), Btn ''new-list'' (t ''list.newList'') True ShowNew] @
           shown_if (ix_show s) (new_list_form s) @ shown_if (ls = []) [Txt (t ''list.emptyState'')] @ concat cards)
         (those (map (list_card t tn) ls)))"

section \<open>A list\<close>

datatype item_event =
    ToggleIt list_item
  | RemoveIt string
  | TypeItem string
  | AddIt
  | ItemAdded nat bool
  | ListArrived family_list

text \<open>The list on screen, the text typed, the last request to add that is under way, and the requests sent.\<close>

record list_page =
  lp_list :: family_list
  lp_text :: string
  lp_adding :: "nat option"
  lp_sent :: "mutation list"

definition list_mount :: "family_list \<Rightarrow> list_page" where
  "list_mount l = \<lparr>lp_list = l, lp_text = [], lp_adding = None, lp_sent = []\<rparr>"

fun list_step :: "item_event \<Rightarrow> list_page \<Rightarrow> list_page" where
  "list_step (ToggleIt i) s = s\<lparr>lp_sent := lp_sent s @ [toggle_list_item (lp_list s) i]\<rparr>"
| "list_step (RemoveIt i) s = s\<lparr>lp_sent := lp_sent s @ [remove_list_item (lp_list s) i]\<rparr>"
| "list_step (TypeItem v) s = s\<lparr>lp_text := v\<rparr>"
| "list_step AddIt s =
     (case add_item (lp_list s) (lp_text s) of
        None \<Rightarrow> s
      | Some m \<Rightarrow> s\<lparr>lp_adding := Some (length (lp_sent s)), lp_sent := lp_sent s @ [m]\<rparr>)"
| "list_step (ItemAdded n ok) s =
     (if lp_adding s = Some n then s\<lparr>lp_adding := None, lp_text := (if ok then [] else lp_text s)\<rparr> else s)"
| "list_step (ListArrived l) s = s\<lparr>lp_list := l\<rparr>"

definition item_row :: "member list option \<Rightarrow> list_item \<Rightarrow> item_event ui list" where
  "item_row members i =
     [Btn (''check:'' @ li_id i) [] True (ToggleIt i)] @ shown_if (li_done i) [Box ''check'' []] @
     [Btn (''text:'' @ li_id i) (li_text i) True (ToggleIt i)] @
     (case due_badge i of None \<Rightarrow> [] | Some d \<Rightarrow> [Txt d]) @
     (case item_assignee members i of None \<Rightarrow> [] | Some m \<Rightarrow> [Box ''avatar'' [Txt (mem_initial m)]]) @
     [Btn (''delete:'' @ li_id i) [] True (RemoveIt (li_id i))]"

definition list_view :: "(string \<Rightarrow> string) \<Rightarrow> member list option \<Rightarrow> list_page \<Rightarrow> item_event ui list" where
  "list_view t members s =
     (let l = lp_list s; items = fl_items l
      in [Link [] ''/lists'', Txt (fl_emoji l), Txt (fl_title l),
          Txt (nat_str (done_count items) @ '' / '' @ nat_str (length items))] @
         concat (map (item_row members) items) @
         [Field (t ''list.addItem'') (lp_text s) TypeItem, Btn ''enter:add-item'' [] True AddIt, Btn ''add-item'' [] True AddIt])"

section \<open>Routines\<close>

datatype routine_event = TapStep api_routine string | RetryRoutines | RoutinesArrived "api_routine option"

text \<open>The error shown is the one of the routines, else the one of the members.\<close>

record routine_load =
  ql_routines_error :: "jsval option"
  ql_members_error :: "jsval option"
  ql_pending :: bool
  ql_routines :: "api_routine list option"
  ql_members :: "member list option"

definition load_error :: "routine_load \<Rightarrow> jsval option" where
  "load_error d = (case ql_routines_error d of Some e \<Rightarrow> Some e | None \<Rightarrow> ql_members_error d)"

definition routine_state ::
  "(string \<Rightarrow> string) \<Rightarrow> routine_load \<Rightarrow> (api_routine \<times> member) RoutineScreens.screen \<Rightarrow>
   (api_routine \<Rightarrow> member \<Rightarrow> routine_event ui list) \<Rightarrow> routine_event ui list" where
  "routine_state t d v body =
     (case v of
        ErrorScreen \<Rightarrow> (case load_error d of None \<Rightarrow> [] | Some e \<Rightarrow> error_state ''Unable to load routines'' e RetryRoutines)
      | LoadingScreen \<Rightarrow> [Txt ''Loading routines...'']
      | EmptyScreen \<Rightarrow> [Txt (t ''routine.noRoutineYet'')]
      | Shown (r, m) \<Rightarrow> body r m)"

definition check_mark :: string where "check_mark = [CHR 0xE2, CHR 0x9C, CHR 0x85]"

definition step_icon :: "api_routine_step \<Rightarrow> string" where
  "step_icon x = (case rs_icon x of None \<Rightarrow> check_mark | Some i \<Rightarrow> i)"

definition kid_step :: "api_routine \<Rightarrow> routine_kid \<Rightarrow> nat \<Rightarrow> routine_event ui list" where
  "kid_step r s idx =
     (let x = rt_steps r ! idx
      in [Btn (rs_id x) (rs_name x) True (TapStep r (rs_id x)),
          (if rs_id x \<in> set (rk_done s) then Box ''check'' [] else Txt (step_icon x))] @
         shown_if (is_active_step r s idx)
           [Txt ([CHR 0xF0, CHR 0x9F, CHR 0x91, CHR 0x86] @ '' You'' @ [CHR 0x27] @ ''re on this one'')] @
         (case rs_est_minutes x of None \<Rightarrow> [] | Some m \<Rightarrow> [Txt (num_str m @ '' min'')]))"

definition kid_body ::
  "(string \<Rightarrow> string) \<Rightarrow> (string \<Rightarrow> string \<Rightarrow> string) \<Rightarrow> nat \<Rightarrow> routine_kid \<Rightarrow> api_routine \<Rightarrow> member \<Rightarrow> routine_event ui list" where
  "kid_body t tn streak s r m =
     [Box ''avatar'' [Txt (mem_initial m)], Txt (t ''routine.goodMorning''), Txt (rt_name r),
      Txt (nat_str (length (rk_done s)) @ ''/'' @ nat_str (length (rt_steps r))), Txt (t ''routine.done''),
      Txt (tn ''routine.keepGoing'' (int_str (math_round (routine_pct r s * 100)))),
      Txt ([CHR 0xE2, CHR 0x8F, CHR 0xB1, CHR '' ''] @ tn ''routine.minLeft'' (num_str (minutes_left r s)))] @
     concat (map (kid_step r s) [0..<length (rt_steps r)]) @
     [Txt (tn ''routine.starsCount'' (num_str (of_int (mem_stars m)))), Txt (t ''routine.earnMore''),
      Txt (tn ''routine.streakDays'' (nat_str streak))]"

definition kid_view ::
  "(string \<Rightarrow> string) \<Rightarrow> (string \<Rightarrow> string \<Rightarrow> string) \<Rightarrow> nat \<Rightarrow> routine_load \<Rightarrow> routine_kid \<Rightarrow> routine_event ui list" where
  "kid_view t tn streak d s =
     routine_state t d (routine_kid_view (load_error d \<noteq> None) (ql_pending d) (ql_routines d) (ql_members d)) (kid_body t tn streak s)"

fun kid_use_step :: "routine_event \<Rightarrow> routine_kid \<Rightarrow> routine_kid" where
  "kid_use_step (TapStep r i) s = handle_tap_step r i s"
| "kid_use_step RetryRoutines s = s"
| "kid_use_step (RoutinesArrived r) s = reseed r s"

text \<open>The checklist and the path show the steps without any state.\<close>

definition checklist_body :: "(string \<Rightarrow> string) \<Rightarrow> api_routine \<Rightarrow> member \<Rightarrow> routine_event ui list" where
  "checklist_body t r m =
     [Txt (uppercase (mem_name m) @ [CHR '' '', CHR 0xC2, CHR 0xB7, CHR '' ''] @ t ''routine.goodMorning''),
      Txt (t ''routine.letsGetReady''), Txt (''0/'' @ nat_str (length (rt_steps r)))] @
     concat (map (\<lambda>x. [Txt (step_icon x), Txt (rs_name x),
       Txt (num_str (case rs_est_minutes x of None \<Rightarrow> 0 | Some n \<Rightarrow> n) @ ''m'')]) (rt_steps r))"

definition path_body :: "(string \<Rightarrow> nat \<Rightarrow> string) \<Rightarrow> api_routine \<Rightarrow> member \<Rightarrow> routine_event ui list" where
  "path_body tn r m =
     [Box ''avatar'' [Txt (mem_initial m)], Txt (mem_name m @ [CHR 0x27] @ ''s Journey''),
      Txt (tn ''routine.halfwayThere'' (length (rt_steps r))), Txt (num_str (of_int (mem_stars m)))] @
     concat (map (\<lambda>x. [Txt (step_icon x), Txt (rs_name x),
       Txt (num_str (case rs_est_minutes x of None \<Rightarrow> 0 | Some n \<Rightarrow> n) @ '' min'')]) (rt_steps r))"

definition list_state :: "routine_load \<Rightarrow> api_routine option \<Rightarrow> (api_routine \<times> member) RoutineScreens.screen" where
  "list_state d given = routine_list_view (load_error d \<noteq> None) (ql_pending d) given (ql_routines d) (ql_members d)"

definition checklist_view :: "(string \<Rightarrow> string) \<Rightarrow> routine_load \<Rightarrow> api_routine option \<Rightarrow> routine_event ui list" where
  "checklist_view t d given = routine_state t d (list_state d given) (checklist_body t)"

definition path_view :: "(string \<Rightarrow> string) \<Rightarrow> (string \<Rightarrow> nat \<Rightarrow> string) \<Rightarrow> routine_load \<Rightarrow> api_routine option \<Rightarrow> routine_event ui list" where
  "path_view t tn d given = routine_state t d (list_state d given) (path_body tn)"

text \<open>The lock screen and its picker: texts only; \<open>timeStr\<close> and \<open>dateStr\<close> are the browser's.\<close>

definition lock_view :: "(string \<Rightarrow> string) \<Rightarrow> string \<Rightarrow> string \<Rightarrow> 'e ui list" where
  "lock_view t timeStr dateStr = [Box ''photo-slideshow'' [], Txt timeStr, Txt dateStr, Txt (t ''lock.tapToUnlock'')]"

definition lock_members_view ::
  "(string \<Rightarrow> string) \<Rightarrow> jsval option \<Rightarrow> bool \<Rightarrow> member list option \<Rightarrow> routine_event ui list" where
  "lock_members_view t err pending members =
     (case err of
        Some e \<Rightarrow> error_state ''Unable to load family members'' e RetryRoutines
      | None \<Rightarrow>
          if pending then [Txt ''Loading family members...'']
          else [Txt (t ''lock.whosUsing''), Txt (t ''lock.tapAvatar'')] @
            (let ms = (case members of None \<Rightarrow> [] | Some xs \<Rightarrow> xs)
             in if ms = [] then [Txt (t ''lock.noRoutineYet'')]
                else concat (map (\<lambda>m. [Txt (mem_initial m), Txt (mem_name m), Txt (t (''lock.'' @ pin_hint m))]) ms)))"

section \<open>Lemmas\<close>

text \<open>What a list offers, and the requests it sends: only for this list, for items that were on it.\<close>

definition list_request_ok :: "string \<Rightarrow> string set \<Rightarrow> mutation \<Rightarrow> bool" where
  "list_request_ok l I m \<longleftrightarrow>
     (\<exists>i b. i \<in> I \<and> m = use_toggle_list_item l i b) \<or> (\<exists>i \<in> I. m = use_delete_list_item l i) \<or>
     (\<exists>txt. txt \<noteq> [] \<and> trim txt = txt \<and> m = use_add_list_item l txt)"

definition list_page_ok :: "string \<Rightarrow> string set \<Rightarrow> list_page \<Rightarrow> bool" where
  "list_page_ok l I s \<longleftrightarrow>
     fl_id (lp_list s) = l \<and> li_id ` set (fl_items (lp_list s)) \<subseteq> I \<and> (\<forall>m \<in> set (lp_sent s). list_request_ok l I m)"

fun list_outside :: "string \<Rightarrow> string set \<Rightarrow> item_event \<Rightarrow> bool" where
  "list_outside l I (ListArrived x) \<longleftrightarrow> fl_id x = l \<and> li_id ` set (fl_items x) \<subseteq> I"
| "list_outside l I (ItemAdded n ok) \<longleftrightarrow> True"
| "list_outside l I e \<longleftrightarrow> False"

lemma item_row_offers: "fire a (item_row ms i) = Some e \<Longrightarrow> e = ToggleIt i \<or> e = RemoveIt (li_id i)"
  by (auto simp: item_row_def fire_append split: if_splits option.splits)

lemma list_offers:
  assumes "fire a (list_view t ms s) = Some e"
  shows "(\<exists>i \<in> set (fl_items (lp_list s)). e = ToggleIt i \<or> e = RemoveIt (li_id i)) \<or> e = AddIt \<or> (\<exists>v. e = TypeItem v)"
  using assms
  by (auto simp: list_view_def Let_def fire_append dest!: fire_items item_row_offers split: option.splits if_splits act.splits)

lemma list_step_ok:
  assumes s: "list_page_ok l I s"
    and e: "(\<exists>i \<in> set (fl_items (lp_list s)). e = ToggleIt i \<or> e = RemoveIt (li_id i)) \<or> e = AddIt \<or> (\<exists>v. e = TypeItem v) \<or>
      list_outside l I e"
  shows "list_page_ok l I (list_step e s)"
proof (cases e)
  case (ToggleIt i)
  with s e have "li_id i \<in> I" by (auto simp: list_page_ok_def)
  with s show ?thesis by (auto simp: ToggleIt list_page_ok_def list_request_ok_def toggle_list_item_def)
next
  case (RemoveIt i)
  with s e have "i \<in> I" by (auto simp: list_page_ok_def)
  with s show ?thesis by (auto simp: RemoveIt list_page_ok_def list_request_ok_def remove_list_item_def)
next
  case AddIt
  show ?thesis
  proof (cases "add_item (lp_list s) (lp_text s)")
    case (Some m)
    then have "list_request_ok l I m"
      using s trim_trim[of "lp_text s"] by (auto simp: add_item_def Let_def list_page_ok_def list_request_ok_def split: if_splits)
    with s Some show ?thesis by (simp add: AddIt list_page_ok_def)
  qed (use s AddIt in simp)
qed (use s e in \<open>auto simp: list_page_ok_def\<close>)

interpretation list_screen: screen "list_view t ms" list_step "list_outside l I" "list_page_ok l I" for t ms l I
proof unfold_locales
  fix s a e assume s: "list_page_ok l I s" and f: "fire a (list_view t ms s) = Some e"
  show "list_page_ok l I (list_step e s)"
    by (rule list_step_ok[OF s]) (use list_offers[OF f] in \<open>elim disjE; simp\<close>)
next
  fix s e assume s: "list_page_ok l I s" and "list_outside l I e"
  then show "list_page_ok l I (list_step e s)" by (intro list_step_ok[OF s] disjI2)
qed

text \<open>The highlighted step.\<close>

lemma active_step_unique: "is_active_step r s i \<Longrightarrow> is_active_step r s j \<Longrightarrow> i = j"
  by (auto simp: is_active_step_def dest: linorder_neqE_nat)

lemma active_step_exists:
  assumes "k < length (rt_steps r)" and "rs_id (rt_steps r ! k) \<notin> set (rk_done s)"
  shows "\<exists>i \<le> k. is_active_step r s i"
proof -
  let ?P = "\<lambda>i. rs_id (rt_steps r ! i) \<notin> set (rk_done s)"
  have "?P (LEAST i. ?P i)" using assms(2) by (rule LeastI)
  moreover have "(LEAST i. ?P i) \<le> k" using assms(2) by (rule Least_le)
  moreover have "\<not> ?P j" if "j < (LEAST i. ?P i)" for j using that not_less_Least by blast
  ultimately show ?thesis unfolding is_active_step_def by blast
qed

lemma kid_step_offers: "fire a (kid_step r s i) = Some e \<Longrightarrow> e = TapStep r (rs_id (rt_steps r ! i))"
  by (auto simp: kid_step_def Let_def fire_append split: if_splits option.splits)

section \<open>Properties\<close>

text \<open>
  The index of the lists raises exactly when some list comes without its items, as every list of the server
  does (\<^verbatim>\<open>internal/model/list.go\<close> has a name and a type, but no items, title, category or emoji).
\<close>

theorem lists_need_their_items:
  "lists_view t tn (Some ls) s = None \<longleftrightarrow> (\<exists>l \<in> set ls. wl_items l = None)"
proof -
  have "those (map (list_card t tn) ls) = None \<longleftrightarrow> (\<exists>l \<in> set ls. wl_items l = None)"
    by (induction ls) (auto simp: list_card_def split: option.splits)
  then show ?thesis by (simp add: lists_view_def)
qed

text \<open>
  However the page of a list is used and whenever it is refetched, every request is for this list: it flips or
  removes an item that was on it, or adds one with a trimmed text that is not empty.
\<close>

theorem list_page_requests:
  assumes "fl_id l = k" and "li_id ` set (fl_items l) \<subseteq> I" and "list_all (use_legal (list_outside k I)) us"
    and "m \<in> set (lp_sent (run (use_step (list_view t ms) list_step) us (list_mount l)))"
  shows "(\<exists>i b. i \<in> I \<and> m = use_toggle_list_item k i b) \<or> (\<exists>i \<in> I. m = use_delete_list_item k i) \<or>
    (\<exists>txt. txt \<noteq> [] \<and> trim txt = txt \<and> m = use_add_list_item k txt)"
proof -
  have "list_page_ok k I (run (use_step (list_view t ms) list_step) us (list_mount l))"
    by (rule list_screen.always[OF _ assms(3)]) (use assms(1,2) in \<open>simp add: list_page_ok_def list_mount_def\<close>)
  with assms(4) show ?thesis unfolding list_page_ok_def list_request_ok_def by blast
qed

text \<open>
  The routine of a child points at one step: exactly one of the rows carries the hint while some step is open, the
  first open one, and none when all are done; a press on a row marks that step of the routine on screen.
\<close>

theorem one_step_highlighted:
  "((\<exists>k < length (rt_steps r). rs_id (rt_steps r ! k) \<notin> set (rk_done s)) \<longleftrightarrow>
     (\<exists>!i. i < length (rt_steps r) \<and> is_active_step r s i)) \<and>
   (fire a (kid_body t tn streak s r m) = Some e \<longrightarrow>
     (\<exists>i < length (rt_steps r). e = TapStep r (rs_id (rt_steps r ! i))))"
proof (intro conjI impI iffI)
  assume "\<exists>k < length (rt_steps r). rs_id (rt_steps r ! k) \<notin> set (rk_done s)"
  then obtain i where "i < length (rt_steps r)" "is_active_step r s i"
    using active_step_exists by (metis le_less_trans)
  then show "\<exists>!i. i < length (rt_steps r) \<and> is_active_step r s i" using active_step_unique by blast
next
  assume "\<exists>!i. i < length (rt_steps r) \<and> is_active_step r s i"
  then show "\<exists>k < length (rt_steps r). rs_id (rt_steps r ! k) \<notin> set (rk_done s)"
    by (auto simp: is_active_step_def)
next
  assume "fire a (kid_body t tn streak s r m) = Some e"
  then show "\<exists>i < length (rt_steps r). e = TapStep r (rs_id (rt_steps r ! i))"
    by (auto simp: kid_body_def fire_append dest!: fire_items kid_step_offers split: option.splits)
qed

end
