(* ===== verification/AdminViews.thy ===== *)
theory AdminViews
  imports AuditLog TimeReview Markup
begin

text \<open>
  Two pages of the administrators as they are rendered and used: the audit log
  (\<^verbatim>\<open>web/src/app/admin/audit/page.tsx\<close>) and the review of chore times
  (\<^verbatim>\<open>app/admin/time-review/page.tsx\<close>). What they compute and send is in \<open>AuditLog\<close> and \<open>TimeReview\<close>.
\<close>

section \<open>The audit log\<close>

datatype log_event = Log audit_event | ExpandRow string | ExportCsv | LogArrived "audit_entry list" int | LogFailed

text \<open>
  The query's filters, whether it is under way, the entries it delivered (a failed query has none), the rows that
  are open, and the files exported.
\<close>

record log_page =
  lg_page :: audit_page
  lg_loading :: bool
  lg_entries :: "audit_entry list option"
  lg_open :: "string list"
  lg_files :: "string list"

definition log_start :: log_page where
  "log_start = \<lparr>lg_page = audit_start, lg_loading = True, lg_entries = None, lg_open = [], lg_files = []\<rparr>"

definition shown_entries :: "log_page \<Rightarrow> audit_entry list" where
  "shown_entries s = displayed_entries (lg_page s) (lg_entries s)"

definition filter_changed :: "audit_event \<Rightarrow> bool" where
  "filter_changed e = (case e of TypeSearch _ \<Rightarrow> False | _ \<Rightarrow> True)"

text \<open>Whether a row is open is the row's own state: it goes when the row is no longer shown.\<close>

definition keep_mounted :: "log_page \<Rightarrow> log_page" where
  "keep_mounted s = s\<lparr>lg_open := filter (\<lambda>i. i \<in> ad_id ` set (shown_entries s)) (lg_open s)\<rparr>"

text \<open>Another page or filter is another query: its entries are not there yet, and no total.\<close>

fun log_step :: "log_event \<Rightarrow> log_page \<Rightarrow> log_page" where
  "log_step (Log e) s =
     (let p = audit_step e (lg_page s)
      in keep_mounted
           (if filter_changed e \<and> p \<noteq> lg_page s
            then s\<lparr>lg_page := p\<lparr>ap_total := 0\<rparr>, lg_loading := True, lg_entries := None\<rparr>
            else s\<lparr>lg_page := p\<rparr>))"
| "log_step (ExpandRow i) s =
     s\<lparr>lg_open := (if i \<in> set (lg_open s) then filter (\<lambda>x. x \<noteq> i) (lg_open s) else lg_open s @ [i])\<rparr>"
| "log_step ExportCsv s = s\<lparr>lg_files := lg_files s @ [export_csv (shown_entries s)]\<rparr>"
| "log_step (LogArrived es total') s =
     keep_mounted (s\<lparr>lg_loading := False, lg_entries := Some es, lg_page := audit_step (TotalArrives total') (lg_page s)\<rparr>)"
| "log_step LogFailed s = s\<lparr>lg_loading := False\<rparr>"

definition or_dash :: "string option \<Rightarrow> string" where
  "or_dash x = (case x of None \<Rightarrow> em_dash | Some s \<Rightarrow> s)"

definition actor_cut :: "audit_entry \<Rightarrow> string" where
  "actor_cut e = (if length (ad_account_id e) > 10 then take 10 (ad_account_id e) @ ellipsis else ad_account_id e)"

text \<open>\<open>ago\<close> is \<open>relative_time\<close> at the render, \<open>pretty\<close> prints a difference over several lines.\<close>

definition audit_row_wide ::
  "(string \<Rightarrow> string) \<Rightarrow> (jsobj \<Rightarrow> string) \<Rightarrow> string list \<Rightarrow> audit_entry \<Rightarrow> log_event ui list" where
  "audit_row_wide ago pretty opened e =
     [Btn (''row-'' @ ad_id e) (ago (ad_created_at e)) True (ExpandRow (ad_id e)), Txt (actor_cut e), Txt (ad_action e),
      Txt (ad_target_type e @ mid_dot @ target_tail e), Txt (or_dash (ad_ip_address e)), Txt (ua_truncated e)] @
     shown_if (ad_id e \<in> set opened) [Box (''diff-'' @ ad_id e) [Txt (pretty (ad_diff e))]]"

definition audit_row_narrow ::
  "(string \<Rightarrow> string) \<Rightarrow> (string \<Rightarrow> string) \<Rightarrow> (jsobj \<Rightarrow> string) \<Rightarrow> string list \<Rightarrow> audit_entry \<Rightarrow> log_event ui list" where
  "audit_row_narrow t ago pretty opened e =
     [Txt (ad_action e), Txt (ago (ad_created_at e)), Txt (ad_target_type e @ mid_dot @ target_tail e),
      Txt (or_dash (ad_ip_address e) @ mid_dot @ ua_truncated e),
      Btn (''row-'' @ ad_id e) (t (if ad_id e \<in> set opened then ''admin.audit.diffCollapse'' else ''admin.audit.diffExpand'')) True
        (ExpandRow (ad_id e))] @
     shown_if (ad_id e \<in> set opened) [Box (''diff-'' @ ad_id e) [Txt (pretty (ad_diff e))]]"

definition date_presets :: "(string \<times> string) list" where
  "date_presets = [(''1h'', ''last1h''), (''24h'', ''last24h''), (''7d'', ''last7d''), (''30d'', ''last30d'')]"

definition audit_filter_bar :: "(string \<Rightarrow> string) \<Rightarrow> log_page \<Rightarrow> log_event ui list" where
  "audit_filter_bar t s =
     [Pick ''filterAction'' (ap_action (lg_page s)) ([] # unique_values ad_action (lg_entries s)) (\<lambda>v. Log (PickAction v)),
      Pick ''filterTarget'' (ap_target (lg_page s)) ([] # unique_values ad_target_type (lg_entries s)) (\<lambda>v. Log (PickTarget v))] @
     map (\<lambda>(v, key). Btn v (t (''admin.audit.'' @ key)) True (Log (PickPreset v))) date_presets @
     [Field ''filterSearch'' (ap_search (lg_page s)) (\<lambda>v. Log (TypeSearch v))]"

definition audit_table ::
  "(string \<Rightarrow> string) \<Rightarrow> (string \<Rightarrow> string) \<Rightarrow> (jsobj \<Rightarrow> string) \<Rightarrow> bool \<Rightarrow> log_page \<Rightarrow> log_event ui list" where
  "audit_table t ago pretty narrow s =
     (if lg_loading s then [Txt (t ''common.loading'')]
      else if shown_entries s = [] then [Txt (t ''admin.audit.noResults'')]
      else if narrow then concat (map (audit_row_narrow t ago pretty (lg_open s)) (shown_entries s))
      else map (\<lambda>key. Txt (t (''admin.audit.'' @ key))) [''colWhen'', ''colActor'', ''colAction'', ''colTarget'', ''colIp'', ''colUserAgent''] @
        concat (map (audit_row_wide ago pretty (lg_open s)) (shown_entries s)))"

definition audit_pager :: "(string \<Rightarrow> string) \<Rightarrow> (int \<Rightarrow> int \<Rightarrow> int \<Rightarrow> string) \<Rightarrow> log_page \<Rightarrow> log_event ui list" where
  "audit_pager t showing s =
     (let p = lg_page s; (from, to) = shown_range p (lg_entries s)
      in shown_if (ap_total p > 0)
           [Btn ''prev-page'' (t ''admin.audit.prev'') (ap_offset p \<noteq> 0) (Log PrevPage), Txt (showing from to (ap_total p)),
            Btn ''next-page'' (t ''admin.audit.next'') (ap_offset p + audit_limit < ap_total p) (Log NextPage)])"

definition audit_view ::
  "(string \<Rightarrow> string) \<Rightarrow> (string \<Rightarrow> string) \<Rightarrow> (jsobj \<Rightarrow> string) \<Rightarrow> (int \<Rightarrow> int \<Rightarrow> int \<Rightarrow> string) \<Rightarrow> bool \<Rightarrow> bool \<Rightarrow>
   log_page \<Rightarrow> log_event ui list" where
  "audit_view t ago pretty showing mock narrow s =
     [Link (t ''common.home'') ''/'', Txt (t ''admin.audit.title'')] @ shown_if mock [Txt ''PREVIEW''] @
     [Btn ''export-csv'' (t ''admin.audit.exportCsv'') True ExportCsv] @ audit_filter_bar t s @
     audit_table t ago pretty narrow s @ audit_pager t showing s"

section \<open>The review of chore times\<close>

datatype review_press =
    StartEdit api_chore_time_entry
  | TypeEditMinutes string
  | TypeEditNote string
  | SaveEdit api_chore_time_entry
  | CancelEdit
  | AskDelete api_chore_time_entry
  | DeleteAnswered bool
  | UpdateDone nat bool
  | EntriesArrived "api_chore_time_entry list"

record review_page =
  tr_entries :: "api_chore_time_entry list"
  tr_editing :: "editing_state option"
  tr_asking :: "api_chore_time_entry option"
  tr_waiting :: "nat option"
  tr_sent :: "mutation list"

definition times_mount :: "api_chore_time_entry list \<Rightarrow> review_page" where
  "times_mount es = \<lparr>tr_entries = es, tr_editing = None, tr_asking = None, tr_waiting = None, tr_sent = []\<rparr>"

text \<open>The dialog closes with the answer of the last save, whatever is being edited by then.\<close>

fun times_step :: "(int \<Rightarrow> int) \<Rightarrow> review_press \<Rightarrow> review_page \<Rightarrow> review_page" where
  "times_step loc (StartEdit e) s = s\<lparr>tr_editing := Some (start_edit loc e)\<rparr>"
| "times_step loc (TypeEditMinutes v) s = s\<lparr>tr_editing := map_option (type_minutes v) (tr_editing s)\<rparr>"
| "times_step loc (TypeEditNote v) s = s\<lparr>tr_editing := map_option (\<lambda>ed. ed\<lparr>ed_note := v\<rparr>) (tr_editing s)\<rparr>"
| "times_step loc (SaveEdit e) s =
     (case commit_edit loc e (tr_editing s) of
        (ed, CommitSends m) \<Rightarrow> s\<lparr>tr_editing := ed, tr_waiting := Some (length (tr_sent s)), tr_sent := tr_sent s @ [m]\<rparr>
      | (ed, _) \<Rightarrow> s\<lparr>tr_editing := ed\<rparr>)"
| "times_step loc CancelEdit s = s\<lparr>tr_editing := None\<rparr>"
| "times_step loc (AskDelete e) s = s\<lparr>tr_asking := Some e\<rparr>"
| "times_step loc (DeleteAnswered ok) s =
     (case Option.bind (tr_asking s) (handle_delete_entry ok) of
        None \<Rightarrow> s\<lparr>tr_asking := None\<rparr>
      | Some m \<Rightarrow> s\<lparr>tr_asking := None, tr_sent := tr_sent s @ [m]\<rparr>)"
| "times_step loc (UpdateDone n ok) s =
     (if tr_waiting s = Some n then s\<lparr>tr_waiting := None, tr_editing := (if ok then None else tr_editing s)\<rparr> else s)"
| "times_step loc (EntriesArrived es) s = s\<lparr>tr_entries := es\<rparr>"

definition time_row ::
  "(int \<Rightarrow> int) \<Rightarrow> (string option \<Rightarrow> string) \<Rightarrow> api_chore list option \<Rightarrow> review_page \<Rightarrow> api_chore_time_entry \<Rightarrow> review_press ui list" where
  "time_row loc local_str chores s e =
     [Txt (chore_name chores (te_chore_id e)), Txt (local_str (te_started_at e) @ mid_dot @ te_source e)] @
     (case tr_editing s of
        Some ed \<Rightarrow>
          if ed_id ed = te_id e
          then [Field (''Duration minutes for '' @ te_id e) (jnum_str (ed_minutes ed)) TypeEditMinutes,
                Field (''Note for '' @ te_id e) (ed_note ed) TypeEditNote,
                Btn (''save '' @ te_id e) ''Save'' True (SaveEdit e), Btn (''cancel '' @ te_id e) ''Cancel'' True CancelEdit]
          else []
      | None \<Rightarrow> []) @
     (if map_option ed_id (tr_editing s) = Some (te_id e) then []
      else [Txt (review_duration (entry_duration_seconds loc e)), Txt (te_note e),
            Btn (''Edit entry '' @ te_id e) ''Edit'' True (StartEdit e),
            Btn (''Delete entry '' @ te_id e) ''Delete'' True (AskDelete e)])"

text \<open>\<open>engine\<close> is the sort on unreadable starts (see \<open>TimeReview\<close>); \<open>err\<close> the message of a failed query.\<close>

definition times_view ::
  "(api_chore_time_entry list \<Rightarrow> api_chore_time_entry list) \<Rightarrow> (int \<Rightarrow> int) \<Rightarrow> (string option \<Rightarrow> string) \<Rightarrow>
   member list option \<Rightarrow> api_chore list option \<Rightarrow> bool \<Rightarrow> string option \<Rightarrow> review_page \<Rightarrow> review_press ui list" where
  "times_view engine loc local_str members chores loading err s =
     (if tr_asking s \<noteq> None then
        [Txt ''Delete this time entry?'', Btn ''ok'' ''OK'' True (DeleteAnswered True), Btn ''cancel'' ''Cancel'' True (DeleteAnswered False)]
      else
        [Txt ''Time review'', Txt ''Review chore time entries grouped by member. Admins may edit duration or delete a stray entry.''] @
        shown_if loading [Txt (''Loading entries'' @ dots)] @
        (case err of None \<Rightarrow> [] | Some m \<Rightarrow> [Box ''alert'' [Txt (''Failed to load time entries: '' @ m)]]) @
        shown_if (\<not> loading \<and> err = None \<and> tr_entries s = []) [Txt ''No time entries yet.''] @
        concat (map (\<lambda>(mid, es). Txt (member_name members mid) # concat (map (time_row loc local_str chores s) es))
          (grouped_entries engine loc (tr_entries s))))"

section \<open>Lemmas\<close>

text \<open>The log: filters come from what the server delivered (actions \<open>A\<close>), and a period once chosen stays chosen.\<close>

definition log_ok :: "string set \<Rightarrow> string set \<Rightarrow> log_page \<Rightarrow> bool" where
  "log_ok A P s \<longleftrightarrow>
     page_ok (lg_page s) \<and> ap_action (lg_page s) \<in> insert [] A \<and> ap_preset (lg_page s) \<in> P \<and>
     (\<forall>es. lg_entries s = Some es \<longrightarrow> ad_action ` set es \<subseteq> A) \<and>
     set (lg_open s) \<subseteq> ad_id ` set (shown_entries s)"

fun log_outside :: "string set \<Rightarrow> log_event \<Rightarrow> bool" where
  "log_outside A (LogArrived es n) \<longleftrightarrow> ad_action ` set es \<subseteq> A"
| "log_outside A LogFailed \<longleftrightarrow> True"
| "log_outside A e \<longleftrightarrow> False"

definition log_offered :: "log_page \<Rightarrow> log_event \<Rightarrow> bool" where
  "log_offered s e \<longleftrightarrow>
     (\<exists>a \<in> insert [] (set (unique_values ad_action (lg_entries s))). e = Log (PickAction a)) \<or>
     (\<exists>a. e = Log (PickTarget a)) \<or> (\<exists>p \<in> fst ` set date_presets. e = Log (PickPreset p)) \<or>
     (\<exists>v. e = Log (TypeSearch v)) \<or> (e = Log PrevPage \<and> ap_offset (lg_page s) \<noteq> 0) \<or>
     (e = Log NextPage \<and> ap_offset (lg_page s) + audit_limit < ap_total (lg_page s)) \<or>
     (\<exists>x \<in> set (shown_entries s). e = ExpandRow (ad_id x)) \<or> e = ExportCsv"

lemma audit_rows_offer:
  "fire a (audit_row_wide ago pretty opened x) = Some e \<Longrightarrow> e = ExpandRow (ad_id x)"
  "fire a (audit_row_narrow t ago pretty opened x) = Some e \<Longrightarrow> e = ExpandRow (ad_id x)"
  by (auto simp: audit_row_wide_def audit_row_narrow_def fire_append split: if_splits option.splits)

lemma audit_filters_offer: "fire a (audit_filter_bar t s) = Some e \<Longrightarrow> log_offered s e"
  by (auto simp: audit_filter_bar_def date_presets_def log_offered_def fire_append split: if_splits option.splits act.splits)

lemma audit_table_offers: "fire a (audit_table t ago pretty narrow s) = Some e \<Longrightarrow> log_offered s e"
  by (auto simp: audit_table_def log_offered_def fire_append dest!: fire_items audit_rows_offer split: if_splits option.splits)

lemma audit_pager_offers: "fire a (audit_pager t showing s) = Some e \<Longrightarrow> log_offered s e"
  by (auto simp: audit_pager_def Let_def log_offered_def split: if_splits prod.splits)

lemma export_offered: "log_offered s ExportCsv"
  by (simp add: log_offered_def)

lemma audit_offers: "fire a (audit_view t ago pretty showing mock narrow s) = Some e \<Longrightarrow> log_offered s e"
  by (auto simp: audit_view_def fire_append export_offered
      dest: audit_filters_offer audit_table_offers audit_pager_offers split: if_splits option.splits)

lemma unique_values_of: "lg_entries s = Some es \<Longrightarrow> set (unique_values f (lg_entries s)) = f ` set es"
  by (simp add: unique_values_def)

lemma keep_mounted_simps [simp]:
  "lg_page (keep_mounted s) = lg_page s" "lg_entries (keep_mounted s) = lg_entries s"
  "shown_entries (keep_mounted s) = shown_entries s"
  by (simp_all add: keep_mounted_def shown_entries_def)

lemma keep_mounted_open: "set (lg_open (keep_mounted s)) \<subseteq> ad_id ` set (shown_entries s)"
  by (auto simp: keep_mounted_def)

lemma page_ok_total [simp]: "page_ok (p\<lparr>ap_total := n\<rparr>) = page_ok p"
  by (simp add: page_ok_def)

lemma log_step_ok:
  assumes s: "log_ok A P s" and P: "fst ` set date_presets \<subseteq> P"
    and e: "log_offered s e \<or> log_outside A e"
  shows "log_ok A P (log_step e s)"
proof (cases e)
  case (Log x)
  let ?p = "audit_step x (lg_page s)"
  let ?q = "if filter_changed x \<and> ?p \<noteq> lg_page s
    then s\<lparr>lg_page := ?p\<lparr>ap_total := 0\<rparr>, lg_loading := True, lg_entries := None\<rparr> else s\<lparr>lg_page := ?p\<rparr>"
  have "page_ok ?p" using s audit_step_ok by (simp add: log_ok_def)
  moreover have "ap_action ?p \<in> insert [] A"
    using s e by (cases x; cases "lg_entries s") (auto simp: Log log_ok_def log_offered_def unique_values_of unique_values_def)
  moreover have "ap_preset ?p \<in> P" using s e P by (cases x) (auto simp: Log log_ok_def log_offered_def)
  ultimately have "log_ok A P (keep_mounted ?q)" using s keep_mounted_open[of ?q] by (simp add: log_ok_def)
  then show ?thesis by (simp only: Log log_step.simps Let_def)
next
  case (ExpandRow i)
  with e s show ?thesis by (auto simp: log_ok_def log_offered_def shown_entries_def)
next
  case ExportCsv
  with s show ?thesis by (simp add: log_ok_def shown_entries_def)
next
  case (LogArrived es n)
  let ?q = "s\<lparr>lg_loading := False, lg_entries := Some es, lg_page := audit_step (TotalArrives n) (lg_page s)\<rparr>"
  have "log_ok A P (keep_mounted ?q)"
    using s e keep_mounted_open[of ?q] by (auto simp: LogArrived log_ok_def log_offered_def)
  then show ?thesis by (simp only: LogArrived log_step.simps)
next
  case LogFailed
  with s show ?thesis by (simp add: log_ok_def shown_entries_def)
qed

interpretation log_screen: screen "audit_view t ago pretty showing mock narrow" log_step "log_outside A"
  "log_ok A (insert [] (fst ` set date_presets))" for t ago pretty showing mock narrow A
  by unfold_locales (auto intro: log_step_ok dest: audit_offers)

interpretation log_dated: screen "audit_view t ago pretty showing mock narrow" log_step "log_outside A"
  "log_ok A (fst ` set date_presets)" for t ago pretty showing mock narrow A
  by unfold_locales (auto intro: log_step_ok dest: audit_offers)

text \<open>
  The options of the action filter are the actions of the page on screen: while a filter is set the server sends
  only entries of that action, so that no other action can be chosen, and the way there leads over all of them.
\<close>

lemma filter_offers_itself:
  assumes "lg_entries s = Some es" and "\<forall>x \<in> set es. ad_action x = b"
    and "fire (Enter ''filterAction'' a) (audit_filter_bar t s) = Some e"
  shows "e = Log (PickAction a) \<and> a \<in> {[], b}"
  using assms by (auto simp: audit_filter_bar_def date_presets_def unique_values_def split: if_splits)

text \<open>The review: what it offers concerns the entries listed.\<close>

definition times_request_ok :: "string set \<Rightarrow> mutation \<Rightarrow> bool" where
  "times_request_ok I m \<longleftrightarrow>
     (\<exists>i \<in> I. (\<exists>b note. m = use_update_time_entry i None (Some b) (Some note)) \<or> m = use_delete_time_entry i)"

definition times_ok :: "string set \<Rightarrow> review_page \<Rightarrow> bool" where
  "times_ok I s \<longleftrightarrow>
     te_id ` set (tr_entries s) \<subseteq> I \<and> (\<forall>ed. tr_editing s = Some ed \<longrightarrow> ed_id ed \<in> I) \<and>
     (\<forall>e. tr_asking s = Some e \<longrightarrow> te_id e \<in> I) \<and> (\<forall>m \<in> set (tr_sent s). times_request_ok I m)"

fun times_outside :: "string set \<Rightarrow> review_press \<Rightarrow> bool" where
  "times_outside I (UpdateDone n ok) \<longleftrightarrow> True"
| "times_outside I (EntriesArrived es) \<longleftrightarrow> te_id ` set es \<subseteq> I"
| "times_outside I e \<longleftrightarrow> False"

definition times_offered :: "review_page \<Rightarrow> review_press \<Rightarrow> bool" where
  "times_offered s e \<longleftrightarrow>
     (if tr_asking s \<noteq> None then \<exists>ok. e = DeleteAnswered ok
      else (\<exists>x \<in> set (tr_entries s).
              (tr_editing s \<noteq> None \<and> ed_id (the (tr_editing s)) = te_id x \<and> e = SaveEdit x) \<or> e = StartEdit x \<or> e = AskDelete x) \<or>
           (\<exists>v. e = TypeEditMinutes v) \<or> (\<exists>v. e = TypeEditNote v) \<or> e = CancelEdit)"

lemma grouped_entries_set:
  assumes "\<forall>xs. mset (engine xs) = mset xs" and "(m, es) \<in> set (grouped_entries engine loc entries)"
  shows "set es \<subseteq> set entries"
proof -
  from assms(2) obtain xs where x: "(m, xs) \<in> set (group_by te_member_id entries)" "es = newest_first engine loc xs"
    by (auto simp: grouped_entries_def)
  have "set es = set xs" unfolding x(2) using newest_first_mset[OF assms(1)] by (rule mset_eq_setD)
  then show ?thesis using group_by_member[OF x(1)] by auto
qed

lemma time_row_offers:
  "fire a (time_row loc local_str chores s x) = Some e \<Longrightarrow> tr_asking s = None \<Longrightarrow> x \<in> set (tr_entries s) \<Longrightarrow> times_offered s e"
  by (auto simp: time_row_def times_offered_def fire_append split: if_splits option.splits act.splits)

lemma times_offers:
  assumes "\<forall>xs. mset (engine xs) = mset xs"
    and "fire a (times_view engine loc local_str members chores loading err s) = Some e"
  shows "times_offered s e"
proof (cases "tr_asking s")
  case (Some x)
  with assms(2) show ?thesis by (auto simp: times_view_def times_offered_def split: if_splits)
next
  case None
  with assms(2) obtain m es where g: "(m, es) \<in> set (grouped_entries engine loc (tr_entries s))"
      and "fire a (concat (map (time_row loc local_str chores s) es)) = Some e"
    by (auto simp: times_view_def fire_append dest!: fire_items split: if_splits option.splits)
  then obtain x where "x \<in> set es" "fire a (time_row loc local_str chores s x) = Some e" by (blast dest: fire_items)
  with None grouped_entries_set[OF assms(1) g] show ?thesis by (blast intro: time_row_offers)
qed

lemma commit_edit_sends:
  "commit_edit loc x ed = (ed', CommitSends m) \<Longrightarrow>
     ed' = ed \<and> (\<exists>d b. ed = Some d \<and> m = use_update_time_entry (ed_id d) None (Some b) (Some (ed_note d)))"
  by (auto simp: commit_edit_def split: option.splits jnum.splits)

lemma commit_edit_keeps: "commit_edit loc x ed = (ed', out) \<Longrightarrow> ed' = ed \<or> ed' = None"
  by (auto simp: commit_edit_def split: option.splits jnum.splits)

lemma times_step_ok:
  assumes s: "times_ok I s" and e: "times_offered s e \<or> times_outside I e"
  shows "times_ok I (times_step loc e s)"
proof (cases e)
  case (StartEdit x)
  with s e show ?thesis by (auto simp: times_ok_def times_offered_def start_edit_def split: if_splits)
next
  case (AskDelete x)
  with s e show ?thesis by (auto simp: times_ok_def times_offered_def split: if_splits)
next
  case (SaveEdit x)
  obtain ed out where c: "commit_edit loc x (tr_editing s) = (ed, out)" by (cases "commit_edit loc x (tr_editing s)")
  show ?thesis
  proof (cases "\<exists>m. out = CommitSends m")
    case True
    then obtain m where m: "out = CommitSends m" ..
    from commit_edit_sends[OF c[unfolded m]] s have "times_request_ok I m" "ed = tr_editing s"
      by (auto simp: times_ok_def times_request_ok_def)
    with s c m show ?thesis by (simp add: SaveEdit times_ok_def)
  next
    case False
    with s c commit_edit_keeps[OF c] show ?thesis by (cases out) (auto simp: SaveEdit times_ok_def)
  qed
next
  case (DeleteAnswered ok)
  with s show ?thesis by (cases "tr_asking s") (auto simp: times_ok_def handle_delete_entry_def times_request_ok_def)
qed (use s e in \<open>auto simp: times_ok_def times_offered_def type_minutes_def Let_def split: if_splits\<close>)

lemma times_screen_laws:
  assumes "\<forall>xs. mset (engine xs) = mset xs"
  shows "screen (times_view engine loc local_str members chores loading err) (times_step loc) (times_outside I) (times_ok I)"
  by unfold_locales (auto intro: times_step_ok dest: times_offers[OF assms])

text \<open>The engine of the browsers sorts; here it is the order of arrival.\<close>

interpretation times_screen: screen "times_view (\<lambda>xs. xs) loc local_str members chores loading err" "times_step loc"
  "times_outside I" "times_ok I" for loc local_str members chores loading err I
  by (rule times_screen_laws) simp

text \<open>The answer of a save closes the dialog of the entry that is being edited by then.\<close>

lemma late_answer_closes_other_edit:
  assumes "tr_waiting s = None" and "commit_edit loc x (tr_editing s) = (tr_editing s, CommitSends m)"
  shows "tr_editing (run (times_step loc) [SaveEdit x, CancelEdit, StartEdit y, UpdateDone (length (tr_sent s)) True] s) = None"
  using assms by simp

section \<open>Properties\<close>

text \<open>
  However the audit log is used: its page begins at a multiple of fifty, the action it asks for is one that an entry
  on screen had, the open rows are rows on screen, and once a period was chosen the log is never again shown
  without one.
\<close>

theorem audit_log_use:
  assumes "list_all (use_legal (log_outside A)) us" and "list_all (use_legal (log_outside A)) vs"
    and "s = run (use_step (audit_view t ago pretty showing mock narrow) log_step) us log_start"
    and "s' = run (use_step (audit_view t ago pretty showing mock narrow) log_step) vs s"
  shows "ap_offset (lg_page s) mod 50 = 0 \<and> 0 \<le> ap_offset (lg_page s) \<and>
    ap_action (lg_page s) \<in> insert [] A \<and> set (lg_open s) \<subseteq> ad_id ` set (shown_entries s) \<and>
    (ap_preset (lg_page s) \<noteq> [] \<longrightarrow> ap_preset (lg_page s') \<noteq> [])"
proof -
  let ?P = "insert [] (fst ` set date_presets)"
  have s: "log_ok A ?P s"
    unfolding assms(3)
    by (rule log_screen.always[OF _ assms(1)]) (simp add: log_ok_def log_start_def page_ok_def audit_start_def)
  have "ap_preset (lg_page s') \<noteq> []" if "ap_preset (lg_page s) \<noteq> []"
  proof -
    have "log_ok A (fst ` set date_presets) s" using s that by (auto simp: log_ok_def)
    then have "log_ok A (fst ` set date_presets) s'" unfolding assms(4) by (rule log_dated.always[OF _ assms(2)])
    then show ?thesis by (auto simp: log_ok_def date_presets_def)
  qed
  with s show ?thesis by (auto simp: log_ok_def page_ok_def audit_limit_def)
qed

text \<open>
  However the review is used, and in whatever order answers and new lists arrive, every request changes the end and
  the note of an entry that was listed, or deletes one; with the question open nothing else can be pressed.
\<close>

theorem time_review_requests:
  assumes "\<forall>xs. mset (engine xs) = mset xs" and "te_id ` set es \<subseteq> I" and "list_all (use_legal (times_outside I)) us"
    and "m \<in> set (tr_sent (run (use_step (times_view engine loc local_str members chores loading err) (times_step loc)) us (times_mount es)))"
  shows "\<exists>i \<in> I. (\<exists>b note. m = use_update_time_entry i None (Some b) (Some note)) \<or> m = use_delete_time_entry i"
proof -
  have "times_ok I (run (use_step (times_view engine loc local_str members chores loading err) (times_step loc)) us (times_mount es))"
    by (rule screen.always[OF times_screen_laws[OF assms(1)] _ assms(3)]) (use assms(2) in \<open>simp add: times_ok_def times_mount_def\<close>)
  with assms(4) show ?thesis unfolding times_ok_def times_request_ok_def by blast
qed

end
