(* ===== verification/MoneyViews.thy ===== *)
theory MoneyViews
  imports AdminForms Markup
begin

text \<open>
  The pages with which parents manage money, chores and points, as they are rendered and used:
  \<^verbatim>\<open>wallet-detail.tsx\<close>, \<^verbatim>\<open>wallets-admin.tsx\<close>, \<^verbatim>\<open>ad-hoc-admin.tsx\<close>, \<^verbatim>\<open>chores-admin.tsx\<close>,
  \<^verbatim>\<open>rewards-admin.tsx\<close> and \<^verbatim>\<open>points-admin.tsx\<close> of \<^verbatim>\<open>web/src/components/screens\<close>. What the handlers send is in
  \<open>AdminForms\<close>. A field that is sent when it is left is a field whose event carries the value it is
  left with.
\<close>

section \<open>A wallet\<close>

record api_wallet_transaction =
  wt_id :: string
  wt_amount_cents :: rat
  wt_kind :: string
  wt_reason :: string
  wt_created_at :: string

datatype wallet_event =
    TypeAllowance string
  | SaveAllowance
  | TypeTip string
  | TypeReason string
  | SendTip
  | TypeCash string
  | MarkPaid
  | ApproveBonus string
  | DeclineBonus string
  | TipAnswered nat bool
  | CashAnswered nat bool
  | BonusArrived "api_adhoc_task list"

text \<open>The fields, the tasks that wait, the last tip and payment under way, and the requests sent.\<close>

record wallet_page =
  wp_form :: wallet_form
  wp_pending :: "api_adhoc_task list"
  wp_tipping :: "nat option"
  wp_paying :: "nat option"
  wp_sent :: "mutation list"

definition wallet_mount :: "(string \<times> rat) list \<Rightarrow> string \<Rightarrow> wallet_page" where
  "wallet_mount allowances memberId =
     \<lparr>wp_form = open_wallet allowances memberId, wp_pending = [], wp_tipping = None, wp_paying = None, wp_sent = []\<rparr>"

definition cash_paid :: "wallet_form \<Rightarrow> wallet_form" where
  "cash_paid f = f\<lparr>wf_cash := []\<rparr>"

fun wallet_step :: "string \<Rightarrow> wallet_event \<Rightarrow> wallet_page \<Rightarrow> wallet_page" where
  "wallet_step i (TypeAllowance v) s = s\<lparr>wp_form := (wp_form s)\<lparr>wf_allowance := number_input v\<rparr>\<rparr>"
| "wallet_step i SaveAllowance s =
     (case save_allowance i (wp_form s) of None \<Rightarrow> s | Some m \<Rightarrow> s\<lparr>wp_sent := wp_sent s @ [m]\<rparr>)"
| "wallet_step i (TypeTip v) s = s\<lparr>wp_form := (wp_form s)\<lparr>wf_tip := number_input v\<rparr>\<rparr>"
| "wallet_step i (TypeReason v) s = s\<lparr>wp_form := (wp_form s)\<lparr>wf_reason := v\<rparr>\<rparr>"
| "wallet_step i SendTip s =
     (case fire_tip i (wp_form s) of
        None \<Rightarrow> s
      | Some m \<Rightarrow> s\<lparr>wp_tipping := Some (length (wp_sent s)), wp_sent := wp_sent s @ [m]\<rparr>)"
| "wallet_step i (TypeCash v) s = s\<lparr>wp_form := (wp_form s)\<lparr>wf_cash := number_input v\<rparr>\<rparr>"
| "wallet_step i MarkPaid s =
     (case fire_cash_out i (wp_form s) of
        None \<Rightarrow> s
      | Some m \<Rightarrow> s\<lparr>wp_paying := Some (length (wp_sent s)), wp_sent := wp_sent s @ [m]\<rparr>)"
| "wallet_step i (ApproveBonus t) s = s\<lparr>wp_sent := wp_sent s @ [use_approve_ad_hoc_task t]\<rparr>"
| "wallet_step i (DeclineBonus t) s = s\<lparr>wp_sent := wp_sent s @ [use_decline_ad_hoc_task t []]\<rparr>"
| "wallet_step i (TipAnswered n ok) s =
     (if wp_tipping s = Some n
      then s\<lparr>wp_tipping := None, wp_form := (if ok then tip_sent (wp_form s) else wp_form s)\<rparr> else s)"
| "wallet_step i (CashAnswered n ok) s =
     (if wp_paying s = Some n
      then s\<lparr>wp_paying := None, wp_form := (if ok then cash_paid (wp_form s) else wp_form s)\<rparr> else s)"
| "wallet_step i (BonusArrived ts) s = s\<lparr>wp_pending := ts\<rparr>"

text \<open>\<open>usd\<close> prints an amount in dollars, as \<^verbatim>\<open>toLocaleString\<close> does.\<close>

definition money_display :: "(rat \<Rightarrow> string) \<Rightarrow> rat \<Rightarrow> string" where
  "money_display usd cents =
     (let formatted = usd (\<bar>cents\<bar> / 100)
      in if cents < 0 then [CHR 0xE2, CHR 0x88, CHR 0x92] @ formatted else formatted)"

definition bonus_row :: "(rat \<Rightarrow> string) \<Rightarrow> (string \<Rightarrow> 'e) \<Rightarrow> (string \<Rightarrow> 'e) \<Rightarrow> string list \<Rightarrow> api_adhoc_task \<Rightarrow> 'e ui list" where
  "bonus_row usd approve decline owner t =
     [Txt (ah_name t)] @ map Txt owner @
     [Txt (money_display usd (of_int (ah_payout_cents t))),
      Btn (''approve:'' @ ah_id t) ''Approve'' True (approve (ah_id t)),
      Btn (''decline:'' @ ah_id t) ''Decline'' True (decline (ah_id t))]"

definition ledger_row :: "(rat \<Rightarrow> string) \<Rightarrow> (string \<Rightarrow> string) \<Rightarrow> api_wallet_transaction \<Rightarrow> 'e ui list" where
  "ledger_row usd local_str x =
     [Txt (if wt_reason x = [] then wt_kind x else wt_reason x),
      Txt (local_str (wt_created_at x) @ mid_dot @ wt_kind x),
      Txt (money_display usd (wt_amount_cents x))]"

definition wallet_view ::
  "(rat \<Rightarrow> string) \<Rightarrow> (string \<Rightarrow> string) \<Rightarrow> member list \<Rightarrow> string \<Rightarrow> rat option \<Rightarrow> api_wallet_transaction list \<Rightarrow>
   wallet_page \<Rightarrow> wallet_event ui list" where
  "wallet_view usd local_str members memberId balance txs s =
     (case find (\<lambda>m. mem_id m = memberId) members of
        None \<Rightarrow> [Txt ''Member not found.'']
      | Some m \<Rightarrow>
          (let f = wp_form s
           in [Txt (mem_name m), Txt (money_display usd (case balance of None \<Rightarrow> 0 | Some b \<Rightarrow> b)),
               Txt ''Weekly allowance'', Txt ''$'', Field ''allowance'' (wf_allowance f) TypeAllowance,
               Btn ''Save'' ''Save'' True SaveAllowance,
               Txt ''Send a tip'', Field ''tip-amount'' (wf_tip f) TypeTip,
               Field ''reason (e.g. helping w/ groceries)'' (wf_reason f) TypeReason,
               Btn ''Send tip'' ''Send tip'' (wf_tip f \<noteq> [] \<and> wf_reason f \<noteq> []) SendTip,
               Txt ''Cash out'', Field ''cash-amount'' (wf_cash f) TypeCash,
               Btn ''Mark as paid'' ''Mark as paid'' (wf_cash f \<noteq> []) MarkPaid] @
              shown_if (wp_pending s \<noteq> [])
                (Txt ''Pending bonus tasks'' # concat (map (bonus_row usd ApproveBonus DeclineBonus []) (wp_pending s))) @
              [Txt ''Ledger''] @ concat (map (ledger_row usd local_str) txs)))"

text \<open>The card of a child in the list of wallets.\<close>

datatype card_event = TypeAmount string | CashOutPressed | OpenDetail | CashOutSettled

record wallet_card_page =
  cp_card :: wallet_card
  cp_sent :: "mutation list"
  cp_went :: "string option"

fun card_step :: "string \<Rightarrow> card_event \<Rightarrow> wallet_card_page \<Rightarrow> wallet_card_page" where
  "card_step i (TypeAmount v) s = s\<lparr>cp_card := (cp_card s)\<lparr>wc_amount := number_input v\<rparr>\<rparr>"
| "card_step i CashOutPressed s =
     (case handle_cash_out i (cp_card s) of
        (c, m) \<Rightarrow> s\<lparr>cp_card := c, cp_sent := cp_sent s @ (case m of None \<Rightarrow> [] | Some x \<Rightarrow> [x])\<rparr>)"
| "card_step i OpenDetail s = s\<lparr>cp_went := Some (''/admin/wallets/'' @ i)\<rparr>"
| "card_step i CashOutSettled s = s\<lparr>cp_card := cash_out_settled (cp_card s)\<rparr>"

definition card_view :: "(rat \<Rightarrow> string) \<Rightarrow> member \<Rightarrow> rat option \<Rightarrow> wallet_card_page \<Rightarrow> card_event ui list" where
  "card_view usd m balance s =
     [Txt (mem_name m), Txt (money_display usd (case balance of None \<Rightarrow> 0 | Some b \<Rightarrow> b)), Txt ''$'',
      Field ''amount'' (wc_amount (cp_card s)) TypeAmount,
      Btn ''Cash out'' ''Cash out'' (\<not> cash_out_disabled (cp_card s)) CashOutPressed,
      Btn ''View detail'' (''View detail '' @ right_arrow) True OpenDetail]"

section \<open>Bonus tasks\<close>

datatype bonus_event =
    PickKid string
  | TypeTask string
  | TypeTaskAmount string
  | AssignTask
  | ApproveTask string
  | DeclineTask string
  | AssignAnswered nat bool
  | TasksArrived "api_adhoc_task list" "api_adhoc_task list"
  | KidsArrived "member list"

record bonus_page =
  bp_members :: "member list"
  bp_pending :: "api_adhoc_task list"
  bp_open :: "api_adhoc_task list"
  bp_member :: string
  bp_name :: string
  bp_amount :: string
  bp_waiting :: "nat option"
  bp_sent :: "mutation list"

definition bonus_mount :: "member list \<Rightarrow> bonus_page" where
  "bonus_mount ms =
     \<lparr>bp_members = ms, bp_pending = [], bp_open = [], bp_member = first_kid ms, bp_name = [], bp_amount = [],
      bp_waiting = None, bp_sent = []\<rparr>"

fun bonus_step :: "bonus_event \<Rightarrow> bonus_page \<Rightarrow> bonus_page" where
  "bonus_step (PickKid i) s = s\<lparr>bp_member := i\<rparr>"
| "bonus_step (TypeTask v) s = s\<lparr>bp_name := v\<rparr>"
| "bonus_step (TypeTaskAmount v) s = s\<lparr>bp_amount := number_input v\<rparr>"
| "bonus_step AssignTask s =
     (case submit_ad_hoc (bp_member s) (bp_name s) (bp_amount s) of
        None \<Rightarrow> s
      | Some m \<Rightarrow> s\<lparr>bp_waiting := Some (length (bp_sent s)), bp_sent := bp_sent s @ [m]\<rparr>)"
| "bonus_step (ApproveTask t) s = s\<lparr>bp_sent := bp_sent s @ [use_approve_ad_hoc_task t]\<rparr>"
| "bonus_step (DeclineTask t) s = s\<lparr>bp_sent := bp_sent s @ [use_decline_ad_hoc_task t []]\<rparr>"
| "bonus_step (AssignAnswered n ok) s =
     (if bp_waiting s = Some n
      then (if ok then s\<lparr>bp_waiting := None, bp_name := [], bp_amount := []\<rparr> else s\<lparr>bp_waiting := None\<rparr>) else s)"
| "bonus_step (TasksArrived ps os) s = s\<lparr>bp_pending := ps, bp_open := os\<rparr>"
| "bonus_step (KidsArrived ms) s = s\<lparr>bp_members := ms\<rparr>"

definition kids_of :: "member list \<Rightarrow> member list" where
  "kids_of ms = filter (\<lambda>m. mem_role m = ''child'') ms"

definition owner_name :: "member list \<Rightarrow> string \<Rightarrow> string" where
  "owner_name ms i = (case find (\<lambda>m. mem_id m = i) ms of None \<Rightarrow> ''?'' | Some m \<Rightarrow> mem_name m)"

definition bonus_view :: "(rat \<Rightarrow> string) \<Rightarrow> bonus_page \<Rightarrow> bonus_event ui list" where
  "bonus_view usd s =
     [Txt ''Bonus tasks'', Txt ''Quick assign'', Pick ''kid'' (bp_member s) (map mem_id (kids_of (bp_members s))) PickKid,
      Field ''Task name (e.g. clean pool filter)'' (bp_name s) TypeTask, Field ''amount'' (bp_amount s) TypeTaskAmount,
      Btn ''Assign'' ''Assign'' (bp_name s \<noteq> [] \<and> bp_amount s \<noteq> [] \<and> bp_member s \<noteq> []) AssignTask] @
     shown_if (bp_pending s \<noteq> [])
       (Txt ''Awaiting approval'' #
        concat (map (\<lambda>t. bonus_row usd ApproveTask DeclineTask [owner_name (bp_members s) (ah_member_id t)] t) (bp_pending s))) @
     shown_if (bp_open s \<noteq> [])
       (Txt ''Assigned (not yet completed)'' #
        concat (map (\<lambda>t. [Txt (ah_name t), Txt (owner_name (bp_members s) (ah_member_id t)),
          Txt (money_display usd (of_int (ah_payout_cents t)))]) (bp_open s)))"

section \<open>Chores\<close>

datatype chores_event =
    ToggleForm
  | PickChoreKid string
  | TypeChore string
  | SlideWeight string
  | PickFrequency string
  | TogglePet string
  | ToggleAuto
  | CreateChore
  | ArchiveChore string
  | ChoreAnswered nat bool "string option"
  | ChoresArrived "api_chore list"
  | MembersArrived "member list"

text \<open>A request to create keeps the pets picked when it was sent.\<close>

record chores_page =
  hp_members :: "member list"
  hp_chores :: "api_chore list"
  hp_form :: chore_form
  hp_waiting :: "(nat \<times> string list) option"
  hp_sent :: "mutation list"

definition chores_mount :: "member list \<Rightarrow> chores_page" where
  "chores_mount ms =
     \<lparr>hp_members = ms, hp_chores = [],
      hp_form = \<lparr>cf_show = False, cf_member = first_kid ms, cf_name = [], cf_weight = 3, cf_frequency = ''daily'',
                 cf_auto_approve = True, cf_pets = []\<rparr>,
      hp_waiting = None, hp_sent = []\<rparr>"

text \<open>The slider delivers one of its values, as text.\<close>

definition slid :: "string \<Rightarrow> int \<Rightarrow> int" where
  "slid v w = (case parse_int v of Fin x \<Rightarrow> \<lfloor>x\<rfloor> | _ \<Rightarrow> w)"

fun chores_step :: "chores_event \<Rightarrow> chores_page \<Rightarrow> chores_page" where
  "chores_step ToggleForm s = s\<lparr>hp_form := (hp_form s)\<lparr>cf_show := \<not> cf_show (hp_form s)\<rparr>\<rparr>"
| "chores_step (PickChoreKid i) s = s\<lparr>hp_form := (hp_form s)\<lparr>cf_member := i\<rparr>\<rparr>"
| "chores_step (TypeChore v) s = s\<lparr>hp_form := (hp_form s)\<lparr>cf_name := v\<rparr>\<rparr>"
| "chores_step (SlideWeight v) s = s\<lparr>hp_form := (hp_form s)\<lparr>cf_weight := slid v (cf_weight (hp_form s))\<rparr>\<rparr>"
| "chores_step (PickFrequency v) s = s\<lparr>hp_form := (hp_form s)\<lparr>cf_frequency := v\<rparr>\<rparr>"
| "chores_step (TogglePet i) s = s\<lparr>hp_form := (hp_form s)\<lparr>cf_pets := toggle_pet i (cf_pets (hp_form s))\<rparr>\<rparr>"
| "chores_step ToggleAuto s = s\<lparr>hp_form := (hp_form s)\<lparr>cf_auto_approve := \<not> cf_auto_approve (hp_form s)\<rparr>\<rparr>"
| "chores_step CreateChore s =
     (case submit_chore (hp_form s) of
        None \<Rightarrow> s
      | Some m \<Rightarrow> s\<lparr>hp_waiting := Some (length (hp_sent s), cf_pets (hp_form s)), hp_sent := hp_sent s @ [m]\<rparr>)"
| "chores_step (ArchiveChore i) s = s\<lparr>hp_sent := hp_sent s @ [use_archive_chore i]\<rparr>"
| "chores_step (ChoreAnswered n ok created) s =
     (case hp_waiting s of
        None \<Rightarrow> s
      | Some (k, pets) \<Rightarrow>
          if k \<noteq> n then s
          else if ok then
            (case chore_created created ((hp_form s)\<lparr>cf_pets := pets\<rparr>) of
               (f, m) \<Rightarrow> s\<lparr>hp_waiting := None, hp_form := f, hp_sent := hp_sent s @ (case m of None \<Rightarrow> [] | Some x \<Rightarrow> [x])\<rparr>)
          else s\<lparr>hp_waiting := None\<rparr>)"
| "chores_step (ChoresArrived cs) s = s\<lparr>hp_chores := cs\<rparr>"
| "chores_step (MembersArrived ms) s = s\<lparr>hp_members := ms\<rparr>"

definition chore_frequencies :: "(string \<times> string) list" where
  "chore_frequencies =
     [(''daily'', ''Daily (7'' @ times_sign @ ''/week)''), (''weekdays'', ''Weekdays (5'' @ times_sign @ ''/week)''), (''weekly'', ''Weekly'')]"

definition weight_values :: "string list" where
  "weight_values = map nat_str [1..<6]"

definition frequency_values :: "string list" where
  "frequency_values = map fst chore_frequencies"

definition pet_multi_select :: "member list \<Rightarrow> string list \<Rightarrow> chores_event ui list" where
  "pet_multi_select pets selected =
     shown_if (pets \<noteq> [])
       (Txt ''Pets (optional)'' #
        concat (map (\<lambda>p. [Check (''pet:'' @ mem_id p) (mem_id p \<in> set selected) (TogglePet (mem_id p)), Txt (mem_name p)]) pets))"

definition pets_of :: "member list \<Rightarrow> member list" where
  "pets_of ms = filter (\<lambda>m. mem_role m = ''pet'') ms"

definition chore_form_view :: "chores_page \<Rightarrow> chores_event ui list" where
  "chore_form_view s =
     (let f = hp_form s
      in [Pick ''kid'' (cf_member f) (map mem_id (kids_of (hp_members s))) PickChoreKid,
          Field ''Chore name'' (cf_name f) TypeChore, Txt (''Weight: '' @ int_str (cf_weight f)),
          Pick ''weight'' (int_str (cf_weight f)) weight_values SlideWeight,
          Pick ''frequency'' (cf_frequency f) frequency_values PickFrequency] @
         pet_multi_select (pets_of (hp_members s)) (cf_pets f) @
         [Check ''auto-approve'' (cf_auto_approve f) ToggleAuto,
          Btn ''Create'' ''Create'' (cf_name f \<noteq> [] \<and> cf_member f \<noteq> []) CreateChore])"

text \<open>Ids of pets that are no members are passed over.\<close>

definition linked_pets :: "member list \<Rightarrow> api_chore \<Rightarrow> member list" where
  "linked_pets ms c =
     concat (map (\<lambda>i. case find (\<lambda>m. mem_id m = i) ms of None \<Rightarrow> [] | Some m \<Rightarrow> [m])
       (case ch_pet_member_ids c of None \<Rightarrow> [] | Some is \<Rightarrow> is))"

definition chore_item :: "member list \<Rightarrow> api_chore \<Rightarrow> chores_event ui list" where
  "chore_item ms c =
     [Txt (ch_name c),
      Txt (owner_name ms (ch_member_id c) @ mid_dot @ ''weight '' @ int_str (ch_weight c) @ mid_dot @ ch_frequency_kind c @
           (if ch_auto_approve c then mid_dot @ ''auto'' else []) @
           (if linked_pets ms c = [] then [] else mid_dot @ ''pets: '' @ join '', '' (map mem_name (linked_pets ms c)))),
      Btn (''archive:'' @ ch_id c) ''Archive'' True (ArchiveChore (ch_id c))]"

definition chores_view :: "chores_page \<Rightarrow> chores_event ui list" where
  "chores_view s =
     [Txt ''Chores'', Btn ''toggle-form'' (if cf_show (hp_form s) then ''Close'' else ''+ New chore'') True ToggleForm] @
     shown_if (cf_show (hp_form s)) (chore_form_view s) @
     concat (map (chore_item (hp_members s)) (listed_chores (hp_chores s)))"

section \<open>Rewards\<close>

datatype rewards_event =
    TypeRewardName string
  | TypeRewardCost string
  | PickKind string
  | SubmitReward
  | BlurName api_reward string
  | BlurCost api_reward string
  | ArchiveReward string
  | ApproveRedemption string
  | AskDecline string
  | PromptAnswered "string option"
  | FulfillRedemption string
  | RewardsArrived "api_reward list"
  | RedemptionsArrived "api_redemption list"

record rewards_page =
  rp_rewards :: "api_reward list"
  rp_pending :: "api_redemption list"
  rp_name :: string
  rp_cost :: jnum
  rp_kind :: string
  rp_asking :: "string option"
  rp_sent :: "mutation list"

definition rewards_mount :: "api_reward list \<Rightarrow> api_redemption list \<Rightarrow> rewards_page" where
  "rewards_mount rs ps =
     \<lparr>rp_rewards = rs, rp_pending = ps, rp_name = [], rp_cost = Fin 50, rp_kind = ''needs_approval'', rp_asking = None, rp_sent = []\<rparr>"

definition sends :: "mutation option \<Rightarrow> rewards_page \<Rightarrow> rewards_page" where
  "sends m s = (case m of None \<Rightarrow> s | Some x \<Rightarrow> s\<lparr>rp_sent := rp_sent s @ [x]\<rparr>)"

fun rewards_step :: "rewards_event \<Rightarrow> rewards_page \<Rightarrow> rewards_page" where
  "rewards_step (TypeRewardName v) s = s\<lparr>rp_name := v\<rparr>"
| "rewards_step (TypeRewardCost v) s = s\<lparr>rp_cost := to_number (number_input v)\<rparr>"
| "rewards_step (PickKind v) s = s\<lparr>rp_kind := v\<rparr>"
| "rewards_step SubmitReward s =
     (case submit_reward (rp_name s) (rp_cost s) (rp_kind s) of
        None \<Rightarrow> s
      | Some m \<Rightarrow> s\<lparr>rp_sent := rp_sent s @ [m], rp_name := []\<rparr>)"
| "rewards_step (BlurName r v) s = sends (blur_reward_name (rw_id r) (rw_name r) v) s"
| "rewards_step (BlurCost r v) s = sends (blur_reward_cost (rw_id r) (of_int (rw_cost_points r)) (number_input v)) s"
| "rewards_step (ArchiveReward i) s = sends (Some (use_archive_reward i)) s"
| "rewards_step (ApproveRedemption i) s = sends (Some (use_approve_redemption i)) s"
| "rewards_step (AskDecline i) s = s\<lparr>rp_asking := Some i\<rparr>"
| "rewards_step (PromptAnswered a) s =
     (case rp_asking s of None \<Rightarrow> s | Some i \<Rightarrow> sends (decline_prompt i a) (s\<lparr>rp_asking := None\<rparr>))"
| "rewards_step (FulfillRedemption i) s = sends (Some (use_fulfill_redemption i)) s"
| "rewards_step (RewardsArrived rs) s = s\<lparr>rp_rewards := rs\<rparr>"
| "rewards_step (RedemptionsArrived ps) s = s\<lparr>rp_pending := ps\<rparr>"

text \<open>A \<^verbatim>\<open>Map\<close> from ids: the last entry of an id counts.\<close>

definition name_in :: "('a \<Rightarrow> string) \<Rightarrow> ('a \<Rightarrow> string) \<Rightarrow> 'a list \<Rightarrow> string \<Rightarrow> string" where
  "name_in i nm xs k = (case find (\<lambda>x. i x = k) (rev xs) of None \<Rightarrow> em_dash | Some x \<Rightarrow> nm x)"

definition redemption_row :: "member list \<Rightarrow> api_reward list \<Rightarrow> api_redemption \<Rightarrow> rewards_event ui list" where
  "redemption_row ms rs r =
     [Txt (name_in mem_id mem_name ms (rd_member_id r) @ [CHR '' ''] @ right_arrow @ [CHR '' ''] @ name_in rw_id rw_name rs (rd_reward_id r)),
      Txt (int_str (rd_points_at_redemption r) @ '' pts''),
      Btn (''approve:'' @ rd_id r) ''Approve'' True (ApproveRedemption (rd_id r)),
      Btn (''decline:'' @ rd_id r) ''Decline'' True (AskDecline (rd_id r)),
      Btn (''fulfill:'' @ rd_id r) ''Fulfill'' True (FulfillRedemption (rd_id r))]"

definition reward_row :: "api_reward \<Rightarrow> rewards_event ui list" where
  "reward_row r =
     [Field (''name:'' @ rw_id r) (rw_name r) (BlurName r),
      Txt (if rw_fulfillment_kind r = ''self_serve'' then ''self'' else ''approval''),
      Field (''cost:'' @ rw_id r) (int_str (rw_cost_points r)) (BlurCost r),
      Btn (''archive:'' @ rw_id r) ''Archive'' True (ArchiveReward (rw_id r))]"

text \<open>The question for a reason blocks the page until it is answered.\<close>

definition rewards_view :: "member list \<Rightarrow> rewards_page \<Rightarrow> rewards_event ui list" where
  "rewards_view ms s =
     (if rp_asking s \<noteq> None then
        [Txt ''Reason for declining?'', Field ''prompt'' [] (\<lambda>v. PromptAnswered (Some v)), Btn ''cancel'' ''Cancel'' True (PromptAnswered None)]
      else
        [Txt ''Rewards Admin''] @
        shown_if (rp_pending s \<noteq> [])
          (Txt (''Pending requests ('' @ nat_str (length (rp_pending s)) @ '')'') #
           concat (map (redemption_row ms (rp_rewards s)) (rp_pending s))) @
        [Txt ''Catalog'', Field ''Name'' (rp_name s) TypeRewardName, Field ''Cost'' (jnum_str (rp_cost s)) TypeRewardCost,
         Pick ''Fulfillment'' (rp_kind s) [''needs_approval'', ''self_serve''] PickKind, Btn ''Add'' ''Add'' True SubmitReward] @
        concat (map reward_row (rp_rewards s)))"

section \<open>Points\<close>

record point_category =
  pc_id :: string
  pc_name :: string
  pc_color :: string

datatype points_event =
    ShowTab string
  | TypeCategory string
  | PickColor string
  | AddCategory
  | BlurCategory point_category string
  | ArchiveCategory string
  | TypeBehavior string
  | PickCategory string
  | TypePoints string
  | AddBehavior
  | BlurBehavior behavior string
  | BlurPoints behavior string
  | ArchiveBehavior string
  | CategoriesArrived "point_category list"
  | BehaviorsArrived "behavior list"

text \<open>The fields belong to the panel of a tab and start again when the tab changes.\<close>

record points_page =
  pg_tab :: string
  pg_categories :: "point_category list"
  pg_behaviors :: "behavior list"
  pg_name :: string
  pg_color :: string
  pg_category :: string
  pg_points :: jnum
  pg_sent :: "mutation list"

definition points_mount :: "string \<Rightarrow> point_category list \<Rightarrow> behavior list \<Rightarrow> mutation list \<Rightarrow> points_page" where
  "points_mount tab cs bs sent =
     \<lparr>pg_tab = tab, pg_categories = cs, pg_behaviors = bs, pg_name = [], pg_color = ''#10b981'', pg_category = [],
      pg_points = Fin 1, pg_sent = sent\<rparr>"

definition post_points :: "mutation option \<Rightarrow> points_page \<Rightarrow> points_page" where
  "post_points m s = (case m of None \<Rightarrow> s | Some x \<Rightarrow> s\<lparr>pg_sent := pg_sent s @ [x]\<rparr>)"

definition submit_behavior_form :: "points_page \<Rightarrow> mutation option" where
  "submit_behavior_form s =
     Option.bind (with_amount (submit_behavior (pg_category s) (pg_name s)) (pg_points s)) (\<lambda>m. m)"

fun points_step :: "points_event \<Rightarrow> points_page \<Rightarrow> points_page" where
  "points_step (ShowTab t) s = (if t = pg_tab s then s else points_mount t (pg_categories s) (pg_behaviors s) (pg_sent s))"
| "points_step (TypeCategory v) s = s\<lparr>pg_name := v\<rparr>"
| "points_step (PickColor v) s = s\<lparr>pg_color := v\<rparr>"
| "points_step AddCategory s =
     (case submit_category (pg_name s) (pg_color s) of
        None \<Rightarrow> s
      | Some m \<Rightarrow> s\<lparr>pg_sent := pg_sent s @ [m], pg_name := []\<rparr>)"
| "points_step (BlurCategory c v) s =
     post_points (if v \<noteq> pc_name c then Some (use_update_point_category (pc_id c) [(''name'', JStr v)]) else None) s"
| "points_step (ArchiveCategory i) s = post_points (Some (use_archive_point_category i)) s"
| "points_step (TypeBehavior v) s = s\<lparr>pg_name := v\<rparr>"
| "points_step (PickCategory v) s = s\<lparr>pg_category := v\<rparr>"
| "points_step (TypePoints v) s = s\<lparr>pg_points := to_number (number_input v)\<rparr>"
| "points_step AddBehavior s =
     (case submit_behavior_form s of
        None \<Rightarrow> s
      | Some m \<Rightarrow> s\<lparr>pg_sent := pg_sent s @ [m], pg_name := []\<rparr>)"
| "points_step (BlurBehavior b v) s =
     post_points (if v \<noteq> bh_name b then Some (use_update_behavior (bh_id b) [(''name'', JStr v)]) else None) s"
| "points_step (BlurPoints b v) s = post_points (blur_behavior_points (bh_id b) (bh_suggested_points b) (number_input v)) s"
| "points_step (ArchiveBehavior i) s = post_points (Some (use_archive_behavior i)) s"
| "points_step (CategoriesArrived cs) s = s\<lparr>pg_categories := cs\<rparr>"
| "points_step (BehaviorsArrived bs) s = s\<lparr>pg_behaviors := bs\<rparr>"

definition categories_panel :: "points_page \<Rightarrow> points_event ui list" where
  "categories_panel s =
     [Field ''Name'' (pg_name s) TypeCategory, Field ''Color'' (pg_color s) PickColor, Btn ''Add'' ''Add'' True AddCategory] @
     concat (map (\<lambda>c. [Field (''name:'' @ pc_id c) (pc_name c) (BlurCategory c),
       Btn (''archive:'' @ pc_id c) ''Archive'' True (ArchiveCategory (pc_id c))]) (pg_categories s))"

definition behaviors_panel :: "points_page \<Rightarrow> points_event ui list" where
  "behaviors_panel s =
     [Field ''Behavior'' (pg_name s) TypeBehavior, Pick ''Category'' (pg_category s) ([] # map pc_id (pg_categories s)) PickCategory,
      Field ''Points'' (jnum_str (pg_points s)) TypePoints, Btn ''Add'' ''Add'' True AddBehavior] @
     concat (map (\<lambda>b. [Field (''name:'' @ bh_id b) (bh_name b) (BlurBehavior b),
       Txt (case find (\<lambda>c. pc_id c = bh_category_id b) (pg_categories s) of None \<Rightarrow> em_dash | Some c \<Rightarrow> pc_name c),
       Field (''points:'' @ bh_id b) (num_str (bh_suggested_points b)) (BlurPoints b),
       Btn (''archive:'' @ bh_id b) ''Archive'' True (ArchiveBehavior (bh_id b))]) (pg_behaviors s))"

definition points_view :: "points_page \<Rightarrow> points_event ui list" where
  "points_view s =
     [Txt ''Points Admin'', Btn ''categories'' ''Categories'' True (ShowTab ''categories''),
      Btn ''behaviors'' ''Behaviors'' True (ShowTab ''behaviors'')] @
     (if pg_tab s = ''categories'' then categories_panel s else behaviors_panel s)"

section \<open>Lemmas\<close>

text \<open>The wallet: what it offers, and that what it sends is for this child.\<close>

definition wallet_request_ok :: "string \<Rightarrow> string set \<Rightarrow> mutation \<Rightarrow> bool" where
  "wallet_request_ok i T m \<longleftrightarrow>
     (\<exists>x reason. 0 < x \<and> is_int x \<and> reason \<noteq> [] \<and> m = use_tip i x reason) \<or>
     (\<exists>x. 0 < x \<and> is_int x \<and> m = use_cash_out i x (Some ''cash'') None) \<or>
     (\<exists>x. 0 \<le> x \<and> is_int x \<and> m = use_upsert_allowance i x) \<or>
     (\<exists>t \<in> T. m = use_approve_ad_hoc_task t \<or> m = use_decline_ad_hoc_task t [])"

definition wallet_ok :: "string \<Rightarrow> string set \<Rightarrow> wallet_page \<Rightarrow> bool" where
  "wallet_ok i T s \<longleftrightarrow> ah_id ` set (wp_pending s) \<subseteq> T \<and> (\<forall>m \<in> set (wp_sent s). wallet_request_ok i T m)"

fun wallet_outside :: "string set \<Rightarrow> wallet_event \<Rightarrow> bool" where
  "wallet_outside T (TipAnswered n ok) \<longleftrightarrow> True"
| "wallet_outside T (CashAnswered n ok) \<longleftrightarrow> True"
| "wallet_outside T (BonusArrived ts) \<longleftrightarrow> ah_id ` set ts \<subseteq> T"
| "wallet_outside T e \<longleftrightarrow> False"

fun wallet_pressable :: "string set \<Rightarrow> wallet_event \<Rightarrow> bool" where
  "wallet_pressable T (ApproveBonus t) \<longleftrightarrow> t \<in> T"
| "wallet_pressable T (DeclineBonus t) \<longleftrightarrow> t \<in> T"
| "wallet_pressable T (BonusArrived ts) \<longleftrightarrow> ah_id ` set ts \<subseteq> T"
| "wallet_pressable T e \<longleftrightarrow> True"

lemma bonus_row_offers:
  "fire a (bonus_row usd f g owner t) = Some e \<Longrightarrow> e = f (ah_id t) \<or> e = g (ah_id t)"
  by (auto simp: bonus_row_def fire_append split: if_splits option.splits)

lemma ledger_silent [simp]: "fire a (concat (map (ledger_row usd ls) xs)) = None"
  by (induction xs) (simp_all add: ledger_row_def)

lemma wallet_offers:
  assumes "fire a (wallet_view usd ls ms i balance txs s) = Some e"
  shows "wallet_pressable (ah_id ` set (wp_pending s)) e"
  using assms
  by (auto simp: wallet_view_def Let_def fire_append dest!: fire_items bonus_row_offers
      split: option.splits if_splits act.splits)

lemma save_allowance_Some:
  assumes "save_allowance i f = Some m"
  shows "\<exists>x. 0 \<le> x \<and> is_int x \<and> m = use_upsert_allowance i x"
proof (cases "typed_cents (wf_allowance f)")
  case (Fin x)
  with assms have "0 \<le> x" "m = use_upsert_allowance i x"
    by (auto simp: save_allowance_def Let_def with_amount_def split: if_splits)
  with typed_cents_whole[OF Fin] show ?thesis by blast
qed (use assms in \<open>auto simp: save_allowance_def Let_def with_amount_def split: if_splits\<close>)

lemma wallet_sends:
  "save_allowance i f = Some m \<Longrightarrow> wallet_request_ok i T m"
  "fire_tip i f = Some m \<Longrightarrow> wallet_request_ok i T m"
  "fire_cash_out i f = Some m \<Longrightarrow> wallet_request_ok i T m"
  using save_allowance_Some typed_cents_whole
  by (fastforce simp: wallet_request_ok_def fire_tip_Some fire_cash_out_def cash_out_Some)+

lemma wallet_step_ok:
  assumes "wallet_ok i T s" and "wallet_pressable T e"
  shows "wallet_ok i T (wallet_step i e s)"
  using assms
  by (cases e) (auto simp: wallet_ok_def wallet_sends split: option.splits, auto simp: wallet_request_ok_def)

lemma wallet_pressable_mono: "wallet_pressable S e \<Longrightarrow> S \<subseteq> T \<Longrightarrow> wallet_pressable T e"
  by (cases e) auto

interpretation wallet_screen: screen "wallet_view usd ls ms i balance txs" "wallet_step i" "wallet_outside T" "wallet_ok i T"
  for usd ls ms i balance txs T
proof unfold_locales
  fix s a e assume s: "wallet_ok i T s" and f: "fire a (wallet_view usd ls ms i balance txs s) = Some e"
  from wallet_pressable_mono[OF wallet_offers[OF f], of T] s have "wallet_pressable T e" by (simp add: wallet_ok_def)
  with s show "wallet_ok i T (wallet_step i e s)" by (rule wallet_step_ok)
next
  fix s e assume "wallet_ok i T s" and "wallet_outside T e"
  then show "wallet_ok i T (wallet_step i e s)" by (intro wallet_step_ok) (cases e; simp)+
qed

text \<open>Chores.\<close>

definition chore_request_ok :: "string set \<Rightarrow> string set \<Rightarrow> string set \<Rightarrow> mutation \<Rightarrow> bool" where
  "chore_request_ok K P C m \<longleftrightarrow>
     (\<exists>k nm w fr auto. k \<in> K \<and> k \<noteq> [] \<and> nm \<noteq> [] \<and> 1 \<le> w \<and> w \<le> 5 \<and> fr \<in> set frequency_values \<and>
        m = use_create_chore [(''member_id'', JStr k), (''name'', JStr nm), (''weight'', JNum (of_int w)),
          (''frequency_kind'', JStr fr), (''auto_approve'', JBool auto)]) \<or>
     (\<exists>i ps. i \<noteq> [] \<and> ps \<noteq> [] \<and> distinct ps \<and> set ps \<subseteq> P \<and> m = use_set_chore_pets i ps) \<or>
     (\<exists>i \<in> C. m = use_archive_chore i)"

definition chores_ok :: "string set \<Rightarrow> string set \<Rightarrow> string set \<Rightarrow> chores_page \<Rightarrow> bool" where
  "chores_ok K P C s \<longleftrightarrow>
     mem_id ` set (kids_of (hp_members s)) \<subseteq> K \<and> mem_id ` set (pets_of (hp_members s)) \<subseteq> P \<and>
     ch_id ` set (hp_chores s) \<subseteq> C \<and> cf_member (hp_form s) \<in> insert [] K \<and>
     1 \<le> cf_weight (hp_form s) \<and> cf_weight (hp_form s) \<le> 5 \<and> cf_frequency (hp_form s) \<in> set frequency_values \<and>
     distinct (cf_pets (hp_form s)) \<and> set (cf_pets (hp_form s)) \<subseteq> P \<and>
     (\<forall>n ps. hp_waiting s = Some (n, ps) \<longrightarrow> distinct ps \<and> set ps \<subseteq> P) \<and>
     (\<forall>m \<in> set (hp_sent s). chore_request_ok K P C m)"

fun chores_outside :: "string set \<Rightarrow> string set \<Rightarrow> string set \<Rightarrow> chores_event \<Rightarrow> bool" where
  "chores_outside K P C (ChoreAnswered n ok created) \<longleftrightarrow> True"
| "chores_outside K P C (ChoresArrived cs) \<longleftrightarrow> ch_id ` set cs \<subseteq> C"
| "chores_outside K P C (MembersArrived ms) \<longleftrightarrow> mem_id ` set (kids_of ms) \<subseteq> K \<and> mem_id ` set (pets_of ms) \<subseteq> P"
| "chores_outside K P C e \<longleftrightarrow> False"

fun chores_pressable :: "string set \<Rightarrow> string set \<Rightarrow> string set \<Rightarrow> chores_event \<Rightarrow> bool" where
  "chores_pressable K P C (PickChoreKid i) \<longleftrightarrow> i \<in> K"
| "chores_pressable K P C (SlideWeight v) \<longleftrightarrow> v \<in> set weight_values"
| "chores_pressable K P C (PickFrequency v) \<longleftrightarrow> v \<in> set frequency_values"
| "chores_pressable K P C (TogglePet i) \<longleftrightarrow> i \<in> P"
| "chores_pressable K P C (ArchiveChore i) \<longleftrightarrow> i \<in> C"
| "chores_pressable K P C (ChoresArrived cs) \<longleftrightarrow> chores_outside K P C (ChoresArrived cs)"
| "chores_pressable K P C (MembersArrived ms) \<longleftrightarrow> chores_outside K P C (MembersArrived ms)"
| "chores_pressable K P C e \<longleftrightarrow> True"

lemma slid_range: "v \<in> set weight_values \<Longrightarrow> 1 \<le> slid v w \<and> slid v w \<le> 5"
proof -
  have "\<forall>k \<in> set [1..<6]. parse_int (nat_str k) = Fin (of_nat k)" by code_simp
  moreover assume "v \<in> set weight_values"
  then obtain k where k: "v = nat_str k" "k \<in> set [1..<6]" by (auto simp: weight_values_def)
  ultimately have "slid v w = int k" by (simp add: slid_def)
  with k show ?thesis by auto
qed

lemma pet_select_offers: "fire a (pet_multi_select ps sel) = Some e \<Longrightarrow> \<exists>p \<in> set ps. e = TogglePet (mem_id p)"
  by (auto simp: pet_multi_select_def dest!: fire_items split: if_splits)

lemma chore_item_offers: "fire a (chore_item ms c) = Some e \<Longrightarrow> e = ArchiveChore (ch_id c)"
  by (auto simp: chore_item_def Let_def split: if_splits)

lemma chore_form_offers:
  "fire a (chore_form_view s) = Some e \<Longrightarrow>
     chores_pressable (mem_id ` set (kids_of (hp_members s))) (mem_id ` set (pets_of (hp_members s))) C e"
  by (auto simp: chore_form_view_def Let_def fire_append dest!: pet_select_offers split: option.splits if_splits act.splits)

lemma chores_offers:
  "fire a (chores_view s) = Some e \<Longrightarrow>
     chores_pressable (mem_id ` set (kids_of (hp_members s))) (mem_id ` set (pets_of (hp_members s))) (ch_id ` set (hp_chores s)) e"
  by (auto simp: chores_view_def fire_append listed_chores_def dest!: fire_items chore_item_offers chore_form_offers
      split: option.splits if_splits)

lemma chores_pressable_mono:
  "chores_pressable K P C e \<Longrightarrow> K \<subseteq> K' \<Longrightarrow> P \<subseteq> P' \<Longrightarrow> C \<subseteq> C' \<Longrightarrow> chores_pressable K' P' C' e"
  by (cases e) auto

lemma chore_sends:
  assumes "chores_ok K P C s" and "submit_chore (hp_form s) = Some m"
  shows "chore_request_ok K P C m"
proof -
  let ?f = "hp_form s"
  from assms have "cf_name ?f \<noteq> []" "cf_member ?f \<noteq> []" "cf_member ?f \<in> K"
      "1 \<le> cf_weight ?f" "cf_weight ?f \<le> 5" "cf_frequency ?f \<in> set frequency_values"
    by (auto simp: chores_ok_def submit_chore_def split: if_splits)
  moreover from assms(2) have "m = use_create_chore [(''member_id'', JStr (cf_member ?f)), (''name'', JStr (cf_name ?f)),
      (''weight'', JNum (of_int (cf_weight ?f))), (''frequency_kind'', JStr (cf_frequency ?f)),
      (''auto_approve'', JBool (cf_auto_approve ?f))]"
    by (simp add: submit_chore_def split: if_splits)
  ultimately show ?thesis unfolding chore_request_ok_def
    by (intro disjI1 exI[of _ "cf_member ?f"] exI[of _ "cf_name ?f"] exI[of _ "cf_weight ?f"] exI[of _ "cf_frequency ?f"]
        exI[of _ "cf_auto_approve ?f"] conjI)
qed

lemma pets_send:
  assumes "distinct ps" and "set ps \<subseteq> P" and "chore_created created (f\<lparr>cf_pets := ps\<rparr>) = (g, Some m)"
  shows "chore_request_ok K P C m"
proof -
  from assms(3) have "ps \<noteq> []" "the created \<noteq> []" "m = use_set_chore_pets (the created) ps"
    by (auto simp: chore_created_def truthy_def split: if_splits option.splits)
  with assms(1,2) show ?thesis unfolding chore_request_ok_def by blast
qed

lemma created_form: "chore_created created (f\<lparr>cf_pets := ps\<rparr>) = (g, m) \<Longrightarrow> g = f\<lparr>cf_name := [], cf_pets := [], cf_show := False\<rparr>"
  by (auto simp: chore_created_def)

lemma toggle_pet_set:
  "distinct ps \<Longrightarrow> set ps \<subseteq> P \<Longrightarrow> i \<in> P \<Longrightarrow> distinct (toggle_pet i ps) \<and> set (toggle_pet i ps) \<subseteq> P"
  by (auto simp: toggle_pet_def)

lemma chores_step_ok:
  assumes s: "chores_ok K P C s" and e: "chores_pressable K P C e"
  shows "chores_ok K P C (chores_step e s)"
proof (cases e)
  case (SlideWeight v)
  with e slid_range[of v "cf_weight (hp_form s)"] s show ?thesis by (simp add: chores_ok_def)
next
  case (TogglePet i)
  with e s toggle_pet_set[of "cf_pets (hp_form s)" P i] show ?thesis by (simp add: chores_ok_def)
next
  case CreateChore
  with s chore_sends[OF s] show ?thesis by (auto simp: chores_ok_def split: option.splits)
next
  case (ArchiveChore i)
  with e have "chore_request_ok K P C (use_archive_chore i)" by (auto simp: chore_request_ok_def)
  with ArchiveChore s show ?thesis by (auto simp: chores_ok_def)
next
  case (ChoreAnswered n ok created)
  show ?thesis
  proof (cases "\<exists>ps. hp_waiting s = Some (n, ps) \<and> ok")
    case True
    then obtain ps where w: "hp_waiting s = Some (n, ps)" "ok" by blast
    obtain g m where c: "chore_created created ((hp_form s)\<lparr>cf_pets := ps\<rparr>) = (g, m)" by fastforce
    have "distinct ps" "set ps \<subseteq> P" using s w by (auto simp: chores_ok_def)
    with c have "\<forall>x. m = Some x \<longrightarrow> chore_request_ok K P C x" by (auto intro: pets_send)
    with s w c created_form[OF c] show ?thesis by (auto simp: ChoreAnswered chores_ok_def split: option.splits)
  next
    case False
    with s show ?thesis by (auto simp: ChoreAnswered chores_ok_def split: option.splits prod.splits)
  qed
qed (use s e in \<open>auto simp: chores_ok_def\<close>)

interpretation chores_screen: screen chores_view chores_step "chores_outside K P C" "chores_ok K P C" for K P C
proof unfold_locales
  fix s a e assume s: "chores_ok K P C s" and f: "fire a (chores_view s) = Some e"
  from chores_pressable_mono[OF chores_offers[OF f], of K P C] s have "chores_pressable K P C e" by (simp add: chores_ok_def)
  with s show "chores_ok K P C (chores_step e s)" by (rule chores_step_ok)
next
  fix s e assume "chores_ok K P C s" and "chores_outside K P C e"
  then show "chores_ok K P C (chores_step e s)" by (intro chores_step_ok) (cases e; simp)+
qed

text \<open>Opened before the members are there, the form has no child and its button does nothing until one is chosen.\<close>

lemma no_child_no_chore:
  "chores_step CreateChore (chores_step (MembersArrived ms) (chores_mount [])) = chores_step (MembersArrived ms) (chores_mount [])"
  by (simp add: chores_mount_def first_kid_def submit_chore_def)

text \<open>Rewards.\<close>

definition reward_request_ok :: "string set \<Rightarrow> string set \<Rightarrow> mutation \<Rightarrow> bool" where
  "reward_request_ok R D m \<longleftrightarrow>
     (\<exists>nm x kind. nm \<noteq> [] \<and> 0 \<le> x \<and> kind \<in> {''needs_approval'', ''self_serve''} \<and>
        m = use_create_reward [(''name'', JStr nm), (''cost_points'', JNum x), (''fulfillment_kind'', JStr kind)]) \<or>
     (\<exists>i \<in> R. m = use_archive_reward i \<or> (\<exists>patch. m = use_update_reward i patch)) \<or>
     (\<exists>i \<in> D. m = use_approve_redemption i \<or> m = use_fulfill_redemption i \<or>
        (\<exists>reason. reason \<noteq> [] \<and> m = use_decline_redemption i reason))"

definition rewards_ok :: "string set \<Rightarrow> string set \<Rightarrow> rewards_page \<Rightarrow> bool" where
  "rewards_ok R D s \<longleftrightarrow>
     rw_id ` set (rp_rewards s) \<subseteq> R \<and> rd_id ` set (rp_pending s) \<subseteq> D \<and> rp_kind s \<in> {''needs_approval'', ''self_serve''} \<and>
     (\<forall>i. rp_asking s = Some i \<longrightarrow> i \<in> D) \<and> (\<forall>m \<in> set (rp_sent s). reward_request_ok R D m)"

fun rewards_outside :: "string set \<Rightarrow> string set \<Rightarrow> rewards_event \<Rightarrow> bool" where
  "rewards_outside R D (RewardsArrived rs) \<longleftrightarrow> rw_id ` set rs \<subseteq> R"
| "rewards_outside R D (RedemptionsArrived ps) \<longleftrightarrow> rd_id ` set ps \<subseteq> D"
| "rewards_outside R D e \<longleftrightarrow> False"

fun rewards_pressable :: "string set \<Rightarrow> string set \<Rightarrow> rewards_event \<Rightarrow> bool" where
  "rewards_pressable R D (PickKind v) \<longleftrightarrow> v \<in> {''needs_approval'', ''self_serve''}"
| "rewards_pressable R D (BlurName r v) \<longleftrightarrow> rw_id r \<in> R"
| "rewards_pressable R D (BlurCost r v) \<longleftrightarrow> rw_id r \<in> R"
| "rewards_pressable R D (ArchiveReward i) \<longleftrightarrow> i \<in> R"
| "rewards_pressable R D (ApproveRedemption i) \<longleftrightarrow> i \<in> D"
| "rewards_pressable R D (AskDecline i) \<longleftrightarrow> i \<in> D"
| "rewards_pressable R D (FulfillRedemption i) \<longleftrightarrow> i \<in> D"
| "rewards_pressable R D (RewardsArrived rs) \<longleftrightarrow> rw_id ` set rs \<subseteq> R"
| "rewards_pressable R D (RedemptionsArrived ps) \<longleftrightarrow> rd_id ` set ps \<subseteq> D"
| "rewards_pressable R D e \<longleftrightarrow> True"

lemma rewards_pressable_mono: "rewards_pressable R D e \<Longrightarrow> R \<subseteq> R' \<Longrightarrow> D \<subseteq> D' \<Longrightarrow> rewards_pressable R' D' e"
  by (cases e) auto

lemma reward_rows_offer:
  "fire a (redemption_row ms rs r) = Some e \<Longrightarrow> e \<in> {ApproveRedemption (rd_id r), AskDecline (rd_id r), FulfillRedemption (rd_id r)}"
  "fire a (reward_row w) = Some e \<Longrightarrow> (\<exists>v. e = BlurName w v \<or> e = BlurCost w v) \<or> e = ArchiveReward (rw_id w)"
  by (auto simp: redemption_row_def reward_row_def split: if_splits act.splits)

lemma rewards_offers:
  assumes "fire a (rewards_view ms s) = Some e"
  shows "rewards_pressable (rw_id ` set (rp_rewards s)) (rd_id ` set (rp_pending s)) e"
  using assms
  by (auto simp: rewards_view_def fire_append dest!: fire_items reward_rows_offer split: option.splits if_splits act.splits)

lemma sends_ok: "rewards_ok R D s \<Longrightarrow> (\<And>x. m = Some x \<Longrightarrow> reward_request_ok R D x) \<Longrightarrow> rewards_ok R D (sends m s)"
  by (auto simp: sends_def rewards_ok_def split: option.splits)

lemma reward_sends:
  "i \<in> R \<Longrightarrow> blur_reward_name i nm v = Some m \<Longrightarrow> reward_request_ok R D m"
  "i \<in> R \<Longrightarrow> blur_reward_cost i c v = Some m \<Longrightarrow> reward_request_ok R D m"
  "i \<in> R \<Longrightarrow> reward_request_ok R D (use_archive_reward i)"
  "k \<in> D \<Longrightarrow> reward_request_ok R D (use_approve_redemption k)"
  "k \<in> D \<Longrightarrow> reward_request_ok R D (use_fulfill_redemption k)"
  "k \<in> D \<Longrightarrow> decline_prompt k ans = Some m \<Longrightarrow> reward_request_ok R D m"
  by (auto simp: reward_request_ok_def blur_reward_name_def blur_reward_cost_def decline_prompt_def with_amount_Some
      truthy_def split: if_splits option.splits)

lemma submit_reward_ok:
  assumes "kind \<in> {''needs_approval'', ''self_serve''}" and "submit_reward nm c kind = Some m"
  shows "reward_request_ok R D m"
proof -
  have "nm \<noteq> [] \<and> jleq (Fin 0) c" using assms(2) unfolding submit_reward_def by (metis option.distinct(1))
  then have "nm \<noteq> []" and c: "jleq (Fin 0) c" "with_amount (\<lambda>x. use_create_reward
      [(''name'', JStr nm), (''cost_points'', JNum x), (''fulfillment_kind'', JStr kind)]) c = Some m"
    using assms(2) by (simp_all only: submit_reward_def if_True simp_thms)
  from c(2) obtain x where x: "c = Fin x"
      "m = use_create_reward [(''name'', JStr nm), (''cost_points'', JNum x), (''fulfillment_kind'', JStr kind)]"
    unfolding with_amount_Some by blast
  from c(1) x(1) have "0 \<le> x" by (auto simp: jleq_def)
  with assms(1) x(2) \<open>nm \<noteq> []\<close> show ?thesis unfolding reward_request_ok_def by blast
qed

lemma rewards_step_ok:
  assumes s: "rewards_ok R D s" and e: "rewards_pressable R D e"
  shows "rewards_ok R D (rewards_step e s)"
proof (cases e)
  case SubmitReward
  have "rp_kind s \<in> {''needs_approval'', ''self_serve''}" using s by (simp only: rewards_ok_def)
  with s show ?thesis by (auto simp: SubmitReward rewards_ok_def submit_reward_ok simp del: insert_iff split: option.splits)
next
  case (PromptAnswered ans)
  show ?thesis
  proof (cases "rp_asking s")
    case (Some i)
    then have "i \<in> D" "rewards_ok R D (s\<lparr>rp_asking := None\<rparr>)" using s by (auto simp: rewards_ok_def)
    then show ?thesis by (simp add: PromptAnswered Some sends_ok reward_sends)
  qed (use s in \<open>simp add: PromptAnswered\<close>)
qed (use s e in \<open>auto simp: reward_sends intro!: sends_ok\<close>, (use s e in \<open>auto simp: rewards_ok_def\<close>)+)

interpretation rewards_screen: screen "rewards_view ms" rewards_step "rewards_outside R D" "rewards_ok R D" for ms R D
proof unfold_locales
  fix s a e assume s: "rewards_ok R D s" and f: "fire a (rewards_view ms s) = Some e"
  have "rewards_pressable R D e"
    by (rule rewards_pressable_mono[OF rewards_offers[OF f]]) (use s in \<open>simp_all only: rewards_ok_def\<close>)
  with s show "rewards_ok R D (rewards_step e s)" by (rule rewards_step_ok)
next
  fix s e assume "rewards_ok R D s" and "rewards_outside R D e"
  then show "rewards_ok R D (rewards_step e s)" by (intro rewards_step_ok) (cases e; simp)+
qed

text \<open>A cost field left empty sends zero, a negative number as it is.\<close>

lemma emptied_cost_sends_zero:
  assumes "c \<noteq> 0"
  shows "blur_reward_cost i c (number_input []) = Some (use_update_reward i [(''cost_points'', JNum 0)])"
proof -
  have "to_number (number_input []) = Fin 0" by code_simp
  with assms show ?thesis by (simp add: blur_reward_cost_def with_amount_def)
qed

lemma negative_cost_sent: "blur_reward_cost i 50 (number_input ''-5'') = Some (use_update_reward i [(''cost_points'', JNum (-5))])"
proof -
  have "to_number (number_input ''-5'') = Fin (-5)" by code_simp
  then show ?thesis by (simp add: blur_reward_cost_def with_amount_def)
qed

section \<open>Properties\<close>

text \<open>
  However the page of a wallet is used, and whenever answers and tasks arrive: what is sent is for this child, a tip
  of a positive whole number of cents with a reason, a payment of a positive one, an allowance that is not
  negative, or the answer to a task that was shown as pending.
\<close>

theorem wallet_page_requests:
  assumes "list_all (use_legal (wallet_outside T)) us"
    and "m \<in> set (wp_sent (run (use_step (wallet_view usd ls ms i balance txs) (wallet_step i)) us (wallet_mount al i)))"
  shows "(\<exists>x reason. 0 < x \<and> is_int x \<and> reason \<noteq> [] \<and> m = use_tip i x reason) \<or>
    (\<exists>x. 0 < x \<and> is_int x \<and> m = use_cash_out i x (Some ''cash'') None) \<or>
    (\<exists>x. 0 \<le> x \<and> is_int x \<and> m = use_upsert_allowance i x) \<or>
    (\<exists>t \<in> T. m = use_approve_ad_hoc_task t \<or> m = use_decline_ad_hoc_task t [])"
proof -
  have "wallet_ok i T (run (use_step (wallet_view usd ls ms i balance txs) (wallet_step i)) us (wallet_mount al i))"
    by (rule wallet_screen.always[OF _ assms(1)]) (simp add: wallet_ok_def wallet_mount_def)
  with assms(2) show ?thesis unfolding wallet_ok_def wallet_request_ok_def by blast
qed

text \<open>
  Whatever is pressed on the page of the chores and in whatever order answers arrive: a chore is created for a child
  that was listed, with a name, a weight from one to five and an offered frequency; pets are linked only when some
  were picked, each once, to the chore the server created; only listed chores are archived.
\<close>

theorem chores_page_requests:
  assumes "mem_id ` set (kids_of ms) \<subseteq> K" and "mem_id ` set (pets_of ms) \<subseteq> P"
    and "list_all (use_legal (chores_outside K P C)) us"
    and "m \<in> set (hp_sent (run (use_step chores_view chores_step) us (chores_mount ms)))"
  shows "(\<exists>k nm w fr auto. k \<in> K \<and> nm \<noteq> [] \<and> 1 \<le> w \<and> w \<le> 5 \<and> fr \<in> set frequency_values \<and>
       m = use_create_chore [(''member_id'', JStr k), (''name'', JStr nm), (''weight'', JNum (of_int w)),
         (''frequency_kind'', JStr fr), (''auto_approve'', JBool auto)]) \<or>
    (\<exists>i ps. i \<noteq> [] \<and> ps \<noteq> [] \<and> distinct ps \<and> set ps \<subseteq> P \<and> m = use_set_chore_pets i ps) \<or>
    (\<exists>i \<in> C. m = use_archive_chore i)"
proof -
  have "first_kid ms \<in> insert [] K"
  proof (cases "kids_of ms")
    case (Cons k ks)
    then have "mem_id k \<in> K" using assms(1) by auto
    with Cons show ?thesis by (simp add: first_kid_def kids_of_def)
  qed (simp add: first_kid_def kids_of_def)
  then have "chores_ok K P C (run (use_step chores_view chores_step) us (chores_mount ms))"
    using assms(1,2)
    by (intro chores_screen.always[OF _ assms(3)]) (simp add: chores_ok_def chores_mount_def frequency_values_def chore_frequencies_def)
  with assms(4) have "chore_request_ok K P C m" by (simp add: chores_ok_def)
  then show ?thesis unfolding chore_request_ok_def by blast
qed

text \<open>
  Whatever is pressed on the page of the rewards: a reward is created with a name and a cost that is not negative;
  changed, archived, approved, declined and fulfilled is only what was listed, and nothing is declined without a
  reason.
\<close>

theorem rewards_page_requests:
  assumes "rw_id ` set rs \<subseteq> R" and "rd_id ` set ps \<subseteq> D" and "list_all (use_legal (rewards_outside R D)) us"
    and "m \<in> set (rp_sent (run (use_step (rewards_view ms) rewards_step) us (rewards_mount rs ps)))"
  shows "(\<exists>nm x kind. nm \<noteq> [] \<and> 0 \<le> x \<and> kind \<in> {''needs_approval'', ''self_serve''} \<and>
       m = use_create_reward [(''name'', JStr nm), (''cost_points'', JNum x), (''fulfillment_kind'', JStr kind)]) \<or>
    (\<exists>i \<in> R. m = use_archive_reward i \<or> (\<exists>patch. m = use_update_reward i patch)) \<or>
    (\<exists>i \<in> D. m = use_approve_redemption i \<or> m = use_fulfill_redemption i \<or>
       (\<exists>reason. reason \<noteq> [] \<and> m = use_decline_redemption i reason))"
proof -
  have "rewards_ok R D (run (use_step (rewards_view ms) rewards_step) us (rewards_mount rs ps))"
    by (rule rewards_screen.always[OF _ assms(3)]) (use assms(1,2) in \<open>simp add: rewards_ok_def rewards_mount_def\<close>)
  with assms(4) have "reward_request_ok R D m" by (simp add: rewards_ok_def)
  then show ?thesis unfolding reward_request_ok_def .
qed

end
