(* ===== verification/EquityViews.thy ===== *)
theory EquityViews
  imports Equity AuthStore Markup
begin

text \<open>
  The balance screens as they are rendered and used (\<^verbatim>\<open>web/src/components/screens/equity.tsx\<close>): the tabs of the
  dashboard with its cards, the scales, the settings menu and the race, and the page
  \<^verbatim>\<open>app/equity/page.tsx\<close> around the first two. What the cards compute is in \<open>Equity\<close>. The texts drawn in
  a figure are kept, of its shapes only the sectors of the pie.
\<close>

section \<open>Contribution\<close>

definition hours_text :: "rat \<Rightarrow> string" where
  "hours_text h = num_str h @ ''h''"

definition contribution_row :: "member list \<Rightarrow> contribution \<times> contribution_bar \<Rightarrow> 'e ui list" where
  "contribution_row ms = (\<lambda>(c, b).
     [Box (''contribution-bar-'' @ co_member_id c)
        ((case member_by_id ms (co_member_id c) of None \<Rightarrow> [] | Some m \<Rightarrow> [Box ''avatar'' [Txt (mem_initial m)]]) @
         [Txt (cb_name b), Txt (hours_text (cb_hours b)), Txt (int_str (cb_pct b) @ ''%'')] @
         (case cb_band b of None \<Rightarrow> [] | Some s \<Rightarrow> [Txt s]))])"

definition contribution_bars_view :: "(int \<Rightarrow> string) \<Rightarrow> contribution list \<Rightarrow> member list \<Rightarrow> 'e ui list" where
  "contribution_bars_view digits cs ms = concat (map (contribution_row ms) (zip cs (contribution_bars digits ms cs)))"

record housekeeper_category =
  hk_category :: string
  hk_total_minutes :: rat
  hk_estimated_cost_cents :: rat
  hk_member_savings :: "member_saving list option"

record housekeeper_estimate =
  he_total_cents :: rat
  he_categories :: "housekeeper_category list"

definition housekeeper_row :: "(int \<Rightarrow> string) \<Rightarrow> member list \<Rightarrow> housekeeper_category \<Rightarrow> 'e ui list" where
  "housekeeper_row digits ms c =
     [Txt (hk_category c), Txt (hours_text (hours1 (hk_total_minutes c))), Txt (fmt_dollars digits (hk_estimated_cost_cents c))] @
     (case hk_member_savings c of None \<Rightarrow> [] | Some ss \<Rightarrow> map Txt (saving_spans digits ms ss))"

definition housekeeper_card :: "(int \<Rightarrow> string) \<Rightarrow> housekeeper_estimate \<Rightarrow> member list \<Rightarrow> 'e ui list" where
  "housekeeper_card digits h ms =
     [Txt ''Housekeeper cost'', Txt (fmt_dollars digits (he_total_cents h)),
      Txt ''Estimated cost to hire out the work logged this period.''] @
     concat (map (housekeeper_row digits ms) (he_categories h))"

text \<open>What the queries of the dashboard hold.\<close>

record equity_queries =
  qe_live :: "equity_dashboard option"
  qe_stub :: "equity_data option"
  qe_reasons :: "string list option"
  qe_contribution :: "contribution list option"
  qe_housekeeper :: "housekeeper_estimate option"
  qe_members :: "member list option"

definition eq_all_members :: "equity_queries \<Rightarrow> member list" where
  "eq_all_members q = (case qe_members q of None \<Rightarrow> [] | Some ms \<Rightarrow> ms)"

definition eq_contribution :: "equity_queries \<Rightarrow> contribution list" where
  "eq_contribution q = (case qe_contribution q of None \<Rightarrow> [] | Some cs \<Rightarrow> cs)"

definition overload_alert :: "equity_queries \<Rightarrow> 'e ui list" where
  "overload_alert q =
     (case overloaded_contribution (eq_all_members q) (eq_contribution q) of
        None \<Rightarrow> []
      | Some c \<Rightarrow>
          (case member_by_id (eq_all_members q) (co_member_id c) of
             None \<Rightarrow> []
           | Some m \<Rightarrow> [Box ''alert'' [Txt (mem_name m @ '' is carrying '' @ int_str (math_round (co_percentage_minutes c)) @
               ''% of household contribution '' @ em_dash @ '' consider rebalancing tasks.'')]]))"

definition contribution_tab :: "(int \<Rightarrow> string) \<Rightarrow> equity_queries \<Rightarrow> 'e ui list" where
  "contribution_tab digits q =
     [Txt ''Contribution by member''] @
     (if eq_contribution q \<noteq> [] then contribution_bars_view digits (eq_contribution q) (eq_all_members q)
      else [Txt (''No contribution data yet '' @ em_dash @ '' log time on a task or chore to populate this view.'')]) @
     overload_alert q @
     (case qe_housekeeper q of None \<Rightarrow> [] | Some h \<Rightarrow> housekeeper_card digits h (eq_all_members q))"

section \<open>Tasks\<close>

text \<open>The sectors of the pie, as fractions of the circle: one per adult, all of the same size.\<close>

definition pie_slices :: "member list \<Rightarrow> (member \<times> rat \<times> rat) list" where
  "pie_slices adults =
     (let slice = 1 / of_nat (max (length adults) 1)
      in map (\<lambda>(i, m). (m, of_nat i * slice, (of_nat i + 1) * slice)) (enumerate 0 adults))"

definition ownership_card :: "(string \<Rightarrow> string) \<Rightarrow> equity_data \<Rightarrow> member list \<Rightarrow> 'e ui list" where
  "ownership_card t eq adults =
     [Txt (t ''equity.domainOwnership''), Txt (nat_str (eqd_domains eq)), Txt ''DOMAINS''] @
     concat (map (\<lambda>m. [Txt (mem_name m), Txt (int_str (load_pct_shown eq m) @ ''%'')]) adults)"

definition load_text :: "(string \<Rightarrow> string) \<Rightarrow> load_label \<Rightarrow> string" where
  "load_text t l = t (case l of Balanced \<Rightarrow> ''equity.balanced'' | Watch \<Rightarrow> ''equity.watch'' | Overloaded \<Rightarrow> ''equity.overloaded'')"

definition load_card :: "(string \<Rightarrow> string) \<Rightarrow> equity_data \<Rightarrow> member list \<Rightarrow> string list option \<Rightarrow> 'e ui list" where
  "load_card t eq adults reasons =
     [Txt (t ''equity.loadIndicator'')] @
     concat (map (\<lambda>m. [Box ''avatar'' [Txt (mem_initial m)], Txt (mem_name m), Txt (snd (load_row eq m)),
       Txt (load_text t (fst (load_row eq m)))]) adults) @
     [Txt (case reasons of Some (r # _) \<Rightarrow> r | _ \<Rightarrow> t ''equity.suggestRebalance'')]"

definition personal_card :: "(string \<Rightarrow> string) \<Rightarrow> equity_data \<Rightarrow> member list \<Rightarrow> 'e ui list" where
  "personal_card t eq adults =
     [Txt (t ''equity.personalTime'')] @
     concat (map (\<lambda>m. case personal_ring eq m of (v, g) \<Rightarrow>
       [Txt (hours_text v), Txt (mem_name m @ middle_dot @ hours_text g @ '' goal'')]) adults)"

definition balance_row :: "equity_data \<Rightarrow> member \<Rightarrow> 'e ui list" where
  "balance_row eq m =
     (case adult_entry eq m of
        None \<Rightarrow> []
      | Some a \<Rightarrow>
          [Box ''avatar'' [Txt (mem_initial m)], Txt (mem_name m), Txt (hours_text (ea_total a)),
           Txt (''('' @ hours_text (ea_cognitive a) @ '' cognitive'' @ middle_dot @ hours_text (ea_physical a) @ '' physical)'')])"

definition trend_card :: "(string \<Rightarrow> string) \<Rightarrow> equity_data \<Rightarrow> member list \<Rightarrow> 'e ui list" where
  "trend_card t eq adults =
     [Txt (t ''equity.fourWeekTrend'')] @ map (\<lambda>y. Txt (int_str (30 - y) @ ''h'')) [0, 10, 20, 30] @
     map (\<lambda>x. Txt (et_w x)) (eqd_trend eq) @ map (\<lambda>m. Txt (mem_name m)) adults"

definition domain_row :: "member list \<Rightarrow> equity_domain \<Rightarrow> 'e ui list" where
  "domain_row ms d =
     (case member_by_id ms (dm_owner d) of None \<Rightarrow> [] | Some m \<Rightarrow> [Box ''avatar'' [Txt (mem_initial m)]]) @
     [Txt (dm_name d), Txt (num_str (dm_tasks d) @ '' tasks''), Txt (hours_text (dm_hours d))]"

definition tasks_tab :: "(string \<Rightarrow> string) \<Rightarrow> equity_data \<Rightarrow> equity_queries \<Rightarrow> 'e ui list" where
  "tasks_tab t eq q =
     (let ms = eq_all_members q; adults = adults_of ms; block = [CHR 0xE2, CHR 0x96, CHR 0x88, CHR '' '']
      in ownership_card t eq adults @ load_card t eq adults (qe_reasons q) @ personal_card t eq adults @
         [Txt (t ''equity.timeBalance'')] @ concat (map (balance_row eq) adults) @
         [Txt (block @ ''Cognitive (planning, remembering, organizing)''), Txt (block @ ''Physical (doing)'')] @
         trend_card t eq adults @ [Txt (t ''equity.domainDetail'')] @ concat (map (domain_row ms) (eqd_domain_list eq)))"

datatype equity_event = EquityTab string

text \<open>The dates of the header are a constant of the code.\<close>

definition header_dates :: string where
  "header_dates = ''April 20'' @ en_dash @ ''26, 2026''"

definition equity_view :: "(string \<Rightarrow> string) \<Rightarrow> (int \<Rightarrow> string) \<Rightarrow> equity_queries \<Rightarrow> string \<Rightarrow> equity_event ui list" where
  "equity_view t digits q tab =
     (case equity_shown (qe_live q) (qe_stub q) of
        None \<Rightarrow> [Txt (t ''equity.householdBalance''), Txt (t ''equity.noEquityData'')]
      | Some eq \<Rightarrow>
          [Txt (t ''equity.householdBalance''), Txt (t ''equity.distributed'' @ middle_dot), Txt header_dates,
           Txt (t ''equity.thisWeek''), Txt (t ''equity.thisMonth''), Txt (t ''equity.last3Months''),
           Btn ''tasks'' ''Tasks'' True (EquityTab ''tasks''),
           Btn ''contribution'' ''Contribution'' True (EquityTab ''contribution'')] @
          shown_if (tab = ''contribution'') (contribution_tab digits q) @ shown_if (tab = ''tasks'') (tasks_tab t eq q))"

fun equity_step :: "equity_event \<Rightarrow> string \<Rightarrow> string" where
  "equity_step (EquityTab i) tab = i"

section \<open>The scales\<close>

definition pan :: "equity_adult list \<Rightarrow> member option \<Rightarrow> 'e ui list" where
  "pan equityAdults m =
     (case m of None \<Rightarrow> [] | Some x \<Rightarrow> [Txt (int_str (pan_hours equityAdults m) @ ''h''), Txt (mem_name x)])"

definition scale_card :: "(string \<Rightarrow> string) \<Rightarrow> equity_adult list \<Rightarrow> member \<Rightarrow> 'e ui list" where
  "scale_card t equityAdults m =
     (let a = find (\<lambda>x. ea_id x = mem_id m) equityAdults; shown = (\<lambda>f. hours_text (case a of None \<Rightarrow> 0 | Some x \<Rightarrow> f x))
      in [Box ''avatar'' [Txt (mem_initial m)], Txt (mem_name m), Txt (shown ea_cognitive), Txt (t ''equity.cognitive''),
          Txt (shown ea_physical), Txt (t ''equity.physical''), Txt (shown ea_personal_hrs), Txt (t ''equity.personal'')])"

definition scale_adults :: "equity_queries \<Rightarrow> equity_adult list" where
  "scale_adults q = (case equity_shown (qe_live q) (qe_stub q) of None \<Rightarrow> [] | Some eq \<Rightarrow> eqd_adults eq)"

definition scales_view :: "(string \<Rightarrow> string) \<Rightarrow> equity_queries \<Rightarrow> 'e ui list" where
  "scales_view t q =
     (let adults = adults_of (eq_all_members q); as = scale_adults q
      in [Txt (t ''equity.theBalance''), Txt (t ''equity.momCarrying'')] @ pan as (nth_opt adults 0) @ pan as (nth_opt adults 1) @
         [Txt (t ''equity.watchList''), Txt (t ''equity.watchListDetail'')] @ concat (map (scale_card t as) adults))"

text \<open>The page: a switch above one of the two. The dashboard starts again on its tab of tasks when it comes back.\<close>

datatype equity_page_event = ShowView string | Inner equity_event

record equity_page =
  ep_view :: string
  ep_tab :: string

definition equity_page_view :: "(string \<Rightarrow> string) \<Rightarrow> (int \<Rightarrow> string) \<Rightarrow> equity_queries \<Rightarrow> equity_page \<Rightarrow> equity_page_event ui list" where
  "equity_page_view t digits q s =
     [Link (left_arrow @ '' Home'') ''/'', Btn ''Equity'' ''Equity'' True (ShowView ''Equity''), Btn ''Scales'' ''Scales'' True (ShowView ''Scales'')] @
     shown_if (ep_view s = ''Equity'') (map (map_ui Inner) (equity_view t digits q (ep_tab s))) @
     shown_if (ep_view s = ''Scales'') (scales_view t q)"

fun equity_page_step :: "equity_page_event \<Rightarrow> equity_page \<Rightarrow> equity_page" where
  "equity_page_step (ShowView v) s = (if v = ep_view s then s else \<lparr>ep_view = v, ep_tab = ''tasks''\<rparr>)"
| "equity_page_step (Inner e) s = s\<lparr>ep_tab := equity_step e (ep_tab s)\<rparr>"

section \<open>The settings menu\<close>

text \<open>\<^verbatim>\<open>s.toLowerCase().replace(/\s+/g, "-")\<close>.\<close>

function dashed :: "string \<Rightarrow> string" where
  "dashed [] = []"
| "dashed (c # s) = (if is_space c then CHR ''-'' # dashed (dropWhile is_space s) else c # dashed s)"
  by pat_completeness auto
termination by (relation "measure length") (auto simp: less_Suc_eq_le length_dropWhile_le)

definition menu_anchor :: "string \<Rightarrow> string" where
  "menu_anchor nm = ''/settings#'' @ dashed (lowercase nm)"

definition menu_groups :: "string list" where
  "menu_groups = [''household'', ''members'', ''calendars'', ''notifications'', ''displayKiosk'', ''aiAutomations'', ''backupPrivacy'', ''about'']"

datatype settings_menu_event = MenuSignOut | MenuDelete

definition menu_household :: "auth_state \<Rightarrow> string" where
  "menu_household s = (case au_household s of None \<Rightarrow> ''Tidyboard'' | Some h \<Rightarrow> if hh_name h = [] then ''Tidyboard'' else hh_name h)"

definition settings_row :: "(string \<Rightarrow> string) \<Rightarrow> string \<Rightarrow> 'e ui list" where
  "settings_row t g =
     (let nm = t (''settings.groups.'' @ g) in [Link nm (menu_anchor nm), Txt (t (''settings.groups.'' @ g @ ''Desc''))])"

definition settings_menu_view :: "(string \<Rightarrow> string) \<Rightarrow> auth_state \<times> string option \<Rightarrow> settings_menu_event ui list" where
  "settings_menu_view t s =
     [Txt (t ''nav.settings''), Txt (menu_household (fst s)), Txt ''Household settings''] @
     concat (map (settings_row t) menu_groups) @
     [Btn ''signOut'' (t ''settings.signOut'') True MenuSignOut,
      Btn ''deleteHousehold'' (t ''settings.deleteHousehold'') False MenuDelete]"

text \<open>The state is the session and where the router was sent.\<close>

fun settings_menu_step :: "settings_menu_event \<Rightarrow> auth_state \<times> string option \<Rightarrow> auth_state \<times> string option" where
  "settings_menu_step MenuSignOut s = (logout (fst s), Some ''/login'')"
| "settings_menu_step MenuDelete s = s"

section \<open>The race\<close>

record race_item =
  ri_name :: string
  ri_by :: "string option"

record race_state =
  ra_name :: string
  ra_participants :: "race_participant list"
  ra_items :: "race_item list"

definition race_track :: "member list \<Rightarrow> race_participant \<Rightarrow> 'e ui list" where
  "race_track ms p =
     (case member_by_id ms (rc_id p) of None \<Rightarrow> [] | Some m \<Rightarrow> [Box ''avatar'' [Txt (mem_initial m)]]) @
     [Txt (name_or_id ms (rc_id p)), Txt (num_str (rc_progress p) @ ''/'' @ nat_str (rc_items p))] @
     map (\<lambda>b. Box (if b then ''cell-done'' else ''cell'') []) (race_cells p)"

definition race_task :: "member list \<Rightarrow> race_item \<Rightarrow> 'e ui list" where
  "race_task ms it =
     (case claimed_by ms (ri_by it) of
        None \<Rightarrow> [Txt (ri_name it)]
      | Some m \<Rightarrow> [Box ''check'' [], Txt (ri_name it), Box ''avatar'' [Txt (mem_initial m)]])"

definition race_view :: "(string \<Rightarrow> string) \<Rightarrow> member list option \<Rightarrow> race_state option \<Rightarrow> 'e ui list" where
  "race_view t members r =
     (let ms = (case members of None \<Rightarrow> [] | Some xs \<Rightarrow> xs)
      in case r of
           None \<Rightarrow> [Txt (t ''race.noRaceActive'')]
         | Some x \<Rightarrow>
             [Txt (ra_name x), Txt (t ''race.firstToFinish''), Txt ''6:50'', Txt (t ''race.timeLeft'')] @
             concat (map (race_track ms) (ra_participants x)) @
             [Txt (t ''race.tasksTapToClaim'')] @ concat (map (race_task ms) (ra_items x)))"

section \<open>Lemmas\<close>

text \<open>The cards show and offer nothing to press.\<close>

lemma silent_items: "(\<And>x. fire a (f x) = None) \<Longrightarrow> fire a (concat (map f xs)) = None"
  by (induction xs) (simp_all add: fire_append)

lemma silent_rows [simp]:
  "fire a (contribution_row ms x) = None" "fire a (housekeeper_row digits ms c) = None"
  "fire a (balance_row eq m) = None" "fire a (domain_row ms d) = None" "fire a (scale_card t as m) = None"
  "fire a (pan as y) = None" "fire a (race_track ms p) = None" "fire a (race_task ms it) = None" "fire a (overload_alert q) = None"
proof -
  have "fire a (map (\<lambda>b. Box (if b then ''cell-done'' else ''cell'') []) bs) = None" for bs by (induction bs) simp_all
  then show "fire a (race_track ms p) = None" by (auto simp: race_track_def fire_append split: option.splits)
qed (auto simp: contribution_row_def housekeeper_row_def balance_row_def domain_row_def scale_card_def pan_def
       race_task_def overload_alert_def Let_def fire_append split: option.splits prod.splits)

lemma silent_tabs [simp]: "fire a (contribution_tab digits q) = None" "fire a (tasks_tab t eq q) = None"
  by (auto simp: contribution_tab_def contribution_bars_view_def housekeeper_card_def tasks_tab_def ownership_card_def load_card_def
      personal_card_def trend_card_def Let_def fire_append silent_items split: option.splits prod.splits)

lemma scales_silent [simp]: "fire a (scales_view t q) = None"
  by (simp add: scales_view_def Let_def fire_append silent_items)

lemma equity_offers: "fire a (equity_view t digits q tab) = Some e \<Longrightarrow> e \<in> {EquityTab ''tasks'', EquityTab ''contribution''}"
  by (auto simp: equity_view_def fire_append split: option.splits if_splits)

definition equity_page_ok :: "equity_page \<Rightarrow> bool" where
  "equity_page_ok s \<longleftrightarrow> ep_view s \<in> {''Equity'', ''Scales''} \<and> ep_tab s \<in> {''tasks'', ''contribution''}"

lemma equity_page_offers:
  "fire a (equity_page_view t digits q s) = Some e \<Longrightarrow>
     e \<in> {ShowView ''Equity'', ShowView ''Scales'', Inner (EquityTab ''tasks''), Inner (EquityTab ''contribution'')}"
  by (auto simp: equity_page_view_def fire_append fire_map dest!: equity_offers split: option.splits if_splits)

interpretation equity_screen: screen "equity_page_view t digits q" equity_page_step "\<lambda>_. False" equity_page_ok for t digits q
  by unfold_locales (auto simp: equity_page_ok_def dest!: equity_page_offers)

text \<open>The settings menu: all that can be pressed signs out.\<close>

lemma menu_row_silent [simp]: "fire a (settings_row t g) = None"
  by (simp add: settings_row_def Let_def)

lemma settings_menu_offers: "fire a (settings_menu_view t s) = Some e \<Longrightarrow> e = MenuSignOut"
  by (auto simp: settings_menu_view_def fire_append silent_items split: if_splits)

lemma menu_anchors_english: "dashed (lowercase ''Display & Kiosk'') = ''display-&-kiosk''"
  by code_simp

section \<open>Properties\<close>

text \<open>
  The sectors of the pie tile the circle in the order of the adults, and all have the same size, whatever the adults
  do: the figure called ownership shows how many adults there are.
\<close>

theorem pie_shows_the_count:
  assumes "adults \<noteq> []" and "i < length adults"
  shows "fst (pie_slices adults ! i) = adults ! i \<and>
    snd (snd (pie_slices adults ! i)) - fst (snd (pie_slices adults ! i)) = 1 / of_nat (length adults) \<and>
    fst (snd (pie_slices adults ! i)) = (if i = 0 then 0 else snd (snd (pie_slices adults ! (i - 1)))) \<and>
    (Suc i = length adults \<longrightarrow> snd (snd (pie_slices adults ! i)) = 1)"
proof -
  let ?n = "of_nat (length adults) :: rat"
  have n: "?n > 0" "max (length adults) 1 = length adults" using assms(1) by (cases adults; simp)+
  have at: "pie_slices adults ! j = (adults ! j, of_nat j * (1 / ?n), (of_nat j + 1) * (1 / ?n))" if "j < length adults" for j
    using that n(2) by (simp add: pie_slices_def Let_def nth_enumerate_eq)
  have "(of_nat i + 1) * (1 / ?n) = 1" if "Suc i = length adults"
    using n(1) by (simp add: that[symmetric] field_simps)
  with at[of i] at[of "i - 1"] assms(2) n(1) show ?thesis
    by (cases i) (auto simp: field_simps)
qed

text \<open>
  The tab of contributions warns exactly when the hint of \<open>Equity\<close> finds somebody, and names that person; the warning
  is not on the tab of tasks.
\<close>

theorem overload_alert_shown:
  "(overload_alert q \<noteq> []) = (overloaded_contribution (eq_all_members q) (eq_contribution q) \<noteq> None) \<and>
   (\<forall>c. overloaded_contribution (eq_all_members q) (eq_contribution q) = Some c \<longrightarrow>
      (\<exists>m rest. member_by_id (eq_all_members q) (co_member_id c) = Some m \<and> mem_role m = ''adult'' \<and>
         co_percentage_minutes c > 70 \<and> says (overload_alert q) = [mem_name m @ '' is carrying '' @ rest]))"
proof -
  have found: "\<exists>m. member_by_id (eq_all_members q) (co_member_id c) = Some m \<and> mem_role m = ''adult'' \<and> co_percentage_minutes c > 70"
    if "overloaded_contribution (eq_all_members q) (eq_contribution q) = Some c" for c
    using that by (auto simp: overloaded_contribution_def rebalance_threshold_pct_def find_Some_iff split: option.splits)
  show ?thesis
  proof (cases "overloaded_contribution (eq_all_members q) (eq_contribution q)")
    case None
    then show ?thesis by (simp add: overload_alert_def)
  next
    case (Some c)
    from found[OF this] obtain m where "member_by_id (eq_all_members q) (co_member_id c) = Some m"
      "mem_role m = ''adult''" "co_percentage_minutes c > 70" by blast
    with Some show ?thesis by (simp add: overload_alert_def)
  qed
qed

text \<open>However the page is used, it shows one of its two views, and the dashboard one of its two tabs.\<close>

theorem equity_page_use:
  "let s = run (use_step (equity_page_view t digits q) equity_page_step) (map User as) \<lparr>ep_view = ''Equity'', ep_tab = ''tasks''\<rparr>
   in (ep_view s = ''Equity'' \<or> ep_view s = ''Scales'') \<and> (ep_tab s = ''tasks'' \<or> ep_tab s = ''contribution'') \<and>
      (ep_view s = ''Scales'' \<longrightarrow> (\<forall>a e. fire a (equity_page_view t digits q s) \<noteq> Some (Inner e)))"
proof -
  have "equity_page_ok (run (use_step (equity_page_view t digits q) equity_page_step) (map User as) \<lparr>ep_view = ''Equity'', ep_tab = ''tasks''\<rparr>)"
    by (rule equity_screen.always) (simp_all add: equity_page_ok_def)
  then show ?thesis by (auto simp: Let_def equity_page_ok_def equity_page_view_def fire_append split: option.splits if_splits)
qed

text \<open>
  Whatever is pressed in the settings menu, the session is the one before or one without token, account and household
  with the router sent to the login page: the button that deletes the household does nothing.
\<close>

theorem settings_menu_use:
  "let s' = run (use_step (settings_menu_view t) settings_menu_step) (map User as) (s, None)
   in s' = (s, None) \<or> (snd s' = Some ''/login'' \<and> au_token (fst s') = None \<and> au_account (fst s') = None \<and> au_household (fst s') = None)"
proof -
  let ?I = "\<lambda>s'. s' = (s, None) \<or> (snd s' = Some ''/login'' \<and> au_token (fst s') = None \<and> au_account (fst s') = None \<and> au_household (fst s') = None)"
  have "screen (settings_menu_view t) settings_menu_step (\<lambda>_. False) ?I"
    by unfold_locales (auto dest!: settings_menu_offers simp: logout_def drop_session_def clear_session_state_def)
  from screen.always[OF this, of "(s, None)" "map User as"] show ?thesis by (simp add: Let_def)
qed

end
