(* ===== verification/DashViews.thy ===== *)
theory DashViews
  imports ListViews RecipeScreens AuthStore
begin

text \<open>
  The dashboards as they are rendered and used: \<^verbatim>\<open>dashboard-phone.tsx\<close>, \<^verbatim>\<open>dashboard-kiosk-ambient.tsx\<close>,
  \<^verbatim>\<open>dashboard-kiosk-columns.tsx\<close>, \<^verbatim>\<open>dashboard-desktop.tsx\<close> and \<^verbatim>\<open>dashboard-kiosk.tsx\<close> of
  \<^verbatim>\<open>web/src/components/screens\<close>, with \<^verbatim>\<open>bottom-nav.tsx\<close>, \<^verbatim>\<open>scoreboard.tsx\<close> and the stacked avatars of
  \<^verbatim>\<open>components/ui/avatar.tsx\<close>. What they choose and compute is in \<open>Dashboards\<close>. Dates and times of the
  browser are arguments; a view that raises is \<open>None\<close>.
\<close>

section \<open>Parts\<close>

definition bottom_nav :: "(string \<times> string option) list \<Rightarrow> 'e ui list" where
  "bottom_nav tabs = map (\<lambda>(l, href). case href of Some h \<Rightarrow> if h = [] then Txt l else Link l h | None \<Rightarrow> Txt l) tabs"

definition avatar_box :: "member \<Rightarrow> 'e ui" where
  "avatar_box m = Box ''avatar'' [Txt (mem_initial m)]"

text \<open>At most four, then the number of the others.\<close>

definition stacked_avatars :: "member list \<Rightarrow> 'e ui list" where
  "stacked_avatars ms = map avatar_box (take 4 ms) @ shown_if (length ms > 4) [Txt (CHR ''+'' # nat_str (length ms - 4))]"

text \<open>A map from ids keeps the last member of an id; ids of no member are passed over.\<close>

definition member_in :: "member list \<Rightarrow> string \<Rightarrow> member option" where
  "member_in ms i = find (\<lambda>m. mem_id m = i) (rev ms)"

definition phone_members :: "member list \<Rightarrow> string list \<Rightarrow> member list" where
  "phone_members ms ids = List.map_filter (member_in ms) ids"

definition dash :: string where "dash = [CHR '' '', CHR 0xE2, CHR 0x80, CHR 0x93, CHR '' '']"

definition label_time :: "(int \<Rightarrow> string) \<Rightarrow> zone \<Rightarrow> string option \<Rightarrow> string" where
  "label_time clock z v = fmt_time clock z (case v of None \<Rightarrow> [] | Some s \<Rightarrow> s)"

definition event_href :: "tbd_event \<Rightarrow> string" where
  "event_href e = ''/calendar?event='' @ encode_uri_component (ev_id e)"

text \<open>Where the router was sent, and the active member.\<close>

datatype dash_event = GoTo string | PressMember member | RetryDash | LockNow

definition dash_event_card :: "tbd_event \<Rightarrow> dash_event ui list \<Rightarrow> dash_event ui list" where
  "dash_event_card e body = Btn (''event:'' @ ev_id e) (ev_title e) True (GoTo (event_href e)) # body"

definition child_tabs :: "(string \<Rightarrow> string) \<Rightarrow> auth_member option \<Rightarrow> (string \<times> string option) list" where
  "child_tabs t active =
     (if map_option am_role active = Some RoleChild
      then [(t ''nav.rewards'', Some ''/rewards''), (''Scoreboard'', Some ''/scoreboard'')] else [])"

definition nav_tabs :: "(string \<Rightarrow> string) \<Rightarrow> string list \<Rightarrow> (string \<times> string option) list" where
  "nav_tabs t names = map (\<lambda>n. (t (''nav.'' @ n), Some (CHR ''/'' # n))) names"

section \<open>The phone\<close>

text \<open>The members of an event are read from its legacy field, without which the page raises.\<close>

definition phone_card :: "(int \<Rightarrow> string) \<Rightarrow> zone \<Rightarrow> member list \<Rightarrow> tbd_event \<Rightarrow> dash_event ui list option" where
  "phone_card clock z ms e =
     map_option (\<lambda>ids. dash_event_card e (stacked_avatars (phone_members ms ids) @
         [Txt (label_time clock z (ev_start e) @ dash @ label_time clock z (ev_end e))]))
       (ev_members e)"

definition phone_tabs :: "(string \<Rightarrow> string) \<Rightarrow> auth_member option \<Rightarrow> (string \<times> string option) list" where
  "phone_tabs t active =
     nav_tabs t [''calendar'', ''routines'', ''lists'', ''notes'', ''meals'', ''wallet'', ''chores'', ''equity''] @ child_tabs t active"

definition phone_view ::
  "(string \<Rightarrow> string) \<Rightarrow> (string \<Rightarrow> nat \<Rightarrow> string) \<Rightarrow> (int \<Rightarrow> string) \<Rightarrow> zone \<Rightarrow> string \<Rightarrow> string \<Rightarrow> auth_member option \<Rightarrow>
   cal_data \<Rightarrow> dash_event ui list option" where
  "phone_view t tn clock z weekday dateLabel active d =
     (if cd_members_error d \<noteq> None \<or> cd_events_error d \<noteq> None \<or> cd_members_pending d \<or> cd_events_pending d
      then Some (cal_guard ''Unable to load dashboard data'' ''Loading dashboard...'' RetryDash d [])
      else (let ms = data_members d; es = data_events d
            in map_option (\<lambda>cards.
                 [Txt ''tidyboard''] @ map avatar_box (take 1 (drop 1 ms)) @
                 [Txt weekday, Txt (dateLabel @ mid_dot @ tn ''dashboard.eventsShort'' (length es))] @
                 shown_if (es = []) [Txt (t ''dashboard.noEvents'')] @ concat cards @
                 [Txt ''MEALS'', Txt ''No dinner planned''] @ bottom_nav (phone_tabs t active))
               (those (map (phone_card clock z ms) (take 5 es)))))"

section \<open>The ambient kiosk\<close>

text \<open>\<^verbatim>\<open>s.replace(":00", "")\<close>: the first occurrence goes.\<close>

fun drop_first :: "string \<Rightarrow> string \<Rightarrow> string" where
  "drop_first p [] = []"
| "drop_first p (c # s) = (if starts_with (c # s) p then drop (length p) (c # s) else c # drop_first p s)"

definition ambient_member :: "(string \<Rightarrow> nat \<Rightarrow> string) \<Rightarrow> (int \<Rightarrow> string) \<Rightarrow> zone \<Rightarrow> tbd_event list \<Rightarrow> member \<Rightarrow> 'e ui list" where
  "ambient_member tn clock z es m =
     (let evs = kiosk_column_events es m
      in [avatar_box m, Txt (mem_name m), Txt (tn ''dashboard.todayCount'' (length evs))] @
         shown_if (mem_role m = ''child'') [Txt (int_str (mem_stars m))] @
         concat (map (\<lambda>e. [Txt (drop_first '':00'' (label_time clock z (ev_start e))), Txt (ev_title e)]) (take 3 evs)))"

definition ambient_next :: "(string \<Rightarrow> string) \<Rightarrow> (int \<Rightarrow> string) \<Rightarrow> zone \<Rightarrow> member list \<Rightarrow> tbd_event list \<Rightarrow> 'e ui list option" where
  "ambient_next t clock z ms es =
     (case es of
        [] \<Rightarrow> Some [Txt (t ''dashboard.noEvents'')]
      | e # _ \<Rightarrow>
          map_option (\<lambda>ids. [Txt (ev_title e)] @ stacked_avatars (phone_members ms ids) @
              [Txt (label_time clock z (ev_start e) @ mid_dot @ (case ev_location e of None \<Rightarrow> [] | Some l \<Rightarrow> l))])
            (ev_members e))"

text \<open>The minutes to the next event and the hour of the dinner are constants of the code.\<close>

definition ambient_view ::
  "(string \<Rightarrow> string) \<Rightarrow> (string \<Rightarrow> nat \<Rightarrow> string) \<Rightarrow> (int \<Rightarrow> string) \<Rightarrow> zone \<Rightarrow> string \<Rightarrow> string \<Rightarrow> member list \<Rightarrow>
   tbd_event list \<Rightarrow> dash_event ui list option" where
  "ambient_view t tn clock z timeLabel dateLabel ms es =
     map_option (\<lambda>nxt.
         [Txt timeLabel, Txt dateLabel, Txt em_dash, Txt (tn ''dashboard.nextUpIn'' 26)] @ nxt @
         concat (map (ambient_member tn clock z es) ms) @
         [Txt (t ''dashboard.tonightTime''), Txt ''No dinner planned'',
          Btn ''recipe'' (t ''dashboard.recipe'') True (GoTo ''/recipes'')])
       (ambient_next t clock z ms es)"

section \<open>The columns\<close>

definition hour_labels :: "string list" where
  "hour_labels = map (\<lambda>h. nat_str ((h + 11) mod 12 + 1) @ (if h < 12 then ''a'' else ''p'')) [7..<21]"

definition column_view :: "(string \<Rightarrow> nat \<Rightarrow> string) \<Rightarrow> (int \<Rightarrow> string) \<Rightarrow> zone \<Rightarrow> tbd_event list \<Rightarrow> member \<Rightarrow> 'e ui list option" where
  "column_view tn clock z es m =
     (let evs = kiosk_column_events es m
      in map_option (\<lambda>blocks.
           [avatar_box m, Txt (mem_name m), Txt (tn ''dashboard.eventsShort'' (length evs))] @
           concat (map (\<lambda>(e, top, height, label). [Txt (ev_title e), Txt label]) (zip evs blocks)))
         (those (map (column_block clock z) evs)))"

definition columns_view ::
  "(string \<Rightarrow> string) \<Rightarrow> (string \<Rightarrow> nat \<Rightarrow> string) \<Rightarrow> (int \<Rightarrow> string) \<Rightarrow> zone \<Rightarrow> string \<Rightarrow> string \<Rightarrow> member list \<Rightarrow>
   tbd_event list \<Rightarrow> dash_event ui list option" where
  "columns_view t tn clock z weekday dateTimeLabel ms es =
     map_option (\<lambda>cols.
         [Txt weekday, Txt dateTimeLabel, Btn ''new'' (t ''dashboard.event'') True (GoTo ''/calendar?new=event'')] @
         map Txt hour_labels @ concat cols @
         bottom_nav (nav_tabs t [''calendar'', ''routines'', ''lists'', ''meals'', ''equity'', ''race'']))
       (those (map (column_view tn clock z es) ms))"

section \<open>The desktop\<close>

text \<open>A press on the active member clears it.\<close>

definition member_role_of :: "member \<Rightarrow> auth_role" where
  "member_role_of m = (if mem_role m = ''child'' then RoleChild else RoleAdult)"

definition as_active :: "member \<Rightarrow> auth_member" where
  "as_active m = \<lparr>am_id = mem_id m, am_name = mem_name m, am_role = member_role_of m\<rparr>"

record desktop_page =
  dp_session :: auth_state
  dp_went :: "string option"
  dp_refetches :: nat

fun desktop_step :: "dash_event \<Rightarrow> desktop_page \<Rightarrow> desktop_page" where
  "desktop_step (GoTo h) s = s\<lparr>dp_went := Some h\<rparr>"
| "desktop_step (PressMember m) s =
     (let pressed = (if map_option am_id (active_member (dp_session s)) = Some (mem_id m) then None else Some (as_active m))
      in s\<lparr>dp_session := set_active_member pressed (dp_session s)\<rparr>)"
| "desktop_step RetryDash s = s\<lparr>dp_refetches := dp_refetches s + 1\<rparr>"
| "desktop_step LockNow s = s"

record desktop_data =
  dd_cal :: cal_data
  dd_household_error :: "jsval option"
  dd_household_pending :: bool
  dd_household_name :: "string option"
  dd_redemptions :: "api_redemption list option"
  dd_ad_hoc :: "api_adhoc_task list option"
  dd_weather :: "weather_snapshot option"
  dd_categories :: "(string \<times> string) list"
  dd_scores :: "score_row list"

definition desktop_household :: "auth_state \<Rightarrow> desktop_data \<Rightarrow> string" where
  "desktop_household s d =
     (case dd_household_name d of
        Some n \<Rightarrow> if n \<noteq> [] then n else (case au_household s of Some h \<Rightarrow> if hh_name h \<noteq> [] then hh_name h else ''Tidyboard'' | None \<Rightarrow> ''Tidyboard'')
      | None \<Rightarrow> (case au_household s of Some h \<Rightarrow> if hh_name h \<noteq> [] then hh_name h else ''Tidyboard'' | None \<Rightarrow> ''Tidyboard''))"

text \<open>The links at the side; a badge counts what waits for a parent.\<close>

definition desktop_nav :: "(string \<Rightarrow> string) \<Rightarrow> auth_member option \<Rightarrow> nat \<Rightarrow> 'e ui list" where
  "desktop_nav t active pending =
     bottom_nav (nav_tabs t [''calendar'', ''routines'', ''lists'', ''notes'', ''meals'', ''wallet'', ''chores'', ''equity''] @ child_tabs t active) @
     shown_if (map_option am_role active = Some RoleAdult)
       ([Link ''Points'' ''/admin/points''] @ shown_if (pending > 0) [Txt (nat_str pending)] @
        [Link ''Award'' ''/admin/points/award'', Link ''Rewards'' ''/admin/rewards'']) @
     [Link (t ''nav.settings'') ''/settings'']"

definition member_tile :: "(string \<Rightarrow> string) \<Rightarrow> (string \<Rightarrow> nat \<Rightarrow> string) \<Rightarrow> (string \<Rightarrow> int \<Rightarrow> string) \<Rightarrow> tbd_event list \<Rightarrow> member \<Rightarrow> dash_event ui list" where
  "member_tile t tn tz es m =
     [Btn (''member-tile-'' @ mem_id m) (mem_name m) True (PressMember m), avatar_box m,
      Txt (if mem_role m = ''child''
           then [CHR 0xE2, CHR 0xAD, CHR 0x90, CHR '' ''] @ int_str (mem_stars m) @ mid_dot @ [CHR 0xF0, CHR 0x9F, CHR 0x94, CHR 0xA5, CHR '' ''] @
             tz ''dashboard.streak'' (mem_streak m)
           else tn ''dashboard.eventsShort'' (length (kiosk_column_events es m)))]"

definition desktop_event :: "(int \<Rightarrow> string) \<Rightarrow> zone \<Rightarrow> member list \<Rightarrow> tbd_event \<Rightarrow> dash_event ui list" where
  "desktop_event clock z ms e =
     dash_event_card e ([Txt (label_time clock z (ev_start e)), Txt (label_time clock z (ev_end e))] @ shown_some (ev_location e) @
       stacked_avatars (phone_members ms (assignees e)))"

definition next_up :: "(string \<Rightarrow> string) \<Rightarrow> (int \<Rightarrow> string) \<Rightarrow> zone \<Rightarrow> tbd_event list \<Rightarrow> 'e ui list" where
  "next_up t clock z es =
     Txt (t ''dashboard.nextUp'') #
     (case es of
        [] \<Rightarrow> [Txt (t ''dashboard.noEvents'')]
      | e # _ \<Rightarrow> [Txt (ev_title e), Txt (label_time clock z (ev_start e) @
          (case ev_location e of None \<Rightarrow> [] | Some l \<Rightarrow> if l = [] then [] else mid_dot @ l))])"

definition degree :: string where "degree = [CHR 0xC2, CHR 0xB0]"

definition desktop_weather :: "weather_snapshot option \<Rightarrow> 'e ui list" where
  "desktop_weather w =
     (case w of
        None \<Rightarrow> [Txt em_dash, Txt ''Weather unavailable'']
      | Some x \<Rightarrow> [Txt (int_str (wx_now x) @ degree),
          Txt (wx_label x @ mid_dot @ ''H '' @ int_str (wx_high x) @ mid_dot @ ''L '' @ int_str (wx_low x))])"

definition celebrations_card :: "zone \<Rightarrow> int \<Rightarrow> tbd_event list \<Rightarrow> 'e ui list" where
  "celebrations_card z now es =
     (let cs = celebrations z now es
      in shown_if (cs \<noteq> []) [Box ''celebrations-card''
           (Txt ''Celebrations'' #
            concat (map (\<lambda>(e, w). [Txt (ev_title e),
              Txt (celebration_label (case set_hms z 0 0 0 0 now of None \<Rightarrow> 0 | Some d \<Rightarrow> d) w)]) cs))])"

definition score_line :: "member list \<Rightarrow> (string \<times> string) list \<Rightarrow> nat \<Rightarrow> score_row \<Rightarrow> 'e ui list" where
  "score_line ms cats i r =
     [Txt (case rank_label i of None \<Rightarrow> [CHR 0xF0, CHR 0x9F, CHR 0x91, CHR 0x91] | Some l \<Rightarrow> l),
      Txt (case member_in ms (sr_member_id r) of None \<Rightarrow> em_dash | Some m \<Rightarrow> mem_name m), Txt (num_str (sr_total r) @ '' pts'')] @
     concat (map (\<lambda>(c, n, w). [Txt (case map_of (rev cats) c of None \<Rightarrow> em_dash | Some nm \<Rightarrow> nm), Txt (num_str n)]) (score_bars r))"

definition scoreboard_view :: "member list \<Rightarrow> (string \<times> string) list \<Rightarrow> score_row list \<Rightarrow> 'e ui list" where
  "scoreboard_view ms cats rows = Txt ''Scoreboard'' # concat (map (\<lambda>(i, r). score_line ms cats i r) (enumerate 0 rows))"

definition desktop_guarded :: "auth_state \<Rightarrow> desktop_data \<Rightarrow> dash_event ui list \<Rightarrow> dash_event ui list" where
  "desktop_guarded s d body =
     (case desktop_view (cd_members_error (dd_cal d) \<noteq> None \<or> cd_events_error (dd_cal d) \<noteq> None \<or> dd_household_error d \<noteq> None)
           (cd_members_pending (dd_cal d) \<or> cd_events_pending (dd_cal d))
           (case au_household s of None \<Rightarrow> False | Some h \<Rightarrow> hh_id h \<noteq> []) (dd_household_pending d) of
        DashError \<Rightarrow> error_state ''Unable to load dashboard data''
          (case cd_members_error (dd_cal d) of Some e \<Rightarrow> e | None \<Rightarrow>
             (case cd_events_error (dd_cal d) of Some e \<Rightarrow> e | None \<Rightarrow>
               (case dd_household_error d of Some e \<Rightarrow> e | None \<Rightarrow> JNull))) RetryDash
      | DashLoading \<Rightarrow> [Txt ''Loading dashboard...'']
      | DashShown \<Rightarrow> body)"

text \<open>The whole page; the score board is part of it.\<close>

definition desktop_body ::
  "(string \<Rightarrow> string) \<Rightarrow> (string \<Rightarrow> nat \<Rightarrow> string) \<Rightarrow> (string \<Rightarrow> int \<Rightarrow> string) \<Rightarrow> (int \<Rightarrow> string) \<Rightarrow> zone \<Rightarrow> int \<Rightarrow> string \<Rightarrow>
   desktop_data \<Rightarrow> auth_state \<Rightarrow> dash_event ui list" where
  "desktop_body t tn tz clock z now todayLabel d a =
     (let ms = data_members (dd_cal d); es = data_events (dd_cal d)
      in [Txt ''tidyboard'', Txt (desktop_household a d)] @ concat (map (member_tile t tn tz es) (active_targets ms)) @
         desktop_nav t (active_member a) (pending_count (dd_redemptions d) (dd_ad_hoc d)) @
         [Txt (''Today, '' @ todayLabel), Txt (tn ''dashboard.eventsCount'' (length es)),
          Btn ''search'' (t ''dashboard.search'') True (GoTo ''/calendar?view=Agenda''),
          Btn ''new'' (t ''dashboard.newEvent'') True (GoTo ''/calendar?new=event'')] @
         shown_if (es = []) [Txt (t ''dashboard.noEvents'')] @ concat (map (desktop_event clock z ms) es) @
         next_up t clock z es @ [Txt (t ''dashboard.weather'')] @ desktop_weather (dd_weather d) @ celebrations_card z now es @
         [Txt (t ''dashboard.tonight''), Txt ''No dinner planned'', Txt ''Add meals from the meal planner'',
          Txt (t ''dashboard.upcomingTasks''), Txt ''No upcoming tasks'', Txt ''Top kids''] @
         scoreboard_view ms (dd_categories d) (dd_scores d))"

definition desktop_page_view ::
  "(string \<Rightarrow> string) \<Rightarrow> (string \<Rightarrow> nat \<Rightarrow> string) \<Rightarrow> (string \<Rightarrow> int \<Rightarrow> string) \<Rightarrow> (int \<Rightarrow> string) \<Rightarrow> zone \<Rightarrow> int \<Rightarrow> string \<Rightarrow>
   desktop_data \<Rightarrow> desktop_page \<Rightarrow> dash_event ui list" where
  "desktop_page_view t tn tz clock z now todayLabel d s =
     desktop_guarded (dp_session s) d (desktop_body t tn tz clock z now todayLabel d (dp_session s))"

section \<open>The kiosk\<close>

text \<open>
  The tiles choose as in \<open>Dashboards\<close>. A list without items makes the count of the open ones raise. The lists,
  routines and recipes are what the queries of live data hold.
\<close>

record kiosk_dash_page =
  kk_dash :: kiosk_dash
  kk_went :: "string option"

fun kiosk_dash_step :: "member list \<Rightarrow> dash_event \<Rightarrow> kiosk_dash_page \<Rightarrow> kiosk_dash_page" where
  "kiosk_dash_step ms (GoTo h) s = s\<lparr>kk_went := Some h\<rparr>"
| "kiosk_dash_step ms (PressMember m) s = s\<lparr>kk_dash := press_member ms m (kk_dash s)\<rparr>"
| "kiosk_dash_step ms LockNow s = s\<lparr>kk_dash := (kk_dash s)\<lparr>kd_active := None\<rparr>, kk_went := Some ''/kiosk''\<rparr>"
| "kiosk_dash_step ms RetryDash s = s"

text \<open>A missing or unreadable time raises.\<close>

definition event_label :: "(int \<Rightarrow> string) \<Rightarrow> zone \<Rightarrow> string option \<Rightarrow> string option" where
  "event_label clock z v =
     (case v of
        None \<Rightarrow> None
      | Some s \<Rightarrow> if contains s ''T'' then map_option clock (date_parse (tz_utc z) s) else Some (fmt_time clock z s))"

definition kiosk_event_card :: "(int \<Rightarrow> string) \<Rightarrow> zone \<Rightarrow> member list \<Rightarrow> tbd_event \<Rightarrow> dash_event ui list option" where
  "kiosk_event_card clock z ms e =
     (case (event_label clock z (any_start e), event_label clock z (case ev_end_time e of Some x \<Rightarrow> Some x | None \<Rightarrow> ev_end e)) of
        (Some a, Some b) \<Rightarrow>
          Some (dash_event_card e ([Txt a, Txt b] @ shown_some (ev_location e) @ stacked_avatars (phone_members ms (assignees e))))
      | _ \<Rightarrow> None)"

definition summary_card :: "string \<Rightarrow> string \<Rightarrow> string \<Rightarrow> 'e ui list" where
  "summary_card title v detail = [Txt title, Txt v, Txt detail]"

definition plural_s :: "nat \<Rightarrow> string" where
  "plural_s n = (if n = 1 then [] else ''s'')"

definition rat_or_undefined :: "rat option \<Rightarrow> string" where
  "rat_or_undefined x = (case x of None \<Rightarrow> ''undefined'' | Some r \<Rightarrow> num_str r)"

definition dinner_card :: "(string \<Rightarrow> string) \<Rightarrow> recipe option \<Rightarrow> 'e ui list" where
  "dinner_card t dinner =
     summary_card (t ''dashboard.whatsForDinner'') (case dinner of None \<Rightarrow> ''No dinner planned yet'' | Some r \<Rightarrow> rc_title r)
       (case dinner of None \<Rightarrow> ''Add meals from recipes to fill this tile.''
        | Some r \<Rightarrow> rat_or_undefined (rc_total r) @ '' min'' @ mid_dot @ ''serves '' @ rat_or_undefined (rc_serves r))"

definition routines_card :: "api_routine list option \<Rightarrow> 'e ui list" where
  "routines_card rs =
     (case rs of
        Some (r # more') \<Rightarrow> summary_card ''Routines'' (rt_name r)
          (nat_str (length (r # more')) @ '' active routine'' @ plural_s (length (r # more')))
      | _ \<Rightarrow> summary_card ''Routines'' ''No routines set up yet'' ''Create routines for mornings, evenings, or chores.'')"

definition open_items :: "wire_list list \<Rightarrow> nat option" where
  "open_items ls = map_option (\<lambda>iss. sum_list (map (\<lambda>is. length (filter (\<lambda>i. \<not> li_done i) is)) iss)) (those (map wl_items ls))"

definition lists_card :: "wire_list list option \<Rightarrow> 'e ui list option" where
  "lists_card xss =
     (case xss of
        Some (l # more') \<Rightarrow>
          map_option (\<lambda>n. summary_card ''Lists'' (case wl_title l of None \<Rightarrow> ''No lists yet'' | Some x \<Rightarrow> x)
              (nat_str n @ '' open item'' @ plural_s n)) (open_items (l # more'))
      | _ \<Rightarrow> Some (summary_card ''Lists'' ''No lists yet'' ''Create lists for packing, chores, or errands.''))"

definition kiosk_tile :: "member \<Rightarrow> dash_event ui list" where
  "kiosk_tile m = [Btn (''dashboard-member-'' @ mem_id m) (mem_name m) True (PressMember m), avatar_box m]"

definition viewing_card :: "member list \<Rightarrow> kiosk_dash \<Rightarrow> 'e ui list" where
  "viewing_card ms k =
     (let targets = active_targets ms
      in case (case find (\<lambda>m. Some (mem_id m) = selected_member_id ms k) targets of
                 Some m \<Rightarrow> Some m | None \<Rightarrow> (case targets of [] \<Rightarrow> None | m # _ \<Rightarrow> Some m)) of
           None \<Rightarrow> []
         | Some m \<Rightarrow> [Txt ''Viewing'', Txt (mem_name m), Txt (mem_role m)])"

record kiosk_data =
  kdt_members :: "member list"
  kdt_events :: "tbd_event list"
  kdt_lists :: "wire_list list option"
  kdt_routines :: "api_routine list option"
  kdt_dinner :: "recipe option"
  kdt_weather :: "weather_snapshot option"
  kdt_signed_in :: bool

definition kiosk_header :: "string \<Rightarrow> string \<Rightarrow> kiosk_data \<Rightarrow> dash_event ui list" where
  "kiosk_header timeLabel dateLabel d =
     [Txt timeLabel, Txt dateLabel, Txt (case kdt_weather d of None \<Rightarrow> em_dash | Some w \<Rightarrow> int_str (wx_now w) @ degree),
      Txt (case kdt_weather d of None \<Rightarrow> ''Weather unavailable'' | Some w \<Rightarrow> wx_label w)] @
     shown_if (kdt_signed_in d) [Btn ''kiosk-lock-btn'' [] True LockNow]"

definition kiosk_dash_view ::
  "(string \<Rightarrow> string) \<Rightarrow> (string \<Rightarrow> nat \<Rightarrow> string) \<Rightarrow> (int \<Rightarrow> string) \<Rightarrow> zone \<Rightarrow> string \<Rightarrow> string \<Rightarrow> kiosk_data \<Rightarrow>
   kiosk_dash_page \<Rightarrow> dash_event ui list option" where
  "kiosk_dash_view t tn clock z timeLabel dateLabel d s =
     (let ms = kdt_members d; es = filter_events_for_member (kdt_events d) (selected_member_id ms (kk_dash s))
      in case (those (map (kiosk_event_card clock z ms) es), lists_card (kdt_lists d)) of
           (Some cards, Some ls) \<Rightarrow>
             Some (kiosk_header timeLabel dateLabel d @ concat (map kiosk_tile (active_targets ms)) @ viewing_card ms (kk_dash s) @
               [Txt (t ''dashboard.todaysSchedule''), Txt (tn ''dashboard.eventsShort'' (length es))] @
               shown_if (es = []) [Txt (''Add calendar events to show today'' @ [CHR 0x27] @ ''s household schedule.'')] @ concat cards @
               dinner_card t (kdt_dinner d) @ routines_card (kdt_routines d) @ ls @
               bottom_nav (nav_tabs t [''calendar'', ''routines'', ''lists'', ''meals'', ''equity'', ''race'']))
         | _ \<Rightarrow> None)"

section \<open>Lemmas\<close>

lemma those_none: "those (map f xs) = None \<longleftrightarrow> (\<exists>x \<in> set xs. f x = None)"
  by (induction xs) (auto split: option.splits)

lemma those_all: "those (map f xs) = Some ys \<Longrightarrow> ys = map (the \<circ> f) xs \<and> (\<forall>x \<in> set xs. f x \<noteq> None)"
  by (induction xs arbitrary: ys) (auto split: option.splits)

lemma bottom_nav_silent [simp]: "fire a (bottom_nav tabs) = None"
  by (induction tabs) (auto simp: bottom_nav_def split: option.splits)

lemma avatars_silent [simp]: "fire a (map avatar_box ms) = None"
  by (induction ms) (simp_all add: avatar_box_def)

lemma stacked_silent [simp]: "fire a (stacked_avatars ms) = None"
  by (simp add: stacked_avatars_def fire_append)

lemma dash_event_card_offers: "fire a (dash_event_card e body) = Some x \<Longrightarrow> fire a body = None \<Longrightarrow> x = GoTo (event_href e)"
  by (auto simp: dash_event_card_def split: if_splits)

lemma silent_parts [simp]:
  "fire a (desktop_nav t act n) = None" "fire a (next_up t clock z es) = None" "fire a (desktop_weather w) = None"
  by (auto simp: desktop_nav_def next_up_def desktop_weather_def fire_append split: list.splits option.splits)

lemma silent_list: "(\<And>x. x \<in> set xs \<Longrightarrow> fire a (f x) = None) \<Longrightarrow> fire a (concat (map f xs)) = None"
  by (induction xs) (simp_all add: fire_append)

lemma celebrations_silent [simp]: "fire a (celebrations_card z now es) = None"
  by (auto simp: celebrations_card_def Let_def dest!: fire_items split: option.splits)

lemma score_line_silent [simp]: "fire a (score_line ms cats i r) = None"
  by (auto simp: score_line_def fire_append intro!: silent_list split: option.splits)

lemma scoreboard_silent [simp]: "fire a (scoreboard_view ms cats rows) = None"
  by (auto simp: scoreboard_view_def intro!: silent_list)

text \<open>The desktop.\<close>

lemma member_tile_offers: "fire a (member_tile t tn tz es m) = Some e \<Longrightarrow> e = PressMember m"
  by (auto simp: member_tile_def avatar_box_def split: if_splits)

lemma desktop_event_offers: "fire a (desktop_event clock z ms x) = Some e \<Longrightarrow> e = GoTo (event_href x)"
  unfolding desktop_event_def by (erule dash_event_card_offers) (simp add: fire_append)

definition desktop_offered :: "desktop_data \<Rightarrow> dash_event \<Rightarrow> bool" where
  "desktop_offered d e \<longleftrightarrow>
     (\<exists>m \<in> set (active_targets (data_members (dd_cal d))). e = PressMember m) \<or>
     (\<exists>x \<in> set (data_events (dd_cal d)). e = GoTo (event_href x)) \<or>
     e = GoTo ''/calendar?view=Agenda'' \<or> e = GoTo ''/calendar?new=event'' \<or> e = RetryDash"

lemma desktop_body_offers: "fire a (desktop_body t tn tz clock z now l d s) = Some e \<Longrightarrow> desktop_offered d e"
  by (auto simp: desktop_body_def Let_def desktop_offered_def fire_append dest!: fire_items member_tile_offers desktop_event_offers
      split: option.splits if_splits)

lemma desktop_offers: "fire a (desktop_page_view t tn tz clock z now l d s) = Some e \<Longrightarrow> desktop_offered d e"
  by (auto simp: desktop_page_view_def desktop_guarded_def error_state_def dest: desktop_body_offers
      split: dash_view.splits if_splits) (simp add: desktop_offered_def)

text \<open>Besides the active member the session is left alone, and that is one with a tile, or the choice at the start.\<close>

definition desktop_ok :: "member list \<Rightarrow> auth_state \<Rightarrow> desktop_page \<Rightarrow> bool" where
  "desktop_ok ms a s \<longleftrightarrow>
     (\<exists>m. dp_session s = set_active_member m a \<and> (m = au_active a \<or> m = None \<or> (\<exists>x \<in> set (active_targets ms). m = Some (as_active x))))"

lemma active_after: "active_member (set_active_member m a) = (case m of None \<Rightarrow> au_member a | Some x \<Rightarrow> Some x)"
  by (cases m) (simp_all add: active_member_def set_active_member_def)

lemma active_unset: "au_active a = None \<Longrightarrow> active_member a = au_member a" "au_active a = Some x \<Longrightarrow> active_member a = Some x"
  by (simp_all add: active_member_def)

lemma desktop_step_ok:
  assumes "desktop_ok (data_members (dd_cal d)) a s" and "desktop_offered d e"
  shows "desktop_ok (data_members (dd_cal d)) a (desktop_step e s)"
proof (cases e)
  case (PressMember m)
  with assms(2) have m: "m \<in> set (active_targets (data_members (dd_cal d)))" by (auto simp: desktop_offered_def)
  let ?p = "if map_option am_id (active_member (dp_session s)) = Some (mem_id m) then None else Some (as_active m)"
  have "dp_session (desktop_step e s) = set_active_member ?p a"
    using assms(1) by (auto simp: PressMember desktop_ok_def set_active_member_def)
  with m show ?thesis unfolding desktop_ok_def by (intro exI[of _ ?p]) auto
qed (use assms(1) in \<open>simp_all add: desktop_ok_def\<close>)

interpretation desktop_screen: screen "desktop_page_view t tn tz clock z now l d" desktop_step "\<lambda>_. False"
  "desktop_ok (data_members (dd_cal d)) a" for t tn tz clock z now l d a
  by unfold_locales (auto dest: desktop_offers intro: desktop_step_ok)

section \<open>Properties\<close>

text \<open>
  The phone reads the members of an event from a field that events of the server do not have
  (\<^verbatim>\<open>internal/model/event.go\<close> has \<^verbatim>\<open>assigned_members\<close> only): with one of them among the first five the page raises.
  Otherwise every card opens its own event.
\<close>

theorem phone_raises_on_server_events:
  assumes "cd_members_error d = None" and "cd_events_error d = None" and "\<not> cd_members_pending d" and "\<not> cd_events_pending d"
  shows "(phone_view t tn clock z wd dl act d = None \<longleftrightarrow> (\<exists>e \<in> set (take 5 (data_events d)). ev_members e = None)) \<and>
    (\<forall>v a x. phone_view t tn clock z wd dl act d = Some v \<and> fire a v = Some x \<longrightarrow>
       (\<exists>e \<in> set (take 5 (data_events d)). a = Press (''event:'' @ ev_id e) \<and> x = GoTo (event_href e)))"
proof (intro conjI allI impI)
  show "phone_view t tn clock z wd dl act d = None \<longleftrightarrow> (\<exists>e \<in> set (take 5 (data_events d)). ev_members e = None)"
    using assms by (simp add: phone_view_def Let_def those_none phone_card_def)
  fix v a x
  assume v: "phone_view t tn clock z wd dl act d = Some v \<and> fire a v = Some x"
  then obtain cards where c: "those (map (phone_card clock z (data_members d)) (take 5 (data_events d))) = Some cards"
      and f: "fire a (concat cards) = Some x"
    using assms by (auto simp: phone_view_def Let_def fire_append split: option.splits if_splits)
  from those_all[OF c] have cards: "cards = map (the \<circ> phone_card clock z (data_members d)) (take 5 (data_events d))"
    "\<forall>e \<in> set (take 5 (data_events d)). phone_card clock z (data_members d) e \<noteq> None" by blast+
  from f cards(1) obtain e where e: "e \<in> set (take 5 (data_events d))"
      "fire a (the (phone_card clock z (data_members d) e)) = Some x"
    by (auto dest!: fire_items simp: comp_def)
  with cards(2) show "\<exists>e \<in> set (take 5 (data_events d)). a = Press (''event:'' @ ev_id e) \<and> x = GoTo (event_href e)"
    by (intro bexI[OF _ e(1)]) (auto simp: phone_card_def dash_event_card_def fire_append split: if_splits)
qed

text \<open>So does the ambient kiosk on the first event, and no other matters there.\<close>

theorem ambient_raises_on_server_event:
  "ambient_view t tn clock z tm dl ms es = None \<longleftrightarrow> (\<exists>e rest. es = e # rest \<and> ev_members e = None)"
  by (cases es) (simp_all add: ambient_view_def ambient_next_def)

text \<open>
  The kiosk raises exactly when a list on it has no items (as those of the server), or an event it shows has no start or
  end, or one that is no date.
\<close>

theorem kiosk_dashboard_raises:
  "kiosk_dash_view t tn clock z tm dl d s = None \<longleftrightarrow>
     (\<exists>ls. kdt_lists d = Some ls \<and> (\<exists>l \<in> set ls. wl_items l = None)) \<or>
     (\<exists>e \<in> set (filter_events_for_member (kdt_events d) (selected_member_id (kdt_members d) (kk_dash s))).
        event_label clock z (any_start e) = None \<or>
        event_label clock z (case ev_end_time e of Some x \<Rightarrow> Some x | None \<Rightarrow> ev_end e) = None)"
proof -
  have l: "(lists_card xss :: dash_event ui list option) = None \<longleftrightarrow> (\<exists>ls. xss = Some ls \<and> (\<exists>l \<in> set ls. wl_items l = None))" for xss
  proof (cases xss)
    case (Some ls)
    then show ?thesis
      by (cases ls) (auto simp: lists_card_def open_items_def those_none simp del: those.simps list.map)
  qed (simp add: lists_card_def)
  have e: "kiosk_event_card clock z ms e = None \<longleftrightarrow> event_label clock z (any_start e) = None \<or>
      event_label clock z (case ev_end_time e of Some x \<Rightarrow> Some x | None \<Rightarrow> ev_end e) = None" for ms e
    by (auto simp: kiosk_event_card_def split: option.splits)
  let ?es = "filter_events_for_member (kdt_events d) (selected_member_id (kdt_members d) (kk_dash s))"
  have "kiosk_dash_view t tn clock z tm dl d s = None \<longleftrightarrow>
      (lists_card (kdt_lists d) :: dash_event ui list option) = None \<or> those (map (kiosk_event_card clock z (kdt_members d)) ?es) = None"
    by (auto simp: kiosk_dash_view_def Let_def split: option.splits)
  then show ?thesis by (simp only: those_none e l)
qed

text \<open>
  However the desktop is used, the session keeps its account, token and household, and the member it acts as is the one
  before, the signed-in one, or a member with a tile, never a pet. The tile of the signed-in member cannot be
  released: pressed while that member is active, the member stays active.
\<close>

theorem desktop_active_member:
  "let s = run (use_step (desktop_page_view t tn tz clock z now l d) desktop_step) (map User as)
             \<lparr>dp_session = a, dp_went = None, dp_refetches = 0\<rparr>
   in au_account (dp_session s) = au_account a \<and> au_token (dp_session s) = au_token a \<and>
      au_household (dp_session s) = au_household a \<and>
      (active_member (dp_session s) \<in> {active_member a, au_member a} \<or>
       (\<exists>x \<in> set (data_members (dd_cal d)). mem_role x \<noteq> ''pet'' \<and> active_member (dp_session s) = Some (as_active x))) \<and>
      (\<forall>m. au_active a = None \<and> map_option am_id (au_member a) = Some (mem_id m) \<longrightarrow>
         active_member (dp_session (desktop_step (PressMember m) \<lparr>dp_session = a, dp_went = None, dp_refetches = 0\<rparr>)) = active_member a)"
proof -
  let ?start = "\<lparr>dp_session = a, dp_went = None, dp_refetches = 0\<rparr>"
  let ?s = "run (use_step (desktop_page_view t tn tz clock z now l d) desktop_step) (map User as) ?start"
  have "set_active_member (au_active a) a = a" by (simp add: set_active_member_def)
  then have "desktop_ok (data_members (dd_cal d)) a ?start" unfolding desktop_ok_def by (intro exI[of _ "au_active a"]) simp
  then have "desktop_ok (data_members (dd_cal d)) a ?s" by (rule desktop_screen.always) simp
  then obtain m where m: "dp_session ?s = set_active_member m a"
      "m = au_active a \<or> m = None \<or> (\<exists>x \<in> set (active_targets (data_members (dd_cal d))). m = Some (as_active x))"
    unfolding desktop_ok_def by blast
  from m(2) have "active_member (dp_session ?s) \<in> {active_member a, au_member a} \<or>
      (\<exists>x \<in> set (data_members (dd_cal d)). mem_role x \<noteq> ''pet'' \<and> active_member (dp_session ?s) = Some (as_active x))"
    unfolding m(1) active_after by (cases "au_active a") (auto simp: active_unset active_targets_def)
  moreover have "active_member (dp_session (desktop_step (PressMember x) ?start)) = active_member a"
    if "au_active a = None" "map_option am_id (au_member a) = Some (mem_id x)" for x
    using that by (simp add: active_after active_unset)
  ultimately show ?thesis unfolding Let_def m(1) by (auto simp: set_active_member_def)
qed

end
