(* ===== verification/PinViews.thy ===== *)
theory PinViews
  imports PinLogin ListViews Gates
begin

text \<open>
  The pages that ask for a PIN as they are rendered and used: \<^verbatim>\<open>web/src/app/pin-login/page.tsx\<close> and
  \<^verbatim>\<open>web/src/app/kiosk/page.tsx\<close>. A page is its screens and its pad together (the pads are in \<open>PinLogin\<close>, the
  screens of the kiosk in \<open>Gates\<close>). A pad belongs to one opening of the overlay: an answer that comes later
  still signs in, but no longer reaches the pad. The rendered kiosk implements the step relation of \<open>Gates\<close>.
\<close>

section \<open>The keys\<close>

definition delete_key :: string where "delete_key = [CHR 0xE2, CHR 0x8C, CHR 0xAB]"

definition digit_keys :: "(char \<Rightarrow> 'e) \<Rightarrow> bool \<Rightarrow> string \<Rightarrow> 'e ui list" where
  "digit_keys onDigit enabled ds = map (\<lambda>d. Btn [d] [d] enabled (onDigit d)) ds"

text \<open>Four rows; the place left of the zero has a key that is always disabled.\<close>

definition num_pad :: "(char \<Rightarrow> 'e) \<Rightarrow> 'e \<Rightarrow> bool \<Rightarrow> 'e ui list" where
  "num_pad onDigit onDelete enabled =
     digit_keys onDigit enabled ''123456789'' @ [Btn ''blank'' [] False onDelete] @ digit_keys onDigit enabled ''0'' @
     [Btn delete_key delete_key enabled onDelete]"

section \<open>The page of the PIN login\<close>

datatype login_page_event =
    ChooseFace member
  | LoginPad pad_event
  | CancelPad
  | LoginAnswer nat "string option"

text \<open>The overlay's member and pad, how often it was opened, the requests under way, and where the page went.\<close>

record pin_page =
  pn_selected :: "member option"
  pn_pad :: pin_entry
  pn_opened :: nat
  pn_waiting :: "(nat \<times> member \<times> string) list"
  pn_sent :: "(member \<times> string) list"
  pn_went :: "string option"

definition pin_page_start :: pin_page where
  "pin_page_start =
     \<lparr>pn_selected = None, pn_pad = open_pin_entry, pn_opened = 0, pn_waiting = [], pn_sent = [], pn_went = None\<rparr>"

definition newly_sent :: "pin_entry \<Rightarrow> pin_entry \<Rightarrow> string list" where
  "newly_sent p p' = drop (length (pe_sent p)) (pe_sent p')"

fun pin_page_step :: "login_page_event \<Rightarrow> pin_page \<Rightarrow> pin_page" where
  "pin_page_step (ChooseFace m) s =
     (if pn_selected s = None then s\<lparr>pn_selected := Some m, pn_pad := open_pin_entry, pn_opened := pn_opened s + 1\<rparr>
      else s\<lparr>pn_selected := Some m\<rparr>)"
| "pin_page_step (LoginPad e) s =
     (case pn_selected s of
        None \<Rightarrow> s
      | Some m \<Rightarrow>
          (let p = pad_step e (pn_pad s); ps = newly_sent (pn_pad s) p
           in s\<lparr>pn_pad := p, pn_waiting := pn_waiting s @ map (\<lambda>x. (pn_opened s, m, x)) ps, pn_sent := pn_sent s @ map (Pair m) ps\<rparr>))"
| "pin_page_step CancelPad s = s\<lparr>pn_selected := None\<rparr>"
| "pin_page_step (LoginAnswer k failure) s =
     (case find (\<lambda>r. fst r = k) (pn_waiting s) of
        None \<Rightarrow> s
      | Some r \<Rightarrow>
          (let open' = (pn_selected s \<noteq> None \<and> k = pn_opened s)
           in s\<lparr>pn_waiting := remove1 r (pn_waiting s), pn_pad := (if open' then pad_step (PadAnswer failure) (pn_pad s) else pn_pad s),
                pn_went := (if failure = None then Some ''/'' else pn_went s)\<rparr>))"

definition face_name :: "member \<Rightarrow> string" where
  "face_name m = (case mem_full m of None \<Rightarrow> mem_name m | Some f \<Rightarrow> f)"

definition face :: "member \<Rightarrow> login_page_event ui list" where
  "face m = [Btn (''face:'' @ mem_id m) (face_name m) True (ChooseFace m), Txt (mem_initial m)]"

text \<open>The overlay covers the page. The pad's keys are not disabled while a PIN is checked.\<close>

definition pin_entry_view :: "(string \<Rightarrow> string) \<Rightarrow> member \<Rightarrow> pin_entry \<Rightarrow> login_page_event ui list" where
  "pin_entry_view t m p =
     [Txt (mem_initial m), Txt (face_name m)] @
     map (\<lambda>i. Box (if i < length (pe_digits p) then ''dot-full'' else ''dot'') []) [0..<pin_length] @
     (case pe_error p of None \<Rightarrow> [] | Some e \<Rightarrow> if e = [] then [] else [Box ''alert'' [Txt e]]) @
     num_pad (\<lambda>d. LoginPad (PadDigit d)) (LoginPad PadDelete) True @ [Btn ''cancel'' (t ''auth.cancel'') True CancelPad]"

definition pin_page_view :: "(string \<Rightarrow> string) \<Rightarrow> bool \<Rightarrow> member list option \<Rightarrow> pin_page \<Rightarrow> login_page_event ui list" where
  "pin_page_view t loading members s =
     (case pn_selected s of
        Some m \<Rightarrow> pin_entry_view t m (pn_pad s)
      | None \<Rightarrow>
          [Txt ''tidyboard'', Txt (t ''auth.whosUsing'')] @ shown_if loading [Txt (t ''auth.loadingMembers'')] @
          (case members of None \<Rightarrow> [] | Some ms \<Rightarrow> shown_if (\<not> loading) (concat (map face (login_members ms)))) @
          [Link (t ''auth.signInWithEmail'') ''/login''])"

section \<open>The kiosk page\<close>

datatype kiosk_screen_event =
    TouchLock
  | PickMember api_member_ref
  | PadKey kiosk_key
  | PressUnlock
  | PressBack
  | MembersCame
  | ServerSays nat bool

record kiosk_screen =
  kx_page :: kiosk_page
  kx_pad :: kiosk_pad
  kx_opened :: nat
  kx_waiting :: "(nat \<times> api_member_ref) list"
  kx_sent :: "(api_member_ref \<times> string) list"

definition kiosk_screen_start :: kiosk_screen where
  "kiosk_screen_start =
     \<lparr>kx_page = kiosk_start, kx_pad = open_kiosk_pad, kx_opened = 0, kx_waiting = [], kx_sent = []\<rparr>"

text \<open>The pad is a new one when its screen appears.\<close>

definition show_page :: "kiosk_page \<Rightarrow> kiosk_screen \<Rightarrow> kiosk_screen" where
  "show_page p s =
     (if kp_state p = Pin \<and> kp_state (kx_page s) \<noteq> Pin
      then s\<lparr>kx_page := p, kx_pad := open_kiosk_pad, kx_opened := kx_opened s + 1\<rparr> else s\<lparr>kx_page := p\<rparr>)"

definition press_unlock :: "kiosk_screen \<Rightarrow> kiosk_screen" where
  "press_unlock s =
     (case kp_selected (kx_page s) of
        None \<Rightarrow> s
      | Some m \<Rightarrow>
          (let p = kiosk_pad_step KioskUnlock (kx_pad s)
           in if kq_sent p = kq_sent (kx_pad s) then s
              else s\<lparr>kx_page := submit_pin (kx_page s), kx_pad := p, kx_waiting := kx_waiting s @ [(kx_opened s, m)],
                     kx_sent := kx_sent s @ [(m, kq_pin (kx_pad s))]\<rparr>))"

definition server_says :: "search_params \<Rightarrow> nat \<Rightarrow> bool \<Rightarrow> kiosk_screen \<Rightarrow> kiosk_screen" where
  "server_says ps n ok s =
     (case find (\<lambda>r. fst r = n) (kx_waiting s) of
        None \<Rightarrow> s
      | Some r \<Rightarrow>
          s\<lparr>kx_waiting := remove1 r (kx_waiting s),
            kx_page := (if ok then handle_pin_success ps (pin_accepted (snd r) (kx_page s)) else pin_rejected (snd r) (kx_page s)),
            kx_pad := (if n = kx_opened s \<and> kp_state (kx_page s) = Pin then kiosk_pad_step (KioskAnswer ok) (kx_pad s) else kx_pad s)\<rparr>)"

fun kiosk_screen_step :: "search_params \<Rightarrow> api_member_ref list option \<Rightarrow> kiosk_screen_event \<Rightarrow> kiosk_screen \<Rightarrow> kiosk_screen" where
  "kiosk_screen_step ps ms TouchLock s = show_page (handle_lock_click (kx_page s)) s"
| "kiosk_screen_step ps ms (PickMember m) s = show_page (handle_select_member m (kx_page s)) s"
| "kiosk_screen_step ps ms (PadKey k) s = s\<lparr>kx_pad := kiosk_pad_step k (kx_pad s)\<rparr>"
| "kiosk_screen_step ps ms PressUnlock s = press_unlock s"
| "kiosk_screen_step ps ms PressBack s = show_page (handle_back (kx_page s)) s"
| "kiosk_screen_step ps ms MembersCame s = show_page (kiosk_preselect ps ms (kx_page s)) s"
| "kiosk_screen_step ps ms (ServerSays n ok) s = server_says ps n ok s"

definition picker_tile :: "(string \<Rightarrow> string) \<Rightarrow> api_member_ref \<Rightarrow> kiosk_screen_event ui list" where
  "picker_tile t m =
     [Btn (''member-tile-'' @ mr_id m) (mr_name m) True (PickMember m),
      Txt (t (if mr_role m = ''child'' then ''lock.pinRequired'' else ''lock.enterPassword''))]"

definition picker_view :: "(string \<Rightarrow> string) \<Rightarrow> bool \<Rightarrow> api_member_ref list option \<Rightarrow> kiosk_screen_event ui list" where
  "picker_view t loading ms =
     [Txt (t ''lock.whosUsing''), Txt (t ''lock.tapAvatar'')] @ shown_if loading [Txt (''Loading'' @ dots)] @
     shown_if (\<not> loading \<and> ms \<noteq> None) (concat (map (picker_tile t) (selectable_members ms)))"

definition pin_modal_view :: "api_member_ref \<Rightarrow> kiosk_pad \<Rightarrow> kiosk_screen_event ui list" where
  "pin_modal_view m p =
     [Txt (mr_name m)] @ map (\<lambda>i. Box (if i < length (kq_pin p) then ''dot-full'' else ''dot'') []) [0..<6] @
     shown_if (kq_error p) [Txt ''Incorrect PIN. Please try again.''] @
     num_pad (\<lambda>d. PadKey (KioskDigit d)) (PadKey KioskBackspace) (\<not> kq_loading p) @
     [Btn ''pin-submit'' (if kq_loading p then ''Verifying'' @ dots else ''Unlock'') (4 \<le> length (kq_pin p) \<and> \<not> kq_loading p) PressUnlock,
      Btn ''pin-back'' ''Back'' True PressBack]"

definition kiosk_screen_view ::
  "(string \<Rightarrow> string) \<Rightarrow> string \<Rightarrow> string \<Rightarrow> bool \<Rightarrow> api_member_ref list option \<Rightarrow> kiosk_screen \<Rightarrow> kiosk_screen_event ui list" where
  "kiosk_screen_view t timeStr dateStr loading ms s =
     (case kp_state (kx_page s) of
        Lock \<Rightarrow> Btn ''lock-screen'' [] True TouchLock # lock_view t timeStr dateStr
      | Members \<Rightarrow> picker_view t loading ms
      | Pin \<Rightarrow> (case kp_selected (kx_page s) of None \<Rightarrow> [] | Some m \<Rightarrow> pin_modal_view m (kx_pad s)))"

section \<open>Lemmas\<close>

lemma digit_keys_offer: "fire a (digit_keys f en ds) = Some e \<Longrightarrow> \<exists>d \<in> set ds. en \<and> e = f d"
  by (induction ds) (auto simp: digit_keys_def split: if_splits)

lemma num_pad_offers: "fire a (num_pad f e' en) = Some e \<Longrightarrow> en \<and> (e = e' \<or> (\<exists>d. is_digit d \<and> e = f d))"
proof -
  have d: "\<forall>d \<in> set ''1234567890''. is_digit d" by code_simp
  show "fire a (num_pad f e' en) = Some e \<Longrightarrow> ?thesis"
    using d by (fastforce simp: num_pad_def fire_append dest: digit_keys_offer split: option.splits if_splits)
qed

lemma dots_silent [simp]: "fire a (map (\<lambda>i. Box (g i) []) xs) = None"
  by (induction xs) simp_all

lemma lock_view_silent [simp]: "fire a (lock_view t x y) = None"
  by (simp add: lock_view_def)

text \<open>What the kiosk offers on each of its screens.\<close>

definition kiosk_offered :: "api_member_ref list option \<Rightarrow> kiosk_screen \<Rightarrow> kiosk_screen_event \<Rightarrow> bool" where
  "kiosk_offered ms s e \<longleftrightarrow>
     (case kp_state (kx_page s) of
        Lock \<Rightarrow> e = TouchLock
      | Members \<Rightarrow> \<exists>m \<in> set (selectable_members ms). e = PickMember m
      | Pin \<Rightarrow> kp_selected (kx_page s) \<noteq> None \<and>
          (e = PressBack \<or> e = PressUnlock \<or> e = PadKey KioskBackspace \<or> (\<exists>d. is_digit d \<and> e = PadKey (KioskDigit d))))"

lemma kiosk_page_offers:
  assumes "fire a (kiosk_screen_view t x y loading ms s) = Some e"
  shows "kiosk_offered ms s e"
proof (cases "kp_state (kx_page s)")
  case Lock
  with assms show ?thesis by (auto simp: kiosk_screen_view_def kiosk_offered_def split: if_splits)
next
  case Members
  with assms show ?thesis
    by (auto simp: kiosk_screen_view_def picker_view_def picker_tile_def kiosk_offered_def fire_append
        dest!: fire_items split: if_splits option.splits)
next
  case Pin
  with assms show ?thesis
    by (auto simp: kiosk_screen_view_def pin_modal_view_def kiosk_offered_def fire_append
        dest!: num_pad_offers split: if_splits option.splits)
qed

text \<open>
  The invariant of the composed kiosk: its screens are reachable in \<open>Gates\<close>, the requests under way are the same,
  and the pad holds digits.
\<close>

definition kiosk_screen_ok :: "search_params \<Rightarrow> api_member_ref list option \<Rightarrow> kiosk_screen \<Rightarrow> bool" where
  "kiosk_screen_ok ps ms s \<longleftrightarrow>
     kiosk_reachable ps ms (kx_page s) \<and> mset (map snd (kx_waiting s)) = mset (kp_pending (kx_page s)) \<and> distinct (map fst (kx_waiting s)) \<and>
     (\<forall>n \<in> fst ` set (kx_waiting s). n \<le> kx_opened s) \<and>
     (kp_state (kx_page s) = Pin \<and> \<not> kq_loading (kx_pad s) \<longrightarrow> kx_opened s \<notin> fst ` set (kx_waiting s)) \<and>
     kiosk_pad_ok (kx_pad s) \<and>
     (\<forall>(m, p) \<in> set (kx_sent s). m \<in> set (selectable_members ms) \<and> valid_pin p)"

lemma show_page_ok:
  assumes s: "kiosk_screen_ok ps ms s" and step: "kiosk_step ps ms (kx_page s) p"
    and same: "kp_pending p = kp_pending (kx_page s)"
  shows "kiosk_screen_ok ps ms (show_page p s)"
proof -
  have r: "kiosk_reachable ps ms p" using s step by (auto simp: kiosk_screen_ok_def intro: kiosk_reachable.step)
  show ?thesis
  proof (cases "kp_state p = Pin \<and> kp_state (kx_page s) \<noteq> Pin")
    case True
    have "kiosk_pad_ok open_kiosk_pad" by (simp add: kiosk_pad_ok_def open_kiosk_pad_def)
    with True s r same show ?thesis by (fastforce simp: show_page_def kiosk_screen_ok_def)
  next
    case False
    with s r same show ?thesis unfolding show_page_def by (auto simp: kiosk_screen_ok_def)
  qed
qed

lemma find_pair: "find (\<lambda>r. fst r = n) w = Some r \<Longrightarrow> r \<in> set w \<and> fst r = n"
  by (auto simp: find_Some_iff)

lemma distinct_remove1_fst: "distinct (map fst w) \<Longrightarrow> r \<in> set w \<Longrightarrow> fst r \<notin> fst ` set (remove1 r w)"
  by (induction w) (auto simp: image_iff)

lemma distinct_remove1_map: "distinct (map f w) \<Longrightarrow> distinct (map f (remove1 r w))"
proof (induction w)
  case (Cons x w)
  have "f ` set (remove1 r w) \<subseteq> f ` set w" using set_remove1_subset[of r w] by blast
  with Cons show ?case by auto
qed simp

lemma kq_sent_grows:
  "kq_sent (kiosk_pad_step k p) = kq_sent p \<or> (kq_sent (kiosk_pad_step k p) = kq_sent p @ [kq_pin p] \<and> kq_loading (kiosk_pad_step k p))"
  by (cases k) (auto simp: kiosk_digit_def kiosk_backspace_def kiosk_submit_def kiosk_answer_def)

lemma press_unlock_ok:
  assumes s: "kiosk_screen_ok ps ms s" and pin: "kp_state (kx_page s) = Pin"
  shows "kiosk_screen_ok ps ms (press_unlock s)"
proof (cases "kp_selected (kx_page s)")
  case None
  with s show ?thesis by (simp add: press_unlock_def)
next
  case (Some m)
  let ?p = "kiosk_pad_step KioskUnlock (kx_pad s)"
  show ?thesis
  proof (cases "kq_sent ?p = kq_sent (kx_pad s)")
    case True
    with s Some show ?thesis by (simp add: press_unlock_def Let_def)
  next
    case False
    then have sent: "kq_sent ?p = kq_sent (kx_pad s) @ [kq_pin (kx_pad s)]" "kq_loading ?p" and idle: "\<not> kq_loading (kx_pad s)"
      using kq_sent_grows[of KioskUnlock "kx_pad s"] by (auto split: if_splits)
    have ok: "kiosk_pad_ok ?p" using s by (intro kiosk_step_ok) (simp_all add: kiosk_screen_ok_def kiosk_on_pad_def)
    then have "valid_pin (kq_pin (kx_pad s))" using sent(1) by (simp only: kiosk_pad_ok_def) simp
    moreover have "m \<in> set (selectable_members ms)"
      using s Some kiosk_inv_reachable by (fastforce simp: kiosk_screen_ok_def kiosk_inv_def)
    moreover have "kiosk_reachable ps ms (submit_pin (kx_page s))"
    proof (rule kiosk_reachable.step)
      show "kiosk_reachable ps ms (kx_page s)" using s by (simp add: kiosk_screen_ok_def)
      show "kiosk_step ps ms (kx_page s) (submit_pin (kx_page s))" using pin Some by (intro kiosk_step.submit) auto
    qed
    moreover have "kp_pending (submit_pin (kx_page s)) = kp_pending (kx_page s) @ [m]" by (simp add: submit_pin_def Some)
    ultimately show ?thesis
      using s ok sent(2) idle pin False Some by (auto simp: press_unlock_def Let_def kiosk_screen_ok_def)
  qed
qed

lemma server_says_ok:
  assumes s: "kiosk_screen_ok ps ms s"
  shows "kiosk_screen_ok ps ms (server_says ps n ok s)"
proof (cases "find (\<lambda>r. fst r = n) (kx_waiting s)")
  case None
  with s show ?thesis by (simp add: server_says_def)
next
  case (Some r)
  let ?k = "kx_page s" and ?w = "remove1 r (kx_waiting s)"
  let ?k' = "if ok then handle_pin_success ps (pin_accepted (snd r) ?k) else pin_rejected (snd r) ?k"
  have r: "r \<in> set (kx_waiting s)" "fst r = n" using find_pair[OF Some] by auto
  have w: "mset (map snd (kx_waiting s)) = mset (kp_pending ?k)" "distinct (map fst (kx_waiting s))"
    and reach: "kiosk_reachable ps ms ?k" using s by (simp_all add: kiosk_screen_ok_def)
  have "snd r \<in> set (kp_pending ?k)" using r(1) w(1) by (metis imageI set_map set_mset_mset)
  then have "kiosk_step ps ms ?k ?k'" by (auto intro: kiosk_step.pin_ok kiosk_step.pin_wrong)
  with reach have reach': "kiosk_reachable ps ms ?k'" by (rule kiosk_reachable.step)
  have pend: "kp_pending ?k' = remove1 (snd r) (kp_pending ?k)" "kp_state ?k' = kp_state ?k"
    by (simp_all add: pin_accepted_def pin_rejected_def handle_pin_success_def)
  have "mset (map snd ?w) = mset (map snd (kx_waiting s)) - {#snd r#}"
    using r(1) by (simp add: image_mset_Diff)
  then have "mset (map snd ?w) = mset (kp_pending ?k')" unfolding pend(1) w(1) by simp
  moreover have "n \<notin> fst ` set ?w" using distinct_remove1_fst[OF w(2) r(1)] r(2) by simp
  moreover have "fst ` set ?w \<subseteq> fst ` set (kx_waiting s)" using set_remove1_subset by (rule image_mono)
  moreover have "kiosk_pad_ok (kiosk_pad_step (KioskAnswer ok) (kx_pad s))"
    using s by (intro kiosk_step_ok) (simp_all add: kiosk_screen_ok_def kiosk_on_pad_def)
  ultimately show ?thesis
    using s reach' pend(2) distinct_remove1_map[OF w(2)] Some by (auto simp: server_says_def kiosk_screen_ok_def)
qed

fun kiosk_outside :: "kiosk_screen_event \<Rightarrow> bool" where
  "kiosk_outside MembersCame \<longleftrightarrow> True"
| "kiosk_outside (ServerSays n ok) \<longleftrightarrow> True"
| "kiosk_outside e \<longleftrightarrow> False"

lemma pad_key_ok:
  assumes s: "kiosk_screen_ok ps ms s" and k: "kiosk_on_pad k" "\<And>ok. k \<noteq> KioskAnswer ok" "k \<noteq> KioskUnlock"
  shows "kiosk_screen_ok ps ms (s\<lparr>kx_pad := kiosk_pad_step k (kx_pad s)\<rparr>)"
proof -
  have "kiosk_pad_ok (kiosk_pad_step k (kx_pad s))" using s k(1) by (intro kiosk_step_ok) (simp_all add: kiosk_screen_ok_def)
  moreover have "kq_loading (kiosk_pad_step k (kx_pad s)) = kq_loading (kx_pad s)"
  proof (cases k)
    case (KioskAnswer ok)
    with k(2) show ?thesis by blast
  qed (use k(3) in \<open>simp_all add: kiosk_digit_def kiosk_backspace_def\<close>)
  ultimately show ?thesis using s by (simp add: kiosk_screen_ok_def)
qed

lemma kiosk_screen_step_ok:
  assumes s: "kiosk_screen_ok ps ms s" and e: "kiosk_offered ms s e \<or> kiosk_outside e"
  shows "kiosk_screen_ok ps ms (kiosk_screen_step ps ms e s)"
proof (cases e)
  case TouchLock
  with e have "kp_state (kx_page s) = Lock" by (auto simp: kiosk_offered_def split: lock_state.splits)
  then have "kiosk_step ps ms (kx_page s) (handle_lock_click (kx_page s))" by (rule kiosk_step.lock_click)
  from show_page_ok[OF s this] show ?thesis by (simp add: TouchLock handle_lock_click_def)
next
  case (PickMember m)
  with e have "kp_state (kx_page s) = Members" "m \<in> set (selectable_members ms)"
    by (auto simp: kiosk_offered_def split: lock_state.splits)
  then have "kiosk_step ps ms (kx_page s) (handle_select_member m (kx_page s))" by (rule kiosk_step.pick)
  from show_page_ok[OF s this] show ?thesis by (simp add: PickMember handle_select_member_def)
next
  case (PadKey k)
  with e have "kiosk_on_pad k" "\<And>ok. k \<noteq> KioskAnswer ok" "k \<noteq> KioskUnlock"
    by (auto simp: kiosk_offered_def kiosk_on_pad_def split: lock_state.splits)
  from pad_key_ok[OF s this] show ?thesis by (simp add: PadKey)
next
  case PressUnlock
  with e have "kp_state (kx_page s) = Pin" by (auto simp: kiosk_offered_def split: lock_state.splits)
  from press_unlock_ok[OF s this] show ?thesis by (simp add: PressUnlock)
next
  case PressBack
  with e have "kp_state (kx_page s) = Pin" "kp_selected (kx_page s) \<noteq> None"
    by (auto simp: kiosk_offered_def split: lock_state.splits)
  then have "kiosk_step ps ms (kx_page s) (handle_back (kx_page s))" by (rule kiosk_step.go_back)
  from show_page_ok[OF s this] show ?thesis by (simp add: PressBack handle_back_def)
next
  case MembersCame
  have "kp_pending (kiosk_preselect ps ms (kx_page s)) = kp_pending (kx_page s)"
    by (auto simp: kiosk_preselect_def Let_def split: option.splits)
  from show_page_ok[OF s kiosk_step.preselect this] show ?thesis by (simp add: MembersCame)
next
  case (ServerSays n ok)
  with server_says_ok[OF s] show ?thesis by simp
qed

interpretation kiosk_rendered: screen "kiosk_screen_view t x y loading ms" "kiosk_screen_step ps ms" kiosk_outside
  "kiosk_screen_ok ps ms" for t x y loading ms ps
  by unfold_locales (auto dest: kiosk_page_offers intro: kiosk_screen_step_ok)

text \<open>The page of the PIN login.\<close>

definition pin_page_ok :: "member set \<Rightarrow> pin_page \<Rightarrow> bool" where
  "pin_page_ok M s \<longleftrightarrow>
     (\<forall>m. pn_selected s = Some m \<longrightarrow> m \<in> M) \<and> pad_ok (pn_pad s) \<and>
     (\<forall>(m, p) \<in> set (pn_sent s). m \<in> M \<and> length p = 4 \<and> list_all is_digit p) \<and> (pn_went s = None \<or> pn_went s = Some ''/'')"

lemma login_offers:
  assumes "fire a (pin_page_view t loading members s) = Some e"
  shows "(\<exists>m \<in> set (login_members (case members of None \<Rightarrow> [] | Some ms \<Rightarrow> ms)). e = ChooseFace m) \<or> e = CancelPad \<or>
    e = LoginPad PadDelete \<or> (\<exists>d. is_digit d \<and> e = LoginPad (PadDigit d))"
  using assms
  by (auto simp: pin_page_view_def pin_entry_view_def face_def fire_append dest!: fire_items num_pad_offers
      split: option.splits if_splits)

lemma sent_prefix: "\<exists>xs. pe_sent (pad_step e p) = pe_sent p @ xs"
  by (cases e) (auto simp: handle_digit_def delete_digit_def pin_result_def Let_def split: option.splits)

lemma pin_page_step_ok:
  assumes s: "pin_page_ok M s" and e: "(\<exists>m \<in> M. e = ChooseFace m) \<or> e = CancelPad \<or> e = LoginPad PadDelete \<or>
      (\<exists>d. is_digit d \<and> e = LoginPad (PadDigit d)) \<or> (\<exists>n r. e = LoginAnswer n r)"
  shows "pin_page_ok M (pin_page_step e s)"
proof -
  have fresh: "pad_ok open_pin_entry" by (simp add: pad_ok_def open_pin_entry_def)
  have pad: "pin_page_ok M (pin_page_step (LoginPad k) s)" if "on_pad k" for k
  proof (cases "pn_selected s")
    case (Some m)
    have p: "pad_ok (pad_step k (pn_pad s))" using s that by (intro pad_step_ok) (simp_all add: pin_page_ok_def)
    obtain xs where xs: "pe_sent (pad_step k (pn_pad s)) = pe_sent (pn_pad s) @ xs" using sent_prefix by blast
    with p have "\<forall>q \<in> set xs. length q = 4 \<and> list_all is_digit q" by (simp add: pad_ok_def)
    moreover have "m \<in> M" using s Some by (simp add: pin_page_ok_def)
    ultimately show ?thesis using s p xs Some by (auto simp: pin_page_ok_def newly_sent_def Let_def)
  qed (use s in simp)
  have ans: "pad_ok (pad_step (PadAnswer r) (pn_pad s))" for r
    using s by (intro pad_step_ok) (simp_all add: pin_page_ok_def on_pad_def)
  from e show ?thesis
  proof (elim disjE)
    assume "\<exists>m \<in> M. e = ChooseFace m" then show ?thesis using s fresh by (cases "pn_selected s") (auto simp: pin_page_ok_def)
  next
    assume "e = CancelPad" then show ?thesis using s by (simp add: pin_page_ok_def)
  next
    assume "e = LoginPad PadDelete" then show ?thesis using pad by (simp add: on_pad_def)
  next
    assume "\<exists>d. is_digit d \<and> e = LoginPad (PadDigit d)" then show ?thesis using pad by (auto simp: on_pad_def)
  next
    assume "\<exists>n r. e = LoginAnswer n r"
    then obtain n r where r: "e = LoginAnswer n r" by blast
    show ?thesis using s ans[of r] unfolding r
      by (cases r) (auto simp: pin_page_ok_def Let_def split: option.splits)
  qed
qed

fun login_outside :: "login_page_event \<Rightarrow> bool" where
  "login_outside (LoginAnswer n r) \<longleftrightarrow> True"
| "login_outside e \<longleftrightarrow> False"

lemma login_screen_laws:
  assumes "set (login_members (case members of None \<Rightarrow> [] | Some ms \<Rightarrow> ms)) \<subseteq> M"
  shows "screen (pin_page_view t loading members) pin_page_step login_outside (pin_page_ok M)"
proof unfold_locales
  fix s a e assume s: "pin_page_ok M s" and f: "fire a (pin_page_view t loading members s) = Some e"
  show "pin_page_ok M (pin_page_step e s)"
    by (rule pin_page_step_ok[OF s]) (use login_offers[OF f] assms in blast)
next
  fix s e assume s: "pin_page_ok M s" and "login_outside e"
  then obtain n r where "e = LoginAnswer n r" by (cases e) auto
  then show "pin_page_ok M (pin_page_step e s)" by (intro pin_page_step_ok[OF s]) blast
qed

interpretation login_screen: screen "pin_page_view t loading members" pin_page_step login_outside
  "pin_page_ok (set (login_members (case members of None \<Rightarrow> [] | Some ms \<Rightarrow> ms)))" for t loading members
  by (rule login_screen_laws) simp

text \<open>An overlay that was cancelled still signs in and leaves when its PIN is accepted.\<close>

lemma cancelled_pin_still_signs_in:
  assumes "find (\<lambda>r. fst r = k) (pn_waiting s) = Some r"
  shows "pn_went (run pin_page_step [CancelPad, LoginAnswer k None] s) = Some ''/''"
  using assms by (simp add: Let_def)

section \<open>Properties\<close>

text \<open>
  C40. The rendered kiosk implements the kiosk of \<open>Gates\<close>: whatever the user presses and in whatever order members and answers
  come, its screen is one that the step relation reaches, what it sends are PINs the settings page accepts, for members
  that are no pets, and it leaves, only to the checked address, only when the server accepted one of them.
\<close>

theorem rendered_kiosk_refines:
  assumes "list_all (use_legal kiosk_outside) us"
  shows "let s = run (use_step (kiosk_screen_view t x y loading ms) (kiosk_screen_step ps ms)) us kiosk_screen_start
   in kiosk_reachable ps ms (kx_page s) \<and>
      (\<forall>(m, p) \<in> set (kx_sent s). m \<in> set (selectable_members ms) \<and> valid_pin p) \<and>
      (kp_pushed (kx_page s) \<noteq> None \<longrightarrow>
         kp_pushed (kx_page s) = Some (kiosk_return_to ps) \<and> (\<exists>m \<in> set (selectable_members ms). m \<in> set (kp_accepted (kx_page s))))"
proof -
  let ?s = "run (use_step (kiosk_screen_view t x y loading ms) (kiosk_screen_step ps ms)) us kiosk_screen_start"
  have ok: "kiosk_screen_ok ps ms ?s"
    by (rule kiosk_rendered.always[OF _ assms])
      (simp add: kiosk_screen_ok_def kiosk_screen_start_def kiosk_start_def[symmetric] kiosk_reachable.start,
       simp add: kiosk_start_def open_kiosk_pad_def kiosk_pad_ok_def)
  then have "kiosk_inv ps ms (kx_page ?s)" by (auto simp: kiosk_screen_ok_def intro: kiosk_inv_reachable)
  then have "kp_pushed (kx_page ?s) \<noteq> None \<longrightarrow> kp_pushed (kx_page ?s) = Some (kiosk_return_to ps) \<and>
      (\<exists>m \<in> set (selectable_members ms). m \<in> set (kp_accepted (kx_page ?s)))"
    by (cases "kp_accepted (kx_page ?s)") (auto simp: kiosk_inv_def)
  with ok show ?thesis unfolding Let_def kiosk_screen_ok_def by blast
qed

definition anna :: api_member_ref where
  "anna = \<lparr>mr_id = ''m1'', mr_name = ''Anna'', mr_role = ''child''\<rparr>"

definition anna_unlocks :: "kiosk_screen_event use list" where
  "anna_unlocks = [User (Press ''lock-screen''), User (Press ''member-tile-m1''), User (Press ''1''), User (Press ''2''),
     User (Press ''3''), User (Press ''pin-submit''), User (Press ''4''), User (Press ''pin-submit''), Outside (ServerSays 1 True)]"

theorem rendered_kiosk_refines_witness:
  "let s = run (use_step (kiosk_screen_view (\<lambda>k. k) ''9:41'' ''Thursday'' False (Some [anna]))
       (kiosk_screen_step [(''returnTo'', ''/chores'')] (Some [anna]))) anna_unlocks kiosk_screen_start
   in kx_sent s = [(anna, ''1234'')] \<and> kp_pushed (kx_page s) = Some ''/chores'' \<and>
      kiosk_reachable [(''returnTo'', ''/chores'')] (Some [anna]) (kx_page s)"
proof -
  let ?ps = "[(''returnTo'', ''/chores'')]"
  let ?s = "run (use_step (kiosk_screen_view (\<lambda>k. k) ''9:41'' ''Thursday'' False (Some [anna]))
       (kiosk_screen_step ?ps (Some [anna]))) anna_unlocks kiosk_screen_start"
  have s: "kx_sent ?s = [(anna, ''1234'')]" "kp_pushed (kx_page ?s) = Some ''/chores''" by code_simp+
  have l: "list_all (use_legal kiosk_outside) anna_unlocks" by (simp add: anna_unlocks_def)
  from rendered_kiosk_refines[OF l, of "\<lambda>k. k" "''9:41''" "''Thursday''" False "Some [anna]" ?ps] s
  show ?thesis by (simp add: Let_def)
qed

text \<open>
  However the page of the PIN login is used: a PIN is sent for a listed member, never a pet, and has four digits, and the
  page leaves to the start page only.
\<close>

theorem pin_page_requests:
  assumes "list_all (use_legal login_outside) us"
  shows "let s = run (use_step (pin_page_view t loading (Some ms)) pin_page_step) us pin_page_start
   in (\<forall>(m, p) \<in> set (pn_sent s). m \<in> set ms \<and> mem_role m \<noteq> ''pet'' \<and> length p = 4 \<and> list_all is_digit p) \<and>
      (pn_went s = None \<or> pn_went s = Some ''/'')"
proof -
  let ?M = "set (login_members (case Some ms of None \<Rightarrow> [] | Some ms \<Rightarrow> ms))"
  have "pin_page_ok ?M (run (use_step (pin_page_view t loading (Some ms)) pin_page_step) us pin_page_start)"
    by (rule login_screen.always[OF _ assms]) (simp add: pin_page_ok_def pin_page_start_def pad_ok_def open_pin_entry_def)
  then show ?thesis by (auto simp: Let_def pin_page_ok_def login_members_def)
qed

end
