(* ===== verification/Spec2Isabelle.thy ===== *)
theory Spec2Isabelle
  imports UnifiedTasks ChoresKid Notes AiClient LiveUpdates Oidc Gates Kiosk PantryCues EventForm AdminForms Cooking
    AuditLog Onboarding Settings PinLogin Appearance TimeReview Equity ListScreens RoutineScreens Collections
    ErrorReports RecipeForms KioskWidgets Dashboards MealActions Boards
    Account SettingsViews OnboardingViews CalendarScreens
    RecipeScreens MealScreens CollectionScreens ListViews AdminViews MoneyViews EquityViews DashViews PinViews
begin

text \<open>
  Tidyboard is a family organiser: a web client in TypeScript (\<^verbatim>\<open>src/web/src\<close>) for phones, desktops and
  wall tablets, over a server in Go. This library models the client's own logic. Paths below are under
  \<^verbatim>\<open>src/web/src\<close>.

  How the client is put together, and where it is modelled.

  \<^item> A page signs in through OIDC or a PIN and keeps the session (\<^verbatim>\<open>lib/auth/auth-store.tsx\<close>,
    \<^verbatim>\<open>lib/auth/oidc.ts\<close>, \<^verbatim>\<open>app/pin-login\<close>): \<open>AuthStore\<close>, \<open>Oidc\<close>, \<open>PinLogin\<close>. Gates in front of the pages
    ask that state for access (\<^verbatim>\<open>components/auth-gate.tsx\<close>, \<^verbatim>\<open>app/kiosk\<close>, \<^verbatim>\<open>lib/use-idle-timeout.ts\<close>):
    \<open>Gates\<close>, \<open>Kiosk\<close>.
  \<^item> Every screen reads and writes through the request function of \<^verbatim>\<open>lib/api/client.ts\<close> and the hooks of
    \<^verbatim>\<open>lib/api/hooks.ts\<close>, which name the cache entries that a write makes stale: \<open>Http\<close>, \<open>ApiClient\<close>,
    \<open>HooksCore\<close>, \<open>HooksChores\<close>, \<open>HooksHome\<close>, \<open>HooksProps\<close>. A web socket (\<^verbatim>\<open>lib/ws\<close>) makes further entries
    stale: \<open>WsProvider\<close>, \<open>LiveUpdates\<close>. A query is a value (\<open>query\<close>: key, call, fallback), a write too
    (\<open>mutation\<close>: call and invalidated keys); the network is a function from calls to answers.
  \<^item> The wire types are records in \<open>ApiTypes\<close>. The screens project them: tasks (\<open>UnifiedTasks\<close>,
    \<^verbatim>\<open>lib/unified-tasks.ts\<close>), money and points (\<open>Wallet\<close>, \<^verbatim>\<open>lib/wallet\<close>, with the server's
    \<^verbatim>\<open>internal/service/wallet_math.go\<close>), chores (\<open>ChoresKid\<close>), shopping (\<open>Shopping\<close>, \<open>PantryCues\<close>), meals
    (\<open>MealPlan\<close>, \<open>MealActions\<close>, \<open>RecipeForms\<close>, \<open>Collections\<close>, \<open>Cooking\<close>), the calendar (\<open>CalendarViews\<close>,
    \<open>EventForm\<close>), lists and routines (\<open>ListScreens\<close>, \<open>RoutineScreens\<close>), balance (\<open>Equity\<close>), administration
    (\<open>AdminForms\<close>, \<open>AuditLog\<close>, \<open>TimeReview\<close>, \<open>Settings\<close>, \<open>Onboarding\<close>), dashboards and widgets (\<open>Dashboards\<close>,
    \<open>KioskWidgets\<close>, \<open>Boards\<close>), themes and languages (\<open>Appearance\<close>), failures (\<open>ErrorReports\<close>).
  \<^item> What is on the screen: \<open>Markup\<close> has the elements of a rendered component (texts, links, controls with
    their handlers) and a user who acts on them. Over it are the pages around the session (\<open>Account\<close>), the
    settings cards (\<open>SettingsViews\<close>), the onboarding wizard (\<open>OnboardingViews\<close>), the calendar
    (\<open>CalendarScreens\<close>), recipes, cooking and shopping (\<open>RecipeScreens\<close>), the plan of the week (\<open>MealScreens\<close>),
    collections (\<open>CollectionScreens\<close>), lists and routines (\<open>ListViews\<close>), the audit log and the review of times
    (\<open>AdminViews\<close>), the money, chore and point forms (\<open>MoneyViews\<close>), the balance (\<open>EquityViews\<close>),
    the dashboards (\<open>DashViews\<close>) and the pages of the PIN (\<open>PinViews\<close>), each the view of the state and handlers modelled in the theories above.
  \<^item> Kept in local storage only: notes (\<open>Notes\<close>, \<^verbatim>\<open>lib/notes\<close>) and the user's own keys for assistants
    (\<open>AiKeys\<close>, \<open>AiClient\<close>, \<^verbatim>\<open>lib/ai\<close>), over \<open>WebStorage\<close>.
  \<^item> Below them: \<open>Prelude\<close> (strings, printing, rounding), \<open>Json\<close> (values, \<^verbatim>\<open>JSON.stringify\<close> and
    \<^verbatim>\<open>JSON.parse\<close>), \<open>JsNumber\<close>, \<open>UrlCodec\<close>, \<open>DateUtc\<close> and \<open>LocalTime\<close> (\<^verbatim>\<open>Date\<close>), \<open>Grouping\<close> and \<open>Machine\<close>.

  How code becomes definitions. A component with state is a record; a handler is a function on it that
  returns the new state and the requests it sends; a component that waits for answers or timers is a step
  function over a datatype of events, and a run folds it over any sequence of them, so that its
  invariants hold for every interleaving. The locale \<open>machine\<close> gives what an invariant of such a
  component implies; it is interpreted for the components whose events keep one. A raised error is \<open>None\<close> or a left
  value. Where a call of a mutation brings its own callbacks, only those of the last call count, as the
  query client documents. A view is a function from the state to a list of elements; its controls carry the
  events of the step function, so that what a user can do is what is rendered and enabled, and the locale
  \<open>screen\<close> gives what holds after any use of a component. Texts come from the catalogue, a parameter \<open>t\<close>.

  Conventions and bounds. Strings are their UTF-8 bytes and case mapping is that of ASCII; lengths and
  cuts agree with the code on ASCII text. A finite Number is a rational (the code's amounts stay far below
  the precision of a double); the special values are those of \<open>jnum\<close>. Object access is to own
  properties. Dates are milliseconds with the standard's range check \<open>time_clip\<close>. The local time zone is
  a parameter with the law of \<open>local_zone\<close>, satisfied by the fixed zones and by zones with one change of
  the clocks. Where the standard leaves an order to the engine (an inconsistent comparison), the order is a
  parameter. The reader of JSON counts down from one more than the length of its text, and
  \<open>parse_json_str\<close> shows that this is enough for every printed value. The polling of an import
  job need not end, so that \<open>poll_job\<close> is a partial function, and \<open>polling_terminates\<close> says when it does.

  What the lemmas show. Projections lose and invent nothing (tasks, shopping, groups, calendar cells,
  widgets); printers and readers are inverse (JSON, URLs, dates, money, CSV, forms, storage); machines
  keep their invariants (session, socket, timers, onboarding, kiosk, reports, menus); handlers send
  exactly the requests of their branch; a write invalidates what the screens that show it read. Properties
  of the program are numbered C1 and on, each in the theory of its component. This theory adds what
  spans several of them.

  Not modelled. Drawing: layout, colours and icons, the frames of devices and the slides' fading. Pages that only mount
  a screen, previews, stories, fixtures and tests. The service worker and the manifest, which configure a
  library. The translations of the messages, and the formatting of dates and numbers by the browser, which
  is a parameter where a screen uses it. The query client, the router, \<^verbatim>\<open>fetch\<close>, SHA-256 and random numbers are
  third-party or platform code: parameters, or the documented behaviour stated where it is used. The Go
  server (but for its payout arithmetic), the Python services and the database are other programs.
\<close>

section \<open>From the server's list to every screen\<close>

lemma open_items_converted:
  "length (open_shopping (to_shopping l)) =
     length (filter (\<lambda>i. \<not> si_completed i) (case al_items l of None \<Rightarrow> [] | Some is \<Rightarrow> is))"
proof -
  let ?cats = "sh_categories (to_shopping l)" and ?open = "\<lambda>it. \<not> it_done it"
  have "length (open_shopping (to_shopping l)) = size (filter_mset ?open (mset (concat (map sc_items ?cats))))"
    by (simp add: open_shopping_def length_concat o_def filter_concat flip: mset_filter)
  also have "mset (concat (map sc_items ?cats)) = mset (map to_shopping_item (sorted_items l))"
    using converted[of "sorted_items l"] by (simp add: to_shopping_def Let_def)
  also have "\<dots> = image_mset to_shopping_item (mset (case al_items l of None \<Rightarrow> [] | Some is \<Rightarrow> is))"
    by (simp add: sorted_items_def)
  finally show ?thesis
    by (simp add: filter_mset_image_mset to_shopping_item_def o_def flip: mset_filter)
qed

text \<open>
  C39. The open items of the server's shopping list are counted alike wherever they are shown: on the tile and
  on the page of the companion, in the kiosk widget, and on the list grouped by aisle.
\<close>

theorem open_items_everywhere:
  "let s = to_shopping l; n = length (filter (\<lambda>i. \<not> si_completed i) (case al_items l of None \<Rightarrow> [] | Some is \<Rightarrow> is)) in
    snd (snd (companion_counts events chores (Some s))) = n \<and>
    length (fst (companion_shopping (Some s))) = n \<and>
    length (fst (shopping_widget limit s)) + snd (shopping_widget limit s) = n \<and>
    length (filter (\<lambda>it. \<not> it_done it) (concat (map sc_items (group_shopping (sh_categories s) Aisle)))) = n"
proof -
  let ?s = "to_shopping l"
  have out: "shopping_outstanding (Some ?s) = length (open_shopping ?s)"
    by (simp add: shopping_outstanding_def outstanding_count open_shopping_def length_concat o_def)
  have page: "fst (companion_shopping (Some ?s)) = open_shopping ?s"
    by (simp add: companion_shopping_def split_categories rows_of_open)
  have aisle: "length (filter (\<lambda>it. \<not> it_done it) (concat (map sc_items (sh_categories ?s)))) = length (open_shopping ?s)"
    by (simp add: open_shopping_def length_concat o_def filter_concat)
  show ?thesis
    unfolding Let_def open_items_converted[symmetric]
    by (simp add: companion_counts_def out page shopping_widget_def group_shopping_def aisle)
qed

end
